(* ===== verification/State_Machine.thy ===== *)
theory State_Machine
  imports Rust_Std
begin

section \<open>Interfaces: machines, invariants and once-only ledgers\<close>

text \<open>
  The contracts that several components meet.  Each is a locale whose assumptions are the
  laws the component has to keep and whose lemmas are what its clients get; the component
  theories interpret them on their own definitions.
\<close>

subsection \<open>Deterministic machines with terminal states\<close>

text \<open>Running a list of events; an event the machine refuses makes the run fail.\<close>

fun run_events :: "('s \<Rightarrow> 'e \<Rightarrow> 's option) \<Rightarrow> 's \<Rightarrow> 'e list \<Rightarrow> 's option" where
  "run_events step s [] = Some s"
| "run_events step s (e # es) =
     (case step s e of None \<Rightarrow> None | Some t \<Rightarrow> run_events step t es)"

lemma run_events_append:
  "run_events step s (es @ fs) =
     (case run_events step s es of None \<Rightarrow> None | Some t \<Rightarrow> run_events step t fs)"
  by (induction es arbitrary: s) (auto split: option.splits)

lemma run_events_Cons_Some:
  "run_events step s (e # es) = Some t \<longleftrightarrow>
     (\<exists>u. step s e = Some u \<and> run_events step u es = Some t)"
  by (auto split: option.splits)

locale terminal_machine =
  fixes mstep :: "'s \<Rightarrow> 'e \<Rightarrow> 's option"
    and final :: "'s \<Rightarrow> bool"
  assumes final_stuck: "final s \<Longrightarrow> mstep s e = None"
begin

lemma run_from_final: "final s \<Longrightarrow> run_events mstep s es = Some t \<longleftrightarrow> es = [] \<and> t = s"
  by (cases es) (auto simp: final_stuck)

lemma final_only_at_end:
  assumes "run_events mstep s (es @ fs) = Some t" and "run_events mstep s es = Some u"
    and "final u"
  shows "fs = [] \<and> t = u"
proof -
  have "run_events mstep u fs = Some t"
    using assms(1,2) by (simp add: run_events_append)
  then show ?thesis
    using assms(3) run_from_final by simp
qed

end

text \<open>An invariant of the accepted events.\<close>

locale event_invariant =
  fixes mstep :: "'s \<Rightarrow> 'e \<Rightarrow> 's option"
    and inv :: "'s \<Rightarrow> bool"
  assumes event_keeps: "inv s \<Longrightarrow> mstep s e = Some t \<Longrightarrow> inv t"
begin

lemma run_events_inv: "run_events mstep s es = Some t \<Longrightarrow> inv s \<Longrightarrow> inv t"
  by (induction es arbitrary: s) (auto split: option.splits intro: event_keeps)

end

text \<open>
  A quantity that every step changes by at most what a second quantity allows: counting one
  kind of event against another.
\<close>

locale event_balance = terminal_machine mstep final
  for mstep :: "'s \<Rightarrow> 'e \<Rightarrow> 's option" and final :: "'s \<Rightarrow> bool" +
  fixes stock :: "'s \<Rightarrow> nat"
    and earns :: "'e \<Rightarrow> nat"
    and spends :: "'e \<Rightarrow> nat"
  assumes balance: "mstep s e = Some t \<Longrightarrow> stock t + spends e \<le> stock s + earns e"
begin

lemma run_balance:
  "run_events mstep s es = Some t \<Longrightarrow>
     stock t + sum_list (map spends es) \<le> stock s + sum_list (map earns es)"
proof (induction es arbitrary: s)
  case Nil
  then show ?case by simp
next
  case (Cons e es)
  then obtain u where u: "mstep s e = Some u" "run_events mstep u es = Some t"
    by (auto split: option.splits)
  from balance [OF u(1)] Cons.IH [OF u(2)] show ?case by simp
qed

end

subsection \<open>Reachable states and invariants\<close>

inductive reach :: "('s \<Rightarrow> bool) \<Rightarrow> ('s \<Rightarrow> 's \<Rightarrow> bool) \<Rightarrow> 's \<Rightarrow> bool"
  for init :: "'s \<Rightarrow> bool" and step :: "'s \<Rightarrow> 's \<Rightarrow> bool" where
  reach_init: "init s \<Longrightarrow> reach init step s"
| reach_step: "reach init step s \<Longrightarrow> step s t \<Longrightarrow> reach init step t"

locale invariant_system =
  fixes init :: "'s \<Rightarrow> bool"
    and step :: "'s \<Rightarrow> 's \<Rightarrow> bool"
    and inv :: "'s \<Rightarrow> bool"
  assumes inv_init: "init s \<Longrightarrow> inv s"
    and inv_step: "step s t \<Longrightarrow> inv s \<Longrightarrow> inv t"
begin

lemma reach_inv: "reach init step s \<Longrightarrow> inv s"
  by (induction rule: reach.induct) (auto intro: inv_init inv_step)

end

subsection \<open>Ledgers that grant a key at most once\<close>

text \<open>
  The operations of a component are events; some of them grant a key (they tell the caller
  to execute the operation the key names).  \<open>grant_count\<close> counts the grants of one key in
  a run.
\<close>

fun run_ops :: "('s \<Rightarrow> 'o \<Rightarrow> 's) \<Rightarrow> 's \<Rightarrow> 'o list \<Rightarrow> 's" where
  "run_ops op s [] = s"
| "run_ops op s (x # xs) = run_ops op (op s x) xs"

lemma run_ops_append: "run_ops step s (xs @ ys) = run_ops step (run_ops step s xs) ys"
  by (induction xs arbitrary: s) auto

fun grant_count ::
  "('s \<Rightarrow> 'o \<Rightarrow> 's) \<Rightarrow> ('s \<Rightarrow> 'o \<Rightarrow> 'k option) \<Rightarrow> 'k \<Rightarrow> 's \<Rightarrow> 'o list \<Rightarrow> nat" where
  "grant_count op grant k s [] = 0"
| "grant_count op grant k s (x # xs) =
     (if grant s x = Some k then 1 else 0) + grant_count op grant k (op s x) xs"

locale once_ledger =
  fixes op :: "'s \<Rightarrow> 'o \<Rightarrow> 's"
    and grant :: "'s \<Rightarrow> 'o \<Rightarrow> 'k option"
    and used :: "'s \<Rightarrow> 'k \<Rightarrow> bool"
  assumes grant_fresh: "grant s x = Some k \<Longrightarrow> \<not> used s k"
    and grant_records: "grant s x = Some k \<Longrightarrow> used (op s x) k"
    and used_kept: "used s k \<Longrightarrow> used (op s x) k"
begin

lemma used_never_granted: "used s k \<Longrightarrow> grant_count op grant k s xs = 0"
  by (induction xs arbitrary: s) (auto dest: grant_fresh used_kept)

lemma granted_at_most_once: "grant_count op grant k s xs \<le> 1"
proof (induction xs arbitrary: s)
  case Nil
  then show ?case by simp
next
  case (Cons x xs)
  show ?case
  proof (cases "grant s x = Some k")
    case True
    then have "used (op s x) k" by (rule grant_records)
    then show ?thesis using True used_never_granted by simp
  next
    case False
    then show ?thesis using Cons by simp
  qed
qed

lemma used_run_kept: "used s k \<Longrightarrow> used (run_ops op s xs) k"
  by (induction xs arbitrary: s) (auto intro: used_kept)

end

subsection \<open>Conserved stocks\<close>

text \<open>
  A number attached to the events of a run, summed over the run; and the contract of a
  component that holds units of some resource: an event may give out no more units than the
  component holds and takes in.
\<close>

fun run_sum :: "('s \<Rightarrow> 'o \<Rightarrow> 's) \<Rightarrow> ('s \<Rightarrow> 'o \<Rightarrow> nat) \<Rightarrow> 's \<Rightarrow> 'o list \<Rightarrow> nat" where
  "run_sum op f s [] = 0"
| "run_sum op f s (x # xs) = f s x + run_sum op f (op s x) xs"

locale conserved_stock =
  fixes op :: "'s \<Rightarrow> 'o \<Rightarrow> 's"
    and stock :: "'s \<Rightarrow> nat"
    and takes_in :: "'s \<Rightarrow> 'o \<Rightarrow> nat"
    and gives_out :: "'s \<Rightarrow> 'o \<Rightarrow> nat"
  assumes stock_step: "stock (op s x) + gives_out s x \<le> stock s + takes_in s x"
begin

lemma given_out_bounded:
  "stock (run_ops op s xs) + run_sum op gives_out s xs \<le> stock s + run_sum op takes_in s xs"
proof (induction xs arbitrary: s)
  case Nil
  then show ?case by simp
next
  case (Cons x xs)
  from stock_step [of s x] Cons.IH [of "op s x"] show ?case by simp
qed

end

text \<open>An invariant of a machine given by a step function.\<close>

locale op_invariant =
  fixes op :: "'s \<Rightarrow> 'o \<Rightarrow> 's"
    and inv :: "'s \<Rightarrow> bool"
  assumes inv_op: "inv s \<Longrightarrow> inv (op s x)"
begin

lemma run_keeps_inv: "inv s \<Longrightarrow> inv (run_ops op s xs)"
  by (induction xs arbitrary: s) (auto intro: inv_op)

end

text \<open>
  When moreover no unit disappears without being given out, a unit that is held and not taken
  in again is given out exactly once.
\<close>

locale exact_stock = conserved_stock op stock takes_in gives_out + op_invariant op inv
  for op :: "'s \<Rightarrow> 'o \<Rightarrow> 's" and stock takes_in gives_out and inv :: "'s \<Rightarrow> bool" +
  assumes stock_kept: "inv s \<Longrightarrow> stock s \<le> stock (op s x) + gives_out s x"
begin

lemma nothing_lost: "inv s \<Longrightarrow> stock s \<le> stock (run_ops op s xs) + run_sum op gives_out s xs"
proof (induction xs arbitrary: s)
  case Nil
  then show ?case by simp
next
  case (Cons x xs)
  have "stock (op s x) \<le> stock (run_ops op (op s x) xs) + run_sum op gives_out (op s x) xs"
    by (rule Cons.IH) (rule inv_op [OF Cons.prems])
  with stock_kept [OF Cons.prems, of x] show ?case by simp
qed

lemma held_given_once:
  assumes "inv s" and "run_sum op takes_in s xs = 0"
  shows "stock (run_ops op s xs) + run_sum op gives_out s xs = stock s"
  using nothing_lost [OF assms(1), of xs] given_out_bounded [of s xs] assms(2)
  by simp

end

end
