(* ===== verification/Agent_Run.thy ===== *)
theory Agent_Run
  imports State_Machine
begin

section \<open>Agent runs and token budgets (\<open>agent.rs\<close>)\<close>

text \<open>
  The run state machine of \<open>crates/gobrowse-core/src/agent.rs\<close>: the states, the events,
  \<open>AgentRun::transition\<close> with its step counter, and the token budget arithmetic.
\<close>

datatype RunState =
    Run_Queued | Run_BuildingContext | Run_AwaitingModel | Run_AwaitingPolicy
  | Run_AwaitingApproval | Run_RunningTool | Run_Paused | Run_Completed | Run_Failed
  | Run_Canceled

definition is_terminal :: "RunState \<Rightarrow> bool" where
  "is_terminal s = (case s of Run_Completed \<Rightarrow> True | Run_Failed \<Rightarrow> True
     | Run_Canceled \<Rightarrow> True | _ \<Rightarrow> False)"

datatype RunEvent =
    Ev_Started | Ev_ContextBuilt | Ev_ModelRequested | Ev_ToolRequested | Ev_PolicyAllowed
  | Ev_ApprovalRequired | Ev_ApprovalGranted | Ev_ApprovalDenied | Ev_ToolCompleted
  | Ev_PauseRequested | Ev_ResumeRequested | Ev_TurnCompleted | Ev_Failed | Ev_CancelRequested

record TransitionError =
  te_from :: RunState
  te_event :: RunEvent

record AgentRun =
  run_id :: "128 word"
  run_state :: RunState
  run_step :: u32

text \<open>The \<open>match\<close> of \<open>transition\<close>; \<open>None\<close> is its last arm, the error.\<close>

definition next_run_state :: "RunState \<Rightarrow> RunEvent \<Rightarrow> RunState option" where
  "next_run_state s e =
     (case (s, e) of
        (Run_Queued, Ev_Started) \<Rightarrow> Some Run_BuildingContext
      | (Run_BuildingContext, Ev_ContextBuilt) \<Rightarrow> Some Run_AwaitingModel
      | (Run_AwaitingModel, Ev_ModelRequested) \<Rightarrow> Some Run_AwaitingModel
      | (Run_AwaitingModel, Ev_ToolRequested) \<Rightarrow> Some Run_AwaitingPolicy
      | (Run_AwaitingPolicy, Ev_PolicyAllowed) \<Rightarrow> Some Run_RunningTool
      | (Run_AwaitingPolicy, Ev_ApprovalRequired) \<Rightarrow> Some Run_AwaitingApproval
      | (Run_AwaitingApproval, Ev_ApprovalGranted) \<Rightarrow> Some Run_RunningTool
      | (Run_AwaitingApproval, Ev_ApprovalDenied) \<Rightarrow> Some Run_AwaitingModel
      | (Run_RunningTool, Ev_ToolCompleted) \<Rightarrow> Some Run_AwaitingModel
      | (Run_AwaitingModel, Ev_TurnCompleted) \<Rightarrow> Some Run_Completed
      | (Run_Paused, Ev_ResumeRequested) \<Rightarrow> Some Run_BuildingContext
      | (st, Ev_PauseRequested) \<Rightarrow> (if \<not> is_terminal st then Some Run_Paused else None)
      | (st, Ev_CancelRequested) \<Rightarrow> (if \<not> is_terminal st then Some Run_Canceled else None)
      | (st, Ev_Failed) \<Rightarrow> (if \<not> is_terminal st then Some Run_Failed else None)
      | _ \<Rightarrow> None)"

definition transition :: "AgentRun \<Rightarrow> RunEvent \<Rightarrow> (TransitionError + RunState) \<times> AgentRun" where
  "transition run event =
     (case next_run_state (run_state run) event of
        None \<Rightarrow> (Inl \<lparr>te_from = run_state run, te_event = event\<rparr>, run)
      | Some next \<Rightarrow>
          (Inr next, run\<lparr>run_state := next, run_step := saturating_add (run_step run) 1\<rparr>))"

record TokenBudget =
  context_window :: u32
  reserved_output :: u32
  tb_system :: u32
  recent_conversation :: u32
  pinned_books :: u32
  retrieved_library :: u32
  tb_skills :: u32
  tb_tools :: u32

definition input_limit :: "TokenBudget \<Rightarrow> u32" where
  "input_limit b = saturating_sub (context_window b) (reserved_output b)"

definition allocated :: "TokenBudget \<Rightarrow> u32" where
  "allocated b =
     saturating_add (saturating_add (saturating_add (saturating_add (saturating_add
       (tb_system b) (recent_conversation b)) (pinned_books b)) (retrieved_library b))
       (tb_skills b)) (tb_tools b)"

definition fits :: "TokenBudget \<Rightarrow> bool" where
  "fits b \<longleftrightarrow> allocated b \<le> input_limit b"

subsection \<open>Transitions\<close>

lemma next_run_state_terminal [simp]: "is_terminal s \<Longrightarrow> next_run_state s e = None"
  by (cases s; cases e) (simp_all add: is_terminal_def next_run_state_def)

text \<open>The machine the run is for its clients: what a sequence of accepted events leads to.\<close>

definition run_accept :: "AgentRun \<Rightarrow> RunEvent \<Rightarrow> AgentRun option" where
  "run_accept run e = (case transition run e of (Inl _, _) \<Rightarrow> None | (Inr _, r) \<Rightarrow> Some r)"

lemma run_accept_Some:
  "run_accept run e = Some r \<longleftrightarrow>
     (\<exists>s. next_run_state (run_state run) e = Some s \<and>
        r = run\<lparr>run_state := s, run_step := saturating_add (run_step run) 1\<rparr>)"
  by (auto simp: run_accept_def transition_def split: option.splits)

text \<open>What the machine has been authorised to do but has not done yet: one tool run.\<close>

definition tool_stock :: "AgentRun \<Rightarrow> nat" where
  "tool_stock r = (if run_state r = Run_RunningTool then 1 else 0)"

definition authorises :: "RunEvent \<Rightarrow> nat" where
  "authorises e = (if e = Ev_PolicyAllowed \<or> e = Ev_ApprovalGranted then 1 else 0)"

definition completes_tool :: "RunEvent \<Rightarrow> nat" where
  "completes_tool e = (if e = Ev_ToolCompleted then 1 else 0)"

lemma next_run_state_tool_balance:
  "next_run_state s e = Some t \<Longrightarrow>
     (if t = Run_RunningTool then 1 else 0) + completes_tool e
       \<le> (if s = Run_RunningTool then 1 else 0) + authorises e"
  by (cases s; cases e)
     (auto simp: completes_tool_def authorises_def is_terminal_def next_run_state_def)

interpretation agent_run: terminal_machine run_accept "\<lambda>r. is_terminal (run_state r)"
  by unfold_locales (simp add: run_accept_def transition_def)

interpretation agent_tools:
  event_balance run_accept "\<lambda>r. is_terminal (run_state r)" tool_stock authorises completes_tool
  by unfold_locales
     (auto simp: run_accept_Some tool_stock_def dest!: next_run_state_tool_balance)

lemma run_step_count:
  "run_events run_accept r es = Some t \<Longrightarrow>
     unat (run_step t) = min (unat (run_step r) + length es) (2 ^ 32 - 1)"
proof (induction es arbitrary: r)
  case Nil
  then show ?case by (simp add: min_def)
next
  case (Cons e es)
  then obtain u where u: "run_accept r e = Some u" "run_events run_accept u es = Some t"
    by (auto split: option.splits)
  from u(1) have "unat (run_step u) = min (unat (run_step r) + 1) (2 ^ 32 - 1)"
    by (auto simp: run_accept_Some unat_saturating_add)
  with Cons.IH [OF u(2)] show ?case by simp
qed

text \<open>
  Property C37: a tool never completes more often than the policy engine or an approver let one
  run.  In every accepted run of events from a queued run, the completed tool calls number at
  most the \<open>PolicyAllowed\<close> and \<open>ApprovalGranted\<close> events.
\<close>

theorem tool_completions_authorised:
  assumes "run_events run_accept r es = Some t" and "run_state r = Run_Queued"
  shows "length (filter (\<lambda>e. e = Ev_ToolCompleted) es)
      \<le> length (filter (\<lambda>e. e = Ev_PolicyAllowed \<or> e = Ev_ApprovalGranted) es)"
proof -
  have "tool_stock r = 0" using assms(2) by (simp add: tool_stock_def)
  with agent_tools.run_balance [OF assms(1)]
  have le: "sum_list (map completes_tool es) \<le> sum_list (map authorises es)" by simp
  have "sum_list (map completes_tool es) = length (filter (\<lambda>e. e = Ev_ToolCompleted) es)"
    by (induction es) (auto simp: completes_tool_def)
  moreover have "sum_list (map authorises es)
      = length (filter (\<lambda>e. e = Ev_PolicyAllowed \<or> e = Ev_ApprovalGranted) es)"
    by (induction es) (auto simp: authorises_def)
  ultimately show ?thesis using le by simp
qed

definition example_run :: AgentRun where
  "example_run = \<lparr>run_id = 0, run_state = Run_Queued, run_step = 0\<rparr>"

definition example_events :: "RunEvent list" where
  "example_events = [Ev_Started, Ev_ContextBuilt, Ev_ToolRequested, Ev_ApprovalRequired,
     Ev_ApprovalGranted, Ev_ToolCompleted, Ev_TurnCompleted]"

lemma example_run_completes:
  "run_events run_accept example_run example_events
     = Some \<lparr>run_id = 0, run_state = Run_Completed, run_step = 7\<rparr>"
  by (simp add: example_run_def example_events_def run_accept_def transition_def
      next_run_state_def saturating_add_def)

theorem tool_completions_authorised_witness:
  "length (filter (\<lambda>e. e = Ev_ToolCompleted) example_events)
     \<le> length (filter (\<lambda>e. e = Ev_PolicyAllowed \<or> e = Ev_ApprovalGranted) example_events)"
  by (rule tool_completions_authorised [OF example_run_completes]) (simp add: example_run_def)

text \<open>
  Property: a run that has reached a terminal state accepts no further event, and the step
  counter of an accepted run counts its events exactly, stopping at the largest 32-bit value
  instead of wrapping around.
\<close>

theorem terminal_runs_are_final:
  assumes "run_events run_accept r (es @ fs) = Some t"
    and "run_events run_accept r es = Some u" and "is_terminal (run_state u)"
  shows "fs = [] \<and> t = u \<and> unat (run_step t) = min (unat (run_step r) + length es) (2 ^ 32 - 1)"
  using agent_run.final_only_at_end [OF assms] run_step_count [OF assms(2)] by simp

theorem terminal_runs_are_final_witness:
  "is_terminal Run_Completed \<and> unat (7 :: u32) = min (0 + 7) (2 ^ 32 - 1)"
  using terminal_runs_are_final [where fs = "[]", simplified,
      OF example_run_completes example_run_completes]
  by (simp add: is_terminal_def example_run_def example_events_def)

subsection \<open>Token budgets\<close>

definition budget_total :: "TokenBudget \<Rightarrow> nat" where
  "budget_total b = unat (tb_system b) + unat (recent_conversation b) + unat (pinned_books b)
     + unat (retrieved_library b) + unat (tb_skills b) + unat (tb_tools b)"

lemma unat_allocated: "unat (allocated b) = min (budget_total b) (2 ^ 32 - 1)"
  by (simp add: allocated_def budget_total_def unat_saturating_add)

lemma unat_input_limit: "unat (input_limit b) = unat (context_window b) - unat (reserved_output b)"
  by (simp add: input_limit_def unat_saturating_sub)

text \<open>
  Property: \<open>TokenBudget::fits\<close> decides whether the true total of the parts, computed
  without overflow, is within the context window less the reserved output.  The saturating sums
  are exact except at one point: with the limit at the largest 32-bit value they accept every
  total, however large.
\<close>

theorem fits_iff:
  "fits b \<longleftrightarrow>
     (if input_limit b = - 1 then True
      else budget_total b \<le> unat (context_window b) - unat (reserved_output b))"
proof (cases "input_limit b = - 1")
  case True
  then show ?thesis
    by (simp add: fits_def word_le_nat_alt unat_allocated unat_minus_one_u32)
next
  case False
  then have "unat (input_limit b) \<noteq> 4294967295"
    using unat_minus_one_u32 word_unat_eq_iff [of "input_limit b" "- 1"] by simp
  then have "unat (input_limit b) < 4294967295"
    by (rule le_neq_implies_less [OF unat_u32_le])
  with False show ?thesis
    by (auto simp: fits_def word_le_nat_alt unat_allocated unat_input_limit)
qed

end
