(* ===== verification/Rust_Str.thy ===== *)
theory Rust_Str
  imports Rust_Std
begin

section \<open>Rust strings as UTF-8 byte lists\<close>

text \<open>
  The string operations the code uses, on byte lists, and the lemmas about them that the
  component theories share.
\<close>

definition byte :: "char \<Rightarrow> nat" where
  "byte c = of_char c"

subsection \<open>Decoding: \<open>chars\<close> and \<open>char_indices\<close>\<close>

text \<open>
  The width of a character is read off its first byte, as \<open>core::str\<close> does, relying on
  the string being valid UTF-8.  \<open>char_slices\<close> cuts a string into its characters, each
  as its bytes; joining the slices gives the string back whatever the bytes are.
\<close>

definition utf8_width :: "char \<Rightarrow> nat" where
  "utf8_width c =
     (if byte c < 128 then 1 else if byte c < 224 then 2 else if byte c < 240 then 3 else 4)"

fun char_slices :: "string \<Rightarrow> string list" where
  "char_slices [] = []"
| "char_slices (c # cs) =
     (c # take (utf8_width c - 1) cs) # char_slices (drop (utf8_width c - 1) cs)"

fun code_point :: "string \<Rightarrow> nat" where
  "code_point [a] = byte a"
| "code_point [a, b] = (byte a mod 32) * 64 + byte b mod 64"
| "code_point [a, b, c] = ((byte a mod 16) * 64 + byte b mod 64) * 64 + byte c mod 64"
| "code_point [a, b, c, d] =
     (((byte a mod 8) * 64 + byte b mod 64) * 64 + byte c mod 64) * 64 + byte d mod 64"
| "code_point _ = 0"

definition str_chars :: "string \<Rightarrow> nat list" where
  "str_chars s = map code_point (char_slices s)"

text \<open>\<open>char::is_control\<close> is the general category Cc; \<open>char::is_whitespace\<close> is White_Space.\<close>

definition is_control :: "nat \<Rightarrow> bool" where
  "is_control c \<longleftrightarrow> c < 32 \<or> 127 \<le> c \<and> c < 160"

definition is_whitespace :: "nat \<Rightarrow> bool" where
  "is_whitespace c \<longleftrightarrow> 9 \<le> c \<and> c \<le> 13 \<or> 8192 \<le> c \<and> c \<le> 8202 \<or>
     c \<in> set [32, 133, 160, 5760, 8232, 8233, 8239, 8287, 12288]"

definition is_ascii_digit :: "nat \<Rightarrow> bool" where
  "is_ascii_digit c \<longleftrightarrow> 48 \<le> c \<and> c \<le> 57"

definition is_ascii_uppercase :: "nat \<Rightarrow> bool" where
  "is_ascii_uppercase c \<longleftrightarrow> 65 \<le> c \<and> c \<le> 90"

definition is_ascii_lowercase :: "nat \<Rightarrow> bool" where
  "is_ascii_lowercase c \<longleftrightarrow> 97 \<le> c \<and> c \<le> 122"

definition is_ascii_alphanumeric :: "nat \<Rightarrow> bool" where
  "is_ascii_alphanumeric c \<longleftrightarrow>
     is_ascii_digit c \<or> is_ascii_uppercase c \<or> is_ascii_lowercase c"

definition is_ascii_hexdigit :: "nat \<Rightarrow> bool" where
  "is_ascii_hexdigit c \<longleftrightarrow>
     is_ascii_digit c \<or> 65 \<le> c \<and> c \<le> 70 \<or> 97 \<le> c \<and> c \<le> 102"

definition ascii_lower_char :: "char \<Rightarrow> char" where
  "ascii_lower_char c = (if is_ascii_uppercase (byte c) then char_of (byte c + 32) else c)"

definition to_ascii_lowercase :: "string \<Rightarrow> string" where
  "to_ascii_lowercase s = map ascii_lower_char s"

subsection \<open>Searching and splitting\<close>

definition starts_with :: "'a list \<Rightarrow> 'a list \<Rightarrow> bool" where
  "starts_with s p \<longleftrightarrow> take (length p) s = p"

definition ends_with :: "'a list \<Rightarrow> 'a list \<Rightarrow> bool" where
  "ends_with s p \<longleftrightarrow> drop (length s - length p) s = p"

fun str_contains :: "'a list \<Rightarrow> 'a list \<Rightarrow> bool" where
  "str_contains [] p \<longleftrightarrow> p = []"
| "str_contains (c # cs) p \<longleftrightarrow> starts_with (c # cs) p \<or> str_contains cs p"

definition strip_suffix :: "'a list \<Rightarrow> 'a list \<Rightarrow> 'a list option" where
  "strip_suffix s p = (if ends_with s p then Some (take (length s - length p) s) else None)"

text \<open>\<open>split(d)\<close> on a one-byte separator, \<open>splitn(n, d)\<close> and \<open>split_once(d)\<close>.\<close>

fun split_on :: "'a \<Rightarrow> 'a list \<Rightarrow> 'a list list" where
  "split_on d [] = [[]]"
| "split_on d (c # cs) =
     (if c = d then [] # split_on d cs
      else case split_on d cs of [] \<Rightarrow> [[c]] | w # ws \<Rightarrow> (c # w) # ws)"

fun find_index :: "('a \<Rightarrow> bool) \<Rightarrow> 'a list \<Rightarrow> nat option" where
  "find_index P [] = None"
| "find_index P (x # xs) = (if P x then Some 0 else map_option Suc (find_index P xs))"

definition split_once :: "'a \<Rightarrow> 'a list \<Rightarrow> ('a list \<times> 'a list) option" where
  "split_once d s =
     (case find_index (\<lambda>c. c = d) s of None \<Rightarrow> None
      | Some i \<Rightarrow> Some (take i s, drop (Suc i) s))"

fun splitn :: "nat \<Rightarrow> 'a \<Rightarrow> 'a list \<Rightarrow> 'a list list" where
  "splitn 0 d s = []"
| "splitn (Suc 0) d s = [s]"
| "splitn (Suc (Suc n)) d s =
     (case split_once d s of None \<Rightarrow> [s] | Some (a, b) \<Rightarrow> a # splitn (Suc n) d b)"

fun str_join :: "'a list \<Rightarrow> 'a list list \<Rightarrow> 'a list" where
  "str_join sep [] = []"
| "str_join sep [w] = w"
| "str_join sep (w # v # ws) = w @ sep @ str_join sep (v # ws)"

subsection \<open>White space\<close>

definition slice_is_ws :: "string \<Rightarrow> bool" where
  "slice_is_ws sl = is_whitespace (code_point sl)"

definition str_trim :: "string \<Rightarrow> string" where
  "str_trim s =
     concat (rev (dropWhile slice_is_ws (rev (dropWhile slice_is_ws (char_slices s)))))"

text \<open>The maximal runs of characters that do not satisfy \<open>P\<close>.\<close>

fun runs :: "('a \<Rightarrow> bool) \<Rightarrow> 'a list \<Rightarrow> 'a list \<Rightarrow> 'a list list" where
  "runs P acc [] = (if acc = [] then [] else [acc])"
| "runs P acc (x # xs) =
     (if P x then (if acc = [] then runs P [] xs else acc # runs P [] xs)
      else runs P (acc @ [x]) xs)"

definition split_whitespace :: "string \<Rightarrow> string list" where
  "split_whitespace s = map concat (runs slice_is_ws [] (char_slices s))"

lemmas ascii_class_defs [rust_defs] =
  is_control_def is_whitespace_def is_ascii_digit_def is_ascii_uppercase_def
  is_ascii_lowercase_def is_ascii_alphanumeric_def is_ascii_hexdigit_def byte_def

lemma char_of_eq [rust_defs]: "char_of n = c \<longleftrightarrow> n mod 256 = (of_char c :: nat)"
  by (simp add: char_of_eq_iff take_bit_eq_mod)

lemmas str_defs [rust_defs] =
  starts_with_def ends_with_def strip_suffix_def split_once_def ascii_lower_char_def
  to_ascii_lowercase_def str_chars_def utf8_width_def slice_is_ws_def str_trim_def
  split_whitespace_def

subsection \<open>Facts about the decoder\<close>

lemma concat_char_slices [simp]: "concat (char_slices s) = s"
  by (induction s rule: char_slices.induct) auto

lemma char_slices_nonempty: "sl \<in> set (char_slices s) \<Longrightarrow> sl \<noteq> []"
  by (induction s rule: char_slices.induct) auto

lemma char_slices_Nil [simp]: "char_slices s = [] \<longleftrightarrow> s = []"
  by (cases s) auto

lemma length_char_slices: "length (char_slices s) \<le> length s"
proof (induction s rule: char_slices.induct)
  case (2 c cs)
  then have "length (char_slices (drop (utf8_width c - 1) cs)) \<le> length cs"
    by (rule le_trans) simp
  then show ?case by simp
qed simp

definition is_ascii :: "string \<Rightarrow> bool" where
  "is_ascii s \<longleftrightarrow> list_all (\<lambda>c. byte c < 128) s"

lemma char_slices_ascii: "is_ascii s \<Longrightarrow> char_slices s = map (\<lambda>c. [c]) s"
  by (induction s) (auto simp: is_ascii_def utf8_width_def)

lemma str_chars_ascii: "is_ascii s \<Longrightarrow> str_chars s = map byte s"
  by (simp add: str_chars_def char_slices_ascii)

text \<open>
  A slice is complete when it has the width its first byte announces; in a string of complete
  slices, decoding does not depend on what follows.
\<close>

definition complete_slice :: "string \<Rightarrow> bool" where
  "complete_slice sl \<longleftrightarrow> sl \<noteq> [] \<and> length sl = utf8_width (hd sl)"

definition complete_str :: "string \<Rightarrow> bool" where
  "complete_str s \<longleftrightarrow> list_all complete_slice (char_slices s)"

text \<open>UTF-8 proper: continuation bytes, no overlong forms, no surrogates, at most U+10FFFF.\<close>

definition continuation :: "char \<Rightarrow> bool" where
  "continuation c \<longleftrightarrow> 128 \<le> byte c \<and> byte c < 192"

definition utf8_slice :: "string \<Rightarrow> bool" where
  "utf8_slice sl \<longleftrightarrow> complete_slice sl \<and> list_all continuation (tl sl) \<and>
     (length sl = 1 \<or>
      length sl = 2 \<and> 194 \<le> byte (hd sl) \<or>
      length sl = 3 \<and> 2048 \<le> code_point sl \<and>
        \<not> (55296 \<le> code_point sl \<and> code_point sl \<le> 57343) \<or>
      length sl = 4 \<and> byte (hd sl) \<le> 244 \<and> 65536 \<le> code_point sl \<and>
        code_point sl \<le> 1114111)"

definition is_utf8 :: "string \<Rightarrow> bool" where
  "is_utf8 s \<longleftrightarrow> list_all utf8_slice (char_slices s)"

lemma is_utf8_complete: "is_utf8 s \<Longrightarrow> complete_str s"
  by (auto simp: is_utf8_def complete_str_def utf8_slice_def list_all_iff)

lemma char_slices_complete_append:
  "complete_slice sl \<Longrightarrow> char_slices (sl @ s) = sl # char_slices s"
  by (cases sl) (auto simp: complete_slice_def)

lemma char_slices_concat:
  "list_all complete_slice sls \<Longrightarrow> char_slices (concat sls @ s) = sls @ char_slices s"
  by (induction sls) (simp_all add: char_slices_complete_append)

lemma char_slices_append:
  "complete_str s \<Longrightarrow> char_slices (s @ t) = char_slices s @ char_slices t"
  using char_slices_concat [of "char_slices s" t] by (simp add: complete_str_def)

lemma is_ascii_complete: "is_ascii s \<Longrightarrow> complete_str s"
  by (simp add: complete_str_def char_slices_ascii)
     (auto simp: is_ascii_def list_all_iff complete_slice_def utf8_width_def)

lemma is_ascii_append [simp]: "is_ascii (s @ t) \<longleftrightarrow> is_ascii s \<and> is_ascii t"
  by (simp add: is_ascii_def)

lemma runs_no_P:
  "w \<in> set (runs P acc xs) \<Longrightarrow> (\<And>x. x \<in> set acc \<Longrightarrow> \<not> P x) \<Longrightarrow>
     w \<noteq> [] \<and> (\<forall>x \<in> set w. \<not> P x)"
  by (induction P acc xs rule: runs.induct) (fastforce split: if_splits)+

lemma runs_blocks:
  "(\<And>x. x \<in> set w \<Longrightarrow> \<not> P x) \<Longrightarrow> runs P acc (w @ xs) = runs P (acc @ w) xs"
  by (induction w arbitrary: acc) auto

text \<open>Splitting the words joined by single spaces gives the words back.\<close>

lemma split_whitespace_join:
  assumes "\<And>w. w \<in> set ws \<Longrightarrow>
      w \<noteq> [] \<and> complete_str w \<and> (\<forall>sl \<in> set (char_slices w). \<not> slice_is_ws sl)"
  shows "split_whitespace (str_join '' '' ws) = ws"
proof -
  have width: "utf8_width CHR '' '' = 1"
    by (simp add: utf8_width_def byte_def)
  have ws_space: "slice_is_ws '' ''"
    by (simp add: slice_is_ws_def is_whitespace_def byte_def)
  from assms have "runs slice_is_ws [] (char_slices (str_join '' '' ws)) = map char_slices ws"
  proof (induction "'' ''" ws rule: str_join.induct)
    case 1
    then show ?case by simp
  next
    case (2 w)
    then show ?case using runs_blocks [of "char_slices w" slice_is_ws "[]" "[]"] by simp
  next
    case (3 w v ws)
    from 3 have "complete_str w" "\<And>x. x \<in> set (char_slices w) \<Longrightarrow> \<not> slice_is_ws x" "w \<noteq> []"
      by auto
    moreover have "runs slice_is_ws [] (char_slices (str_join '' '' (v # ws))) = map char_slices (v # ws)"
      by (rule 3(1)) (use 3(2) in auto)
    ultimately show ?case
      using runs_blocks [of "char_slices w" slice_is_ws "[]"] width
      by (simp add: char_slices_append ws_space)
  qed
  then show ?thesis by (simp add: split_whitespace_def comp_def)
qed

lemma split_whitespace_words:
  assumes "w \<in> set (split_whitespace s)" and "complete_str s"
  shows "w \<noteq> [] \<and> complete_str w \<and> (\<forall>sl \<in> set (char_slices w). \<not> slice_is_ws sl)"
proof -
  from assms(1) obtain r where r: "r \<in> set (runs slice_is_ws [] (char_slices s))" "w = concat r"
    by (auto simp: split_whitespace_def)
  have sub: "r \<in> set (runs P acc xs) \<Longrightarrow> set r \<subseteq> set acc \<union> set xs" for P acc xs
    by (induction P acc xs rule: runs.induct) (fastforce split: if_splits)+
  have "set r \<subseteq> set (char_slices s)" using sub [OF r(1)] by simp
  with assms(2) have compl: "list_all complete_slice r"
    by (auto simp: complete_str_def list_all_iff)
  then have "char_slices w = r" using char_slices_concat [of r "[]"] r(2) by simp
  moreover have "r \<noteq> [] \<and> (\<forall>x \<in> set r. \<not> slice_is_ws x)"
    by (rule runs_no_P [OF r(1)]) simp
  ultimately show ?thesis
    using compl by (auto simp: complete_str_def simp flip: char_slices_Nil [of w])
qed

subsection \<open>Facts about searching and splitting\<close>

lemma starts_with_iff: "starts_with s p \<longleftrightarrow> (\<exists>t. s = p @ t)"
  unfolding starts_with_def by (metis append_eq_conv_conj append_take_drop_id)

lemma ends_with_iff: "ends_with s p \<longleftrightarrow> (\<exists>t. s = t @ p)"
proof
  assume "ends_with s p"
  then show "\<exists>t. s = t @ p"
    unfolding ends_with_def by (metis append_take_drop_id)
next
  assume "\<exists>t. s = t @ p"
  then show "ends_with s p" by (auto simp: ends_with_def)
qed

lemma str_contains_iff: "str_contains s p \<longleftrightarrow> (\<exists>a b. s = a @ p @ b)"
proof (induction s)
  case Nil
  then show ?case by auto
next
  case (Cons c cs)
  have "(\<exists>a b. c # cs = a @ p @ b) \<longleftrightarrow> (\<exists>b. c # cs = p @ b) \<or> (\<exists>a b. cs = a @ p @ b)"
    by (auto simp: Cons_eq_append_conv)
  with Cons show ?case by (auto simp: starts_with_iff)
qed

lemma strip_suffix_Some: "strip_suffix s p = Some t \<longleftrightarrow> s = t @ p"
  by (auto simp: strip_suffix_def ends_with_iff)

lemma split_on_nonempty [simp]: "split_on d s \<noteq> []"
  by (cases s) (auto split: list.splits)

lemma split_on_no_sep: "d \<notin> set s \<Longrightarrow> split_on d s = [s]"
  by (induction s) auto

lemma split_on_append: "split_on d (a @ d # b) = split_on d a @ split_on d b"
  by (induction a) (auto split: list.splits)

lemma split_on_sep: "w \<in> set (split_on d s) \<Longrightarrow> d \<notin> set w"
  by (induction s arbitrary: w) (auto split: if_splits list.splits)

lemma join_split_on: "str_join [d] (split_on d s) = s"
proof (induction s)
  case Nil
  then show ?case by simp
next
  case (Cons c cs)
  obtain w ws where w: "split_on d cs = w # ws"
    by (meson list.exhaust split_on_nonempty)
  with Cons show ?case by (cases ws) auto
qed

lemma split_on_mem_set: "w \<in> set (split_on d s) \<Longrightarrow> set w \<subseteq> set s"
proof (induction s arbitrary: w)
  case (Cons c cs)
  then show ?case
    by (cases "split_on d cs") (force split: if_splits)+
qed simp

lemma split_on_join:
  "ws \<noteq> [] \<Longrightarrow> (\<And>w. w \<in> set ws \<Longrightarrow> d \<notin> set w) \<Longrightarrow> split_on d (str_join [d] ws) = ws"
  by (induction "[d]" ws rule: str_join.induct) (auto simp: split_on_append split_on_no_sep)

lemma set_str_join: "set (str_join sep ws) \<subseteq> set sep \<union> (\<Union>w \<in> set ws. set w)"
  by (induction sep ws rule: str_join.induct) auto

lemma str_join_Nil_iff:
  "(\<And>w. w \<in> set ws \<Longrightarrow> w \<noteq> []) \<Longrightarrow> str_join sep ws = [] \<longleftrightarrow> ws = []"
  by (induction sep ws rule: str_join.induct) auto

lemma find_index_Some:
  "find_index P xs = Some i \<Longrightarrow>
     i < length xs \<and> P (xs ! i) \<and> (\<forall>x \<in> set (take i xs). \<not> P x)"
  by (induction xs arbitrary: i) (auto split: if_splits simp: less_Suc_eq_0_disj)

lemma find_index_None: "find_index P xs = None \<longleftrightarrow> (\<forall>x \<in> set xs. \<not> P x)"
  by (induction xs) auto

lemma split_once_Some:
  "split_once d s = Some (a, b) \<longleftrightarrow> s = a @ d # b \<and> d \<notin> set a"
proof (induction s arbitrary: a)
  case Nil
  then show ?case by (simp add: split_once_def)
next
  case (Cons c cs)
  show ?case
  proof (cases "c = d")
    case True
    then show ?thesis by (cases a) (auto simp: split_once_def)
  next
    case False
    have "split_once d (c # cs) = Some (a, b) \<longleftrightarrow>
        (\<exists>a'. a = c # a' \<and> split_once d cs = Some (a', b))"
      using False by (auto simp: split_once_def split: option.splits)
    with Cons False show ?thesis by (cases a) auto
  qed
qed

lemma split_once_None: "split_once d s = None \<longleftrightarrow> d \<notin> set s"
  using find_index_None [of "\<lambda>c. c = d" s]
  by (auto simp: split_once_def split: option.splits)

end
