(* ===== verification/Json.thy ===== *)
theory Json
  imports Rust_Str
begin

section \<open>JSON values (\<open>serde_json::Value\<close>)\<close>

text \<open>
  The value type every MCP message goes through.  A number is one of the three forms
  \<open>serde_json::Number\<close> keeps, a floating-point one by its bits.  An object is a
  \<open>BTreeMap\<close> (the crate is built without \<open>preserve_order\<close>): an association list in
  ascending order of its keys.
\<close>

datatype json_number = PosInt u64 | NegInt int | Float u64

datatype json =
    JNull | JBool bool | JNumber json_number | JString string
  | JArray "json list" | JObject "(string \<times> json) list"

fun map_insert :: "'k::linorder \<Rightarrow> 'v \<Rightarrow> ('k \<times> 'v) list \<Rightarrow> ('k \<times> 'v) list" where
  "map_insert k v [] = [(k, v)]"
| "map_insert k v ((k', v') # m) =
     (if k < k' then (k, v) # (k', v') # m
      else if k = k' then (k, v) # m
      else (k', v') # map_insert k v m)"

definition is_btree :: "('k::linorder \<times> 'v) list \<Rightarrow> bool" where
  "is_btree m \<longleftrightarrow> sorted_wrt (<) (map fst m)"

subsection \<open>The accessors\<close>

fun json_get :: "json \<Rightarrow> string \<Rightarrow> json option" where
  "json_get (JObject m) key = map_of m key"
| "json_get _ key = None"

fun as_str :: "json \<Rightarrow> string option" where
  "as_str (JString s) = Some s"
| "as_str _ = None"

fun as_array :: "json \<Rightarrow> json list option" where
  "as_array (JArray xs) = Some xs"
| "as_array _ = None"

fun as_object :: "json \<Rightarrow> (string \<times> json) list option" where
  "as_object (JObject m) = Some m"
| "as_object _ = None"

fun as_i64 :: "json \<Rightarrow> int option" where
  "as_i64 (JNumber (PosInt n)) = (if unat n \<le> i64_max then Some (int (unat n)) else None)"
| "as_i64 (JNumber (NegInt i)) = Some i"
| "as_i64 _ = None"

definition is_object :: "json \<Rightarrow> bool" where
  "is_object v \<longleftrightarrow> as_object v \<noteq> None"

text \<open>\<open>Number::from\<close> on the two integer types, and \<open>Number::from_f64\<close> on the bits of a float.\<close>

definition number_of_i64 :: "int \<Rightarrow> json_number" where
  "number_of_i64 i = (if i < 0 then NegInt i else PosInt (word_of_int i))"

definition f64_is_finite :: "u64 \<Rightarrow> bool" where
  "f64_is_finite b \<longleftrightarrow> unat b div 2 ^ 52 mod 2048 \<noteq> 2047"

definition number_from_f64 :: "u64 \<Rightarrow> json_number option" where
  "number_from_f64 b = (if f64_is_finite b then Some (Float b) else None)"

subsection \<open>Facts\<close>

lemma map_of_map_insert [simp]:
  "is_btree m \<Longrightarrow> map_of (map_insert k v m) = (map_of m)(k \<mapsto> v)"
proof (induction m)
  case Nil
  then show ?case by auto
next
  case (Cons e m)
  obtain k' v' where e: "e = (k', v')" by (cases e)
  with Cons have "is_btree m" by (auto simp: is_btree_def)
  with Cons.IH e show ?case by (auto simp: fun_eq_iff)
qed

lemma set_map_fst_insert [simp]: "fst ` set (map_insert k v m) = insert k (fst ` set m)"
  by (induction k v m rule: map_insert.induct) (simp_all add: insert_commute)

lemma is_btree_insert: "is_btree m \<Longrightarrow> is_btree (map_insert k v m)"
proof (induction m)
  case Nil
  then show ?case by (simp add: is_btree_def)
next
  case (Cons e m)
  obtain k' v' where e: "e = (k', v')" by (cases e)
  with Cons have m: "is_btree m" "\<forall>x \<in> fst ` set m. k' < x" by (auto simp: is_btree_def)
  then have "is_btree (map_insert k v m)" using Cons.IH by blast
  moreover have "\<forall>x \<in> insert k (fst ` set m). k < k' \<or> k = k' \<or> k' < x" using m(2) by auto
  ultimately show ?case
    using e m set_map_fst_insert [of k v m] by (auto simp: is_btree_def)
qed

lemma is_btree_Nil [simp]: "is_btree []"
  by (simp add: is_btree_def)

lemma is_btree_distinct: "is_btree m \<Longrightarrow> distinct (map fst m)"
  unfolding is_btree_def by (simp only: strict_sorted_iff)

lemma length_map_insert:
  "length (map_insert k v m) \<le> Suc (length m)"
  by (induction m) auto

lemma length_map_insert_new:
  "k \<notin> fst ` set m \<Longrightarrow> length (map_insert k v m) = Suc (length m)"
  by (induction m) auto

lemma set_map_snd_insert: "snd ` set (map_insert k v m) \<subseteq> insert v (snd ` set m)"
  by (induction k v m rule: map_insert.induct) auto

lemma set_map_insert_new:
  "k \<notin> fst ` set m \<Longrightarrow> set (map_insert k v m) = insert (k, v) (set m)"
  by (induction k v m rule: map_insert.induct) (auto simp: insert_commute)

end
