(* ===== verification/Activity.thy ===== *)
theory Activity
  imports State_Machine Json
begin

section \<open>Activity events and task states (\<open>activity.rs\<close>)\<close>

text \<open>
  The activity events and the task state machine of \<open>crates/gobrowse-core/src/activity.rs\<close>.  A
  time is its nanoseconds since the epoch.
\<close>

datatype ActivityKind =
    TaskCreated | TaskAssigned | AgentStarted | AgentStopped | WorktreeCreated | FilesChanged
  | CommitCreated | TestStarted | TestCompleted | Act_Blocked | Act_Waiting | MergeRequested
  | Act_Merged | SkillCreated | SkillUpdated | BookCreated | BookUpdated | WorktreeDeleted

record ActivityEvent =
  event_id :: int
  event_workspace_id :: uuid
  event_task_id :: "uuid option"
  event_agent_id :: "uuid option"
  event_kind :: ActivityKind
  event_payload :: json
  event_created_at :: int

datatype TaskState =
    Task_Backlog | Task_Ready | Task_Running | Task_Blocked | Task_Review | Task_Done
  | Task_Failed | Task_Canceled

definition can_transition_to :: "TaskState \<Rightarrow> TaskState \<Rightarrow> bool" where
  "can_transition_to s next =
     (case s of
        Task_Backlog \<Rightarrow> next \<in> {Task_Ready, Task_Canceled}
      | Task_Ready \<Rightarrow> next \<in> {Task_Running, Task_Blocked, Task_Canceled}
      | Task_Running \<Rightarrow>
          next \<in> {Task_Blocked, Task_Review, Task_Done, Task_Failed, Task_Canceled}
      | Task_Blocked \<Rightarrow> next \<in> {Task_Ready, Task_Running, Task_Canceled}
      | Task_Review \<Rightarrow> next \<in> {Task_Running, Task_Done, Task_Canceled}
      | Task_Failed \<Rightarrow> next \<in> {Task_Ready, Task_Canceled}
      | _ \<Rightarrow> False)"

text \<open>A request to move to a state, as the machine its clients run.\<close>

definition task_move :: "TaskState \<Rightarrow> TaskState \<Rightarrow> TaskState option" where
  "task_move s next = (if can_transition_to s next then Some next else None)"

definition task_final :: "TaskState \<Rightarrow> bool" where
  "task_final s \<longleftrightarrow> s = Task_Done \<or> s = Task_Canceled"

interpretation task: terminal_machine task_move task_final
  by unfold_locales (auto simp: task_move_def task_final_def can_transition_to_def)

lemma task_final_iff_stuck: "task_final s \<longleftrightarrow> (\<forall>t. \<not> can_transition_to s t)"
  by (cases s) (auto simp: task_final_def can_transition_to_def)

lemma task_no_self_loop: "\<not> can_transition_to s s"
  by (cases s) (auto simp: can_transition_to_def)

text \<open>What a task has to have gone through before it can be done.\<close>

definition past_ready :: "TaskState \<Rightarrow> bool" where
  "past_ready s \<longleftrightarrow> s \<in> {Task_Running, Task_Review, Task_Done, Task_Failed}"

lemma task_run_past_ready:
  "run_events task_move s es = Some t \<Longrightarrow> past_ready t \<Longrightarrow> past_ready s \<or> Task_Running \<in> set es"
proof (induction es arbitrary: s)
  case Nil
  then show ?case by simp
next
  case (Cons e es)
  then obtain u where u: "task_move s e = Some u" "run_events task_move u es = Some t"
    by (auto split: option.splits)
  have "past_ready u \<Longrightarrow> past_ready s \<or> e = Task_Running"
    using u(1)
    by (cases s) (auto simp: task_move_def can_transition_to_def past_ready_def split: if_splits)
  with Cons.IH [OF u(2) Cons.prems(2)] show ?case by auto
qed

text \<open>
  Property: a task that starts in the backlog and ends done has been running, and once it is
  done or canceled no sequence of moves takes it anywhere else; the done and canceled states are
  exactly the ones without an outgoing edge.
\<close>

theorem task_lifecycle:
  "(run_events task_move Task_Backlog es = Some Task_Done \<longrightarrow> Task_Running \<in> set es) \<and>
   (task_final s \<longrightarrow> run_events task_move s es = Some t \<longrightarrow> es = [] \<and> t = s) \<and>
   (task_final s \<longleftrightarrow> (\<forall>t. \<not> can_transition_to s t)) \<and> \<not> can_transition_to s s"
  using task_run_past_ready [of Task_Backlog es Task_Done] task.run_from_final [of s es t]
    task_final_iff_stuck [of s] task_no_self_loop [of s]
  by (auto simp: past_ready_def)

theorem task_lifecycle_witness:
  "Task_Running \<in> set [Task_Ready, Task_Running, Task_Review, Task_Done] \<and> task_final Task_Done"
  using task_lifecycle [of "[Task_Ready, Task_Running, Task_Review, Task_Done]" Task_Done Task_Done]
  by (simp add: task_move_def can_transition_to_def task_final_def)

end
