(* ===== verification/Policy.thy ===== *)
theory Policy
  imports Rust_Str
begin

section \<open>Tool policy (\<open>policy.rs\<close>)\<close>

text \<open>
  Risk classes with their derived order, policy rules and the policy engine of
  \<open>crates/gobrowse-core/src/policy.rs\<close>.
\<close>

datatype RiskClass =
    Risk_Read | Risk_Write | Risk_Execute | Risk_ExternalSideEffect | Risk_Destructive
  | Risk_Admin

text \<open>\<open>derive(PartialOrd, Ord)\<close> orders an enum by the position of its variants.\<close>

fun risk_ordinal :: "RiskClass \<Rightarrow> nat" where
  "risk_ordinal Risk_Read = 0"
| "risk_ordinal Risk_Write = 1"
| "risk_ordinal Risk_Execute = 2"
| "risk_ordinal Risk_ExternalSideEffect = 3"
| "risk_ordinal Risk_Destructive = 4"
| "risk_ordinal Risk_Admin = 5"

lemma risk_ordinal_inject: "risk_ordinal a = risk_ordinal b \<Longrightarrow> a = b"
  by (cases a; cases b) auto

instantiation RiskClass :: linorder
begin

definition less_eq_RiskClass :: "RiskClass \<Rightarrow> RiskClass \<Rightarrow> bool" where
  "less_eq_RiskClass a b \<longleftrightarrow> risk_ordinal a \<le> risk_ordinal b"

definition less_RiskClass :: "RiskClass \<Rightarrow> RiskClass \<Rightarrow> bool" where
  "less_RiskClass a b \<longleftrightarrow> risk_ordinal a < risk_ordinal b"

instance
  by standard (auto simp: less_eq_RiskClass_def less_RiskClass_def intro: risk_ordinal_inject)

end

datatype PolicyDecision = Allow | Ask | Deny

record PolicyRule =
  tool_pattern :: string
  maximum_auto_risk :: RiskClass
  decision_above :: PolicyDecision

record PolicyEngine =
  rules :: "PolicyRule list"

definition pattern_matches :: "string \<Rightarrow> string \<Rightarrow> bool" where
  "pattern_matches pattern val \<longleftrightarrow>
     pattern = ''*'' \<or> pattern = val \<or>
     (case strip_suffix pattern ''*'' of None \<Rightarrow> False | Some pre \<Rightarrow> starts_with val pre)"

definition policy_default :: "RiskClass \<Rightarrow> PolicyDecision" where
  "policy_default risk =
     (case risk of Risk_Read \<Rightarrow> Allow | Risk_Write \<Rightarrow> Ask | Risk_Execute \<Rightarrow> Ask
      | Risk_ExternalSideEffect \<Rightarrow> Ask | Risk_Destructive \<Rightarrow> Ask | Risk_Admin \<Rightarrow> Ask)"

definition evaluate :: "PolicyEngine \<Rightarrow> string \<Rightarrow> RiskClass \<Rightarrow> PolicyDecision" where
  "evaluate engine tool_id risk =
     (case find (\<lambda>rule. pattern_matches (tool_pattern rule) tool_id) (rules engine) of
        Some rule \<Rightarrow> if risk \<le> maximum_auto_risk rule then Allow else decision_above rule
      | None \<Rightarrow> policy_default risk)"

lemma pattern_matches_iff:
  "pattern_matches p v \<longleftrightarrow> p = v \<or> (\<exists>pre rest. p = pre @ ''*'' \<and> v = pre @ rest)"
proof (cases "strip_suffix p ''*''")
  case None
  then have "\<And>pre. p \<noteq> pre @ ''*''" using strip_suffix_Some [of p "''*''"] by auto
  with None show ?thesis unfolding pattern_matches_def by (metis append_Nil option.simps(4))
next
  case (Some pre)
  then have "p = pre @ ''*''" by (simp add: strip_suffix_Some)
  with Some show ?thesis by (auto simp: pattern_matches_def starts_with_iff)
qed

definition rule_applies :: "PolicyRule \<Rightarrow> string \<Rightarrow> bool" where
  "rule_applies rule tool \<longleftrightarrow> tool_pattern rule = tool \<or>
     (\<exists>pre rest. tool_pattern rule = pre @ ''*'' \<and> tool = pre @ rest)"

lemma rule_applies_iff: "pattern_matches (tool_pattern r) tool = rule_applies r tool"
  by (simp add: rule_applies_def pattern_matches_iff)

lemma first_index_unique:
  assumes "P (xs ! i)" "\<forall>k < i. \<not> P (xs ! k)" "P (xs ! j)" "\<forall>k < j. \<not> P (xs ! k)"
  shows "i = j"
  using assms by (metis linorder_neqE_nat)

text \<open>
  Property: the engine lets a call run without asking only when the first rule that applies to
  the tool covers its risk or decides to allow above it, or when no rule applies and the call
  only reads.  A rule applies to the tool it names and, if its pattern ends in a star, to every
  tool with the pattern's prefix, and to nothing else.
\<close>

theorem evaluate_allow_iff:
  "evaluate engine tool risk = Allow \<longleftrightarrow>
     (\<exists>i < length (rules engine). rule_applies (rules engine ! i) tool
        \<and> (\<forall>j < i. \<not> rule_applies (rules engine ! j) tool)
        \<and> (risk \<le> maximum_auto_risk (rules engine ! i)
            \<or> decision_above (rules engine ! i) = Allow))
     \<or> (\<forall>rule \<in> set (rules engine). \<not> rule_applies rule tool) \<and> risk = Risk_Read"
proof (cases "find (\<lambda>r. rule_applies r tool) (rules engine)")
  case None
  then have none: "\<forall>rule \<in> set (rules engine). \<not> rule_applies rule tool"
    by (simp add: find_None_iff)
  have "evaluate engine tool risk = policy_default risk"
    using None by (simp add: evaluate_def rule_applies_iff)
  moreover have "policy_default risk = Allow \<longleftrightarrow> risk = Risk_Read"
    by (cases risk) (auto simp: policy_default_def)
  ultimately show ?thesis using none by auto
next
  case (Some rule)
  then obtain i where i: "i < length (rules engine)" "rule_applies (rules engine ! i) tool"
    "rule = rules engine ! i" "\<forall>j < i. \<not> rule_applies (rules engine ! j) tool"
    by (auto simp: find_Some_iff)
  have "evaluate engine tool risk = Allow \<longleftrightarrow>
      risk \<le> maximum_auto_risk rule \<or> decision_above rule = Allow"
    using Some by (simp add: evaluate_def rule_applies_iff)
  moreover have "j = i" if "rule_applies (rules engine ! j) tool"
      "\<forall>k < j. \<not> rule_applies (rules engine ! k) tool" for j
    using first_index_unique [of "\<lambda>r. rule_applies r tool"] that i(2,4) by blast
  moreover have "\<not> (\<forall>rule \<in> set (rules engine). \<not> rule_applies rule tool)"
    using i(1,2) by (meson nth_mem)
  ultimately show ?thesis using i by metis
qed

definition library_rule :: PolicyRule where
  "library_rule = \<lparr>tool_pattern = ''library.*'', maximum_auto_risk = Risk_Write,
     decision_above = Deny\<rparr>"

theorem evaluate_allow_iff_witness:
  "evaluate \<lparr>rules = [library_rule]\<rparr> ''library.create'' Risk_Write = Allow
     \<and> rule_applies library_rule ''library.create''"
proof -
  have applies: "rule_applies library_rule ''library.create''"
    by (simp add: library_rule_def rule_applies_iff [symmetric] pattern_matches_def str_defs)
  show ?thesis
    using evaluate_allow_iff [of "\<lparr>rules = [library_rule]\<rparr>" "''library.create''" Risk_Write]
      applies
    by (simp add: library_rule_def)
qed

end
