(* ===== verification/Redaction.thy ===== *)
theory Redaction
  imports Rust_Str
begin

section \<open>Redaction of credentials (\<open>redaction.rs\<close>)\<close>

text \<open>
  \<open>redact_text\<close> of \<open>crates/gobrowse-core/src/redaction.rs\<close>: tokens that start with a
  credential prefix, in any letter case, are replaced.
\<close>

definition REDACTED :: string where
  "REDACTED = ''[REDACTED]''"

definition secret_prefixes :: "string list" where
  "secret_prefixes = [''authorization:'', ''bearer:'', ''api_key='', ''apikey='', ''password='',
     ''refresh_token='', ''client_secret='', ''ghp_'', ''sk-'']"

definition secret_token :: "string \<Rightarrow> bool" where
  "secret_token tok \<longleftrightarrow> list_ex (starts_with (to_ascii_lowercase tok)) secret_prefixes"

definition redact_token :: "string \<Rightarrow> string" where
  "redact_token tok = (if secret_token tok then REDACTED else tok)"

definition redact_text :: "string \<Rightarrow> string" where
  "redact_text input = str_join '' '' (map redact_token (split_whitespace input))"

lemma REDACTED_not_secret: "\<not> secret_token REDACTED"
  by (simp add: secret_token_def secret_prefixes_def REDACTED_def str_defs ascii_class_defs)

lemma REDACTED_word:
  "REDACTED \<noteq> [] \<and> complete_str REDACTED \<and> (\<forall>sl \<in> set (char_slices REDACTED). \<not> slice_is_ws sl)"
proof -
  have "is_ascii REDACTED" by (simp add: is_ascii_def REDACTED_def byte_def)
  then show ?thesis
    by (simp add: is_ascii_complete char_slices_ascii)
       (simp add: REDACTED_def slice_is_ws_def is_whitespace_def byte_def)
qed

lemma redact_token_idem [simp]: "redact_token (redact_token tok) = redact_token tok"
  by (simp add: redact_token_def REDACTED_not_secret)

lemma split_whitespace_redact_text:
  assumes "is_utf8 input"
  shows "split_whitespace (redact_text input) = map redact_token (split_whitespace input)"
  unfolding redact_text_def
proof (rule split_whitespace_join)
  fix w
  assume "w \<in> set (map redact_token (split_whitespace input))"
  then obtain v where v: "v \<in> set (split_whitespace input)" "w = redact_token v" by auto
  show "w \<noteq> [] \<and> complete_str w \<and> (\<forall>sl \<in> set (char_slices w). \<not> slice_is_ws sl)"
    using split_whitespace_words [OF v(1) is_utf8_complete [OF assms]] REDACTED_word
    by (simp add: v(2) redact_token_def)
qed

text \<open>
  Property: the text that comes out of the redactor has the words of the input in order, with
  the ones that start with a credential prefix replaced and no others; none of its words starts
  with a credential prefix, and redacting it again changes nothing.
\<close>

theorem redact_text_clean:
  assumes "is_utf8 input"
  shows "split_whitespace (redact_text input) =
      map (\<lambda>w. if secret_token w then REDACTED else w) (split_whitespace input)
    \<and> list_all (\<lambda>w. \<not> secret_token w) (split_whitespace (redact_text input))
    \<and> redact_text (redact_text input) = redact_text input"
proof -
  have "map redact_token (split_whitespace input) =
      map (\<lambda>w. if secret_token w then REDACTED else w) (split_whitespace input)"
    by (simp add: redact_token_def)
  moreover have "list_all (\<lambda>w. \<not> secret_token w) (map redact_token (split_whitespace input))"
    by (auto simp: list_all_iff redact_token_def REDACTED_not_secret)
  moreover have "redact_text (redact_text input) = redact_text input"
    unfolding redact_text_def [of "redact_text input"] split_whitespace_redact_text [OF assms]
    by (simp add: redact_text_def comp_def)
  ultimately show ?thesis by (simp only: split_whitespace_redact_text [OF assms])
qed

theorem redact_text_clean_witness:
  "redact_text (redact_text ''use API_KEY=abc now'') = redact_text ''use API_KEY=abc now''
     \<and> redact_text ''use API_KEY=abc now'' = ''use [REDACTED] now''"
proof -
  have "is_utf8 ''use API_KEY=abc now''"
    by (simp add: is_utf8_def utf8_slice_def complete_slice_def str_defs ascii_class_defs)
  from redact_text_clean [OF this] show ?thesis
    by (simp add: redact_text_def redact_token_def secret_token_def secret_prefixes_def
        REDACTED_def rust_defs)
qed

end
