(* ===== verification/Context.thy ===== *)
theory Context
  imports Rust_Str "HOL-Library.Multiset" "HOL-Library.Product_Lexorder"
begin

section \<open>Context assembly (\<open>context.rs\<close>)\<close>

text \<open>
  \<open>build_context\<close> of \<open>crates/gobrowse-core/src/context.rs\<close>: candidates are sorted
  (required first, then by priority, then by id) and admitted while they fit the token budget.
\<close>

datatype ContextSource =
    Src_SystemPolicy | Src_Profile | Src_ActiveTask | Src_RecentConversation | Src_PinnedBook
  | Src_LibraryRetrieval | Src_Autobiography | Src_Skill | Src_Worktree | Src_ToolSchema
  | Src_CompactionSummary

record ContextCandidate =
  cand_source :: ContextSource
  stable_id :: string
  content :: string
  token_estimate :: u32
  priority :: u16
  required :: bool
  trust_label :: string

record BuiltContext =
  selected :: "ContextCandidate list"
  omitted_ids :: "string list"
  used_tokens :: u32
  budget :: u32

text \<open>
  The comparator of the \<open>sort_by\<close> call: whether \<open>l\<close> does not come after \<open>r\<close>.
  \<open>sort_by\<close> is stable, so it is the insertion sort on this order.
\<close>

definition candidate_le :: "ContextCandidate \<Rightarrow> ContextCandidate \<Rightarrow> bool" where
  "candidate_le l r \<longleftrightarrow>
     (if required r \<noteq> required l then required l
      else if priority r \<noteq> priority l then priority r < priority l
      else stable_id l \<le> stable_id r)"

fun insert_candidate :: "ContextCandidate \<Rightarrow> ContextCandidate list \<Rightarrow> ContextCandidate list" where
  "insert_candidate c [] = [c]"
| "insert_candidate c (d # ds) =
     (if candidate_le c d then c # d # ds else d # insert_candidate c ds)"

fun sort_candidates :: "ContextCandidate list \<Rightarrow> ContextCandidate list" where
  "sort_candidates [] = []"
| "sort_candidates (c # cs) = insert_candidate c (sort_candidates cs)"

text \<open>The loop, with its three variables as the state.\<close>

fun select_candidates ::
  "u32 \<Rightarrow> ContextCandidate list \<times> string list \<times> u32 \<Rightarrow> ContextCandidate list
     \<Rightarrow> ContextCandidate list \<times> string list \<times> u32" where
  "select_candidates bud st [] = st"
| "select_candidates bud (sel, om, used) (c # cs) =
     (if saturating_add used (token_estimate c) \<le> bud \<or> required c
      then select_candidates bud (sel @ [c], om, saturating_add used (token_estimate c)) cs
      else select_candidates bud (sel, om @ [stable_id c], used) cs)"

definition build_context :: "ContextCandidate list \<Rightarrow> u32 \<Rightarrow> BuiltContext" where
  "build_context candidates bud =
     (case select_candidates bud ([], [], 0) (sort_candidates candidates) of
        (sel, om, used) \<Rightarrow>
          \<lparr>selected = sel, omitted_ids = om, used_tokens = used, budget = bud\<rparr>)"

subsection \<open>The sort\<close>

lemma mset_insert_candidate [simp]:
  "mset (insert_candidate c cs) = add_mset c (mset cs)"
  by (induction cs) auto

lemma mset_sort_candidates [simp]: "mset (sort_candidates cs) = mset cs"
  by (induction cs) auto

lemma candidate_le_total: "candidate_le a b \<or> candidate_le b a"
  by (auto simp: candidate_le_def)

lemma candidate_le_trans: "candidate_le a b \<Longrightarrow> candidate_le b c \<Longrightarrow> candidate_le a c"
  by (auto simp: candidate_le_def split: if_splits)

lemma set_insert_candidate [simp]: "set (insert_candidate c cs) = insert c (set cs)"
  by (induction cs) auto

lemma sorted_insert_candidate:
  "sorted_wrt candidate_le cs \<Longrightarrow> sorted_wrt candidate_le (insert_candidate c cs)"
  by (induction cs) (use candidate_le_total candidate_le_trans in auto)

lemma sorted_sort_candidates: "sorted_wrt candidate_le (sort_candidates cs)"
  by (induction cs) (auto intro: sorted_insert_candidate)

lemma required_first:
  assumes "sorted_wrt candidate_le cs"
  shows "\<exists>rs os. cs = rs @ os \<and> list_all required rs \<and> list_all (\<lambda>c. \<not> required c) os"
  using assms
proof (induction cs)
  case Nil
  then show ?case by simp
next
  case (Cons c cs)
  then obtain rs os where s: "cs = rs @ os" "list_all required rs"
    "list_all (\<lambda>c. \<not> required c) os" by auto
  show ?case
  proof (cases "required c")
    case True
    with s show ?thesis by (intro exI [of _ "c # rs"] exI [of _ os]) auto
  next
    case False
    with Cons.prems have "list_all (\<lambda>c. \<not> required c) cs"
      by (auto simp: list_all_iff candidate_le_def split: if_splits)
    with False show ?thesis by (intro exI [of _ "[]"] exI [of _ "c # cs"]) auto
  qed
qed

subsection \<open>The selection\<close>

definition tokens :: "ContextCandidate list \<Rightarrow> nat" where
  "tokens cs = sum_list (map (\<lambda>c. unat (token_estimate c)) cs)"

lemma tokens_mset: "mset xs = mset ys \<Longrightarrow> tokens xs = tokens ys"
  unfolding tokens_def sum_mset_sum_list [symmetric] mset_map by simp

text \<open>What the loop has established about the candidates \<open>done\<close> it has looked at.\<close>

definition select_inv ::
  "u32 \<Rightarrow> ContextCandidate list \<Rightarrow> ContextCandidate list \<times> string list \<times> u32 \<Rightarrow> bool" where
  "select_inv bud seen st \<longleftrightarrow>
     (case st of (sel, om, used) \<Rightarrow>
        (\<exists>drop. mset seen = mset sel + mset drop \<and> om = map stable_id drop
           \<and> (\<forall>c \<in> set drop. \<not> required c
                \<and> unat bud < unat used + unat (token_estimate c)))
        \<and> unat used = min (tokens sel) (2 ^ 32 - 1))"

lemma select_inv_step:
  assumes "select_inv bud seen (sel, om, used)"
  shows "select_inv bud (seen @ [c]) (select_candidates bud (sel, om, used) [c])"
proof -
  from assms obtain dropped where d: "mset seen = mset sel + mset dropped"
    "om = map stable_id dropped"
    "\<forall>c \<in> set dropped. \<not> required c \<and> unat bud < unat used + unat (token_estimate c)"
    and u: "unat used = min (tokens sel) (2 ^ 32 - 1)"
    by (auto simp: select_inv_def)
  show ?thesis
  proof (cases "saturating_add used (token_estimate c) \<le> bud \<or> required c")
    case True
    have "unat bud < unat (saturating_add used (token_estimate c)) + unat (token_estimate x)"
      if "x \<in> set dropped" for x
      using d(3) that saturating_add_mono_left [of used "token_estimate c"] by fastforce
    moreover have "unat (saturating_add used (token_estimate c))
        = min (tokens (sel @ [c])) (2 ^ 32 - 1)"
      using u by (simp add: unat_saturating_add tokens_def)
    ultimately show ?thesis
      using True d unfolding select_inv_def by (auto intro!: exI [of _ dropped])
  next
    case False
    then have "unat bud < unat used + unat (token_estimate c)"
      using unat_u32_le [of bud] by (auto simp: word_le_nat_alt unat_saturating_add)
    with False d u show ?thesis
      unfolding select_inv_def by (auto intro!: exI [of _ "dropped @ [c]"])
  qed
qed

lemma select_candidates_Cons:
  "select_candidates bud st (c # cs) = select_candidates bud (select_candidates bud st [c]) cs"
  by (cases st) auto

lemma select_inv_loop:
  "select_inv bud seen st \<Longrightarrow> select_inv bud (seen @ cs) (select_candidates bud st cs)"
proof (induction cs arbitrary: seen st)
  case Nil
  then show ?case by simp
next
  case (Cons c cs)
  have "select_inv bud (seen @ [c]) (select_candidates bud st [c])"
    using Cons.prems by (cases st) (simp only: select_inv_step)
  from Cons.IH [OF this] show ?case
    by (simp only: select_candidates_Cons [of bud st c cs] append.assoc append.simps)
qed

lemma select_used_bound:
  "list_all (\<lambda>c. \<not> required c) cs \<Longrightarrow> used \<le> bud \<Longrightarrow>
     snd (snd (select_candidates bud (sel, om, used) cs)) \<le> bud"
  by (induction cs arbitrary: sel om used) auto

lemma select_all_required:
  "list_all required cs \<Longrightarrow>
     select_candidates bud (sel, om, used) cs =
       (sel @ cs, om, foldl saturating_add used (map token_estimate cs))"
  by (induction cs arbitrary: sel used) auto

lemma select_candidates_append:
  "select_candidates bud st (xs @ ys) = select_candidates bud (select_candidates bud st xs) ys"
  by (induction bud st xs rule: select_candidates.induct) auto

lemma unat_foldl_saturating:
  "unat (foldl saturating_add (used :: u32) ts) =
     min (unat used + sum_list (map unat ts)) (2 ^ 32 - 1)"
  by (induction ts arbitrary: used) (auto simp: unat_saturating_add min_def)

text \<open>
  Property: \<open>build_context\<close> loses and invents nothing: the selected candidates and the ones
  whose ids are reported as omitted are together exactly the input.  No required candidate is ever
  omitted, and every omitted one would have overrun the budget next to what was finally used.  The
  reported token count is the saturating sum of the selection, and if the required candidates fit
  the budget then the whole selection does.
\<close>

theorem build_context_spec:
  fixes cs :: "ContextCandidate list"
  shows "(\<exists>dropped. mset cs = mset (selected (build_context cs bud)) + mset dropped
      \<and> omitted_ids (build_context cs bud) = map stable_id dropped
      \<and> (\<forall>c \<in> set dropped. \<not> required c
           \<and> unat bud < unat (used_tokens (build_context cs bud)) + unat (token_estimate c)))
    \<and> unat (used_tokens (build_context cs bud))
        = min (tokens (selected (build_context cs bud))) (2 ^ 32 - 1)
    \<and> (tokens (filter required cs) \<le> unat bud \<longrightarrow>
        used_tokens (build_context cs bud) \<le> bud)"
proof -
  let ?cs = "sort_candidates cs"
  let ?st = "select_candidates bud ([], [], 0) ?cs"
  obtain sel om used where st: "?st = (sel, om, used)" by (cases ?st) auto
  have "select_inv bud ([] @ ?cs) ?st"
    by (rule select_inv_loop) (simp add: select_inv_def tokens_def)
  moreover have "used \<le> bud" if fit: "tokens (filter required cs) \<le> unat bud"
  proof -
    obtain rs os where split: "?cs = rs @ os" "list_all required rs"
      "list_all (\<lambda>c. \<not> required c) os"
      using required_first [OF sorted_sort_candidates] by blast
    let ?u = "foldl saturating_add 0 (map token_estimate rs)"
    have "filter required ?cs = rs"
      using split by (auto simp: list_all_iff filter_empty_conv)
    moreover have "mset (filter required ?cs) = mset (filter required cs)" by simp
    ultimately have "mset rs = mset (filter required cs)" by metis
    then have "tokens rs = tokens (filter required cs)" by (rule tokens_mset)
    then have "?u \<le> bud"
      using fit by (simp add: word_le_nat_alt unat_foldl_saturating tokens_def comp_def)
    moreover have "?st = select_candidates bud (rs, [], ?u) os"
      using split by (simp add: select_candidates_append select_all_required)
    ultimately show ?thesis
      using select_used_bound [OF split(3), of ?u bud rs "[]"] st by (metis snd_conv)
  qed
  ultimately show ?thesis
    by (auto simp: build_context_def st select_inv_def)
qed

definition example_candidate :: "string \<Rightarrow> u32 \<Rightarrow> u16 \<Rightarrow> bool \<Rightarrow> ContextCandidate" where
  "example_candidate i t p r = \<lparr>cand_source = Src_LibraryRetrieval, stable_id = i, content = i,
     token_estimate = t, priority = p, required = r, trust_label = ''untrusted''\<rparr>"

theorem build_context_spec_witness:
  "used_tokens (build_context [example_candidate ''retrieved'' 90 100 False,
      example_candidate ''policy'' 40 1 True] 100) \<le> 100"
  by (rule build_context_spec [THEN conjunct2, THEN conjunct2, rule_format])
     (simp add: tokens_def example_candidate_def)

end
