(* ===== verification/Scheduler.thy ===== *)
theory Scheduler
  imports Rust_Std
begin

section \<open>Simple schedules (\<open>scheduler.rs\<close>)\<close>

text \<open>
  \<open>Schedule::next_simple_run\<close> of \<open>crates/gobrowse-core/src/scheduler.rs\<close>.  An
  \<open>OffsetDateTime\<close> of the \<open>time\<close> crate is an instant: an integer number of nanoseconds
  since the epoch.  Which instants the crate can represent is a parameter, \<open>valid\<close>:
  \<open>checked_add\<close> returns \<open>None\<close> when the sum is not one of them.
\<close>

type_synonym instant = int

datatype Schedule =
    Sched_Once instant
  | Sched_Interval u64 instant
  | Sched_Cron string string

definition nanos_per_second :: int where
  "nanos_per_second = 1000000000"

text \<open>\<open>Duration::whole_seconds\<close> truncates towards zero.\<close>

definition whole_seconds :: "int \<Rightarrow> int" where
  "whole_seconds d = sgn d * (\<bar>d\<bar> div nanos_per_second)"

definition instant_checked_add :: "(instant \<Rightarrow> bool) \<Rightarrow> instant \<Rightarrow> int \<Rightarrow> instant option" where
  "instant_checked_add valid t d = (if valid (t + d) then Some (t + d) else None)"

definition i64_of_u64 :: "u64 \<Rightarrow> int option" where
  "i64_of_u64 w = (if unat w \<le> i64_max then Some (int (unat w)) else None)"

definition next_interval_run :: "(instant \<Rightarrow> bool) \<Rightarrow> u64 \<Rightarrow> instant \<Rightarrow> instant \<Rightarrow> instant option" where
  "next_interval_run valid seconds anchor after =
     (if anchor > after then Some anchor
      else
        let elapsed = (of_int (max (whole_seconds (after - anchor)) 0) :: u64);
            periods = elapsed div seconds + 1
        in case checked_mul periods seconds of
             None \<Rightarrow> None
           | Some product \<Rightarrow>
               (case i64_of_u64 product of
                  None \<Rightarrow> None
                | Some delta \<Rightarrow> instant_checked_add valid anchor (delta * nanos_per_second)))"

definition next_simple_run :: "(instant \<Rightarrow> bool) \<Rightarrow> Schedule \<Rightarrow> instant \<Rightarrow> instant option" where
  "next_simple_run valid sched after =
     (case sched of
        Sched_Once t \<Rightarrow> if t > after then Some t else None
      | Sched_Interval seconds anchor \<Rightarrow>
          if seconds > 0 then next_interval_run valid seconds anchor after else None
      | Sched_Cron _ _ \<Rightarrow> None)"

lemma unat_word_div: "unat (a div b) = unat a div unat b"
  by (rule unat_div_distrib)

lemma unat_of_int_u64: "0 \<le> k \<Longrightarrow> k < 2 ^ 64 \<Longrightarrow> unat (of_int k :: u64) = nat k"
  by (simp add: unat_eq_nat_uint take_bit_eq_mod uint_word_of_int)

text \<open>
  The seconds between two representable instants fit an \<open>i64\<close>; the crate's \<open>Duration\<close> is
  an \<open>i64\<close> of seconds.
\<close>

definition span_ok :: "instant \<Rightarrow> instant \<Rightarrow> bool" where
  "span_ok anchor after \<longleftrightarrow> after - anchor < 2 ^ 63 * nanos_per_second"

lemma next_period_bounds:
  fixes D N s :: int
  assumes "0 < N" "0 < s" "0 \<le> D"
  defines "k \<equiv> (D div N) div s + 1"
  shows "D < k * (s * N)" and "k * (s * N) - s * N \<le> D" and "1 \<le> k"
proof -
  let ?e = "D div N"
  have e: "?e * N \<le> D" "D < (?e + 1) * N"
    using assms(1) by (simp_all add: distrib_right, simp_all add: minus_mod_eq_div_mult [symmetric])
  have d: "(?e div s) * s \<le> ?e"
    using assms(2) by (simp add: minus_mod_eq_div_mult [symmetric])
  have "?e mod s < s" using assms(2) by simp
  moreover have "?e = (?e div s) * s + ?e mod s" by simp
  moreover have "k * s = (?e div s) * s + s" by (simp add: k_def algebra_simps)
  ultimately have d2: "?e + 1 \<le> k * s" by linarith
  have "(?e + 1) * N \<le> k * s * N"
    using d2 assms(1) by (intro mult_right_mono) auto
  with e(2) show "D < k * (s * N)" by (simp add: mult.assoc)
  have "(?e div s) * s * N \<le> ?e * N"
    using d assms(1) by (intro mult_right_mono) auto
  with e(1) show "k * (s * N) - s * N \<le> D" by (simp add: k_def algebra_simps)
  have "0 \<le> ?e div s"
    using assms(1-3) by (simp add: pos_imp_zdiv_nonneg_iff)
  then show "1 \<le> k" by (simp add: k_def)
qed

lemma next_interval_run_Some:
  assumes res: "next_interval_run valid seconds anchor after = Some t"
    and pos: "seconds > 0" and le: "anchor \<le> after" and span: "span_ok anchor after"
  shows "\<exists>k. t = anchor + k * (int (unat seconds) * nanos_per_second) \<and> 1 \<le> k
     \<and> after < t \<and> t - int (unat seconds) * nanos_per_second \<le> after \<and> valid t"
proof -
  define N where "N = nanos_per_second"
  have N: "N > 0" by (simp add: N_def nanos_per_second_def)
  define e where "e = (after - anchor) div N"
  define s where "s = int (unat seconds)"
  have s: "s > 0" using pos by (simp add: s_def word_less_def)
  have e0: "0 \<le> e" using le N by (simp add: e_def pos_imp_zdiv_nonneg_iff)
  have ws: "max (whole_seconds (after - anchor)) 0 = e"
    using le e0 by (auto simp: whole_seconds_def e_def N_def sgn_if)
  have "e * N \<le> after - anchor"
    using N by (simp add: e_def minus_mod_eq_div_mult [symmetric])
  also have "\<dots> < 2 ^ 63 * N" using span by (simp add: span_ok_def N_def)
  finally have e1: "e < 2 ^ 63" using N by simp
  define w :: u64 where "w = of_int e"
  have w: "unat w = nat e" unfolding w_def using e0 e1 by (intro unat_of_int_u64) auto
  define p :: u64 where "p = w div seconds + 1"
  have "nat e < 9223372036854775808" using e1 e0 by simp
  then have "nat e div unat seconds + 1 < 18446744073709551616"
    using div_le_dividend [of "nat e" "unat seconds"] by linarith
  then have p: "unat p = nat e div unat seconds + 1"
    unfolding p_def by (simp add: unat_word_ariths unat_word_div w)
  from res le obtain m where m: "checked_mul p seconds = Some m" "unat m \<le> i64_max"
    "valid (anchor + int (unat m) * N)" "t = anchor + int (unat m) * N"
    by (auto simp: next_interval_run_def Let_def ws w_def [symmetric] p_def [symmetric]
        i64_of_u64_def instant_checked_add_def N_def split: option.splits if_splits)
  define k where "k = e div s + 1"
  have "int (unat m) = k * s"
    using unat_checked_mul [OF m(1)] p e0
    by (simp add: k_def s_def zdiv_int) (simp add: algebra_simps)
  then have t: "t = anchor + k * (s * N)" using m(4) by (simp add: mult.assoc)
  have "0 \<le> after - anchor" using le by simp
  from next_period_bounds [OF N s this] show ?thesis
    using t m(3,4) unfolding k_def e_def s_def [symmetric] N_def [symmetric]
    by (intro exI [of _ "k"]) (auto simp: k_def e_def)
qed

text \<open>
  Property: a schedule's next run is strictly after the reference time.  For an interval it is
  the earliest such instant: it lies a whole number of periods after the anchor, and one period
  earlier would be at or before the reference time, unless the anchor itself is still to come, in
  which case it is the anchor.
\<close>

theorem next_simple_run_earliest:
  assumes "next_simple_run valid sched after = Some t"
    and "case sched of Sched_Interval _ anchor \<Rightarrow> span_ok anchor after | _ \<Rightarrow> True"
  shows "after < t \<and>
    (case sched of
       Sched_Once s \<Rightarrow> t = s
     | Sched_Interval seconds anchor \<Rightarrow>
         if after < anchor then t = anchor
         else (\<exists>k. t = anchor + k * (int (unat seconds) * nanos_per_second) \<and> 1 \<le> k)
            \<and> t - int (unat seconds) * nanos_per_second \<le> after \<and> valid t
     | Sched_Cron _ _ \<Rightarrow> False)"
proof (cases sched)
  case (Sched_Interval seconds anchor)
  show ?thesis
  proof (cases "after < anchor")
    case True
    with assms Sched_Interval show ?thesis
      by (auto simp: next_simple_run_def next_interval_run_def split: if_splits)
  next
    case False
    with assms Sched_Interval have "next_interval_run valid seconds anchor after = Some t"
      "seconds > 0" "span_ok anchor after" "anchor \<le> after"
      by (auto simp: next_simple_run_def split: if_splits)
    from next_interval_run_Some [OF this(1,2,4,3)] False Sched_Interval show ?thesis by auto
  qed
qed (use assms in \<open>auto simp: next_simple_run_def split: if_splits\<close>)

theorem next_simple_run_earliest_witness:
  "next_simple_run (\<lambda>_. True) (Sched_Interval 60 0) (90 * nanos_per_second)
     = Some (120 * nanos_per_second) \<and> 90 * nanos_per_second < 120 * nanos_per_second"
proof -
  have run: "next_simple_run (\<lambda>_. True) (Sched_Interval 60 0) (90 * nanos_per_second)
     = Some (120 * nanos_per_second)"
    by (simp add: next_simple_run_def next_interval_run_def whole_seconds_def nanos_per_second_def
        checked_mul_def i64_of_u64_def i64_max_def instant_checked_add_def)
  have "span_ok 0 (90 * nanos_per_second)" by (simp add: span_ok_def nanos_per_second_def)
  with next_simple_run_earliest [OF run] run show ?thesis by simp
qed

end
