(* ===== verification/Worktrees.thy ===== *)
theory Worktrees
  imports Rust_Str
begin

section \<open>Worktree names and inventories (\<open>worktrees.rs\<close>)\<close>

text \<open>
  The validators and name generators of \<open>crates/gobrowse-core/src/worktrees.rs\<close>.  Two things
  the code calls are parameters: \<open>simple\<close>, the \<open>uuid\<close> crate's 32-digit rendering of an
  id, and \<open>lower\<close>, the Unicode table behind \<open>char::to_lowercase\<close>, which maps a scalar
  value to a sequence of them.  Nothing is assumed about \<open>lower\<close>.
\<close>

datatype WorktreeError =
    UnsafeBranch | UnsafeRepositoryRoot | InvalidBaseCommit | UnsafeChangedFiles

definition MAX_CHANGED_FILES :: nat where "MAX_CHANGED_FILES = 500"
definition MAX_CHANGED_FILE_BYTES :: nat where "MAX_CHANGED_FILE_BYTES = 4096"
definition MAX_CHANGED_FILES_BYTES :: nat where "MAX_CHANGED_FILES_BYTES = 100000"

definition validate_base_commit :: "string \<Rightarrow> WorktreeError + unit" where
  "validate_base_commit base_commit =
     (let valid_length = length base_commit = 40 \<or> length base_commit = 64
      in if \<not> valid_length \<or> \<not> list_all (\<lambda>c. is_ascii_hexdigit (byte c)) base_commit
         then Inl InvalidBaseCommit else Inr ())"

definition usize_checked_add :: "nat \<Rightarrow> nat \<Rightarrow> nat option" where
  "usize_checked_add a b = (if a + b < 2 ^ 64 then Some (a + b) else None)"

text \<open>The checks on one file of an inventory: on its text, then on its segments.\<close>

definition unsafe_file :: "string \<Rightarrow> bool" where
  "unsafe_file file \<longleftrightarrow>
     file = [] \<or> length file > MAX_CHANGED_FILE_BYTES \<or> starts_with file ''/''
     \<or> CHR 0x5C \<in> set file \<or> list_ex is_control (str_chars file)"

definition unsafe_segments :: "string \<Rightarrow> bool" where
  "unsafe_segments file \<longleftrightarrow>
     list_ex (\<lambda>segment. segment = [] \<or> segment = ''.'' \<or> segment = ''..'')
       (split_on CHR ''/'' file)"

fun changed_files_loop ::
  "nat \<Rightarrow> string list \<Rightarrow> string list \<Rightarrow> WorktreeError + string list" where
  "changed_files_loop tot canonical [] = Inr canonical"
| "changed_files_loop tot canonical (file # files) =
     (if unsafe_file file then Inl UnsafeChangedFiles
      else if unsafe_segments file then Inl UnsafeChangedFiles
      else case Option.bind (usize_checked_add tot (length file))
                  (\<lambda>size. usize_checked_add size 1) of
             None \<Rightarrow> Inl UnsafeChangedFiles
           | Some tot' \<Rightarrow>
               if tot' > MAX_CHANGED_FILES_BYTES then Inl UnsafeChangedFiles
               else changed_files_loop tot' (canonical @ [file]) files)"

definition validate_changed_files :: "string list \<Rightarrow> WorktreeError + string list" where
  "validate_changed_files files =
     (if length files > MAX_CHANGED_FILES then Inl UnsafeChangedFiles
      else case changed_files_loop 0 [] files of
             Inl e \<Rightarrow> Inl e
           | Inr canonical \<Rightarrow> Inr (remdups_adj (sort canonical)))"

definition slug_char :: "nat \<Rightarrow> char" where
  "slug_char c = (if is_ascii_alphanumeric c then char_of c else CHR ''-'')"

definition task_slug :: "(nat \<Rightarrow> nat list) \<Rightarrow> string \<Rightarrow> string" where
  "task_slug lower title =
     str_join ''-''
       (take 6 (filter (\<lambda>part. part \<noteq> [])
         (split_on CHR ''-'' (map slug_char (concat (map lower (str_chars title)))))))"

definition task_branch ::
  "(uuid \<Rightarrow> string) \<Rightarrow> (nat \<Rightarrow> nat list) \<Rightarrow> uuid \<Rightarrow> string \<Rightarrow> string" where
  "task_branch simple lower task_id title =
     (let slug = task_slug lower title; short_id = take 12 (simple task_id)
      in if slug = [] then ''agent/task-'' @ short_id
         else ''agent/'' @ short_id @ ''-'' @ slug)"

definition segment_is_only_dot :: "string \<Rightarrow> bool" where
  "segment_is_only_dot branch = list_ex (\<lambda>segment. segment = ''.'') (split_on CHR ''/'' branch)"

text \<open>The characters \<open>validate_branch\<close> refuses besides control characters.\<close>

definition branch_hazard :: "nat \<Rightarrow> bool" where
  "branch_hazard c \<longleftrightarrow>
     c \<in> set (map byte [CHR '' '', CHR ''~'', CHR ''^'', CHR '':'', CHR ''?'', CHR ''*'', CHR ''['', CHR 0x5C])"

definition validate_branch :: "string \<Rightarrow> WorktreeError + unit" where
  "validate_branch branch =
     (if branch = [] \<or> starts_with branch ''/'' \<or> starts_with branch ''-''
         \<or> starts_with branch ''refs/'' \<or> ends_with branch ''/'' \<or> ends_with branch ''.''
         \<or> ends_with branch ''.lock'' \<or> str_contains branch ''..'' \<or> str_contains branch [CHR ''@'', CHR ''{'']
         \<or> CHR ''@'' \<in> set branch \<or> str_contains branch ''//'' \<or> segment_is_only_dot branch
         \<or> list_ex (\<lambda>segment. starts_with segment ''.'') (split_on CHR ''/'' branch)
         \<or> list_ex (\<lambda>c. is_control c \<or> branch_hazard c) (str_chars branch)
      then Inl UnsafeBranch else Inr ())"

text \<open>
  \<open>Path::join\<close> on Unix for a relative second part: a separator is added unless the first
  part is empty or already ends in one.  \<open>to_str\<close> fails on a path that is not UTF-8.
\<close>

definition path_join :: "string \<Rightarrow> string \<Rightarrow> string" where
  "path_join base rel = (if base = [] \<or> last base = CHR ''/'' then base @ rel else base @ ''/'' @ rel)"

definition worktree_path ::
  "(uuid \<Rightarrow> string) \<Rightarrow> string \<Rightarrow> uuid \<Rightarrow> WorktreeError + string" where
  "worktree_path simple root task_id =
     (if \<not> is_utf8 root then Inl UnsafeRepositoryRoot
      else if \<not> starts_with root ''/'' \<or> str_contains root ''//''
         \<or> (length root > 1 \<and> ends_with root ''/'')
         \<or> list_ex (\<lambda>segment. segment = ''.'' \<or> segment = ''..'')
              (drop 1 (split_on CHR ''/'' root))
      then Inl UnsafeRepositoryRoot
      else Inr (path_join (path_join root ''worktrees'') (''task-'' @ take 12 (simple task_id))))"

subsection \<open>Inventories\<close>

lemma distinct_remdups_adj_sorted: "sorted (xs :: 'a::linorder list) \<Longrightarrow> distinct (remdups_adj xs)"
  by (induction xs rule: remdups_adj.induct) fastforce+

definition safe_file :: "string \<Rightarrow> bool" where
  "safe_file file \<longleftrightarrow> \<not> unsafe_file file \<and> \<not> unsafe_segments file"

definition inventory_bytes :: "string list \<Rightarrow> nat" where
  "inventory_bytes files = sum_list (map (\<lambda>f. length f + 1) files)"

lemma changed_files_loop_Inr:
  "changed_files_loop tot canonical files = Inr out \<longleftrightarrow>
     list_all safe_file files \<and> (files \<noteq> [] \<longrightarrow> tot + inventory_bytes files \<le> MAX_CHANGED_FILES_BYTES)
     \<and> out = canonical @ files"
proof (induction files arbitrary: tot canonical)
  case Nil
  then show ?case by auto
next
  case (Cons f files)
  show ?case
  proof (cases "safe_file f \<and> tot + length f + 1 \<le> MAX_CHANGED_FILES_BYTES")
    case True
    then have small: "tot + length f + 1 \<le> 100000" by (simp add: MAX_CHANGED_FILES_BYTES_def)
    then have "Option.bind (usize_checked_add tot (length f)) (\<lambda>size. usize_checked_add size 1)
        = Some (tot + length f + 1)"
      by (simp add: usize_checked_add_def)
    with True have "changed_files_loop tot canonical (f # files)
        = changed_files_loop (tot + length f + 1) (canonical @ [f]) files"
      by (simp add: safe_file_def)
    with True Cons.IH show ?thesis by (cases files) (auto simp: inventory_bytes_def)
  next
    case False
    then have "changed_files_loop tot canonical (f # files) = Inl UnsafeChangedFiles"
      by (auto simp: safe_file_def usize_checked_add_def split: option.splits bind_splits)
    moreover have "tot + inventory_bytes (f # files) \<ge> tot + length f + 1"
      by (simp add: inventory_bytes_def)
    ultimately show ?thesis using False by auto
  qed
qed

text \<open>
  Property: \<open>validate_changed_files\<close> accepts exactly the inventories of at most 500 safe
  repository-relative files whose bytes, with one separator each, total at most 100000, and it
  returns the same files, sorted bytewise and without duplicates.
\<close>

theorem validate_changed_files_spec:
  "validate_changed_files files = Inr out \<longleftrightarrow>
     length files \<le> MAX_CHANGED_FILES \<and> list_all safe_file files
     \<and> inventory_bytes files \<le> MAX_CHANGED_FILES_BYTES
     \<and> sorted out \<and> distinct out \<and> set out = set files"
proof -
  have loop: "changed_files_loop 0 [] files = Inr files \<longleftrightarrow>
      list_all safe_file files \<and> inventory_bytes files \<le> MAX_CHANGED_FILES_BYTES"
    by (auto simp: changed_files_loop_Inr inventory_bytes_def)
  have canonical: "sorted (remdups_adj (sort files)) \<and> distinct (remdups_adj (sort files))
      \<and> set (remdups_adj (sort files)) = set files"
    by (simp add: distinct_remdups_adj_sorted)
  have unique: "out = remdups_adj (sort files)"
    if "sorted out" "distinct out" "set out = set files"
    by (rule sorted_distinct_set_unique) (use canonical that in simp_all)
  have "validate_changed_files files = Inr out \<longleftrightarrow>
      length files \<le> MAX_CHANGED_FILES \<and> changed_files_loop 0 [] files = Inr files
      \<and> out = remdups_adj (sort files)"
  proof (cases "changed_files_loop 0 [] files")
    case (Inr c)
    then have "c = files" using changed_files_loop_Inr [of 0 "[]" files c] by simp
    with Inr show ?thesis by (auto simp: validate_changed_files_def)
  qed (simp add: validate_changed_files_def)
  then show ?thesis using loop canonical unique by blast
qed

subsection \<open>Branch names\<close>

definition branch_char :: "char \<Rightarrow> bool" where
  "branch_char c \<longleftrightarrow> is_ascii_alphanumeric (byte c) \<or> c = CHR ''-''"

text \<open>What the \<open>uuid\<close> crate documents of the simple format.\<close>

definition simple_format :: "(uuid \<Rightarrow> string) \<Rightarrow> bool" where
  "simple_format simple \<longleftrightarrow> (\<forall>u. length (simple u) = 32
     \<and> list_all (\<lambda>c. is_ascii_digit (byte c) \<or> 97 \<le> byte c \<and> byte c \<le> 102) (simple u))"

lemma byte_char_of: "n < 256 \<Longrightarrow> byte (char_of n) = n"
  by (simp add: byte_def)

lemma slug_char_ok: "branch_char (slug_char c)"
  by (auto simp: slug_char_def branch_char_def byte_char_of ascii_class_defs)

definition slug_parts :: "(nat \<Rightarrow> nat list) \<Rightarrow> string \<Rightarrow> string list" where
  "slug_parts lower title = take 6 (filter (\<lambda>part. part \<noteq> [])
     (split_on CHR ''-'' (map slug_char (concat (map lower (str_chars title))))))"

lemma task_slug_parts: "task_slug lower title = str_join ''-'' (slug_parts lower title)"
  by (simp add: task_slug_def slug_parts_def)

lemma slug_parts_ok:
  assumes "w \<in> set (slug_parts lower title)"
  shows "w \<noteq> []" "CHR ''-'' \<notin> set w" "c \<in> set w \<Longrightarrow> branch_char c"
proof -
  let ?chars = "map slug_char (concat (map lower (str_chars title)))"
  have w: "w \<noteq> []" "w \<in> set (split_on CHR ''-'' ?chars)"
    using in_set_takeD [OF assms [unfolded slug_parts_def]] by simp_all
  show "w \<noteq> []" by (rule w(1))
  show "CHR ''-'' \<notin> set w" using w(2) by (rule split_on_sep)
  show "branch_char c" if "c \<in> set w"
  proof -
    have "c \<in> set ?chars" using split_on_mem_set [OF w(2)] that by blast
    then show ?thesis by (auto intro: slug_char_ok)
  qed
qed

lemma task_slug_chars: "c \<in> set (task_slug lower title) \<Longrightarrow> branch_char c"
  using set_str_join [of "''-''" "slug_parts lower title"] slug_parts_ok(3)
  by (fastforce simp: task_slug_parts branch_char_def)

lemma last_str_join:
  "ws \<noteq> [] \<Longrightarrow> (\<And>w. w \<in> set ws \<Longrightarrow> w \<noteq> []) \<Longrightarrow> last (str_join sep ws) \<in> set (last ws)"
proof (induction sep ws rule: str_join.induct)
  case (3 sep w v ws)
  then have "str_join sep (v # ws) \<noteq> []" by (subst str_join_Nil_iff) auto
  with 3 show ?case by simp
qed simp_all

lemma task_slug_last:
  assumes "task_slug lower title \<noteq> []"
  shows "is_ascii_alphanumeric (byte (last (task_slug lower title)))"
proof -
  let ?parts = "slug_parts lower title"
  have ne: "?parts \<noteq> []" using assms by (auto simp: task_slug_parts)
  then have "last ?parts \<in> set ?parts" by simp
  note ok = slug_parts_ok [OF this]
  have "last (task_slug lower title) \<in> set (last ?parts)"
    unfolding task_slug_parts using ne by (rule last_str_join) (rule slug_parts_ok(1))
  with ok(2) ok(3) show ?thesis unfolding branch_char_def by metis
qed

lemma branch_char_ascii: "branch_char c \<Longrightarrow> byte c < 128"
  by (auto simp: branch_char_def ascii_class_defs)

lemma ends_with_foreign: "c \<notin> set s \<Longrightarrow> c \<in> set p \<Longrightarrow> \<not> ends_with s p"
  by (auto simp: ends_with_iff)

lemma str_contains_foreign: "c \<notin> set s \<Longrightarrow> c \<in> set p \<Longrightarrow> \<not> str_contains s p"
  by (auto simp: str_contains_iff)

text \<open>A name of slug characters below one fixed directory passes the validator.\<close>

lemma validate_branch_agent:
  assumes chars: "list_all branch_char s" and ends: "is_ascii_alphanumeric (byte (last s))"
    and ne: "s \<noteq> []"
  shows "validate_branch (''agent/'' @ s) = Inr ()"
proof -
  let ?b = "''agent/'' @ s"
  have in_s: "branch_char c" if "c \<in> set s" for c using chars that by (auto simp: list_all_iff)
  have not_in: "c \<notin> set s" if "\<not> branch_char c" for c using in_s that by blast
  have sep: "CHR ''/'' \<notin> set s" "CHR ''.'' \<notin> set s" "CHR ''@'' \<notin> set s"
    by (rule not_in, simp add: branch_char_def ascii_class_defs)+
  have split: "split_on CHR ''/'' ?b = [''agent'', s]"
    using split_on_append [of "CHR ''/''" "''agent''" s] sep(1) by (simp add: split_on_no_sep)
  have last_b: "last ?b = last s" using ne by simp
  have not_last: "last s \<noteq> c" if "\<not> is_ascii_alphanumeric (byte c)" for c using ends that by auto
  have e1: "\<not> ends_with ?b (p @ [c])" if "\<not> is_ascii_alphanumeric (byte c)" for p c
  proof
    assume "ends_with ?b (p @ [c])"
    then obtain t where "?b = t @ p @ [c]" by (auto simp: ends_with_iff)
    then have "last ?b = c" by (metis append_assoc last_snoc)
    with not_last [OF that] last_b show False by simp
  qed
  have no_dot: "CHR ''.'' \<notin> set ?b" "CHR ''@'' \<notin> set ?b" using sep by auto
  have lock: "\<not> ends_with ?b ''.lock''" using no_dot(1) by (rule ends_with_foreign) simp
  have dots: "\<not> str_contains ?b ''..''" "\<not> str_contains ?b [CHR ''@'', CHR ''{'']"
    using str_contains_foreign [OF no_dot(1), of "''..''"]
      str_contains_foreign [OF no_dot(2), of "[CHR ''@'', CHR ''{'']"] by simp_all
  have sls: "\<not> str_contains s ''//''"
    using str_contains_foreign [OF sep(1), of "''//''"] by simp
  moreover have "hd s \<noteq> CHR ''/''" using sep(1) ne by (metis hd_in_set)
  ultimately have slashes: "\<not> str_contains ?b ''//''"
    using ne by (cases s) (auto simp: starts_with_def)
  have "is_ascii s" using in_s branch_char_ascii by (auto simp: is_ascii_def list_all_iff)
  then have ascii: "is_ascii ?b" by (simp add: is_ascii_def byte_def)
  have "list_all (\<lambda>c. \<not> (is_control c \<or> branch_hazard c)) (str_chars ?b)"
    unfolding str_chars_ascii [OF ascii]
    using in_s by (force simp: list_all_iff branch_char_def branch_hazard_def ascii_class_defs)
  then have hazards: "\<not> list_ex (\<lambda>c. is_control c \<or> branch_hazard c) (str_chars ?b)"
    by (auto simp: list_all_iff list_ex_iff)
  have dot_seg: "\<not> starts_with s ''.''"
    using sep(2) by (auto simp: starts_with_iff)
  show ?thesis
    using e1 [of "CHR ''/''" "[]"] e1 [of "CHR ''.''" "[]"] lock dots no_dot slashes hazards dot_seg ne
    by (simp add: validate_branch_def segment_is_only_dot_def split [simplified])
       (auto simp: starts_with_def ascii_class_defs)
qed

lemma short_id_ok:
  assumes "simple_format simple"
  shows "list_all branch_char (take 12 (simple u)) \<and> take 12 (simple u) \<noteq> []
     \<and> is_ascii_alphanumeric (byte (last (take 12 (simple u))))"
proof -
  have fmt: "\<And>c. c \<in> set (simple u) \<Longrightarrow>
      is_ascii_digit (byte c) \<or> 97 \<le> byte c \<and> byte c \<le> 102" "length (simple u) = 32"
    using assms by (auto simp: simple_format_def list_all_iff)
  have "is_ascii_alphanumeric (byte c)" if "c \<in> set (simple u)" for c
    using fmt(1) [OF that] by (auto simp: is_ascii_alphanumeric_def is_ascii_lowercase_def)
  then have "list_all (\<lambda>c. is_ascii_alphanumeric (byte c)) (simple u)" "length (simple u) = 32"
    using fmt(2) by (auto simp: list_all_iff)
  moreover from this have "take 12 (simple u) \<noteq> []" by (cases "simple u") auto
  ultimately show ?thesis
    by (metis (no_types, lifting) branch_char_def in_set_takeD last_in_set list_all_iff)
qed

text \<open>
  Property: every branch name \<open>task_branch\<close> generates, for any task and any title in any
  script, passes \<open>validate_branch\<close>, and it lies below \<open>agent/\<close>.
\<close>

theorem task_branch_valid:
  assumes "simple_format simple"
  shows "validate_branch (task_branch simple lower task_id title) = Inr ()
     \<and> starts_with (task_branch simple lower task_id title) ''agent/''"
proof -
  let ?id = "take 12 (simple task_id)" and ?slug = "task_slug lower title"
  note id = short_id_ok [OF assms, of task_id]
  show ?thesis
  proof (cases "?slug = []")
    case True
    have "list_all branch_char (''task-'' @ ?id)"
      using id by (simp add: branch_char_def ascii_class_defs)
    with id validate_branch_agent [of "''task-'' @ ?id"] True show ?thesis
      by (simp add: task_branch_def starts_with_def)
  next
    case False
    have "list_all branch_char (?id @ ''-'' @ ?slug)"
      using id task_slug_chars [of _ lower title] by (auto simp: branch_char_def list_all_iff)
    with False task_slug_last validate_branch_agent [of "?id @ ''-'' @ ?slug"] show ?thesis
      by (simp add: task_branch_def starts_with_def)
  qed
qed

definition hex_digit :: "nat \<Rightarrow> char" where
  "hex_digit n = (if n < 10 then char_of (48 + n) else char_of (87 + n))"

definition hex_simple :: "uuid \<Rightarrow> string" where
  "hex_simple u = map (\<lambda>i. hex_digit (unat u div 16 ^ (31 - i) mod 16)) [0..<32]"

lemma hex_digit_ok:
  "n < 16 \<Longrightarrow> is_ascii_digit (byte (hex_digit n)) \<or> 97 \<le> byte (hex_digit n) \<and> byte (hex_digit n) \<le> 102"
  by (auto simp: hex_digit_def byte_char_of is_ascii_digit_def)

lemma simple_format_hex_simple: "simple_format hex_simple"
  unfolding simple_format_def hex_simple_def
  by (intro allI conjI) (simp, simp add: list_all_iff hex_digit_ok del: upt_conv_Cons)

theorem task_branch_valid_witness:
  "validate_branch (task_branch hex_simple (\<lambda>c. [c]) 1 ''Fix it!'') = Inr ()"
  using task_branch_valid [OF simple_format_hex_simple, of "\<lambda>c. [c]" 1 "''Fix it!''"] by simp

subsection \<open>Worktree paths\<close>

lemma worktree_path_Inr:
  "worktree_path simple root task_id = Inr p \<Longrightarrow>
     starts_with p root \<and> ends_with p (''/task-'' @ take 12 (simple task_id))"
  by (auto simp: worktree_path_def path_join_def starts_with_iff ends_with_iff split: if_splits)

end
