(* ===== verification/Skills.thy ===== *)
theory Skills
  imports Rust_Std Complex_Main
begin

section \<open>Skill revisions and their promotion (\<open>skills.rs\<close>)\<close>

text \<open>
  The promotion policy and the evaluation of skill revisions, from
  \<open>crates/gobrowse-core/src/skills.rs\<close>.  A rate is the rounding \<open>rnd\<close>, a parameter, of the
  exact quotient to a double; the two counts convert to doubles exactly.  A time is its
  nanoseconds since the epoch.
\<close>

datatype UnknownPromotionPolicy = UnknownPromotionPolicy

definition display_unknown_policy :: "UnknownPromotionPolicy \<Rightarrow> string" where
  "display_unknown_policy e = ''unknown promotion policy''"

datatype PromotionPolicy = Manual | Propose | Automatic

definition default_policy :: PromotionPolicy where
  "default_policy = Propose"

fun policy_as_str :: "PromotionPolicy \<Rightarrow> string" where
  "policy_as_str Manual = ''manual''"
| "policy_as_str Propose = ''propose''"
| "policy_as_str Automatic = ''automatic''"

definition policy_from_str :: "string \<Rightarrow> UnknownPromotionPolicy + PromotionPolicy" where
  "policy_from_str s =
     (if s = ''manual'' then Inr Manual
      else if s = ''propose'' then Inr Propose
      else if s = ''automatic'' then Inr Automatic
      else Inl UnknownPromotionPolicy)"

record SkillEvaluation =
  deterministic_checks_passed :: bool
  attempts :: u32
  successful_attempts :: u32
  steps :: u32
  retries :: u32
  errors :: u32
  duration_ms :: u64
  user_corrections :: u32

record SkillRevision =
  revision_id :: uuid
  skill_id :: uuid
  revision :: int
  skill_content :: string
  skill_author :: string
  reason :: string
  source_conversation_ids :: "uuid list"
  skill_created_at :: int
  evaluation :: "SkillEvaluation option"
  promoted :: bool

definition success_rate :: "(rat \<Rightarrow> rat) \<Rightarrow> SkillEvaluation \<Rightarrow> rat" where
  "success_rate rnd e =
     (if attempts e = 0 then 0
      else rnd (of_nat (unat (successful_attempts e)) / of_nat (unat (attempts e))))"

definition can_auto_promote_over ::
  "(rat \<Rightarrow> rat) \<Rightarrow> SkillEvaluation \<Rightarrow> SkillEvaluation \<Rightarrow> bool" where
  "can_auto_promote_over rnd e previous \<longleftrightarrow>
     deterministic_checks_passed e \<and> attempts e > 0
     \<and> success_rate rnd e \<ge> success_rate rnd previous
     \<and> errors e \<le> errors previous
     \<and> user_corrections e \<le> user_corrections previous"

subsection \<open>Properties\<close>

text \<open>
  Property: reading a policy undoes printing it, and nothing else can be read.
\<close>

theorem policy_round_trip: "policy_from_str s = Inr p \<longleftrightarrow> s = policy_as_str p"
  by (cases p) (auto simp: policy_from_str_def)

text \<open>The exact rate.\<close>

definition exact_rate :: "SkillEvaluation \<Rightarrow> rat" where
  "exact_rate e = of_nat (unat (successful_attempts e)) / of_nat (unat (attempts e))"

lemma success_rate_mono:
  assumes "mono rnd" and "rnd 0 = 0" and "exact_rate previous \<le> exact_rate e"
  shows "success_rate rnd previous \<le> success_rate rnd e"
proof -
  have rate: "success_rate rnd x = rnd (exact_rate x)" for x
    using assms(2) by (simp add: success_rate_def exact_rate_def)
  show ?thesis unfolding rate by (rule monoD [OF assms(1,3)])
qed

text \<open>A chain of automatic promotions, starting from one evaluation.\<close>

fun promotion_chain :: "(rat \<Rightarrow> rat) \<Rightarrow> SkillEvaluation \<Rightarrow> SkillEvaluation list \<Rightarrow> bool" where
  "promotion_chain rnd e [] \<longleftrightarrow> True"
| "promotion_chain rnd e (f # fs) \<longleftrightarrow> can_auto_promote_over rnd f e \<and> promotion_chain rnd f fs"

lemma promotion_trans:
  "can_auto_promote_over rnd c b \<Longrightarrow> can_auto_promote_over rnd b a \<Longrightarrow> can_auto_promote_over rnd c a"
  by (auto simp: can_auto_promote_over_def)

lemma promotion_chain_last:
  "promotion_chain rnd e fs \<Longrightarrow> fs \<noteq> [] \<Longrightarrow> can_auto_promote_over rnd (last fs) e"
  by (induction fs arbitrary: e) (auto intro: promotion_trans)

text \<open>
  Property: over a chain of automatic promotions, the last evaluation passed its checks, has a
  rate at least that of the first, and no more errors or corrections.
\<close>

theorem promotions_never_regress:
  assumes "promotion_chain rnd e fs" and "fs \<noteq> []"
  shows "deterministic_checks_passed (last fs)
     \<and> success_rate rnd e \<le> success_rate rnd (last fs)
     \<and> errors (last fs) \<le> errors e \<and> user_corrections (last fs) \<le> user_corrections e"
  using promotion_chain_last [OF assms] by (simp add: can_auto_promote_over_def)

definition sample_evaluation :: "u32 \<Rightarrow> u32 \<Rightarrow> SkillEvaluation" where
  "sample_evaluation s n = \<lparr>deterministic_checks_passed = True, attempts = n,
     successful_attempts = s, steps = 0, retries = 0, errors = 0, duration_ms = 0,
     user_corrections = 0\<rparr>"

theorem promotions_never_regress_witness:
  "success_rate (\<lambda>x. x) (sample_evaluation 1 4) \<le> success_rate (\<lambda>x. x) (sample_evaluation 3 4)"
proof -
  have "promotion_chain (\<lambda>x. x) (sample_evaluation 1 4) [sample_evaluation 2 4, sample_evaluation 3 4]"
    by (simp add: can_auto_promote_over_def sample_evaluation_def success_rate_def)
  from promotions_never_regress [OF this] show ?thesis by simp
qed

end
