(* ===== verification/Library_Books.thy ===== *)
theory Library_Books
  imports Json Rust_Str "HOL-Library.Multiset" "HOL-Library.Product_Lexorder"
begin

section \<open>Books, chunks and ranking (\<open>library.rs\<close>)\<close>

text \<open>
  The library's records, the validation of books, the chunking of their text, the table of task
  capabilities and the rank fusion of \<open>crates/gobrowse-core/src/library.rs\<close>.  A time is its
  nanoseconds since the epoch.  A float is its 32 bits; its arithmetic is a parameter, and its
  total order is the one of \<open>f32::total_cmp\<close>.
\<close>

definition AUTOBIOGRAPHY_MAX_CHARS :: nat where "AUTOBIOGRAPHY_MAX_CHARS = 99999"

datatype BookScope =
    Scope_Global | Scope_User | Scope_Profile | Scope_Workspace | Scope_Project
  | Scope_Conversation | Scope_Agent | Scope_Private

datatype BookType =
    Book_Note | Book_Document | Book_Conversation | Book_Project | Book_Autobiography
  | Book_Summary | Book_Instruction | Book_Imported

datatype Provenance =
    From_User | From_Conversation | From_Agent | From_File | From_Web | From_Mcp | From_Import
  | From_Skill | From_System

datatype TrustLevel =
    Trust_Verified | Trust_UserProvided | Trust_AgentInferred | Trust_External | Trust_Untrusted

datatype SecurityClassification = Class_Public | Class_Internal | Class_Confidential | Class_Restricted

datatype EmbeddingStatus = Emb_Pending | Emb_Processing | Emb_Ready | Emb_Failed | Emb_Stale

datatype BookKind =
    Kind_Source | Kind_Skill | Kind_Mcp | Kind_Plugin | Kind_Autobiography | Kind_GobrowseUi

datatype PluginState =
    Plugin_Discovered | Plugin_Staged | Plugin_Installed | Plugin_Enabled | Plugin_Dormant
  | Plugin_Active | Plugin_Unhealthy | Plugin_UpdateAvailable

record Book =
  book_id :: uuid
  book_profile_id :: uuid
  title :: string
  body :: string
  book_type :: BookType
  book_kind :: "BookKind option"
  book_scope :: BookScope
  tags :: "string list"
  provenance :: Provenance
  trust :: TrustLevel
  book_author :: string
  book_workspace_id :: "uuid option"
  book_conversation_id :: "uuid option"
  security_classification :: SecurityClassification
  embedding_status :: EmbeddingStatus
  book_metadata :: json
  book_revision :: int
  book_created_at :: int
  book_updated_at :: int

datatype BookValidationError =
    EmptyTitle | TitleTooLong | AutobiographyTooLong | MissingWorkspace | MissingProjectWorkspace
  | MissingConversation

definition validate_book :: "Book \<Rightarrow> BookValidationError + unit" where
  "validate_book b =
     (let title_chars = length (char_slices (title b))
      in if str_trim (title b) = [] then Inl EmptyTitle
         else if title_chars > 512 then Inl TitleTooLong
         else if book_type b = Book_Autobiography
                 \<and> length (char_slices (body b)) > AUTOBIOGRAPHY_MAX_CHARS
         then Inl AutobiographyTooLong
         else if book_scope b = Scope_Workspace \<and> book_workspace_id b = None
         then Inl MissingWorkspace
         else if book_scope b = Scope_Project \<and> book_workspace_id b = None
         then Inl MissingProjectWorkspace
         else if book_scope b = Scope_Conversation \<and> book_conversation_id b = None
         then Inl MissingConversation
         else Inr ())"

subsection \<open>Chunks\<close>

record BookChunk =
  ordinal :: nat
  chunk_text_of :: string
  chunk_tokens :: nat
  source_start :: nat
  source_end :: nat

definition div_ceil :: "nat \<Rightarrow> nat \<Rightarrow> nat" where
  "div_ceil n d = (if n mod d = 0 then n div d else n div d + 1)"

text \<open>The byte offset of a character: the length of the characters before it.\<close>

definition byte_offset :: "string list \<Rightarrow> nat \<Rightarrow> nat" where
  "byte_offset chars i = length (concat (take i chars))"

definition make_chunk :: "string \<Rightarrow> string list \<Rightarrow> nat \<Rightarrow> nat \<Rightarrow> nat \<Rightarrow> BookChunk" where
  "make_chunk bdy chars n char_start char_end =
     (let byte_start = byte_offset chars char_start;
          byte_end = (if char_end < length chars then byte_offset chars char_end else length bdy);
          txt = drop byte_start (take byte_end bdy)
      in \<lparr>ordinal = n, chunk_text_of = txt, chunk_tokens = div_ceil (length (char_slices txt)) 4,
          source_start = byte_start, source_end = byte_end\<rparr>)"

text \<open>The loop may run for ever when the overlap is not smaller than the chunk.\<close>

partial_function (option) chunk_loop ::
  "string \<Rightarrow> string list \<Rightarrow> nat \<Rightarrow> nat \<Rightarrow> nat \<Rightarrow> BookChunk list \<Rightarrow> BookChunk list option" where
  "chunk_loop bdy chars max_chars overlap_chars char_start chunks =
     (if char_start < length chars then
        let char_end = min (char_start + max_chars) (length chars);
            chunks = chunks @ [make_chunk bdy chars (length chunks) char_start char_end]
        in if char_end = length chars then Some chunks
           else chunk_loop bdy chars max_chars overlap_chars (char_end - overlap_chars) chunks
      else Some chunks)"

text \<open>\<open>None\<close> is a failed assertion (or a loop that does not end, which the theorem excludes).\<close>

definition chunk_text :: "string \<Rightarrow> nat \<Rightarrow> nat \<Rightarrow> BookChunk list option" where
  "chunk_text bdy max_chars overlap_chars =
     (if \<not> (max_chars > 0 \<and> overlap_chars < max_chars) then None
      else
        let chars = char_slices bdy
        in if chars = [] then Some []
           else chunk_loop bdy chars max_chars overlap_chars 0 [])"

subsection \<open>Task capabilities\<close>

datatype TaskClass =
    Task_Coding | Task_Research | Task_DataAnalysis | Task_DocumentCreation | Task_GeneralQA
  | Task_ShellAutomation | Task_Ecommerce | Task_SystemAdministration

definition task_capability_map :: "TaskClass \<rightharpoonup> string list" where
  "task_capability_map = map_of
     [(Task_Coding, [''rust'', ''python'', ''javascript'', ''typescript'', ''go'', ''code'',
         ''debug'', ''test'', ''implement'']),
      (Task_Research, [''search'', ''find'', ''lookup'', ''investigate'', ''explore'',
         ''documentation'', ''docs'']),
      (Task_DataAnalysis, [''data'', ''csv'', ''json'', ''analyze'', ''chart'', ''graph'',
         ''statistics'', ''pandas'']),
      (Task_DocumentCreation, [''write'', ''document'', ''markdown'', ''report'', ''summary'',
         ''create'']),
      (Task_GeneralQA, [''what'', ''how'', ''why'', ''explain'', ''describe'', ''tell'']),
      (Task_ShellAutomation, [''bash'', ''shell'', ''command'', ''script'', ''terminal'',
         ''execute'', ''run'']),
      (Task_Ecommerce, [''shop'', ''buy'', ''purchase'', ''cart'', ''checkout'', ''payment'',
         ''order'']),
      (Task_SystemAdministration, [''system'', ''config'', ''service'', ''daemon'', ''log'',
         ''monitor'', ''admin''])]"

subsection \<open>Rank fusion\<close>

type_synonym f32 = u32

record f32_ops =
  f_add :: "f32 \<Rightarrow> f32 \<Rightarrow> f32"
  f_mul :: "f32 \<Rightarrow> f32 \<Rightarrow> f32"
  f_div :: "f32 \<Rightarrow> f32 \<Rightarrow> f32"
  f_clamp01 :: "f32 \<Rightarrow> f32"
  f_of_nat :: "nat \<Rightarrow> f32"

text \<open>The bits of 1.0.\<close>

definition f_one :: f32 where "f_one = 0x3F800000"

text \<open>\<open>total_cmp\<close> compares the bits as signed integers, those of a negative number complemented.\<close>

definition total_key :: "f32 \<Rightarrow> int" where
  "total_key b = (if uint b < 2 ^ 31 then uint b else 2 ^ 31 - 1 - uint b)"

record RankingWeights =
  w_lexical :: f32
  w_semantic :: f32
  w_recency :: f32
  w_source :: f32
  w_workspace :: f32
  rrf_k :: f32
  w_capability_match :: f32
  w_past_success :: f32
  w_token_cost :: f32
  w_permission_risk :: f32

text \<open>\<open>RankingWeights::default()\<close>, each weight the bits of its literal.\<close>

definition default_weights :: RankingWeights where
  "default_weights =
     \<lparr>w_lexical = 0x3F800000, w_semantic = 0x3F800000, w_recency = 0x3B83126F,
      w_source = 0x3B449BA6, w_workspace = 0x3BA3D70A, rrf_k = 0x42700000,
      w_capability_match = 0x3D4CCCCD, w_past_success = 0x3B03126F, w_token_cost = 0xBA83126F,
      w_permission_risk = 0xBB449BA6\<rparr>"

record RankedBook =
  ranked_id :: uuid
  score :: f32

text \<open>\<open>*scores.entry(id).or_default() += x\<close> on the entries of a hash map.\<close>

fun add_score :: "f32_ops \<Rightarrow> uuid \<Rightarrow> f32 \<Rightarrow> (uuid \<times> f32) list \<Rightarrow> (uuid \<times> f32) list" where
  "add_score F i x [] = [(i, f_add F 0 x)]"
| "add_score F i x ((j, y) # m) = (if j = i then (j, f_add F y x) # m else (j, y) # add_score F i x m)"

fun add_ranks ::
  "f32_ops \<Rightarrow> f32 \<Rightarrow> f32 \<Rightarrow> nat \<Rightarrow> uuid list \<Rightarrow> (uuid \<times> f32) list \<Rightarrow> (uuid \<times> f32) list" where
  "add_ranks F weight k rank [] m = m"
| "add_ranks F weight k rank (i # is) m =
     add_ranks F weight k (Suc rank) is
       (add_score F i (f_div F weight (f_add F (f_add F k (f_of_nat F rank)) f_one)) m)"

definition boost ::
  "f32_ops \<Rightarrow> (uuid \<rightharpoonup> f32 \<times> f32 \<times> f32) \<Rightarrow> RankingWeights \<Rightarrow> uuid \<times> f32 \<Rightarrow> uuid \<times> f32" where
  "boost F boosts w entry =
     (case entry of (i, s) \<Rightarrow>
        case boosts i of
          None \<Rightarrow> (i, s)
        | Some (recency, source, workspace) \<Rightarrow>
            (i, f_add F s (f_add F (f_add F (f_mul F (w_recency w) (f_clamp01 F recency))
                                            (f_mul F (w_source w) (f_clamp01 F source)))
                                   (f_mul F (w_workspace w) (f_clamp01 F workspace)))))"

definition rank_key :: "RankedBook \<Rightarrow> int \<times> uuid" where
  "rank_key r = (- total_key (score r), ranked_id r)"

text \<open>\<open>hash_order\<close> is the order in which the hash map gives up its entries.\<close>

definition rank_fusion ::
  "f32_ops \<Rightarrow> ((uuid \<times> f32) list \<Rightarrow> (uuid \<times> f32) list) \<Rightarrow> uuid list \<Rightarrow> uuid list
     \<Rightarrow> (uuid \<rightharpoonup> f32 \<times> f32 \<times> f32) \<Rightarrow> RankingWeights \<Rightarrow> RankedBook list" where
  "rank_fusion F hash_order lexical semantic boosts w =
     (let scores = add_ranks F (w_semantic w) (rrf_k w) 0 semantic
                     (add_ranks F (w_lexical w) (rrf_k w) 0 lexical []);
          scores = map (boost F boosts w) scores;
          ranked = map (\<lambda>(i, s). \<lparr>ranked_id = i, score = s\<rparr>) (hash_order scores)
      in sort_key rank_key ranked)"

subsection \<open>What the chunks are\<close>

text \<open>The spans, in characters, that the loop goes through.\<close>

inductive spans :: "nat \<Rightarrow> nat \<Rightarrow> nat \<Rightarrow> nat \<Rightarrow> (nat \<times> nat) list \<Rightarrow> bool"
  for len max_chars overlap :: nat where
  spans_last: "start < len \<Longrightarrow> len \<le> start + max_chars \<Longrightarrow>
     spans len max_chars overlap start [(start, len)]"
| spans_next: "start + max_chars < len \<Longrightarrow>
     spans len max_chars overlap (start + max_chars - overlap) sp \<Longrightarrow>
     spans len max_chars overlap start ((start, start + max_chars) # sp)"

fun span_chunks :: "string \<Rightarrow> string list \<Rightarrow> nat \<Rightarrow> (nat \<times> nat) list \<Rightarrow> BookChunk list" where
  "span_chunks bdy chars n [] = []"
| "span_chunks bdy chars n ((a, b) # sp) = make_chunk bdy chars n a b # span_chunks bdy chars (Suc n) sp"

lemma chunk_loop_spans:
  assumes "ov < m"
  shows "start < length chars \<Longrightarrow> \<exists>sp. spans (length chars) m ov start sp
     \<and> chunk_loop bdy chars m ov start chunks =
         Some (chunks @ span_chunks bdy chars (length chunks) sp)"
proof (induction "length chars - start" arbitrary: start chunks rule: less_induct)
  case less
  show ?case
  proof (cases "start + m < length chars")
    case False
    with less.prems have "spans (length chars) m ov start [(start, length chars)]"
      by (intro spans_last) auto
    moreover have "chunk_loop bdy chars m ov start chunks =
        Some (chunks @ [make_chunk bdy chars (length chunks) start (length chars)])"
      using False less.prems by (subst chunk_loop.simps) (simp add: min_def)
    ultimately show ?thesis by fastforce
  next
    case True
    let ?c = "chunks @ [make_chunk bdy chars (length chunks) start (start + m)]"
    have "length chars - (start + m - ov) < length chars - start" "start + m - ov < length chars"
      using True assms by linarith+
    from less.hyps [OF this, of ?c] obtain sp where sp:
      "spans (length chars) m ov (start + m - ov) sp"
      "chunk_loop bdy chars m ov (start + m - ov) ?c = Some (?c @ span_chunks bdy chars (length ?c) sp)"
      by blast
    have "chunk_loop bdy chars m ov start chunks = chunk_loop bdy chars m ov (start + m - ov) ?c"
      using True by (subst chunk_loop.simps) (simp add: min_def Let_def)
    with sp spans_next [OF True sp(1)] show ?thesis by fastforce
  qed
qed

definition piece :: "'a list \<Rightarrow> nat \<times> nat \<Rightarrow> 'a list" where
  "piece xs p = drop (fst p) (take (snd p) xs)"

lemma spans_bounds:
  "spans len m ov start sp \<Longrightarrow> 0 < m \<Longrightarrow>
     sp \<noteq> [] \<and> fst (hd sp) = start
     \<and> (\<forall>p \<in> set sp. fst p < snd p \<and> snd p \<le> len \<and> snd p - fst p \<le> m)"
  by (induction rule: spans.induct) auto

lemma spans_join:
  assumes "ov < m"
  shows "spans (length xs) m ov start sp \<Longrightarrow>
     piece xs (hd sp) @ concat (map (\<lambda>p. drop ov (piece xs p)) (tl sp)) = drop start xs"
proof (induction rule: spans.induct)
  case (spans_last start)
  then show ?case by (simp add: piece_def)
next
  case (spans_next start sp)
  let ?s = "start + m - ov"
  have m: "0 < m" using assms by simp
  obtain q sp' where sp: "sp = q # sp'"
    using spans_bounds [OF spans_next.hyps(2) m] by (cases sp) auto
  have len: "ov \<le> length (piece xs q)"
    using spans_next.hyps(2) spans_next.hyps(1) sp assms
    by (cases rule: spans.cases) (auto simp: piece_def)
  have "concat (map (\<lambda>p. drop ov (piece xs p)) sp) =
      drop ov (piece xs q @ concat (map (\<lambda>p. drop ov (piece xs p)) sp'))"
    using len by (simp add: sp)
  also have "\<dots> = drop (start + m) xs"
    using spans_next.IH assms by (simp add: sp)
  finally show ?case
    by (simp add: piece_def) (metis add.commute append_take_drop_id drop_drop take_drop)
qed

lemma concat_take_drop:
  "drop (length (concat (take a xs))) (concat (take b xs)) = concat (drop a (take b xs))"
proof (cases "a \<le> b")
  case True
  have "concat (take b xs) = concat (take a xs) @ concat (drop a (take b xs))"
    using True by (metis append_take_drop_id concat_append min.absorb1 take_take)
  then show ?thesis by simp
next
  case False
  then have "take b xs = take b (take a xs)" by (simp add: min_def)
  then have "length (concat (take b xs)) \<le> length (concat (take a xs))"
    by (metis append_take_drop_id concat_append le_add1 length_append)
  with False show ?thesis by simp
qed

lemma make_chunk_piece:
  assumes "b \<le> length (char_slices bdy)"
  shows "chunk_text_of (make_chunk bdy (char_slices bdy) n a b) = concat (piece (char_slices bdy) (a, b))"
    "chunk_text_of (make_chunk bdy (char_slices bdy) n a b) =
       drop (source_start (make_chunk bdy (char_slices bdy) n a b))
         (take (source_end (make_chunk bdy (char_slices bdy) n a b)) bdy)"
    "ordinal (make_chunk bdy (char_slices bdy) n a b) = n"
proof -
  let ?cs = "char_slices bdy"
  have body: "concat ?cs = bdy" by (rule concat_char_slices)
  have "(if b < length ?cs then byte_offset ?cs b else length bdy) = length (concat (take b ?cs))"
    using assms body by (auto simp: byte_offset_def)
  moreover have "take (length (concat (take b ?cs))) bdy = concat (take b ?cs)"
    using body by (metis append_eq_conv_conj append_take_drop_id concat_append)
  ultimately show "chunk_text_of (make_chunk bdy ?cs n a b) = concat (piece ?cs (a, b))"
    by (simp add: make_chunk_def piece_def byte_offset_def [of ?cs a] concat_take_drop Let_def)
qed (simp_all add: make_chunk_def Let_def)

lemma complete_piece:
  "complete_str bdy \<Longrightarrow> char_slices (concat (piece (char_slices bdy) p)) = piece (char_slices bdy) p"
  using char_slices_concat [of "piece (char_slices bdy) p" "[]"]
  by (simp add: complete_str_def piece_def list_all_iff)
     (meson in_set_dropD in_set_takeD)

definition chunk_ok :: "string \<Rightarrow> nat \<Rightarrow> nat \<Rightarrow> BookChunk \<Rightarrow> bool" where
  "chunk_ok bdy max_chars n c \<longleftrightarrow>
     ordinal c = n
     \<and> chunk_text_of c = drop (source_start c) (take (source_end c) bdy)
     \<and> 0 < length (char_slices (chunk_text_of c))
     \<and> length (char_slices (chunk_text_of c)) \<le> max_chars"

lemma span_chunks_props:
  assumes "complete_str bdy"
    and "\<forall>p \<in> set sp. fst p < snd p \<and> snd p \<le> length (char_slices bdy) \<and> snd p - fst p \<le> m"
  shows "map (\<lambda>c. char_slices (chunk_text_of c)) (span_chunks bdy (char_slices bdy) n sp) =
       map (piece (char_slices bdy)) sp
     \<and> (\<forall>i < length sp. chunk_ok bdy m (n + i) (span_chunks bdy (char_slices bdy) n sp ! i))
     \<and> length (span_chunks bdy (char_slices bdy) n sp) = length sp"
  using assms(2)
proof (induction sp arbitrary: n)
  case (Cons p sp)
  obtain a b where p: "p = (a, b)" by (cases p)
  let ?c = "make_chunk bdy (char_slices bdy) n a b"
  have ab: "a < b" "b \<le> length (char_slices bdy)" "b - a \<le> m" using Cons.prems p by auto
  have slices: "char_slices (chunk_text_of ?c) = piece (char_slices bdy) (a, b)"
    by (simp add: make_chunk_piece(1) ab(2) complete_piece assms(1))
  have "chunk_ok bdy m n ?c"
    unfolding chunk_ok_def slices using ab
    by (simp add: make_chunk_piece(2,3)) (simp add: piece_def)
  moreover have "\<forall>p \<in> set sp. fst p < snd p \<and> snd p \<le> length (char_slices bdy) \<and> snd p - fst p \<le> m"
    using Cons.prems by simp
  ultimately show ?case
    using Cons.IH [of "Suc n"] slices p by (auto simp: nth_Cons split: nat.splits)
qed simp

lemma concat_map_concat: "concat (map (\<lambda>x. concat (f x)) ls) = concat (concat (map f ls))"
  by (induction ls) auto

text \<open>
  Property C40: chunking a valid string ends, with at least one chunk; every chunk is the slice of
  the body that its offsets name, holds at least one and at most \<open>max_chars\<close> whole characters
  and knows its position; and the first chunk followed by the others without their overlap is the
  body.
\<close>

theorem chunks_cover_body:
  assumes "0 < max_chars" and "overlap_chars < max_chars" and "complete_str bdy" and "bdy \<noteq> []"
  shows "\<exists>chunks. chunk_text bdy max_chars overlap_chars = Some chunks \<and> chunks \<noteq> []
     \<and> list_all (\<lambda>i. chunk_ok bdy max_chars i (chunks ! i)) [0..<length chunks]
     \<and> chunk_text_of (hd chunks)
         @ concat (map (\<lambda>c. concat (drop overlap_chars (char_slices (chunk_text_of c)))) (tl chunks))
       = bdy"
proof -
  let ?cs = "char_slices bdy"
  have "0 < length ?cs" using assms(4) by simp
  from chunk_loop_spans [OF assms(2) this, of bdy "[]"] obtain sp where
    sp: "spans (length ?cs) max_chars overlap_chars 0 sp"
    and run: "chunk_loop bdy ?cs max_chars overlap_chars 0 [] = Some (span_chunks bdy ?cs 0 sp)"
    by auto
  let ?chunks = "span_chunks bdy ?cs 0 sp"
  note bounds = spans_bounds [OF sp assms(1)]
  have props: "map (\<lambda>c. char_slices (chunk_text_of c)) ?chunks = map (piece ?cs) sp"
    "\<forall>i < length sp. chunk_ok bdy max_chars i (?chunks ! i)" "length ?chunks = length sp"
    using span_chunks_props [OF assms(3), of sp max_chars 0] bounds by auto
  then have ne: "?chunks \<noteq> []" using bounds by auto
  have hd: "char_slices (chunk_text_of (hd ?chunks)) = piece ?cs (hd sp)"
    using props(1) bounds ne by (metis hd_map)
  have tl: "map (\<lambda>c. char_slices (chunk_text_of c)) (tl ?chunks) = map (piece ?cs) (tl sp)"
    using props(1) by (metis map_tl)
  have "concat (map (\<lambda>c. concat (drop overlap_chars (char_slices (chunk_text_of c)))) (tl ?chunks))
      = concat (concat (map (\<lambda>l. drop overlap_chars l) (map (piece ?cs) (tl sp))))"
    unfolding tl [symmetric] by (simp add: concat_map_concat comp_def)
  moreover have "chunk_text_of (hd ?chunks) = concat (piece ?cs (hd sp))"
    using hd concat_char_slices by metis
  moreover have "piece ?cs (hd sp) @ concat (map (\<lambda>p. drop overlap_chars (piece ?cs p)) (tl sp)) = ?cs"
    using spans_join [OF assms(2) sp] by simp
  ultimately have "chunk_text_of (hd ?chunks)
      @ concat (map (\<lambda>c. concat (drop overlap_chars (char_slices (chunk_text_of c)))) (tl ?chunks))
      = concat ?cs"
    by (metis (no_types, lifting) comp_apply concat_append map_eq_conv map_map)
  moreover have "chunk_text bdy max_chars overlap_chars = Some ?chunks"
    using run assms(1,2,4) by (simp add: chunk_text_def)
  ultimately show ?thesis
    using ne props(2,3) by (auto simp: list_all_iff)
qed

theorem chunks_cover_body_witness:
  "\<exists>chunks. chunk_text ''abcde'' 3 1 = Some chunks \<and> chunks \<noteq> []
     \<and> list_all (\<lambda>i. chunk_ok ''abcde'' 3 i (chunks ! i)) [0..<length chunks]
     \<and> chunk_text_of (hd chunks)
         @ concat (map (\<lambda>c. concat (drop 1 (char_slices (chunk_text_of c)))) (tl chunks))
       = ''abcde''"
proof (rule chunks_cover_body)
  show "complete_str ''abcde''" by code_simp
qed simp_all

subsection \<open>What the ranking is\<close>

lemma total_key_inject: "total_key a = total_key b \<Longrightarrow> a = b"
proof -
  assume eq: "total_key a = total_key b"
  have bound: "0 \<le> uint x" "uint x < 4294967296" for x :: f32
    using uint_lt2p [of x] by simp_all
  have "uint a = uint b"
  proof -
    have key: "total_key x = (if uint x < 2147483648 then uint x else 2147483647 - uint x)"
      for x :: f32 by (simp add: total_key_def)
    show ?thesis
      using eq bound [of a] bound [of b] unfolding key [of a] key [of b]
      by (cases "uint a < 2147483648"; cases "uint b < 2147483648"; simp only: if_True if_False; linarith)
  qed
  then show "a = b" by (simp add: word_uint_eq_iff)
qed

lemma rank_key_inj: "inj rank_key"
proof (rule injI)
  fix r q
  assume "rank_key r = rank_key q"
  then have "score r = score q" "ranked_id r = ranked_id q"
    by (auto simp: rank_key_def dest: total_key_inject)
  then show "r = q" by (cases r; cases q) simp
qed

lemma add_score_ids: "set (map fst (add_score F i x m)) = insert i (set (map fst m))"
proof (induction m)
  case (Cons e m)
  obtain j y where "e = (j, y)" by (cases e)
  with Cons show ?case by (simp add: insert_commute)
qed simp

lemma add_score_distinct: "distinct (map fst m) \<Longrightarrow> distinct (map fst (add_score F i x m))"
proof (induction m)
  case (Cons e m)
  obtain j y where e: "e = (j, y)" by (cases e)
  with Cons add_score_ids [of F i x m] show ?case by auto
qed simp

lemma add_ranks_ids:
  "set (map fst (add_ranks F w k n is m)) = set is \<union> set (map fst m)"
  using add_score_ids by (induction F w k n "is" m rule: add_ranks.induct) auto

lemma add_ranks_distinct:
  "distinct (map fst m) \<Longrightarrow> distinct (map fst (add_ranks F w k n is m))"
  by (induction F w k n "is" m rule: add_ranks.induct) (auto simp: add_score_distinct)

lemma boost_fst [simp]: "fst (boost F boosts w e) = fst e"
  by (cases e) (auto simp: boost_def split: option.split)

text \<open>
  Property: rank fusion returns every id of the two lists exactly once, in strictly descending
  order of the score with ties broken by ascending id, and its result does not depend on the
  order in which the hash map is iterated, whatever the float operations compute.
\<close>

theorem rank_fusion_deterministic:
  assumes "\<forall>m. mset (hash_order m) = mset m"
  shows "rank_fusion F hash_order lexical semantic boosts w
       = rank_fusion F (\<lambda>m. m) lexical semantic boosts w
     \<and> sorted_wrt (\<lambda>r q. rank_key r < rank_key q) (rank_fusion F hash_order lexical semantic boosts w)
     \<and> set (map ranked_id (rank_fusion F hash_order lexical semantic boosts w))
       = set lexical \<union> set semantic
     \<and> distinct (map ranked_id (rank_fusion F hash_order lexical semantic boosts w))"
proof -
  define scores where "scores = map (boost F boosts w)
    (add_ranks F (w_semantic w) (rrf_k w) 0 semantic (add_ranks F (w_lexical w) (rrf_k w) 0 lexical []))"
  let ?mk = "\<lambda>(i, s). \<lparr>ranked_id = i, score = s\<rparr>"
  have result: "rank_fusion F h lexical semantic boosts w = sort_key rank_key (map ?mk (h scores))" for h
    by (simp add: rank_fusion_def scores_def)
  have fst_mk: "ranked_id \<circ> ?mk = fst" by auto
  have ids: "map fst scores = map fst (add_ranks F (w_semantic w) (rrf_k w) 0 semantic
      (add_ranks F (w_lexical w) (rrf_k w) 0 lexical []))"
    by (simp add: scores_def comp_def)
  have set_ids: "set (map fst scores) = set lexical \<union> set semantic"
    unfolding ids add_ranks_ids by auto
  have distinct_ids: "distinct (map fst scores)"
    unfolding ids by (intro add_ranks_distinct) simp
  have inj: "inj_on rank_key A" for A using rank_key_inj by (rule inj_on_subset) simp
  let ?r = "sort_key rank_key (map ?mk scores)"
  have same: "sort_key rank_key (map ?mk (hash_order scores)) = ?r"
    by (rule sort_key_inj_key_eq) (use assms inj in simp_all)
  have "mset (map ranked_id ?r) = mset (map ranked_id (map ?mk scores))"
    by (simp only: mset_map mset_sort)
  also have "\<dots> = mset (map fst scores)" by (simp only: map_map fst_mk)
  finally have "mset (map ranked_id ?r) = mset (map fst scores)" .
  then have ranked: "set (map ranked_id ?r) = set lexical \<union> set semantic" "distinct (map ranked_id ?r)"
    using set_ids distinct_ids mset_eq_setD mset_eq_imp_distinct_iff by blast+
  have "distinct (map rank_key ?r)"
    using ranked(2) inj by (simp add: distinct_map)
  then have "sorted_wrt (<) (map rank_key ?r)"
    by (simp add: strict_sorted_iff)
  with ranked show ?thesis
    by (simp add: result same sorted_wrt_map)
qed

theorem rank_fusion_deterministic_witness:
  "rank_fusion \<lparr>f_add = (+), f_mul = (*), f_div = (div), f_clamp01 = (\<lambda>x. x), f_of_nat = of_nat\<rparr> rev
       [1, 2] [2, 3] Map.empty default_weights
   = rank_fusion \<lparr>f_add = (+), f_mul = (*), f_div = (div), f_clamp01 = (\<lambda>x. x), f_of_nat = of_nat\<rparr>
       (\<lambda>m. m) [1, 2] [2, 3] Map.empty default_weights"
  by (rule rank_fusion_deterministic [THEN conjunct1]) simp

end
