(* ===== verification/Sandbox.thy ===== *)
theory Sandbox
  imports Rust_Str
begin

unbundle bit_operations_syntax

section \<open>The sandbox protocol (\<open>sandbox.rs\<close>)\<close>

text \<open>
  The vocabulary the server and the sandbox daemon share, from
  \<open>crates/gobrowse-core/src/sandbox.rs\<close>: bounds, resource limits, the validation of a
  terminal start request, the operations and results of the protocol, and the test for public
  network destinations.
\<close>

definition SANDBOX_PROTOCOL_VERSION :: u16 where "SANDBOX_PROTOCOL_VERSION = 2"
definition MAX_PROTOCOL_LINE_BYTES :: nat where "MAX_PROTOCOL_LINE_BYTES = 512 * 1024"
definition MAX_COMMAND_ARGUMENTS :: nat where "MAX_COMMAND_ARGUMENTS = 128"
definition MAX_COMMAND_ARGUMENT_BYTES :: nat where "MAX_COMMAND_ARGUMENT_BYTES = 4 * 1024"
definition MAX_COMMAND_BYTES :: nat where "MAX_COMMAND_BYTES = 32 * 1024"
definition MAX_WORKSPACE_PATH_BYTES :: nat where "MAX_WORKSPACE_PATH_BYTES = 4 * 1024"
definition MAX_WORKSPACE_PATH_COMPONENTS :: nat where "MAX_WORKSPACE_PATH_COMPONENTS = 128"
definition MAX_TERMINAL_INPUT_BYTES :: nat where "MAX_TERMINAL_INPUT_BYTES = 64 * 1024"
definition MAX_TERMINAL_OUTPUT_CHUNK_BYTES :: nat where
  "MAX_TERMINAL_OUTPUT_CHUNK_BYTES = 32 * 1024"
definition MAX_TERMINAL_OUTPUT_READ_BYTES :: nat where
  "MAX_TERMINAL_OUTPUT_READ_BYTES = 256 * 1024"
definition MAX_TERMINAL_OUTPUT_BYTES :: nat where
  "MAX_TERMINAL_OUTPUT_BYTES = 64 * 1024 * 1024"

definition MAX_TERMINAL_OUTPUT_WAIT_MS :: u32 where "MAX_TERMINAL_OUTPUT_WAIT_MS = 30000"
definition MAX_TERMINAL_PROCESSES :: nat where "MAX_TERMINAL_PROCESSES = 1024"
definition MAX_TERMINAL_PROCESS_COMMAND_BYTES :: nat where
  "MAX_TERMINAL_PROCESS_COMMAND_BYTES = 4 * 1024"
definition MAX_TERMINAL_PROCESS_BYTES :: nat where
  "MAX_TERMINAL_PROCESS_BYTES = MAX_PROTOCOL_LINE_BYTES div 2"
definition MAX_FILE_PAYLOAD_BYTES :: nat where "MAX_FILE_PAYLOAD_BYTES = 256 * 1024"
definition MAX_DIRECTORY_ENTRIES :: nat where "MAX_DIRECTORY_ENTRIES = 1024"
definition MAX_FILESYSTEM_SEARCH_QUERY_BYTES :: nat where "MAX_FILESYSTEM_SEARCH_QUERY_BYTES = 256"
definition MAX_FILESYSTEM_SEARCH_RESULTS :: nat where "MAX_FILESYSTEM_SEARCH_RESULTS = 1024"
definition MAX_FILESYSTEM_SCANNED_ENTRIES :: nat where "MAX_FILESYSTEM_SCANNED_ENTRIES = 16384"
definition MAX_FILESYSTEM_SEARCH_ENCODED_BYTES :: nat where
  "MAX_FILESYSTEM_SEARCH_ENCODED_BYTES = MAX_PROTOCOL_LINE_BYTES div 2"

subsection \<open>Resource limits\<close>

datatype NetworkPolicy = Net_None | Net_Restricted | Net_Full

record ResourceLimits =
  cpu_millis :: u32
  memory_bytes :: u64
  writable_storage_bytes :: u64
  pids :: u32
  execution_seconds :: u64

definition HARD_RESOURCE_LIMITS :: ResourceLimits where
  "HARD_RESOURCE_LIMITS =
     \<lparr>cpu_millis = 8000, memory_bytes = 16 * 1024 * 1024 * 1024,
      writable_storage_bytes = 16 * 1024 * 1024 * 1024, pids = 1024,
      execution_seconds = 24 * 60 * 60\<rparr>"

datatype SandboxValidationError =
    EmptyCommand | CommandTooLarge | UnsafePath | PathTooLarge | InvalidTerminalSize
  | InvalidLimits | LimitsExceedHardCeiling | InvalidNetwork

definition validate_hard_ceiling :: "ResourceLimits \<Rightarrow> SandboxValidationError + ResourceLimits" where
  "validate_hard_ceiling l =
     (if cpu_millis l = 0 \<or> memory_bytes l = 0 \<or> writable_storage_bytes l = 0 \<or> pids l = 0
         \<or> execution_seconds l = 0
      then Inl InvalidLimits
      else if cpu_millis l > cpu_millis HARD_RESOURCE_LIMITS
         \<or> memory_bytes l > memory_bytes HARD_RESOURCE_LIMITS
         \<or> writable_storage_bytes l > writable_storage_bytes HARD_RESOURCE_LIMITS
         \<or> pids l > pids HARD_RESOURCE_LIMITS
         \<or> execution_seconds l > execution_seconds HARD_RESOURCE_LIMITS
      then Inl LimitsExceedHardCeiling
      else Inr l)"

definition narrow_to :: "ResourceLimits \<Rightarrow> ResourceLimits \<Rightarrow> ResourceLimits" where
  "narrow_to l ceiling =
     \<lparr>cpu_millis = min (cpu_millis l) (cpu_millis ceiling),
      memory_bytes = min (memory_bytes l) (memory_bytes ceiling),
      writable_storage_bytes = min (writable_storage_bytes l) (writable_storage_bytes ceiling),
      pids = min (pids l) (pids ceiling),
      execution_seconds = min (execution_seconds l) (execution_seconds ceiling)\<rparr>"

subsection \<open>Commands and paths\<close>

definition validate_command :: "string list \<Rightarrow> SandboxValidationError + unit" where
  "validate_command command =
     (if command = [] \<or> hd command = [] then Inl EmptyCommand
      else if length command > MAX_COMMAND_ARGUMENTS
         \<or> list_ex (\<lambda>arg. arg = [] \<or> CHR 0x00 \<in> set arg \<or> length arg > MAX_COMMAND_ARGUMENT_BYTES)
              command
         \<or> sum_list (map length command) > MAX_COMMAND_BYTES
      then Inl CommandTooLarge
      else Inr ())"

text \<open>
  \<open>Path::components\<close> on Unix: a leading separator is the root, a leading dot segment of a
  relative path is kept, and other empty and dot segments are skipped.  There are no prefixes.
\<close>

datatype path_component = RootDir | CurDir | ParentDir | Normal string

fun segment_component :: "string \<Rightarrow> path_component list" where
  "segment_component seg =
     (if seg = [] \<or> seg = ''.'' then [] else if seg = ''..'' then [ParentDir] else [Normal seg])"

definition path_components :: "string \<Rightarrow> path_component list" where
  "path_components p =
     (let segs = split_on CHR ''/'' p
      in if starts_with p ''/'' then RootDir # concat (map segment_component segs)
         else (if hd segs = ''.'' then [CurDir] else []) @ concat (map segment_component segs))"

definition validate_workspace_path :: "string \<Rightarrow> SandboxValidationError + string" where
  "validate_workspace_path val =
     (if val = [] \<or> CHR 0x00 \<in> set val then Inl UnsafePath
      else if length val > MAX_WORKSPACE_PATH_BYTES then Inl PathTooLarge
      else let components = path_components val
           in if length components > MAX_WORKSPACE_PATH_COMPONENTS then Inl PathTooLarge
              else if starts_with val ''/''
                 \<or> list_ex (\<lambda>c. c = ParentDir \<or> c = RootDir) components
              then Inl UnsafePath
              else Inr val)"

record TerminalStartRequest =
  req_workspace_id :: uuid
  req_command :: "string list"
  req_working_directory :: string
  req_cols :: u16
  req_rows :: u16
  req_network_policy :: NetworkPolicy
  req_limits :: ResourceLimits

definition validate_start :: "TerminalStartRequest \<Rightarrow> SandboxValidationError + string" where
  "validate_start r =
     and_then (validate_command (req_command r)) (\<lambda>_.
     and_then (validate_workspace_path (req_working_directory r)) (\<lambda>path.
       if \<not> (20 \<le> req_cols r \<and> req_cols r \<le> 1000) \<or> \<not> (5 \<le> req_rows r \<and> req_rows r \<le> 500)
       then Inl InvalidTerminalSize
       else and_then (validate_hard_ceiling (req_limits r)) (\<lambda>_. Inr path)))"

text \<open>The storage identity of a workspace; \<open>hyphenated\<close> is the \<open>uuid\<close> crate's \<open>Display\<close>.\<close>

record WorkspaceStorageIdentity =
  volume_name :: string
  storage_device :: u64
  storage_inode :: u64

definition workspace_volume_name :: "(uuid \<Rightarrow> string) \<Rightarrow> uuid \<Rightarrow> string" where
  "workspace_volume_name hyphenated workspace_id = ''gobrowse-workspace-'' @ hyphenated workspace_id"

subsection \<open>Operations and results\<close>

datatype TerminalState =
    TS_Running | TS_Terminating | TS_Unrecoverable | TS_Lost | TS_Exited | TS_Terminated

datatype FilesystemEntryKind = Kind_File | Kind_Directory

record SandboxProcess =
  process_pid :: u32
  process_command :: string

record FilesystemEntry =
  entry_name :: string
  entry_kind :: FilesystemEntryKind
  entry_size :: u64

record FilesystemMetadata =
  meta_kind :: FilesystemEntryKind
  meta_size :: u64
  meta_mode :: u32
  modified_unix_seconds :: int

record FilesystemSearchMatch =
  match_path :: string
  match_kind :: FilesystemEntryKind
  match_size :: u64

datatype SandboxErrorCode =
    Err_InvalidRequest | Err_UnsupportedVersion | Err_Unauthorized | Err_NotFound
  | Err_PolicyDenied | Err_LimitExceeded | Err_DeadlineExceeded | Err_Conflict
  | Err_OutcomeUnknown | Err_Internal

record SandboxProtocolError =
  error_code :: SandboxErrorCode
  error_message :: string

datatype SandboxOperation =
    Op_Health
  | Op_ProvisionWorkspace uuid
  | Op_Start uuid TerminalStartRequest
  | Op_Input uuid uuid string
  | Op_ReadOutput uuid u64 u32 u32
  | Op_AckOutput uuid u64
  | Op_Resize uuid u16 u16
  | Op_Interrupt uuid
  | Op_Processes uuid
  | Op_Kill uuid u32
  | Op_Terminate uuid
  | Op_Inspect uuid
  | Op_Reconnect uuid
  | Op_FsList uuid string
  | Op_FsRead uuid string
  | Op_FsMetadata uuid string
  | Op_FsSearch uuid string string
  | Op_FsWrite uuid string string
  | Op_FsPatch uuid string string string
  | Op_FsMkdir uuid string
  | Op_FsMove uuid string string
  | Op_FsCopy uuid string string
  | Op_FsDelete uuid string

text \<open>The fields \<open>Inspected\<close> and \<open>Reconnected\<close> have in common.\<close>

record TerminalSnapshot =
  snap_terminal_id :: uuid
  snap_workspace_id :: uuid
  snap_state :: TerminalState
  snap_cols :: u16
  snap_rows :: u16
  snap_exit_code :: "int option"
  snap_reason :: "string option"
  snap_output_start :: u64
  snap_output_end :: u64
  snap_acked :: u64
  snap_output_complete :: bool

datatype SandboxResult =
    Res_Health string
  | Res_Provisioned uuid
  | Res_Started uuid ResourceLimits NetworkPolicy
  | Res_InputAccepted uuid nat bool
  | Res_Output uuid u64 u64 string TerminalState bool
  | Res_OutputAcked u64
  | Res_Resized
  | Res_Interrupted
  | Res_Processes "SandboxProcess list"
  | Res_Killed u32
  | Res_Terminated
  | Res_Inspected TerminalSnapshot
  | Res_Reconnected TerminalSnapshot
  | Res_FsList "FilesystemEntry list"
  | Res_FsRead string string
  | Res_FsMetadata FilesystemMetadata
  | Res_FsSearch "FilesystemSearchMatch list"
  | Res_FsWritten nat string
  | Res_FsPatched nat string
  | Res_FsCreated
  | Res_FsMoved
  | Res_FsCopied
  | Res_FsDeleted

record RequestEnvelope =
  env_version :: u16
  env_request_id :: uuid
  env_token :: string
  env_operation :: SandboxOperation

record ResponseEnvelope =
  resp_version :: u16
  resp_request_id :: uuid
  resp_result :: "SandboxProtocolError + SandboxResult"

subsection \<open>Public destinations\<close>

text \<open>An IPv4 address is its 32-bit value, an IPv6 address its 128-bit value, both in network order.\<close>

datatype ip_addr = V4 u32 | V6 "128 word"

definition octet :: "u32 \<Rightarrow> nat \<Rightarrow> nat" where
  "octet ip i = unat (drop_bit (8 * (3 - i)) ip) mod 256"

definition is_public_v4 :: "u32 \<Rightarrow> bool" where
  "is_public_v4 ip =
     (let a = octet ip 0; b = octet ip 1; c = octet ip 2
      in \<not> (a = 0
        \<or> a = 10
        \<or> a = 127
        \<or> (a = 100 \<and> 64 \<le> b \<and> b \<le> 127)
        \<or> (a = 169 \<and> b = 254)
        \<or> (a = 172 \<and> 16 \<le> b \<and> b \<le> 31)
        \<or> (a = 192 \<and> b = 0 \<and> c = 0)
        \<or> (a = 192 \<and> b = 0 \<and> c = 2)
        \<or> (a = 192 \<and> b = 168)
        \<or> (a = 198 \<and> (b = 18 \<or> b = 19))
        \<or> (a = 198 \<and> b = 51 \<and> c = 100)
        \<or> (a = 203 \<and> b = 0 \<and> c = 113)
        \<or> a \<ge> 224))"

definition segment :: "128 word \<Rightarrow> nat \<Rightarrow> u16" where
  "segment ip i = ucast (drop_bit (16 * (7 - i)) ip)"

text \<open>\<open>Ipv6Addr::to_ipv4_mapped\<close>, \<open>is_multicast\<close> and the others, on the segments.\<close>

definition is_ipv4_mapped :: "128 word \<Rightarrow> bool" where
  "is_ipv4_mapped ip \<longleftrightarrow> list_all (\<lambda>i. segment ip i = 0) [0..<5] \<and> segment ip 5 = 0xFFFF"

definition is_multicast_v6 :: "128 word \<Rightarrow> bool" where
  "is_multicast_v6 ip \<longleftrightarrow> segment ip 0 AND 0xFF00 = 0xFF00"

definition is_public_v6 :: "128 word \<Rightarrow> bool" where
  "is_public_v6 ip \<longleftrightarrow>
     \<not> (is_ipv4_mapped ip
        \<or> ip = 0
        \<or> ip = 1
        \<or> is_multicast_v6 ip
        \<or> segment ip 0 AND 0xFE00 = 0xFC00
        \<or> segment ip 0 AND 0xFFC0 = 0xFE80
        \<or> segment ip 0 AND 0xFFC0 = 0xFEC0
        \<or> list_all (\<lambda>i. segment ip i = 0) [0..<6]
        \<or> (segment ip 0 = 0x0064 \<and> segment ip 1 = 0xFF9B)
        \<or> (segment ip 0 = 0x2001 \<and> segment ip 1 = 0)
        \<or> segment ip 0 = 0x2002
        \<or> (segment ip 0 = 0x2001 \<and> segment ip 1 = 0x0DB8))"

fun is_public_destination :: "ip_addr \<Rightarrow> bool" where
  "is_public_destination (V4 ip) = is_public_v4 ip"
| "is_public_destination (V6 ip) = is_public_v6 ip"

definition valid_restricted_network_name :: "string \<Rightarrow> bool" where
  "valid_restricted_network_name name \<longleftrightarrow>
     starts_with name ''gobrowse-restricted-''
     \<and> length name > length ''gobrowse-restricted-''
     \<and> length name \<le> 128
     \<and> to_ascii_lowercase name \<notin> set [''host'', ''slirp4netns'', ''pasta'', ''container'', ''ns'',
          ''private'', ''bridge'', ''default'', ''none'', ''podman'']
     \<and> list_all (\<lambda>c. is_ascii_alphanumeric c \<or> c = 45 \<or> c = 95) (str_chars name)"

record RestrictedNetworkAttestation =
  network_name :: string
  subnet :: ip_addr
  gateway :: ip_addr
  dns :: "ip_addr list"

definition validate_attestation ::
  "RestrictedNetworkAttestation \<Rightarrow> SandboxValidationError + unit" where
  "validate_attestation att =
     (if \<not> valid_restricted_network_name (network_name att) then Inl InvalidNetwork
      else if \<not> is_public_destination (gateway att) then Inl InvalidNetwork
      else try_for_each (\<lambda>addr. if \<not> is_public_destination addr then Inl InvalidNetwork else Inr ())
             (dns att))"

subsection \<open>Public destinations as prefixes\<close>

text \<open>
  The specification of the address tests: the address lies in none of the special-purpose
  blocks.  A block is a base address and a prefix length.
\<close>

definition in_block :: "'a::len word \<Rightarrow> 'a word \<times> nat \<Rightarrow> bool" where
  "in_block ip blk = (case blk of (base, len) \<Rightarrow>
     drop_bit (LENGTH('a) - len) ip = drop_bit (LENGTH('a) - len) base)"

definition special_v4 :: "(u32 \<times> nat) list" where
  "special_v4 =
     [(0x00000000, 8),   \<comment> \<open>0.0.0.0/8, this network\<close>
      (0x0A000000, 8),   \<comment> \<open>10.0.0.0/8, private\<close>
      (0x7F000000, 8),   \<comment> \<open>127.0.0.0/8, loopback\<close>
      (0x64400000, 10),  \<comment> \<open>100.64.0.0/10, carrier-grade NAT\<close>
      (0xA9FE0000, 16),  \<comment> \<open>169.254.0.0/16, link local\<close>
      (0xAC100000, 12),  \<comment> \<open>172.16.0.0/12, private\<close>
      (0xC0000000, 24),  \<comment> \<open>192.0.0.0/24, protocol assignments\<close>
      (0xC0000200, 24),  \<comment> \<open>192.0.2.0/24, documentation\<close>
      (0xC0A80000, 16),  \<comment> \<open>192.168.0.0/16, private\<close>
      (0xC6120000, 15),  \<comment> \<open>198.18.0.0/15, benchmarking\<close>
      (0xC6336400, 24),  \<comment> \<open>198.51.100.0/24, documentation\<close>
      (0xCB007100, 24),  \<comment> \<open>203.0.113.0/24, documentation\<close>
      (0xE0000000, 4),   \<comment> \<open>224.0.0.0/4, multicast\<close>
      (0xF0000000, 4)]   \<comment> \<open>240.0.0.0/4, reserved and broadcast\<close>"

definition special_v6 :: "(128 word \<times> nat) list" where
  "special_v6 =
     [(0, 96),                        \<comment> \<open>::/96, unspecified, loopback and IPv4-compatible\<close>
      (0xFFFF * 2 ^ 32, 96),          \<comment> \<open>::ffff:0:0/96, IPv4-mapped\<close>
      (0xFF00 * 2 ^ 112, 8),          \<comment> \<open>ff00::/8, multicast\<close>
      (0xFC00 * 2 ^ 112, 7),          \<comment> \<open>fc00::/7, unique local\<close>
      (0xFE80 * 2 ^ 112, 10),         \<comment> \<open>fe80::/10, link local\<close>
      (0xFEC0 * 2 ^ 112, 10),         \<comment> \<open>fec0::/10, site local\<close>
      (0x0064FF9B * 2 ^ 96, 32),      \<comment> \<open>64:ff9b::/32, NAT64\<close>
      (0x20010000 * 2 ^ 96, 32),      \<comment> \<open>2001::/32, Teredo\<close>
      (0x2002 * 2 ^ 112, 16),         \<comment> \<open>2002::/16, 6to4\<close>
      (0x20010DB8 * 2 ^ 96, 32)]      \<comment> \<open>2001:db8::/32, documentation\<close>"

lemma in_block_unat:
  "in_block ip (base, len) \<longleftrightarrow>
     unat ip div 2 ^ (LENGTH('a) - len) = unat base div 2 ^ (LENGTH('a) - len)"
  for ip :: "'a::len word"
  by (simp add: in_block_def word_unat_eq_iff unat_drop_bit_eq drop_bit_eq_div [where 'a = nat])

lemma digit: "r < m \<Longrightarrow> a * m + r = k \<longleftrightarrow> a = k div m \<and> r = k mod m" for a :: nat
  by (metis add.commute add_cancel_right_left div_less div_mult_mod_eq div_mult_self1
      less_zeroE mod_less mod_mult_self1 mult.commute not_gr_zero)

lemma coarser_div: "0 < k \<Longrightarrow> m div k = m div (k * j) * j + m mod (k * j) div k" for m :: nat
proof -
  assume "0 < k"
  then have "(m mod (k * j) + m div (k * j) * j * k) div k = m div (k * j) * j + m mod (k * j) div k"
    by simp
  moreover have "m mod (k * j) + m div (k * j) * j * k = m"
    using mod_div_mult_eq [of m "k * j"] by (simp add: mult.assoc mult.commute [of k j])
  ultimately show ?thesis by simp
qed

lemma div_eq_bounds: "0 < k \<Longrightarrow> n div k = q \<longleftrightarrow> q * k \<le> n \<and> n < Suc q * k" for n :: nat
  by (simp only: less_eq_div_iff_mult_less_eq [symmetric] div_less_iff_less_mult [symmetric]) auto

lemma digit_div:
  fixes a :: nat
  assumes "b < m * k" "0 < k"
  shows "a * m + b div k = t \<longleftrightarrow> a = t div m \<and> t mod m * k \<le> b \<and> b < Suc (t mod m) * k"
proof -
  have "b div k < m" using assms by (simp only: div_less_iff_less_mult)
  then show ?thesis
    using digit [of "b div k" m a t] div_eq_bounds [OF assms(2), of b "t mod m"] by simp
qed

lemma class_d_e: "a < 256 \<Longrightarrow> a div 16 = 14 \<or> a div 16 = 15 \<longleftrightarrow> a \<ge> 224" for a :: nat
  by (simp add: div_eq_bounds) linarith

lemma octet_less: "octet ip i < 256"
  by (simp add: octet_def)

lemma octet_unat:
  "octet ip 0 = unat ip div 2 ^ 24" "octet ip 1 = unat ip div 2 ^ 16 mod 256"
  "octet ip 2 = unat ip div 2 ^ 8 mod 256"
proof -
  have "unat ip < 256 * 2 ^ 24" using unat_u32_less [of ip] by simp
  then have "unat ip div 2 ^ 24 < 256" by (simp only: div_less_iff_less_mult zero_less_power zero_less_numeral)
  then show "octet ip 0 = unat ip div 2 ^ 24" "octet ip 1 = unat ip div 2 ^ 16 mod 256"
    "octet ip 2 = unat ip div 2 ^ 8 mod 256"
    by (simp_all add: octet_def unat_drop_bit_eq drop_bit_eq_div [where 'a = nat])
qed

lemma v4_prefixes:
  "unat ip div 2 ^ 24 = octet ip 0"
  "unat ip div 2 ^ 22 = octet ip 0 * 4 + octet ip 1 div 64"
  "unat ip div 2 ^ 20 = octet ip 0 * 16 + octet ip 1 div 16"
  "unat ip div 2 ^ 17 = octet ip 0 * 128 + octet ip 1 div 2"
  "unat ip div 2 ^ 16 = octet ip 0 * 256 + octet ip 1"
  "unat ip div 2 ^ 8 = octet ip 0 * 65536 + octet ip 1 * 256 + octet ip 2"
  "unat ip div 2 ^ 28 = octet ip 0 div 16"
proof -
  define m where "m = unat ip div 2 ^ 16"
  have m: "unat ip div 2 ^ 24 = m div 256" "unat ip div 2 ^ 22 = m div 64"
    "unat ip div 2 ^ 20 = m div 16" "unat ip div 2 ^ 17 = m div 2" "unat ip div 2 ^ 28 = m div 4096"
    "m = unat ip div 2 ^ 8 div 256"
    unfolding m_def div_mult2_eq [symmetric] by simp_all
  show "unat ip div 2 ^ 24 = octet ip 0"
    "unat ip div 2 ^ 22 = octet ip 0 * 4 + octet ip 1 div 64"
    "unat ip div 2 ^ 20 = octet ip 0 * 16 + octet ip 1 div 16"
    "unat ip div 2 ^ 17 = octet ip 0 * 128 + octet ip 1 div 2"
    unfolding octet_unat m(1-4) m_def [symmetric]
    using coarser_div [of 64 m 4, simplified] coarser_div [of 16 m 16, simplified]
      coarser_div [of 2 m 128, simplified]
    by (simp_all only:)
  show "unat ip div 2 ^ 16 = octet ip 0 * 256 + octet ip 1"
    unfolding octet_unat m(1) m_def [symmetric] by (rule div_mult_mod_eq [symmetric])
  show "unat ip div 2 ^ 28 = octet ip 0 div 16"
    unfolding octet_unat div_mult2_eq [symmetric] by simp
  show "unat ip div 2 ^ 8 = octet ip 0 * 65536 + octet ip 1 * 256 + octet ip 2"
    using div_mult_mod_eq [of "unat ip div 2 ^ 8" 256] div_mult_mod_eq [of m 256]
    unfolding octet_unat m(1) m_def [symmetric] m(6) [symmetric] by linarith
qed

text \<open>
  Property: the IPv4 test accepts exactly the addresses outside the fourteen
  special-purpose blocks.
\<close>

theorem is_public_v4_blocks: "is_public_v4 ip \<longleftrightarrow> \<not> list_ex (in_block ip) special_v4"
proof -
  define a b c where abc: "a = octet ip 0" "b = octet ip 1" "c = octet ip 2"
  have b: "b < 256" and c: "c < 256" by (simp_all add: abc octet_def)
  note prefix = v4_prefixes [of ip, folded abc]
  have blocks: "list_ex (in_block ip) special_v4 \<longleftrightarrow>
      a = 0 \<or> a = 10 \<or> a = 127 \<or> a * 4 + b div 64 = 401 \<or> a * 256 + b = 43518
      \<or> a * 16 + b div 16 = 2753 \<or> a * 65536 + b * 256 + c = 12582912
      \<or> a * 65536 + b * 256 + c = 12582914 \<or> a * 256 + b = 49320 \<or> a * 128 + b div 2 = 25353
      \<or> a * 65536 + b * 256 + c = 12989284 \<or> a * 65536 + b * 256 + c = 13303921
      \<or> a div 16 = 14 \<or> a div 16 = 15"
    by (simp add: special_v4_def in_block_unat prefix [simplified])
  have e1: "a * 4 + b div 64 = 401 \<longleftrightarrow> a = 100 \<and> 64 \<le> b \<and> b \<le> 127"
    by (subst digit_div) (use b in auto)
  have e2: "a * 16 + b div 16 = 2753 \<longleftrightarrow> a = 172 \<and> 16 \<le> b \<and> b \<le> 31"
    by (subst digit_div) (use b in auto)
  have e3: "a * 128 + b div 2 = 25353 \<longleftrightarrow> a = 198 \<and> (b = 18 \<or> b = 19)"
    by (subst digit_div) (use b in auto)
  have e4: "a * 256 + b = 43518 \<longleftrightarrow> a = 169 \<and> b = 254"
    "a * 256 + b = 49320 \<longleftrightarrow> a = 192 \<and> b = 168"
    using b by (simp_all add: digit)
  have "a * 65536 + b * 256 + c = k \<longleftrightarrow> a * 256 + b = k div 256 \<and> c = k mod 256" for k
    using digit [OF c, of "a * 256 + b" k] by (simp add: algebra_simps)
  then have e5: "a * 65536 + b * 256 + c = 12582912 \<longleftrightarrow> a = 192 \<and> b = 0 \<and> c = 0"
    "a * 65536 + b * 256 + c = 12582914 \<longleftrightarrow> a = 192 \<and> b = 0 \<and> c = 2"
    "a * 65536 + b * 256 + c = 12989284 \<longleftrightarrow> a = 198 \<and> b = 51 \<and> c = 100"
    "a * 65536 + b * 256 + c = 13303921 \<longleftrightarrow> a = 203 \<and> b = 0 \<and> c = 113"
    using b by (simp_all add: digit)
  have e6: "a div 16 = 14 \<or> a div 16 = 15 \<longleftrightarrow> a \<ge> 224"
    unfolding abc by (rule class_d_e) (rule octet_less)
  show ?thesis
    unfolding is_public_v4_def abc [symmetric] Let_def blocks e1 e2 e3 e4 e5 e6 by (rule refl)
qed

text \<open>The leading segments of an IPv6 address as one number: \<open>upper ip i\<close> holds segments 0 to \<open>i\<close>.\<close>

definition upper :: "128 word \<Rightarrow> nat \<Rightarrow> nat" where
  "upper ip i = unat ip div 2 ^ (16 * (7 - i))"

lemma unat_segment: "unat (segment ip i) = upper ip i mod 65536"
  by (simp add: segment_def upper_def unsigned_ucast_eq unat_drop_bit_eq
      drop_bit_eq_div [where 'a = nat] take_bit_eq_mod)

lemma upper_Suc:
  assumes "i < 7"
  shows "upper ip (Suc i) = upper ip i * 65536 + unat (segment ip (Suc i))"
proof -
  have "16 * (7 - i) = 16 * (7 - Suc i) + 16" using assms by auto
  then have "upper ip i = upper ip (Suc i) div 65536"
    by (simp add: upper_def div_mult2_eq power_add)
  then show ?thesis
    unfolding unat_segment using div_mult_mod_eq [of "upper ip (Suc i)" 65536] by simp
qed

lemma unat_segment_less: "unat (segment ip i) < 65536"
  by (simp add: unat_segment)

lemma upper_0: "upper ip 0 = unat (segment ip 0)"
proof -
  have "unat ip < 65536 * 2 ^ 112" using unsigned_less [of ip] by simp
  then have "upper ip 0 < 65536"
    unfolding upper_def by (simp only: div_less_iff_less_mult zero_less_power zero_less_numeral) simp
  then show ?thesis by (simp add: unat_segment)
qed

lemma upper_Suc_eq:
  "i < 7 \<Longrightarrow> upper ip (Suc i) = k \<longleftrightarrow>
     upper ip i = k div 65536 \<and> unat (segment ip (Suc i)) = k mod 65536"
  unfolding upper_Suc by (rule digit) (rule unat_segment_less)

lemma segment_eq: "segment ip i = v \<longleftrightarrow> unat (segment ip i) = unat v"
  by (rule word_unat_eq_iff)

lemma and_not_mask: "w AND NOT (mask k) = push_bit k (drop_bit k w)" for w :: "'a::len word"
  by (rule bit_word_eqI) (auto simp: bit_simps)

lemma unat_and_not_mask: "unat (w AND NOT (mask k)) = unat w div 2 ^ k * 2 ^ k"
  for w :: "'a::len word"
proof -
  have "unat w div 2 ^ k * 2 ^ k < 2 ^ LENGTH('a)"
    by (rule le_less_trans [OF div_times_less_eq_dividend]) simp
  then show ?thesis
    by (simp only: and_not_mask unsigned_push_bit_eq unat_drop_bit_eq push_bit_eq_mult [where 'a = nat]
        drop_bit_eq_div [where 'a = nat] take_bit_nat_eq_self)
qed

lemma segment_masked:
  assumes "k \<le> 16" and "unat v = q * 2 ^ k"
  shows "segment ip 0 AND NOT (mask k) = v \<longleftrightarrow> unat ip div 2 ^ (112 + k) = q"
proof -
  have "segment ip 0 AND NOT (mask k) = v \<longleftrightarrow> unat (segment ip 0) div 2 ^ k * 2 ^ k = unat v"
    by (simp only: word_unat_eq_iff unat_and_not_mask)
  also have "\<dots> \<longleftrightarrow> unat (segment ip 0) div 2 ^ k = q" using assms(2) by simp
  also have "unat (segment ip 0) = unat ip div 2 ^ 112"
    using upper_0 [of ip] by (simp add: upper_def)
  finally show ?thesis by (simp add: power_add div_mult2_eq)
qed

lemma segment_masks:
  "segment ip 0 AND 0xFF00 = 0xFF00 \<longleftrightarrow> unat ip div 2 ^ 120 = 255"
  "segment ip 0 AND 0xFE00 = 0xFC00 \<longleftrightarrow> unat ip div 2 ^ 121 = 126"
  "segment ip 0 AND 0xFFC0 = 0xFE80 \<longleftrightarrow> unat ip div 2 ^ 118 = 1018"
  "segment ip 0 AND 0xFFC0 = 0xFEC0 \<longleftrightarrow> unat ip div 2 ^ 118 = 1019"
proof -
  have m: "(0xFF00 :: u16) = NOT (mask 8)" "(0xFE00 :: u16) = NOT (mask 9)"
    "(0xFFC0 :: u16) = NOT (mask 6)"
    by (simp_all add: mask_eq_exp_minus_1)
  show "segment ip 0 AND 0xFF00 = 0xFF00 \<longleftrightarrow> unat ip div 2 ^ 120 = 255"
    using segment_masked [of 8 "0xFF00" 255 ip] unfolding m(1) [symmetric] by simp
  show "segment ip 0 AND 0xFE00 = 0xFC00 \<longleftrightarrow> unat ip div 2 ^ 121 = 126"
    using segment_masked [of 9 "0xFC00" 126 ip] unfolding m(2) [symmetric] by simp
  show "segment ip 0 AND 0xFFC0 = 0xFE80 \<longleftrightarrow> unat ip div 2 ^ 118 = 1018"
    using segment_masked [of 6 "0xFE80" 1018 ip] unfolding m(3) [symmetric] by simp
  show "segment ip 0 AND 0xFFC0 = 0xFEC0 \<longleftrightarrow> unat ip div 2 ^ 118 = 1019"
    using segment_masked [of 6 "0xFEC0" 1019 ip] unfolding m(3) [symmetric] by simp
qed

text \<open>
  Property: the IPv6 test accepts exactly the addresses outside the ten special-purpose
  blocks.
\<close>

theorem is_public_v6_blocks: "is_public_v6 ip \<longleftrightarrow> \<not> list_ex (in_block ip) special_v6"
proof -
  have upper: "unat ip div 2 ^ 32 = upper ip 5" "unat ip div 2 ^ 96 = upper ip 1"
    "unat ip div 2 ^ 112 = upper ip 0"
    by (simp_all add: upper_def)
  have blocks: "list_ex (in_block ip) special_v6 \<longleftrightarrow>
      upper ip 5 = 0 \<or> upper ip 5 = 65535 \<or> unat ip div 2 ^ 120 = 255
      \<or> unat ip div 2 ^ 121 = 126 \<or> unat ip div 2 ^ 118 = 1018 \<or> unat ip div 2 ^ 118 = 1019
      \<or> upper ip 1 = 6619035 \<or> upper ip 1 = 536936448 \<or> upper ip 0 = 8194
      \<or> upper ip 1 = 536939960"
    unfolding upper [symmetric] by (simp add: special_v6_def in_block_unat)
  note steps = upper_Suc_eq [of 4 ip, simplified] upper_Suc_eq [of 3 ip, simplified]
    upper_Suc_eq [of 2 ip, simplified] upper_Suc_eq [of 1 ip, simplified Suc_1, simplified]
    upper_Suc_eq [of 0 ip, simplified]
  have six: "[0..<6] = [0, 1, 2, 3, 4, 5 :: nat]" and five: "[0..<5] = [0, 1, 2, 3, 4 :: nat]"
    by code_simp+
  have compatible: "upper ip 5 = 0 \<longleftrightarrow> list_all (\<lambda>i. segment ip i = 0) [0..<6]"
    unfolding six by (simp add: steps upper_0 segment_eq)
  have mapped: "upper ip 5 = 65535 \<longleftrightarrow> is_ipv4_mapped ip"
    unfolding is_ipv4_mapped_def five by (simp add: steps upper_0 segment_eq)
  have two: "upper ip 1 = k \<longleftrightarrow> unat (segment ip 0) = k div 65536 \<and> unat (segment ip 1) = k mod 65536" for k
    using upper_Suc_eq [of 0 ip k] upper_0 [of ip] by simp
  have pairs: "upper ip 1 = 6619035 \<longleftrightarrow> segment ip 0 = 0x0064 \<and> segment ip 1 = 0xFF9B"
    "upper ip 1 = 536936448 \<longleftrightarrow> segment ip 0 = 0x2001 \<and> segment ip 1 = 0"
    "upper ip 1 = 536939960 \<longleftrightarrow> segment ip 0 = 0x2001 \<and> segment ip 1 = 0x0DB8"
    "upper ip 0 = 8194 \<longleftrightarrow> segment ip 0 = 0x2002"
    by (simp_all add: two [simplified] segment_eq upper_0)
  have small: "ip = 0 \<or> ip = 1 \<Longrightarrow> upper ip 5 = 0" by (auto simp: upper_def)
  show ?thesis
    unfolding blocks is_public_v6_def is_multicast_v6_def segment_masks pairs mapped
      compatible [symmetric]
    using small by blast
qed

subsection \<open>Start requests\<close>

definition within_hard_limits :: "ResourceLimits \<Rightarrow> bool" where
  "within_hard_limits l \<longleftrightarrow>
     0 < unat (cpu_millis l) \<and> unat (cpu_millis l) \<le> 8000
     \<and> 0 < unat (memory_bytes l) \<and> unat (memory_bytes l) \<le> 2 ^ 34
     \<and> 0 < unat (writable_storage_bytes l) \<and> unat (writable_storage_bytes l) \<le> 2 ^ 34
     \<and> 0 < unat (pids l) \<and> unat (pids l) \<le> 1024
     \<and> 0 < unat (execution_seconds l) \<and> unat (execution_seconds l) \<le> 86400"

lemma min_eq_0_word: "min a b = 0 \<longleftrightarrow> a = 0 \<or> b = 0" for a b :: "'a::len word"
  by (auto simp: min_def)

lemma min_not_above: "b \<le> h \<Longrightarrow> \<not> h < min a b" for a b h :: "'a::len word"
  by (simp add: not_less min.coboundedI2)

lemma word_limit: "(w \<noteq> 0 \<and> \<not> h < w) \<longleftrightarrow> 0 < unat w \<and> unat w \<le> unat h" for w h :: "'a::len word"
  by (auto simp: unat_gt_0 word_le_nat_alt not_less)

lemma validate_hard_ceiling_iff [validator_iff]:
  "validate_hard_ceiling l = Inr m \<longleftrightarrow> within_hard_limits l \<and> m = l"
proof -
  have "validate_hard_ceiling l = Inr m \<longleftrightarrow>
      (cpu_millis l \<noteq> 0 \<and> \<not> 8000 < cpu_millis l)
      \<and> (memory_bytes l \<noteq> 0 \<and> \<not> 17179869184 < memory_bytes l)
      \<and> (writable_storage_bytes l \<noteq> 0 \<and> \<not> 17179869184 < writable_storage_bytes l)
      \<and> (pids l \<noteq> 0 \<and> \<not> 1024 < pids l)
      \<and> (execution_seconds l \<noteq> 0 \<and> \<not> 86400 < execution_seconds l) \<and> m = l"
    by (auto simp: validate_hard_ceiling_def HARD_RESOURCE_LIMITS_def)
  then show ?thesis unfolding word_limit within_hard_limits_def by simp
qed

text \<open>
  Property: narrowing any limits to a ceiling that passed the hard check never raises a
  limit above either side, and the result passes the hard check unless a requested limit was
  zero, in which case it is refused as such.
\<close>

theorem narrow_to_within:
  assumes "validate_hard_ceiling ceiling = Inr c"
  shows "validate_hard_ceiling (narrow_to l ceiling) =
       (if cpu_millis l = 0 \<or> memory_bytes l = 0 \<or> writable_storage_bytes l = 0 \<or> pids l = 0
           \<or> execution_seconds l = 0
        then Inl InvalidLimits else Inr (narrow_to l ceiling))
     \<and> narrow_to (narrow_to l ceiling) l = narrow_to l ceiling
     \<and> narrow_to (narrow_to l ceiling) ceiling = narrow_to l ceiling"
proof -
  have ok: "cpu_millis ceiling \<noteq> 0 \<and> memory_bytes ceiling \<noteq> 0
      \<and> writable_storage_bytes ceiling \<noteq> 0 \<and> pids ceiling \<noteq> 0 \<and> execution_seconds ceiling \<noteq> 0
      \<and> cpu_millis ceiling \<le> cpu_millis HARD_RESOURCE_LIMITS
      \<and> memory_bytes ceiling \<le> memory_bytes HARD_RESOURCE_LIMITS
      \<and> writable_storage_bytes ceiling \<le> writable_storage_bytes HARD_RESOURCE_LIMITS
      \<and> pids ceiling \<le> pids HARD_RESOURCE_LIMITS
      \<and> execution_seconds ceiling \<le> execution_seconds HARD_RESOURCE_LIMITS"
    using assms by (auto simp: validate_hard_ceiling_def split: if_splits)
  then show ?thesis 
    by (simp add: validate_hard_ceiling_def narrow_to_def min_eq_0_word min_not_above)
       (auto dest: leD)
qed

theorem narrow_to_within_witness:
  "validate_hard_ceiling (narrow_to HARD_RESOURCE_LIMITS (HARD_RESOURCE_LIMITS\<lparr>pids := 7\<rparr>))
     = Inr (HARD_RESOURCE_LIMITS\<lparr>pids := 7\<rparr>)"
  using narrow_to_within [of "HARD_RESOURCE_LIMITS\<lparr>pids := 7\<rparr>" "HARD_RESOURCE_LIMITS\<lparr>pids := 7\<rparr>"
      HARD_RESOURCE_LIMITS, THEN conjunct1]
  by (simp add: validate_hard_ceiling_def HARD_RESOURCE_LIMITS_def narrow_to_def)

text \<open>
  Resolving a path lexically, component by component, from a directory given by its segments.
\<close>

fun resolve_step :: "string list \<Rightarrow> path_component \<Rightarrow> string list" where
  "resolve_step dir RootDir = []"
| "resolve_step dir CurDir = dir"
| "resolve_step dir ParentDir = butlast dir"
| "resolve_step dir (Normal seg) = dir @ [seg]"

definition resolve :: "string list \<Rightarrow> path_component list \<Rightarrow> string list" where
  "resolve dir cs = foldl resolve_step dir cs"

definition normal_segments :: "string \<Rightarrow> string list" where
  "normal_segments p = filter (\<lambda>seg. seg \<noteq> [] \<and> seg \<noteq> ''.'' \<and> seg \<noteq> ''..'') (split_on CHR ''/'' p)"

lemma components_relative:
  assumes "\<not> starts_with p ''/''"
  shows "ParentDir \<in> set (path_components p) \<longleftrightarrow> ''..'' \<in> set (split_on CHR ''/'' p)"
    and "RootDir \<notin> set (path_components p)"
proof -
  have parent: "ParentDir \<in> set (concat (map segment_component segs)) \<longleftrightarrow> ''..'' \<in> set segs"
    and root: "RootDir \<notin> set (concat (map segment_component segs))" for segs
    by (induction segs) auto
  show "ParentDir \<in> set (path_components p) \<longleftrightarrow> ''..'' \<in> set (split_on CHR ''/'' p)"
    "RootDir \<notin> set (path_components p)"
    using assms parent [of "split_on CHR ''/'' p"] root [of "split_on CHR ''/'' p"]
    unfolding path_components_def Let_def
    by (simp_all only: if_False set_append Un_iff) auto
qed

lemma validate_workspace_path_iff [validator_iff]:
  "validate_workspace_path v = Inr p \<longleftrightarrow>
     p = v \<and> v \<noteq> [] \<and> CHR 0x00 \<notin> set v \<and> length v \<le> MAX_WORKSPACE_PATH_BYTES
     \<and> length (path_components v) \<le> MAX_WORKSPACE_PATH_COMPONENTS
     \<and> \<not> starts_with v ''/'' \<and> ''..'' \<notin> set (split_on CHR ''/'' v)"
proof -
  have "starts_with v ''/'' \<or> list_ex (\<lambda>c. c = ParentDir \<or> c = RootDir) (path_components v) \<longleftrightarrow>
      starts_with v ''/'' \<or> ''..'' \<in> set (split_on CHR ''/'' v)"
    using components_relative [of v] by (auto simp: list_ex_iff)
  then show ?thesis unfolding validate_workspace_path_def Let_def by (simp add: not_less) blast
qed

lemma resolve_components:
  assumes "''..'' \<notin> set segs"
  shows "resolve dir (concat (map segment_component segs)) =
     dir @ filter (\<lambda>seg. seg \<noteq> [] \<and> seg \<noteq> ''.'' \<and> seg \<noteq> ''..'') segs"
  using assms unfolding resolve_def by (induction segs arbitrary: dir) auto

lemma length_normal:
  "length (filter (\<lambda>seg. seg \<noteq> [] \<and> seg \<noteq> ''.'' \<and> seg \<noteq> ''..'') segs)
     \<le> length (concat (map segment_component segs))"
  by (induction segs) auto

lemma resolve_take_prefix:
  assumes "\<forall>c \<in> set cs. c \<noteq> ParentDir \<and> c \<noteq> RootDir"
  shows "\<exists>rest. resolve dir cs = dir @ rest"
  using assms unfolding resolve_def
proof (induction cs arbitrary: dir)
  case (Cons c cs)
  then obtain rest where "foldl resolve_step (resolve_step dir c) cs = resolve_step dir c @ rest"
    by fastforce
  with Cons.prems show ?case by (cases c) auto
qed simp

text \<open>
  Property: a path that \<open>validate_workspace_path\<close> accepts is returned unchanged and
  resolves, from any directory, to that directory followed by the path's own segments, which
  are at most 128 and are none of them empty, a dot segment, or a segment with a separator;
  and at no point of the resolution is the directory left.
\<close>

theorem validate_workspace_path_confined:
  assumes "validate_workspace_path v = Inr p"
  shows "p = v
     \<and> resolve dir (path_components p) = dir @ normal_segments p
     \<and> length (normal_segments p) \<le> 128
     \<and> list_all (\<lambda>seg. seg \<noteq> [] \<and> seg \<noteq> ''.'' \<and> seg \<noteq> ''..'' \<and> CHR ''/'' \<notin> set seg)
          (normal_segments p)
     \<and> starts_with (resolve dir (take n (path_components p))) dir"
proof -
  from assms have ok: "p = v" "\<not> starts_with p ''/''" "''..'' \<notin> set (split_on CHR ''/'' p)"
    "length (path_components p) \<le> 128"
    by (auto simp: validate_workspace_path_iff MAX_WORKSPACE_PATH_COMPONENTS_def)
  let ?normal = "concat (map segment_component (split_on CHR ''/'' p))"
  have comps: "path_components p = (if hd (split_on CHR ''/'' p) = ''.'' then [CurDir] else []) @ ?normal"
    using ok(2) by (simp add: path_components_def)
  have res: "resolve dir (path_components p) = dir @ normal_segments p"
    using resolve_components [OF ok(3), of dir]
    by (simp add: comps normal_segments_def resolve_def)
  have len: "length (normal_segments p) \<le> length ?normal"
    unfolding normal_segments_def by (rule length_normal)
  have "\<forall>c \<in> set (take n (path_components p)). c \<noteq> ParentDir \<and> c \<noteq> RootDir"
    using components_relative [OF ok(2)] ok(3) by (metis in_set_takeD)
  then have "starts_with (resolve dir (take n (path_components p))) dir"
    using resolve_take_prefix by (auto simp: starts_with_iff)
  moreover have "length (normal_segments p) \<le> 128" using len ok(4) comps by simp
  ultimately show ?thesis
    using ok(1) res by (auto simp: normal_segments_def list_all_iff dest: split_on_sep)
qed

theorem validate_workspace_path_confined_witness:
  "resolve [''ws''] (path_components ''./a//b'') = [''ws'', ''a'', ''b'']"
  using validate_workspace_path_confined [of "''./a//b''" "''./a//b''" "[''ws'']",
      THEN conjunct2, THEN conjunct1]
  by (simp add: validate_workspace_path_iff normal_segments_def path_components_def
      starts_with_def MAX_WORKSPACE_PATH_COMPONENTS_def MAX_WORKSPACE_PATH_BYTES_def)

text \<open>
  Property: a start request is accepted exactly when its command is non-empty, within the
  argument bounds and free of empty arguments and NUL bytes, its directory is an accepted
  workspace path, its dimensions are in range and its limits are within the hard ceiling.
\<close>

theorem validate_start_iff:
  "validate_start r = Inr path \<longleftrightarrow>
     req_command r \<noteq> [] \<and> length (req_command r) \<le> 128
     \<and> list_all (\<lambda>arg. arg \<noteq> [] \<and> CHR 0x00 \<notin> set arg \<and> length arg \<le> 4096) (req_command r)
     \<and> length (concat (req_command r)) \<le> 32768
     \<and> validate_workspace_path (req_working_directory r) = Inr path
     \<and> unat (req_cols r) \<in> {20..1000} \<and> unat (req_rows r) \<in> {5..500}
     \<and> within_hard_limits (req_limits r)"
proof -
  have cmd: "validate_command c = Inr () \<longleftrightarrow> c \<noteq> [] \<and> length c \<le> 128
     \<and> list_all (\<lambda>arg. arg \<noteq> [] \<and> CHR 0x00 \<notin> set arg \<and> length arg \<le> 4096) c
     \<and> length (concat c) \<le> 32768" for c
    by (cases c) (auto simp: validate_command_def MAX_COMMAND_ARGUMENTS_def length_concat
        MAX_COMMAND_ARGUMENT_BYTES_def MAX_COMMAND_BYTES_def list_all_iff list_ex_iff not_less
        dest: leD)
  have dims: "20 \<le> req_cols r \<and> req_cols r \<le> 1000 \<longleftrightarrow> unat (req_cols r) \<in> {20..1000}"
    "5 \<le> req_rows r \<and> req_rows r \<le> 500 \<longleftrightarrow> unat (req_rows r) \<in> {5..500}"
    by (simp_all add: word_le_nat_alt)
  show ?thesis
    unfolding validate_start_def dims by (auto simp: cmd validate_hard_ceiling_iff)
qed

end
