(* ===== verification/Model_Routing.thy ===== *)
theory Model_Routing
  imports Json Policy Sandbox
begin

section \<open>Models, providers, routes and tools (\<open>model.rs\<close>, \<open>fake_model.rs\<close>, \<open>tools.rs\<close>)\<close>

text \<open>
  The provider-neutral records of \<open>crates/gobrowse-core/src/model.rs\<close> and \<open>tools.rs\<close>, routing
  with fallback, and the deterministic provider of \<open>fake_model.rs\<close>.  A provider is a number;
  what its \<open>stream\<close> method does is a parameter, a function of the request and of the state of
  the world, which it may change.  A float is its bits, and nothing here computes with it.
\<close>

datatype ModelCapability =
    Cap_Text | Cap_Vision | Cap_Audio | Cap_Files | Cap_ToolCalls | Cap_Reasoning
  | Cap_StructuredOutput | Cap_ParallelTools

record ModelIdentity =
  provider_name :: string
  model_name :: string

record RegisteredModel =
  model_id :: string
  model_identity :: ModelIdentity
  display_name :: string
  context_window :: u32
  output_limit :: u32
  model_capabilities :: "ModelCapability set"
  enabled :: bool
  priority :: int

definition supports :: "RegisteredModel \<Rightarrow> ModelCapability set \<Rightarrow> bool" where
  "supports m required \<longleftrightarrow> required \<subseteq> model_capabilities m"

datatype MessageRole = Role_System | Role_User | Role_Assistant | Role_Tool

datatype ContentPart =
    Part_Text string
  | Part_ImageReference string
  | Part_ToolCall string string json
  | Part_ToolResult string json bool

record NeutralMessage =
  message_role :: MessageRole
  message_content :: "ContentPart list"
  provider_provenance :: "ModelIdentity option"

record ToolDefinition =
  definition_id :: string
  definition_description :: string
  definition_input_schema :: json

record ModelRequest =
  request_model :: ModelIdentity
  messages :: "NeutralMessage list"
  request_tools :: "ToolDefinition list"
  max_output_tokens :: u32
  required_capabilities :: "ModelCapability set"

datatype ModelEvent =
    Ev_TextDelta string
  | Ev_ToolCall string string json
  | Ev_Usage u64 u64 u64
  | Ev_Completed

datatype ProviderError =
    InvalidCredentials | RateLimited "u64 option" | TemporaryUnavailable | UnsupportedCapability
  | ContextLimit | Provider_Timeout | InvalidResponse | Provider_Canceled

fun allows_fallback :: "ProviderError \<Rightarrow> bool" where
  "allows_fallback InvalidCredentials = True"
| "allows_fallback (RateLimited _) = True"
| "allows_fallback TemporaryUnavailable = True"
| "allows_fallback UnsupportedCapability = True"
| "allows_fallback ContextLimit = True"
| "allows_fallback Provider_Timeout = True"
| "allows_fallback _ = False"

record ModelRoute =
  provider :: nat
  route_identity :: ModelIdentity
  supports_tools :: bool
  cost_ranking :: u32

type_synonym ('s, 'w) provider_stream =
  "nat \<Rightarrow> ModelRequest \<Rightarrow> 'w \<Rightarrow> (ProviderError + 's) \<times> 'w"

definition routed :: "ModelRoute \<Rightarrow> ModelRequest \<Rightarrow> ModelRequest" where
  "routed route request = request\<lparr>request_model := route_identity route\<rparr>"

fun fallback_loop ::
  "('s, 'w) provider_stream \<Rightarrow> ModelRequest \<Rightarrow> ProviderError option \<Rightarrow> ModelRoute list \<Rightarrow> 'w
     \<Rightarrow> (ProviderError + ModelIdentity \<times> 's) \<times> 'w" where
  "fallback_loop stream request last_error [] w =
     (Inl (case last_error of Some e \<Rightarrow> e | None \<Rightarrow> TemporaryUnavailable), w)"
| "fallback_loop stream request last_error (route # routes) w =
     (case stream (provider route) (routed route request) w of
        (Inr s, w') \<Rightarrow> (Inr (route_identity route, s), w')
      | (Inl e, w') \<Rightarrow>
          if allows_fallback e then fallback_loop stream request (Some e) routes w'
          else (Inl e, w'))"

definition open_with_fallback ::
  "('s, 'w) provider_stream \<Rightarrow> ModelRoute list \<Rightarrow> ModelRequest \<Rightarrow> 'w
     \<Rightarrow> (ProviderError + ModelIdentity \<times> 's) \<times> 'w" where
  "open_with_fallback stream routes request w = fallback_loop stream request None routes w"

subsection \<open>The deterministic provider\<close>

datatype FakeTurn = Reject ProviderError | Events "(ProviderError + ModelEvent) list"

text \<open>The world of fake providers: the turns that each has left.\<close>

definition remaining_turns :: "(nat \<Rightarrow> FakeTurn list) \<Rightarrow> nat \<Rightarrow> nat" where
  "remaining_turns w p = length (w p)"

definition fake_stream :: "((ProviderError + ModelEvent) list, nat \<Rightarrow> FakeTurn list) provider_stream"
  where
  "fake_stream p request w =
     (case w p of
        [] \<Rightarrow> (Inl InvalidResponse, w)
      | Reject e # turns \<Rightarrow> (Inl e, w(p := turns))
      | Events events # turns \<Rightarrow> (Inr events, w(p := turns)))"

subsection \<open>Tools\<close>

record ToolDescriptor =
  descriptor_id :: string
  descriptor_description :: string
  descriptor_input_schema :: json
  descriptor_output_schema :: json
  descriptor_risk :: RiskClass
  descriptor_permissions :: "string list"
  timeout_seconds :: u64
  descriptor_source :: string

record ToolContext =
  call_id :: uuid
  user_id :: uuid
  profile_id :: uuid
  context_workspace_id :: "uuid option"
  run_id :: uuid
  context_role :: string
  context_network_policy :: NetworkPolicy

datatype ToolError =
    Tool_InvalidInput | Tool_PermissionDenied | Tool_Timeout | Tool_Execution | Tool_Canceled

subsection \<open>Routing\<close>

text \<open>
  The specification of routing as a big step: routes that fail with an error that allows a
  fallback are passed over, in order; the first other outcome is the outcome.
\<close>

inductive passed_over ::
  "('s, 'w) provider_stream \<Rightarrow> ModelRequest \<Rightarrow> ModelRoute list \<Rightarrow> 'w \<Rightarrow> ProviderError option \<Rightarrow> 'w \<Rightarrow> bool"
  for stream :: "('s, 'w) provider_stream" and request :: ModelRequest where
  passed_none: "passed_over stream request [] w None w"
| passed_snoc: "passed_over stream request routes w l w'
     \<Longrightarrow> stream (provider route) (routed route request) w' = (Inl e, w'')
     \<Longrightarrow> allows_fallback e
     \<Longrightarrow> passed_over stream request (routes @ [route]) w (Some e) w''"

lemma passed_over_prefix:
  "passed_over stream request pre w l w' \<Longrightarrow>
     fallback_loop stream request None (pre @ routes) w = fallback_loop stream request l routes w'"
  by (induction arbitrary: routes rule: passed_over.induct) auto

lemma passed_over_split:
  assumes "passed_over stream request pre w0 l w"
  shows "\<exists>more_routes rest l' w'. routes = more_routes @ rest
     \<and> passed_over stream request (pre @ more_routes) w0 l' w'
     \<and> (rest = [] \<or> (\<exists>r post out w''. rest = r # post
          \<and> stream (provider r) (routed r request) w' = (out, w'')
          \<and> (\<forall>e. out = Inl e \<longrightarrow> \<not> allows_fallback e)))"
  using assms
proof (induction routes arbitrary: pre l w)
  case Nil
  then show ?case by force
next
  case (Cons r routes)
  obtain out w' where out: "stream (provider r) (routed r request) w = (out, w')" by fastforce
  show ?case
  proof (cases "\<exists>e. out = Inl e \<and> allows_fallback e")
    case True
    then obtain e where e: "out = Inl e" "allows_fallback e" by blast
    with out have "passed_over stream request (pre @ [r]) w0 (Some e) w'"
      by (auto intro: passed_snoc Cons.prems)
    from Cons.IH [OF this] show ?thesis
      by (metis append.assoc append_Cons append_Nil)
  next
    case False
    with out Cons.prems show ?thesis
      by (intro exI [of _ "[]"] exI [of _ "r # routes"] exI [of _ l] exI [of _ w]) auto
  qed
qed

text \<open>
  Property: whatever the providers do, the routes split into those passed over, each having
  failed with an error that allows a fallback, and a rest.  If the rest is empty the error is the
  last one, or temporarily unavailable when there were no routes; otherwise the outcome is what
  the first route of the rest answered to the request with its own model, its failure if it
  does not allow a fallback; and no later route is asked.
\<close>

theorem open_with_fallback_spec:
  "\<exists>pre rest l w'. routes = pre @ rest \<and> passed_over stream request pre w l w'
     \<and> (case rest of
          [] \<Rightarrow> open_with_fallback stream routes request w =
                 (Inl (case l of Some e \<Rightarrow> e | None \<Rightarrow> TemporaryUnavailable), w')
        | r # post \<Rightarrow>
            (case stream (provider r) (routed r request) w' of
               (Inr s, w'') \<Rightarrow> open_with_fallback stream routes request w =
                                (Inr (route_identity r, s), w'')
             | (Inl e, w'') \<Rightarrow> \<not> allows_fallback e
                 \<and> open_with_fallback stream routes request w = (Inl e, w'')))"
proof -
  obtain pre rest l w' where split: "routes = pre @ rest" "passed_over stream request pre w l w'"
    and rest: "rest = [] \<or> (\<exists>r post out w''. rest = r # post
          \<and> stream (provider r) (routed r request) w' = (out, w'')
          \<and> (\<forall>e. out = Inl e \<longrightarrow> \<not> allows_fallback e))"
    using passed_over_split [OF passed_none [of stream request w], of routes] by auto
  have run: "open_with_fallback stream routes request w = fallback_loop stream request l rest w'"
    using passed_over_prefix [OF split(2)] split(1) by (simp add: open_with_fallback_def)
  have "case rest of
          [] \<Rightarrow> open_with_fallback stream routes request w =
                 (Inl (case l of Some e \<Rightarrow> e | None \<Rightarrow> TemporaryUnavailable), w')
        | r # post \<Rightarrow>
            (case stream (provider r) (routed r request) w' of
               (Inr s, w'') \<Rightarrow> open_with_fallback stream routes request w =
                                (Inr (route_identity r, s), w'')
             | (Inl e, w'') \<Rightarrow> \<not> allows_fallback e
                 \<and> open_with_fallback stream routes request w = (Inl e, w''))"
    using rest by (auto simp: run split: sum.split)
  with split show ?thesis by blast
qed

lemma fake_stream_turns: "length (w q) \<le> length (snd (fake_stream p request w) q) + of_bool (p = q)"
  by (auto simp: fake_stream_def split: list.splits FakeTurn.splits)

lemma fallback_turns:
  "length (w q) \<le> length (snd (fallback_loop fake_stream request l routes w) q)
     + count_list (map provider routes) q"
proof (induction routes arbitrary: l w)
  case (Cons r routes)
  obtain out w' where out: "fake_stream (provider r) (routed r request) w = (out, w')" by fastforce
  from fake_stream_turns [of w q "provider r" "routed r request"] out
  have w': "length (w q) \<le> length (w' q) + of_bool (provider r = q)" by simp
  show ?case
  proof (cases out)
    case (Inl e)
    with out w' Cons.IH [of w' "Some e"] show ?thesis by auto
  next
    case (Inr s)
    with out w' show ?thesis by auto
  qed
qed simp

text \<open>
  Property: with the deterministic provider, a provider that no route names is left with all its
  turns, and no provider loses more turns than it has routes.
\<close>

theorem fake_turns_kept:
  "remaining_turns w q \<le>
     remaining_turns (snd (open_with_fallback fake_stream routes request w)) q
     + count_list (map provider routes) q"
  unfolding remaining_turns_def open_with_fallback_def by (rule fallback_turns)

end
