(* ===== verification/Mcp_Validation.thy ===== *)
theory Mcp_Validation
  imports Json
begin

section \<open>Bounded validation of MCP messages (\<open>mcp/validation.rs\<close>)\<close>

text \<open>
  The limits of \<open>crates/gobrowse-core/src/mcp/validation.rs\<close>, its field validators, the
  bounded JSON parser and the depth and size check on a parsed value.
\<close>

definition MAX_ITEMS :: nat where "MAX_ITEMS = 256"
definition MAX_CURSOR_BYTES :: nat where "MAX_CURSOR_BYTES = 512"
definition MAX_URI_BYTES :: nat where "MAX_URI_BYTES = 4096"
definition MAX_CONTENT_BYTES :: nat where "MAX_CONTENT_BYTES = 512 * 1024"
definition MAX_IDENTIFIER_BYTES :: nat where "MAX_IDENTIFIER_BYTES = 128"
definition MAX_METADATA_TEXT_BYTES :: nat where "MAX_METADATA_TEXT_BYTES = 4096"
definition MAX_MIME_BYTES :: nat where "MAX_MIME_BYTES = 256"
definition MAX_JSON_DEPTH :: nat where "MAX_JSON_DEPTH = 64"

lemmas validation_limits =
  MAX_ITEMS_def MAX_CURSOR_BYTES_def MAX_URI_BYTES_def MAX_CONTENT_BYTES_def
  MAX_IDENTIFIER_BYTES_def MAX_METADATA_TEXT_BYTES_def MAX_MIME_BYTES_def MAX_JSON_DEPTH_def

datatype ValidationError =
    TooManyItems | CursorTooLarge | UriTooLarge | ContentTooLarge | TooDeep | InvalidCursor
  | InvalidValue | Malformed

subsection \<open>Fields\<close>

definition validate_collection_len :: "nat \<Rightarrow> ValidationError + unit" where
  "validate_collection_len len = ensure (len \<le> MAX_ITEMS) TooManyItems"

definition validate_cursor :: "string option \<Rightarrow> ValidationError + unit" where
  "validate_cursor cur =
     (case cur of
        None \<Rightarrow> Inr ()
      | Some cursor \<Rightarrow>
          if cursor = [] \<or> length cursor > MAX_CURSOR_BYTES then Inl CursorTooLarge
          else if list_ex is_control (str_chars cursor) then Inl InvalidCursor
          else Inr ())"

definition validate_uri :: "string \<Rightarrow> ValidationError + unit" where
  "validate_uri uri =
     (if uri = [] \<or> length uri > MAX_URI_BYTES then Inl UriTooLarge else Inr ())"

definition validate_metadata_text :: "string \<Rightarrow> ValidationError + unit" where
  "validate_metadata_text t =
     ensure (t \<noteq> [] \<and> length t \<le> MAX_METADATA_TEXT_BYTES) InvalidValue"

definition validate_identifier :: "string \<Rightarrow> ValidationError + unit" where
  "validate_identifier t =
     ensure (t \<noteq> [] \<and> length t \<le> MAX_IDENTIFIER_BYTES
       \<and> \<not> list_ex is_control (str_chars t)) InvalidValue"

definition validate_mime :: "string \<Rightarrow> ValidationError + unit" where
  "validate_mime t =
     ensure (t \<noteq> [] \<and> length t \<le> MAX_MIME_BYTES
       \<and> \<not> list_ex is_control (str_chars t)) InvalidValue"

definition validate_content_text :: "string \<Rightarrow> ValidationError + unit" where
  "validate_content_text t = ensure (length t \<le> MAX_CONTENT_BYTES) ContentTooLarge"

subsection \<open>Parsing with bounds\<close>

text \<open>
  The tokenizer of \<open>serde_json\<close> drives the visitor of the source.  What it can present is
  a \<open>raw\<close> value: a scalar, a sequence or a map whose last component says whether the
  closing delimiter is there, or text it cannot tokenize.  Depth, size and duplicate keys are
  checked by the visitor while it walks, so an oversized value is refused before what follows
  it is looked at.
\<close>

datatype raw =
    RNull | RBool bool | RI64 int | RU64 u64 | RF64 u64 | RStr string
  | RSeq "raw list" bool | RMap "(string \<times> raw) list" bool | RBad

datatype parse_fault = Limit | Duplicate_Key | Syntax

fun bounded_value :: "nat \<Rightarrow> raw \<Rightarrow> parse_fault + json"
  and visit_seq :: "nat \<Rightarrow> json list \<Rightarrow> raw list \<Rightarrow> bool \<Rightarrow> parse_fault + json"
  and visit_map :: "nat \<Rightarrow> (string \<times> json) list \<Rightarrow> (string \<times> raw) list \<Rightarrow> bool
        \<Rightarrow> parse_fault + json" where
  "bounded_value depth r =
     (if depth > MAX_JSON_DEPTH then Inl Limit
      else case r of
        RNull \<Rightarrow> Inr JNull
      | RBool b \<Rightarrow> Inr (JBool b)
      | RI64 i \<Rightarrow> Inr (JNumber (number_of_i64 i))
      | RU64 u \<Rightarrow> Inr (JNumber (PosInt u))
      | RF64 f \<Rightarrow> (case number_from_f64 f of None \<Rightarrow> Inl Syntax | Some n \<Rightarrow> Inr (JNumber n))
      | RStr s \<Rightarrow> Inr (JString s)
      | RSeq xs closed \<Rightarrow> visit_seq depth [] xs closed
      | RMap es closed \<Rightarrow> visit_map depth [] es closed
      | RBad \<Rightarrow> Inl Syntax)"
| "visit_seq depth vals [] closed = (if closed then Inr (JArray vals) else Inl Syntax)"
| "visit_seq depth vals (x # xs) closed =
     (if length vals < MAX_ITEMS
      then and_then (bounded_value (Suc depth) x) (\<lambda>v. visit_seq depth (vals @ [v]) xs closed)
      else Inl Limit)"
| "visit_map depth m [] closed = (if closed then Inr (JObject m) else Inl Syntax)"
| "visit_map depth m ((key, x) # es) closed =
     (if length m \<ge> MAX_ITEMS then Inl Limit
      else if key \<in> fst ` set m then Inl Duplicate_Key
      else and_then (bounded_value (Suc depth) x)
             (\<lambda>v. visit_map depth (map_insert key v m) es closed))"

declare bounded_value.simps [simp del]

text \<open>\<open>tokenize\<close> gives the first value of the bytes and whether only white space follows.\<close>

definition parse_bounded_json :: "(string \<Rightarrow> raw \<times> bool) \<Rightarrow> string \<Rightarrow> ValidationError + json" where
  "parse_bounded_json tokenize bytes =
     (case tokenize bytes of (r, at_end) \<Rightarrow>
        and_then
          (map_err (\<lambda>e. if e = Limit \<or> e = Duplicate_Key then InvalidValue else Malformed)
             (bounded_value 0 r))
          (\<lambda>v. if at_end then Inr v else Inl Malformed))"

fun walk :: "json \<Rightarrow> nat \<Rightarrow> ValidationError + unit" where
  "walk v depth =
     (if depth > MAX_JSON_DEPTH then Inl TooDeep
      else case v of
        JArray vs \<Rightarrow> and_then (validate_collection_len (length vs))
          (\<lambda>_. try_for_each (\<lambda>x. walk x (Suc depth)) vs)
      | JObject m \<Rightarrow> and_then (validate_collection_len (length m))
          (\<lambda>_. try_for_each (\<lambda>x. walk x (Suc depth)) (map snd m))
      | _ \<Rightarrow> Inr ())"

declare walk.simps [simp del]

definition validate_json :: "json \<Rightarrow> ValidationError + unit" where
  "validate_json v = walk v 0"

subsection \<open>What the parser accepts\<close>

text \<open>
  The specification: a tokenized value is acceptable at a depth when every delimiter is
  closed, every nesting and item limit holds, and no object repeats a key; its value is then
  the tree itself with the objects in key order.
\<close>

fun raw_ok :: "nat \<Rightarrow> raw \<Rightarrow> bool" where
  "raw_ok d (RSeq xs closed) \<longleftrightarrow>
     d \<le> MAX_JSON_DEPTH \<and> closed \<and> length xs \<le> MAX_ITEMS \<and> (\<forall>x \<in> set xs. raw_ok (Suc d) x)"
| "raw_ok d (RMap es closed) \<longleftrightarrow>
     d \<le> MAX_JSON_DEPTH \<and> closed \<and> length es \<le> MAX_ITEMS \<and> distinct (map fst es)
     \<and> (\<forall>e \<in> set es. raw_ok (Suc d) (snd e))"
| "raw_ok d (RF64 f) \<longleftrightarrow> d \<le> MAX_JSON_DEPTH \<and> f64_is_finite f"
| "raw_ok d RBad \<longleftrightarrow> False"
| "raw_ok d r \<longleftrightarrow> d \<le> MAX_JSON_DEPTH"

definition insert_all :: "(string \<times> json) list \<Rightarrow> (string \<times> json) list \<Rightarrow> (string \<times> json) list" where
  "insert_all m es = foldl (\<lambda>m (k, v). map_insert k v m) m es"

fun raw_value :: "raw \<Rightarrow> json" where
  "raw_value RNull = JNull"
| "raw_value (RBool b) = JBool b"
| "raw_value (RI64 i) = JNumber (number_of_i64 i)"
| "raw_value (RU64 u) = JNumber (PosInt u)"
| "raw_value (RF64 f) = JNumber (Float f)"
| "raw_value (RStr s) = JString s"
| "raw_value (RSeq xs closed) = JArray (map raw_value xs)"
| "raw_value (RMap es closed) = JObject (insert_all [] (map (\<lambda>e. (fst e, raw_value (snd e))) es))"
| "raw_value RBad = JNull"

lemma bounded_value_iff:
  "bounded_value d r = Inr v \<longleftrightarrow> raw_ok d r \<and> v = raw_value r"
  "length vals \<le> MAX_ITEMS \<Longrightarrow> visit_seq d vals xs closed = Inr v \<longleftrightarrow>
     closed \<and> length vals + length xs \<le> MAX_ITEMS \<and> (\<forall>x \<in> set xs. raw_ok (Suc d) x)
     \<and> v = JArray (vals @ map raw_value xs)"
  "length m \<le> MAX_ITEMS \<Longrightarrow> visit_map d m es closed = Inr v \<longleftrightarrow>
     closed \<and> length m + length es \<le> MAX_ITEMS \<and> distinct (map fst es)
     \<and> fst ` set es \<inter> fst ` set m = {} \<and> (\<forall>e \<in> set es. raw_ok (Suc d) (snd e))
     \<and> v = JObject (insert_all m (map (\<lambda>e. (fst e, raw_value (snd e))) es))"
proof (induction d r and d vals xs closed and d m es closed
    arbitrary: v and v and v rule: bounded_value_visit_seq_visit_map.induct)
  case (1 depth r)
  show ?case
  proof (cases r)
    case (RSeq xs closed)
    with 1 show ?thesis
      by (cases "depth > MAX_JSON_DEPTH") (auto simp: bounded_value.simps)
  next
    case (RMap es closed)
    with 1 show ?thesis
      by (cases "depth > MAX_JSON_DEPTH") (auto simp: bounded_value.simps)
  qed (auto simp: bounded_value.simps number_from_f64_def)
next
  case (3 depth vals x xs closed)
  then show ?case by auto
next
  case (5 depth m key x es closed)
  show ?case
  proof (cases "length m \<ge> MAX_ITEMS \<or> key \<in> fst ` set m")
    case True
    with 5(3) show ?thesis by auto
  next
    case False
    then have len: "length (map_insert key w m) = Suc (length m)" for w
      by (intro length_map_insert_new) simp
    show ?thesis
    proof (cases "raw_ok (Suc depth) x")
      case True
      with False 5(1) have b: "bounded_value (Suc depth) x = Inr (raw_value x)" by simp
      with False 5(2) [of "raw_value x" v] len
      have "visit_map depth (map_insert key (raw_value x) m) es closed = Inr v \<longleftrightarrow>
          closed \<and> Suc (length m) + length es \<le> MAX_ITEMS \<and> distinct (map fst es)
          \<and> fst ` set es \<inter> insert key (fst ` set m) = {} \<and> (\<forall>e \<in> set es. raw_ok (Suc depth) (snd e))
          \<and> v = JObject (insert_all (map_insert key (raw_value x) m)
                (map (\<lambda>e. (fst e, raw_value (snd e))) es))" by simp
      with False True b show ?thesis by (auto simp: insert_all_def)
    next
      case bad: False
      with False 5(1) show ?thesis by auto
    qed
  qed
qed (auto simp: insert_all_def)

text \<open>Every object of a value is in key order.\<close>

fun json_wf :: "json \<Rightarrow> bool" where
  "json_wf (JArray vs) \<longleftrightarrow> (\<forall>x \<in> set vs. json_wf x)"
| "json_wf (JObject m) \<longleftrightarrow> is_btree m \<and> (\<forall>e \<in> set m. json_wf (snd e))"
| "json_wf _ \<longleftrightarrow> True"

lemma insert_all_props:
  "distinct (map fst es) \<Longrightarrow> fst ` set es \<inter> fst ` set m = {} \<Longrightarrow> is_btree m \<Longrightarrow>
     is_btree (insert_all m es) \<and> set (insert_all m es) = set m \<union> set es
     \<and> length (insert_all m es) = length m + length es"
proof (induction es arbitrary: m)
  case (Cons e es)
  obtain k v where e: "e = (k, v)" by (cases e)
  with Cons have k: "k \<notin> fst ` set m" by auto
  then have "fst ` set es \<inter> fst ` set (map_insert k v m) = {}" using Cons.prems e by auto
  with Cons.IH [of "map_insert k v m"] Cons.prems e k show ?case
    by (simp add: insert_all_def is_btree_insert set_map_insert_new length_map_insert_new)
qed (simp add: insert_all_def)

lemma raw_value_bounded:
  "raw_ok d r \<Longrightarrow> walk (raw_value r) d = Inr () \<and> json_wf (raw_value r)"
proof (induction d r rule: raw_ok.induct)
  case (1 d xs closed)
  then show ?case by (auto simp: walk.simps validate_collection_len_def)
next
  case (2 d es closed)
  let ?es = "map (\<lambda>e. (fst e, raw_value (snd e))) es"
  have "is_btree (insert_all [] ?es) \<and> set (insert_all [] ?es) = set ?es
      \<and> length (insert_all [] ?es) = length es"
    using insert_all_props [of ?es "[]"] 2(2) by (simp add: comp_def)
  with 2 show ?case by (auto simp: walk.simps validate_collection_len_def)
qed (auto simp: walk.simps)

text \<open>
  Property: the bounded parser returns a value for exactly the inputs that tokenize to a
  tree with every delimiter closed, nothing after it, at most 64 levels, at most 256 items in
  each container and no repeated key, and it returns that tree.
\<close>

theorem parse_bounded_json_iff:
  "parse_bounded_json tokenize bytes = Inr v \<longleftrightarrow>
     (\<exists>r. tokenize bytes = (r, True) \<and> raw_ok 0 r \<and> v = raw_value r)"
  by (auto simp: parse_bounded_json_def bounded_value_iff(1) split: prod.splits if_splits)

text \<open>
  Property: whatever the tokenizer does, a value the bounded parser returns passes
  \<open>validate_json\<close> and has its objects in key order without repetition.
\<close>

theorem parse_bounded_json_validates:
  assumes "parse_bounded_json tokenize bytes = Inr v"
  shows "validate_json v = Inr () \<and> json_wf v"
  using assms raw_value_bounded [of 0]
  by (auto simp: parse_bounded_json_def bounded_value_iff(1) validate_json_def
      split: prod.splits if_splits)

theorem parse_bounded_json_validates_witness:
  "validate_json (JObject [(''a'', JArray [JNull]), (''b'', JBool True)]) = Inr ()"
  by (rule parse_bounded_json_validates
      [of "\<lambda>_. (RMap [(''b'', RBool True), (''a'', RSeq [RNull] True)] True, True)" "[]", THEN conjunct1])
     (simp add: parse_bounded_json_def bounded_value.simps validation_limits)

end
