(* ===== verification/Rust_Text.thy ===== *)
theory Rust_Text
  imports Rust_Str
begin

section \<open>Printing, parsing and decoding text\<close>

text \<open>
  Numbers in decimal, lines, fields and lossy decoding, as the code uses them on the output of
  other programs, with the round trips the component theories need.
\<close>

subsection \<open>Decimal numbers\<close>

text \<open>Decimal digits, for the numbers that \<open>format!\<close> prints; and \<open>{:03}\<close>.\<close>

fun decimal :: "nat \<Rightarrow> string" where
  "decimal n = (if n < 10 then [char_of (48 + n)] else decimal (n div 10) @ [char_of (48 + n mod 10)])"

declare decimal.simps [simp del]

definition decimal_padded :: "nat \<Rightarrow> nat \<Rightarrow> string" where
  "decimal_padded width n = replicate (width - length (decimal n)) CHR ''0'' @ decimal n"

text \<open>\<open>str::parse\<close> on an unsigned type with the given maximum.\<close>

fun parse_digits :: "nat \<Rightarrow> nat \<Rightarrow> string \<Rightarrow> nat option" where
  "parse_digits maximum acc [] = Some acc"
| "parse_digits maximum acc (c # cs) =
     (if is_ascii_digit (byte c) \<and> acc * 10 + (byte c - 48) \<le> maximum
      then parse_digits maximum (acc * 10 + (byte c - 48)) cs else None)"

definition parse_unsigned :: "nat \<Rightarrow> string \<Rightarrow> nat option" where
  "parse_unsigned maximum s =
     (case s of
        [] \<Rightarrow> None
      | c # cs \<Rightarrow>
          if c = CHR ''+'' then (if cs = [] then None else parse_digits maximum 0 cs)
          else parse_digits maximum 0 s)"

definition u32_max :: nat where "u32_max = 2 ^ 32 - 1"

definition parse_u32 :: "string \<Rightarrow> u32 option" where
  "parse_u32 s = map_option word_of_nat (parse_unsigned u32_max s)"

lemma decimal_digits: "c \<in> set (decimal n) \<Longrightarrow> is_ascii_digit (byte c)"
proof (induction n rule: decimal.induct)
  case (1 n)
  have "is_ascii_digit (byte (char_of (48 + k)))" if "k < 10" for k :: nat
    using that by (simp add: is_ascii_digit_def byte_def)
  then show ?case using 1 by (subst (asm) decimal.simps) (auto split: if_splits)
qed

lemma decimal_nonempty [simp]: "decimal n \<noteq> []"
  by (subst decimal.simps) simp

lemma parse_digits_append:
  "parse_digits m a (s @ t) = (case parse_digits m a s of None \<Rightarrow> None | Some b \<Rightarrow> parse_digits m b t)"
  by (induction s arbitrary: a) auto

lemma parse_digits_decimal: "n \<le> m \<Longrightarrow> parse_digits m 0 (decimal n) = Some n"
proof (induction n rule: decimal.induct)
  case (1 n)
  have digit: "is_ascii_digit (byte (char_of (48 + k)))" "byte (char_of (48 + k)) - 48 = k" if "k < 10" for k :: nat
    using that by (simp_all add: is_ascii_digit_def byte_def)
  show ?case
  proof (cases "n < 10")
    case True
    with 1(2) digit [of n] show ?thesis by (subst decimal.simps) simp
  next
    case False
    with 1 have "parse_digits m 0 (decimal (n div 10)) = Some (n div 10)" by simp
    with False 1(2) digit [of "n mod 10"] show ?thesis
      by (subst decimal.simps) (simp add: parse_digits_append)
  qed
qed

lemma parse_unsigned_decimal: "n \<le> m \<Longrightarrow> parse_unsigned m (decimal n) = Some n"
  using parse_digits_decimal [of n m] decimal_digits [of "hd (decimal n)" n]
  by (cases "decimal n") (auto simp: parse_unsigned_def is_ascii_digit_def byte_def)

lemma parse_digits_bound: "parse_digits m a s = Some n \<Longrightarrow> a \<le> m \<Longrightarrow> n \<le> m"
  by (induction s arbitrary: a) (auto split: if_splits)

lemma parse_unsigned_bound: "parse_unsigned m s = Some n \<Longrightarrow> n \<le> m"
  by (auto simp: parse_unsigned_def dest: parse_digits_bound split: list.splits if_splits)

subsection \<open>Lines and fields\<close>

text \<open>\<open>lines()\<close>: a final newline ends no line; a carriage return before a newline is dropped.\<close>

definition NL :: char where "NL = CHR 0x0A"

definition strip_cr :: "string \<Rightarrow> string" where
  "strip_cr s = (case strip_suffix s [CHR 0x0D] of Some t \<Rightarrow> t | None \<Rightarrow> s)"

definition str_lines :: "string \<Rightarrow> string list" where
  "str_lines s =
     (let parts = split_on NL s
      in map strip_cr (butlast parts) @ (if last parts = [] then [] else [last parts]))"

text \<open>\<open>split_ascii_whitespace()\<close>, and \<open>splitn(2, char::is_whitespace)\<close>.\<close>

definition is_ascii_whitespace :: "char \<Rightarrow> bool" where
  "is_ascii_whitespace c \<longleftrightarrow> byte c \<in> set [9, 10, 12, 13, 32]"

definition split_ascii_whitespace :: "string \<Rightarrow> string list" where
  "split_ascii_whitespace s = runs is_ascii_whitespace [] s"

definition splitn2_whitespace :: "string \<Rightarrow> string list" where
  "splitn2_whitespace s =
     (let slices = char_slices s
      in case find_index slice_is_ws slices of
           None \<Rightarrow> [s]
         | Some i \<Rightarrow> [concat (take i slices), concat (drop (Suc i) slices)])"

definition strip_prefix :: "'a list \<Rightarrow> 'a list \<Rightarrow> 'a list option" where
  "strip_prefix s p = (if starts_with s p then Some (drop (length p) s) else None)"

lemma strip_prefix_append [simp]: "strip_prefix (p @ s) p = Some s"
  by (simp add: strip_prefix_def starts_with_def)

lemma strip_prefix_Some: "strip_prefix s p = Some t \<longleftrightarrow> s = p @ t"
  by (auto simp: strip_prefix_def starts_with_def) (metis append_take_drop_id)

lemma split_on_no_nl: "NL \<notin> set s \<Longrightarrow> str_lines s = (if s = [] then [] else [s])"
  by (simp add: str_lines_def split_on_no_sep)

lemma strip_cr_id: "s = [] \<or> last s \<noteq> CHR 0x0D \<Longrightarrow> strip_cr s = s"
  by (cases s rule: rev_cases) (auto simp: strip_cr_def strip_suffix_def ends_with_def)

text \<open>Lines that are joined by newlines are read back, when the last one is not empty.\<close>

lemma str_lines_join:
  assumes "ws \<noteq> []" and "last ws \<noteq> []"
    and "\<And>w. w \<in> set ws \<Longrightarrow> NL \<notin> set w \<and> CHR 0x0D \<notin> set w"
  shows "str_lines (str_join [NL] ws) = ws"
proof -
  have "split_on NL (str_join [NL] ws) = ws" using assms by (intro split_on_join) auto
  moreover have "map strip_cr (butlast ws) = butlast ws"
    by (rule map_idI, rule strip_cr_id) (metis assms(3) in_set_butlastD last_in_set)
  ultimately show ?thesis using assms(1,2) by (simp add: str_lines_def)
qed

subsection \<open>Lossy decoding\<close>

text \<open>
  \<open>String::from_utf8_lossy\<close>: every maximal prefix of a sequence that cannot be completed becomes
  U+FFFD.  \<open>second_ok\<close> restricts the byte after the first, as \<open>core::str\<close> does.
\<close>

definition second_ok :: "nat \<Rightarrow> nat \<Rightarrow> bool" where
  "second_ok a b \<longleftrightarrow>
     (if 194 \<le> a \<and> a \<le> 223 then 128 \<le> b \<and> b \<le> 191
      else if a = 224 then 160 \<le> b \<and> b \<le> 191
      else if 225 \<le> a \<and> a \<le> 236 \<or> 238 \<le> a \<and> a \<le> 239 then 128 \<le> b \<and> b \<le> 191
      else if a = 237 then 128 \<le> b \<and> b \<le> 159
      else if a = 240 then 144 \<le> b \<and> b \<le> 191
      else if 241 \<le> a \<and> a \<le> 243 then 128 \<le> b \<and> b \<le> 191
      else if a = 244 then 128 \<le> b \<and> b \<le> 143
      else False)"

text \<open>How many of the following bytes belong to the sequence that the first byte opens.\<close>

definition tail_length :: "char \<Rightarrow> string \<Rightarrow> nat" where
  "tail_length c cs =
     (case cs of
        [] \<Rightarrow> 0
      | d # ds \<Rightarrow>
          if \<not> second_ok (byte c) (byte d) then 0
          else Suc (length (takeWhile continuation (take (utf8_width c - 2) ds))))"

function from_utf8_lossy :: "string \<Rightarrow> string" where
  "from_utf8_lossy [] = []"
| "from_utf8_lossy (c # cs) =
     (if byte c < 128 then c # from_utf8_lossy cs
      else let n = tail_length c cs
           in (if 194 \<le> byte c \<and> n = utf8_width c - 1 then c # take n cs
               else [CHR 0xEF, CHR 0xBF, CHR 0xBD])
              @ from_utf8_lossy (drop n cs))"
  by pat_completeness auto

termination
  by (relation "measure length") auto

lemma from_utf8_lossy_ascii: "is_ascii s \<Longrightarrow> from_utf8_lossy s = s"
  by (induction s) (auto simp: is_ascii_def)

end
