(* ===== verification/Mcp_Core.thy ===== *)
theory Mcp_Core
  imports Mcp_Validation Sandbox Rust_Text
begin

section \<open>MCP versions, diagnostics and schemas (\<open>mcp.rs\<close>)\<close>

text \<open>
  Protocol eras and version selection, the diagnostic checks on transports, audiences and tool
  schemas, from \<open>crates/gobrowse-core/src/mcp.rs\<close>.  A \<open>Url\<close> of the \<open>url\<close> crate is the
  record of what the code reads from it; \<open>to_vec\<close> is \<open>serde_json::to_vec\<close>.
\<close>

subsection \<open>Protocol eras\<close>

definition CURRENT_PROTOCOL_VERSION :: string where
  "CURRENT_PROTOCOL_VERSION = ''2026-07-28''"

datatype McpProtocolEra =
    Modern20260728 | Legacy20251125 | Legacy20250618 | Legacy20250326 | Legacy20241105

definition SUPPORTED_PROTOCOL_ERAS :: "McpProtocolEra list" where
  "SUPPORTED_PROTOCOL_ERAS = [Modern20260728, Legacy20251125]"

fun wire_version :: "McpProtocolEra \<Rightarrow> string" where
  "wire_version Modern20260728 = CURRENT_PROTOCOL_VERSION"
| "wire_version Legacy20251125 = ''2025-11-25''"
| "wire_version Legacy20250618 = ''2025-06-18''"
| "wire_version Legacy20250326 = ''2025-03-26''"
| "wire_version Legacy20241105 = ''2024-11-05''"

definition from_wire_version :: "string \<Rightarrow> McpProtocolEra option" where
  "from_wire_version version = find (\<lambda>era. wire_version era = version) SUPPORTED_PROTOCOL_ERAS"

definition is_modern :: "McpProtocolEra \<Rightarrow> bool" where
  "is_modern era \<longleftrightarrow> era = Modern20260728"

datatype McpVersionSelectionError = NoVersionsAdvertised | NoMutuallySupportedVersion

definition select_protocol_version ::
  "string list \<Rightarrow> McpVersionSelectionError + McpProtocolEra" where
  "select_protocol_version server_supported =
     (if server_supported = [] then Inl NoVersionsAdvertised
      else ok_or (find (\<lambda>era. list_ex (\<lambda>version. version = wire_version era) server_supported)
                   SUPPORTED_PROTOCOL_ERAS)
             NoMutuallySupportedVersion)"

subsection \<open>Diagnostics\<close>

datatype url_host = Host_Ipv4 u32 | Host_Ipv6 "128 word" | Host_Domain string

record url =
  url_scheme :: string
  url_host :: "url_host option"
  url_host_str :: "string option"
  url_display :: string

datatype McpTransport = Transport_Stdio string "string list" | Transport_StreamableHttp url

datatype DiagnosticStatus = St_Pass | St_Warn | St_Fail | St_Skipped

record DiagnosticCheck =
  check_code :: string
  check_label :: string
  check_status :: DiagnosticStatus
  check_detail :: string
  check_latency_ms :: "u64 option"

definition diagnostic :: "string \<Rightarrow> string \<Rightarrow> DiagnosticStatus \<Rightarrow> string \<Rightarrow> DiagnosticCheck" where
  "diagnostic code label status detail =
     \<lparr>check_code = code, check_label = label, check_status = status, check_detail = detail,
      check_latency_ms = None\<rparr>"

definition validate_transport_endpoint :: "McpTransport \<Rightarrow> DiagnosticCheck" where
  "validate_transport_endpoint transport =
     (let check = diagnostic ''mcp.transport'' ''transport endpoint''
      in case transport of
           Transport_Stdio command args \<Rightarrow>
             if command = [] then check St_Fail ''stdio command is empty''
             else check St_Pass (''stdio transport via '' @ command)
         | Transport_StreamableHttp endpoint \<Rightarrow>
             if url_scheme endpoint = ''http'' \<or> url_scheme endpoint = ''https''
             then check St_Pass (''streamable HTTP endpoint '' @ url_display endpoint)
             else check St_Fail (''disallowed endpoint scheme: '' @ url_display endpoint))"

record McpDoctorReport =
  server_name :: string
  report_transport :: McpTransport
  negotiated_protocol :: "string option"
  checks :: "DiagnosticCheck list"
  tool_count :: "nat option"
  resource_count :: "nat option"
  prompt_count :: "nat option"

definition overall_status :: "McpDoctorReport \<Rightarrow> DiagnosticStatus" where
  "overall_status r =
     (if list_ex (\<lambda>check. check_status check = St_Fail) (checks r) then St_Fail
      else if list_ex (\<lambda>check. check_status check = St_Warn) (checks r) then St_Warn
      else St_Pass)"

definition is_fail :: "McpDoctorReport \<Rightarrow> bool" where
  "is_fail r \<longleftrightarrow> overall_status r = St_Fail"

subsection \<open>Tool schemas\<close>

definition MAX_SCHEMA_BYTES :: nat where "MAX_SCHEMA_BYTES = 256 * 1024"
definition MAX_SCHEMA_DEPTH :: nat where "MAX_SCHEMA_DEPTH = 64"

datatype RefCheck = Ref_Ok | Ref_Remote string | Ref_Dynamic string | Ref_DepthExceeded nat

text \<open>What the walk says of one entry of an object before it recurses into it.\<close>

definition check_dollar_ref :: "string \<Rightarrow> json \<Rightarrow> RefCheck" where
  "check_dollar_ref key val =
     (case as_str val of
        Some s \<Rightarrow>
          if key \<noteq> ''$ref'' then Ref_Ok
          else if starts_with s ''http://'' \<or> starts_with s ''https://'' then Ref_Remote s
          else if \<not> starts_with s ''#'' \<and> \<not> starts_with s ''/'' \<and> str_contains s ''://''
          then Ref_Remote s
          else if s = ''#'' then Ref_Dynamic s
          else Ref_Ok
      | None \<Rightarrow> Ref_Ok)"

fun walk_for_dollar_ref :: "json \<Rightarrow> nat \<Rightarrow> RefCheck"
  and walk_object :: "(string \<times> json) list \<Rightarrow> nat \<Rightarrow> RefCheck"
  and walk_array :: "json list \<Rightarrow> nat \<Rightarrow> RefCheck" where
  "walk_for_dollar_ref v depth =
     (if depth > MAX_SCHEMA_DEPTH then Ref_DepthExceeded depth
      else case v of
        JObject m \<Rightarrow> walk_object m depth
      | JArray vs \<Rightarrow> walk_array vs depth
      | _ \<Rightarrow> Ref_Ok)"
| "walk_object [] depth = Ref_Ok"
| "walk_object ((key, val) # m) depth =
     (if check_dollar_ref key val \<noteq> Ref_Ok then check_dollar_ref key val
      else
        let result = walk_for_dollar_ref val (Suc depth)
        in if result \<noteq> Ref_Ok then result else walk_object m depth)"
| "walk_array [] depth = Ref_Ok"
| "walk_array (item # items) depth =
     (let result = walk_for_dollar_ref item (Suc depth)
      in if result \<noteq> Ref_Ok then result else walk_array items depth)"

declare walk_for_dollar_ref.simps [simp del]

definition validate_tool_schema :: "(json \<Rightarrow> string option) \<Rightarrow> string \<Rightarrow> json \<Rightarrow> DiagnosticCheck" where
  "validate_tool_schema to_vec tool_name val =
     (let serialized = (case to_vec val of None \<Rightarrow> [] | Some bytes \<Rightarrow> bytes)
      in if length serialized > MAX_SCHEMA_BYTES
         then diagnostic ''tool_schema'' (''Schema size for '' @ tool_name) St_Fail
                (''tool schema exceeds '' @ decimal MAX_SCHEMA_BYTES @ '' bytes (''
                 @ decimal (length serialized) @ '' bytes)'')
         else case walk_for_dollar_ref val 0 of
           Ref_Remote s \<Rightarrow>
             diagnostic ''tool_schema'' (''Remote $ref in '' @ tool_name) St_Fail
               (''remote $ref disallowed: '' @ s)
         | Ref_Dynamic s \<Rightarrow>
             diagnostic ''tool_schema''
               (''Dynamic #'' @ [CHR 0xE2, CHR 0x80, CHR 0x91] @ ''only $ref in '' @ tool_name)
               St_Warn (''$ref resolves outside the schema: '' @ s)
         | Ref_DepthExceeded depth \<Rightarrow>
             diagnostic ''tool_schema_depth'' (''Max depth exceeded in '' @ tool_name) St_Fail
               (''schema nesting depth '' @ decimal depth @ '' exceeds maximum ''
                @ decimal MAX_SCHEMA_DEPTH)
         | Ref_Ok \<Rightarrow>
             if (case Option.bind (as_object val) (\<lambda>obj. map_of obj ''outputSchema'') of
                   None \<Rightarrow> True | Some v \<Rightarrow> v = JNull)
             then diagnostic ''tool_schema'' (''Missing outputSchema for '' @ tool_name) St_Warn
                    (''tool definition is missing `outputSchema` ''
                     @ ''(recommended but not required)'')
             else diagnostic ''tool_schema'' (''Schema valid for '' @ tool_name) St_Pass
                    ''no issues found'')"

subsection \<open>Audience binding\<close>

fun is_public_host :: "url_host \<Rightarrow> bool" where
  "is_public_host (Host_Ipv4 ip) = is_public_destination (V4 ip)"
| "is_public_host (Host_Ipv6 ip) = is_public_destination (V6 ip)"
| "is_public_host (Host_Domain _) = True"

definition validate_audience_binding :: "string \<Rightarrow> url \<Rightarrow> string list \<Rightarrow> DiagnosticCheck" where
  "validate_audience_binding tool_name target allowed_audiences =
     (let check = diagnostic (''mcp.audience.'' @ tool_name) ''audience binding''
      in case url_host target of
           None \<Rightarrow> check St_Fail ''target has no host''
         | Some host \<Rightarrow>
             if \<not> is_public_host host
             then check St_Fail ''target is a private/metadata destination''
             else
               let host_str = (case url_host_str target of None \<Rightarrow> [] | Some s \<Rightarrow> s)
               in if host_str \<notin> set allowed_audiences
                  then check St_Fail ''target host not in allowed audiences''
                  else check St_Pass ''target bound to an allowed audience'')"

subsection \<open>What a passing schema contains\<close>

text \<open>All strings under a \<open>$ref\<close> key of a value, and the depth of its deepest node.\<close>

definition entry_ref :: "string \<Rightarrow> json \<Rightarrow> string list" where
  "entry_ref key val = (case as_str val of Some s \<Rightarrow> if key = ''$ref'' then [s] else [] | None \<Rightarrow> [])"

fun json_refs :: "json \<Rightarrow> string list" where
  "json_refs (JObject m) = concat (map (\<lambda>e. entry_ref (fst e) (snd e) @ json_refs (snd e)) m)"
| "json_refs (JArray vs) = concat (map json_refs vs)"
| "json_refs _ = []"

fun json_depth :: "json \<Rightarrow> nat" where
  "json_depth (JObject m) = foldr max (map (\<lambda>e. Suc (json_depth (snd e))) m) 0"
| "json_depth (JArray vs) = foldr max (map (\<lambda>v. Suc (json_depth v)) vs) 0"
| "json_depth _ = 0"

definition local_ref :: "string \<Rightarrow> bool" where
  "local_ref s \<longleftrightarrow> s \<noteq> ''#'' \<and> \<not> starts_with s ''http://'' \<and> \<not> starts_with s ''https://''
     \<and> (starts_with s ''#'' \<or> starts_with s ''/'' \<or> \<not> str_contains s ''://'')"

lemma check_dollar_ref_Ok:
  "check_dollar_ref key val = Ref_Ok \<longleftrightarrow> (\<forall>s \<in> set (entry_ref key val). local_ref s)"
  by (auto simp: check_dollar_ref_def entry_ref_def local_ref_def split: option.split)

lemma foldr_max_le: "d + foldr max xs 0 \<le> k \<longleftrightarrow> d \<le> k \<and> (\<forall>x \<in> set xs. d + x \<le> k)" for d :: nat
  by (induction xs) (auto simp: max_def)

lemma walk_Ok_iff:
  "walk_for_dollar_ref v d = Ref_Ok \<longleftrightarrow>
     d + json_depth v \<le> MAX_SCHEMA_DEPTH \<and> (\<forall>s \<in> set (json_refs v). local_ref s)"
  "walk_object m d = Ref_Ok \<longleftrightarrow>
     (\<forall>e \<in> set m. Suc (d + json_depth (snd e)) \<le> MAX_SCHEMA_DEPTH
        \<and> (\<forall>s \<in> set (entry_ref (fst e) (snd e) @ json_refs (snd e)). local_ref s))"
  "walk_array vs d = Ref_Ok \<longleftrightarrow>
     (\<forall>v \<in> set vs. Suc (d + json_depth v) \<le> MAX_SCHEMA_DEPTH
        \<and> (\<forall>s \<in> set (json_refs v). local_ref s))"
proof (induction v d and m d and vs d rule: walk_for_dollar_ref_walk_object_walk_array.induct)
  case (1 v depth)
  show ?case
  proof (cases v)
    case (JArray vs)
    with 1 show ?thesis
      by (cases "depth > MAX_SCHEMA_DEPTH") (auto simp: walk_for_dollar_ref.simps foldr_max_le)
  next
    case (JObject m)
    with 1 show ?thesis
      by (cases "depth > MAX_SCHEMA_DEPTH") (fastforce simp: walk_for_dollar_ref.simps foldr_max_le)+
  qed (auto simp: walk_for_dollar_ref.simps)
next
  case (3 key val m depth)
  then show ?case
    by (cases "check_dollar_ref key val = Ref_Ok"; cases "walk_for_dollar_ref val (Suc depth) = Ref_Ok")
       (auto simp: check_dollar_ref_Ok)
next
  case (5 item items depth)
  then show ?case by (cases "walk_for_dollar_ref item (Suc depth) = Ref_Ok") auto
qed simp_all

text \<open>
  Property: a tool schema passes exactly when it serializes within 256 KiB, nests at most
  64 levels, every reference at any depth is local and not the bare fragment, and it declares a
  non-null output schema.
\<close>

theorem tool_schema_pass_iff:
  "check_status (validate_tool_schema to_vec tool v) = St_Pass \<longleftrightarrow>
     length (case to_vec v of None \<Rightarrow> [] | Some bytes \<Rightarrow> bytes) \<le> 256 * 1024
     \<and> json_depth v \<le> 64
     \<and> list_all local_ref (json_refs v)
     \<and> (\<exists>out. json_get v ''outputSchema'' = Some out \<and> out \<noteq> JNull)"
proof -
  have walk: "walk_for_dollar_ref v 0 = Ref_Ok \<longleftrightarrow> json_depth v \<le> 64 \<and> list_all local_ref (json_refs v)"
    by (simp add: walk_Ok_iff(1) MAX_SCHEMA_DEPTH_def list_all_iff)
  have out: "(case Option.bind (as_object v) (\<lambda>obj. map_of obj ''outputSchema'') of
        None \<Rightarrow> True | Some w \<Rightarrow> w = JNull)
      \<longleftrightarrow> \<not> (\<exists>out. json_get v ''outputSchema'' = Some out \<and> out \<noteq> JNull)"
    by (cases v) (auto split: option.split)
  show ?thesis
    unfolding validate_tool_schema_def Let_def diagnostic_def out MAX_SCHEMA_BYTES_def
    using walk by (cases "walk_for_dollar_ref v 0") auto
qed

text \<open>
  The walk stops at its first issue.  A bare fragment, which only warns, hides a remote
  reference that comes after it: the check then does not fail.
\<close>

definition masked_schema :: json where
  "masked_schema =
     JObject [(''$ref'', JString ''#''), (''x'', JObject [(''$ref'', JString ''http://remote.example/'')])]"

lemma remote_ref_masked:
  "\<not> local_ref ''http://remote.example/'' \<and> ''http://remote.example/'' \<in> set (json_refs masked_schema)
   \<and> check_status (validate_tool_schema (\<lambda>_. Some []) ''t'' masked_schema) = St_Warn"
  by (simp add: masked_schema_def validate_tool_schema_def walk_for_dollar_ref.simps check_dollar_ref_def
      diagnostic_def entry_ref_def local_ref_def starts_with_def MAX_SCHEMA_DEPTH_def MAX_SCHEMA_BYTES_def)

text \<open>A URN is not taken for a remote reference: only a separator of an authority is looked for.\<close>

lemma urn_is_local: "local_ref ''urn:foo:bar''"
  by (simp add: local_ref_def starts_with_def)

text \<open>Version selection depends only on which versions the server lists.\<close>

lemma select_protocol_version_set:
  "set xs = set ys \<Longrightarrow> select_protocol_version xs = select_protocol_version ys"
proof -
  assume eq: "set xs = set ys"
  then have "(\<lambda>era. list_ex (\<lambda>version. version = wire_version era) xs)
      = (\<lambda>era. list_ex (\<lambda>version. version = wire_version era) ys)"
    by (auto simp: list_ex_iff fun_eq_iff)
  moreover have "xs = [] \<longleftrightarrow> ys = []" using eq by (metis set_empty)
  ultimately show ?thesis by (simp add: select_protocol_version_def)
qed

lemma wire_version_inject: "wire_version a = wire_version b \<Longrightarrow> a = b"
  by (cases a; cases b) (simp_all add: CURRENT_PROTOCOL_VERSION_def)

lemma from_wire_version_Some:
  "from_wire_version v = Some era \<longleftrightarrow> era \<in> set SUPPORTED_PROTOCOL_ERAS \<and> v = wire_version era"
  by (auto simp: from_wire_version_def SUPPORTED_PROTOCOL_ERAS_def CURRENT_PROTOCOL_VERSION_def)

end
