(* ===== verification/Plugin.thy ===== *)
theory Plugin
  imports Mcp_Core
begin

section \<open>Plugin manifests and sources (\<open>plugin.rs\<close>)\<close>

text \<open>
  The manifest, marketplace and source records of \<open>crates/gobrowse-core/src/plugin.rs\<close>, the
  validation of manifests, the choice of their version and the list of permissions.  The traits
  \<open>PluginMarketplace\<close> and \<open>PluginSource\<close> have no code of their own.  A \<open>Url\<close> is the record
  of \<open>Mcp_Core\<close>, a time its nanoseconds since the epoch, a path its text.
\<close>

definition PLUGIN_MANIFEST_VERSION :: u32 where "PLUGIN_MANIFEST_VERSION = 1"
definition DEFAULT_SELF_TEST_TIMEOUT_SECONDS :: u32 where
  "DEFAULT_SELF_TEST_TIMEOUT_SECONDS = 30"

datatype PluginComponentType =
    Comp_Skill | Comp_McpServer | Comp_SourceBook | Comp_Executable | Comp_Asset | Comp_Schema

record PluginPublisher =
  publisher_name :: string
  publisher_url :: "url option"
  publisher_email :: "string option"

record PluginResourceLimits =
  pl_cpu_millis :: "u32 option"
  pl_memory_bytes :: "u64 option"
  pl_writable_storage_bytes :: "u64 option"
  pl_pids :: "u32 option"
  pl_execution_seconds :: "u64 option"

record PluginSandbox =
  sandbox_image :: "string option"
  sandbox_entrypoint :: "string list option"
  sandbox_network :: "NetworkPolicy option"
  sandbox_limits :: "PluginResourceLimits option"

record PluginPermissions =
  filesystem_read :: "string list"
  filesystem_write :: "string list"
  network_scopes :: "string list"
  secrets :: "string list"
  subprocess :: bool
  admin :: bool

record PluginComponent =
  comp_type :: PluginComponentType
  comp_name :: string
  comp_ref :: string
  comp_description :: "string option"
  comp_metadata :: "json option"

record PluginSelfTest =
  test_command :: "string list"
  test_expected_exit :: "int option"
  test_timeout_seconds :: u32

definition default_self_test_timeout_seconds :: u32 where
  "default_self_test_timeout_seconds = DEFAULT_SELF_TEST_TIMEOUT_SECONDS"

record PluginManifestV1 =
  manifest_version :: u32
  manifest_name :: string
  plugin_version :: string
  manifest_description :: string
  manifest_publisher :: "PluginPublisher option"
  manifest_license :: "string option"
  homepage :: "url option"
  repository :: "url option"
  manifest_sandbox :: "PluginSandbox option"
  permissions :: PluginPermissions
  components :: "PluginComponent list"
  self_test :: "PluginSelfTest option"

datatype PluginValidationError =
    UnsupportedManifestVersion u32
  | MissingName
  | MissingVersion
  | InvalidVersionFormat string
  | MissingPublisher
  | MissingPublisherName
  | EmptyComponents
  | EmptyComponentName
  | EmptyComponentRef
  | DuplicatePermissionScope string string

subsection \<open>Validation\<close>

text \<open>\<open>iter().find(|scope| !seen.insert(scope))\<close>, with the set of scopes seen.\<close>

fun find_duplicate :: "string set \<Rightarrow> string list \<Rightarrow> string option" where
  "find_duplicate seen [] = None"
| "find_duplicate seen (s # ss) =
     (if s \<in> seen then Some s else find_duplicate (insert s seen) ss)"

definition first_duplicate :: "string list \<Rightarrow> string option" where
  "first_duplicate scopes = find_duplicate {} scopes"

definition scope_lists :: "PluginPermissions \<Rightarrow> (string \<times> string list) list" where
  "scope_lists p =
     [(''filesystem_read'', filesystem_read p), (''filesystem_write'', filesystem_write p),
      (''network'', network_scopes p), (''secrets'', secrets p)]"

definition validate_no_duplicate_scopes :: "PluginPermissions \<Rightarrow> PluginValidationError + unit" where
  "validate_no_duplicate_scopes p =
     try_for_each (\<lambda>(domain, scopes).
       case first_duplicate scopes of
         Some scope \<Rightarrow> Inl (DuplicatePermissionScope domain scope)
       | None \<Rightarrow> Inr ()) (scope_lists p)"

definition numeric :: "string \<Rightarrow> bool" where
  "numeric part = list_all (\<lambda>c. is_ascii_digit (byte c)) part"

definition is_valid_manifest_version :: "string \<Rightarrow> bool" where
  "is_valid_manifest_version version =
     (let (core, suffix) =
        (case split_once CHR ''-'' version of
           Some (core, suffix) \<Rightarrow> (core, Some suffix)
         | None \<Rightarrow> (version, None))
      in case split_on CHR ''.'' core of
           [major, minor, patch] \<Rightarrow>
             major \<noteq> [] \<and> minor \<noteq> [] \<and> patch \<noteq> []
             \<and> numeric major \<and> numeric minor \<and> numeric patch
             \<and> (case suffix of
                  Some suffix \<Rightarrow> suffix \<noteq> []
                    \<and> list_all (\<lambda>c. is_ascii_alphanumeric (byte c) \<or> c = CHR ''.'') suffix
                | None \<Rightarrow> True)
         | _ \<Rightarrow> False)"

definition validate_component :: "PluginComponent \<Rightarrow> PluginValidationError + unit" where
  "validate_component c =
     (if comp_name c = [] then Inl EmptyComponentName
      else if comp_ref c = [] then Inl EmptyComponentRef
      else Inr ())"

definition validate_manifest :: "PluginManifestV1 \<Rightarrow> PluginValidationError + unit" where
  "validate_manifest m =
     (if manifest_version m \<noteq> PLUGIN_MANIFEST_VERSION
      then Inl (UnsupportedManifestVersion (manifest_version m))
      else if manifest_name m = [] then Inl MissingName
      else if plugin_version m = [] then Inl MissingVersion
      else if \<not> is_valid_manifest_version (plugin_version m)
      then Inl (InvalidVersionFormat (plugin_version m))
      else case manifest_publisher m of
        None \<Rightarrow> Inl MissingPublisher
      | Some publisher \<Rightarrow>
          if publisher_name publisher = [] then Inl MissingPublisherName
          else if components m = [] then Inl EmptyComponents
          else
            and_then (try_for_each validate_component (components m)) (\<lambda>_.
              validate_no_duplicate_scopes (permissions m)))"

datatype PluginManifest = V1 PluginManifestV1

fun validate_plugin :: "PluginManifest \<Rightarrow> PluginValidationError + unit" where
  "validate_plugin (V1 m) = validate_manifest m"

fun as_v1 :: "PluginManifest \<Rightarrow> PluginManifestV1 option" where
  "as_v1 (V1 m) = Some m"

text \<open>
  \<open>Deserialize for PluginManifest\<close>, given \<open>from_value\<close> for version 1.  An error is one of
  \<open>serde\<close>'s own, an unsupported version or a missing version.
\<close>

datatype manifest_error = Manifest_Serde | Manifest_Unsupported u64 | Manifest_NoVersion

fun as_u64 :: "json \<Rightarrow> u64 option" where
  "as_u64 (JNumber (PosInt n)) = Some n"
| "as_u64 _ = None"

definition deserialize_manifest ::
  "(json \<Rightarrow> PluginManifestV1 option) \<Rightarrow> json \<Rightarrow> manifest_error + PluginManifest" where
  "deserialize_manifest de_v1 v =
     (case Option.bind (json_get v ''manifest_version'') as_u64 of
        Some version \<Rightarrow>
          if version = 1
          then (case de_v1 v of Some m \<Rightarrow> Inr (V1 m) | None \<Rightarrow> Inl Manifest_Serde)
          else Inl (Manifest_Unsupported version)
      | None \<Rightarrow> Inl Manifest_NoVersion)"

subsection \<open>Marketplaces and sources\<close>

record MarketplaceEntry =
  entry_id :: string
  entry_name :: string
  entry_description :: string
  entry_publisher :: string
  latest_version :: string
  download_count :: u64
  verified :: bool
  categories :: "string list"

record VersionInfo =
  version_string :: string
  published_at :: int
  info_digest :: string
  changelog :: "string option"

record ArtifactLocation =
  artifact_url :: url
  artifact_sha :: string
  size_bytes :: "u64 option"
  content_type :: string

datatype MarketplaceError =
    Market_NotFound | Market_Unavailable | Market_RateLimited "u64 option"
  | Market_InvalidResponse | Market_Timeout

record PluginIdentity =
  source_type :: string
  source_uri :: string
  commit_sha :: "string option"
  pinned_version :: "string option"

record ResolvedPluginSource =
  identity :: PluginIdentity
  resolved_revision :: string
  manifest_path :: string
  artifact_digest :: string

datatype PluginSourceError =
    Source_NotFound | Source_Unavailable | Source_RateLimited "u64 option"
  | Source_InvalidResponse | Source_Timeout | Source_ManifestInvalid string
  | Source_DigestMismatch | Source_Download string | Source_Io

subsection \<open>Permissions\<close>

record PluginPermission =
  domain :: string
  scope_value :: string

definition push_permission :: "PluginPermission list \<Rightarrow> PluginPermission \<Rightarrow> PluginPermission list" where
  "push_permission ps p = (if p \<in> set ps then ps else ps @ [p])"

definition push_scopes ::
  "PluginPermission list \<Rightarrow> string \<times> string list \<Rightarrow> PluginPermission list" where
  "push_scopes ps entry =
     (case entry of (d, scopes) \<Rightarrow>
        foldl (\<lambda>ps s. push_permission ps \<lparr>domain = d, scope_value = s\<rparr>) ps scopes)"

definition push_enabled ::
  "PluginPermission list \<Rightarrow> string \<times> bool \<Rightarrow> PluginPermission list" where
  "push_enabled ps entry =
     (case entry of (d, enabled) \<Rightarrow>
        if enabled then push_permission ps \<lparr>domain = d, scope_value = ''true''\<rparr> else ps)"

definition flatten_permissions :: "PluginManifestV1 \<Rightarrow> PluginPermission list" where
  "flatten_permissions m =
     foldl push_enabled (foldl push_scopes [] (scope_lists (permissions m)))
       [(''subprocess'', subprocess (permissions m)), (''admin'', admin (permissions m))]"

subsection \<open>Properties\<close>

definition digits :: "string \<Rightarrow> bool" where
  "digits s \<longleftrightarrow> s \<noteq> [] \<and> numeric s"

lemma numeric_no_sep: "numeric s \<Longrightarrow> CHR ''.'' \<notin> set s \<and> CHR ''-'' \<notin> set s"
  by (auto simp: numeric_def list_all_iff is_ascii_digit_def byte_def)

lemma split_on_dots:
  assumes "CHR ''.'' \<notin> set a" "CHR ''.'' \<notin> set b" "CHR ''.'' \<notin> set c"
  shows "split_on CHR ''.'' (a @ CHR ''.'' # b @ CHR ''.'' # c) = [a, b, c]"
  using assms by (simp add: split_on_append split_on_no_sep)

lemma split_on_three:
  assumes "split_on CHR ''.'' s = [a, b, c]"
  shows "s = a @ CHR ''.'' # b @ CHR ''.'' # c"
  using join_split_on [of "CHR ''.''" s] assms by simp

definition suffix_ok :: "string \<Rightarrow> bool" where
  "suffix_ok t \<longleftrightarrow>
     t \<noteq> [] \<and> list_all (\<lambda>c. is_ascii_alphanumeric (byte c) \<or> c = CHR ''.'') t"

text \<open>
  Property: the hand-written version check accepts exactly the language of the documented
  pattern: three dot-separated runs of digits, and optionally a dash and a run of letters,
  digits and dots.
\<close>

theorem manifest_version_pattern:
  "is_valid_manifest_version v \<longleftrightarrow>
     (\<exists>major minor patch suffix. v = major @ ''.'' @ minor @ ''.'' @ patch @ suffix
        \<and> digits major \<and> digits minor \<and> digits patch
        \<and> (suffix = [] \<or> (\<exists>t. suffix = CHR ''-'' # t \<and> suffix_ok t)))"
proof
  assume valid: "is_valid_manifest_version v"
  show "\<exists>major minor patch suffix. v = major @ ''.'' @ minor @ ''.'' @ patch @ suffix
      \<and> digits major \<and> digits minor \<and> digits patch
      \<and> (suffix = [] \<or> (\<exists>t. suffix = CHR ''-'' # t \<and> suffix_ok t))"
  proof (cases "split_once CHR ''-'' v")
    case None
    with valid obtain a b c where "split_on CHR ''.'' v = [a, b, c]" "digits a" "digits b" "digits c"
      by (auto simp: is_valid_manifest_version_def digits_def split: list.splits)
    with split_on_three [of v a b c] have "v = a @ ''.'' @ b @ ''.'' @ c @ []" by simp
    with \<open>digits a\<close> \<open>digits b\<close> \<open>digits c\<close> show ?thesis by blast
  next
    case (Some p)
    obtain core t where p: "p = (core, t)" by (cases p)
    with Some valid obtain a b c where abc: "split_on CHR ''.'' core = [a, b, c]"
        "digits a" "digits b" "digits c" "suffix_ok t"
      by (auto simp: is_valid_manifest_version_def digits_def suffix_ok_def split: list.splits)
    with split_on_three [of core a b c] Some p
    have "v = a @ ''.'' @ b @ ''.'' @ c @ (CHR ''-'' # t)" by (simp add: split_once_Some)
    with abc show ?thesis by blast
  qed
next
  assume "\<exists>major minor patch suffix. v = major @ ''.'' @ minor @ ''.'' @ patch @ suffix
      \<and> digits major \<and> digits minor \<and> digits patch
      \<and> (suffix = [] \<or> (\<exists>t. suffix = CHR ''-'' # t \<and> suffix_ok t))"
  then obtain a b c s where v: "v = (a @ CHR ''.'' # b @ CHR ''.'' # c) @ s"
    and ok: "digits a" "digits b" "digits c" "s = [] \<or> (\<exists>t. s = CHR ''-'' # t \<and> suffix_ok t)"
    by auto
  let ?core = "a @ CHR ''.'' # b @ CHR ''.'' # c"
  have sep: "split_on CHR ''.'' ?core = [a, b, c]" "CHR ''-'' \<notin> set ?core"
    using ok numeric_no_sep [of a] numeric_no_sep [of b] numeric_no_sep [of c]
    by (auto simp: digits_def intro: split_on_dots)
  from ok(4) show "is_valid_manifest_version v"
  proof
    assume "s = []"
    with v sep have "split_once CHR ''-'' v = None" "split_on CHR ''.'' v = [a, b, c]"
      by (simp_all add: split_once_None)
    with ok show ?thesis by (simp add: is_valid_manifest_version_def digits_def)
  next
    assume "\<exists>t. s = CHR ''-'' # t \<and> suffix_ok t"
    then obtain t where t: "s = CHR ''-'' # t" "suffix_ok t" by blast
    with v sep have "split_once CHR ''-'' v = Some (?core, t)" by (simp add: split_once_Some)
    with ok t sep show ?thesis
      by (simp add: is_valid_manifest_version_def digits_def suffix_ok_def)
  qed
qed


lemma find_duplicate_None:
  "find_duplicate seen ss = None \<longleftrightarrow> distinct ss \<and> set ss \<inter> seen = {}"
  by (induction ss arbitrary: seen) auto

lemma first_duplicate_None: "first_duplicate ss = None \<longleftrightarrow> distinct ss"
  by (simp add: first_duplicate_def find_duplicate_None)

lemma validate_no_duplicate_scopes_Inr [validator_iff]:
  "validate_no_duplicate_scopes p = Inr u \<longleftrightarrow>
     distinct (filesystem_read p) \<and> distinct (filesystem_write p)
     \<and> distinct (network_scopes p) \<and> distinct (secrets p)"
  by (auto simp: validate_no_duplicate_scopes_def scope_lists_def first_duplicate_None [symmetric]
      split: option.splits)

lemma validate_component_Inr [validator_iff]:
  "validate_component c = Inr u \<longleftrightarrow> comp_name c \<noteq> [] \<and> comp_ref c \<noteq> []"
  by (simp add: validate_component_def)

text \<open>
  Property: which manifests pass validation: version 1, a name, a version of the documented
  pattern, a named publisher, at least one component, all components with a name and a
  reference, and no scope twice in a domain.
\<close>

theorem validate_manifest_iff:
  "validate_manifest m = Inr () \<longleftrightarrow>
     manifest_version m = 1 \<and> manifest_name m \<noteq> []
     \<and> is_valid_manifest_version (plugin_version m)
     \<and> (\<exists>p. manifest_publisher m = Some p \<and> publisher_name p \<noteq> [])
     \<and> components m \<noteq> []
     \<and> list_all (\<lambda>c. comp_name c \<noteq> [] \<and> comp_ref c \<noteq> []) (components m)
     \<and> distinct (filesystem_read (permissions m)) \<and> distinct (filesystem_write (permissions m))
     \<and> distinct (network_scopes (permissions m)) \<and> distinct (secrets (permissions m))"
proof -
  have "\<not> is_valid_manifest_version []"
    by (simp add: is_valid_manifest_version_def split_once_def)
  then show ?thesis
    by (auto simp: validate_manifest_def PLUGIN_MANIFEST_VERSION_def list_all_iff validator_iff
        split: option.splits)
qed

text \<open>The permissions a manifest declares, in order, as a plain list.\<close>

definition declared_permissions :: "PluginManifestV1 \<Rightarrow> PluginPermission list" where
  "declared_permissions m =
     concat (map (\<lambda>(d, ss). map (\<lambda>s. \<lparr>domain = d, scope_value = s\<rparr>) ss) (scope_lists (permissions m)))
     @ map (\<lambda>(d, _). \<lparr>domain = d, scope_value = ''true''\<rparr>)
         (filter snd [(''subprocess'', subprocess (permissions m)), (''admin'', admin (permissions m))])"

lemma push_all_distinct: "distinct ps \<Longrightarrow> distinct (foldl push_permission ps xs)"
  by (induction xs arbitrary: ps) (auto simp: push_permission_def)

lemma push_all_new: "distinct (ps @ xs) \<Longrightarrow> foldl push_permission ps xs = ps @ xs"
  by (induction xs arbitrary: ps) (auto simp: push_permission_def)

lemma push_all_set: "set (foldl push_permission ps xs) = set ps \<union> set xs"
  by (induction xs arbitrary: ps) (auto simp: push_permission_def)

lemma push_scopes_map:
  "push_scopes ps (d, ss) = foldl push_permission ps (map (\<lambda>s. \<lparr>domain = d, scope_value = s\<rparr>) ss)"
  by (simp add: push_scopes_def foldl_map)

lemma push_scopes_all:
  "foldl push_scopes ps es =
     foldl push_permission ps
       (concat (map (\<lambda>(d, ss). map (\<lambda>s. \<lparr>domain = d, scope_value = s\<rparr>) ss) es))"
proof (induction es arbitrary: ps)
  case (Cons e es)
  obtain d ss where "e = (d, ss)" by (cases e)
  with Cons show ?case by (simp add: push_scopes_map)
qed simp

lemma flatten_is_push_all: "flatten_permissions m = foldl push_permission [] (declared_permissions m)"
  by (simp add: flatten_permissions_def declared_permissions_def push_scopes_all push_enabled_def)

lemma push_all_remdups: "foldl push_permission [] xs = rev (remdups (rev xs))"
  by (induction xs rule: rev_induct) (auto simp: push_permission_def push_all_set)

text \<open>
  Property: the flattened permissions are the declared ones, in order, each at its first
  occurrence only.
\<close>

theorem flattened_permissions:
  "flatten_permissions m = rev (remdups (rev (declared_permissions m)))"
  by (simp add: flatten_is_push_all push_all_remdups)

lemma declared_distinct:
  assumes "validate_no_duplicate_scopes (permissions m) = Inr ()"
  shows "distinct (declared_permissions m)"
proof -
  have inj: "inj_on (\<lambda>s. \<lparr>domain = d, scope_value = s\<rparr>) A" for d A by (rule inj_onI) simp
  show ?thesis
    using assms by (auto simp: declared_permissions_def scope_lists_def validator_iff
        distinct_map inj)
qed

text \<open>
  Property: flattening a validated manifest loses nothing: the permissions are exactly the
  declared ones.
\<close>

theorem validated_permissions_kept:
  assumes "validate_plugin p = Inr ()" and "as_v1 p = Some m"
  shows "flatten_permissions m = declared_permissions m"
proof -
  from assms have "validate_no_duplicate_scopes (permissions m) = Inr ()"
    by (cases p) (auto simp: validate_manifest_def split: option.splits if_splits)
  then show ?thesis
    using push_all_new [of "[]"] declared_distinct by (simp add: flatten_is_push_all)
qed

definition sample_manifest :: PluginManifestV1 where
  "sample_manifest = \<lparr>manifest_version = 1, manifest_name = ''p'', plugin_version = ''1.0.2-rc.1'',
     manifest_description = [], manifest_publisher = Some \<lparr>publisher_name = ''q'',
     publisher_url = None, publisher_email = None\<rparr>, manifest_license = None, homepage = None,
     repository = None, manifest_sandbox = None,
     permissions = \<lparr>filesystem_read = [''a'', ''b''], filesystem_write = [''a''],
       network_scopes = [], secrets = [], subprocess = True, admin = False\<rparr>,
     components = [\<lparr>comp_type = Comp_Skill, comp_name = ''s'', comp_ref = ''r'',
       comp_description = None, comp_metadata = None\<rparr>], self_test = None\<rparr>"

theorem validated_permissions_kept_witness:
  "flatten_permissions sample_manifest = declared_permissions sample_manifest"
proof (rule validated_permissions_kept)
  have "is_valid_manifest_version ''1.0.2-rc.1''" by code_simp
  then show "validate_plugin (V1 sample_manifest) = Inr ()"
    by (simp add: validate_manifest_iff sample_manifest_def)
qed simp

end
