(* ===== verification/Journal.thy ===== *)
theory Journal
  imports Sandbox State_Machine
begin

section \<open>The terminal journal (\<open>journal.rs\<close>)\<close>

text \<open>
  The SQLite journal of \<open>crates/gobrowse-sandboxd/src/journal.rs\<close>: four tables as lists of
  rows in insertion order, and one definition per operation.  A uuid column holds the text of
  an id, and the model keeps the id; the time stamps, which nothing reads back, are left out.
  A statement that violates a constraint of the schema fails with \<open>Je_Sqlite\<close>, and the
  transaction it is in leaves the journal unchanged.  Failures of the disk and a poisoned lock
  are not modelled.  64-bit values are integers or natural numbers; the conversions between
  them are the checked ones of the source.
\<close>

datatype JournalError =
    Je_Sqlite | Je_Poisoned | Je_Corrupt | Je_Conflict | Je_NotFound | Je_OutcomeUnknown

record TerminalRecord =
  rec_terminal_id :: uuid
  rec_workspace_id :: uuid
  rec_state :: TerminalState
  rec_cols :: nat
  rec_rows :: nat
  rec_exit_code :: "int option"
  rec_reason :: "string option"
  output_start_cursor :: nat
  output_end_cursor :: nat
  acked_cursor :: nat
  rec_output_complete :: bool

record OutputRead =
  read_start_cursor :: nat
  read_next_cursor :: nat
  read_bytes :: string
  read_record :: TerminalRecord

datatype StartDecision = Start_Execute | Start_Existing
datatype InputDecision = Input_Execute | Input_Applied nat
datatype MutationDecision = Mutation_Execute | Mutation_Cached ResponseEnvelope

subsection \<open>The tables\<close>

type_synonym fingerprint = string

record TerminalRow =
  row_workspace :: uuid
  row_fingerprint :: fingerprint
  row_state :: string
  row_cols :: int
  row_rows :: int
  row_exit_code :: "int option"
  row_reason :: "string option"
  row_output_start :: int
  row_output_end :: int
  row_ack_cursor :: int
  row_output_bytes :: int
  row_output_complete :: bool

record OutputChunk =
  chunk_terminal :: uuid
  chunk_start :: int
  chunk_end :: int
  chunk_data :: string

record InputRow =
  in_fingerprint :: fingerprint
  in_status :: string
  in_byte_count :: "int option"

record MutationRow =
  mut_terminal :: uuid
  mut_kind :: string
  mut_fingerprint :: fingerprint
  mut_status :: string
  mut_response :: "string option"

record journal =
  terminals :: "(uuid \<times> TerminalRow) list"
  chunks :: "OutputChunk list"
  inputs :: "((uuid \<times> uuid) \<times> InputRow) list"
  mutations :: "(uuid \<times> MutationRow) list"

text \<open>The \<open>CHECK\<close> constraints of the tables.\<close>

definition check_terminal :: "TerminalRow \<Rightarrow> bool" where
  "check_terminal r \<longleftrightarrow>
     1 \<le> row_cols r \<and> row_cols r \<le> 65535 \<and> 1 \<le> row_rows r \<and> row_rows r \<le> 65535
     \<and> 0 \<le> row_output_start r \<and> row_output_start r \<le> row_output_end r
     \<and> 0 \<le> row_ack_cursor r \<and> 0 \<le> row_output_bytes r"

definition check_chunk :: "OutputChunk \<Rightarrow> bool" where
  "check_chunk c \<longleftrightarrow>
     0 \<le> chunk_start c \<and> chunk_start c < chunk_end c \<and> length (chunk_data c) \<le> 32768"

text \<open>\<open>UPDATE \<dots> WHERE key = k\<close> on a table whose key is unique.\<close>

definition update_key :: "'k \<Rightarrow> ('r \<Rightarrow> 'r) \<Rightarrow> ('k \<times> 'r) list \<Rightarrow> ('k \<times> 'r) list" where
  "update_key k f tbl = map (\<lambda>(i, r). if i = k then (i, f r) else (i, r)) tbl"

text \<open>An update of one terminal: the number of rows changed and the journal after it.\<close>

definition update_terminal ::
  "journal \<Rightarrow> uuid \<Rightarrow> (TerminalRow \<Rightarrow> TerminalRow) \<Rightarrow> JournalError + (nat \<times> journal)" where
  "update_terminal j tid f =
     (case map_of (terminals j) tid of
        None \<Rightarrow> Inr (0, j)
      | Some r \<Rightarrow>
          if check_terminal (f r) then Inr (1, j\<lparr>terminals := update_key tid f (terminals j)\<rparr>)
          else Inl Je_Sqlite)"

definition insert_chunk :: "journal \<Rightarrow> OutputChunk \<Rightarrow> JournalError + journal" where
  "insert_chunk j c =
     (if check_chunk c \<and> map_of (terminals j) (chunk_terminal c) \<noteq> None
         \<and> \<not> list_ex (\<lambda>d. chunk_terminal d = chunk_terminal c \<and> chunk_start d = chunk_start c)
               (chunks j)
      then Inr (j\<lparr>chunks := chunks j @ [c]\<rparr>) else Inl Je_Sqlite)"

subsection \<open>State names and conversions\<close>

fun state_name :: "TerminalState \<Rightarrow> string" where
  "state_name TS_Running = ''RUNNING''"
| "state_name TS_Terminating = ''TERMINATING''"
| "state_name TS_Unrecoverable = ''UNRECOVERABLE''"
| "state_name TS_Lost = ''LOST''"
| "state_name TS_Exited = ''EXITED''"
| "state_name TS_Terminated = ''TERMINATED''"

definition parse_state :: "string \<Rightarrow> JournalError + TerminalState" where
  "parse_state state =
     (if state = ''STARTING'' \<or> state = ''RUNNING'' then Inr TS_Running
      else if state = ''TERMINATING'' then Inr TS_Terminating
      else if state = ''UNRECOVERABLE'' then Inr TS_Unrecoverable
      else if state = ''LOST'' then Inr TS_Lost
      else if state = ''EXITED'' then Inr TS_Exited
      else if state = ''TERMINATED'' then Inr TS_Terminated
      else Inl Je_Corrupt)"

definition to_i64 :: "nat \<Rightarrow> JournalError + int" where
  "to_i64 v = (if v \<le> i64_max then Inr (int v) else Inl Je_Corrupt)"

definition to_u64 :: "int \<Rightarrow> JournalError + nat" where
  "to_u64 v = (if 0 \<le> v then Inr (nat v) else Inl Je_Corrupt)"

definition to_u16 :: "int \<Rightarrow> JournalError + nat" where
  "to_u16 v = (if 0 \<le> v \<and> v \<le> 65535 then Inr (nat v) else Inl Je_Corrupt)"

definition query_record :: "journal \<Rightarrow> uuid \<Rightarrow> JournalError + TerminalRecord" where
  "query_record j tid =
     (case map_of (terminals j) tid of
        None \<Rightarrow> Inl Je_NotFound
      | Some r \<Rightarrow>
          and_then (parse_state (row_state r)) (\<lambda>st.
          and_then (to_u16 (row_cols r)) (\<lambda>cols.
          and_then (to_u16 (row_rows r)) (\<lambda>rows.
          and_then (to_u64 (row_output_start r)) (\<lambda>start.
          and_then (to_u64 (row_output_end r)) (\<lambda>end.
          and_then (to_u64 (row_ack_cursor r)) (\<lambda>ack.
            Inr \<lparr>rec_terminal_id = tid, rec_workspace_id = row_workspace r, rec_state = st,
                 rec_cols = cols, rec_rows = rows, rec_exit_code = row_exit_code r,
                 rec_reason = row_reason r, output_start_cursor = start,
                 output_end_cursor = end, acked_cursor = ack,
                 rec_output_complete = row_output_complete r\<rparr>)))))))"

definition inspect :: "journal \<Rightarrow> uuid \<Rightarrow> JournalError + TerminalRecord" where
  "inspect j tid = query_record j tid"

subsection \<open>Terminals\<close>

definition begin_start ::
  "journal \<Rightarrow> uuid \<Rightarrow> uuid \<Rightarrow> fingerprint \<Rightarrow> u16 \<Rightarrow> u16
     \<Rightarrow> (JournalError + StartDecision) \<times> journal" where
  "begin_start j tid ws fp cols rows =
     (case map_of (terminals j) tid of
        Some r \<Rightarrow>
          if row_workspace r \<noteq> ws \<or> row_fingerprint r \<noteq> fp then (Inl Je_Conflict, j)
          else (Inr Start_Existing, j)
      | None \<Rightarrow>
          let r = \<lparr>row_workspace = ws, row_fingerprint = fp, row_state = ''STARTING'',
                   row_cols = int (unat cols), row_rows = int (unat rows), row_exit_code = None,
                   row_reason = None, row_output_start = 0, row_output_end = 0,
                   row_ack_cursor = 0, row_output_bytes = 0, row_output_complete = True\<rparr>
          in if check_terminal r
             then (Inr Start_Execute, j\<lparr>terminals := terminals j @ [(tid, r)]\<rparr>)
             else (Inl Je_Sqlite, j))"

definition set_running :: "journal \<Rightarrow> uuid \<Rightarrow> (JournalError + unit) \<times> journal" where
  "set_running j tid =
     (case map_of (terminals j) tid of
        Some r \<Rightarrow>
          if row_state r = ''STARTING'' \<or> row_state r = ''RUNNING''
          then (Inr (), j\<lparr>terminals := update_key tid (\<lambda>r. r\<lparr>row_state := ''RUNNING''\<rparr>) (terminals j)\<rparr>)
          else (Inr (), j)
      | None \<Rightarrow> (Inl Je_NotFound, j))"

text \<open>An update that fails with \<open>NotFound\<close> when no row changed.\<close>

definition update_or_not_found ::
  "journal \<Rightarrow> uuid \<Rightarrow> (TerminalRow \<Rightarrow> TerminalRow) \<Rightarrow> (JournalError + unit) \<times> journal" where
  "update_or_not_found j tid f =
     (case update_terminal j tid f of
        Inl e \<Rightarrow> (Inl e, j)
      | Inr (changed, j') \<Rightarrow> if changed = 0 then (Inl Je_NotFound, j') else (Inr (), j'))"

definition update_state ::
  "journal \<Rightarrow> uuid \<Rightarrow> TerminalState \<Rightarrow> int option \<Rightarrow> string option \<Rightarrow> bool option
     \<Rightarrow> (JournalError + unit) \<times> journal" where
  "update_state j tid state exit_code reason output_complete =
     update_or_not_found j tid (\<lambda>r. r\<lparr>row_state := state_name state, row_exit_code := exit_code,
       row_reason := reason,
       row_output_complete :=
         (case output_complete of None \<Rightarrow> row_output_complete r | Some b \<Rightarrow> b)\<rparr>)"

definition set_state ::
  "journal \<Rightarrow> uuid \<Rightarrow> TerminalState \<Rightarrow> int option \<Rightarrow> string option \<Rightarrow> bool option
     \<Rightarrow> (JournalError + unit) \<times> journal" where
  "set_state j tid state exit_code reason output_complete =
     update_state j tid state exit_code reason output_complete"

definition set_size :: "journal \<Rightarrow> uuid \<Rightarrow> u16 \<Rightarrow> u16 \<Rightarrow> (JournalError + unit) \<times> journal" where
  "set_size j tid cols rows =
     update_or_not_found j tid
       (\<lambda>r. r\<lparr>row_cols := int (unat cols), row_rows := int (unat rows)\<rparr>)"

subsection \<open>Output\<close>

text \<open>\<open>slice::chunks(n)\<close>; the source calls it with a positive \<open>n\<close>.\<close>

function chunks_of :: "nat \<Rightarrow> 'a list \<Rightarrow> 'a list list" where
  "chunks_of n xs = (if xs = [] \<or> n = 0 then [] else take n xs # chunks_of n (drop n xs))"
  by auto
termination by (relation "measure (\<lambda>(n, xs). length xs)") auto

declare chunks_of.simps [simp del]

fun insert_chunks :: "journal \<Rightarrow> uuid \<Rightarrow> int \<Rightarrow> string list \<Rightarrow> JournalError + (int \<times> journal)" where
  "insert_chunks j tid cursor [] = Inr (cursor, j)"
| "insert_chunks j tid cursor (ch # chs) =
     (let end = cursor + int (length ch)
      in and_then (insert_chunk j \<lparr>chunk_terminal = tid, chunk_start = cursor, chunk_end = end,
                                   chunk_data = ch\<rparr>)
           (\<lambda>j'. insert_chunks j' tid end chs))"

definition append_output :: "journal \<Rightarrow> uuid \<Rightarrow> string \<Rightarrow> (JournalError + nat) \<times> journal" where
  "append_output j tid bytes =
     (case map_of (terminals j) tid of
        None \<Rightarrow> (Inl Je_Sqlite, j)
      | Some r \<Rightarrow>
          if \<not> row_output_complete r \<or> row_output_bytes r \<ge> int MAX_TERMINAL_OUTPUT_BYTES
          then (case update_terminal j tid (\<lambda>r. r\<lparr>row_output_complete := False\<rparr>) of
                  Inl e \<Rightarrow> (Inl e, j)
                | Inr (_, j') \<Rightarrow> (Inr 0, j'))
          else
            let available = nat (int MAX_TERMINAL_OUTPUT_BYTES - row_output_bytes r);
                accepted = min (length bytes) available;
                overflowed = (accepted \<noteq> length bytes)
            in case and_then
                      (insert_chunks j tid (row_output_end r)
                        (chunks_of MAX_TERMINAL_OUTPUT_CHUNK_BYTES (take accepted bytes)))
                      (\<lambda>(cursor, j').
                        update_terminal j' tid (\<lambda>r. r\<lparr>row_output_end := cursor,
                          row_output_bytes := row_output_bytes r + int accepted,
                          row_output_complete := (if overflowed then False else row_output_complete r)\<rparr>))
               of Inl e \<Rightarrow> (Inl e, j)
                | Inr (_, j') \<Rightarrow> (Inr accepted, j'))"

text \<open>The rows of the query in \<open>read_output\<close>, and its loop.\<close>

definition chunk_rows :: "journal \<Rightarrow> uuid \<Rightarrow> int \<Rightarrow> OutputChunk list" where
  "chunk_rows j tid after =
     sort_key chunk_start (filter (\<lambda>c. chunk_terminal c = tid \<and> chunk_end c > after) (chunks j))"

fun read_loop :: "nat \<Rightarrow> string \<Rightarrow> nat \<Rightarrow> OutputChunk list \<Rightarrow> JournalError + (string \<times> nat)" where
  "read_loop max_bytes bytes nxt [] = Inr (bytes, nxt)"
| "read_loop max_bytes bytes nxt (c # cs) =
     (if length bytes \<ge> max_bytes then Inr (bytes, nxt)
      else
        and_then (to_u64 (chunk_start c)) (\<lambda>cstart.
        and_then (to_u64 (chunk_end c)) (\<lambda>cend.
          let data = chunk_data c
          in if cend - cstart \<noteq> length data \<or> length data > MAX_TERMINAL_OUTPUT_CHUNK_BYTES
             then Inl Je_Corrupt
             else
               let offset = nxt - cstart
               in if offset \<ge> length data then read_loop max_bytes bytes nxt cs
                  else
                    let count = min (max_bytes - length bytes) (length data - offset)
                    in if nxt + count < 2 ^ 64
                       then read_loop max_bytes (bytes @ take count (drop offset data)) (nxt + count) cs
                       else Inl Je_Corrupt)))"

definition read_output :: "journal \<Rightarrow> uuid \<Rightarrow> nat \<Rightarrow> nat \<Rightarrow> JournalError + OutputRead" where
  "read_output j tid after_cursor max_bytes =
     and_then (query_record j tid) (\<lambda>record.
       if after_cursor > output_end_cursor record then Inl Je_Conflict
       else
         let start = max after_cursor (output_start_cursor record)
         in and_then (to_i64 start) (\<lambda>istart.
            and_then (read_loop max_bytes [] start (chunk_rows j tid istart)) (\<lambda>(bytes, nxt).
              Inr \<lparr>read_start_cursor = start, read_next_cursor = nxt, read_bytes = bytes,
                   read_record = record\<rparr>)))"

definition ack_output :: "journal \<Rightarrow> uuid \<Rightarrow> nat \<Rightarrow> (JournalError + nat) \<times> journal" where
  "ack_output j tid cursor =
     (case map_of (terminals j) tid of
        None \<Rightarrow> (Inl Je_Sqlite, j)
      | Some r \<Rightarrow>
          (case to_i64 cursor of
             Inl e \<Rightarrow> (Inl e, j)
           | Inr icursor \<Rightarrow>
               if icursor > row_output_end r then (Inl Je_Conflict, j)
               else
                 let ack = max icursor (row_ack_cursor r);
                     j1 = j\<lparr>chunks := filter (\<lambda>c. \<not> (chunk_terminal c = tid \<and> chunk_end c \<le> ack))
                                       (chunks j)\<rparr>
                 in case update_terminal j1 tid (\<lambda>r. r\<lparr>row_ack_cursor := ack,
                           row_output_start := max (row_output_start r) ack\<rparr>) of
                      Inl e \<Rightarrow> (Inl e, j)
                    | Inr (_, j2) \<Rightarrow> (to_u64 ack, j2)))"

subsection \<open>Inputs\<close>

definition begin_input ::
  "journal \<Rightarrow> uuid \<Rightarrow> uuid \<Rightarrow> fingerprint \<Rightarrow> (JournalError + InputDecision) \<times> journal" where
  "begin_input j tid iid fp =
     (case map_of (inputs j) (tid, iid) of
        Some r \<Rightarrow>
          (if in_fingerprint r \<noteq> fp then Inl Je_Conflict
           else if in_status r = ''APPLIED'' then
             (case in_byte_count r of
                None \<Rightarrow> Inl Je_Corrupt
              | Some n \<Rightarrow> if 0 \<le> n then Inr (Input_Applied (nat n)) else Inl Je_Corrupt)
           else if in_status r = ''PENDING'' \<or> in_status r = ''UNKNOWN'' then Inl Je_OutcomeUnknown
           else Inl Je_Corrupt, j)
      | None \<Rightarrow>
          if map_of (terminals j) tid = None then (Inl Je_Sqlite, j)
          else (Inr Input_Execute,
                j\<lparr>inputs := inputs j @ [((tid, iid), \<lparr>in_fingerprint = fp, in_status = ''PENDING'',
                                                     in_byte_count = None\<rparr>)]\<rparr>))"

definition complete_input ::
  "journal \<Rightarrow> uuid \<Rightarrow> uuid \<Rightarrow> nat \<Rightarrow> (JournalError + unit) \<times> journal" where
  "complete_input j tid iid bytes =
     (case to_i64 bytes of
        Inl e \<Rightarrow> (Inl e, j)
      | Inr n \<Rightarrow>
          (case map_of (inputs j) (tid, iid) of
             Some r \<Rightarrow>
               if in_status r = ''PENDING''
               then (Inr (), j\<lparr>inputs := update_key (tid, iid)
                       (\<lambda>r. r\<lparr>in_status := ''APPLIED'', in_byte_count := Some n\<rparr>) (inputs j)\<rparr>)
               else (Inl Je_OutcomeUnknown, j)
           | None \<Rightarrow> (Inl Je_OutcomeUnknown, j)))"

definition mark_input_unknown :: "journal \<Rightarrow> uuid \<Rightarrow> uuid \<Rightarrow> (JournalError + unit) \<times> journal" where
  "mark_input_unknown j tid iid =
     (Inr (), j\<lparr>inputs := update_key (tid, iid)
        (\<lambda>r. if in_status r = ''PENDING'' then r\<lparr>in_status := ''UNKNOWN''\<rparr> else r) (inputs j)\<rparr>)"

subsection \<open>Mutations\<close>

text \<open>
  \<open>enc\<close> and \<open>dec\<close> are \<open>serde_json::to_vec\<close> and \<open>from_slice\<close> at
  \<open>ResponseEnvelope\<close>.
\<close>

definition begin_mutation ::
  "(string \<Rightarrow> ResponseEnvelope option) \<Rightarrow> journal \<Rightarrow> uuid \<Rightarrow> uuid \<Rightarrow> string \<Rightarrow> fingerprint
     \<Rightarrow> (JournalError + MutationDecision) \<times> journal" where
  "begin_mutation dec j rid tid kind fp =
     (case map_of (mutations j) rid of
        Some r \<Rightarrow>
          (if mut_terminal r \<noteq> tid \<or> mut_kind r \<noteq> kind \<or> mut_fingerprint r \<noteq> fp then Inl Je_Conflict
           else if mut_status r = ''COMPLETE'' then
             and_then (ok_or (mut_response r) Je_Corrupt) (\<lambda>bytes.
             and_then (ok_or (dec bytes) Je_Corrupt) (\<lambda>resp. Inr (Mutation_Cached resp)))
           else if mut_status r = ''PENDING'' then Inl Je_OutcomeUnknown
           else Inl Je_Corrupt, j)
      | None \<Rightarrow>
          (Inr Mutation_Execute,
           j\<lparr>mutations := mutations j @ [(rid, \<lparr>mut_terminal = tid, mut_kind = kind,
               mut_fingerprint = fp, mut_status = ''PENDING'', mut_response = None\<rparr>)]\<rparr>))"

definition complete_mutation ::
  "(ResponseEnvelope \<Rightarrow> string option) \<Rightarrow> journal \<Rightarrow> uuid \<Rightarrow> ResponseEnvelope
     \<Rightarrow> (JournalError + unit) \<times> journal" where
  "complete_mutation enc j rid resp =
     (case enc resp of
        None \<Rightarrow> (Inl Je_Corrupt, j)
      | Some bytes \<Rightarrow>
          (case map_of (mutations j) rid of
             Some r \<Rightarrow>
               if mut_status r = ''PENDING''
               then (Inr (), j\<lparr>mutations := update_key rid
                       (\<lambda>r. r\<lparr>mut_status := ''COMPLETE'', mut_response := Some bytes\<rparr>) (mutations j)\<rparr>)
               else (Inl Je_OutcomeUnknown, j)
           | None \<Rightarrow> (Inl Je_OutcomeUnknown, j)))"

subsection \<open>Restart\<close>

definition live_state :: "string \<Rightarrow> bool" where
  "live_state s \<longleftrightarrow> s \<in> set [''STARTING'', ''RUNNING'', ''TERMINATING'', ''UNRECOVERABLE'']"

definition lose_terminal :: "TerminalRow \<Rightarrow> TerminalRow" where
  "lose_terminal r =
     (if live_state (row_state r)
      then r\<lparr>row_state := ''LOST'', row_reason := Some ''daemon_restart_pty_lost'',
             row_output_complete := False\<rparr>
      else r)"

definition lose_input :: "InputRow \<Rightarrow> InputRow" where
  "lose_input r = (if in_status r = ''PENDING'' then r\<lparr>in_status := ''UNKNOWN''\<rparr> else r)"

definition reconcile_restart :: "journal \<Rightarrow> (JournalError + uuid list) \<times> journal" where
  "reconcile_restart j =
     (Inr (map fst (filter (\<lambda>(_, r). live_state (row_state r)) (terminals j))),
      j\<lparr>terminals := map (\<lambda>(i, r). (i, lose_terminal r)) (terminals j),
        inputs := map (\<lambda>(i, r). (i, lose_input r)) (inputs j)\<rparr>)"

subsection \<open>The operations as events\<close>

datatype journal_op =
    Do_BeginStart uuid uuid fingerprint u16 u16
  | Do_SetRunning uuid
  | Do_SetState uuid TerminalState "int option" "string option" "bool option"
  | Do_SetSize uuid u16 u16
  | Do_Append uuid string
  | Do_Ack uuid nat
  | Do_BeginInput uuid uuid fingerprint
  | Do_CompleteInput uuid uuid nat
  | Do_MarkInputUnknown uuid uuid
  | Do_BeginMutation uuid uuid string fingerprint
  | Do_CompleteMutation uuid ResponseEnvelope
  | Do_Restart

record journal_codec =
  encode :: "ResponseEnvelope \<Rightarrow> string option"
  decode :: "string \<Rightarrow> ResponseEnvelope option"

fun journal_step :: "journal_codec \<Rightarrow> journal \<Rightarrow> journal_op \<Rightarrow> journal" where
  "journal_step c j (Do_BeginStart tid ws fp cols rows) = snd (begin_start j tid ws fp cols rows)"
| "journal_step c j (Do_SetRunning tid) = snd (set_running j tid)"
| "journal_step c j (Do_SetState tid st code reason complete) =
     snd (set_state j tid st code reason complete)"
| "journal_step c j (Do_SetSize tid cols rows) = snd (set_size j tid cols rows)"
| "journal_step c j (Do_Append tid bytes) = snd (append_output j tid bytes)"
| "journal_step c j (Do_Ack tid cursor) = snd (ack_output j tid cursor)"
| "journal_step c j (Do_BeginInput tid iid fp) = snd (begin_input j tid iid fp)"
| "journal_step c j (Do_CompleteInput tid iid n) = snd (complete_input j tid iid n)"
| "journal_step c j (Do_MarkInputUnknown tid iid) = snd (mark_input_unknown j tid iid)"
| "journal_step c j (Do_BeginMutation rid tid kind fp) =
     snd (begin_mutation (decode c) j rid tid kind fp)"
| "journal_step c j (Do_CompleteMutation rid resp) = snd (complete_mutation (encode c) j rid resp)"
| "journal_step c j Do_Restart = snd (reconcile_restart j)"

definition open_new :: journal where
  "open_new = \<lparr>terminals = [], chunks = [], inputs = [], mutations = []\<rparr>"

end
