(* ===== verification/Journal_Output.thy ===== *)
theory Journal_Output
  imports Journal
begin

section \<open>The output log of a terminal\<close>

text \<open>
  The abstract specification of the output operations of the journal and the proof that the
  tables refine it.  Abstractly a terminal has the bytes written so far, the acknowledged
  position, whether the log is complete, and its state name.  The rows of
  \<open>output_chunks\<close> tile the part of the log that may still be read.
\<close>

record out_log =
  log :: string
  acked :: nat
  whole :: bool
  phase :: string

subsection \<open>Updates by key\<close>

lemma map_of_update_key:
  "map_of (update_key k f tbl) k' =
     (if k' = k then map_option f (map_of tbl k) else map_of tbl k')"
  by (induction tbl) (auto simp: update_key_def)

lemma keys_update_key [simp]: "map fst (update_key k f tbl) = map fst tbl"
  by (induction tbl) (auto simp: update_key_def)

lemma map_of_map_rows: "map_of (map (\<lambda>(i, r). (i, f r)) tbl) k = map_option f (map_of tbl k)"
  by (induction tbl) auto

lemma map_of_snoc:
  "map_of tbl k = None \<Longrightarrow> map_of (tbl @ [(k, r)]) = (map_of tbl)(k \<mapsto> r)"
  by (auto simp: fun_eq_iff map_add_def split: option.splits)

subsection \<open>Tilings\<close>

fun tiling :: "string \<Rightarrow> nat \<Rightarrow> OutputChunk list \<Rightarrow> bool" where
  "tiling L s [] \<longleftrightarrow> s = length L"
| "tiling L s (c # cs) \<longleftrightarrow>
     chunk_start c = int s \<and> chunk_end c = int (s + length (chunk_data c))
     \<and> chunk_data c \<noteq> [] \<and> length (chunk_data c) \<le> 32768
     \<and> s + length (chunk_data c) \<le> length L
     \<and> chunk_data c = take (length (chunk_data c)) (drop s L)
     \<and> tiling L (s + length (chunk_data c)) cs"

fun mk_chunks :: "uuid \<Rightarrow> nat \<Rightarrow> string list \<Rightarrow> OutputChunk list" where
  "mk_chunks t s [] = []"
| "mk_chunks t s (ch # chs) =
     \<lparr>chunk_terminal = t, chunk_start = int s, chunk_end = int (s + length ch), chunk_data = ch\<rparr>
       # mk_chunks t (s + length ch) chs"

lemma tiling_le: "tiling L s cs \<Longrightarrow> s \<le> length L"
  by (induction L s cs rule: tiling.induct) auto

lemma tiling_starts: "tiling L s cs \<Longrightarrow> c \<in> set cs \<Longrightarrow> int s \<le> chunk_start c \<and> chunk_start c < int (length L)"
  by (induction L s cs rule: tiling.induct) (auto simp flip: length_greater_0_conv)

lemma tiling_ends: "tiling L s cs \<Longrightarrow> c \<in> set cs \<Longrightarrow> int s < chunk_end c"
  by (induction L s cs rule: tiling.induct) (auto simp flip: length_greater_0_conv)

lemma tiling_sorted: "tiling L s cs \<Longrightarrow> sorted (map chunk_start cs)"
proof (induction L s cs rule: tiling.induct)
  case (2 L s c cs)
  then have "tiling L (s + length (chunk_data c)) cs" "chunk_start c = int s"
    by auto
  with 2 tiling_starts [OF this(1)] show ?case by (fastforce)
qed simp

lemma tiling_longer: "tiling L s cs \<Longrightarrow> tiling (L @ M) (length L) ds \<Longrightarrow> tiling (L @ M) s (cs @ ds)"
  by (induction L s cs rule: tiling.induct) auto

lemma tiling_mk_chunks:
  "\<forall>ch \<in> set chs. ch \<noteq> [] \<and> length ch \<le> 32768 \<Longrightarrow>
     tiling (L @ concat chs) (length L) (mk_chunks t (length L) chs)"
proof (induction chs arbitrary: L)
  case (Cons ch chs)
  from Cons.IH [of "L @ ch"] Cons.prems show ?case by simp
qed simp

text \<open>Dropping the chunks that end at or before a position leaves a tiling from there.\<close>

lemma tiling_filter:
  assumes "tiling L s cs" and "s \<le> a" and "a \<le> length L"
  shows "\<exists>s'. s \<le> s' \<and> s' \<le> a \<and> tiling L s' (filter (\<lambda>c. \<not> chunk_end c \<le> int a) cs)"
  using assms
proof (induction L s cs rule: tiling.induct)
  case (2 L s c cs)
  let ?n = "length (chunk_data c)"
  from 2(2) have c: "chunk_end c = int (s + ?n)" "tiling L (s + ?n) cs" by auto
  show ?case
  proof (cases "s + ?n \<le> a")
    case True
    with 2 c obtain s' where "s + ?n \<le> s'" "s' \<le> a"
      "tiling L s' (filter (\<lambda>c. \<not> chunk_end c \<le> int a) cs)" by blast
    with True c show ?thesis by (intro exI [of _ s']) auto
  next
    case False
    have "filter (\<lambda>c. \<not> chunk_end c \<le> int a) cs = cs"
      by (rule filter_True) (use tiling_ends [OF c(2)] False in force)
    with False c 2 show ?thesis by (intro exI [of _ s]) simp
  qed
qed simp

subsection \<open>The abstraction relation\<close>

definition known_state :: "string \<Rightarrow> bool" where
  "known_state s \<longleftrightarrow> s \<in> set [''STARTING'', ''RUNNING'', ''TERMINATING'', ''UNRECOVERABLE'', ''LOST'',
     ''EXITED'', ''TERMINATED'']"

definition terminal_chunks :: "journal \<Rightarrow> uuid \<Rightarrow> OutputChunk list" where
  "terminal_chunks j t = filter (\<lambda>c. chunk_terminal c = t) (chunks j)"

definition tracks :: "OutputChunk list \<Rightarrow> TerminalRow \<Rightarrow> out_log \<Rightarrow> bool" where
  "tracks cs r a \<longleftrightarrow>
     check_terminal r \<and> known_state (row_state r) \<and> phase a = row_state r
     \<and> whole a = row_output_complete r
     \<and> row_ack_cursor r = int (acked a) \<and> row_output_start r = int (acked a)
     \<and> row_output_end r = int (length (log a)) \<and> row_output_bytes r = int (length (log a))
     \<and> acked a \<le> length (log a) \<and> length (log a) \<le> MAX_TERMINAL_OUTPUT_BYTES
     \<and> (\<exists>s \<le> acked a. tiling (log a) s cs)
     \<and> (\<forall>c \<in> set cs. int (acked a) < chunk_end c)"

definition refines :: "journal \<Rightarrow> (uuid \<Rightarrow> out_log option) \<Rightarrow> bool" where
  "refines j A \<longleftrightarrow>
     (\<forall>t. rel_option (tracks (terminal_chunks j t)) (map_of (terminals j) t) (A t))
     \<and> (\<forall>c \<in> set (chunks j). A (chunk_terminal c) \<noteq> None)"

lemma refines_row:
  assumes "refines j A"
  obtains "map_of (terminals j) t = None" "A t = None"
  | r a where "map_of (terminals j) t = Some r" "A t = Some a" "tracks (terminal_chunks j t) r a"
  using assms unfolding refines_def by (metis option.rel_cases)

text \<open>The abstract operations.\<close>

definition log_append :: "string \<Rightarrow> out_log \<Rightarrow> nat \<times> out_log" where
  "log_append bytes a =
     (let accepted = (if whole a then min (length bytes) (MAX_TERMINAL_OUTPUT_BYTES - length (log a)) else 0)
      in (accepted, a\<lparr>log := log a @ take accepted bytes,
            whole := (whole a \<and> length (log a) < MAX_TERMINAL_OUTPUT_BYTES \<and> accepted = length bytes)\<rparr>))"

definition log_read :: "nat \<Rightarrow> nat \<Rightarrow> out_log \<Rightarrow> string" where
  "log_read after max_bytes a = take max_bytes (drop (max after (acked a)) (log a))"

fun log_step :: "(uuid \<Rightarrow> out_log option) \<Rightarrow> journal_op \<Rightarrow> uuid \<Rightarrow> out_log option" where
  "log_step A (Do_BeginStart tid ws fp cols rows) =
     (if A tid = None \<and> cols \<noteq> 0 \<and> rows \<noteq> 0
      then A(tid \<mapsto> \<lparr>log = [], acked = 0, whole = True, phase = ''STARTING''\<rparr>) else A)"
| "log_step A (Do_SetRunning tid) =
     A(tid := map_option (\<lambda>a. if phase a = ''STARTING'' then a\<lparr>phase := ''RUNNING''\<rparr> else a) (A tid))"
| "log_step A (Do_SetState tid st code reason complete) =
     A(tid := map_option (\<lambda>a. a\<lparr>phase := state_name st,
         whole := (case complete of None \<Rightarrow> whole a | Some b \<Rightarrow> b)\<rparr>) (A tid))"
| "log_step A (Do_Append tid bytes) = A(tid := map_option (snd \<circ> log_append bytes) (A tid))"
| "log_step A (Do_Ack tid cursor) =
     A(tid := map_option (\<lambda>a. if cursor \<le> length (log a) then a\<lparr>acked := max cursor (acked a)\<rparr> else a)
       (A tid))"
| "log_step A Do_Restart =
     (\<lambda>t. map_option (\<lambda>a. if live_state (phase a) then a\<lparr>phase := ''LOST'', whole := False\<rparr> else a) (A t))"
| "log_step A _ = A"

subsection \<open>Updates of one terminal\<close>

lemma terminal_chunks_update [simp]:
  "terminal_chunks (j\<lparr>terminals := ts\<rparr>) t = terminal_chunks j t"
  "terminal_chunks (j\<lparr>inputs := is\<rparr>) t = terminal_chunks j t"
  "terminal_chunks (j\<lparr>mutations := ms\<rparr>) t = terminal_chunks j t"
  by (simp_all add: terminal_chunks_def)

lemma refines_update:
  assumes "refines j A" and "map_of (terminals j) t = Some r" and "A t = Some a"
    and "tracks (terminal_chunks j t) (f r) b"
  shows "refines (j\<lparr>terminals := update_key t f (terminals j)\<rparr>) (A(t \<mapsto> b))"
  using assms by (auto simp: refines_def map_of_update_key)

lemma update_terminal_tracks:
  assumes "map_of (terminals j) t = Some r" and "tracks cs (f r) b"
  shows "update_terminal j t f = Inr (1, j\<lparr>terminals := update_key t f (terminals j)\<rparr>)"
  using assms by (simp add: update_terminal_def tracks_def)

lemma refines_same_tables:
  "refines j A \<Longrightarrow> refines (j\<lparr>inputs := is\<rparr>) A"
  "refines j A \<Longrightarrow> refines (j\<lparr>mutations := ms\<rparr>) A"
  by (simp_all add: refines_def)

lemma map_upd_triv_option: "A t = Some a \<Longrightarrow> A(t := map_option f (A t)) = A(t \<mapsto> f a)"
  by simp

lemma map_upd_none_option: "A t = None \<Longrightarrow> A(t := map_option f (A t)) = A"
  by auto

subsection \<open>Appending\<close>

lemma concat_chunks_of: "0 < n \<Longrightarrow> concat (chunks_of n xs) = xs"
  by (induction n xs rule: chunks_of.induct) (subst chunks_of.simps, auto)

lemma chunks_of_sizes: "ch \<in> set (chunks_of n xs) \<Longrightarrow> ch \<noteq> [] \<and> length ch \<le> n"
proof (induction n xs rule: chunks_of.induct)
  case (1 n xs)
  show ?case
  proof (cases "xs = [] \<or> n = 0")
    case True
    with 1(2) show ?thesis by (simp add: chunks_of.simps)
  next
    case False
    with 1(2) have "ch = take n xs \<or> ch \<in> set (chunks_of n (drop n xs))"
      by (subst (asm) chunks_of.simps) simp
    with False 1(1) show ?thesis by auto
  qed
qed

lemma insert_chunks_appends:
  assumes "map_of (terminals j) t \<noteq> None" and "\<forall>ch \<in> set chs. ch \<noteq> [] \<and> length ch \<le> 32768"
    and "\<forall>c \<in> set (chunks j). chunk_terminal c = t \<longrightarrow> chunk_start c < int s"
  shows "insert_chunks j t (int s) chs =
    Inr (int (s + length (concat chs)), j\<lparr>chunks := chunks j @ mk_chunks t s chs\<rparr>)"
  using assms
proof (induction chs arbitrary: j s)
  case (Cons ch chs)
  let ?c = "\<lparr>chunk_terminal = t, chunk_start = int s, chunk_end = int (s + length ch), chunk_data = ch\<rparr>"
  have "insert_chunk j ?c = Inr (j\<lparr>chunks := chunks j @ [?c]\<rparr>)"
    using Cons.prems by (fastforce simp: insert_chunk_def check_chunk_def list_ex_iff)
  moreover have "\<forall>c \<in> set (chunks j @ [?c]). chunk_terminal c = t \<longrightarrow>
      chunk_start c < int (s + length ch)"
  proof
    fix c assume "c \<in> set (chunks j @ [?c])"
    with Cons.prems(2,3) show "chunk_terminal c = t \<longrightarrow> chunk_start c < int (s + length ch)"
      by (cases "c = ?c") (auto dest: bspec)
  qed
  then have "insert_chunks (j\<lparr>chunks := chunks j @ [?c]\<rparr>) t (int (s + length ch)) chs =
      Inr (int (s + length ch + length (concat chs)),
        j\<lparr>chunks := (chunks j @ [?c]) @ mk_chunks t (s + length ch) chs\<rparr>)"
    using Cons.IH [of "j\<lparr>chunks := chunks j @ [?c]\<rparr>" "s + length ch"] Cons.prems(1,2) by simp
  ultimately show ?case by (simp add: add.assoc)
qed simp

lemma mk_chunks_terminal: "c \<in> set (mk_chunks t s chs) \<Longrightarrow> chunk_terminal c = t"
  by (induction t s chs rule: mk_chunks.induct) auto

lemma terminal_chunks_append:
  "terminal_chunks (j\<lparr>chunks := chunks j @ mk_chunks t s chs, terminals := ts\<rparr>) t' =
     terminal_chunks j t' @ (if t' = t then mk_chunks t s chs else [])"
  by (auto simp: terminal_chunks_def filter_empty_conv filter_id_conv dest: mk_chunks_terminal)

lemma append_refuses:
  assumes ref: "refines j A" and r: "map_of (terminals j) t = Some r" and a: "A t = Some a"
    and tr: "tracks (terminal_chunks j t) r a"
    and full: "\<not> row_output_complete r \<or> row_output_bytes r \<ge> int MAX_TERMINAL_OUTPUT_BYTES"
  shows "refines (snd (append_output j t bytes)) (A(t \<mapsto> snd (log_append bytes a)))
     \<and> fst (append_output j t bytes) = Inr (fst (log_append bytes a))"
proof -
  let ?f = "\<lambda>r. r\<lparr>row_output_complete := False\<rparr>"
  have tr': "tracks (terminal_chunks j t) (?f r) (a\<lparr>whole := False\<rparr>)"
    using tr by (simp add: tracks_def check_terminal_def)
  have "log_append bytes a = (0, a\<lparr>whole := False\<rparr>)"
    using full tr by (auto simp: log_append_def tracks_def)
  with full r refines_update [where f = ?f, OF ref r a tr'] update_terminal_tracks [where f = ?f, OF r tr']
  show ?thesis by (simp add: append_output_def)
qed

lemma append_tracks:
  fixes j t a bytes
  defines "acc \<equiv> min (length bytes) (MAX_TERMINAL_OUTPUT_BYTES - length (log a))"
  defines "chs \<equiv> chunks_of MAX_TERMINAL_OUTPUT_CHUNK_BYTES (take acc bytes)"
  defines "b \<equiv> a\<lparr>log := log a @ take acc bytes, whole := (acc = length bytes)\<rparr>"
  assumes tr: "tracks (terminal_chunks j t) r a" and room: "row_output_complete r"
  shows "insert_chunks j t (int (length (log a))) chs
      = Inr (int (length (log a) + acc), j\<lparr>chunks := chunks j @ mk_chunks t (length (log a)) chs\<rparr>)
        \<or> map_of (terminals j) t = None" (is ?ins)
    and "tracks (terminal_chunks j t @ mk_chunks t (length (log a)) chs)
      (r\<lparr>row_output_end := int (length (log a) + acc), row_output_bytes := row_output_bytes r + int acc,
         row_output_complete := (if acc \<noteq> length bytes then False else row_output_complete r)\<rparr>) b"
      (is ?tracks)
proof -
  have sizes: "\<forall>ch \<in> set chs. ch \<noteq> [] \<and> length ch \<le> 32768"
    using chunks_of_sizes [of _ MAX_TERMINAL_OUTPUT_CHUNK_BYTES]
    by (auto simp: chs_def MAX_TERMINAL_OUTPUT_CHUNK_BYTES_def)
  have cat: "concat chs = take acc bytes"
    unfolding chs_def by (rule concat_chunks_of) (simp add: MAX_TERMINAL_OUTPUT_CHUNK_BYTES_def)
  have acc: "acc \<le> length bytes" by (simp add: acc_def)
  from tr obtain s where s: "s \<le> acked a" "tiling (log a) s (terminal_chunks j t)"
    by (auto simp: tracks_def)
  have "\<forall>c \<in> set (chunks j). chunk_terminal c = t \<longrightarrow> chunk_start c < int (length (log a))"
    using tiling_starts [OF s(2)] by (auto simp: terminal_chunks_def)
  then show ?ins
    using insert_chunks_appends [OF _ sizes, of j t "length (log a)"] cat acc by auto
  have mk: "tiling (log a @ concat chs) (length (log a)) (mk_chunks t (length (log a)) chs)"
    by (rule tiling_mk_chunks [OF sizes])
  have til: "tiling (log b) s (terminal_chunks j t @ mk_chunks t (length (log a)) chs)"
    unfolding b_def using tiling_longer [OF s(2) mk] cat by simp
  have "\<forall>c \<in> set (mk_chunks t (length (log a)) chs). int (acked a) < chunk_end c"
    using tiling_ends [OF mk] tr by (fastforce simp: tracks_def)
  with tr s(1) room til acc show ?tracks
    by (auto simp: tracks_def check_terminal_def b_def acc_def)
qed

lemma append_accepts:
  assumes ref: "refines j A" and r: "map_of (terminals j) t = Some r" and a: "A t = Some a"
    and tr: "tracks (terminal_chunks j t) r a"
    and room: "\<not> (\<not> row_output_complete r \<or> row_output_bytes r \<ge> int MAX_TERMINAL_OUTPUT_BYTES)"
  shows "refines (snd (append_output j t bytes)) (A(t \<mapsto> snd (log_append bytes a)))
     \<and> fst (append_output j t bytes) = Inr (fst (log_append bytes a))"
proof -
  define acc where "acc = min (length bytes) (MAX_TERMINAL_OUTPUT_BYTES - length (log a))"
  define chs where "chs = chunks_of MAX_TERMINAL_OUTPUT_CHUNK_BYTES (take acc bytes)"
  define mk where "mk = mk_chunks t (length (log a)) chs"
  let ?j = "j\<lparr>chunks := chunks j @ mk\<rparr>"
  let ?f = "\<lambda>r. r\<lparr>row_output_end := int (length (log a) + acc),
      row_output_bytes := row_output_bytes r + int acc,
      row_output_complete := (if acc \<noteq> length bytes then False else row_output_complete r)\<rparr>"
  have b: "log_append bytes a = (acc, a\<lparr>log := log a @ take acc bytes, whole := (acc = length bytes)\<rparr>)"
    using room tr by (auto simp: log_append_def tracks_def Let_def acc_def)
  note app = append_tracks [OF tr, of bytes, folded acc_def, folded chs_def, folded mk_def]
  have cs: "terminal_chunks ?j t' = terminal_chunks j t' @ (if t' = t then mk else [])" for t'
    using terminal_chunks_append [where j = j and t = t and s = "length (log a)" and chs = chs
        and ts = "terminals j" and t' = t'] by (simp add: mk_def terminal_chunks_def)
  have tr': "tracks (terminal_chunks ?j t) (?f r) (snd (log_append bytes a))"
    using app(2) room cs [of t] b by simp
  have upd: "update_terminal ?j t ?f = Inr (1, ?j\<lparr>terminals := update_key t ?f (terminals ?j)\<rparr>)"
    by (rule update_terminal_tracks [where f = ?f and r = r, OF _ tr']) (simp add: r)
  have "refines (?j\<lparr>terminals := update_key t ?f (terminals ?j)\<rparr>) (A(t \<mapsto> snd (log_append bytes a)))"
    using ref r a tr' cs by (auto simp: refines_def map_of_update_key mk_def dest: mk_chunks_terminal)
  moreover have "nat (int MAX_TERMINAL_OUTPUT_BYTES - row_output_bytes r)
      = MAX_TERMINAL_OUTPUT_BYTES - length (log a)" "row_output_end r = int (length (log a))"
    using tr by (simp_all add: tracks_def nat_minus_as_int)
  ultimately show ?thesis
    using room r app(1) upd b
    by (simp add: append_output_def Let_def acc_def [symmetric] chs_def [symmetric])
qed

lemma append_refines:
  assumes ref: "refines j A"
  shows "refines (snd (append_output j t bytes)) (log_step A (Do_Append t bytes))
     \<and> fst (append_output j t bytes) =
         (case A t of None \<Rightarrow> Inl Je_Sqlite | Some a \<Rightarrow> Inr (fst (log_append bytes a)))"
proof (rule refines_row [OF ref, of t])
  assume "map_of (terminals j) t = None" "A t = None"
  with ref show ?thesis by (simp add: append_output_def fun_upd_idem)
next
  fix r a
  assume "map_of (terminals j) t = Some r" "A t = Some a" "tracks (terminal_chunks j t) r a"
  with append_refuses [OF ref this] append_accepts [OF ref this] show ?thesis by fastforce
qed

subsection \<open>Acknowledging\<close>

lemma ack_tracks:
  assumes tr: "tracks cs r a" and "cursor \<le> length (log a)"
  defines "k \<equiv> max cursor (acked a)"
  shows "tracks (filter (\<lambda>c. \<not> chunk_end c \<le> int k) cs)
     (r\<lparr>row_ack_cursor := int k, row_output_start := max (row_output_start r) (int k)\<rparr>)
     (a\<lparr>acked := k\<rparr>)"
proof -
  from tr obtain s where s: "s \<le> acked a" "tiling (log a) s cs" by (auto simp: tracks_def)
  have k: "acked a \<le> k" "k \<le> length (log a)" using assms by (auto simp: tracks_def)
  then obtain s' where "s' \<le> k" "tiling (log a) s' (filter (\<lambda>c. \<not> chunk_end c \<le> int k) cs)"
    using tiling_filter [OF s(2), of k] s(1) by fastforce
  with tr k show ?thesis by (auto simp: tracks_def check_terminal_def)
qed

lemma i64_max_output: "MAX_TERMINAL_OUTPUT_BYTES \<le> i64_max"
  by (simp add: MAX_TERMINAL_OUTPUT_BYTES_def i64_max_def)

definition log_ack :: "nat \<Rightarrow> out_log \<Rightarrow> JournalError + nat" where
  "log_ack cursor a =
     (if cursor > i64_max then Inl Je_Corrupt
      else if cursor > length (log a) then Inl Je_Conflict
      else Inr (max cursor (acked a)))"

lemma ack_refines:
  assumes ref: "refines j A"
  shows "refines (snd (ack_output j t cursor)) (log_step A (Do_Ack t cursor))
     \<and> fst (ack_output j t cursor) =
         (case A t of None \<Rightarrow> Inl Je_Sqlite | Some a \<Rightarrow> log_ack cursor a)"
proof (rule refines_row [OF ref, of t])
  assume "map_of (terminals j) t = None" "A t = None"
  with ref show ?thesis by (simp add: ack_output_def fun_upd_idem)
next
  fix r a
  assume r: "map_of (terminals j) t = Some r" and a: "A t = Some a"
    and tr: "tracks (terminal_chunks j t) r a"
  have len: "length (log a) \<le> i64_max" using tr i64_max_output by (simp add: tracks_def)
  have ends: "row_output_end r = int (length (log a))" "row_ack_cursor r = int (acked a)"
    using tr by (simp_all add: tracks_def)
  show ?thesis
  proof (cases "cursor \<le> length (log a)")
    case False
    have "A(t \<mapsto> a) = A" using a by auto
    with False r a ref ends show ?thesis by (simp add: ack_output_def to_i64_def log_ack_def)
  next
    case True
    let ?k = "max cursor (acked a)"
    let ?f = "\<lambda>r. r\<lparr>row_ack_cursor := int ?k, row_output_start := max (row_output_start r) (int ?k)\<rparr>"
    let ?j = "j\<lparr>chunks := filter (\<lambda>c. \<not> (chunk_terminal c = t \<and> chunk_end c \<le> int ?k)) (chunks j)\<rparr>"
    have cs: "terminal_chunks ?j t = filter (\<lambda>c. \<not> chunk_end c \<le> int ?k) (terminal_chunks j t)"
      "t' \<noteq> t \<Longrightarrow> terminal_chunks ?j t' = terminal_chunks j t'" for t'
      by (auto simp: terminal_chunks_def intro!: filter_cong)
    have tr': "tracks (terminal_chunks ?j t) (?f r) (a\<lparr>acked := ?k\<rparr>)"
      unfolding cs(1) by (rule ack_tracks [OF tr True])
    have upd: "update_terminal ?j t ?f = Inr (1, ?j\<lparr>terminals := update_key t ?f (terminals ?j)\<rparr>)"
      by (rule update_terminal_tracks [where f = ?f and r = r, OF _ tr']) (simp add: r)
    have "refines (?j\<lparr>terminals := update_key t ?f (terminals ?j)\<rparr>) (A(t \<mapsto> a\<lparr>acked := ?k\<rparr>))"
      using ref r a tr' cs(2) by (auto simp: refines_def map_of_update_key)
    with True len r a ends upd show ?thesis
      by (simp add: ack_output_def to_i64_def to_u64_def log_ack_def Let_def of_nat_max [symmetric]
          del: of_nat_max)
  qed
qed

subsection \<open>The other operations\<close>

lemma known_state_name [simp]: "known_state (state_name st)"
  by (cases st) (simp_all add: known_state_def)

lemma update_refines:
  assumes ref: "refines j A"
    and keep: "\<And>cs r a. tracks cs r a \<Longrightarrow> tracks cs (f r) (g a)"
  shows "refines (snd (update_or_not_found j t f)) (A(t := map_option g (A t)))"
proof (rule refines_row [OF ref, of t])
  assume "map_of (terminals j) t = None" "A t = None"
  with ref show ?thesis by (simp add: update_or_not_found_def update_terminal_def fun_upd_idem)
next
  fix r a
  assume r: "map_of (terminals j) t = Some r" and a: "A t = Some a"
    and tr: "tracks (terminal_chunks j t) r a"
  note tr' = keep [OF tr]
  have "check_terminal (f r)" using tr' by (simp add: tracks_def)
  with refines_update [where f = f, OF ref r a tr'] r a show ?thesis
    by (simp add: update_or_not_found_def update_terminal_def)
qed

lemma update_refused:
  "map_of (terminals j) t = Some r \<Longrightarrow> \<not> check_terminal (f r) \<Longrightarrow>
     snd (update_or_not_found j t f) = j"
  by (simp add: update_or_not_found_def update_terminal_def)

lemma set_state_refines:
  assumes "refines j A"
  shows "refines (snd (set_state j t st code reason complete))
    (log_step A (Do_SetState t st code reason complete))"
  unfolding set_state_def update_state_def log_step.simps
  by (rule update_refines [OF assms])
     (cases complete; simp add: tracks_def check_terminal_def)

lemma set_size_refines:
  assumes ref: "refines j A"
  shows "refines (snd (set_size j t cols rows)) A"
proof (cases "cols = 0 \<or> rows = 0")
  case True
  then have refused: "\<not> check_terminal (r\<lparr>row_cols := int (unat cols), row_rows := int (unat rows)\<rparr>)" for r
    by (auto simp: check_terminal_def)
  show ?thesis
  proof (cases "map_of (terminals j) t")
    case None
    with ref show ?thesis by (simp add: set_size_def update_or_not_found_def update_terminal_def)
  next
    case (Some r)
    from update_refused [OF Some refused] ref show ?thesis by (simp add: set_size_def)
  qed
next
  case False
  then have "tracks cs (r\<lparr>row_cols := int (unat cols), row_rows := int (unat rows)\<rparr>) a"
    if "tracks cs r a" for cs r a
    using that False int_u16_pos [of cols] int_u16_pos [of rows]
    by (simp add: tracks_def check_terminal_def del: of_nat_unat)
  from update_refines [where g = "\<lambda>a. a" and t = t, OF ref this] show ?thesis
    by (simp add: set_size_def fun_upd_idem option.map_ident)
qed

lemma set_running_refines:
  assumes ref: "refines j A"
  shows "refines (snd (set_running j t)) (log_step A (Do_SetRunning t))"
proof (rule refines_row [OF ref, of t])
  assume "map_of (terminals j) t = None" "A t = None"
  with ref show ?thesis by (simp add: set_running_def fun_upd_idem)
next
  fix r a
  assume r: "map_of (terminals j) t = Some r" and a: "A t = Some a"
    and tr: "tracks (terminal_chunks j t) r a"
  let ?f = "\<lambda>r. r\<lparr>row_state := ''RUNNING''\<rparr>"
  let ?b = "if phase a = ''STARTING'' then a\<lparr>phase := ''RUNNING''\<rparr> else a"
  show ?thesis
  proof (cases "row_state r = ''STARTING'' \<or> row_state r = ''RUNNING''")
    case True
    then have tr': "tracks (terminal_chunks j t) (?f r) ?b"
      using tr by (auto simp: tracks_def check_terminal_def known_state_def)
    from refines_update [where f = ?f, OF ref r a tr'] True r a show ?thesis
      by (simp add: set_running_def)
  next
    case False
    then have "A(t \<mapsto> ?b) = A" using tr a by (auto simp: tracks_def)
    with False ref r a show ?thesis by (simp add: set_running_def)
  qed
qed

lemma refines_insert:
  assumes "refines j A" and "map_of (terminals j) t = None" and "terminal_chunks j t = []"
    and "tracks [] r a"
  shows "refines (j\<lparr>terminals := terminals j @ [(t, r)]\<rparr>) (A(t \<mapsto> a))"
  using assms by (simp add: refines_def map_of_snoc del: map_of_append)

lemma begin_start_refines:
  assumes ref: "refines j A"
  shows "refines (snd (begin_start j t ws fp cols rows)) (log_step A (Do_BeginStart t ws fp cols rows))"
proof (rule refines_row [OF ref, of t])
  fix r a
  assume "map_of (terminals j) t = Some r" "A t = Some a"
  with ref show ?thesis by (simp add: begin_start_def)
next
  assume none: "map_of (terminals j) t = None" "A t = None"
  have empty: "terminal_chunks j t = []"
    using ref none by (auto simp: refines_def terminal_chunks_def filter_empty_conv)
  show ?thesis
  proof (cases "cols \<noteq> 0 \<and> rows \<noteq> 0")
    case True
    let ?r = "\<lparr>row_workspace = ws, row_fingerprint = fp, row_state = ''STARTING'',
        row_cols = int (unat cols), row_rows = int (unat rows), row_exit_code = None,
        row_reason = None, row_output_start = 0, row_output_end = 0,
        row_ack_cursor = 0, row_output_bytes = 0, row_output_complete = True\<rparr>"
    from True have tr: "tracks [] ?r \<lparr>log = [], acked = 0, whole = True, phase = ''STARTING''\<rparr>"
      using int_u16_pos [of cols] int_u16_pos [of rows]
      by (simp add: tracks_def check_terminal_def known_state_def del: of_nat_unat)
    then have "check_terminal ?r" by (simp add: tracks_def)
    with True none refines_insert [OF ref none(1) empty tr] show ?thesis
      by (simp add: begin_start_def)
  next
    case False
    with none ref show ?thesis by (auto simp: begin_start_def check_terminal_def)
  qed
qed

lemma restart_refines:
  assumes ref: "refines j A"
  shows "refines (snd (reconcile_restart j)) (log_step A Do_Restart)"
proof -
  let ?g = "\<lambda>a. if live_state (phase a) then a\<lparr>phase := ''LOST'', whole := False\<rparr> else a"
  have "tracks cs (lose_terminal r) (?g a)" if "tracks cs r a" for cs r a
    using that by (auto simp: tracks_def lose_terminal_def check_terminal_def known_state_def)
  moreover have "terminal_chunks (snd (reconcile_restart j)) t = terminal_chunks j t" for t
    by (simp add: reconcile_restart_def terminal_chunks_def)
  ultimately have "rel_option (tracks (terminal_chunks (snd (reconcile_restart j)) t))
      (map_of (terminals (snd (reconcile_restart j))) t) (map_option ?g (A t))" for t
    using ref by (cases rule: refines_row [OF ref, of t])
      (simp_all add: reconcile_restart_def map_of_map_rows)
  then show ?thesis
    using ref by (simp add: refines_def reconcile_restart_def)
qed

text \<open>The refinement: every operation of the journal keeps the relation to the abstract logs.\<close>

lemma journal_step_refines:
  "refines j A \<Longrightarrow> refines (journal_step c j op) (log_step A op)"
  by (cases op)
     (auto simp: begin_start_refines [simplified] set_running_refines [simplified]
        set_state_refines [simplified] set_size_refines append_refines [simplified]
        ack_refines [simplified] restart_refines [simplified] refines_same_tables begin_input_def
        complete_input_def mark_input_unknown_def begin_mutation_def complete_mutation_def
        split: option.splits sum.splits)

subsection \<open>Reading\<close>

lemma take_split: "k \<le> m \<Longrightarrow> take k (drop n L) @ take (m - k) (drop (n + k) L) = take m (drop n L)"
  using take_add [of k "m - k" "drop n L"] by (simp add: add.commute)

lemma min_split: "k \<le> m \<Longrightarrow> k \<le> l \<Longrightarrow> n + k + min (m - k) (l - k) = n + min m l" for k :: nat
  by (auto simp: min_def)

lemma read_loop_tiling:
  assumes "tiling L s cs" and "nxt \<le> length L" and "length L < 2 ^ 64"
    and "s \<le> nxt \<or> max_bytes \<le> length bytes"
  shows "read_loop max_bytes bytes nxt cs =
    Inr (bytes @ take (max_bytes - length bytes) (drop nxt L),
         nxt + min (max_bytes - length bytes) (length L - nxt))"
  using assms
proof (induction L s cs arbitrary: bytes nxt rule: tiling.induct)
  case (1 L s)
  then show ?case by auto
next
  case (2 L s c cs)
  let ?n = "length (chunk_data c)"
  show ?case
  proof (cases "max_bytes \<le> length bytes")
    case False
    from 2(2) have c: "chunk_start c = int s" "chunk_end c = int (s + ?n)" "?n \<le> 32768"
      "chunk_data c = take ?n (drop s L)" "s + ?n \<le> length L" and til: "tiling L (s + ?n) cs"
      by auto
    have s: "s \<le> nxt" using 2(5) False by simp
    show ?thesis
    proof (cases "nxt - s \<ge> ?n")
      case True
      with False s c 2(1) [OF til 2(3,4), of bytes] show ?thesis
        by (simp add: to_u64_def MAX_TERMINAL_OUTPUT_CHUNK_BYTES_def Let_def)
    next
      case inside: False
      let ?k = "min (max_bytes - length bytes) (?n - (nxt - s))"
      have data: "drop (nxt - s) (chunk_data c) = take (?n - (nxt - s)) (drop nxt L)"
        by (subst c(4)) (use s in \<open>simp add: drop_take\<close>)
      have bounds: "nxt + ?k \<le> length L" "nxt + ?k < 2 ^ 64" using inside s c(5) 2(4) by auto
      have "read_loop max_bytes bytes nxt (c # cs) =
          read_loop max_bytes (bytes @ take ?k (drop nxt L)) (nxt + ?k) cs"
        using False inside s c(1-3) bounds(2) data nat_int_add [of s ?n]
        by (simp add: to_u64_def MAX_TERMINAL_OUTPUT_CHUNK_BYTES_def Let_def min.commute)
      also have "\<dots> = Inr (bytes @ take (max_bytes - length bytes) (drop nxt L),
          nxt + min (max_bytes - length bytes) (length L - nxt))"
      proof (subst 2(1))
        show "tiling L (s + ?n) cs" "length L < 2 ^ 64" "nxt + ?k \<le> length L"
          using til 2(4) bounds by auto
        show "s + ?n \<le> nxt + ?k \<or> max_bytes \<le> length (bytes @ take ?k (drop nxt L))"
          using bounds(1) s inside by auto
        have len: "length (bytes @ take ?k (drop nxt L)) = length bytes + ?k"
          using bounds(1) by simp
        have "take ?k (drop nxt L) @ take (max_bytes - length bytes - ?k) (drop (nxt + ?k) L)
            = take (max_bytes - length bytes) (drop nxt L)"
          by (rule take_split) simp
        moreover have "nxt + ?k + min (max_bytes - length bytes - ?k) (length L - nxt - ?k)
            = nxt + min (max_bytes - length bytes) (length L - nxt)"
          by (rule min_split) (use bounds(1) in simp_all)
        ultimately show "Inr ((bytes @ take ?k (drop nxt L)) @
              take (max_bytes - length (bytes @ take ?k (drop nxt L))) (drop (nxt + ?k) L),
            nxt + ?k + min (max_bytes - length (bytes @ take ?k (drop nxt L))) (length L - (nxt + ?k)))
          = Inr (bytes @ take (max_bytes - length bytes) (drop nxt L),
            nxt + min (max_bytes - length bytes) (length L - nxt))"
          unfolding len diff_diff_left [symmetric] by (simp only: append_assoc)
      qed
      finally show ?thesis .
    qed
  qed simp
qed

lemma chunk_rows_tiling:
  assumes "tracks (terminal_chunks j t) r a" and "acked a \<le> after" and "after \<le> length (log a)"
  shows "\<exists>s \<le> after. tiling (log a) s (chunk_rows j t (int after))"
proof -
  from assms(1) obtain s where s: "s \<le> acked a" "tiling (log a) s (terminal_chunks j t)"
    by (auto simp: tracks_def)
  let ?cs = "filter (\<lambda>c. \<not> chunk_end c \<le> int after) (terminal_chunks j t)"
  obtain s' where s': "s' \<le> after" "tiling (log a) s' ?cs"
    using tiling_filter [OF s(2), of after] s(1) assms(2,3) by fastforce
  have "chunk_rows j t (int after) = sort_key chunk_start ?cs"
    by (auto simp: chunk_rows_def terminal_chunks_def not_le conj_commute intro!: arg_cong2 [where f = sort_key] filter_cong)
  also have "\<dots> = ?cs" by (rule sort_key_id_if_sorted) (rule tiling_sorted [OF s'(2)])
  finally show ?thesis using s' by auto
qed

lemma parse_known_state: "known_state st \<Longrightarrow> \<exists>x. parse_state st = Inr x"
  by (auto simp: known_state_def parse_state_def)

lemma query_record_tracks:
  assumes "map_of (terminals j) t = Some r" and "tracks cs r a"
  shows "\<exists>record. query_record j t = Inr record \<and> output_start_cursor record = acked a
    \<and> acked_cursor record = acked a \<and> output_end_cursor record = length (log a)
    \<and> rec_output_complete record = whole a \<and> parse_state (phase a) = Inr (rec_state record)"
proof -
  obtain x where "parse_state (row_state r) = Inr x"
    using assms(2) parse_known_state by (auto simp: tracks_def)
  with assms show ?thesis
    by (simp add: query_record_def tracks_def check_terminal_def to_u16_def to_u64_def)
qed

definition read_spec :: "out_log option \<Rightarrow> nat \<Rightarrow> nat \<Rightarrow> JournalError + OutputRead \<Rightarrow> bool" where
  "read_spec la after max_bytes res \<longleftrightarrow>
     (case la of
        None \<Rightarrow> res = Inl Je_NotFound
      | Some a \<Rightarrow>
          if after > length (log a) then res = Inl Je_Conflict
          else
            (case res of
               Inl e \<Rightarrow> False
             | Inr out \<Rightarrow>
                 read_bytes out = log_read after max_bytes a
                 \<and> read_start_cursor out = max after (acked a)
                 \<and> read_next_cursor out = read_start_cursor out + length (read_bytes out)
                 \<and> output_start_cursor (read_record out) = acked a
                 \<and> output_end_cursor (read_record out) = length (log a)
                 \<and> rec_output_complete (read_record out) = whole a))"

lemma read_output_spec:
  assumes "refines j A"
  shows "read_spec (A t) after max_bytes (read_output j t after max_bytes)"
proof (rule refines_row [OF assms, of t])
  assume "map_of (terminals j) t = None" "A t = None"
  then show ?thesis by (simp add: read_spec_def read_output_def query_record_def)
next
  fix r a
  assume r: "map_of (terminals j) t = Some r" and a: "A t = Some a"
    and tr: "tracks (terminal_chunks j t) r a"
  from query_record_tracks [OF r tr] obtain rcd where rc: "query_record j t = Inr rcd"
    "output_start_cursor rcd = acked a" "output_end_cursor rcd = length (log a)"
    "rec_output_complete rcd = whole a" by auto
  have len: "length (log a) \<le> MAX_TERMINAL_OUTPUT_BYTES" "acked a \<le> length (log a)"
    using tr by (simp_all add: tracks_def)
  show ?thesis
  proof (cases "after > length (log a)")
    case True
    with a rc show ?thesis by (simp add: read_spec_def read_output_def)
  next
    case False
    let ?start = "max after (acked a)"
    have start: "acked a \<le> ?start" "?start \<le> length (log a)" using False len by auto
    obtain s where "s \<le> ?start" "tiling (log a) s (chunk_rows j t (int ?start))"
      using chunk_rows_tiling [OF tr start] by blast
    moreover have "length (log a) < 2 ^ 64" "to_i64 ?start = Inr (int ?start)"
      using len start i64_max_output by (auto simp: to_i64_def MAX_TERMINAL_OUTPUT_BYTES_def)
    ultimately show ?thesis
      using a rc False start read_loop_tiling [of "log a" s _ ?start max_bytes "[]"]
      by (simp add: read_spec_def read_output_def log_read_def min.commute Let_def)
  qed
qed

lemma refines_open_new: "refines open_new (\<lambda>_. None)"
  by (simp add: refines_def open_new_def)

lemma run_refines:
  "refines j A \<Longrightarrow> refines (run_ops (journal_step c) j ops) (run_ops log_step A ops)"
  by (induction ops arbitrary: j A) (auto intro: journal_step_refines)

subsection \<open>Properties\<close>

definition journal_after :: "journal_codec \<Rightarrow> journal_op list \<Rightarrow> journal" where
  "journal_after codec ops = run_ops (journal_step codec) open_new ops"

definition logs_after :: "journal_op list \<Rightarrow> uuid \<Rightarrow> out_log option" where
  "logs_after ops = run_ops log_step (\<lambda>_. None) ops"

lemma journal_after_refines: "refines (journal_after codec ops) (logs_after ops)"
  unfolding journal_after_def logs_after_def by (rule run_refines [OF refines_open_new])

text \<open>
  Property C1: the journal refines the abstract logs.  After any sequence of operations on a
  new journal, restarts included, \<open>append_output\<close>, \<open>ack_output\<close> and \<open>read_output\<close> return
  what the abstract log of the terminal says: an append accepts up to the 64 MiB bound and
  nothing once the log is incomplete, an acknowledgement never goes back nor past the end, and
  a read never fails with a corruption error and returns exactly the bytes of the log from the
  requested position, or from the acknowledged one when that is later, with the cursors to go
  on from.
\<close>

theorem journal_refines_logs:
  "fst (append_output (journal_after codec ops) t bytes) =
      (case logs_after ops t of
         None \<Rightarrow> Inl Je_Sqlite | Some a \<Rightarrow> Inr (fst (log_append bytes a)))
    \<and> fst (ack_output (journal_after codec ops) t cursor) =
      (case logs_after ops t of None \<Rightarrow> Inl Je_Sqlite | Some a \<Rightarrow> log_ack cursor a)
    \<and> read_spec (logs_after ops t) after max_bytes
        (read_output (journal_after codec ops) t after max_bytes)"
  using append_refines [OF journal_after_refines] ack_refines [OF journal_after_refines]
    read_output_spec [OF journal_after_refines] by blast

text \<open>The log of a terminal only grows, and its acknowledged position only moves forward.\<close>

definition log_le :: "out_log \<Rightarrow> out_log \<Rightarrow> bool" where
  "log_le a b \<longleftrightarrow> starts_with (log b) (log a) \<and> acked a \<le> acked b"

lemma log_le_refl [simp]: "log_le a a"
  by (simp add: log_le_def starts_with_def)

lemma log_le_trans: "log_le a b \<Longrightarrow> log_le b c \<Longrightarrow> log_le a c"
  by (auto simp: log_le_def starts_with_iff)

lemma log_upd_le:
  "A t = Some a \<Longrightarrow> (\<And>a. log_le a (g a)) \<Longrightarrow>
     \<exists>b. (A(u := map_option g (A u))) t = Some b \<and> log_le a b"
  by auto

lemma log_step_le: "A t = Some a \<Longrightarrow> \<exists>b. log_step A op t = Some b \<and> log_le a b"
proof (cases op)
  case (Do_Append u bytes)
  assume "A t = Some a"
  moreover have "log_le x ((snd \<circ> log_append bytes) x)" for x
    by (simp add: log_append_def log_le_def starts_with_iff Let_def)
  ultimately show ?thesis unfolding Do_Append log_step.simps by (rule log_upd_le)
next
  case (Do_Ack u cursor)
  assume "A t = Some a"
  moreover have "log_le x (if cursor \<le> length (log x) then x\<lparr>acked := max cursor (acked x)\<rparr> else x)" for x
    by (simp add: log_le_def starts_with_iff)
  ultimately show ?thesis unfolding Do_Ack log_step.simps by (rule log_upd_le)
next
  case (Do_SetRunning u)
  assume "A t = Some a"
  moreover have "log_le x (if phase x = ''STARTING'' then x\<lparr>phase := ''RUNNING''\<rparr> else x)" for x
    by (simp add: log_le_def starts_with_iff)
  ultimately show ?thesis unfolding Do_SetRunning log_step.simps by (rule log_upd_le)
qed (auto simp: log_le_def starts_with_iff)

lemma run_log_le: "A t = Some a \<Longrightarrow> \<exists>b. run_ops log_step A ops t = Some b \<and> log_le a b"
proof (induction ops arbitrary: A a)
  case (Cons op ops)
  then obtain b where b: "log_step A op t = Some b" "log_le a b" using log_step_le by blast
  with Cons.IH [where A = "log_step A op" and a = b] show ?case by (auto intro: log_le_trans)
qed simp

text \<open>
  Property: bytes once readable never change.  If a position was read and, after any further
  operations, is read again with the same size limit and is not acknowledged away, the later
  read succeeds and returns the earlier bytes, possibly followed by newer ones.
\<close>

theorem reads_are_stable:
  assumes "read_output (journal_after codec ops) t after max_bytes = Inr out1"
    and "read_output (journal_after codec (ops @ later)) t after max_bytes = res"
  shows "\<exists>out2. res = Inr out2 \<and>
     (read_start_cursor out2 = read_start_cursor out1 \<longrightarrow>
        starts_with (read_bytes out2) (read_bytes out1))"
proof -
  let ?A = "logs_after ops" and ?B = "logs_after (ops @ later)"
  have r1: "read_spec (?A t) after max_bytes (Inr out1)"
    using read_output_spec [OF journal_after_refines [of codec ops]] assms(1) by metis
  have r2: "read_spec (?B t) after max_bytes res"
    using read_output_spec [OF journal_after_refines [of codec "ops @ later"]] assms(2) by metis
  from r1 obtain a where a: "?A t = Some a" "after \<le> length (log a)"
    "read_bytes out1 = log_read after max_bytes a" "read_start_cursor out1 = max after (acked a)"
    by (auto simp: read_spec_def split: option.splits if_splits)
  obtain b where b: "?B t = Some b" "log_le a b"
    using run_log_le [of ?A t a later] a(1) unfolding logs_after_def run_ops_append by auto
  have "after \<le> length (log b)" using a(2) b(2) by (auto simp: log_le_def starts_with_iff)
  with r2 b(1) obtain out2 where out2: "res = Inr out2" "read_bytes out2 = log_read after max_bytes b"
    "read_start_cursor out2 = max after (acked b)"
    by (auto simp: read_spec_def split: sum.splits)
  moreover have "starts_with (read_bytes out2) (read_bytes out1)"
    if "max after (acked b) = max after (acked a)"
    using that a(3) out2(2) b(2) by (auto simp: log_read_def log_le_def starts_with_iff)
  ultimately show ?thesis using a(4) by auto
qed

definition no_codec :: journal_codec where
  "no_codec = \<lparr>encode = \<lambda>_. None, decode = \<lambda>_. None\<rparr>"

theorem reads_are_stable_witness:
  "\<exists>out2. read_output (journal_after no_codec
        ([Do_BeginStart 1 2 ''f'' 80 24, Do_Append 1 ''hello''] @ [Do_Append 1 '' world'', Do_Ack 1 1])) 1 2 3
     = Inr out2 \<and> starts_with (read_bytes out2) ''llo''"
proof -
  let ?j = "journal_after no_codec [Do_BeginStart 1 2 ''f'' 80 24, Do_Append 1 ''hello'']"
  let ?k = "journal_after no_codec ([Do_BeginStart 1 2 ''f'' 80 24, Do_Append 1 ''hello''] @ [Do_Append 1 '' world'', Do_Ack 1 1])"
  have ops: "logs_after [Do_BeginStart 1 2 ''f'' 80 24, Do_Append 1 ''hello''] 1
      = Some \<lparr>log = ''hello'', acked = 0, whole = True, phase = ''STARTING''\<rparr>"
    "logs_after ([Do_BeginStart 1 2 ''f'' 80 24, Do_Append 1 ''hello''] @ [Do_Append 1 '' world'', Do_Ack 1 1]) 1
      = Some \<lparr>log = ''hello world'', acked = 1, whole = True, phase = ''STARTING''\<rparr>"
    by (simp_all add: logs_after_def log_append_def MAX_TERMINAL_OUTPUT_BYTES_def)
  have "read_spec (logs_after [Do_BeginStart 1 2 ''f'' 80 24, Do_Append 1 ''hello''] 1) 2 3 (read_output ?j 1 2 3)"
    by (rule read_output_spec [OF journal_after_refines])
  then obtain out1 where r1: "read_output ?j 1 2 3 = Inr out1" "read_bytes out1 = ''llo''"
    "read_start_cursor out1 = 2"
    by (auto simp: ops read_spec_def log_read_def split: sum.splits)
  from reads_are_stable [OF r1(1) refl, of "[Do_Append 1 '' world'', Do_Ack 1 1]"]
  obtain out2 where out2: "read_output ?k 1 2 3 = Inr out2"
    "read_start_cursor out2 = read_start_cursor out1 \<longrightarrow> starts_with (read_bytes out2) (read_bytes out1)"
    by blast
  have "read_spec (logs_after ([Do_BeginStart 1 2 ''f'' 80 24, Do_Append 1 ''hello''] @ [Do_Append 1 '' world'', Do_Ack 1 1]) 1) 2 3 (Inr out2)"
    using read_output_spec [OF journal_after_refines] out2(1) by metis
  then have "read_start_cursor out2 = 2" unfolding ops by (simp add: read_spec_def)
  with out2 r1 show ?thesis by auto
qed

end
