(* ===== verification/Journal_Ledger.thy ===== *)
theory Journal_Ledger
  imports Journal_Output
begin

section \<open>Once-only execution and recovery\<close>

text \<open>
  What the journal promises about starts, inputs and mutations: each is executed at most once,
  the outcome of an input is decided by the first event that concerns it, a completed mutation
  is answered from the journal, and a restart leaves nothing running or pending.
\<close>

subsection \<open>What an operation leaves alone\<close>

lemma insert_chunk_tables:
  "insert_chunk j ch = Inr j' \<Longrightarrow>
     terminals j' = terminals j \<and> inputs j' = inputs j \<and> mutations j' = mutations j"
  by (auto simp: insert_chunk_def split: if_splits)

lemma insert_chunks_tables:
  "insert_chunks j t s chs = Inr (e, j') \<Longrightarrow>
     terminals j' = terminals j \<and> inputs j' = inputs j \<and> mutations j' = mutations j"
proof (induction chs arbitrary: j s)
  case (Cons ch chs)
  then obtain j1 where "insert_chunk j \<lparr>chunk_terminal = t, chunk_start = s,
      chunk_end = s + int (length ch), chunk_data = ch\<rparr> = Inr j1"
    "insert_chunks j1 t (s + int (length ch)) chs = Inr (e, j')"
    by (auto simp: Let_def)
  with Cons.IH insert_chunk_tables show ?case by metis
qed simp

lemma update_terminal_tables:
  "update_terminal j t f = Inr (n, j') \<Longrightarrow>
     map fst (terminals j') = map fst (terminals j) \<and> inputs j' = inputs j
     \<and> mutations j' = mutations j"
  by (auto simp: update_terminal_def split: option.splits if_splits)

lemma append_output_tables:
  "map fst (terminals (snd (append_output j t bytes))) = map fst (terminals j)
   \<and> inputs (snd (append_output j t bytes)) = inputs j
   \<and> mutations (snd (append_output j t bytes)) = mutations j"
  by (auto simp: append_output_def Let_def split: option.splits sum.splits
      dest!: update_terminal_tables insert_chunks_tables)

lemma ack_output_tables:
  "map fst (terminals (snd (ack_output j t cursor))) = map fst (terminals j)
   \<and> inputs (snd (ack_output j t cursor)) = inputs j
   \<and> mutations (snd (ack_output j t cursor)) = mutations j"
  by (auto simp: ack_output_def Let_def split: option.splits sum.splits
      dest!: update_terminal_tables)

lemma update_or_not_found_tables:
  "map fst (terminals (snd (update_or_not_found j t f))) = map fst (terminals j)
   \<and> inputs (snd (update_or_not_found j t f)) = inputs j
   \<and> mutations (snd (update_or_not_found j t f)) = mutations j"
  by (auto simp: update_or_not_found_def split: sum.splits dest!: update_terminal_tables)

text \<open>The inputs table and the mutations table after one operation.\<close>

lemma inputs_journal_step:
  "inputs (journal_step c j op) =
     (case op of
        Do_BeginInput t i fp \<Rightarrow> inputs (snd (begin_input j t i fp))
      | Do_CompleteInput t i n \<Rightarrow> inputs (snd (complete_input j t i n))
      | Do_MarkInputUnknown t i \<Rightarrow> inputs (snd (mark_input_unknown j t i))
      | Do_Restart \<Rightarrow> map (\<lambda>(k, r). (k, lose_input r)) (inputs j)
      | _ \<Rightarrow> inputs j)"
  by (cases op)
     (simp_all add: begin_start_def set_running_def set_state_def update_state_def set_size_def
        begin_mutation_def complete_mutation_def reconcile_restart_def append_output_tables
        ack_output_tables update_or_not_found_tables Let_def split: option.splits)

lemma mutations_journal_step:
  "mutations (journal_step c j op) =
     (case op of
        Do_BeginMutation rid t kind fp \<Rightarrow> mutations (snd (begin_mutation (decode c) j rid t kind fp))
      | Do_CompleteMutation rid resp \<Rightarrow> mutations (snd (complete_mutation (encode c) j rid resp))
      | _ \<Rightarrow> mutations j)"
  by (cases op)
     (simp_all add: begin_start_def set_running_def set_state_def update_state_def set_size_def
        begin_input_def complete_input_def mark_input_unknown_def reconcile_restart_def
        append_output_tables ack_output_tables update_or_not_found_tables Let_def
        split: option.splits sum.splits)

lemma terminal_keys_journal_step:
  "map fst (terminals (journal_step c j op)) =
     (case op of
        Do_BeginStart t ws fp cols rows \<Rightarrow> map fst (terminals (snd (begin_start j t ws fp cols rows)))
      | _ \<Rightarrow> map fst (terminals j))"
  by (cases op)
     (simp_all add: set_running_def set_state_def update_state_def set_size_def
        begin_input_def complete_input_def mark_input_unknown_def begin_mutation_def
        complete_mutation_def reconcile_restart_def append_output_tables ack_output_tables
        update_or_not_found_tables comp_def case_prod_beta split: option.splits sum.splits)

lemma has_key_iff: "map_of tbl k \<noteq> None \<longleftrightarrow> k \<in> set (map fst tbl)"
  by (simp add: map_of_eq_None_iff)

subsection \<open>At most once\<close>

fun start_grant :: "journal \<Rightarrow> journal_op \<Rightarrow> uuid option" where
  "start_grant j (Do_BeginStart t ws fp cols rows) =
     (if fst (begin_start j t ws fp cols rows) = Inr Start_Execute then Some t else None)"
| "start_grant j _ = None"

fun input_grant :: "journal \<Rightarrow> journal_op \<Rightarrow> (uuid \<times> uuid) option" where
  "input_grant j (Do_BeginInput t i fp) =
     (if fst (begin_input j t i fp) = Inr Input_Execute then Some (t, i) else None)"
| "input_grant j _ = None"

fun mutation_grant :: "journal_codec \<Rightarrow> journal \<Rightarrow> journal_op \<Rightarrow> uuid option" where
  "mutation_grant c j (Do_BeginMutation rid t kind fp) =
     (if fst (begin_mutation (decode c) j rid t kind fp) = Inr Mutation_Execute then Some rid else None)"
| "mutation_grant c j _ = None"

interpretation starts: once_ledger "journal_step c" start_grant
  "\<lambda>j t. map_of (terminals j) t \<noteq> None" for c
proof
  fix j op t
  show "start_grant j op = Some t \<Longrightarrow> \<not> map_of (terminals j) t \<noteq> None"
    by (cases op; force simp: begin_start_def Let_def split: option.splits if_splits)
  show "start_grant j op = Some t \<Longrightarrow> map_of (terminals (journal_step c j op)) t \<noteq> None"
    unfolding has_key_iff
    by (cases op; force simp: begin_start_def Let_def split: option.splits if_splits)
  show "map_of (terminals j) t \<noteq> None \<Longrightarrow> map_of (terminals (journal_step c j op)) t \<noteq> None"
    unfolding has_key_iff terminal_keys_journal_step
    by (cases op) (auto simp: begin_start_def Let_def split: option.splits)
qed

interpretation ins: once_ledger "journal_step c" input_grant
  "\<lambda>j k. map_of (inputs j) k \<noteq> None" for c
proof
  fix j op k
  show "input_grant j op = Some k \<Longrightarrow> \<not> map_of (inputs j) k \<noteq> None"
    by (cases op; force simp: begin_input_def split: option.splits if_splits)
  show "input_grant j op = Some k \<Longrightarrow> map_of (inputs (journal_step c j op)) k \<noteq> None"
    unfolding has_key_iff
    by (cases op; force simp: begin_input_def split: option.splits if_splits)
  have keys: "set (map fst (map (\<lambda>(k, r). (k, lose_input r)) (inputs j))) = set (map fst (inputs j))"
    by force
  show "map_of (inputs j) k \<noteq> None \<Longrightarrow> map_of (inputs (journal_step c j op)) k \<noteq> None"
    unfolding has_key_iff inputs_journal_step using keys
    by (cases op) (simp_all add: begin_input_def complete_input_def mark_input_unknown_def
        del: set_map split: option.splits sum.splits)
qed

interpretation muts: once_ledger "journal_step c" "mutation_grant c"
  "\<lambda>j k. map_of (mutations j) k \<noteq> None" for c
proof
  fix j op k
  show "mutation_grant c j op = Some k \<Longrightarrow> \<not> map_of (mutations j) k \<noteq> None"
    by (cases op; force simp: begin_mutation_def split: option.splits if_splits)
  show "mutation_grant c j op = Some k \<Longrightarrow> map_of (mutations (journal_step c j op)) k \<noteq> None"
    unfolding has_key_iff
    by (cases op; force simp: begin_mutation_def split: option.splits if_splits)
  show "map_of (mutations j) k \<noteq> None \<Longrightarrow> map_of (mutations (journal_step c j op)) k \<noteq> None"
    unfolding has_key_iff mutations_journal_step
    by (cases op) (simp_all add: begin_mutation_def complete_mutation_def del: set_map
        split: option.splits)
qed

text \<open>
  Property C31: in any run of the journal, from any state and across restarts, each terminal
  start, each input and each mutation is handed out for execution at most once.
\<close>

theorem executed_at_most_once:
  "grant_count (journal_step c) start_grant t j ops \<le> 1
   \<and> grant_count (journal_step c) input_grant (t, i) j ops \<le> 1
   \<and> grant_count (journal_step c) (mutation_grant c) rid j ops \<le> 1"
  using starts.granted_at_most_once ins.granted_at_most_once muts.granted_at_most_once by blast

subsection \<open>The outcome of an input\<close>

text \<open>The first event that decides a pending input: a completion, with its count, or a loss.\<close>

fun input_outcome :: "uuid \<Rightarrow> uuid \<Rightarrow> journal_op list \<Rightarrow> nat option option" where
  "input_outcome t i [] = None"
| "input_outcome t i (op # ops) =
     (case op of
        Do_CompleteInput t' i' n \<Rightarrow>
          if t' = t \<and> i' = i \<and> n \<le> i64_max then Some (Some n) else input_outcome t i ops
      | Do_MarkInputUnknown t' i' \<Rightarrow>
          if t' = t \<and> i' = i then Some None else input_outcome t i ops
      | Do_Restart \<Rightarrow> Some None
      | _ \<Rightarrow> input_outcome t i ops)"

definition input_entry :: "fingerprint \<Rightarrow> nat option option \<Rightarrow> InputRow" where
  "input_entry fp out =
     (case out of
        None \<Rightarrow> \<lparr>in_fingerprint = fp, in_status = ''PENDING'', in_byte_count = None\<rparr>
      | Some None \<Rightarrow> \<lparr>in_fingerprint = fp, in_status = ''UNKNOWN'', in_byte_count = None\<rparr>
      | Some (Some n) \<Rightarrow> \<lparr>in_fingerprint = fp, in_status = ''APPLIED'', in_byte_count = Some (int n)\<rparr>)"

lemma input_entry_step:
  assumes "map_of (inputs j) (t, i) = Some (input_entry fp out)"
  shows "map_of (inputs (journal_step c j op)) (t, i) =
    Some (input_entry fp (case out of None \<Rightarrow> input_outcome t i [op] | Some x \<Rightarrow> Some x))"
  unfolding inputs_journal_step using assms
  by (cases op)
     (auto simp: begin_input_def complete_input_def mark_input_unknown_def map_of_update_key
        map_of_map_rows lose_input_def input_entry_def to_i64_def split: option.splits)

lemma input_outcome_Cons:
  "input_outcome t i (op # ops) =
     (case input_outcome t i [op] of None \<Rightarrow> input_outcome t i ops | Some x \<Rightarrow> Some x)"
  by (cases op) auto

lemma input_entry_run:
  "map_of (inputs j) (t, i) = Some (input_entry fp out) \<Longrightarrow>
     map_of (inputs (run_ops (journal_step c) j ops)) (t, i) =
       Some (input_entry fp (case out of None \<Rightarrow> input_outcome t i ops | Some x \<Rightarrow> Some x))"
proof (induction ops arbitrary: j out)
  case Nil
  then show ?case by (cases out) auto
next
  case (Cons op ops)
  from Cons.IH [OF input_entry_step [OF Cons.prems, of c op]] show ?case
    unfolding input_outcome_Cons [of t i op ops]
    by (cases out) (auto simp del: input_outcome.simps(2) split: option.splits)
qed

text \<open>
  Property: once an input has been handed out for execution, a repetition is refused when
  its fingerprint differs, answered with the byte count when the input was completed before
  anything else concerned it, and otherwise reported as of unknown outcome: while it is
  pending, and for ever after it was marked unknown or the daemon restarted.
\<close>

theorem input_outcome_decided:
  assumes "begin_input j t i fp = (Inr Input_Execute, j')"
  shows "fst (begin_input (run_ops (journal_step c) j' ops) t i fp') =
    (if fp' \<noteq> fp then Inl Je_Conflict
     else case input_outcome t i ops of
       Some (Some n) \<Rightarrow> Inr (Input_Applied n)
     | _ \<Rightarrow> Inl Je_OutcomeUnknown)"
proof -
  from assms have "map_of (inputs j') (t, i) = Some (input_entry fp None)"
    by (auto simp: begin_input_def input_entry_def map_of_snoc simp del: map_of_append
        split: option.splits if_splits)
  from input_entry_run [OF this, of c ops] show ?thesis
    by (auto simp: begin_input_def input_entry_def split: option.splits)
qed

theorem input_outcome_decided_witness:
  "fst (begin_input (journal_after no_codec
       [Do_BeginStart 1 2 ''f'' 80 24, Do_BeginInput 1 7 ''x'', Do_CompleteInput 1 7 5, Do_Restart]) 1 7 ''x'')
     = Inr (Input_Applied 5)"
proof -
  let ?j = "journal_after no_codec [Do_BeginStart 1 2 ''f'' 80 24]"
  have b: "begin_input ?j 1 7 ''x'' = (Inr Input_Execute, snd (begin_input ?j 1 7 ''x''))"
    by (simp add: journal_after_def open_new_def begin_start_def check_terminal_def begin_input_def)
  have "journal_after no_codec
      [Do_BeginStart 1 2 ''f'' 80 24, Do_BeginInput 1 7 ''x'', Do_CompleteInput 1 7 5, Do_Restart]
    = run_ops (journal_step no_codec) (snd (begin_input ?j 1 7 ''x'')) [Do_CompleteInput 1 7 5, Do_Restart]"
    by (simp add: journal_after_def)
  with input_outcome_decided [OF b, of no_codec "[Do_CompleteInput 1 7 5, Do_Restart]" "''x''"]
  show ?thesis by (simp add: i64_max_def)
qed

subsection \<open>The outcome of a mutation\<close>

fun mutation_outcome :: "journal_codec \<Rightarrow> uuid \<Rightarrow> journal_op list \<Rightarrow> string option" where
  "mutation_outcome c rid [] = None"
| "mutation_outcome c rid (op # ops) =
     (case op of
        Do_CompleteMutation rid' resp \<Rightarrow>
          if rid' = rid \<and> encode c resp \<noteq> None then encode c resp else mutation_outcome c rid ops
      | _ \<Rightarrow> mutation_outcome c rid ops)"

definition mutation_entry :: "uuid \<Rightarrow> string \<Rightarrow> fingerprint \<Rightarrow> string option \<Rightarrow> MutationRow" where
  "mutation_entry t kind fp out =
     \<lparr>mut_terminal = t, mut_kind = kind, mut_fingerprint = fp,
      mut_status = (if out = None then ''PENDING'' else ''COMPLETE''), mut_response = out\<rparr>"

lemma mutation_entry_run:
  "map_of (mutations j) rid = Some (mutation_entry t kind fp out) \<Longrightarrow>
     map_of (mutations (run_ops (journal_step c) j ops)) rid =
       Some (mutation_entry t kind fp (case out of None \<Rightarrow> mutation_outcome c rid ops | Some x \<Rightarrow> Some x))"
proof (induction ops arbitrary: j out)
  case Nil
  then show ?case by (cases out) auto
next
  case (Cons op ops)
  have "map_of (mutations (journal_step c j op)) rid =
    Some (mutation_entry t kind fp (case out of None \<Rightarrow> mutation_outcome c rid [op] | Some x \<Rightarrow> Some x))"
    unfolding mutations_journal_step using Cons.prems
    by (cases op) (auto simp: begin_mutation_def complete_mutation_def map_of_update_key
        mutation_entry_def split: option.splits)
  from Cons.IH [OF this] show ?case
    by (cases out; cases op) (auto split: option.splits)
qed

text \<open>
  Property: once a mutation has been handed out for execution, a repetition with another
  terminal, kind or fingerprint is a conflict; the same request is of unknown outcome until a
  response that encodes is recorded, and from then on answered with the first such response.
\<close>

theorem mutation_outcome_decided:
  assumes "begin_mutation (decode c) j rid t kind fp = (Inr Mutation_Execute, j')"
    and codec: "\<And>resp bytes. encode c resp = Some bytes \<Longrightarrow> decode c bytes = Some resp"
  shows "fst (begin_mutation (decode c) (run_ops (journal_step c) j' ops) rid t' kind' fp') =
    (if (t', kind', fp') \<noteq> (t, kind, fp) then Inl Je_Conflict
     else case mutation_outcome c rid ops of
       None \<Rightarrow> Inl Je_OutcomeUnknown
     | Some bytes \<Rightarrow> Inr (Mutation_Cached (the (decode c bytes))))"
proof -
  from assms(1) have "map_of (mutations j') rid = Some (mutation_entry t kind fp None)"
    by (auto simp: begin_mutation_def mutation_entry_def map_of_snoc simp del: map_of_append
        split: option.splits if_splits)
  note run = mutation_entry_run [OF this, of c ops]
  have "\<exists>resp. decode c bytes = Some resp" if "mutation_outcome c rid ops = Some bytes" for bytes
    using that by (induction ops) (auto dest: codec split: journal_op.splits if_splits)
  with run show ?thesis
    by (auto simp: begin_mutation_def mutation_entry_def split: option.splits)
qed

definition sample_response :: ResponseEnvelope where
  "sample_response =
     \<lparr>resp_version = 2, resp_request_id = 9, resp_result = Inr Res_Terminated\<rparr>"

definition sample_codec :: journal_codec where
  "sample_codec =
     \<lparr>encode = \<lambda>r. if r = sample_response then Some ''ok'' else None,
      decode = \<lambda>b. if b = ''ok'' then Some sample_response else None\<rparr>"

theorem mutation_outcome_decided_witness:
  "fst (begin_mutation (decode sample_codec) (journal_after sample_codec
       [Do_BeginMutation 9 1 ''terminate'' ''x'', Do_CompleteMutation 9 sample_response, Do_Restart])
       9 1 ''terminate'' ''x'') = Inr (Mutation_Cached sample_response)"
proof -
  let ?ops = "[Do_CompleteMutation 9 sample_response, Do_Restart]"
  have b: "begin_mutation (decode sample_codec) open_new 9 1 ''terminate'' ''x''
      = (Inr Mutation_Execute, snd (begin_mutation (decode sample_codec) open_new 9 1 ''terminate'' ''x''))"
    by (simp add: begin_mutation_def open_new_def)
  have codec: "encode sample_codec r = Some bytes \<Longrightarrow> decode sample_codec bytes = Some r" for r bytes
    by (auto simp: sample_codec_def split: if_splits)
  have after_begin: "journal_after sample_codec (Do_BeginMutation 9 1 ''terminate'' ''x'' # ?ops)
    = run_ops (journal_step sample_codec)
        (snd (begin_mutation (decode sample_codec) open_new 9 1 ''terminate'' ''x'')) ?ops"
    by (simp add: journal_after_def)
  have "mutation_outcome sample_codec 9 ?ops = Some ''ok''" by (simp add: sample_codec_def)
  with mutation_outcome_decided [OF b codec, of ?ops 1 "''terminate''" "''x''"]
  show ?thesis unfolding after_begin by (simp add: sample_codec_def)
qed

subsection \<open>Recovery\<close>

definition live :: "TerminalState \<Rightarrow> bool" where
  "live st \<longleftrightarrow> st \<in> {TS_Running, TS_Terminating, TS_Unrecoverable}"

definition lost_record :: "TerminalRecord \<Rightarrow> TerminalRecord" where
  "lost_record rcd =
     (if live (rec_state rcd)
      then rcd\<lparr>rec_state := TS_Lost, rec_reason := Some ''daemon_restart_pty_lost'',
              rec_output_complete := False\<rparr>
      else rcd)"

lemma live_state_parse: "parse_state s = Inr st \<Longrightarrow> live_state s \<longleftrightarrow> live st"
  by (auto simp: parse_state_def live_state_def live_def split: if_splits)

lemma parse_state_LOST [simp]: "parse_state ''LOST'' = Inr TS_Lost"
  by (simp add: parse_state_def)

lemma run_terminal_keys_distinct:
  "distinct (map fst (terminals j)) \<Longrightarrow>
     distinct (map fst (terminals (run_ops (journal_step c) j ops)))"
proof (induction ops arbitrary: j)
  case (Cons op ops)
  have "distinct (map fst (terminals (journal_step c j op)))"
    unfolding terminal_keys_journal_step using Cons.prems
    by (cases op) (auto simp: begin_start_def Let_def map_of_eq_None_iff split: option.splits)
  with Cons.IH show ?case by simp
qed simp

lemma query_record_Some:
  "map_of (terminals j) t = Some r \<Longrightarrow> query_record j t = Inr rcd \<Longrightarrow>
     parse_state (row_state r) = Inr (rec_state rcd)"
  by (auto simp: query_record_def)

lemma inspect_after_restart:
  "inspect (snd (reconcile_restart j)) t = map_sum id lost_record (inspect j t)"
proof (cases "map_of (terminals j) t")
  case None
  then show ?thesis by (simp add: inspect_def query_record_def reconcile_restart_def map_of_map_rows)
next
  case (Some r)
  have row: "map_of (terminals (snd (reconcile_restart j))) t = Some (lose_terminal r)"
    using Some by (simp add: reconcile_restart_def map_of_map_rows)
  show ?thesis
  proof (cases "parse_state (row_state r)")
    case (Inl e)
    then have "\<not> live_state (row_state r)" by (auto simp: parse_state_def live_state_def split: if_splits)
    with Inl Some row show ?thesis by (simp add: inspect_def query_record_def lose_terminal_def)
  next
    case (Inr st)
    note live = live_state_parse [OF Inr]
    show ?thesis
      unfolding inspect_def query_record_def Some row option.case
      by (cases "live_state (row_state r)")
         (simp_all add: Inr lose_terminal_def live [symmetric] lost_record_def to_u16_def to_u64_def
            live [unfolded live_def])
  qed
qed

definition read_window :: "OutputRead \<Rightarrow> nat \<times> nat \<times> string" where
  "read_window out = (read_start_cursor out, read_next_cursor out, read_bytes out)"

lemma read_spec_window:
  "read_spec la after max_bytes res \<Longrightarrow> map_sum id read_window res =
     (case la of
        None \<Rightarrow> Inl Je_NotFound
      | Some a \<Rightarrow>
          if after > length (log a) then Inl Je_Conflict
          else Inr (max after (acked a), max after (acked a) + length (log_read after max_bytes a),
                    log_read after max_bytes a))"
  by (auto simp: read_spec_def read_window_def split: option.splits sum.splits if_splits)

lemma read_after_restart:
  assumes "refines j A"
  shows "map_sum id read_window (read_output (snd (reconcile_restart j)) t after max_bytes)
    = map_sum id read_window (read_output j t after max_bytes)"
  unfolding read_spec_window [OF read_output_spec [OF assms]]
    read_spec_window [OF read_output_spec [OF restart_refines [OF assms]]]
  by (cases "A t") (simp_all add: log_read_def)

text \<open>
  Property: at any point, a restart returns exactly the terminals that were running,
  terminating or unrecoverable; each of them is then reported lost, with an incomplete log,
  every other record is unchanged, and every read of the output returns what it returned
  before.
\<close>

theorem restart_reconciles:
  "\<exists>lost. fst (reconcile_restart (journal_after c ops)) = Inr lost
     \<and> (t \<in> set lost \<longleftrightarrow>
          (case inspect (journal_after c ops) t of Inl e \<Rightarrow> False | Inr rcd \<Rightarrow> live (rec_state rcd)))
     \<and> inspect (journal_after c (ops @ [Do_Restart])) t
         = map_sum id lost_record (inspect (journal_after c ops) t)
     \<and> map_sum id read_window (read_output (journal_after c (ops @ [Do_Restart])) t after max_bytes)
         = map_sum id read_window (read_output (journal_after c ops) t after max_bytes)"
proof -
  let ?j = "journal_after c ops"
  have step: "journal_after c (ops @ [Do_Restart]) = snd (reconcile_restart ?j)"
    by (simp add: journal_after_def run_ops_append)
  have ref: "refines ?j (logs_after ops)" by (rule journal_after_refines)
  have dist: "distinct (map fst (terminals ?j))"
    unfolding journal_after_def by (rule run_terminal_keys_distinct) (simp add: open_new_def)
  let ?lost = "map fst (filter (\<lambda>(_, r). live_state (row_state r)) (terminals ?j))"
  have "t \<in> set ?lost \<longleftrightarrow> (\<exists>r. map_of (terminals ?j) t = Some r \<and> live_state (row_state r))"
    using dist by force
  also have "\<dots> \<longleftrightarrow> (case inspect ?j t of Inl e \<Rightarrow> False | Inr rcd \<Rightarrow> live (rec_state rcd))"
  proof (rule refines_row [OF ref, of t])
    assume "map_of (terminals ?j) t = None"
    then show ?thesis by (simp add: inspect_def query_record_def)
  next
    fix r a
    assume r: "map_of (terminals ?j) t = Some r" and tr: "tracks (terminal_chunks ?j t) r a"
    from query_record_tracks [OF r tr] obtain rcd where rcd: "query_record ?j t = Inr rcd" by auto
    with live_state_parse [OF query_record_Some [OF r rcd]] r show ?thesis
      by (simp add: inspect_def)
  qed
  finally show ?thesis
    unfolding step using inspect_after_restart read_after_restart [OF ref]
    by (intro exI [of _ ?lost]) (simp add: reconcile_restart_def)
qed

definition same_status :: "TerminalRow \<Rightarrow> TerminalRow \<Rightarrow> bool" where
  "same_status r r' \<longleftrightarrow> row_state r' = row_state r \<and> row_exit_code r' = row_exit_code r
     \<and> row_reason r' = row_reason r \<and> row_workspace r' = row_workspace r"

definition keeps_status :: "uuid \<Rightarrow> journal \<Rightarrow> journal \<Rightarrow> bool" where
  "keeps_status t j j' \<longleftrightarrow>
     (\<forall>r. map_of (terminals j) t = Some r \<longrightarrow>
        (\<exists>r'. map_of (terminals j') t = Some r' \<and> same_status r r'))"

lemma keeps_status_refl: "terminals j' = terminals j \<Longrightarrow> keeps_status t j j'"
  by (auto simp: keeps_status_def same_status_def)

lemma keeps_status_trans: "keeps_status t j k \<Longrightarrow> keeps_status t k l \<Longrightarrow> keeps_status t j l"
  unfolding keeps_status_def same_status_def by metis

lemma update_terminal_status:
  "update_terminal j u f = Inr (n, j') \<Longrightarrow> (\<And>r. same_status r (f r)) \<Longrightarrow> keeps_status t j j'"
  by (auto simp: update_terminal_def keeps_status_def map_of_update_key same_status_def
      split: option.splits if_splits)

lemma append_keeps_status: "keeps_status t j (snd (append_output j u bytes))"
proof -
  have upd: "update_terminal k u f = Inr (n, j') \<Longrightarrow> terminals k = terminals j \<Longrightarrow>
      (\<And>r. same_status r (f r)) \<Longrightarrow> keeps_status t j j'" for k f n j'
    using update_terminal_status keeps_status_trans [of t j k j'] keeps_status_refl [of k j] by blast
  show ?thesis
    by (auto simp: append_output_def Let_def keeps_status_refl split: option.splits sum.splits
        dest!: insert_chunks_tables intro: upd simp: same_status_def)
qed

lemma ack_keeps_status: "keeps_status t j (snd (ack_output j u cursor))"
proof -
  have upd: "update_terminal (j\<lparr>chunks := cs\<rparr>) u f = Inr (n, j') \<Longrightarrow>
      (\<And>r. same_status r (f r)) \<Longrightarrow> keeps_status t j j'" for cs f n j'
    using update_terminal_status [of "j\<lparr>chunks := cs\<rparr>" u f n j' t]
      keeps_status_trans [of t j "j\<lparr>chunks := cs\<rparr>" j'] keeps_status_refl [of "j\<lparr>chunks := cs\<rparr>" j]
    by simp
  show ?thesis
    by (auto simp: ack_output_def Let_def keeps_status_refl split: option.splits sum.splits
        intro: upd simp: same_status_def)
qed

lemma update_or_not_found_keeps_status:
  "t \<noteq> u \<or> (\<forall>r. same_status r (f r)) \<Longrightarrow> keeps_status t j (snd (update_or_not_found j u f))"
  by (auto simp: update_or_not_found_def update_terminal_def keeps_status_def map_of_update_key
      same_status_def split: option.splits)

text \<open>An operation that does not set the state keeps the status of a terminal that is not live.\<close>

lemma dead_step:
  assumes r: "map_of (terminals j) t = Some r" and dead: "\<not> live_state (row_state r)"
    and op: "\<And>st code reason complete. op \<noteq> Do_SetState t st code reason complete"
  shows "keeps_status t j (journal_step c j op)"
proof (cases op)
  case (Do_BeginStart u ws fp cols rows)
  with r show ?thesis
    by (auto simp: begin_start_def Let_def keeps_status_def same_status_def map_of_snoc
        simp del: map_of_append split: option.splits)
next
  case (Do_SetRunning u)
  with r dead show ?thesis
    by (auto simp: set_running_def keeps_status_def same_status_def map_of_update_key live_state_def
        split: option.splits)
next
  case (Do_SetState u st code reason complete)
  with op have "t \<noteq> u" by auto
  with Do_SetState show ?thesis
    by (simp add: set_state_def update_state_def update_or_not_found_keeps_status)
next
  case (Do_SetSize u cols rows)
  then show ?thesis
    by (auto simp: set_size_def same_status_def intro: update_or_not_found_keeps_status)
next
  case Do_Restart
  with r dead show ?thesis
    by (auto simp: reconcile_restart_def keeps_status_def same_status_def map_of_map_rows
        lose_terminal_def)
qed (simp_all add: append_keeps_status ack_keeps_status keeps_status_refl begin_input_def
    complete_input_def mark_input_unknown_def begin_mutation_def complete_mutation_def
    split: option.splits sum.splits)

lemma dead_run:
  assumes "map_of (terminals j) t = Some r" and "\<not> live_state (row_state r)"
    and "\<And>op st code reason complete. op \<in> set ops \<Longrightarrow> op \<noteq> Do_SetState t st code reason complete"
  shows "\<exists>r'. map_of (terminals (run_ops (journal_step c) j ops)) t = Some r' \<and> same_status r r'"
  using assms
proof (induction ops arbitrary: j r)
  case Nil
  then show ?case by (simp add: same_status_def)
next
  case (Cons op ops)
  have "keeps_status t j (journal_step c j op)"
    using Cons.prems(3) by (intro dead_step [OF Cons.prems(1,2)]) simp
  then obtain r1 where r1: "map_of (terminals (journal_step c j op)) t = Some r1" "same_status r r1"
    using Cons.prems(1) by (auto simp: keeps_status_def)
  moreover have "\<not> live_state (row_state r1)" using r1(2) Cons.prems(2) by (simp add: same_status_def)
  ultimately obtain r' where "map_of (terminals (run_ops (journal_step c) (journal_step c j op) ops)) t
      = Some r'" "same_status r1 r'"
    using Cons.IH Cons.prems(3) by fastforce
  with r1(2) show ?case by (auto simp: same_status_def)
qed

text \<open>
  Property: a terminal that is no longer live stays as it is, whatever operations follow,
  until its state is set explicitly: neither \<open>set_running\<close>, nor output, nor a restart
  revives it.
\<close>

theorem dead_terminals_stay_dead:
  assumes "inspect (journal_after c ops) t = Inr rcd" and "\<not> live (rec_state rcd)"
    and "\<And>op st code reason complete. op \<in> set later \<Longrightarrow> op \<noteq> Do_SetState t st code reason complete"
  shows "\<exists>rcd'. inspect (journal_after c (ops @ later)) t = Inr rcd'
     \<and> rec_state rcd' = rec_state rcd \<and> rec_exit_code rcd' = rec_exit_code rcd
     \<and> rec_reason rcd' = rec_reason rcd \<and> rec_workspace_id rcd' = rec_workspace_id rcd"
proof -
  let ?j = "journal_after c ops" and ?k = "journal_after c (ops @ later)"
  have q: "query_record ?j t = Inr rcd" using assms(1) by (simp add: inspect_def)
  then obtain r where r: "map_of (terminals ?j) t = Some r"
    by (auto simp: query_record_def split: option.splits)
  note st = query_record_Some [OF r q]
  have "\<not> live_state (row_state r)" using live_state_parse [OF st] assms(2) by simp
  from dead_run [where c = c and ops = later, OF r this assms(3)]
  obtain r' where r': "map_of (terminals ?k) t = Some r'" "same_status r r'"
    by (auto simp: journal_after_def run_ops_append)
  have "refines ?k (logs_after (ops @ later))" by (rule journal_after_refines)
  then obtain a where "tracks (terminal_chunks ?k t) r' a"
    using r'(1) by (cases rule: refines_row [where t = t]) auto
  from query_record_tracks [OF r'(1) this] obtain rcd' where q': "query_record ?k t = Inr rcd'" by auto
  have "rec_state rcd' = rec_state rcd"
    using st query_record_Some [OF r'(1) q'] r'(2) by (simp add: same_status_def)
  with q q' r r' show ?thesis
    by (auto simp: inspect_def query_record_def same_status_def)
qed

theorem dead_terminals_stay_dead_witness:
  "\<exists>rcd'. inspect (journal_after no_codec
       ([Do_BeginStart 1 2 ''f'' 80 24, Do_SetState 1 TS_Exited (Some 3) None None]
        @ [Do_SetRunning 1, Do_Restart, Do_Append 1 ''late''])) 1 = Inr rcd'
     \<and> rec_state rcd' = TS_Exited \<and> rec_exit_code rcd' = Some 3"
proof -
  let ?ops = "[Do_BeginStart 1 2 ''f'' 80 24, Do_SetState 1 TS_Exited (Some 3) None None]"
  have "\<exists>rcd. inspect (journal_after no_codec ?ops) 1 = Inr rcd \<and> rec_state rcd = TS_Exited
      \<and> rec_exit_code rcd = Some 3"
    by (simp add: journal_after_def open_new_def begin_start_def check_terminal_def set_state_def
        update_state_def update_or_not_found_def update_terminal_def update_key_def inspect_def
        query_record_def parse_state_def to_u16_def to_u64_def)
  then obtain rcd where rcd: "inspect (journal_after no_codec ?ops) 1 = Inr rcd"
    "rec_state rcd = TS_Exited" "rec_exit_code rcd = Some 3" by auto
  from dead_terminals_stay_dead [OF rcd(1), of "[Do_SetRunning 1, Do_Restart, Do_Append 1 ''late'']"] rcd(2,3)
  show ?thesis by (auto simp: live_def)
qed

end
