(* ===== verification/Hash_Table.thy ===== *)
theory Hash_Table
  imports Rust_Std
begin

section \<open>Hash maps as association lists\<close>

text \<open>
  A \<open>HashMap\<close> is an association list with distinct keys.  \<open>remove_key\<close> is its
  \<open>remove\<close>, \<open>set_entry\<close> an assignment through \<open>get_mut\<close>, \<open>table_insert\<close> its
  \<open>insert\<close>, which replaces the value of a key that is there.
\<close>

definition remove_key :: "'k \<Rightarrow> ('k \<times> 'v) list \<Rightarrow> ('k \<times> 'v) list" where
  "remove_key k es = filter (\<lambda>(i, _). i \<noteq> k) es"

definition set_entry :: "'k \<Rightarrow> 'v \<Rightarrow> ('k \<times> 'v) list \<Rightarrow> ('k \<times> 'v) list" where
  "set_entry k v es = map (\<lambda>(i, x). if i = k then (i, v) else (i, x)) es"

definition table_insert :: "'k \<Rightarrow> 'v \<Rightarrow> ('k \<times> 'v) list \<Rightarrow> ('k \<times> 'v) list" where
  "table_insert k v es = (if map_of es k = None then es @ [(k, v)] else set_entry k v es)"

lemma map_of_set_entry:
  "map_of (set_entry k v es) k' =
     (if k' = k then map_option (\<lambda>_. v) (map_of es k) else map_of es k')"
  by (induction es) (auto simp: set_entry_def)

lemma keys_set_entry [simp]: "map fst (set_entry k v es) = map fst es"
  by (induction es) (auto simp: set_entry_def)

lemma map_of_remove_key: "map_of (remove_key k es) k' = (if k' = k then None else map_of es k')"
  by (induction es) (auto simp: remove_key_def)

lemma keys_remove_key [simp]: "map fst (remove_key k es) = filter (\<lambda>i. i \<noteq> k) (map fst es)"
  by (induction es) (auto simp: remove_key_def)

lemma map_of_append_new:
  "map_of es k = None \<Longrightarrow> map_of (es @ [(k, v)]) = (map_of es)(k \<mapsto> v)"
  by (auto simp: fun_eq_iff map_add_def split: option.splits)

lemma map_of_table_insert [simp]: "map_of (table_insert k v es) = (map_of es)(k \<mapsto> v)"
  by (cases "map_of es k = None")
     (simp_all add: table_insert_def map_of_append_new map_of_set_entry fun_eq_iff del: map_of_append)

lemma keys_table_insert:
  "map fst (table_insert k v es) = (if map_of es k = None then map fst es @ [k] else map fst es)"
  by (simp add: table_insert_def)

lemma distinct_table_insert:
  "distinct (map fst es) \<Longrightarrow> distinct (map fst (table_insert k v es))"
  unfolding keys_table_insert by (auto simp: map_of_eq_None_iff)

lemma distinct_remove_key: "distinct (map fst es) \<Longrightarrow> distinct (map fst (remove_key k es))"
  unfolding keys_remove_key by simp

lemma map_of_remove_key_fun: "map_of (remove_key k es) = (map_of es)(k := None)"
  by (simp add: fun_eq_iff map_of_remove_key)

lemma map_of_filter_key:
  "map_of (filter (\<lambda>(k, v). P k) es) k = (if P k then map_of es k else None)"
  by (induction es) auto

lemma distinct_filter_keys: "distinct (map fst es) \<Longrightarrow> distinct (map fst (filter P es))"
  by (induction es) auto

lemma filter_remove_key: "filter P (remove_key k es) = remove_key k (filter P es)"
  by (induction es) (auto simp: remove_key_def)

lemma remove_key_absent: "map_of es k = None \<Longrightarrow> remove_key k es = es"
  unfolding remove_key_def by (rule filter_True) (force simp: map_of_eq_None_iff)

lemma length_filter_remove_key:
  assumes "distinct (map fst es)" and "map_of es k = Some v"
  shows "length (filter P es) = length (filter P (remove_key k es)) + (if P (k, v) then 1 else 0)"
  using assms
proof (induction es)
  case (Cons x es)
  obtain i u where x: "x = (i, u)" by (cases x)
  show ?case
  proof (cases "i = k")
    case True
    with Cons.prems x have "map_of es k = None" "u = v"
      by (auto simp: map_of_eq_None_iff)
    then have "remove_key k (x # es) = es"
      using True x remove_key_absent [of es k] by (simp add: remove_key_def)
    with True x \<open>u = v\<close> show ?thesis by simp
  next
    case False
    with Cons x have "length (filter P es) = length (filter P (remove_key k es)) + (if P (k, v) then 1 else 0)"
      by simp
    moreover have "remove_key k (x # es) = x # remove_key k es"
      using False x by (simp add: remove_key_def)
    ultimately show ?thesis by simp
  qed
qed simp

lemma length_remove_key:
  "distinct (map fst es) \<Longrightarrow> map_of es k = Some v \<Longrightarrow> length es = Suc (length (remove_key k es))"
  using length_filter_remove_key [of es k v "\<lambda>_. True"] by simp

end
