(* ===== verification/Replay_Cache.thy ===== *)
theory Replay_Cache
  imports Sandbox State_Machine Hash_Table
begin

section \<open>The replay cache (\<open>replay.rs\<close>)\<close>

text \<open>
  The bounded, process-local replay cache of \<open>crates/gobrowse-sandboxd/src/replay.rs\<close>.
  Every operation holds the mutex, so each is one step.  A \<open>HashMap\<close> is an association
  list with distinct keys; an \<open>Arc<Notify>\<close> is its number, taken from a counter when
  \<open>Arc::new\<close> makes a new one; \<open>complete\<close> returns the notification it wakes.
\<close>

type_synonym replay_fingerprint = string

datatype ReplayState = Pending nat | Complete ResponseEnvelope

record ReplayEntry =
  entry_fingerprint :: replay_fingerprint
  entry_state :: ReplayState

datatype ReplayDecision = Execute | Cached ResponseEnvelope | Wait nat | Conflict | Full

record ReplayCache =
  capacity :: nat
  entries :: "(uuid \<times> ReplayEntry) list"
  order :: "uuid list"
  next_notify :: nat

definition new_cache :: "nat \<Rightarrow> ReplayCache option" where
  "new_cache cap =
     (if cap > 0 then Some \<lparr>capacity = cap, entries = [], order = [], next_notify = 0\<rparr> else None)"

definition is_complete_id :: "(uuid \<times> ReplayEntry) list \<Rightarrow> uuid \<Rightarrow> bool" where
  "is_complete_id es candidate =
     (case map_of es candidate of
        None \<Rightarrow> False
      | Some e \<Rightarrow> (case entry_state e of Complete _ \<Rightarrow> True | Pending _ \<Rightarrow> False))"

text \<open>Making room: the oldest completed entry goes, if there is one.\<close>

definition evict :: "ReplayCache \<Rightarrow> ReplayCache option" where
  "evict c =
     (case find_index (is_complete_id (entries c)) (order c) of
        None \<Rightarrow> None
      | Some index \<Rightarrow>
          let evicted = order c ! index
          in Some (c\<lparr>order := take index (order c) @ drop (Suc index) (order c),
                     entries := remove_key evicted (entries c)\<rparr>))"

definition insert_pending :: "ReplayCache \<Rightarrow> uuid \<Rightarrow> replay_fingerprint \<Rightarrow> ReplayCache" where
  "insert_pending c rid fp =
     c\<lparr>entries := entries c @ [(rid, \<lparr>entry_fingerprint = fp, entry_state = Pending (next_notify c)\<rparr>)],
       order := order c @ [rid],
       next_notify := Suc (next_notify c)\<rparr>"

definition begin_request ::
  "ReplayCache \<Rightarrow> uuid \<Rightarrow> replay_fingerprint \<Rightarrow> ReplayDecision \<times> ReplayCache" where
  "begin_request c rid fp =
     (case map_of (entries c) rid of
        Some e \<Rightarrow>
          if entry_fingerprint e \<noteq> fp then (Conflict, c)
          else (case entry_state e of Pending n \<Rightarrow> (Wait n, c) | Complete resp \<Rightarrow> (Cached resp, c))
      | None \<Rightarrow>
          if length (entries c) = capacity c
          then (case evict c of
                  None \<Rightarrow> (Full, c)
                | Some c' \<Rightarrow> (Execute, insert_pending c' rid fp))
          else (Execute, insert_pending c rid fp))"

definition complete_request ::
  "ReplayCache \<Rightarrow> uuid \<Rightarrow> replay_fingerprint \<Rightarrow> ResponseEnvelope \<Rightarrow> nat option \<times> ReplayCache" where
  "complete_request c rid fp resp =
     (case map_of (entries c) rid of
        None \<Rightarrow> (None, c)
      | Some e \<Rightarrow>
          if entry_fingerprint e \<noteq> fp then (None, c)
          else (case entry_state e of
                  Complete _ \<Rightarrow> (None, c)
                | Pending n \<Rightarrow>
                    (Some n, c\<lparr>entries := set_entry rid (e\<lparr>entry_state := Complete resp\<rparr>) (entries c)\<rparr>)))"

datatype replay_op =
    Rp_Begin uuid replay_fingerprint
  | Rp_Complete uuid replay_fingerprint ResponseEnvelope

fun replay_step :: "ReplayCache \<Rightarrow> replay_op \<Rightarrow> ReplayCache" where
  "replay_step c (Rp_Begin rid fp) = snd (begin_request c rid fp)"
| "replay_step c (Rp_Complete rid fp resp) = snd (complete_request c rid fp resp)"

subsection \<open>The invariant\<close>

definition replay_inv :: "ReplayCache \<Rightarrow> bool" where
  "replay_inv c \<longleftrightarrow>
     distinct (map fst (entries c)) \<and> distinct (order c)
     \<and> set (order c) = set (map fst (entries c))
     \<and> 0 < capacity c \<and> length (entries c) \<le> capacity c
     \<and> (\<forall>(rid, e) \<in> set (entries c). \<forall>n. entry_state e = Pending n \<longrightarrow> n < next_notify c)"

lemma filter_remove_nth:
  "distinct xs \<Longrightarrow> i < length xs \<Longrightarrow>
     filter (\<lambda>x. x \<noteq> xs ! i) xs = take i xs @ drop (Suc i) xs"
proof (induction xs arbitrary: i)
  case (Cons x xs)
  show ?case
  proof (cases i)
    case 0
    have "filter (\<lambda>y. y \<noteq> x) xs = xs" using Cons.prems(1) by (intro filter_True) auto
    with 0 show ?thesis by simp
  next
    case (Suc k)
    with Cons show ?thesis by auto
  qed
qed simp

lemma evict_Some:
  assumes "evict c = Some c'" and "distinct (order c)"
  shows "\<exists>k. k \<in> set (order c) \<and> is_complete_id (entries c) k
     \<and> entries c' = remove_key k (entries c) \<and> order c' = filter (\<lambda>i. i \<noteq> k) (order c)
     \<and> capacity c' = capacity c \<and> next_notify c' = next_notify c"
proof -
  from assms obtain index where i: "find_index (is_complete_id (entries c)) (order c) = Some index"
    "c' = c\<lparr>order := take index (order c) @ drop (Suc index) (order c),
            entries := remove_key (order c ! index) (entries c)\<rparr>"
    by (auto simp: evict_def Let_def split: option.splits)
  note f = find_index_Some [OF i(1)]
  with i(2) assms(2) show ?thesis
    by (intro exI [of _ "order c ! index"]) (simp add: filter_remove_nth)
qed

lemma evict_None:
  "evict c = None \<longleftrightarrow> (\<forall>k \<in> set (order c). \<not> is_complete_id (entries c) k)"
proof -
  have "evict c = None \<longleftrightarrow> find_index (is_complete_id (entries c)) (order c) = None"
    by (auto simp: evict_def Let_def split: option.splits)
  then show ?thesis by (simp add: find_index_None)
qed

lemma insert_pending_inv:
  assumes "replay_inv c" and "map_of (entries c) rid = None" and "length (entries c) < capacity c"
  shows "replay_inv (insert_pending c rid fp)"
  using assms
  by (fastforce simp: replay_inv_def insert_pending_def map_of_eq_None_iff less_Suc_eq)

lemma evict_inv:
  assumes inv: "replay_inv c" and "evict c = Some c'"
  shows "replay_inv c' \<and> length (entries c') < capacity c'"
proof -
  have "distinct (order c)" using inv by (simp add: replay_inv_def)
  then obtain k where k: "k \<in> set (order c)" "entries c' = remove_key k (entries c)"
    "order c' = filter (\<lambda>i. i \<noteq> k) (order c)"
    "capacity c' = capacity c" "next_notify c' = next_notify c"
    using evict_Some [OF assms(2)] by blast
  have "k \<in> set (map fst (entries c))" using inv k(1) by (simp add: replay_inv_def)
  then obtain v where "(k, v) \<in> set (entries c)" by auto
  then have "length (entries c') < length (entries c)"
    unfolding k(2) remove_key_def by (intro length_filter_less) auto
  moreover have "distinct (map fst (entries c'))"
    using inv unfolding k(2) keys_remove_key by (simp add: replay_inv_def)
  moreover have "set (order c') = set (map fst (entries c'))"
    using inv unfolding k(2,3) keys_remove_key by (simp add: replay_inv_def)
  ultimately show ?thesis using inv k by (auto simp: replay_inv_def remove_key_def)
qed

lemma begin_inv: "replay_inv c \<Longrightarrow> replay_inv (snd (begin_request c rid fp))"
proof -
  assume inv: "replay_inv c"
  show ?thesis
  proof (cases "map_of (entries c) rid")
    case None
    show ?thesis
    proof (cases "length (entries c) = capacity c")
      case True
      show ?thesis
      proof (cases "evict c")
        case (Some c')
        have "map_of (entries c') rid = None"
          using evict_Some [OF Some] inv None by (auto simp: replay_inv_def map_of_remove_key)
        with evict_inv [OF inv Some] have "replay_inv (insert_pending c' rid fp)"
          by (intro insert_pending_inv) auto
        with None True Some show ?thesis by (simp add: begin_request_def)
      qed (use inv None True in \<open>simp add: begin_request_def\<close>)
    next
      case False
      with inv have "length (entries c) < capacity c" by (simp add: replay_inv_def)
      with inv None False show ?thesis by (simp add: begin_request_def insert_pending_inv)
    qed
  qed (use inv in \<open>simp add: begin_request_def split: ReplayState.split\<close>)
qed

lemma complete_inv: "replay_inv c \<Longrightarrow> replay_inv (snd (complete_request c rid fp resp))"
proof (cases "map_of (entries c) rid")
  case (Some e)
  assume inv: "replay_inv c"
  have "\<forall>(i, x) \<in> set (set_entry rid (e\<lparr>entry_state := Complete resp\<rparr>) (entries c)).
      \<forall>n. entry_state x = Pending n \<longrightarrow> n < next_notify c"
    using inv by (auto simp: replay_inv_def set_entry_def split: if_splits)
  moreover have "length (set_entry rid v (entries c)) = length (entries c)" for v
    by (simp add: set_entry_def)
  ultimately show ?thesis
    using inv Some keys_set_entry
    by (simp add: complete_request_def replay_inv_def del: set_map split: ReplayState.split)
qed (simp add: complete_request_def)

lemma replay_step_inv: "replay_inv c \<Longrightarrow> replay_inv (replay_step c op)"
  by (cases op) (simp_all add: begin_inv complete_inv)

definition replay_init :: "nat \<Rightarrow> ReplayCache \<Rightarrow> bool" where
  "replay_init cap c \<longleftrightarrow> new_cache cap = Some c"

definition replay_rel :: "ReplayCache \<Rightarrow> ReplayCache \<Rightarrow> bool" where
  "replay_rel c c' \<longleftrightarrow> (\<exists>op. c' = replay_step c op)"

interpretation cache: invariant_system "replay_init cap" replay_rel replay_inv for cap
proof
  show "replay_init cap c \<Longrightarrow> replay_inv c" for c
    by (auto simp: replay_init_def new_cache_def replay_inv_def split: if_splits)
  show "replay_rel c c' \<Longrightarrow> replay_inv c \<Longrightarrow> replay_inv c'" for c c'
    by (auto simp: replay_rel_def replay_step_inv)
qed

lemma capacity_step: "capacity (replay_step c op) = capacity c"
proof (cases op)
  case (Rp_Begin rid fp)
  then show ?thesis
    by (auto simp: begin_request_def insert_pending_def evict_def Let_def
        split: option.splits ReplayState.splits)
qed (auto simp: complete_request_def split: option.splits ReplayState.splits)

lemma reach_capacity: "reach (replay_init cap) replay_rel c \<Longrightarrow> capacity c = cap"
  by (induction rule: reach.induct)
     (auto simp: replay_init_def new_cache_def replay_rel_def capacity_step split: if_splits)

text \<open>
  Property: in every reachable state the cache holds at most its capacity of entries, with
  one entry per request id and the ids queued in \<open>order\<close> exactly once each; and \<open>begin\<close>
  answers \<open>Full\<close> exactly when the id is new, the cache is at its capacity and every entry is
  still pending.
\<close>

theorem replay_cache_bounded:
  assumes "reach (replay_init cap) replay_rel c"
  shows "length (entries c) \<le> cap \<and> distinct (map fst (entries c)) \<and> distinct (order c)
     \<and> set (order c) = set (map fst (entries c))
     \<and> (fst (begin_request c rid fp) = Full \<longleftrightarrow>
          rid \<notin> set (map fst (entries c)) \<and> length (entries c) = cap
          \<and> list_all (\<lambda>(_, e). case entry_state e of Pending _ \<Rightarrow> True | Complete _ \<Rightarrow> False) (entries c))"
proof -
  have inv: "replay_inv c" using assms by (rule cache.reach_inv)
  have cap: "capacity c = cap" using assms by (rule reach_capacity)
  have dist: "distinct (map fst (entries c))" using inv by (simp add: replay_inv_def)
  have "(\<forall>k \<in> set (order c). \<not> is_complete_id (entries c) k)
      \<longleftrightarrow> (\<forall>(k, e) \<in> set (entries c). \<not> is_complete_id (entries c) k)"
    using inv by (auto simp: replay_inv_def)
  also have "\<dots> \<longleftrightarrow> list_all (\<lambda>(_, e). case entry_state e of Pending _ \<Rightarrow> True | Complete _ \<Rightarrow> False) (entries c)"
    unfolding list_all_iff
    by (rule ball_cong [OF refl])
       (use dist ReplayState.exhaust in
          \<open>fastforce simp: is_complete_id_def split: ReplayState.splits\<close>)
  finally have none: "evict c = None \<longleftrightarrow>
      list_all (\<lambda>(_, e). case entry_state e of Pending _ \<Rightarrow> True | Complete _ \<Rightarrow> False) (entries c)"
    by (simp add: evict_None)
  have "fst (begin_request c rid fp) = Full \<longleftrightarrow>
      map_of (entries c) rid = None \<and> length (entries c) = capacity c \<and> evict c = None"
    by (auto simp: begin_request_def split: option.splits ReplayState.splits)
  then show ?thesis using inv cap none by (simp add: replay_inv_def map_of_eq_None_iff)
qed

theorem replay_cache_bounded_witness:
  "reach (replay_init 1) replay_rel
     \<lparr>capacity = 1, entries = [(5, \<lparr>entry_fingerprint = ''f'', entry_state = Pending 0\<rparr>)],
      order = [5], next_notify = 1\<rparr>
   \<and> fst (begin_request \<lparr>capacity = 1,
        entries = [(5, \<lparr>entry_fingerprint = ''f'', entry_state = Pending 0\<rparr>)],
        order = [5], next_notify = 1\<rparr> 6 ''g'') = Full"
proof -
  let ?c = "\<lparr>capacity = 1, entries = [(5, \<lparr>entry_fingerprint = ''f'', entry_state = Pending 0\<rparr>)],
      order = [5], next_notify = 1\<rparr>"
  have "replay_init 1 \<lparr>capacity = 1, entries = [], order = [], next_notify = 0\<rparr>"
    by (simp add: replay_init_def new_cache_def)
  moreover have "replay_rel \<lparr>capacity = 1, entries = [], order = [], next_notify = 0\<rparr> ?c"
    unfolding replay_rel_def
    by (rule exI [of _ "Rp_Begin 5 ''f''"]) (simp add: begin_request_def insert_pending_def)
  ultimately have r: "reach (replay_init 1) replay_rel ?c" by (blast intro: reach.intros)
  with replay_cache_bounded [OF r, of 6 "''g''"] show ?thesis by simp
qed

subsection \<open>Exclusive execution\<close>

lemma begin_request_keeps:
  assumes "replay_inv c" and "map_of (entries c) rid = Some e"
  shows "map_of (entries (snd (begin_request c k fp))) rid = Some e
     \<or> is_complete_id (entries c) rid \<and> k \<noteq> rid
        \<and> map_of (entries (snd (begin_request c k fp))) rid = None"
proof (cases "map_of (entries c) k")
  case None
  then have kr: "k \<noteq> rid" using assms(2) by auto
  show ?thesis
  proof (cases "length (entries c) = capacity c")
    case True
    show ?thesis
    proof (cases "evict c")
      case (Some c')
      obtain v where v: "is_complete_id (entries c) v" "entries c' = remove_key v (entries c)"
        using evict_Some [OF Some] assms(1) by (auto simp: replay_inv_def)
      have "map_of (entries (insert_pending c' k fp)) rid = map_of (entries c') rid"
        using kr by (simp add: insert_pending_def map_add_def split: option.split)
      with v None True Some kr assms(2) show ?thesis
        by (auto simp: begin_request_def map_of_remove_key)
    qed (use assms None True in \<open>simp add: begin_request_def\<close>)
  next
    case False
    with None assms(2) show ?thesis
      by (simp add: begin_request_def insert_pending_def map_add_def)
  qed
next
  case (Some x)
  with assms(2) show ?thesis by (simp add: begin_request_def split: ReplayState.split)
qed

lemma begin_execute:
  assumes "replay_inv c" and "begin_request c rid fp = (Execute, c')"
  shows "map_of (entries c') rid = Some \<lparr>entry_fingerprint = fp, entry_state = Pending (next_notify c)\<rparr>"
proof -
  from assms(2) have none: "map_of (entries c) rid = None"
    by (auto simp: begin_request_def split: option.splits if_splits ReplayState.splits)
  show ?thesis
  proof (cases "length (entries c) = capacity c")
    case True
    with assms none obtain d where d: "evict c = Some d" "c' = insert_pending d rid fp"
      by (auto simp: begin_request_def split: option.splits)
    moreover have "map_of (entries d) rid = None" "next_notify d = next_notify c"
      using evict_Some [OF d(1)] assms(1) none by (auto simp: replay_inv_def map_of_remove_key)
    ultimately show ?thesis by (simp add: insert_pending_def map_of_append_new del: map_of_append)
  next
    case False
    with assms none show ?thesis
      by (auto simp: begin_request_def insert_pending_def map_of_append_new simp del: map_of_append)
  qed
qed

lemma run_inv: "replay_inv c \<Longrightarrow> replay_inv (run_ops replay_step c ops)"
  by (induction ops arbitrary: c) (auto simp: replay_step_inv)

lemma complete_other:
  "(k, f) \<noteq> (rid, entry_fingerprint e) \<Longrightarrow> map_of (entries c) rid = Some e \<Longrightarrow>
     map_of (entries (snd (complete_request c k f resp))) rid = Some e"
  by (auto simp: complete_request_def map_of_set_entry split: option.splits ReplayState.splits)

lemma pending_kept:
  assumes "replay_inv c" and "map_of (entries c) rid = Some e" and "entry_state e = Pending n"
    and "\<And>resp. Rp_Complete rid (entry_fingerprint e) resp \<notin> set ops"
  shows "map_of (entries (run_ops replay_step c ops)) rid = Some e"
  using assms
proof (induction ops arbitrary: c)
  case (Cons op ops)
  have "map_of (entries (replay_step c op)) rid = Some e"
  proof (cases op)
    case (Rp_Begin k f)
    have "\<not> is_complete_id (entries c) rid" using Cons.prems by (simp add: is_complete_id_def)
    with begin_request_keeps [OF Cons.prems(1,2)] Rp_Begin show ?thesis by auto
  next
    case (Rp_Complete k f resp)
    with Cons.prems show ?thesis by (auto intro!: complete_other)
  qed
  with Cons show ?case by (simp add: replay_step_inv)
qed simp

text \<open>
  Property: while a request is being executed, every repetition of it waits for that
  execution and every other use of its id is a conflict, whatever else the cache handles in
  between: a pending entry is never evicted and the request never handed out again.
\<close>

theorem replay_pending_exclusive:
  assumes "reach (replay_init cap) replay_rel c"
    and "begin_request c rid fp = (Execute, c')"
    and "\<And>resp. Rp_Complete rid fp resp \<notin> set ops"
  shows "fst (begin_request (run_ops replay_step c' ops) rid fp') =
     (if fp' = fp then Wait (next_notify c) else Conflict)"
proof -
  have inv: "replay_inv c" using assms(1) by (rule cache.reach_inv)
  then have inv': "replay_inv c'" using begin_inv [of c rid fp] assms(2) by simp
  let ?e = "\<lparr>entry_fingerprint = fp, entry_state = Pending (next_notify c)\<rparr>"
  have "map_of (entries (run_ops replay_step c' ops)) rid = Some ?e"
    by (rule pending_kept [OF inv' begin_execute [OF inv assms(2)]]) (simp_all add: assms(3))
  then show ?thesis by (simp add: begin_request_def)
qed

lemma begin_other:
  assumes "replay_inv c" and "k \<noteq> rid"
  shows "map_of (entries (snd (begin_request c k fp))) rid \<in> {map_of (entries c) rid, None}"
proof -
  have ins: "map_of (entries (insert_pending d k fp)) rid = map_of (entries d) rid" for d
    using assms(2) by (simp add: insert_pending_def map_add_def split: option.split)
  have "map_of (entries d) rid \<in> {map_of (entries c) rid, None}" if "evict c = Some d" for d
    using evict_Some [OF that] assms(1)
    by (auto simp: replay_inv_def map_of_remove_key dest: map_of_SomeD split: if_splits)
  then show ?thesis
    by (auto simp: begin_request_def ins split: option.splits ReplayState.splits)
qed

lemma completed_kept:
  assumes "replay_inv c" and "entry_state d = Complete r"
    and "map_of (entries c) rid \<in> {Some d, None}" and "\<And>f. Rp_Begin rid f \<notin> set ops"
  shows "map_of (entries (run_ops replay_step c ops)) rid \<in> {Some d, None}"
  using assms
proof (induction ops arbitrary: c)
  case (Cons op ops)
  have "map_of (entries (replay_step c op)) rid \<in> {Some d, None}"
  proof (cases op)
    case (Rp_Begin k f)
    then have "k \<noteq> rid" using Cons.prems(4) by auto
    with begin_other [OF Cons.prems(1) this, of f] Cons.prems(3) Rp_Begin show ?thesis by auto
  next
    case (Rp_Complete k f resp)
    with Cons.prems(2,3) show ?thesis
      by (auto simp: complete_request_def map_of_set_entry split: option.splits ReplayState.splits)
  qed
  with Cons show ?case by (simp add: replay_step_inv)
qed simp

text \<open>
  Property: completing an executed request wakes exactly the waiters of that execution, and
  from then on, until the id is begun again, its entry either answers a repetition with the
  recorded response and any other use with a conflict, or has been evicted.
\<close>

theorem replay_completed_answers:
  assumes "reach (replay_init cap) replay_rel c"
    and "begin_request c rid fp = (Execute, c')"
    and "\<And>resp. Rp_Complete rid fp resp \<notin> set ops"
    and "\<And>f. Rp_Begin rid f \<notin> set later"
  shows "fst (complete_request (run_ops replay_step c' ops) rid fp resp) = Some (next_notify c)
     \<and> (fst (begin_request (run_ops replay_step c' (ops @ Rp_Complete rid fp resp # later)) rid fp')
            = (if fp' = fp then Cached resp else Conflict)
        \<or> rid \<notin> set (map fst (entries (run_ops replay_step c' (ops @ Rp_Complete rid fp resp # later)))))"
proof -
  have inv: "replay_inv c" using assms(1) by (rule cache.reach_inv)
  then have inv': "replay_inv c'" using begin_inv [of c rid fp] assms(2) by simp
  let ?e = "\<lparr>entry_fingerprint = fp, entry_state = Pending (next_notify c)\<rparr>"
  let ?d = "run_ops replay_step c' ops"
  have pend: "map_of (entries ?d) rid = Some ?e"
    by (rule pending_kept [OF inv' begin_execute [OF inv assms(2)]]) (simp_all add: assms(3))
  let ?done = "?e\<lparr>entry_state := Complete resp\<rparr>"
  let ?d' = "replay_step ?d (Rp_Complete rid fp resp)"
  have compl: "map_of (entries ?d') rid = Some ?done"
    using pend by (simp add: complete_request_def map_of_set_entry)
  have inv_d: "replay_inv ?d'" using run_inv [OF inv'] by (rule replay_step_inv)
  have "map_of (entries (run_ops replay_step ?d' later)) rid \<in> {Some ?done, None}"
    by (rule completed_kept [OF inv_d, where r = resp]) (use compl assms(4) in simp_all)
  then show ?thesis
    using pend by (auto simp: run_ops_append complete_request_def begin_request_def map_of_eq_None_iff)
qed

definition empty_cache :: ReplayCache where
  "empty_cache = \<lparr>capacity = 1, entries = [], order = [], next_notify = 0\<rparr>"

lemma empty_cache_reach: "reach (replay_init 1) replay_rel empty_cache"
  by (rule reach_init) (simp add: replay_init_def new_cache_def empty_cache_def)

lemma empty_cache_begin:
  "begin_request empty_cache 5 ''f'' = (Execute, insert_pending empty_cache 5 ''f'')"
  by (simp add: begin_request_def empty_cache_def)

theorem replay_pending_exclusive_witness:
  "fst (begin_request (run_ops replay_step (insert_pending empty_cache 5 ''f'')
       [Rp_Begin 6 ''g'', Rp_Begin 5 ''f'']) 5 ''f'') = Wait 0"
  using replay_pending_exclusive [OF empty_cache_reach empty_cache_begin,
      of "[Rp_Begin 6 ''g'', Rp_Begin 5 ''f'']" "''f''"]
  by (simp add: empty_cache_def)

theorem replay_completed_answers_witness:
  "fst (complete_request (run_ops replay_step (insert_pending empty_cache 5 ''f'') []) 5 ''f''
       \<lparr>resp_version = 2, resp_request_id = 5, resp_result = Inr Res_Terminated\<rparr>) = Some 0"
  using replay_completed_answers [OF empty_cache_reach empty_cache_begin, of "[]" "[]"
      "\<lparr>resp_version = 2, resp_request_id = 5, resp_result = Inr Res_Terminated\<rparr>" "''f''"]
  by (simp add: empty_cache_def)

lemma entries_genuine_step:
  assumes "\<forall>(k, e) \<in> set (entries d). \<forall>r.
      entry_state e = Complete r \<longrightarrow> Rp_Complete k (entry_fingerprint e) r \<in> seen"
  shows "\<forall>(k, e) \<in> set (entries (replay_step d op)). \<forall>r.
      entry_state e = Complete r \<longrightarrow> Rp_Complete k (entry_fingerprint e) r \<in> insert op seen"
proof (cases op)
  case (Rp_Begin k f)
  have "set (entries d') \<subseteq> set (entries d)" if "evict d = Some d'" for d'
    using that by (auto simp: evict_def remove_key_def Let_def split: option.splits)
  then have new: "set (entries (replay_step d op)) \<subseteq>
      set (entries d) \<union> {(k, \<lparr>entry_fingerprint = f, entry_state = Pending n\<rparr>) |n. True}"
    unfolding Rp_Begin
    by (auto simp: begin_request_def insert_pending_def split: option.split ReplayState.split)
  show ?thesis using new assms by fastforce
next
  case (Rp_Complete k f resp)
  with assms show ?thesis
    by (fastforce simp: complete_request_def set_entry_def dest: map_of_SomeD
        split: option.splits ReplayState.splits if_splits)
qed

text \<open>
  Property C36: a cached answer is genuine: whenever \<open>begin\<close> answers from the cache, that very
  response was recorded earlier for the same id and the same fingerprint.
\<close>

theorem replay_answers_genuine:
  assumes "new_cache cap = Some c"
    and "fst (begin_request (run_ops replay_step c ops) rid fp) = Cached resp"
  shows "Rp_Complete rid fp resp \<in> set ops"
proof -
  define genuine where "genuine = (\<lambda>(d :: ReplayCache) seen. \<forall>(k, e) \<in> set (entries d). \<forall>r.
      entry_state e = Complete r \<longrightarrow> Rp_Complete k (entry_fingerprint e) r \<in> seen)"
  have step: "genuine d seen \<Longrightarrow> genuine (replay_step d op) (insert op seen)" for d seen op
    unfolding genuine_def by (rule entries_genuine_step)
  have "genuine c {}" using assms(1) by (auto simp: new_cache_def genuine_def split: if_splits)
  moreover have "genuine d seen \<Longrightarrow> genuine (run_ops replay_step d xs) (seen \<union> set xs)" for d seen xs
  proof (induction xs arbitrary: d seen)
    case (Cons op xs)
    from Cons.IH [OF step [OF Cons.prems, of op]] show ?case by simp
  qed simp
  ultimately have "genuine (run_ops replay_step c ops) (set ops)" by fastforce
  moreover obtain e where "map_of (entries (run_ops replay_step c ops)) rid = Some e"
    "entry_fingerprint e = fp" "entry_state e = Complete resp"
    using assms(2)
    by (auto simp: begin_request_def split: option.splits if_splits ReplayState.splits)
  ultimately show ?thesis unfolding genuine_def by (fastforce dest: map_of_SomeD)
qed

theorem replay_answers_genuine_witness:
  "Rp_Complete 5 ''f'' \<lparr>resp_version = 2, resp_request_id = 5, resp_result = Inr Res_Terminated\<rparr>
     \<in> set [Rp_Begin 5 ''f'',
            Rp_Complete 5 ''f'' \<lparr>resp_version = 2, resp_request_id = 5, resp_result = Inr Res_Terminated\<rparr>]"
  by (rule replay_answers_genuine [of 1 empty_cache])
     (simp_all add: empty_cache_def new_cache_def begin_request_def complete_request_def
        insert_pending_def set_entry_def)

end
