(* ===== verification/Mcp_Auth.thy ===== *)
theory Mcp_Auth
  imports Json
begin

unbundle bit_operations_syntax

section \<open>OAuth token validation (\<open>mcp.rs\<close>)\<close>

text \<open>
  The HS256 token pipeline of \<open>crates/gobrowse-core/src/mcp.rs\<close>: HMAC-SHA256 built from the
  hash, splitting and decoding a token, and validating its claims.  Parameters stand for what
  other crates compute: \<open>sha\<close> for \<open>sha2::Sha256\<close>, \<open>b64\<close> for the unpadded URL-safe base64
  decoder, and \<open>jparse\<close> for \<open>serde_json::from_slice\<close>.  Byte slices are strings.
\<close>

definition HMAC_SHA256_BLOCK_SIZE :: nat where "HMAC_SHA256_BLOCK_SIZE = 64"
definition HMAC_IPAD :: nat where "HMAC_IPAD = 0x36"
definition HMAC_OPAD :: nat where "HMAC_OPAD = 0x5C"

datatype McpAuthError =
    InvalidFormat | InvalidSignature | Expired | AudienceMismatch | IssuerMismatch | NotYetValid

record McpTokenClaims =
  iss :: string
  aud :: "string list"
  exp_at :: int
  nbf :: "int option"
  sub :: string

definition xor_char :: "char \<Rightarrow> char \<Rightarrow> char" where
  "xor_char a b = char_of ((of_char a :: nat) XOR of_char b)"

text \<open>\<open>block[..src.len()].copy_from_slice(src)\<close>, for a source that fits.\<close>

definition copy_prefix :: "'a list \<Rightarrow> 'a list \<Rightarrow> 'a list" where
  "copy_prefix block src = src @ drop (length src) block"

text \<open>The loop \<open>for i in 0..n { block[i] ^= key[i] }\<close>.\<close>

fun xor_loop :: "nat list \<Rightarrow> string \<Rightarrow> string \<Rightarrow> string" where
  "xor_loop [] key block = block"
| "xor_loop (i # is) key block = xor_loop is key (block[i := xor_char (block ! i) (key ! i)])"

definition hmac_sha256 :: "(string \<Rightarrow> string) \<Rightarrow> string \<Rightarrow> string \<Rightarrow> string" where
  "hmac_sha256 sha key message =
     (let zero = replicate HMAC_SHA256_BLOCK_SIZE (char_of (0 :: nat));
          key_block =
            (if length key > HMAC_SHA256_BLOCK_SIZE then copy_prefix zero (sha key)
             else copy_prefix zero key);
          ipad_block = xor_loop [0..<HMAC_SHA256_BLOCK_SIZE] key_block
            (replicate HMAC_SHA256_BLOCK_SIZE (char_of HMAC_IPAD));
          inner_hash = sha (ipad_block @ message);
          opad_block = xor_loop [0..<HMAC_SHA256_BLOCK_SIZE] key_block
            (replicate HMAC_SHA256_BLOCK_SIZE (char_of HMAC_OPAD))
      in sha (opad_block @ inner_hash))"

definition base64url_decode :: "(string \<Rightarrow> string option) \<Rightarrow> string \<Rightarrow> McpAuthError + string" where
  "base64url_decode b64 input = ok_or (b64 input) InvalidFormat"

text \<open>\<open>parts.next().ok_or(InvalidFormat)?\<close> on the remaining parts.\<close>

fun next_part :: "string list \<Rightarrow> McpAuthError + (string \<times> string list)" where
  "next_part [] = Inl InvalidFormat"
| "next_part (p # ps) = Inr (p, ps)"

definition parse_jwt_unverified ::
  "(string \<Rightarrow> string option) \<Rightarrow> (string \<Rightarrow> json option) \<Rightarrow> string
     \<Rightarrow> McpAuthError + (json \<times> json \<times> string)" where
  "parse_jwt_unverified b64 jparse token =
     and_then (next_part (splitn 3 CHR ''.'' token)) (\<lambda>(header_b64, ps1).
     and_then (next_part ps1) (\<lambda>(payload_b64, ps2).
     and_then (next_part ps2) (\<lambda>(sig_b64, ps3).
       if ps3 \<noteq> [] then Inl InvalidFormat
       else
         and_then (base64url_decode b64 header_b64) (\<lambda>header_bytes.
         and_then (ok_or (jparse header_bytes) InvalidFormat) (\<lambda>header.
         and_then (base64url_decode b64 payload_b64) (\<lambda>payload_bytes.
         and_then (ok_or (jparse payload_bytes) InvalidFormat) (\<lambda>payload.
           Inr (header, payload, sig_b64))))))))"

definition validate_jwt_claims ::
  "McpTokenClaims \<Rightarrow> string \<Rightarrow> string list \<Rightarrow> int \<Rightarrow> McpAuthError + unit" where
  "validate_jwt_claims claims expected_issuer expected_audiences now =
     (if iss claims \<noteq> expected_issuer then Inl IssuerMismatch
      else if \<not> list_ex (\<lambda>a. a \<in> set expected_audiences) (aud claims) then Inl AudienceMismatch
      else if exp_at claims < now then Inl Expired
      else case nbf claims of
             Some t \<Rightarrow> if t > now then Inl NotYetValid else Inr ()
           | None \<Rightarrow> Inr ())"

definition verify_jwt_hs256 ::
  "(string \<Rightarrow> string) \<Rightarrow> (string \<Rightarrow> string option) \<Rightarrow> string \<Rightarrow> string \<Rightarrow> McpAuthError + bool" where
  "verify_jwt_hs256 sha b64 token secret =
     and_then (ok_or (find_index (\<lambda>c. c = CHR ''.'') token) InvalidFormat) (\<lambda>first_dot.
     and_then (ok_or (map_option (\<lambda>p. first_dot + 1 + p)
                 (find_index (\<lambda>c. c = CHR ''.'') (drop (first_dot + 1) token))) InvalidFormat)
       (\<lambda>second_dot.
         if CHR ''.'' \<in> set (drop (second_dot + 1) token) then Inl InvalidFormat
         else
           let header_b64 = take first_dot token;
               payload_b64 = drop (first_dot + 1) (take second_dot token);
               sig_b64 = drop (second_dot + 1) token
           in and_then (base64url_decode b64 sig_b64) (\<lambda>sig_bytes.
                let signing_input = header_b64 @ ''.'' @ payload_b64;
                    computed_mac = hmac_sha256 sha secret signing_input
                in Inr (computed_mac = sig_bytes))))"

text \<open>Indexing a value with a string key: null when it is absent or the value is no object.\<close>

definition json_index :: "json \<Rightarrow> string \<Rightarrow> json" where
  "json_index v key = (case json_get v key of None \<Rightarrow> JNull | Some x \<Rightarrow> x)"

definition claims_of_payload :: "json \<Rightarrow> McpAuthError + McpTokenClaims" where
  "claims_of_payload payload =
     and_then
       (case json_index payload ''aud'' of
          JString s \<Rightarrow> Inr [s]
        | JArray arr \<Rightarrow> Inr (map the (filter (\<lambda>x. x \<noteq> None) (map as_str arr)))
        | _ \<Rightarrow> Inl InvalidFormat) (\<lambda>audiences.
     and_then (ok_or (as_str (json_index payload ''iss'')) InvalidFormat) (\<lambda>issuer.
     and_then (ok_or (as_i64 (json_index payload ''exp'')) InvalidFormat) (\<lambda>expiry.
     and_then (ok_or (as_str (json_index payload ''sub'')) InvalidFormat) (\<lambda>subject.
       Inr \<lparr>iss = issuer, aud = audiences, exp_at = expiry,
            nbf = as_i64 (json_index payload ''nbf''), sub = subject\<rparr>))))"

definition validate_mcp_oauth_token ::
  "(string \<Rightarrow> string) \<Rightarrow> (string \<Rightarrow> string option) \<Rightarrow> (string \<Rightarrow> json option)
     \<Rightarrow> string \<Rightarrow> string \<Rightarrow> string \<Rightarrow> string list \<Rightarrow> int \<Rightarrow> McpAuthError + McpTokenClaims" where
  "validate_mcp_oauth_token sha b64 jparse token secret expected_issuer expected_audiences now =
     and_then (verify_jwt_hs256 sha b64 token secret) (\<lambda>ok.
       if \<not> ok then Inl InvalidSignature
       else
         and_then (parse_jwt_unverified b64 jparse token) (\<lambda>(_, payload, _).
         and_then (claims_of_payload payload) (\<lambda>claims.
         and_then (validate_jwt_claims claims expected_issuer expected_audiences now) (\<lambda>_.
           Inr claims))))"

subsection \<open>The HMAC\<close>

text \<open>RFC 2104: the hash of the outer pad and the hash of the inner pad and the text.\<close>

definition hmac_key :: "(string \<Rightarrow> string) \<Rightarrow> string \<Rightarrow> string" where
  "hmac_key sha key =
     (let k = if length key > 64 then sha key else key
      in k @ replicate (64 - length k) (char_of (0 :: nat)))"

definition hmac_rfc2104 :: "(string \<Rightarrow> string) \<Rightarrow> string \<Rightarrow> string \<Rightarrow> string" where
  "hmac_rfc2104 sha key text =
     sha (map (\<lambda>k. char_of ((of_char k :: nat) XOR 0x5C)) (hmac_key sha key)
        @ sha (map (\<lambda>k. char_of ((of_char k :: nat) XOR 0x36)) (hmac_key sha key) @ text))"

lemma xor_loop_upto:
  "n \<le> length block \<Longrightarrow> n \<le> length key \<Longrightarrow>
     xor_loop [i..<n] key block =
       map (\<lambda>j. if i \<le> j \<and> j < n then xor_char (block ! j) (key ! j) else block ! j) [0..<length block]"
proof (induction "n - i" arbitrary: i block)
  case 0
  then show ?case by (auto intro!: nth_equalityI)
next
  case (Suc d)
  then have i: "i < n" by simp
  then have "xor_loop [i..<n] key block
      = xor_loop [Suc i..<n] key (block[i := xor_char (block ! i) (key ! i)])"
    by (simp add: upt_conv_Cons)
  also have "\<dots> = map (\<lambda>j. if i \<le> j \<and> j < n then xor_char (block ! j) (key ! j) else block ! j)
      [0..<length block]"
    using Suc i by (subst Suc.hyps(1)) (auto simp: nth_list_update)
  finally show ?case .
qed

lemma xor_loop_pad:
  assumes "length key = 64"
  shows "xor_loop [0..<64] key (replicate 64 p) = map (xor_char p) key"
  using assms by (subst xor_loop_upto) (auto intro!: nth_equalityI)

lemma xor_char_pad: "p < 256 \<Longrightarrow> xor_char (char_of p) k = char_of ((of_char k :: nat) XOR p)"
  by (simp add: xor_char_def xor.commute of_char_of take_bit_eq_mod [symmetric] flip: take_bit_eq_mod)

lemma copy_prefix_zero: "length k \<le> 64 \<Longrightarrow> copy_prefix (replicate 64 z) k = k @ replicate (64 - length k) z"
  by (simp add: copy_prefix_def)

text \<open>
  Property: the hand-written HMAC is HMAC-SHA256 as RFC 2104 defines it, for every hash
  with 32-byte digests, every key, short or long, and every message.
\<close>

theorem hmac_sha256_rfc2104:
  assumes "\<And>m. length (sha m) = 32"
  shows "hmac_sha256 sha key message = hmac_rfc2104 sha key message"
proof -
  define kb where "kb = (if length key > 64 then copy_prefix (replicate 64 (char_of (0 :: nat))) (sha key)
      else copy_prefix (replicate 64 (char_of (0 :: nat))) key)"
  have kb: "kb = hmac_key sha key" "length kb = 64"
    by (auto simp: kb_def hmac_key_def copy_prefix_zero assms Let_def)
  have pad: "map (xor_char (char_of p)) kb = map (\<lambda>k. char_of ((of_char k :: nat) XOR p)) kb" if "p < 256" for p
    using that by (simp add: xor_char_pad)
  have small: "0x36 < (256 :: nat)" "0x5C < (256 :: nat)" by simp_all
  show ?thesis
    unfolding hmac_sha256_def hmac_rfc2104_def Let_def HMAC_SHA256_BLOCK_SIZE_def HMAC_IPAD_def
      HMAC_OPAD_def kb_def [symmetric] xor_loop_pad [OF kb(2)] kb(1) [symmetric]
      pad [OF small(1)] pad [OF small(2)] by (rule refl)
qed

theorem hmac_sha256_rfc2104_witness:
  "hmac_sha256 (\<lambda>m. take 32 (m @ replicate 32 CHR ''x'')) ''key'' ''message''
     = hmac_rfc2104 (\<lambda>m. take 32 (m @ replicate 32 CHR ''x'')) ''key'' ''message''"
  by (rule hmac_sha256_rfc2104) simp

subsection \<open>Tokens\<close>

lemma find_index_eq:
  "find_index (\<lambda>c. c = d) s = Some i \<longleftrightarrow> (\<exists>a b. s = a @ d # b \<and> d \<notin> set a \<and> i = length a)"
proof (induction s arbitrary: i)
  case Nil
  then show ?case by simp
next
  case (Cons x xs)
  show ?case
  proof (cases "x = d")
    case True
    have "(\<exists>a b. x # xs = a @ d # b \<and> d \<notin> set a \<and> i = length a) \<longleftrightarrow> i = 0"
      using True by (auto simp: Cons_eq_append_conv)
    with True show ?thesis by auto
  next
    case False
    have "(\<exists>a b. x # xs = a @ d # b \<and> d \<notin> set a \<and> i = length a) \<longleftrightarrow>
        (\<exists>k. i = Suc k \<and> (\<exists>a b. xs = a @ d # b \<and> d \<notin> set a \<and> k = length a))"
      using False by (force simp: Cons_eq_append_conv)
    with False Cons show ?thesis by auto
  qed
qed

lemma verify_jwt_hs256_iff:
  "verify_jwt_hs256 sha b64 token secret = Inr ok \<longleftrightarrow>
     (\<exists>h p s mac. token = h @ ''.'' @ p @ ''.'' @ s
        \<and> CHR ''.'' \<notin> set h \<and> CHR ''.'' \<notin> set p \<and> CHR ''.'' \<notin> set s
        \<and> b64 s = Some mac \<and> ok = (hmac_sha256 sha secret (h @ ''.'' @ p) = mac))"
    (is "?lhs \<longleftrightarrow> ?rhs")
proof
  assume ?lhs
  then obtain i j mac where
    i: "find_index (\<lambda>c. c = CHR ''.'') token = Some i" and
    j: "find_index (\<lambda>c. c = CHR ''.'') (drop (i + 1) token) = Some j" and
    rest: "CHR ''.'' \<notin> set (drop (i + 1 + j + 1) token)"
      "b64 (drop (i + 1 + j + 1) token) = Some mac"
      "ok = (hmac_sha256 sha secret (take i token @ ''.'' @ drop (i + 1) (take (i + 1 + j) token)) = mac)"
    by (auto simp: verify_jwt_hs256_def base64url_decode_def Let_def split: if_splits)
  obtain h b where h: "token = h @ CHR ''.'' # b" "CHR ''.'' \<notin> set h" "i = length h"
    using i unfolding find_index_eq by blast
  obtain p s where p: "b = p @ CHR ''.'' # s" "CHR ''.'' \<notin> set p" "j = length p"
    using j unfolding find_index_eq h by auto
  show ?rhs
    by (rule exI [of _ h], rule exI [of _ p], rule exI [of _ s], rule exI [of _ mac])
       (use rest h p in simp)
next
  assume ?rhs
  then obtain h p s mac where t: "token = h @ ''.'' @ p @ ''.'' @ s" and
    d: "CHR ''.'' \<notin> set h" "CHR ''.'' \<notin> set p" "CHR ''.'' \<notin> set s" and
    m: "b64 s = Some mac" "ok = (hmac_sha256 sha secret (h @ ''.'' @ p) = mac)" by blast
  have i: "find_index (\<lambda>c. c = CHR ''.'') token = Some (length h)"
    unfolding find_index_eq t using d by auto
  have j: "find_index (\<lambda>c. c = CHR ''.'') (p @ CHR ''.'' # s) = Some (length p)"
    unfolding find_index_eq using d by blast
  show ?lhs
    using i j d m by (simp add: verify_jwt_hs256_def base64url_decode_def t Let_def)
qed

lemma splitn_3:
  assumes "CHR ''.'' \<notin> set h" "CHR ''.'' \<notin> set p"
  shows "splitn 3 CHR ''.'' (h @ ''.'' @ p @ ''.'' @ rest) = [h, p, rest]"
proof -
  have "split_once CHR ''.'' (h @ CHR ''.'' # p @ CHR ''.'' # rest) = Some (h, p @ CHR ''.'' # rest)"
    "split_once CHR ''.'' (p @ CHR ''.'' # rest) = Some (p, rest)"
    using assms by (simp_all add: split_once_Some)
  then show ?thesis by (simp add: numeral_3_eq_3)
qed

text \<open>
  The check for a fourth part never fires: the third part keeps every further separator.
\<close>

lemma parse_jwt_extra_parts:
  assumes "CHR ''.'' \<notin> set h" "CHR ''.'' \<notin> set p"
    and "b64 h = Some hb" "jparse hb = Some header" "b64 p = Some pb" "jparse pb = Some payload"
  shows "parse_jwt_unverified b64 jparse (h @ ''.'' @ p @ ''.'' @ s @ ''.'' @ extra)
    = Inr (header, payload, s @ ''.'' @ extra)"
  using assms splitn_3 [OF assms(1,2), of "s @ ''.'' @ extra"]
  by (simp add: parse_jwt_unverified_def base64url_decode_def)

text \<open>
  Property: a token is accepted exactly when it is three dot-separated parts whose
  signature decodes to the HMAC of the first two under the secret, whose header and payload
  decode, and whose claims have the expected issuer, an expected audience, and a validity
  interval that contains the current time; the claims returned are those of the payload.
\<close>

theorem validate_mcp_oauth_token_iff:
  "validate_mcp_oauth_token sha b64 jparse token secret issuer audiences now = Inr claims \<longleftrightarrow>
     (\<exists>h p s hb pb header payload.
        token = h @ ''.'' @ p @ ''.'' @ s
        \<and> CHR ''.'' \<notin> set h \<and> CHR ''.'' \<notin> set p \<and> CHR ''.'' \<notin> set s
        \<and> b64 s = Some (hmac_sha256 sha secret (h @ ''.'' @ p))
        \<and> b64 h = Some hb \<and> jparse hb = Some header \<and> b64 p = Some pb \<and> jparse pb = Some payload
        \<and> claims_of_payload payload = Inr claims
        \<and> iss claims = issuer \<and> set (aud claims) \<inter> set audiences \<noteq> {}
        \<and> now \<le> exp_at claims \<and> (case nbf claims of None \<Rightarrow> True | Some t \<Rightarrow> t \<le> now))"
    (is "?lhs \<longleftrightarrow> ?rhs")
proof -
  have claims: "validate_jwt_claims claims issuer audiences now = Inr () \<longleftrightarrow>
      iss claims = issuer \<and> set (aud claims) \<inter> set audiences \<noteq> {} \<and> now \<le> exp_at claims
      \<and> (case nbf claims of None \<Rightarrow> True | Some t \<Rightarrow> t \<le> now)" for claims
    by (auto simp: validate_jwt_claims_def list_ex_iff split: option.splits)
  show ?thesis
  proof
    assume ?lhs
    then have v: "verify_jwt_hs256 sha b64 token secret = Inr True"
      by (auto simp: validate_mcp_oauth_token_def split: if_splits)
    then obtain h p s where t: "token = h @ ''.'' @ p @ ''.'' @ s"
      "CHR ''.'' \<notin> set h" "CHR ''.'' \<notin> set p" "CHR ''.'' \<notin> set s"
      "b64 s = Some (hmac_sha256 sha secret (h @ ''.'' @ p))"
      unfolding verify_jwt_hs256_iff by metis
    have "parse_jwt_unverified b64 jparse token = Inr (hd', pl, s') \<Longrightarrow>
       \<exists>hb pb. b64 h = Some hb \<and> jparse hb = Some hd' \<and> b64 p = Some pb \<and> jparse pb = Some pl" for hd' pl s'
      unfolding t(1) using splitn_3 [OF t(2,3), of s]
      by (simp add: parse_jwt_unverified_def base64url_decode_def) blast
    with \<open>?lhs\<close> v t claims show ?rhs
      by (fastforce simp: validate_mcp_oauth_token_def)
  next
    assume ?rhs
    then obtain h p s hb pb header payload where t: "token = h @ ''.'' @ p @ ''.'' @ s"
      "CHR ''.'' \<notin> set h" "CHR ''.'' \<notin> set p" "CHR ''.'' \<notin> set s"
      "b64 s = Some (hmac_sha256 sha secret (h @ ''.'' @ p))" and
      d: "b64 h = Some hb" "jparse hb = Some header" "b64 p = Some pb" "jparse pb = Some payload" and
      c: "claims_of_payload payload = Inr claims" "validate_jwt_claims claims issuer audiences now = Inr ()"
      unfolding claims by blast
    have "verify_jwt_hs256 sha b64 token secret = Inr True"
      unfolding verify_jwt_hs256_iff using t by metis
    moreover have "parse_jwt_unverified b64 jparse token = Inr (header, payload, s)"
      using splitn_3 [OF t(2,3), of s] d
      by (simp add: parse_jwt_unverified_def base64url_decode_def t(1))
    ultimately show ?lhs using c by (simp add: validate_mcp_oauth_token_def)
  qed
qed

text \<open>A not-before time that is no 64-bit integer, such as a fraction, is not enforced.\<close>

lemma fractional_nbf_ignored:
  "claims_of_payload (JObject [(''aud'', JString ''a''), (''exp'', JNumber (PosInt 9)),
     (''iss'', JString ''i''), (''nbf'', JNumber (Float b)), (''sub'', JString ''s'')])
   = Inr \<lparr>iss = ''i'', aud = [''a''], exp_at = 9, nbf = None, sub = ''s''\<rparr>"
  by (simp add: claims_of_payload_def json_index_def i64_max_def)

end
