(* ===== verification/Mcp_Capabilities.thy ===== *)
theory Mcp_Capabilities
  imports Mcp_Validation
begin

section \<open>Negotiated capabilities (\<open>mcp/capabilities.rs\<close>)\<close>

text \<open>
  The capability records of \<open>crates/gobrowse-core/src/mcp/capabilities.rs\<close> and the gates on
  methods and notifications.
\<close>

record RootsCapability =
  roots_list_changed :: "bool option"

datatype SamplingCapability = SamplingCapability

record ToolsCapability =
  tools_list_changed :: "bool option"

record ResourcesCapability =
  subscribe :: "bool option"
  resources_list_changed :: "bool option"

record PromptsCapability =
  prompts_list_changed :: "bool option"

datatype LoggingCapability = LoggingCapability

record ClientCapabilities =
  roots :: "RootsCapability option"
  sampling :: "SamplingCapability option"
  client_experimental :: "json option"

record ServerCapabilities =
  cap_tools :: "ToolsCapability option"
  cap_resources :: "ResourcesCapability option"
  cap_prompts :: "PromptsCapability option"
  cap_logging :: "LoggingCapability option"
  server_experimental :: "json option"

text \<open>\<open>ServerCapabilities::default()\<close>.\<close>

definition no_capabilities :: ServerCapabilities where
  "no_capabilities = \<lparr>cap_tools = None, cap_resources = None, cap_prompts = None,
     cap_logging = None, server_experimental = None\<rparr>"

datatype CapabilityError = Unsupported

datatype CapabilityMethod =
    ToolsList | ToolsCall | ResourcesList | ResourcesRead | ResourcesSubscribe
  | ResourcesUnsubscribe | PromptsList | PromptsGet | Ping

text \<open>\<open>opt.as_ref().and_then(f).unwrap_or(false)\<close>.\<close>

definition flag :: "'a option \<Rightarrow> ('a \<Rightarrow> bool option) \<Rightarrow> bool" where
  "flag x f = (case Option.bind x f of None \<Rightarrow> False | Some b \<Rightarrow> b)"

fun allowed :: "CapabilityMethod \<Rightarrow> ServerCapabilities \<Rightarrow> bool" where
  "allowed ToolsList c = (cap_tools c \<noteq> None)"
| "allowed ToolsCall c = (cap_tools c \<noteq> None)"
| "allowed ResourcesList c = (cap_resources c \<noteq> None)"
| "allowed ResourcesRead c = (cap_resources c \<noteq> None)"
| "allowed ResourcesSubscribe c = flag (cap_resources c) subscribe"
| "allowed ResourcesUnsubscribe c = flag (cap_resources c) subscribe"
| "allowed PromptsList c = (cap_prompts c \<noteq> None)"
| "allowed PromptsGet c = (cap_prompts c \<noteq> None)"
| "allowed Ping c = True"

definition require :: "CapabilityMethod \<Rightarrow> ServerCapabilities \<Rightarrow> CapabilityError + unit" where
  "require m c = ensure (allowed m c) Unsupported"

datatype CapabilityNotification =
    ToolsListChanged | ResourcesListChanged | ResourceUpdated | Progress | Logging

fun notification_allowed :: "CapabilityNotification \<Rightarrow> ServerCapabilities \<Rightarrow> bool" where
  "notification_allowed ToolsListChanged c = flag (cap_tools c) tools_list_changed"
| "notification_allowed ResourcesListChanged c = flag (cap_resources c) resources_list_changed"
| "notification_allowed ResourceUpdated c = flag (cap_resources c) subscribe"
| "notification_allowed Progress c = False"
| "notification_allowed Logging c = (cap_logging c \<noteq> None)"

definition validate_client_capabilities :: "ClientCapabilities \<Rightarrow> ValidationError + unit" where
  "validate_client_capabilities c = if_some validate_json (client_experimental c)"

definition validate_server_capabilities :: "ServerCapabilities \<Rightarrow> ValidationError + unit" where
  "validate_server_capabilities c = if_some validate_json (server_experimental c)"

lemma flag_iff [simp]: "flag x f \<longleftrightarrow> (\<exists>y. x = Some y \<and> f y = Some True)"
  by (cases x) (auto simp: flag_def split: option.splits)

lemma require_Inr [validator_iff, simp]: "require m c = Inr u \<longleftrightarrow> allowed m c"
  by (simp add: require_def)

lemma no_capabilities_only_ping: "allowed m no_capabilities \<longleftrightarrow> m = Ping"
  by (cases m) (auto simp: no_capabilities_def)

end
