(* ===== verification/Mcp_Request_Id.thy ===== *)
theory Mcp_Request_Id
  imports Rust_Std
begin

section \<open>JSON-RPC request identifiers and envelope errors (\<open>mcp/wire.rs\<close>)\<close>

text \<open>
  \<open>RequestId\<close> and \<open>WireError\<close> of \<open>crates/gobrowse-core/src/mcp/wire.rs\<close>, which the lifecycle
  and the envelopes share.  The order on identifiers is the derived one: numbers before
  strings, then by value (strings by their bytes).
\<close>

definition MAX_ID_BYTES :: nat where "MAX_ID_BYTES = 128"

datatype WireError =
    FrameTooLarge | Malformed_Message | NotObject | InvalidVersion | InvalidMethod | InvalidId
  | InvalidShape | InvalidWireValue

datatype RequestId = Number int | String string

definition validate_request_id :: "RequestId \<Rightarrow> WireError + unit" where
  "validate_request_id i =
     (case i of
        String v \<Rightarrow> if v = [] \<or> length v > MAX_ID_BYTES then Inl InvalidId else Inr ()
      | Number n \<Rightarrow> Inr ())"

instantiation RequestId :: linorder
begin

fun less_eq_RequestId :: "RequestId \<Rightarrow> RequestId \<Rightarrow> bool" where
  "less_eq_RequestId (Number a) (Number b) \<longleftrightarrow> a \<le> b"
| "less_eq_RequestId (Number a) (String s) \<longleftrightarrow> True"
| "less_eq_RequestId (String s) (Number a) \<longleftrightarrow> False"
| "less_eq_RequestId (String s) (String t) \<longleftrightarrow> s \<le> t"

definition less_RequestId :: "RequestId \<Rightarrow> RequestId \<Rightarrow> bool" where
  "less_RequestId x y \<longleftrightarrow> x \<le> y \<and> \<not> y \<le> x"

instance
proof
  fix x y z :: RequestId
  show "x < y \<longleftrightarrow> x \<le> y \<and> \<not> y \<le> x" by (simp add: less_RequestId_def)
  show "x \<le> x" by (cases x) auto
  show "x \<le> y \<Longrightarrow> y \<le> z \<Longrightarrow> x \<le> z" by (cases x; cases y; cases z) auto
  show "x \<le> y \<Longrightarrow> y \<le> x \<Longrightarrow> x = y" by (cases x; cases y) auto
  show "x \<le> y \<or> y \<le> x" by (cases x; cases y) auto
qed

end

lemma validate_request_id_Inr [validator_iff]:
  "validate_request_id i = Inr u \<longleftrightarrow>
     (\<forall>s. i = String s \<longrightarrow> s \<noteq> [] \<and> length s \<le> MAX_ID_BYTES)"
  by (cases i) (auto simp: validate_request_id_def)

end
