(* ===== verification/Mcp_Lifecycle.thy ===== *)
theory Mcp_Lifecycle
  imports Mcp_Capabilities Mcp_Request_Id Mcp_Core State_Machine
begin

section \<open>The MCP session lifecycle (\<open>mcp/lifecycle.rs\<close>)\<close>

text \<open>
  The session state machine of \<open>crates/gobrowse-core/src/mcp/lifecycle.rs\<close> with its generation
  fence and its table of pending requests.  A method on \<open>&mut self\<close> returns its result and
  the new state.  The \<open>BTreeSet\<close> of pending keys is a set, listed in key order where the code
  iterates over it; \<open>next_id\<close> is an \<open>i64\<close> kept as an integer with its overflow check.
\<close>

definition MAX_PENDING_REQUESTS :: nat where "MAX_PENDING_REQUESTS = 64"
definition MAX_RECONNECT_ATTEMPTS :: u32 where "MAX_RECONNECT_ATTEMPTS = 3"

datatype SessionState =
    Disconnected | Connecting | Discovering | Initializing | Ready | Closing | Closed | Failed

datatype RetryClass = SafeDiscovery | SafePing | SafeList | SafeRead | Never

record PendingToken =
  token_generation :: u64
  token_id :: RequestId

record ReconnectResult =
  new_generation :: u64
  drained :: "PendingToken list"

datatype LifecycleError =
    IllegalTransition | NotReady | PendingLimit | DuplicateRequest | UnknownResponse
  | NegotiationRequired | ReconnectExhausted "PendingToken list" | IdExhausted

datatype PendingKey = PendingKey (key_generation: u64) (key_id: RequestId)

instantiation PendingKey :: linorder
begin

definition less_eq_PendingKey :: "PendingKey \<Rightarrow> PendingKey \<Rightarrow> bool" where
  "less_eq_PendingKey x y \<longleftrightarrow>
     key_generation x < key_generation y
     \<or> key_generation x = key_generation y \<and> key_id x \<le> key_id y"

definition less_PendingKey :: "PendingKey \<Rightarrow> PendingKey \<Rightarrow> bool" where
  "less_PendingKey x y \<longleftrightarrow> x \<le> y \<and> \<not> y \<le> x"

instance
proof
  fix x y z :: PendingKey
  show "x < y \<longleftrightarrow> x \<le> y \<and> \<not> y \<le> x" by (simp add: less_PendingKey_def)
  show "x \<le> x" by (simp add: less_eq_PendingKey_def)
  show "x \<le> y \<Longrightarrow> y \<le> z \<Longrightarrow> x \<le> z" by (auto simp: less_eq_PendingKey_def)
  show "x \<le> y \<Longrightarrow> y \<le> x \<Longrightarrow> x = y"
    by (auto simp: less_eq_PendingKey_def intro: PendingKey.expand)
  show "x \<le> y \<or> y \<le> x" by (auto simp: less_eq_PendingKey_def)
qed

end

definition key_of :: "PendingToken \<Rightarrow> PendingKey" where
  "key_of t = PendingKey (token_generation t) (token_id t)"

definition token_of :: "PendingKey \<Rightarrow> PendingToken" where
  "token_of k = \<lparr>token_generation = key_generation k, token_id = key_id k\<rparr>"

record SessionLifecycle =
  state :: SessionState
  generation :: u64
  era :: "McpProtocolEra option"
  capabilities :: "ServerCapabilities option"
  legacy_initialized :: bool
  pending :: "PendingKey set"
  reconnect_attempts :: u32
  next_id :: int

type_synonym 'a op_result = "(LifecycleError + 'a) \<times> SessionLifecycle"

definition new_lifecycle :: SessionLifecycle where
  "new_lifecycle = \<lparr>state = Disconnected, generation = 0, era = None, capabilities = None,
     legacy_initialized = False, pending = {}, reconnect_attempts = 0, next_id = 0\<rparr>"

subsection \<open>The operations\<close>

definition connectable :: "SessionLifecycle \<Rightarrow> bool" where
  "connectable s \<longleftrightarrow> state s \<in> {Disconnected, Closed, Failed} \<and> pending s = {}"

definition begin_connect_inner :: "SessionLifecycle \<Rightarrow> u64 op_result" where
  "begin_connect_inner s =
     (if \<not> connectable s then (Inl IllegalTransition, s)
      else case checked_add (generation s) 1 of
             None \<Rightarrow> (Inl IdExhausted, s)
           | Some g \<Rightarrow>
               (Inr g, s\<lparr>generation := g, state := Connecting, era := None, capabilities := None,
                         legacy_initialized := False\<rparr>))"

definition begin_connect :: "SessionLifecycle \<Rightarrow> u64 op_result" where
  "begin_connect s =
     (if \<not> connectable s then (Inl IllegalTransition, s)
      else case checked_add (generation s) 1 of
             None \<Rightarrow> (Inl IdExhausted, s)
           | Some _ \<Rightarrow> begin_connect_inner (s\<lparr>reconnect_attempts := 0\<rparr>))"

definition begin_discovery :: "SessionLifecycle \<Rightarrow> unit op_result" where
  "begin_discovery s =
     (if state s = Connecting then (Inr (), s\<lparr>state := Discovering\<rparr>)
      else (Inl IllegalTransition, s))"

definition begin_initialize :: "SessionLifecycle \<Rightarrow> unit op_result" where
  "begin_initialize s =
     (if state s = Connecting then (Inr (), s\<lparr>state := Initializing\<rparr>)
      else (Inl IllegalTransition, s))"

definition bind_negotiation ::
  "McpProtocolEra \<Rightarrow> ServerCapabilities \<Rightarrow> SessionLifecycle \<Rightarrow> unit op_result" where
  "bind_negotiation e caps s =
     (let path_ok = is_modern e \<and> state s = Discovering \<or> \<not> is_modern e \<and> state s = Initializing
      in if \<not> path_ok \<or> e \<notin> set SUPPORTED_PROTOCOL_ERAS then (Inl NegotiationRequired, s)
         else (Inr (), s\<lparr>era := Some e, capabilities := Some caps\<rparr>))"

definition mark_legacy_initialized :: "SessionLifecycle \<Rightarrow> unit op_result" where
  "mark_legacy_initialized s =
     (if state s = Initializing \<and> era s = Some Legacy20251125 \<and> capabilities s \<noteq> None
         \<and> \<not> legacy_initialized s
      then (Inr (), s\<lparr>legacy_initialized := True\<rparr>)
      else (Inl IllegalTransition, s))"

definition mark_ready :: "SessionLifecycle \<Rightarrow> unit op_result" where
  "mark_ready s =
     (if era s = None \<or> capabilities s = None
         \<or> era s = Some Legacy20251125 \<and> \<not> legacy_initialized s
      then (Inl NegotiationRequired, s)
      else if state s \<notin> {Discovering, Initializing} then (Inl IllegalTransition, s)
      else (Inr (), s\<lparr>state := Ready\<rparr>))"

definition allocate_and_reserve :: "SessionLifecycle \<Rightarrow> PendingToken op_result" where
  "allocate_and_reserve s =
     (if state s \<noteq> Ready then (Inl NotReady, s)
      else if next_id s + 1 > int i64_max then (Inl IdExhausted, s)
      else if card (pending s) \<ge> MAX_PENDING_REQUESTS then (Inl PendingLimit, s)
      else let i = next_id s + 1;
               token = \<lparr>token_generation = generation s, token_id = Number i\<rparr>
           in (Inr token, s\<lparr>next_id := i, pending := insert (key_of token) (pending s)\<rparr>))"

definition reserve :: "PendingToken \<Rightarrow> SessionLifecycle \<Rightarrow> unit op_result" where
  "reserve token s =
     (if state s \<notin> {Ready, Initializing} then (Inl NotReady, s)
      else if token_generation token \<noteq> generation s then (Inl UnknownResponse, s)
      else if isl (validate_request_id (token_id token)) then (Inl UnknownResponse, s)
      else if key_of token \<in> pending s then (Inl DuplicateRequest, s)
      else if card (pending s) \<ge> MAX_PENDING_REQUESTS then (Inl PendingLimit, s)
      else (Inr (), s\<lparr>pending := insert (key_of token) (pending s)\<rparr>))"

definition complete :: "PendingToken \<Rightarrow> SessionLifecycle \<Rightarrow> unit op_result" where
  "complete token s =
     (if state s = Closing \<or> state s \<in> {Closed, Failed, Disconnected} then (Inl UnknownResponse, s)
      else if key_of token \<in> pending s
           then (Inr (), s\<lparr>pending := pending s - {key_of token}\<rparr>)
           else (Inl UnknownResponse, s))"

definition cancel :: "PendingToken \<Rightarrow> SessionLifecycle \<Rightarrow> unit op_result" where
  "cancel token s = complete token s"

definition clear_session :: "SessionLifecycle \<Rightarrow> SessionLifecycle" where
  "clear_session s = s\<lparr>era := None, capabilities := None, legacy_initialized := False\<rparr>"

definition drain_pending :: "SessionLifecycle \<Rightarrow> PendingToken list \<times> SessionLifecycle" where
  "drain_pending s = (map token_of (sorted_list_of_set (pending s)), s\<lparr>pending := {}\<rparr>)"

definition begin_close :: "SessionLifecycle \<Rightarrow> PendingToken list op_result" where
  "begin_close s =
     (if state s \<in> {Closing, Closed} then (Inr [], s)
      else if state s \<notin> {Connecting, Discovering, Initializing, Ready, Failed}
      then (Inl IllegalTransition, s)
      else case drain_pending (s\<lparr>state := Closing\<rparr>) of (tokens, s') \<Rightarrow> (Inr tokens, s'))"

definition finish_close :: "SessionLifecycle \<Rightarrow> unit op_result" where
  "finish_close s =
     (if state s = Closing then (Inr (), clear_session (s\<lparr>state := Closed\<rparr>))
      else if state s = Closed then (Inr (), s)
      else (Inl IllegalTransition, s))"

definition disconnect :: "SessionLifecycle \<Rightarrow> PendingToken list \<times> SessionLifecycle" where
  "disconnect s = drain_pending (clear_session (s\<lparr>state := Disconnected\<rparr>))"

definition fail :: "SessionLifecycle \<Rightarrow> PendingToken list \<times> SessionLifecycle" where
  "fail s = drain_pending (clear_session (s\<lparr>state := Failed\<rparr>))"

definition begin_reconnect :: "SessionLifecycle \<Rightarrow> ReconnectResult op_result" where
  "begin_reconnect s =
     (if state s \<notin> {Ready, Failed, Disconnected, Closed} then (Inl IllegalTransition, s)
      else if reconnect_attempts s \<ge> MAX_RECONNECT_ATTEMPTS
      then (case drain_pending s of (tokens, s') \<Rightarrow>
              (Inl (ReconnectExhausted tokens), clear_session (s'\<lparr>state := Failed\<rparr>)))
      else case (checked_add (generation s) 1, checked_add (reconnect_attempts s) 1) of
             (None, _) \<Rightarrow> (Inl IdExhausted, s)
           | (Some _, None) \<Rightarrow> (Inl IdExhausted, s)
           | (Some _, Some next_attempt) \<Rightarrow>
               (case drain_pending s of (tokens, s') \<Rightarrow>
                  case begin_connect_inner (clear_session
                         (s'\<lparr>reconnect_attempts := next_attempt, state := Disconnected\<rparr>)) of
                    (Inl e, s'') \<Rightarrow> (Inl e, s'')
                  | (Inr g, s'') \<Rightarrow> (Inr \<lparr>new_generation = g, drained = tokens\<rparr>, s'')))"

definition retry_class :: "string \<Rightarrow> RetryClass" where
  "retry_class method =
     (if method = ''server/discover'' then SafeDiscovery
      else if method = ''ping'' then SafePing
      else if method \<in> {''tools/list'', ''resources/list'', ''prompts/list''} then SafeList
      else if method = ''resources/read'' then SafeRead
      else Never)"

lemmas lifecycle_ops =
  begin_connect_def begin_connect_inner_def begin_discovery_def begin_initialize_def
  bind_negotiation_def mark_legacy_initialized_def mark_ready_def allocate_and_reserve_def
  reserve_def complete_def cancel_def begin_close_def finish_close_def disconnect_def fail_def
  begin_reconnect_def clear_session_def drain_pending_def connectable_def

subsection \<open>A client's sequence of calls\<close>

datatype life_op =
    Op_Connect | Op_Discover | Op_Initialize | Op_Bind McpProtocolEra ServerCapabilities
  | Op_Legacy | Op_Ready | Op_Allocate | Op_Reserve PendingToken | Op_Complete PendingToken
  | Op_Cancel PendingToken | Op_Close | Op_Finish | Op_Disconnect | Op_Fail | Op_Reconnect

fun life_step :: "SessionLifecycle \<Rightarrow> life_op \<Rightarrow> SessionLifecycle" where
  "life_step s Op_Connect = snd (begin_connect s)"
| "life_step s Op_Discover = snd (begin_discovery s)"
| "life_step s Op_Initialize = snd (begin_initialize s)"
| "life_step s (Op_Bind e caps) = snd (bind_negotiation e caps s)"
| "life_step s Op_Legacy = snd (mark_legacy_initialized s)"
| "life_step s Op_Ready = snd (mark_ready s)"
| "life_step s Op_Allocate = snd (allocate_and_reserve s)"
| "life_step s (Op_Reserve t) = snd (reserve t s)"
| "life_step s (Op_Complete t) = snd (complete t s)"
| "life_step s (Op_Cancel t) = snd (cancel t s)"
| "life_step s Op_Close = snd (begin_close s)"
| "life_step s Op_Finish = snd (finish_close s)"
| "life_step s Op_Disconnect = snd (disconnect s)"
| "life_step s Op_Fail = snd (fail s)"
| "life_step s Op_Reconnect = snd (begin_reconnect s)"

text \<open>How often a call makes a token pending, and how often it hands one back.\<close>

fun issued :: "PendingKey \<Rightarrow> SessionLifecycle \<Rightarrow> life_op \<Rightarrow> nat" where
  "issued k s Op_Allocate =
     (case fst (allocate_and_reserve s) of Inr t \<Rightarrow> of_bool (key_of t = k) | Inl _ \<Rightarrow> 0)"
| "issued k s (Op_Reserve t) = of_bool (fst (reserve t s) = Inr () \<and> key_of t = k)"
| "issued k s _ = 0"

fun settled :: "PendingKey \<Rightarrow> SessionLifecycle \<Rightarrow> life_op \<Rightarrow> nat" where
  "settled k s (Op_Complete t) = of_bool (fst (complete t s) = Inr () \<and> key_of t = k)"
| "settled k s (Op_Cancel t) = of_bool (fst (cancel t s) = Inr () \<and> key_of t = k)"
| "settled k s Op_Close =
     (case fst (begin_close s) of Inr ts \<Rightarrow> count_list (map key_of ts) k | Inl _ \<Rightarrow> 0)"
| "settled k s Op_Disconnect = count_list (map key_of (fst (disconnect s))) k"
| "settled k s Op_Fail = count_list (map key_of (fst (fail s))) k"
| "settled k s Op_Reconnect =
     (case fst (begin_reconnect s) of
        Inr r \<Rightarrow> count_list (map key_of (drained r)) k
      | Inl (ReconnectExhausted ts) \<Rightarrow> count_list (map key_of ts) k
      | Inl _ \<Rightarrow> 0)"
| "settled k s _ = 0"

lemma key_of_token_of [simp]: "key_of (token_of k) = k"
  by (simp add: key_of_def token_of_def)

lemma token_of_key_of [simp]: "token_of (key_of t) = t"
  by (simp add: key_of_def token_of_def)

lemma map_key_of_token_of [simp]: "map (key_of \<circ> token_of) ks = ks"
  by (induction ks) auto

lemma count_list_distinct: "distinct xs \<Longrightarrow> count_list xs k = of_bool (k \<in> set xs)"
  by (induction xs) auto

lemma count_sorted_set:
  "finite A \<Longrightarrow> count_list (sorted_list_of_set A) k = of_bool (k \<in> A)"
  by (simp add: count_list_distinct)

lemma count_sorted_set_le: "count_list (sorted_list_of_set A) k \<le> of_bool (k \<in> A)"
  by (cases "finite A") (simp_all add: count_sorted_set)

subsection \<open>The invariant\<close>

definition negotiated :: "SessionLifecycle \<Rightarrow> bool" where
  "negotiated s \<longleftrightarrow>
     capabilities s \<noteq> None
     \<and> (era s = Some Modern20260728 \<or> era s = Some Legacy20251125 \<and> legacy_initialized s)"

definition pending_inv :: "SessionLifecycle \<Rightarrow> bool" where
  "pending_inv s \<longleftrightarrow>
     finite (pending s) \<and> card (pending s) \<le> MAX_PENDING_REQUESTS
     \<and> (\<forall>k \<in> pending s. key_generation k = generation s \<and> is_ok (validate_request_id (key_id k)))
     \<and> (state s \<noteq> Ready \<longrightarrow> state s \<noteq> Initializing \<longrightarrow> pending s = {})"

fun session_ok ::
  "SessionState \<Rightarrow> McpProtocolEra option \<Rightarrow> ServerCapabilities option \<Rightarrow> bool \<Rightarrow> bool" where
  "session_ok Discovering e caps l \<longleftrightarrow>
     \<not> l \<and> (e = None \<and> caps = None \<or> e = Some Modern20260728 \<and> caps \<noteq> None)"
| "session_ok Initializing e caps l \<longleftrightarrow>
     (e = None \<and> caps = None \<and> \<not> l) \<or> (e = Some Legacy20251125 \<and> caps \<noteq> None)"
| "session_ok Ready e caps l \<longleftrightarrow>
     caps \<noteq> None \<and> (e = Some Modern20260728 \<or> e = Some Legacy20251125 \<and> l)"
| "session_ok Closing e caps l \<longleftrightarrow> True"
| "session_ok st e caps l \<longleftrightarrow> e = None \<and> caps = None \<and> \<not> l"

definition session_inv :: "SessionLifecycle \<Rightarrow> bool" where
  "session_inv s \<longleftrightarrow> session_ok (state s) (era s) (capabilities s) (legacy_initialized s)"

definition counter_inv :: "SessionLifecycle \<Rightarrow> bool" where
  "counter_inv s \<longleftrightarrow> reconnect_attempts s \<le> MAX_RECONNECT_ATTEMPTS
     \<and> 0 \<le> next_id s \<and> next_id s \<le> int i64_max"

definition lifecycle_inv :: "SessionLifecycle \<Rightarrow> bool" where
  "lifecycle_inv s \<longleftrightarrow> pending_inv s \<and> session_inv s \<and> counter_inv s"

lemma lifecycle_inv_new: "lifecycle_inv new_lifecycle"
  by (simp add: lifecycle_inv_def pending_inv_def session_inv_def counter_inv_def
      new_lifecycle_def MAX_RECONNECT_ATTEMPTS_def)

lemma is_ok_Number [simp]: "is_ok (validate_request_id (Number i))"
  by (simp add: validate_request_id_def)

lemma card_insert_bound: "finite A \<Longrightarrow> card A < n \<Longrightarrow> card (insert k A) \<le> n"
  by (simp add: card_insert_if)

lemma attempts_bound:
  assumes "\<not> MAX_RECONNECT_ATTEMPTS \<le> a" and "checked_add a 1 = Some b"
  shows "b \<le> MAX_RECONNECT_ATTEMPTS"
proof -
  have "unat b = unat a + 1" using assms(2) unat_checked_add by fastforce
  moreover have "unat a < 3"
    using assms(1) by (simp add: MAX_RECONNECT_ATTEMPTS_def word_le_nat_alt)
  ultimately show ?thesis by (simp add: MAX_RECONNECT_ATTEMPTS_def word_le_nat_alt)
qed



text \<open>The outcomes of a reconnect, with the final state written out.\<close>

definition reset_session ::
  "SessionState \<Rightarrow> u64 \<Rightarrow> u32 \<Rightarrow> SessionLifecycle \<Rightarrow> SessionLifecycle" where
  "reset_session st g a s = \<lparr>state = st, generation = g, era = None, capabilities = None,
     legacy_initialized = False, pending = {}, reconnect_attempts = a, next_id = next_id s\<rparr>"

lemma begin_reconnect_cases:
  obtains (refused) e where "e = IllegalTransition \<or> e = IdExhausted"
      and "begin_reconnect s = (Inl e, s)"
  | (exhausted) "MAX_RECONNECT_ATTEMPTS \<le> reconnect_attempts s"
      and "begin_reconnect s =
        (Inl (ReconnectExhausted (map token_of (sorted_list_of_set (pending s)))),
         reset_session Failed (generation s) (reconnect_attempts s) s)"
  | (again) g a where "checked_add (generation s) 1 = Some g"
      and "checked_add (reconnect_attempts s) 1 = Some a"
      and "\<not> MAX_RECONNECT_ATTEMPTS \<le> reconnect_attempts s"
      and "state s \<in> {Ready, Failed, Disconnected, Closed}"
      and "begin_reconnect s =
        (Inr \<lparr>new_generation = g, drained = map token_of (sorted_list_of_set (pending s))\<rparr>,
         reset_session Connecting g a s)"
proof -
  consider "state s \<notin> {Ready, Failed, Disconnected, Closed}"
    | "state s \<in> {Ready, Failed, Disconnected, Closed}"
      "MAX_RECONNECT_ATTEMPTS \<le> reconnect_attempts s"
    | "\<not> MAX_RECONNECT_ATTEMPTS \<le> reconnect_attempts s"
      "checked_add (generation s) 1 = None \<or> checked_add (reconnect_attempts s) 1 = None"
    | g a where "state s \<in> {Ready, Failed, Disconnected, Closed}"
      "\<not> MAX_RECONNECT_ATTEMPTS \<le> reconnect_attempts s"
      "checked_add (generation s) 1 = Some g" "checked_add (reconnect_attempts s) 1 = Some a"
    by fastforce
  then show thesis
  proof cases
    case 1
    then have "begin_reconnect s = (Inl IllegalTransition, s)" by (simp add: begin_reconnect_def)
    then show thesis by (rule refused [rotated]) simp
  next
    case 2
    then have "begin_reconnect s =
        (Inl (ReconnectExhausted (map token_of (sorted_list_of_set (pending s)))),
         reset_session Failed (generation s) (reconnect_attempts s) s)"
      unfolding begin_reconnect_def drain_pending_def clear_session_def reset_session_def
      by (cases s) simp
    then show thesis using 2 exhausted by blast
  next
    case 3
    then have "begin_reconnect s = (Inl IllegalTransition, s)
        \<or> begin_reconnect s = (Inl IdExhausted, s)"
      by (cases "checked_add (generation s) 1"; cases "checked_add (reconnect_attempts s) 1";
          simp add: begin_reconnect_def)
    then show thesis using refused by blast
  next
    case 4
    have "begin_reconnect s =
        (Inr \<lparr>new_generation = g, drained = map token_of (sorted_list_of_set (pending s))\<rparr>,
         reset_session Connecting g a s)"
      using 4 unfolding begin_reconnect_def begin_connect_inner_def connectable_def
        drain_pending_def clear_session_def reset_session_def
      by (cases s) simp
    with 4 show thesis by (intro again)
  qed
qed

text \<open>Each part of the invariant through each operation.\<close>

lemma pending_inv_step: "pending_inv s \<Longrightarrow> pending_inv (life_step s x)"
proof (cases x)
  case (Op_Reserve t)
  assume "pending_inv s"
  then show ?thesis
    by (auto simp: Op_Reserve reserve_def pending_inv_def key_of_def card_insert_bound)
next
  case (Op_Complete t)
  assume "pending_inv s"
  then show ?thesis
    by (auto simp: Op_Complete complete_def pending_inv_def dest: order_trans [OF card_Diff1_le])
next
  case (Op_Cancel t)
  assume "pending_inv s"
  then show ?thesis
    by (auto simp: Op_Cancel cancel_def complete_def pending_inv_def
        dest: order_trans [OF card_Diff1_le])
next
  case Op_Allocate
  assume "pending_inv s"
  then show ?thesis
    by (auto simp: Op_Allocate allocate_and_reserve_def pending_inv_def Let_def key_of_def
        card_insert_bound)
next
  case Op_Ready
  assume "pending_inv s"
  then show ?thesis by (simp add: Op_Ready mark_ready_def pending_inv_def)
next
  case Op_Reconnect
  assume "pending_inv s"
  then show ?thesis
    by (cases rule: begin_reconnect_cases [of s])
       (simp_all add: Op_Reconnect reset_session_def pending_inv_def)
qed (simp_all add: lifecycle_ops pending_inv_def Let_def split: option.split)

lemma session_inv_step: "session_inv s \<Longrightarrow> session_inv (life_step s x)"
proof (cases x)
  case (Op_Bind e caps)
  assume "session_inv s"
  then show ?thesis
    by (cases "state s") (auto simp: Op_Bind bind_negotiation_def session_inv_def is_modern_def
        Let_def SUPPORTED_PROTOCOL_ERAS_def)
next
  case Op_Ready
  assume "session_inv s"
  then show ?thesis by (cases "state s") (auto simp: Op_Ready mark_ready_def session_inv_def)
next
  case Op_Reconnect
  assume "session_inv s"
  then show ?thesis
    by (cases rule: begin_reconnect_cases [of s])
       (simp_all add: Op_Reconnect reset_session_def session_inv_def)
qed (cases "state s"; simp add: lifecycle_ops session_inv_def Let_def split: option.split)+

lemma counter_inv_step: "counter_inv s \<Longrightarrow> counter_inv (life_step s x)"
proof (cases x)
  case Op_Reconnect
  assume "counter_inv s"
  then show ?thesis
    by (cases rule: begin_reconnect_cases [of s])
       (simp_all add: Op_Reconnect reset_session_def counter_inv_def attempts_bound)
next
  case Op_Connect
  assume "counter_inv s"
  then show ?thesis
    by (simp add: Op_Connect begin_connect_def begin_connect_inner_def connectable_def
        counter_inv_def MAX_RECONNECT_ATTEMPTS_def split: option.split)
qed (simp_all add: lifecycle_ops counter_inv_def Let_def split: option.split)

interpretation life_inv: op_invariant life_step lifecycle_inv
  by unfold_locales
     (simp add: lifecycle_inv_def pending_inv_step session_inv_step counter_inv_step)


subsection \<open>Pending requests\<close>

lemmas lifecycle_frame =
  begin_discovery_def begin_initialize_def bind_negotiation_def mark_legacy_initialized_def
  mark_ready_def finish_close_def clear_session_def Let_def

lemma pending_step:
  "of_bool (k \<in> pending (life_step s x)) + settled k s x
     \<le> (of_bool (k \<in> pending s) + issued k s x :: nat)"
proof (cases x)
  case Op_Connect
  then show ?thesis
    by (simp add: begin_connect_def begin_connect_inner_def connectable_def split: option.split)
next
  case Op_Reconnect
  then show ?thesis
    by (cases rule: begin_reconnect_cases [of s])
       (auto simp: reset_session_def count_sorted_set_le)
qed (auto simp: lifecycle_frame allocate_and_reserve_def reserve_def cancel_def complete_def
      begin_close_def disconnect_def fail_def drain_pending_def count_sorted_set_le)

lemma pending_request_kept:
  "pending_inv s \<Longrightarrow>
     (of_bool (k \<in> pending s) :: nat) \<le> of_bool (k \<in> pending (life_step s x)) + settled k s x"
proof (cases x)
  case Op_Connect
  then show ?thesis
    by (simp add: begin_connect_def begin_connect_inner_def connectable_def split: option.split)
next
  case Op_Reconnect
  assume "pending_inv s"
  with Op_Reconnect show ?thesis
    by (cases rule: begin_reconnect_cases [of s])
       (simp_all add: reset_session_def count_sorted_set pending_inv_def)
qed (auto simp: lifecycle_frame allocate_and_reserve_def reserve_def cancel_def complete_def
      begin_close_def disconnect_def fail_def drain_pending_def count_sorted_set pending_inv_def)

interpretation requests: exact_stock life_step "\<lambda>s. of_bool (k \<in> pending s)" "issued k" "settled k"
    pending_inv
  by unfold_locales (simp_all add: pending_step pending_request_kept pending_inv_step)

lemma pending_inv_new: "pending_inv (run_ops life_step new_lifecycle ops)"
  using life_inv.run_keeps_inv [OF lifecycle_inv_new] by (simp add: lifecycle_inv_def)

subsection \<open>Generations\<close>

lemma generation_step: "generation s \<le> generation (life_step s x)"
proof -
  have *: "checked_add a 1 = Some b \<Longrightarrow> a \<le> b" for a b :: u64
    using unat_checked_add [of a 1 b] by (simp add: word_le_nat_alt)
  show ?thesis
  proof (cases x)
    case Op_Connect
    then show ?thesis
      by (auto simp: begin_connect_def begin_connect_inner_def * split: option.split)
  next
    case Op_Reconnect
    then show ?thesis
      by (cases rule: begin_reconnect_cases [of s]) (auto simp: reset_session_def *)
  qed (auto simp: lifecycle_frame allocate_and_reserve_def reserve_def cancel_def complete_def
      begin_close_def disconnect_def fail_def drain_pending_def)
qed

lemma generation_run: "generation s \<le> generation (run_ops life_step s ops)"
  by (induction ops arbitrary: s) (auto intro: order_trans generation_step)

lemma complete_other_generation:
  "pending_inv s \<Longrightarrow> token_generation t \<noteq> generation s \<Longrightarrow> complete t s = (Inl UnknownResponse, s)"
  by (auto simp: complete_def pending_inv_def key_of_def)

subsection \<open>Reconnects\<close>

fun reconnected :: "SessionLifecycle \<Rightarrow> life_op \<Rightarrow> nat" where
  "reconnected s Op_Reconnect = of_bool (is_ok (fst (begin_reconnect s)))"
| "reconnected s _ = 0"

fun connected :: "SessionLifecycle \<Rightarrow> life_op \<Rightarrow> nat" where
  "connected s Op_Connect = of_bool (is_ok (fst (begin_connect s)))"
| "connected s _ = 0"

lemma attempts_unat:
  assumes "\<not> MAX_RECONNECT_ATTEMPTS \<le> a" and "checked_add a 1 = Some b"
  shows "unat b = unat a + 1" and "unat a < 3"
  using assms(1) unat_checked_add [OF assms(2)]
  by (simp_all add: MAX_RECONNECT_ATTEMPTS_def word_le_nat_alt)

interpretation reconnects: conserved_stock life_step "\<lambda>s. 3 - unat (reconnect_attempts s)"
    "\<lambda>s x. 3 * connected s x" reconnected
proof
  fix s x
  show "3 - unat (reconnect_attempts (life_step s x)) + reconnected s x
      \<le> 3 - unat (reconnect_attempts s) + 3 * connected s x"
  proof (cases x)
    case Op_Connect
    then show ?thesis
      by (auto simp: begin_connect_def begin_connect_inner_def connectable_def split: option.splits)
  next
    case Op_Reconnect
    show ?thesis
    proof (cases rule: begin_reconnect_cases [of s])
      case (again g a)
      with attempts_unat [OF again(3,2)] Op_Reconnect show ?thesis
        by (simp add: reset_session_def)
    qed (auto simp: Op_Reconnect reset_session_def)
  qed (auto simp: lifecycle_frame allocate_and_reserve_def reserve_def cancel_def complete_def
      begin_close_def disconnect_def fail_def drain_pending_def)
qed

text \<open>A modern session that is ready, for the examples.\<close>

definition ready_session :: "PendingKey set \<Rightarrow> int \<Rightarrow> SessionLifecycle" where
  "ready_session ks n = \<lparr>state = Ready, generation = 1, era = Some Modern20260728,
     capabilities = Some no_capabilities, legacy_initialized = False, pending = ks,
     reconnect_attempts = 0, next_id = n\<rparr>"

definition ready_calls :: "life_op list" where
  "ready_calls = [Op_Connect, Op_Discover, Op_Bind Modern20260728 no_capabilities, Op_Ready]"

lemma run_ready_calls:
  "run_ops life_step new_lifecycle ready_calls = ready_session {} 0"
  by (simp add: ready_calls_def ready_session_def lifecycle_ops new_lifecycle_def checked_add_def is_modern_def
      SUPPORTED_PROTOCOL_ERAS_def Let_def)

subsection \<open>Properties\<close>

text \<open>
  Property C38: from a new lifecycle, whatever the calls, at most 64 requests are pending, all of
  them of the current generation with valid ids and only while a session is being initialized
  or ready; a ready session has negotiated capabilities and a supported era, a legacy one after
  its initialized notification; a session that is not connected has no era; and at most three
  reconnect attempts are counted.
\<close>

theorem lifecycle_invariant: "lifecycle_inv (run_ops life_step new_lifecycle ops)"
  by (rule life_inv.run_keeps_inv [OF lifecycle_inv_new])

text \<open>
  Property C33: a request that is pending and is not issued again is, over any further calls,
  either still pending or handed back exactly once: completed, cancelled or drained.
\<close>

theorem pending_settled_exactly_once:
  assumes "s = run_ops life_step new_lifecycle before" and "k \<in> pending s"
    and "run_sum life_step (issued k) s ops = 0"
  shows "of_bool (k \<in> pending (run_ops life_step s ops))
     + run_sum life_step (settled k) s ops = (1 :: nat)"
  using requests.held_given_once [of s k ops] pending_inv_new assms by simp

theorem pending_settled_exactly_once_witness:
  "of_bool (PendingKey 1 (Number 1) \<in> pending (run_ops life_step
       (run_ops life_step new_lifecycle (ready_calls @ [Op_Allocate])) [Op_Disconnect]))
     + run_sum life_step (settled (PendingKey 1 (Number 1)))
         (run_ops life_step new_lifecycle (ready_calls @ [Op_Allocate])) [Op_Disconnect] = (1 :: nat)"
proof (rule pending_settled_exactly_once [OF refl])
  show "PendingKey 1 (Number 1)
      \<in> pending (run_ops life_step new_lifecycle (ready_calls @ [Op_Allocate]))"
    by (simp add: run_ops_append run_ready_calls allocate_and_reserve_def ready_session_def
        i64_max_def MAX_PENDING_REQUESTS_def Let_def key_of_def)
qed simp

text \<open>
  Property: no request is ever handed back more often than it was issued.
\<close>

theorem settled_at_most_issued:
  "of_bool (k \<in> pending (run_ops life_step new_lifecycle ops))
     + run_sum life_step (settled k) new_lifecycle ops
   \<le> run_sum life_step (issued k) new_lifecycle ops"
  using requests.given_out_bounded [of k new_lifecycle ops] by (simp add: new_lifecycle_def)

text \<open>
  Property: once a connect or reconnect has moved the session to another generation, a token
  that was pending before is refused for ever and refusing it changes nothing.
\<close>

theorem stale_tokens_refused:
  assumes "s = run_ops life_step new_lifecycle ops" and "key_of t \<in> pending s"
    and "s' = run_ops life_step s ops'" and "generation s' \<noteq> generation s"
    and "s'' = run_ops life_step s' ops''"
  shows "complete t s'' = (Inl UnknownResponse, s'')"
proof (rule complete_other_generation)
  show "pending_inv s''"
    using pending_inv_new [of "ops @ ops' @ ops''"] assms by (simp add: run_ops_append)
  have "token_generation t = generation s"
    using pending_inv_new assms(1,2) by (fastforce simp: pending_inv_def key_of_def)
  moreover have "generation s < generation s''"
    using generation_run [of s ops'] generation_run [of s' ops''] assms(3-5) by fastforce
  ultimately show "token_generation t \<noteq> generation s''" by simp
qed

theorem stale_tokens_refused_witness:
  "complete \<lparr>token_generation = 1, token_id = Number 1\<rparr>
     (run_ops life_step new_lifecycle (ready_calls @ [Op_Allocate, Op_Reconnect, Op_Discover]))
   = (Inl UnknownResponse,
      run_ops life_step new_lifecycle (ready_calls @ [Op_Allocate, Op_Reconnect, Op_Discover]))"
proof (rule stale_tokens_refused [OF refl])
  let ?s = "run_ops life_step new_lifecycle (ready_calls @ [Op_Allocate])"
  let ?t = "run_ops life_step ?s [Op_Reconnect]"
  have s: "?s = ready_session {PendingKey 1 (Number 1)} 1"
    by (simp add: run_ops_append run_ready_calls allocate_and_reserve_def ready_session_def
        i64_max_def MAX_PENDING_REQUESTS_def Let_def key_of_def)
  show "key_of \<lparr>token_generation = 1, token_id = Number 1\<rparr> \<in> pending ?s"
    unfolding s by (simp add: key_of_def ready_session_def)
  show "?t = run_ops life_step ?s [Op_Reconnect]" by (rule refl)
  show "generation ?t \<noteq> generation ?s"
    unfolding s by (simp add: lifecycle_ops ready_session_def checked_add_def
        MAX_RECONNECT_ATTEMPTS_def)
  show "run_ops life_step new_lifecycle (ready_calls @ [Op_Allocate, Op_Reconnect, Op_Discover])
      = run_ops life_step ?t [Op_Discover]"
    by (simp add: run_ops_append)
qed

text \<open>
  Property: between two fresh connects at most three reconnects succeed.
\<close>

theorem reconnects_bounded:
  "run_sum life_step reconnected s ops \<le> 3 + 3 * run_sum life_step connected s ops"
proof -
  have "run_sum life_step (\<lambda>s x. 3 * connected s x) s ops = 3 * run_sum life_step connected s ops"
    by (induction ops arbitrary: s) auto
  then show ?thesis using reconnects.given_out_bounded [of s ops] by simp
qed


text \<open>
  Property: \<open>allocate_and_reserve\<close> does not look whether the id it allocates is pending: after
  a client reserved the next number itself, it returns the token that is already pending.
\<close>

theorem allocate_returns_pending_token:
  "\<exists>s t. s = run_ops life_step new_lifecycle (ready_calls @ [Op_Reserve t])
     \<and> key_of t \<in> pending s \<and> fst (allocate_and_reserve s) = Inr t
     \<and> pending (snd (allocate_and_reserve s)) = pending s"
proof (intro exI conjI)
  let ?t = "\<lparr>token_generation = 1, token_id = Number 1\<rparr>"
  let ?s = "run_ops life_step new_lifecycle (ready_calls @ [Op_Reserve ?t])"
  have s: "?s = ready_session {PendingKey 1 (Number 1)} 0"
    by (simp add: run_ops_append run_ready_calls reserve_def ready_session_def
        MAX_PENDING_REQUESTS_def key_of_def)
  show "?s = ?s" by (rule refl)
  show "key_of ?t \<in> pending ?s" "fst (allocate_and_reserve ?s) = Inr ?t"
    "pending (snd (allocate_and_reserve ?s)) = pending ?s"
    unfolding s by (simp_all add: allocate_and_reserve_def ready_session_def i64_max_def
        MAX_PENDING_REQUESTS_def Let_def key_of_def)
qed

end
