(* ===== verification/Mcp_Model.thy ===== *)
theory Mcp_Model
  imports Mcp_Capabilities Mcp_Request_Id Mcp_Core
begin

section \<open>MCP tools, resources, prompts and content (\<open>mcp/model.rs\<close>)\<close>

text \<open>
  The messages of \<open>crates/gobrowse-core/src/mcp/model.rs\<close> and their \<open>validate_mcp\<close> methods.
  Two parameters stand for other crates: \<open>b64\<close> for the standard base64 decoder and
  \<open>to_vec\<close> for \<open>serde_json::to_vec\<close>.  A \<open>BTreeMap\<close> is a list of pairs in key order.
\<close>

record ClientInfo =
  info_name :: string
  info_version :: string

record InitializeParams =
  ip_protocol_version :: string
  ip_capabilities :: ClientCapabilities
  ip_client_info :: ClientInfo

record DiscoverResult =
  supported_versions :: "string list"
  dr_capabilities :: ServerCapabilities
  dr_server_info :: "ClientInfo option"

record InitializeResult =
  ir_protocol_version :: string
  ir_capabilities :: ServerCapabilities
  ir_server_info :: ClientInfo
  ir_instructions :: "string option"

record Tool =
  tool_name :: string
  tool_title :: "string option"
  tool_description :: "string option"
  input_schema :: json
  output_schema :: "json option"

record ToolCallParams =
  call_name :: string
  call_arguments :: json

record EmbeddedResource =
  er_uri :: string
  er_mime_type :: "string option"
  er_text :: "string option"
  er_blob :: "string option"

datatype Content =
    Content_Text string
  | Content_Image string string
  | Content_Audio string string
  | Content_Resource EmbeddedResource

record ToolCallResult =
  call_content :: "Content list"
  is_error :: bool
  structured_content :: "json option"

record Resource =
  resource_uri :: string
  resource_name :: string
  resource_description :: "string option"
  resource_mime_type :: "string option"

record ResourceReadParams =
  read_uri :: string

record ResourceContent =
  rc_uri :: string
  rc_mime_type :: "string option"
  rc_text :: "string option"
  rc_blob :: "string option"

record ResourceReadResult =
  read_contents :: "ResourceContent list"

record PromptArgument =
  argument_name :: string
  argument_description :: "string option"
  argument_required :: bool

record Prompt =
  prompt_name :: string
  prompt_description :: "string option"
  prompt_arguments :: "PromptArgument list"

record PromptGetParams =
  get_name :: string
  get_arguments :: "(string \<times> string) list"

datatype PromptRole = User | Assistant

record PromptMessage =
  msg_role :: PromptRole
  msg_content :: Content

record PromptGetResult =
  get_description :: "string option"
  get_messages :: "PromptMessage list"

record 'a Paginated =
  page_items :: "'a list"
  next_cursor :: "string option"

record ListParams =
  list_cursor :: "string option"

record CancelledParams =
  cancelled_id :: RequestId
  cancelled_reason :: "string option"

record ResourceSubscriptionParams =
  subscription_uri :: string

record ResourceUpdatedParams =
  updated_uri :: string

record ProgressParams =
  progress_token :: RequestId
  progress_done :: u64
  progress_total :: "u64 option"

datatype LoggingLevel =
    Level_Debug | Level_Info | Level_Notice | Level_Warning | Level_Error | Level_Critical
  | Level_Alert | Level_Emergency

record LoggingMessageParams =
  log_level :: LoggingLevel
  log_data :: json
  log_logger :: "string option"

subsection \<open>Validation\<close>

definition valid_name :: "string \<Rightarrow> ValidationError + unit" where
  "valid_name s = validate_identifier s"

definition valid_text :: "string \<Rightarrow> ValidationError + unit" where
  "valid_text s = validate_metadata_text s"

definition valid_mime :: "string \<Rightarrow> ValidationError + unit" where
  "valid_mime s = validate_mime s"

definition valid_info :: "ClientInfo \<Rightarrow> ValidationError + unit" where
  "valid_info i = and_then (valid_name (info_name i)) (\<lambda>_. valid_name (info_version i))"

definition validate_initialize_params :: "InitializeParams \<Rightarrow> ValidationError + unit" where
  "validate_initialize_params p =
     and_then (valid_name (ip_protocol_version p)) (\<lambda>_.
     and_then (validate_client_capabilities (ip_capabilities p)) (\<lambda>_.
       valid_info (ip_client_info p)))"

text \<open>\<open>any(|version| !seen.insert(version) || \<dots>)\<close> over a set of seen versions.\<close>

fun repeated_or_unknown :: "string set \<Rightarrow> string list \<Rightarrow> bool" where
  "repeated_or_unknown seen [] \<longleftrightarrow> False"
| "repeated_or_unknown seen (v # vs) \<longleftrightarrow>
     v \<in> seen \<or> from_wire_version v = None \<or> repeated_or_unknown (insert v seen) vs"

definition validate_discover_result :: "DiscoverResult \<Rightarrow> ValidationError + unit" where
  "validate_discover_result d =
     and_then (validate_collection_len (length (supported_versions d))) (\<lambda>_.
       if supported_versions d = [] \<or> list_ex (\<lambda>v. v = []) (supported_versions d)
       then Inl InvalidValue
       else if repeated_or_unknown {} (supported_versions d) then Inl InvalidValue
       else and_then (validate_server_capabilities (dr_capabilities d)) (\<lambda>_.
              if_some valid_info (dr_server_info d)))"

definition validate_initialize_result :: "InitializeResult \<Rightarrow> ValidationError + unit" where
  "validate_initialize_result r =
     and_then (valid_name (ir_protocol_version r)) (\<lambda>_.
     and_then (validate_server_capabilities (ir_capabilities r)) (\<lambda>_.
     and_then (if_some valid_text (ir_instructions r)) (\<lambda>_.
       valid_info (ir_server_info r))))"

definition validate_schema ::
  "(json \<Rightarrow> string option) \<Rightarrow> string \<Rightarrow> json \<Rightarrow> ValidationError + unit" where
  "validate_schema to_vec name v =
     (if check_status (validate_tool_schema to_vec name v) = St_Fail then Inl InvalidValue
      else validate_json v)"

definition validate_blob :: "(string \<Rightarrow> string option) \<Rightarrow> string \<Rightarrow> ValidationError + unit" where
  "validate_blob b64 s =
     (if length s > MAX_CONTENT_BYTES * 4 div 3 + 4 then Inl ContentTooLarge
      else and_then (ok_or (b64 s) InvalidValue) (\<lambda>decoded.
             ensure (length decoded \<le> MAX_CONTENT_BYTES) ContentTooLarge))"

definition validate_tool :: "(json \<Rightarrow> string option) \<Rightarrow> Tool \<Rightarrow> ValidationError + unit" where
  "validate_tool to_vec t =
     and_then (valid_name (tool_name t)) (\<lambda>_.
     and_then (if_some valid_text (tool_title t)) (\<lambda>_.
     and_then (if_some valid_text (tool_description t)) (\<lambda>_.
     and_then (validate_schema to_vec (tool_name t) (input_schema t)) (\<lambda>_.
       if_some (validate_schema to_vec (tool_name t)) (output_schema t)))))"

definition validate_tool_call_params :: "ToolCallParams \<Rightarrow> ValidationError + unit" where
  "validate_tool_call_params p =
     and_then (valid_name (call_name p)) (\<lambda>_. validate_json (call_arguments p))"

text \<open>The four optional fields an embedded resource and a read result share.\<close>

definition validate_resource_fields ::
  "(string \<Rightarrow> string option) \<Rightarrow> string \<Rightarrow> string option \<Rightarrow> string option \<Rightarrow> string option
     \<Rightarrow> ValidationError + unit" where
  "validate_resource_fields b64 uri mime_type txt blob =
     and_then (validate_uri uri) (\<lambda>_.
     and_then (if_some valid_mime mime_type) (\<lambda>_.
       if txt \<noteq> None \<and> blob \<noteq> None then Inl InvalidValue
       else and_then (if_some validate_content_text txt) (\<lambda>_.
              if_some (validate_blob b64) blob)))"

definition validate_embedded_resource ::
  "(string \<Rightarrow> string option) \<Rightarrow> EmbeddedResource \<Rightarrow> ValidationError + unit" where
  "validate_embedded_resource b64 r =
     validate_resource_fields b64 (er_uri r) (er_mime_type r) (er_text r) (er_blob r)"

fun validate_content :: "(string \<Rightarrow> string option) \<Rightarrow> Content \<Rightarrow> ValidationError + unit" where
  "validate_content b64 (Content_Text t) = validate_content_text t"
| "validate_content b64 (Content_Image d mime_type) =
     and_then (valid_mime mime_type) (\<lambda>_. validate_blob b64 d)"
| "validate_content b64 (Content_Audio d mime_type) =
     and_then (valid_mime mime_type) (\<lambda>_. validate_blob b64 d)"
| "validate_content b64 (Content_Resource r) = validate_embedded_resource b64 r"

definition validate_resource :: "Resource \<Rightarrow> ValidationError + unit" where
  "validate_resource r =
     and_then (validate_uri (resource_uri r)) (\<lambda>_.
     and_then (valid_name (resource_name r)) (\<lambda>_.
     and_then (if_some valid_text (resource_description r)) (\<lambda>_.
       if_some valid_mime (resource_mime_type r))))"

definition validate_resource_read_params :: "ResourceReadParams \<Rightarrow> ValidationError + unit" where
  "validate_resource_read_params p = validate_uri (read_uri p)"

definition validate_resource_content ::
  "(string \<Rightarrow> string option) \<Rightarrow> ResourceContent \<Rightarrow> ValidationError + unit" where
  "validate_resource_content b64 r =
     validate_resource_fields b64 (rc_uri r) (rc_mime_type r) (rc_text r) (rc_blob r)"

definition validate_prompt_argument :: "PromptArgument \<Rightarrow> ValidationError + unit" where
  "validate_prompt_argument a =
     and_then (valid_name (argument_name a)) (\<lambda>_. if_some valid_text (argument_description a))"

definition validate_prompt :: "Prompt \<Rightarrow> ValidationError + unit" where
  "validate_prompt p =
     and_then (valid_name (prompt_name p)) (\<lambda>_.
     and_then (if_some valid_text (prompt_description p)) (\<lambda>_.
     and_then (validate_collection_len (length (prompt_arguments p))) (\<lambda>_.
       try_for_each validate_prompt_argument (prompt_arguments p))))"

definition validate_prompt_get_params :: "PromptGetParams \<Rightarrow> ValidationError + unit" where
  "validate_prompt_get_params p =
     and_then (valid_name (get_name p)) (\<lambda>_.
     and_then (validate_collection_len (length (get_arguments p))) (\<lambda>_.
       try_for_each (\<lambda>(name, v). and_then (valid_name name) (\<lambda>_. valid_text v))
         (get_arguments p)))"

definition validate_prompt_message ::
  "(string \<Rightarrow> string option) \<Rightarrow> PromptMessage \<Rightarrow> ValidationError + unit" where
  "validate_prompt_message b64 m = validate_content b64 (msg_content m)"

definition validate_tool_call_result ::
  "(string \<Rightarrow> string option) \<Rightarrow> ToolCallResult \<Rightarrow> ValidationError + unit" where
  "validate_tool_call_result b64 r =
     and_then (validate_collection_len (length (call_content r))) (\<lambda>_.
     and_then (try_for_each (validate_content b64) (call_content r)) (\<lambda>_.
       if_some validate_json (structured_content r)))"

text \<open>The loop over the contents keeps the set of the uris it has seen.\<close>

fun read_contents_loop ::
  "(string \<Rightarrow> string option) \<Rightarrow> string set \<Rightarrow> ResourceContent list \<Rightarrow> ValidationError + unit" where
  "read_contents_loop b64 seen [] = Inr ()"
| "read_contents_loop b64 seen (c # cs) =
     (if rc_uri c \<in> seen then Inl InvalidValue
      else and_then (validate_resource_content b64 c) (\<lambda>_.
             read_contents_loop b64 (insert (rc_uri c) seen) cs))"

definition validate_resource_read_result ::
  "(string \<Rightarrow> string option) \<Rightarrow> ResourceReadResult \<Rightarrow> ValidationError + unit" where
  "validate_resource_read_result b64 r =
     and_then (validate_collection_len (length (read_contents r))) (\<lambda>_.
       read_contents_loop b64 {} (read_contents r))"

definition validate_prompt_get_result ::
  "(string \<Rightarrow> string option) \<Rightarrow> PromptGetResult \<Rightarrow> ValidationError + unit" where
  "validate_prompt_get_result b64 r =
     and_then (if_some valid_text (get_description r)) (\<lambda>_.
     and_then (validate_collection_len (length (get_messages r))) (\<lambda>_.
       try_for_each (validate_prompt_message b64) (get_messages r)))"

definition validate_page_bounds ::
  "('a \<Rightarrow> ValidationError + unit) \<Rightarrow> 'a Paginated \<Rightarrow> ValidationError + unit" where
  "validate_page_bounds validate_item page =
     and_then (validate_collection_len (length (page_items page))) (\<lambda>_.
     and_then (validate_cursor (next_cursor page)) (\<lambda>_.
       try_for_each validate_item (page_items page)))"

fun no_repeat :: "string set \<Rightarrow> string list \<Rightarrow> ValidationError + unit" where
  "no_repeat seen [] = Inr ()"
| "no_repeat seen (k # ks) = (if k \<in> seen then Inl InvalidValue else no_repeat (insert k seen) ks)"

definition validate_tool_page ::
  "(json \<Rightarrow> string option) \<Rightarrow> Tool Paginated \<Rightarrow> ValidationError + unit" where
  "validate_tool_page to_vec page =
     and_then (validate_page_bounds (validate_tool to_vec) page) (\<lambda>_.
       no_repeat {} (map tool_name (page_items page)))"

definition validate_resource_page :: "Resource Paginated \<Rightarrow> ValidationError + unit" where
  "validate_resource_page page =
     and_then (validate_page_bounds validate_resource page) (\<lambda>_.
       no_repeat {} (map resource_uri (page_items page)))"

definition validate_prompt_page :: "Prompt Paginated \<Rightarrow> ValidationError + unit" where
  "validate_prompt_page page =
     and_then (validate_page_bounds validate_prompt page) (\<lambda>_.
       no_repeat {} (map prompt_name (page_items page)))"

definition validate_list_params :: "ListParams \<Rightarrow> ValidationError + unit" where
  "validate_list_params p = validate_cursor (list_cursor p)"

definition validate_cancelled_params :: "CancelledParams \<Rightarrow> ValidationError + unit" where
  "validate_cancelled_params p =
     and_then (map_err (\<lambda>_. InvalidValue) (validate_request_id (cancelled_id p))) (\<lambda>_.
       if_some valid_text (cancelled_reason p))"

definition validate_subscription_params :: "ResourceSubscriptionParams \<Rightarrow> ValidationError + unit" where
  "validate_subscription_params p = validate_uri (subscription_uri p)"

definition validate_updated_params :: "ResourceUpdatedParams \<Rightarrow> ValidationError + unit" where
  "validate_updated_params p = validate_uri (updated_uri p)"

definition validate_progress_params :: "ProgressParams \<Rightarrow> ValidationError + unit" where
  "validate_progress_params p =
     map_err (\<lambda>_. InvalidValue) (validate_request_id (progress_token p))"

definition validate_logging_params :: "LoggingMessageParams \<Rightarrow> ValidationError + unit" where
  "validate_logging_params p =
     and_then (if_some valid_name (log_logger p)) (\<lambda>_. validate_json (log_data p))"

subsection \<open>What is accepted\<close>

text \<open>
  The contract of a \<open>ValidateMcp\<close> type whose values are listed in pages: its validator accepts
  exactly the well-formed values.  Pages of it are then accepted exactly when they are short,
  their cursor is well-formed, and their items are well-formed with distinct keys.
\<close>

definition cursor_ok :: "string option \<Rightarrow> bool" where
  "cursor_ok cur \<longleftrightarrow> (\<forall>c. cur = Some c \<longrightarrow>
     c \<noteq> [] \<and> length c \<le> MAX_CURSOR_BYTES \<and> \<not> list_ex is_control (str_chars c))"

lemma validate_cursor_iff [validator_iff]: "validate_cursor cur = Inr u \<longleftrightarrow> cursor_ok cur"
  by (auto simp: validate_cursor_def cursor_ok_def split: option.splits)

lemma no_repeat_iff [validator_iff]:
  "no_repeat seen ks = Inr u \<longleftrightarrow> distinct ks \<and> set ks \<inter> seen = {}"
  by (induction ks arbitrary: seen) auto

locale paged_items =
  fixes validate_item :: "'a \<Rightarrow> ValidationError + unit"
    and item_key :: "'a \<Rightarrow> string"
    and item_ok :: "'a \<Rightarrow> bool"
  assumes validates: "validate_item x = Inr () \<longleftrightarrow> item_ok x"
begin

definition page_ok :: "'a Paginated \<Rightarrow> bool" where
  "page_ok page \<longleftrightarrow>
     length (page_items page) \<le> MAX_ITEMS \<and> cursor_ok (next_cursor page)
     \<and> distinct (map item_key (page_items page)) \<and> (\<forall>x \<in> set (page_items page). item_ok x)"

lemma page_accepted_iff:
  "and_then (validate_page_bounds validate_item page)
     (\<lambda>_. no_repeat {} (map item_key (page_items page))) = Inr () \<longleftrightarrow> page_ok page"
  by (auto simp: validate_page_bounds_def page_ok_def validate_collection_len_def validator_iff
      validates)

end

definition name_ok :: "string \<Rightarrow> bool" where
  "name_ok s \<longleftrightarrow> s \<noteq> [] \<and> length s \<le> MAX_IDENTIFIER_BYTES \<and> \<not> list_ex is_control (str_chars s)"

definition text_ok :: "string \<Rightarrow> bool" where
  "text_ok s \<longleftrightarrow> s \<noteq> [] \<and> length s \<le> MAX_METADATA_TEXT_BYTES"

definition mime_ok :: "string \<Rightarrow> bool" where
  "mime_ok s \<longleftrightarrow> s \<noteq> [] \<and> length s \<le> MAX_MIME_BYTES \<and> \<not> list_ex is_control (str_chars s)"

definition uri_ok :: "string \<Rightarrow> bool" where
  "uri_ok s \<longleftrightarrow> s \<noteq> [] \<and> length s \<le> MAX_URI_BYTES"

definition all_opt :: "('a \<Rightarrow> bool) \<Rightarrow> 'a option \<Rightarrow> bool" where
  "all_opt P x \<longleftrightarrow> (\<forall>y. x = Some y \<longrightarrow> P y)"

text \<open>A schema the walk does not fail on: no issue, or a bare fragment before any other.\<close>

definition schema_ok :: "(json \<Rightarrow> string option) \<Rightarrow> json \<Rightarrow> bool" where
  "schema_ok to_vec v \<longleftrightarrow>
     length (case to_vec v of None \<Rightarrow> [] | Some bytes \<Rightarrow> bytes) \<le> MAX_SCHEMA_BYTES
     \<and> (walk_for_dollar_ref v 0 = Ref_Ok \<or> (\<exists>s. walk_for_dollar_ref v 0 = Ref_Dynamic s))
     \<and> validate_json v = Inr ()"

definition tool_ok :: "(json \<Rightarrow> string option) \<Rightarrow> Tool \<Rightarrow> bool" where
  "tool_ok to_vec t \<longleftrightarrow>
     name_ok (tool_name t) \<and> all_opt text_ok (tool_title t) \<and> all_opt text_ok (tool_description t)
     \<and> schema_ok to_vec (input_schema t) \<and> all_opt (schema_ok to_vec) (output_schema t)"

definition resource_ok :: "Resource \<Rightarrow> bool" where
  "resource_ok r \<longleftrightarrow>
     uri_ok (resource_uri r) \<and> name_ok (resource_name r)
     \<and> all_opt text_ok (resource_description r) \<and> all_opt mime_ok (resource_mime_type r)"

definition prompt_ok :: "Prompt \<Rightarrow> bool" where
  "prompt_ok p \<longleftrightarrow>
     name_ok (prompt_name p) \<and> all_opt text_ok (prompt_description p)
     \<and> length (prompt_arguments p) \<le> MAX_ITEMS
     \<and> (\<forall>a \<in> set (prompt_arguments p).
          name_ok (argument_name a) \<and> all_opt text_ok (argument_description a))"

lemma field_validators [validator_iff]:
  "valid_name s = Inr u \<longleftrightarrow> name_ok s" "valid_text s = Inr u \<longleftrightarrow> text_ok s"
  "valid_mime s = Inr u \<longleftrightarrow> mime_ok s" "validate_uri s = Inr u \<longleftrightarrow> uri_ok s"
  by (auto simp: valid_name_def valid_text_def valid_mime_def validate_identifier_def
      validate_metadata_text_def validate_mime_def validate_uri_def name_ok_def text_ok_def
      mime_ok_def uri_ok_def)

lemma validate_schema_iff [validator_iff]:
  "validate_schema to_vec name v = Inr u \<longleftrightarrow> schema_ok to_vec v"
  unfolding validate_schema_def schema_ok_def validate_tool_schema_def diagnostic_def Let_def
  by (cases "walk_for_dollar_ref v 0") auto

interpretation tool_pages: paged_items "validate_tool to_vec" tool_name "tool_ok to_vec"
  by unfold_locales (auto simp: validate_tool_def tool_ok_def all_opt_def validator_iff)

interpretation resource_pages: paged_items validate_resource resource_uri resource_ok
  by unfold_locales (auto simp: validate_resource_def resource_ok_def all_opt_def validator_iff)

interpretation prompt_pages: paged_items validate_prompt prompt_name prompt_ok
  by unfold_locales
     (auto simp: validate_prompt_def validate_prompt_argument_def prompt_ok_def all_opt_def
      validate_collection_len_def validator_iff)

text \<open>
  Property: a page of tools is accepted exactly when it has at most 256 tools with distinct
  names, its cursor is well-formed, and each tool has well-formed texts and schemas the schema
  walk does not fail on.
\<close>

theorem tool_page_valid_iff:
  "validate_tool_page to_vec page = Inr () \<longleftrightarrow>
     length (page_items page) \<le> 256 \<and> cursor_ok (next_cursor page)
     \<and> distinct (map tool_name (page_items page))
     \<and> list_all (tool_ok to_vec) (page_items page)"
  using tool_pages.page_accepted_iff [of to_vec page]
  by (simp add: validate_tool_page_def tool_pages.page_ok_def MAX_ITEMS_def list_all_iff)

lemma resource_page_valid_iff:
  "validate_resource_page page = Inr () \<longleftrightarrow> resource_pages.page_ok page"
  unfolding validate_resource_page_def by (rule resource_pages.page_accepted_iff)

lemma prompt_page_valid_iff:
  "validate_prompt_page page = Inr () \<longleftrightarrow> prompt_pages.page_ok page"
  unfolding validate_prompt_page_def by (rule prompt_pages.page_accepted_iff)

text \<open>A blob that is accepted decodes to at most 512 KiB.\<close>

lemma validate_blob_iff [validator_iff]:
  "validate_blob b64 s = Inr u \<longleftrightarrow>
     length s \<le> 699054 \<and> (\<exists>d. b64 s = Some d \<and> length d \<le> 524288)"
  by (auto simp: validate_blob_def MAX_CONTENT_BYTES_def)

subsection \<open>Discovery\<close>

lemma repeated_or_unknown_iff:
  "\<not> repeated_or_unknown seen vs \<longleftrightarrow>
     distinct vs \<and> set vs \<inter> seen = {} \<and> (\<forall>v \<in> set vs. from_wire_version v \<noteq> None)"
  by (induction vs arbitrary: seen) auto

text \<open>
  Property: a discovery result that passes validation can be negotiated: version selection
  succeeds, on a supported era whose version the server listed.
\<close>

theorem valid_discovery_negotiable:
  assumes "validate_discover_result d = Inr ()"
  shows "\<exists>e. select_protocol_version (supported_versions d) = Inr e
     \<and> e \<in> set SUPPORTED_PROTOCOL_ERAS \<and> wire_version e \<in> set (supported_versions d)"
proof -
  let ?vs = "supported_versions d"
  from assms have vs: "?vs \<noteq> []" "\<forall>v \<in> set ?vs. from_wire_version v \<noteq> None"
    using repeated_or_unknown_iff [of "{}" ?vs]
    by (auto simp: validate_discover_result_def split: if_splits)
  then obtain e where e: "e \<in> set SUPPORTED_PROTOCOL_ERAS" "wire_version e \<in> set ?vs"
    by (cases ?vs) (auto simp: from_wire_version_Some)
  let ?P = "\<lambda>era. list_ex (\<lambda>version. version = wire_version era) ?vs"
  have "?P e" using e(2) by (auto simp: list_ex_iff)
  then obtain era where era: "find ?P SUPPORTED_PROTOCOL_ERAS = Some era"
    using e(1) by (cases "find ?P SUPPORTED_PROTOCOL_ERAS") (auto simp: find_None_iff)
  then have "era \<in> set SUPPORTED_PROTOCOL_ERAS" "?P era"
    by (auto simp: find_Some_iff)
  with era vs(1) show ?thesis by (auto simp: select_protocol_version_def list_ex_iff)
qed

theorem valid_discovery_negotiable_witness:
  "\<exists>e. select_protocol_version [''2025-11-25''] = Inr e
     \<and> e \<in> set SUPPORTED_PROTOCOL_ERAS \<and> wire_version e \<in> set [''2025-11-25'']"
  using valid_discovery_negotiable [of "\<lparr>supported_versions = [''2025-11-25''],
      dr_capabilities = no_capabilities, dr_server_info = None\<rparr>"]
  by (simp add: validate_discover_result_def validate_collection_len_def MAX_ITEMS_def
      from_wire_version_def SUPPORTED_PROTOCOL_ERAS_def CURRENT_PROTOCOL_VERSION_def
      validate_server_capabilities_def no_capabilities_def)

text \<open>
  Property: because the schema walk reports its first issue only, a tool whose schema holds a
  remote reference behind a bare fragment passes validation.
\<close>

theorem masked_remote_ref_accepted:
  "\<exists>t. validate_tool (\<lambda>_. Some []) t = Inr ()
     \<and> ''http://remote.example/'' \<in> set (json_refs (input_schema t))"
proof (intro exI conjI)
  let ?t = "\<lparr>tool_name = ''t'', tool_title = None, tool_description = None,
     input_schema = masked_schema, output_schema = None\<rparr>"
  have "validate_json masked_schema = Inr ()"
    by (simp add: masked_schema_def validate_json_def walk.simps validate_collection_len_def
        validation_limits)
  moreover have "walk_for_dollar_ref masked_schema 0 = Ref_Dynamic ''#''"
    by (simp add: masked_schema_def walk_for_dollar_ref.simps check_dollar_ref_def
        starts_with_def MAX_SCHEMA_DEPTH_def)
  moreover have "name_ok ''t''"
    by (simp add: name_ok_def MAX_IDENTIFIER_BYTES_def) code_simp
  ultimately show "validate_tool (\<lambda>_. Some []) ?t = Inr ()"
    by (simp add: tool_pages.validates tool_ok_def schema_ok_def all_opt_def)
  show "''http://remote.example/'' \<in> set (json_refs (input_schema ?t))"
    using remote_ref_masked by simp
qed

end
