(* ===== verification/Mcp_Wire.thy ===== *)
theory Mcp_Wire
  imports Mcp_Model
begin

section \<open>JSON-RPC envelopes (\<open>mcp/wire.rs\<close>)\<close>

text \<open>
  Decoding, validation and encoding of MCP messages, from
  \<open>crates/gobrowse-core/src/mcp/wire.rs\<close>.  What the \<open>serde\<close> derives, \<open>serde_json\<close> and the
  \<open>base64\<close> crate compute is the record \<open>serde\<close> of functions, a parameter of every definition
  that needs one: \<open>from_value\<close> and \<open>to_value\<close> at each type, the tokenizer, the printer, and
  the sequence of writes \<open>to_writer\<close> makes (with whether it ends in an error of its own).  The
  newtypes around validated messages are the messages themselves.
\<close>

definition JSONRPC_VERSION :: string where "JSONRPC_VERSION = ''2.0''"
definition MAX_FRAME_BYTES :: nat where "MAX_FRAME_BYTES = 1024 * 1024"
definition MAX_METHOD_BYTES :: nat where "MAX_METHOD_BYTES = 128"

definition METHOD_INITIALIZE :: string where "METHOD_INITIALIZE = ''initialize''"
definition METHOD_INITIALIZED :: string where "METHOD_INITIALIZED = ''notifications/initialized''"
definition METHOD_DISCOVER :: string where "METHOD_DISCOVER = ''server/discover''"
definition METHOD_PING :: string where "METHOD_PING = ''ping''"
definition METHOD_TOOLS_LIST :: string where "METHOD_TOOLS_LIST = ''tools/list''"
definition METHOD_TOOLS_CALL :: string where "METHOD_TOOLS_CALL = ''tools/call''"
definition METHOD_RESOURCES_LIST :: string where "METHOD_RESOURCES_LIST = ''resources/list''"
definition METHOD_RESOURCES_READ :: string where "METHOD_RESOURCES_READ = ''resources/read''"
definition METHOD_RESOURCES_SUBSCRIBE :: string where
  "METHOD_RESOURCES_SUBSCRIBE = ''resources/subscribe''"
definition METHOD_RESOURCES_UNSUBSCRIBE :: string where
  "METHOD_RESOURCES_UNSUBSCRIBE = ''resources/unsubscribe''"
definition METHOD_PROMPTS_LIST :: string where "METHOD_PROMPTS_LIST = ''prompts/list''"
definition METHOD_PROMPTS_GET :: string where "METHOD_PROMPTS_GET = ''prompts/get''"
definition METHOD_CANCELLED :: string where "METHOD_CANCELLED = ''notifications/cancelled''"
definition METHOD_TOOLS_LIST_CHANGED :: string where
  "METHOD_TOOLS_LIST_CHANGED = ''notifications/tools/list_changed''"
definition METHOD_RESOURCES_LIST_CHANGED :: string where
  "METHOD_RESOURCES_LIST_CHANGED = ''notifications/resources/list_changed''"
definition METHOD_RESOURCE_UPDATED :: string where
  "METHOD_RESOURCE_UPDATED = ''notifications/resources/updated''"
definition METHOD_PROGRESS :: string where "METHOD_PROGRESS = ''notifications/progress''"
definition METHOD_LOGGING_MESSAGE :: string where
  "METHOD_LOGGING_MESSAGE = ''notifications/message''"

lemmas method_names =
  METHOD_INITIALIZE_def METHOD_INITIALIZED_def METHOD_DISCOVER_def METHOD_PING_def
  METHOD_TOOLS_LIST_def METHOD_TOOLS_CALL_def METHOD_RESOURCES_LIST_def METHOD_RESOURCES_READ_def
  METHOD_RESOURCES_SUBSCRIBE_def METHOD_RESOURCES_UNSUBSCRIBE_def METHOD_PROMPTS_LIST_def
  METHOD_PROMPTS_GET_def METHOD_CANCELLED_def METHOD_TOOLS_LIST_CHANGED_def
  METHOD_RESOURCES_LIST_CHANGED_def METHOD_RESOURCE_UPDATED_def METHOD_PROGRESS_def
  METHOD_LOGGING_MESSAGE_def

subsection \<open>Messages\<close>

record Request =
  req_jsonrpc :: string
  req_id :: RequestId
  req_method :: string
  req_params :: "json option"

record Notification =
  note_jsonrpc :: string
  note_method :: string
  note_params :: "json option"

record RpcError =
  error_code :: int
  error_message :: string
  error_data :: "json option"

datatype ResponseBody = Body_Result json | Body_Error RpcError

record Response =
  resp_jsonrpc :: string
  resp_id :: RequestId
  resp_result :: ResponseBody

record SuccessEnvelope =
  ok_jsonrpc :: string
  ok_id :: RequestId
  ok_result :: json

record ErrorEnvelope =
  err_jsonrpc :: string
  err_id :: RequestId
  err_error :: RpcError

datatype EmptyResult = EmptyResult

datatype ValidatedMessage =
    Msg_Request Request | Msg_Notification Notification | Msg_Response Response

definition request_of :: "ValidatedMessage \<Rightarrow> Request option" where
  "request_of m = (case m of Msg_Request r \<Rightarrow> Some r | _ \<Rightarrow> None)"

definition into_notification :: "ValidatedMessage \<Rightarrow> Notification option" where
  "into_notification m = (case m of Msg_Notification n \<Rightarrow> Some n | _ \<Rightarrow> None)"

record serde =
  tokenize :: "string \<Rightarrow> raw \<times> bool"
  to_vec :: "json \<Rightarrow> string option"
  writes :: "Response \<Rightarrow> string list \<times> bool"
  b64_decode :: "string \<Rightarrow> string option"
  de_request :: "json \<Rightarrow> Request option"
  de_notification :: "json \<Rightarrow> Notification option"
  de_success :: "json \<Rightarrow> SuccessEnvelope option"
  de_error :: "json \<Rightarrow> ErrorEnvelope option"
  de_empty :: "json \<Rightarrow> EmptyResult option"
  de_initialize_params :: "json \<Rightarrow> InitializeParams option"
  de_list_params :: "json \<Rightarrow> ListParams option"
  de_tool_call_params :: "json \<Rightarrow> ToolCallParams option"
  de_read_params :: "json \<Rightarrow> ResourceReadParams option"
  de_subscription_params :: "json \<Rightarrow> ResourceSubscriptionParams option"
  de_get_params :: "json \<Rightarrow> PromptGetParams option"
  de_cancelled_params :: "json \<Rightarrow> CancelledParams option"
  de_updated_params :: "json \<Rightarrow> ResourceUpdatedParams option"
  de_progress_params :: "json \<Rightarrow> ProgressParams option"
  de_logging_params :: "json \<Rightarrow> LoggingMessageParams option"
  de_initialize_result :: "json \<Rightarrow> InitializeResult option"
  de_discover_result :: "json \<Rightarrow> DiscoverResult option"
  de_tool_page :: "json \<Rightarrow> Tool Paginated option"
  de_tool_call_result :: "json \<Rightarrow> ToolCallResult option"
  de_resource_page :: "json \<Rightarrow> Resource Paginated option"
  de_read_result :: "json \<Rightarrow> ResourceReadResult option"
  de_prompt_page :: "json \<Rightarrow> Prompt Paginated option"
  de_get_result :: "json \<Rightarrow> PromptGetResult option"
  ser_request :: "Request \<Rightarrow> json option"
  ser_notification :: "Notification \<Rightarrow> json option"
  ser_response :: "Response \<Rightarrow> json option"
  ser_initialize_result :: "InitializeResult \<Rightarrow> json option"
  ser_discover_result :: "DiscoverResult \<Rightarrow> json option"
  ser_tool_page :: "Tool Paginated \<Rightarrow> json option"
  ser_tool_call_result :: "ToolCallResult \<Rightarrow> json option"
  ser_resource_page :: "Resource Paginated \<Rightarrow> json option"
  ser_read_result :: "ResourceReadResult \<Rightarrow> json option"
  ser_prompt_page :: "Prompt Paginated \<Rightarrow> json option"
  ser_get_result :: "PromptGetResult \<Rightarrow> json option"

subsection \<open>Validation\<close>

definition validate_common :: "string \<Rightarrow> string \<Rightarrow> WireError + unit" where
  "validate_common version method =
     (if version \<noteq> JSONRPC_VERSION then Inl InvalidVersion
      else if method = [] \<or> length method > MAX_METHOD_BYTES then Inl InvalidMethod
      else Inr ())"

text \<open>The macros \<open>typed!\<close> and \<open>typed_result!\<close>.\<close>

definition typed ::
  "(json \<Rightarrow> 'a option) \<Rightarrow> ('a \<Rightarrow> ValidationError + unit) \<Rightarrow> json \<Rightarrow> WireError + unit" where
  "typed de validate_mcp params =
     and_then (ok_or (de params) InvalidWireValue) (\<lambda>v.
       map_err (\<lambda>_. InvalidWireValue) (validate_mcp v))"

definition params_required :: "string \<Rightarrow> bool" where
  "params_required method \<longleftrightarrow> method \<in> set
     [METHOD_INITIALIZE, METHOD_TOOLS_CALL, METHOD_RESOURCES_READ, METHOD_RESOURCES_SUBSCRIBE,
      METHOD_RESOURCES_UNSUBSCRIBE, METHOD_PROMPTS_GET, METHOD_CANCELLED, METHOD_RESOURCE_UPDATED,
      METHOD_PROGRESS, METHOD_LOGGING_MESSAGE]"

definition validate_method_params :: "serde \<Rightarrow> string \<Rightarrow> json option \<Rightarrow> WireError + unit" where
  "validate_method_params S method params =
     (case params of
        None \<Rightarrow> if params_required method then Inl InvalidWireValue else Inr ()
      | Some p \<Rightarrow>
          if method \<in> set [METHOD_INITIALIZED, METHOD_TOOLS_LIST_CHANGED,
                            METHOD_RESOURCES_LIST_CHANGED] then Inl InvalidWireValue
          else if method = METHOD_INITIALIZE
          then typed (de_initialize_params S) validate_initialize_params p
          else if method \<in> set [METHOD_TOOLS_LIST, METHOD_RESOURCES_LIST, METHOD_PROMPTS_LIST]
          then typed (de_list_params S) validate_list_params p
          else if method = METHOD_TOOLS_CALL
          then typed (de_tool_call_params S) validate_tool_call_params p
          else if method = METHOD_RESOURCES_READ
          then typed (de_read_params S) validate_resource_read_params p
          else if method \<in> set [METHOD_RESOURCES_SUBSCRIBE, METHOD_RESOURCES_UNSUBSCRIBE]
          then typed (de_subscription_params S) validate_subscription_params p
          else if method = METHOD_PROMPTS_GET
          then typed (de_get_params S) validate_prompt_get_params p
          else if method = METHOD_CANCELLED
          then typed (de_cancelled_params S) validate_cancelled_params p
          else if method = METHOD_RESOURCE_UPDATED
          then typed (de_updated_params S) validate_updated_params p
          else if method = METHOD_PROGRESS
          then typed (de_progress_params S) validate_progress_params p
          else if method = METHOD_LOGGING_MESSAGE
          then typed (de_logging_params S) validate_logging_params p
          else Inr ())"

definition wire_json :: "json \<Rightarrow> WireError + unit" where
  "wire_json v = map_err (\<lambda>_. InvalidWireValue) (validate_json v)"

definition validate_request :: "serde \<Rightarrow> Request \<Rightarrow> WireError + Request" where
  "validate_request S r =
     and_then (validate_common (req_jsonrpc r) (req_method r)) (\<lambda>_.
     and_then (validate_request_id (req_id r)) (\<lambda>_.
     and_then (if_some wire_json (req_params r)) (\<lambda>_.
     and_then (validate_method_params S (req_method r) (req_params r)) (\<lambda>_.
       Inr r))))"

definition validate_notification :: "serde \<Rightarrow> Notification \<Rightarrow> WireError + Notification" where
  "validate_notification S n =
     and_then (validate_common (note_jsonrpc n) (note_method n)) (\<lambda>_.
     and_then (if_some wire_json (note_params n)) (\<lambda>_.
     and_then (validate_method_params S (note_method n) (note_params n)) (\<lambda>_.
       Inr n)))"

text \<open>The capped writer: each write takes its bytes from what is left, or fails.\<close>

fun capped :: "nat \<Rightarrow> string list \<Rightarrow> bool" where
  "capped left [] = True"
| "capped left (w # ws) = (if length w > left then False else capped (left - length w) ws)"

definition preflight_size :: "serde \<Rightarrow> Response \<Rightarrow> WireError + unit" where
  "preflight_size S r =
     (case writes S r of (ws, failed) \<Rightarrow>
        if \<not> capped MAX_FRAME_BYTES ws then Inl FrameTooLarge
        else if failed then Inl Malformed_Message else Inr ())"

definition validate_response :: "serde \<Rightarrow> Response \<Rightarrow> WireError + Response" where
  "validate_response S r =
     (if resp_jsonrpc r \<noteq> JSONRPC_VERSION then Inl InvalidVersion
      else
        and_then (validate_request_id (resp_id r)) (\<lambda>_.
        and_then
          (case resp_result r of
             Body_Result v \<Rightarrow> wire_json v
           | Body_Error e \<Rightarrow>
               if error_message e = [] \<or> length (error_message e) > MAX_METHOD_BYTES
               then Inl InvalidWireValue
               else if_some wire_json (error_data e)) (\<lambda>_.
        and_then (preflight_size S r) (\<lambda>_. Inr r))))"

subsection \<open>Decoding and encoding\<close>

definition classify :: "serde \<Rightarrow> (string \<times> json) list \<Rightarrow> WireError + ValidatedMessage" where
  "classify S obj =
     (let has = (\<lambda>key. key \<in> fst ` set obj)
      in if has ''method'' then
           if has ''id'' then
             if has ''result'' \<or> has ''error'' then Inl InvalidShape
             else and_then (ok_or (de_request S (JObject obj)) InvalidShape) (\<lambda>r.
                    and_then (validate_request S r) (\<lambda>r. Inr (Msg_Request r)))
           else if has ''result'' \<or> has ''error'' then Inl InvalidShape
           else and_then (ok_or (de_notification S (JObject obj)) InvalidShape) (\<lambda>n.
                  and_then (validate_notification S n) (\<lambda>n. Inr (Msg_Notification n)))
         else if has ''result'' \<noteq> has ''error'' then
           and_then
             (if has ''result'' then
                and_then (ok_or (de_success S (JObject obj)) InvalidShape) (\<lambda>e.
                  Inr \<lparr>resp_jsonrpc = ok_jsonrpc e, resp_id = ok_id e,
                       resp_result = Body_Result (ok_result e)\<rparr>)
              else
                and_then (ok_or (de_error S (JObject obj)) InvalidShape) (\<lambda>e.
                  Inr \<lparr>resp_jsonrpc = err_jsonrpc e, resp_id = err_id e,
                       resp_result = Body_Error (err_error e)\<rparr>))
             (\<lambda>r. and_then (validate_response S r) (\<lambda>r. Inr (Msg_Response r)))
         else Inl InvalidShape)"

definition decode_message :: "serde \<Rightarrow> string \<Rightarrow> WireError + ValidatedMessage" where
  "decode_message S bytes =
     (if bytes = [] then Inl Malformed_Message
      else if length bytes > MAX_FRAME_BYTES then Inl FrameTooLarge
      else
        and_then
          (map_err (\<lambda>e. if e = Malformed then Malformed_Message else InvalidWireValue)
             (parse_bounded_json (tokenize S) bytes)) (\<lambda>v.
        and_then (wire_json v) (\<lambda>_.
        and_then (ok_or (as_object v) NotObject) (\<lambda>obj.
          classify S obj))))"

definition encode_message :: "serde \<Rightarrow> ValidatedMessage \<Rightarrow> WireError + string" where
  "encode_message S m =
     and_then
       (ok_or (case m of
                 Msg_Request r \<Rightarrow> ser_request S r
               | Msg_Notification n \<Rightarrow> ser_notification S n
               | Msg_Response r \<Rightarrow> ser_response S r) Malformed_Message) (\<lambda>v.
     and_then (ok_or (to_vec S v) Malformed_Message) (\<lambda>bytes.
       if length bytes > MAX_FRAME_BYTES then Inl FrameTooLarge else Inr bytes))"

definition try_request ::
  "serde \<Rightarrow> RequestId \<Rightarrow> string \<Rightarrow> json option \<Rightarrow> WireError + Request" where
  "try_request S i method params =
     validate_request S \<lparr>req_jsonrpc = JSONRPC_VERSION, req_id = i, req_method = method,
                         req_params = params\<rparr>"

definition try_notification ::
  "serde \<Rightarrow> string \<Rightarrow> json option \<Rightarrow> WireError + Notification" where
  "try_notification S method params =
     validate_notification S \<lparr>note_jsonrpc = JSONRPC_VERSION, note_method = method,
                              note_params = params\<rparr>"

subsection \<open>Responses of a method\<close>

definition validate_success :: "serde \<Rightarrow> string \<Rightarrow> json \<Rightarrow> WireError + unit" where
  "validate_success S method v =
     (if method = METHOD_INITIALIZE
      then typed (de_initialize_result S) validate_initialize_result v
      else if method = METHOD_DISCOVER
      then typed (de_discover_result S) validate_discover_result v
      else if method \<in> set [METHOD_PING, METHOD_RESOURCES_SUBSCRIBE, METHOD_RESOURCES_UNSUBSCRIBE]
      then (case as_object v of
              None \<Rightarrow> Inl InvalidWireValue
            | Some obj \<Rightarrow>
                if obj \<noteq> [] then Inl InvalidWireValue
                else and_then (ok_or (de_empty S v) InvalidWireValue) (\<lambda>_. Inr ()))
      else if method = METHOD_TOOLS_LIST
      then typed (de_tool_page S) (validate_tool_page (to_vec S)) v
      else if method = METHOD_TOOLS_CALL
      then typed (de_tool_call_result S) (validate_tool_call_result (b64_decode S)) v
      else if method = METHOD_RESOURCES_LIST
      then typed (de_resource_page S) validate_resource_page v
      else if method = METHOD_RESOURCES_READ
      then typed (de_read_result S) (validate_resource_read_result (b64_decode S)) v
      else if method = METHOD_PROMPTS_LIST
      then typed (de_prompt_page S) validate_prompt_page v
      else if method = METHOD_PROMPTS_GET
      then typed (de_get_result S) (validate_prompt_get_result (b64_decode S)) v
      else Inl InvalidWireValue)"

definition correlate :: "serde \<Rightarrow> Response \<Rightarrow> string \<Rightarrow> WireError + Response" where
  "correlate S r method =
     and_then (case resp_result r of
                 Body_Result v \<Rightarrow> validate_success S method v
               | Body_Error _ \<Rightarrow> Inr ()) (\<lambda>_. Inr r)"

definition response :: "serde \<Rightarrow> RequestId \<Rightarrow> RpcError + json \<Rightarrow> WireError + Response" where
  "response S i res =
     validate_response S \<lparr>resp_jsonrpc = JSONRPC_VERSION, resp_id = i,
       resp_result = (case res of Inr v \<Rightarrow> Body_Result v | Inl e \<Rightarrow> Body_Error e)\<rparr>"

definition validated_response_for_method ::
  "serde \<Rightarrow> string \<Rightarrow> RequestId \<Rightarrow> RpcError + json \<Rightarrow> WireError + Response" where
  "validated_response_for_method S method i res =
     and_then (case res of Inr v \<Rightarrow> validate_success S method v | Inl _ \<Rightarrow> Inr ()) (\<lambda>_.
       response S i res)"

definition safe_internal_error_response :: "RequestId \<Rightarrow> Response" where
  "safe_internal_error_response i =
     \<lparr>resp_jsonrpc = JSONRPC_VERSION, resp_id = i,
      resp_result = Body_Error \<lparr>error_code = -32603,
        error_message = ''internal MCP handler error'', error_data = None\<rparr>\<rparr>"

subsection \<open>The capped writer\<close>

lemma capped_iff: "capped left ws \<longleftrightarrow> sum_list (map length ws) \<le> left"
proof (induction ws arbitrary: left)
  case (Cons w ws)
  then show ?case by (cases "length w > left") (simp_all add: le_diff_conv2 add.commute)
qed simp

lemma preflight_size_Inr [validator_iff]:
  "preflight_size S r = Inr u \<longleftrightarrow>
     sum_list (map length (fst (writes S r))) \<le> MAX_FRAME_BYTES \<and> \<not> snd (writes S r)"
  by (auto simp: preflight_size_def capped_iff split: prod.splits)

subsection \<open>What a validated message is\<close>

lemma wire_json_Inr [validator_iff, simp]: "wire_json v = Inr u \<longleftrightarrow> validate_json v = Inr ()"
  by (simp add: wire_json_def)

definition id_ok :: "RequestId \<Rightarrow> bool" where
  "id_ok i \<longleftrightarrow> (\<forall>s. i = String s \<longrightarrow> s \<noteq> [] \<and> length s \<le> MAX_ID_BYTES)"

definition method_ok :: "string \<Rightarrow> bool" where
  "method_ok m \<longleftrightarrow> m \<noteq> [] \<and> length m \<le> MAX_METHOD_BYTES"

definition params_ok :: "serde \<Rightarrow> string \<Rightarrow> json option \<Rightarrow> bool" where
  "params_ok S method p \<longleftrightarrow>
     (\<forall>v. p = Some v \<longrightarrow> validate_json v = Inr ()) \<and> validate_method_params S method p = Inr ()"

fun body_ok :: "ResponseBody \<Rightarrow> bool" where
  "body_ok (Body_Result v) \<longleftrightarrow> validate_json v = Inr ()"
| "body_ok (Body_Error e) \<longleftrightarrow>
     error_message e \<noteq> [] \<and> length (error_message e) \<le> MAX_METHOD_BYTES
     \<and> (\<forall>v. error_data e = Some v \<longrightarrow> validate_json v = Inr ())"

fun message_ok :: "serde \<Rightarrow> ValidatedMessage \<Rightarrow> bool" where
  "message_ok S (Msg_Request r) \<longleftrightarrow>
     req_jsonrpc r = ''2.0'' \<and> id_ok (req_id r) \<and> method_ok (req_method r)
     \<and> params_ok S (req_method r) (req_params r)"
| "message_ok S (Msg_Notification n) \<longleftrightarrow>
     note_jsonrpc n = ''2.0'' \<and> method_ok (note_method n)
     \<and> params_ok S (note_method n) (note_params n)"
| "message_ok S (Msg_Response r) \<longleftrightarrow>
     resp_jsonrpc r = ''2.0'' \<and> id_ok (resp_id r) \<and> body_ok (resp_result r)
     \<and> sum_list (map length (fst (writes S r))) \<le> MAX_FRAME_BYTES \<and> \<not> snd (writes S r)"

lemma validate_common_Inr [validator_iff]:
  "validate_common v m = Inr u \<longleftrightarrow> v = ''2.0'' \<and> method_ok m"
  by (auto simp: validate_common_def method_ok_def JSONRPC_VERSION_def)

lemma validate_request_Inr [validator_iff]:
  "validate_request S r = Inr r' \<longleftrightarrow> r' = r \<and> message_ok S (Msg_Request r)"
  by (auto simp: validate_request_def params_ok_def id_ok_def validator_iff)

lemma validate_notification_Inr [validator_iff]:
  "validate_notification S n = Inr n' \<longleftrightarrow> n' = n \<and> message_ok S (Msg_Notification n)"
  by (auto simp: validate_notification_def params_ok_def validator_iff)

lemma validate_response_Inr [validator_iff]:
  "validate_response S r = Inr r' \<longleftrightarrow> r' = r \<and> message_ok S (Msg_Response r)"
  by (cases "resp_result r")
     (simp_all add: validate_response_def JSONRPC_VERSION_def id_ok_def validator_iff,
      auto simp: if_some_Inr)

lemma classify_message_ok: "classify S obj = Inr m \<Longrightarrow> message_ok S m"
  by (auto simp: classify_def Let_def validator_iff simp del: message_ok.simps split: if_splits)

text \<open>
  Property C39: whatever the JSON library does, a message the decoder returns came from a frame
  of at most 1 MiB and is well-formed: version 2.0, a method of 1 to 128 bytes, an id that is a
  number or a string of 1 to 128 bytes, a bounded body, and parameters that pass the checks of
  their method.
\<close>

theorem decoded_message_ok:
  assumes "decode_message S bytes = Inr m"
  shows "bytes \<noteq> [] \<and> length bytes \<le> 1024 * 1024 \<and> message_ok S m"
  using assms classify_message_ok
  by (auto simp: decode_message_def MAX_FRAME_BYTES_def simp del: message_ok.simps split: if_splits)

subsection \<open>Encoding and decoding\<close>

text \<open>The JSON forms the \<open>serde\<close> derives document for the envelopes, keys in order.\<close>

definition opt_entry :: "string \<Rightarrow> json option \<Rightarrow> (string \<times> json) list" where
  "opt_entry k x = (case x of None \<Rightarrow> [] | Some v \<Rightarrow> [(k, v)])"

fun id_json :: "RequestId \<Rightarrow> json" where
  "id_json (Number i) = JNumber (number_of_i64 i)"
| "id_json (String s) = JString s"

fun message_json :: "ValidatedMessage \<Rightarrow> json" where
  "message_json (Msg_Request r) =
     JObject ([(''id'', id_json (req_id r)), (''jsonrpc'', JString (req_jsonrpc r)),
       (''method'', JString (req_method r))] @ opt_entry ''params'' (req_params r))"
| "message_json (Msg_Notification n) =
     JObject ([(''jsonrpc'', JString (note_jsonrpc n)), (''method'', JString (note_method n))]
       @ opt_entry ''params'' (note_params n))"
| "message_json (Msg_Response r) =
     JObject (case resp_result r of
        Body_Result v \<Rightarrow>
          [(''id'', id_json (resp_id r)), (''jsonrpc'', JString (resp_jsonrpc r)), (''result'', v)]
      | Body_Error e \<Rightarrow>
          [(''error'', JObject ((''code'', JNumber (number_of_i64 (error_code e)))
              # opt_entry ''data'' (error_data e) @ [(''message'', JString (error_message e))])),
           (''id'', id_json (resp_id r)), (''jsonrpc'', JString (resp_jsonrpc r))])"

text \<open>The tree the tokenizer presents for a printed value.\<close>

fun raw_of :: "json \<Rightarrow> raw" where
  "raw_of JNull = RNull"
| "raw_of (JBool b) = RBool b"
| "raw_of (JNumber (PosInt u)) = RU64 u"
| "raw_of (JNumber (NegInt i)) = RI64 i"
| "raw_of (JNumber (Float f)) = RF64 f"
| "raw_of (JString s) = RStr s"
| "raw_of (JArray vs) = RSeq (map raw_of vs) True"
| "raw_of (JObject m) = RMap (map (\<lambda>e. (fst e, raw_of (snd e))) m) True"

text \<open>The invariants of \<open>serde_json::Number\<close>, throughout a value.\<close>

fun numbers_ok :: "json \<Rightarrow> bool" where
  "numbers_ok (JNumber (NegInt i)) \<longleftrightarrow> i < 0"
| "numbers_ok (JNumber (Float f)) \<longleftrightarrow> f64_is_finite f"
| "numbers_ok (JArray vs) \<longleftrightarrow> (\<forall>v \<in> set vs. numbers_ok v)"
| "numbers_ok (JObject m) \<longleftrightarrow> (\<forall>e \<in> set m. numbers_ok (snd e))"
| "numbers_ok _ \<longleftrightarrow> True"

lemma map_insert_snoc:
  "(\<forall>x \<in> fst ` set m. x < k) \<Longrightarrow> map_insert k v m = m @ [(k, v)]"
  by (induction m) auto

lemma insert_all_sorted:
  "is_btree (m @ es) \<Longrightarrow> insert_all m es = m @ es"
proof (induction es arbitrary: m)
  case (Cons e es)
  obtain k v where e: "e = (k, v)" by (cases e)
  with Cons.prems have "\<forall>x \<in> fst ` set m. x < k" by (auto simp: is_btree_def sorted_wrt_append)
  then have "map_insert k v m = m @ [(k, v)]" by (rule map_insert_snoc)
  with Cons e show ?case by (simp add: insert_all_def)
qed (simp add: insert_all_def)

lemma walk_node:
  "walk (JArray vs) d = Inr () \<longleftrightarrow>
     d \<le> MAX_JSON_DEPTH \<and> length vs \<le> MAX_ITEMS \<and> (\<forall>v \<in> set vs. walk v (Suc d) = Inr ())"
  "walk (JObject m) d = Inr () \<longleftrightarrow>
     d \<le> MAX_JSON_DEPTH \<and> length m \<le> MAX_ITEMS \<and> (\<forall>e \<in> set m. walk (snd e) (Suc d) = Inr ())"
  "walk (JNumber n) d = Inr () \<longleftrightarrow> d \<le> MAX_JSON_DEPTH"
  "walk (JString s) d = Inr () \<longleftrightarrow> d \<le> MAX_JSON_DEPTH"
  "walk (JBool b) d = Inr () \<longleftrightarrow> d \<le> MAX_JSON_DEPTH"
  "walk JNull d = Inr () \<longleftrightarrow> d \<le> MAX_JSON_DEPTH"
  by (subst walk.simps; auto simp: validate_collection_len_def)+

lemma raw_of_value:
  "walk v d = Inr () \<Longrightarrow> json_wf v \<Longrightarrow> numbers_ok v \<Longrightarrow> raw_ok d (raw_of v) \<and> raw_value (raw_of v) = v"
proof (induction v arbitrary: d rule: raw_of.induct)
  case (7 vs)
  then have "\<forall>v \<in> set vs. raw_ok (Suc d) (raw_of v) \<and> raw_value (raw_of v) = v"
    by (auto simp: walk_node)
  with 7(2) show ?case by (auto simp: walk_node comp_def intro: map_idI)
next
  case (8 m)
  then have *: "\<forall>e \<in> set m. raw_ok (Suc d) (raw_of (snd e)) \<and> raw_value (raw_of (snd e)) = snd e"
    by (auto simp: walk_node)
  then have "map (\<lambda>e. (fst e, raw_value (raw_of (snd e)))) m = m" by (intro map_idI) simp
  with * 8(2,3) insert_all_sorted [of "[]" m] show ?case
    by (simp add: walk_node comp_def is_btree_distinct)
qed (simp_all add: walk_node number_of_i64_def)

text \<open>
  The documented behaviour of the libraries on one message: \<open>to_value\<close> gives its JSON form, the
  tokenizer reads back what the printer wrote, and \<open>from_value\<close> undoes \<open>to_value\<close>.
\<close>

definition reads_back :: "serde \<Rightarrow> ValidatedMessage \<Rightarrow> bool" where
  "reads_back S m \<longleftrightarrow>
     (\<forall>b. to_vec S (message_json m) = Some b \<longrightarrow>
        b \<noteq> [] \<and> tokenize S b = (raw_of (message_json m), True))
     \<and> (case m of
          Msg_Request r \<Rightarrow> ser_request S r = Some (message_json m)
            \<and> de_request S (message_json m) = Some r
        | Msg_Notification n \<Rightarrow> ser_notification S n = Some (message_json m)
            \<and> de_notification S (message_json m) = Some n
        | Msg_Response r \<Rightarrow> ser_response S r = Some (message_json m)
            \<and> (case resp_result r of
                 Body_Result v \<Rightarrow> de_success S (message_json m)
                   = Some \<lparr>ok_jsonrpc = resp_jsonrpc r, ok_id = resp_id r, ok_result = v\<rparr>
               | Body_Error e \<Rightarrow> de_error S (message_json m)
                   = Some \<lparr>err_jsonrpc = resp_jsonrpc r, err_id = resp_id r, err_error = e\<rparr>))"

lemma opt_entry_simps [simp]:
  "fst ` set (opt_entry k x) = (if x = None then {} else {k})"
  by (auto simp: opt_entry_def split: option.split)

lemma classify_message:
  assumes "reads_back S m" and "message_ok S m" and "message_json m = JObject obj"
  shows "classify S obj = Inr m"
proof (cases m)
  case (Msg_Request r)
  have "fst ` set obj \<subseteq> {''id'', ''jsonrpc'', ''method'', ''params''}"
    "{''id'', ''method''} \<subseteq> fst ` set obj"
    using assms(3) Msg_Request by (auto simp: image_Un opt_entry_def split: option.splits)
  then have "''method'' \<in> fst ` set obj" "''id'' \<in> fst ` set obj"
    "''result'' \<notin> fst ` set obj" "''error'' \<notin> fst ` set obj" by auto
  with assms Msg_Request show ?thesis
    by (auto simp: classify_def reads_back_def validator_iff)
next
  case (Msg_Notification n)
  have "fst ` set obj \<subseteq> {''jsonrpc'', ''method'', ''params''}"
    "''method'' \<in> fst ` set obj"
    using assms(3) Msg_Notification by (auto simp: image_Un opt_entry_def split: option.splits)
  then have "''method'' \<in> fst ` set obj" "''id'' \<notin> fst ` set obj"
    "''result'' \<notin> fst ` set obj" "''error'' \<notin> fst ` set obj" by auto
  with assms Msg_Notification show ?thesis
    by (auto simp: classify_def reads_back_def validator_iff)
next
  case (Msg_Response r)
  with assms show ?thesis
    by (cases "resp_result r") (auto simp: classify_def reads_back_def validator_iff)
qed

lemma decodes_encoded:
  assumes "encode_message S m = Inr bytes" and "message_ok S m" and "reads_back S m"
    and "validate_json (message_json m) = Inr ()"
    and "json_wf (message_json m)" and "numbers_ok (message_json m)"
  shows "decode_message S bytes = Inr m"
proof -
  let ?v = "message_json m"
  obtain obj where obj: "?v = JObject obj" by (cases m) auto
  have bytes: "to_vec S ?v = Some bytes" "length bytes \<le> MAX_FRAME_BYTES"
    using assms(1,3) by (cases m; auto simp: encode_message_def reads_back_def split: if_splits)+
  then have tok: "bytes \<noteq> []" "tokenize S bytes = (raw_of ?v, True)"
    using assms(3) by (auto simp: reads_back_def)
  have "parse_bounded_json (tokenize S) bytes = Inr ?v"
    using tok raw_of_value [of ?v 0] assms(4-6)
    by (auto simp: parse_bounded_json_def bounded_value_iff(1) validate_json_def)
  with bytes tok assms obj classify_message [of S m obj] show ?thesis
    by (simp add: decode_message_def)
qed

text \<open>
  Property C35: a message that was encoded decodes to itself, when the JSON library reads back what
  it writes and the JSON form of the message as a whole passes \<open>validate_json\<close>.  Encoding does not
  check the latter: it checks the parameters or the result on their own, one level higher, and
  \<open>deepest_params_undecodable\<close> below shows a valid message that its receiver refuses.
\<close>

theorem decode_encode:
  assumes "encode_message S m = Inr bytes" and "message_ok S m" and "reads_back S m"
    and "validate_json (message_json m) = Inr ()"
    and "json_wf (message_json m)" and "numbers_ok (message_json m)"
  shows "decode_message S bytes = Inr m"
  using assms by (rule decodes_encoded)


subsection \<open>Examples\<close>

text \<open>A library that knows one message, written as the given bytes.\<close>

definition one_message :: "ValidatedMessage \<Rightarrow> string \<Rightarrow> serde" where
  "one_message m bytes =
     \<lparr>tokenize = \<lambda>_. (raw_of (message_json m), True), to_vec = \<lambda>_. Some bytes,
      writes = \<lambda>_. ([], False), b64_decode = \<lambda>_. None,
      de_request = \<lambda>_. request_of m, de_notification = \<lambda>_. into_notification m,
      de_success = \<lambda>_. None, de_error = \<lambda>_. None, de_empty = \<lambda>_. None,
      de_initialize_params = \<lambda>_. None, de_list_params = \<lambda>_. None,
      de_tool_call_params = \<lambda>_. None, de_read_params = \<lambda>_. None,
      de_subscription_params = \<lambda>_. None, de_get_params = \<lambda>_. None,
      de_cancelled_params = \<lambda>_. None, de_updated_params = \<lambda>_. None,
      de_progress_params = \<lambda>_. None, de_logging_params = \<lambda>_. None,
      de_initialize_result = \<lambda>_. None, de_discover_result = \<lambda>_. None,
      de_tool_page = \<lambda>_. None, de_tool_call_result = \<lambda>_. None,
      de_resource_page = \<lambda>_. None, de_read_result = \<lambda>_. None,
      de_prompt_page = \<lambda>_. None, de_get_result = \<lambda>_. None,
      ser_request = \<lambda>r. Some (message_json (Msg_Request r)),
      ser_notification = \<lambda>n. Some (message_json (Msg_Notification n)),
      ser_response = \<lambda>r. Some (message_json (Msg_Response r)),
      ser_initialize_result = \<lambda>_. None, ser_discover_result = \<lambda>_. None,
      ser_tool_page = \<lambda>_. None, ser_tool_call_result = \<lambda>_. None,
      ser_resource_page = \<lambda>_. None, ser_read_result = \<lambda>_. None,
      ser_prompt_page = \<lambda>_. None, ser_get_result = \<lambda>_. None\<rparr>"

definition sample_request :: "RequestId \<Rightarrow> json \<Rightarrow> Request" where
  "sample_request i p = \<lparr>req_jsonrpc = ''2.0'', req_id = i, req_method = ''x'', req_params = Some p\<rparr>"

lemma params_ok_unknown_method [simp]:
  "params_ok S ''x'' (Some p) \<longleftrightarrow> validate_json p = Inr ()"
  by (simp add: params_ok_def validate_method_params_def method_names)

lemma sample_message_ok [simp]:
  "message_ok S (Msg_Request (sample_request (Number i) p)) \<longleftrightarrow> validate_json p = Inr ()"
  by (simp add: sample_request_def id_ok_def method_ok_def MAX_METHOD_BYTES_def)

lemma one_message_reads_back:
  "bytes \<noteq> [] \<Longrightarrow> reads_back (one_message (Msg_Request r) bytes) (Msg_Request r)"
  by (simp add: reads_back_def one_message_def request_of_def)

theorem decode_encode_witness:
  "decode_message (one_message (Msg_Request (sample_request (Number 7) (JBool True))) ''{..}'') ''{..}''
   = Inr (Msg_Request (sample_request (Number 7) (JBool True)))"
proof (rule decode_encode)
  let ?m = "Msg_Request (sample_request (Number 7) (JBool True))"
  show "encode_message (one_message ?m ''{..}'') ?m = Inr ''{..}''"
    by (simp add: encode_message_def one_message_def MAX_FRAME_BYTES_def)
  show "message_ok (one_message ?m ''{..}'') ?m"
    by (simp add: validate_json_def walk_node MAX_JSON_DEPTH_def del: message_ok.simps)
  show "reads_back (one_message ?m ''{..}'') ?m" by (simp add: one_message_reads_back)
  show "validate_json (message_json ?m) = Inr ()"
    by (simp add: sample_request_def validate_json_def walk_node validation_limits opt_entry_def
        number_of_i64_def)
  show "json_wf (message_json ?m)"
    by (simp add: sample_request_def opt_entry_def is_btree_def number_of_i64_def)
  show "numbers_ok (message_json ?m)"
    by (simp add: sample_request_def opt_entry_def number_of_i64_def)
qed

theorem decoded_message_ok_witness:
  "message_ok (one_message (Msg_Request (sample_request (Number 7) (JBool True))) ''{..}'')
     (Msg_Request (sample_request (Number 7) (JBool True)))"
proof -
  let ?m = "Msg_Request (sample_request (Number 7) (JBool True))"
  have "decode_message (one_message ?m ''{..}'') ''{..}'' = Inr ?m"
    by (simp add: decode_message_def one_message_def sample_request_def parse_bounded_json_def
        opt_entry_def number_of_i64_def bounded_value.simps validation_limits MAX_FRAME_BYTES_def
        validate_json_def walk_node classify_def request_of_def validate_request_def
        validate_common_def JSONRPC_VERSION_def MAX_METHOD_BYTES_def validate_request_id_def
        validate_method_params_def method_names)
  from decoded_message_ok [OF this] show ?thesis by blast
qed

text \<open>\<open>n\<close> nested arrays around a null.\<close>

fun nest :: "nat \<Rightarrow> json" where
  "nest 0 = JNull"
| "nest (Suc n) = JArray [nest n]"

lemma walk_nest: "walk (nest n) d = Inr () \<longleftrightarrow> d + n \<le> MAX_JSON_DEPTH"
  by (induction n arbitrary: d) (auto simp: walk_node validation_limits)

lemma bounded_value_nest: "MAX_JSON_DEPTH < d + n \<Longrightarrow> bounded_value d (raw_of (nest n)) = Inl Limit"
proof (induction n arbitrary: d)
  case (Suc n)
  then have "bounded_value (Suc d) (raw_of (nest n)) = Inl Limit" by simp
  then show ?case by (simp add: bounded_value.simps MAX_ITEMS_def)
qed (simp add: bounded_value.simps)

text \<open>
  Property: the parameters of a message are checked on their own, where they may nest 64 levels,
  but they are one level deeper in the frame: a request that its sender validates, with
  parameters of exactly 64 levels, is refused by the decoder.
\<close>

theorem deepest_params_undecodable:
  "\<exists>r. (\<forall>S. validate_request S r = Inr r)
     \<and> (\<forall>T bytes. 0 < length bytes \<longrightarrow> length bytes \<le> 1024 * 1024
          \<longrightarrow> tokenize T bytes = (raw_of (message_json (Msg_Request r)), True)
          \<longrightarrow> decode_message T bytes = Inl InvalidWireValue)"
proof (intro exI conjI allI impI)
  let ?r = "sample_request (Number 7) (nest 64)"
  fix S :: serde
  show "validate_request S ?r = Inr ?r"
    by (simp add: validate_request_Inr validate_json_def walk_nest MAX_JSON_DEPTH_def
        del: nest.simps message_ok.simps)
next
  let ?r = "sample_request (Number 7) (nest 64)"
  fix T :: serde and bytes :: string
  assume bytes: "0 < length bytes" "length bytes \<le> 1024 * 1024"
    and tok: "tokenize T bytes = (raw_of (message_json (Msg_Request ?r)), True)"
  have deep: "bounded_value (Suc 0) (raw_of (nest 64)) = Inl Limit"
    by (rule bounded_value_nest) (simp add: MAX_JSON_DEPTH_def)
  have "bounded_value 0 (raw_of (message_json (Msg_Request ?r))) = Inl Limit"
    using deep
    by (subst bounded_value.simps)
       (simp add: sample_request_def opt_entry_def number_of_i64_def validation_limits
        bounded_value.simps [of "Suc 0" "RU64 u" for u] bounded_value.simps [of "Suc 0" "RStr t" for t]
        del: nest.simps)
  then have "parse_bounded_json (tokenize T) bytes = Inl InvalidValue"
    by (simp add: parse_bounded_json_def tok)
  with bytes show "decode_message T bytes = Inl InvalidWireValue"
    by (auto simp: decode_message_def MAX_FRAME_BYTES_def)
qed

theorem deepest_params_undecodable_witness:
  "\<exists>r. validate_request (one_message (Msg_Request r) ''{..}'') r = Inr r
     \<and> decode_message (one_message (Msg_Request r) ''{..}'') ''{..}'' = Inl InvalidWireValue"
proof -
  obtain r where "\<forall>S. validate_request S r = Inr r"
    and refused: "\<forall>T bytes. 0 < length bytes \<longrightarrow> length bytes \<le> 1024 * 1024
          \<longrightarrow> tokenize T bytes = (raw_of (message_json (Msg_Request r)), True)
          \<longrightarrow> decode_message T bytes = Inl InvalidWireValue"
    using deepest_params_undecodable by blast
  moreover have "decode_message (one_message (Msg_Request r) ''{..}'') ''{..}'' = Inl InvalidWireValue"
    using refused by (simp add: one_message_def)
  ultimately show ?thesis by blast
qed

end
