(* ===== verification/Mcp_Server.thy ===== *)
theory Mcp_Server
  imports Mcp_Wire State_Machine
begin

section \<open>The MCP server dispatcher (\<open>mcp/server.rs\<close>)\<close>

text \<open>
  The dispatcher of \<open>crates/gobrowse-core/src/mcp/server.rs\<close>: negotiation, routing of requests to
  a handler, capability checks and notifications.  The handler is an implementation of a trait
  by some client; what its methods answer to one call is a record of functions, which may be
  another one at each call.  \<open>notify\<close> also returns the cancellation it passes on.
\<close>

definition ERROR_METHOD_NOT_FOUND :: int where "ERROR_METHOD_NOT_FOUND = -32601"
definition ERROR_INVALID_PARAMS :: int where "ERROR_INVALID_PARAMS = -32602"
definition ERROR_NOT_INITIALIZED :: int where "ERROR_NOT_INITIALIZED = -32002"
definition ERROR_CAPABILITY :: int where "ERROR_CAPABILITY = -32001"

datatype DispatchError = NotInitialized | NotSupported | Negotiation

definition rpc_error :: "int \<Rightarrow> string \<Rightarrow> RpcError" where
  "rpc_error code msg = \<lparr>error_code = code, error_message = msg, error_data = None\<rparr>"

definition not_found :: "RpcError + 'a" where
  "not_found = Inl (rpc_error ERROR_METHOD_NOT_FOUND ''method not found'')"

definition internal_handler_error :: RpcError where
  "internal_handler_error = rpc_error (-32603) ''internal MCP handler error''"

definition invalid_params :: RpcError where
  "invalid_params = rpc_error ERROR_INVALID_PARAMS ''invalid parameters''"

definition negotiation_error :: RpcError where
  "negotiation_error = rpc_error (-32003) ''invalid MCP negotiation''"

definition internal_error :: RpcError where
  "internal_error = rpc_error (-32603) ''internal MCP response error''"

record McpServerHandler =
  discover :: "RpcError + DiscoverResult"
  initialize :: "InitializeParams \<Rightarrow> RpcError + InitializeResult"
  tools_list :: "ListParams \<Rightarrow> RpcError + Tool Paginated"
  tools_call :: "ToolCallParams \<Rightarrow> RpcError + ToolCallResult"
  resources_list :: "ListParams \<Rightarrow> RpcError + Resource Paginated"
  resources_read :: "ResourceReadParams \<Rightarrow> RpcError + ResourceReadResult"
  resources_subscribe :: "ResourceSubscriptionParams \<Rightarrow> RpcError + json"
  resources_unsubscribe :: "ResourceSubscriptionParams \<Rightarrow> RpcError + json"
  prompts_list :: "ListParams \<Rightarrow> RpcError + Prompt Paginated"
  prompts_get :: "PromptGetParams \<Rightarrow> RpcError + PromptGetResult"
  ping :: "RpcError + json"

text \<open>The methods a handler does not implement.\<close>

definition default_handler :: McpServerHandler where
  "default_handler =
     \<lparr>discover = Inr \<lparr>supported_versions = [''2026-07-28'', ''2025-11-25''],
         dr_capabilities = no_capabilities, dr_server_info = None\<rparr>,
      initialize = \<lambda>_. not_found, tools_list = \<lambda>_. not_found, tools_call = \<lambda>_. not_found,
      resources_list = \<lambda>_. not_found, resources_read = \<lambda>_. not_found,
      resources_subscribe = \<lambda>_. not_found, resources_unsubscribe = \<lambda>_. not_found,
      prompts_list = \<lambda>_. not_found, prompts_get = \<lambda>_. not_found, ping = Inr (JObject [])\<rparr>"

datatype NegotiationState =
    Pristine
  | LegacyStaged McpProtocolEra ServerCapabilities
  | SessionReady McpProtocolEra ServerCapabilities
  | Rejected

definition server_capabilities :: "NegotiationState \<Rightarrow> ServerCapabilities option" where
  "server_capabilities n = (case n of SessionReady _ caps \<Rightarrow> Some caps | _ \<Rightarrow> None)"

definition server_era :: "NegotiationState \<Rightarrow> McpProtocolEra option" where
  "server_era n = (case n of SessionReady e _ \<Rightarrow> Some e | _ \<Rightarrow> None)"

definition initialized :: "NegotiationState \<Rightarrow> bool" where
  "initialized n = (case n of SessionReady _ _ \<Rightarrow> True | _ \<Rightarrow> False)"

definition require_method :: "NegotiationState \<Rightarrow> string \<Rightarrow> RpcError + unit" where
  "require_method n method =
     (case n of
        SessionReady _ caps \<Rightarrow>
          let allowed =
            (if method \<in> set [METHOD_TOOLS_LIST, METHOD_TOOLS_CALL] then cap_tools caps \<noteq> None
             else if method \<in> set [METHOD_RESOURCES_LIST, METHOD_RESOURCES_READ]
             then cap_resources caps \<noteq> None
             else if method \<in> set [METHOD_RESOURCES_SUBSCRIBE, METHOD_RESOURCES_UNSUBSCRIBE]
             then flag (cap_resources caps) subscribe
             else if method \<in> set [METHOD_PROMPTS_LIST, METHOD_PROMPTS_GET]
             then cap_prompts caps \<noteq> None
             else False)
          in ensure allowed
               (rpc_error ERROR_CAPABILITY ''method unavailable in negotiated capabilities'')
      | _ \<Rightarrow> Inl (rpc_error ERROR_NOT_INITIALIZED ''server is not initialized''))"

definition params_of :: "(json \<Rightarrow> 'a option) \<Rightarrow> json \<Rightarrow> RpcError + 'a" where
  "params_of de v = ok_or (de v) invalid_params"

definition validated_result ::
  "('a \<Rightarrow> ValidationError + unit) \<Rightarrow> ('a \<Rightarrow> json option) \<Rightarrow> RpcError + 'a \<Rightarrow> RpcError + json" where
  "validated_result validate_mcp to_value result =
     and_then result (\<lambda>v.
     and_then (map_err (\<lambda>_. internal_handler_error) (validate_mcp v)) (\<lambda>_.
       ok_or (to_value v) internal_error))"

text \<open>The arms of the match that check a capability, read parameters and ask the handler.\<close>

definition guarded_call ::
  "NegotiationState \<Rightarrow> string \<Rightarrow> (json \<Rightarrow> 'p option) \<Rightarrow> ('p \<Rightarrow> ValidationError + unit)
     \<Rightarrow> ('r \<Rightarrow> ValidationError + unit) \<Rightarrow> ('r \<Rightarrow> json option) \<Rightarrow> ('p \<Rightarrow> RpcError + 'r) \<Rightarrow> json
     \<Rightarrow> RpcError + json" where
  "guarded_call n method de validate_params validate_result to_value handle params =
     and_then (require_method n method) (\<lambda>_.
     and_then (params_of de params) (\<lambda>v.
     and_then (map_err (\<lambda>_. invalid_params) (validate_params v)) (\<lambda>_.
       validated_result validate_result to_value (handle v))))"

text \<open>A second negotiation attempt; a staged legacy session is rejected by it.\<close>

definition negotiate_again :: "NegotiationState \<Rightarrow> NegotiationState" where
  "negotiate_again n = (case n of LegacyStaged _ _ \<Rightarrow> Rejected | _ \<Rightarrow> n)"

definition dispatch_discover ::
  "serde \<Rightarrow> McpServerHandler \<Rightarrow> NegotiationState \<Rightarrow> (RpcError + json) \<times> NegotiationState" where
  "dispatch_discover S h n =
     (if n \<noteq> Pristine then (Inl negotiation_error, negotiate_again n)
      else
        case and_then (discover h) (\<lambda>discovered.
             and_then (map_err (\<lambda>_. internal_handler_error) (validate_discover_result discovered)) (\<lambda>_.
               if repeated_or_unknown {} (supported_versions discovered) then Inl negotiation_error
               else
                 and_then (map_err (\<lambda>_. negotiation_error)
                             (select_protocol_version (supported_versions discovered))) (\<lambda>e.
                   if \<not> is_modern e then Inl negotiation_error
                   else
                     and_then (ok_or (ser_discover_result S discovered) internal_error) (\<lambda>v.
                       Inr (v, SessionReady e (dr_capabilities discovered))))))
        of Inl e \<Rightarrow> (Inl e, n)
         | Inr (v, n') \<Rightarrow> (Inr v, n'))"

definition dispatch_initialize ::
  "serde \<Rightarrow> McpServerHandler \<Rightarrow> NegotiationState \<Rightarrow> json \<Rightarrow> (RpcError + json) \<times> NegotiationState"
  where
  "dispatch_initialize S h n p =
     (if n \<noteq> Pristine then (Inl negotiation_error, negotiate_again n)
      else
        case and_then (params_of (de_initialize_params S) p) (\<lambda>params.
             and_then (map_err (\<lambda>_. invalid_params) (validate_initialize_params params)) (\<lambda>_.
               if ip_protocol_version params \<noteq> ''2025-11-25'' then Inl negotiation_error
               else
                 and_then (initialize h params) (\<lambda>result.
                 and_then (map_err (\<lambda>_. internal_handler_error)
                             (validate_initialize_result result)) (\<lambda>_.
                   if ir_protocol_version result \<noteq> ip_protocol_version params
                      \<or> from_wire_version (ir_protocol_version result) \<noteq> Some Legacy20251125
                   then Inl negotiation_error
                   else
                     and_then (ok_or (ser_initialize_result S result) internal_error) (\<lambda>v.
                       Inr (v, LegacyStaged Legacy20251125 (ir_capabilities result)))))))
        of Inl e \<Rightarrow> (Inl e, n)
         | Inr (v, n') \<Rightarrow> (Inr v, n'))"

definition dispatch_call ::
  "serde \<Rightarrow> McpServerHandler \<Rightarrow> NegotiationState \<Rightarrow> string \<Rightarrow> json \<Rightarrow> RpcError + json" where
  "dispatch_call S h n method params =
     (if method = METHOD_PING then validated_result validate_json Some (ping h)
      else if method = METHOD_TOOLS_LIST
      then guarded_call n METHOD_TOOLS_LIST (de_list_params S) validate_list_params
             (validate_tool_page (to_vec S)) (ser_tool_page S) (tools_list h) params
      else if method = METHOD_TOOLS_CALL
      then guarded_call n METHOD_TOOLS_CALL (de_tool_call_params S) validate_tool_call_params
             (validate_tool_call_result (b64_decode S)) (ser_tool_call_result S) (tools_call h) params
      else if method = METHOD_RESOURCES_LIST
      then guarded_call n METHOD_RESOURCES_LIST (de_list_params S) validate_list_params
             validate_resource_page (ser_resource_page S) (resources_list h) params
      else if method = METHOD_RESOURCES_READ
      then guarded_call n METHOD_RESOURCES_READ (de_read_params S) validate_resource_read_params
             (validate_resource_read_result (b64_decode S)) (ser_read_result S) (resources_read h) params
      else if method = METHOD_RESOURCES_SUBSCRIBE
      then guarded_call n METHOD_RESOURCES_SUBSCRIBE (de_subscription_params S)
             validate_subscription_params validate_json Some (resources_subscribe h) params
      else if method = METHOD_RESOURCES_UNSUBSCRIBE
      then guarded_call n METHOD_RESOURCES_UNSUBSCRIBE (de_subscription_params S)
             validate_subscription_params validate_json Some (resources_unsubscribe h) params
      else if method = METHOD_PROMPTS_LIST
      then guarded_call n METHOD_PROMPTS_LIST (de_list_params S) validate_list_params
             validate_prompt_page (ser_prompt_page S) (prompts_list h) params
      else if method = METHOD_PROMPTS_GET
      then guarded_call n METHOD_PROMPTS_GET (de_get_params S) validate_prompt_get_params
             (validate_prompt_get_result (b64_decode S)) (ser_get_result S) (prompts_get h) params
      else not_found)"

definition dispatch_request ::
  "serde \<Rightarrow> McpServerHandler \<Rightarrow> NegotiationState \<Rightarrow> Request \<Rightarrow> (RpcError + json) \<times> NegotiationState"
  where
  "dispatch_request S h n r =
     (let method = req_method r;
          params = (case req_params r of Some p \<Rightarrow> p | None \<Rightarrow> JObject [])
      in if method = METHOD_DISCOVER then dispatch_discover S h n
         else if method = METHOD_INITIALIZE then dispatch_initialize S h n params
         else (dispatch_call S h n method params, n))"

definition dispatch ::
  "serde \<Rightarrow> McpServerHandler \<Rightarrow> NegotiationState \<Rightarrow> Request \<Rightarrow> Response \<times> NegotiationState" where
  "dispatch S h n r =
     (case dispatch_request S h n r of (result, n') \<Rightarrow>
        case validated_response_for_method S (req_method r) (req_id r) result of
          Inr resp \<Rightarrow> (resp, n')
        | Inl _ \<Rightarrow>
            (safe_internal_error_response (req_id r), if n' \<noteq> Rejected then n else n'))"

definition notification_capability ::
  "NegotiationState \<Rightarrow> CapabilityNotification \<Rightarrow> DispatchError + unit" where
  "notification_capability n note =
     (case n of
        SessionReady _ caps \<Rightarrow> ensure (notification_allowed note caps) NotSupported
      | _ \<Rightarrow> Inl NotInitialized)"

definition notify ::
  "serde \<Rightarrow> NegotiationState \<Rightarrow> Notification
     \<Rightarrow> (DispatchError + unit) \<times> NegotiationState \<times> CancelledParams option" where
  "notify S n note =
     (let method = note_method note
      in if method = METHOD_INITIALIZED then
           (case n of
              LegacyStaged e caps \<Rightarrow> (Inr (), SessionReady e caps, None)
            | _ \<Rightarrow> (Inl Negotiation, n, None))
         else if method = METHOD_CANCELLED then
           (case and_then (map_err (\<lambda>_. NotSupported) (params_of (de_cancelled_params S)
                   (case note_params note of Some p \<Rightarrow> p | None \<Rightarrow> JObject []))) (\<lambda>params.
                 and_then (map_err (\<lambda>_. NotSupported) (validate_cancelled_params params)) (\<lambda>_.
                   Inr params))
            of Inl e \<Rightarrow> (Inl e, n, None)
             | Inr params \<Rightarrow> (Inr (), n, Some params))
         else if method = METHOD_TOOLS_LIST_CHANGED
         then (notification_capability n ToolsListChanged, n, None)
         else if method = METHOD_RESOURCES_LIST_CHANGED
         then (notification_capability n ResourcesListChanged, n, None)
         else if method = METHOD_RESOURCE_UPDATED
         then (notification_capability n ResourceUpdated, n, None)
         else if method = METHOD_PROGRESS then (Inl NotSupported, n, None)
         else if method = METHOD_LOGGING_MESSAGE
         then (notification_capability n Logging, n, None)
         else (Inr (), n, None))"

subsection \<open>Responses\<close>

lemma response_Inr:
  "response S i res = Inr resp \<longleftrightarrow>
     resp = \<lparr>resp_jsonrpc = JSONRPC_VERSION, resp_id = i,
       resp_result = (case res of Inr v \<Rightarrow> Body_Result v | Inl e \<Rightarrow> Body_Error e)\<rparr>
     \<and> message_ok S (Msg_Response resp)"
  by (auto simp: response_def validate_response_Inr simp del: message_ok.simps)

lemma validated_response_Inr:
  "validated_response_for_method S method i res = Inr resp \<longleftrightarrow>
     (\<forall>v. res = Inr v \<longrightarrow> validate_success S method v = Inr ()) \<and> response S i res = Inr resp"
  by (cases res) (auto simp: validated_response_for_method_def)

lemma dispatch_cases:
  obtains (answered) result n' resp where "dispatch_request S h n r = (result, n')"
      and "validated_response_for_method S (req_method r) (req_id r) result = Inr resp"
      and "dispatch S h n r = (resp, n')"
  | (withheld) result n' where "dispatch_request S h n r = (result, n')"
      and "dispatch S h n r = (safe_internal_error_response (req_id r), if n' \<noteq> Rejected then n else n')"
proof -
  obtain result n' where req: "dispatch_request S h n r = (result, n')" by (cases "dispatch_request S h n r")
  show thesis
  proof (cases "validated_response_for_method S (req_method r) (req_id r) result")
    case (Inl e)
    with req show thesis by (intro withheld) (simp_all add: dispatch_def)
  next
    case (Inr resp)
    with req show thesis by (intro answered) (simp_all add: dispatch_def)
  qed
qed

subsection \<open>The negotiation as a state machine\<close>

datatype server_op = Sv_Request McpServerHandler Request | Sv_Notify Notification

fun server_step :: "serde \<Rightarrow> NegotiationState \<Rightarrow> server_op \<Rightarrow> NegotiationState" where
  "server_step S n (Sv_Request h r) = snd (dispatch S h n r)"
| "server_step S n (Sv_Notify note) = fst (snd (notify S n note))"

fun server_told :: "serde \<Rightarrow> NegotiationState \<Rightarrow> server_op \<Rightarrow> json option" where
  "server_told S n (Sv_Request h r) =
     (case resp_result (fst (dispatch S h n r)) of Body_Result v \<Rightarrow> Some v | Body_Error _ \<Rightarrow> None)"
| "server_told S n (Sv_Notify note) = None"

text \<open>
  What a handler offers: a valid result of a discovery that lists the modern version, and a valid
  result of an initialization for the legacy version, with the capabilities it announces; and
  whether a result can be sent as the answer to a request.
\<close>

definition offers_modern :: "serde \<Rightarrow> McpServerHandler \<Rightarrow> json \<Rightarrow> ServerCapabilities \<Rightarrow> bool" where
  "offers_modern S h v caps \<longleftrightarrow>
     (\<exists>d. discover h = Inr d \<and> validate_discover_result d = Inr () \<and> ''2026-07-28'' \<in> set (supported_versions d)
        \<and> ser_discover_result S d = Some v \<and> dr_capabilities d = caps)"

definition offers_legacy ::
  "serde \<Rightarrow> McpServerHandler \<Rightarrow> Request \<Rightarrow> json \<Rightarrow> ServerCapabilities \<Rightarrow> bool" where
  "offers_legacy S h r v caps \<longleftrightarrow>
     (\<exists>params result. de_initialize_params S (case req_params r of Some p \<Rightarrow> p | None \<Rightarrow> JObject []) = Some params
        \<and> validate_initialize_params params = Inr () \<and> ip_protocol_version params = ''2025-11-25''
        \<and> initialize h params = Inr result \<and> validate_initialize_result result = Inr ()
        \<and> ir_protocol_version result = ''2025-11-25''
        \<and> ser_initialize_result S result = Some v \<and> ir_capabilities result = caps)"

definition answerable :: "serde \<Rightarrow> Request \<Rightarrow> json \<Rightarrow> bool" where
  "answerable S r v \<longleftrightarrow> is_ok (validated_response_for_method S (req_method r) (req_id r) (Inr v))"

text \<open>
  The specification: how a session's negotiation moves, and what the client is told meanwhile.  A
  session stays as it is only for a call that is not a negotiation, for a notification other than the
  awaited one, for a negotiation that comes too late, and when there is no offer that can be sent.
\<close>

inductive negotiates :: "serde \<Rightarrow> NegotiationState \<Rightarrow> server_op \<Rightarrow> json option \<Rightarrow> NegotiationState \<Rightarrow> bool"
  for S where
  neg_discover: "req_method r = ''server/discover'' \<Longrightarrow> offers_modern S h v caps \<Longrightarrow> answerable S r v
     \<Longrightarrow> negotiates S Pristine (Sv_Request h r) (Some v) (SessionReady Modern20260728 caps)"
| neg_initialize: "req_method r = ''initialize'' \<Longrightarrow> offers_legacy S h r v caps \<Longrightarrow> answerable S r v
     \<Longrightarrow> negotiates S Pristine (Sv_Request h r) (Some v) (LegacyStaged Legacy20251125 caps)"
| neg_initialized: "note_method note = ''notifications/initialized''
     \<Longrightarrow> negotiates S (LegacyStaged e caps) (Sv_Notify note) None (SessionReady e caps)"
| neg_reject: "req_method r \<in> {''server/discover'', ''initialize''}
     \<Longrightarrow> negotiates S (LegacyStaged e caps) (Sv_Request h r) None Rejected"
| neg_no_modern: "req_method r = ''server/discover'' \<Longrightarrow> \<nexists>v caps. offers_modern S h v caps \<and> answerable S r v
     \<Longrightarrow> negotiates S Pristine (Sv_Request h r) None Pristine"
| neg_no_legacy: "req_method r = ''initialize'' \<Longrightarrow> \<nexists>v caps. offers_legacy S h r v caps \<and> answerable S r v
     \<Longrightarrow> negotiates S Pristine (Sv_Request h r) None Pristine"
| neg_ready: "req_method r \<in> {''server/discover'', ''initialize''}
     \<Longrightarrow> negotiates S (SessionReady e caps) (Sv_Request h r) None (SessionReady e caps)"
| neg_rejected: "req_method r \<in> {''server/discover'', ''initialize''}
     \<Longrightarrow> negotiates S Rejected (Sv_Request h r) None Rejected"
| neg_call: "req_method r \<notin> {''server/discover'', ''initialize''} \<Longrightarrow> negotiates S n (Sv_Request h r) told n"
| neg_note: "note_method note \<noteq> ''notifications/initialized'' \<or> (\<forall>e caps. n \<noteq> LegacyStaged e caps)
     \<Longrightarrow> negotiates S n (Sv_Notify note) None n"

inductive_cases negotiates_ready: "negotiates S (SessionReady e caps) op told n"
inductive_cases negotiates_rejected: "negotiates S Rejected op told n"

lemma repeated_or_unknown_valid: "validate_discover_result d = Inr () \<Longrightarrow> \<not> repeated_or_unknown {} (supported_versions d)"
  by (auto simp: validate_discover_result_def split: if_splits sum.splits)

lemma select_modern:
  "select_protocol_version versions = Inr Modern20260728 \<longleftrightarrow> ''2026-07-28'' \<in> set versions"
  "select_protocol_version versions = Inr e \<Longrightarrow> is_modern e \<longleftrightarrow> ''2026-07-28'' \<in> set versions"
  by (auto simp: select_protocol_version_def SUPPORTED_PROTOCOL_ERAS_def is_modern_def list_ex_iff       CURRENT_PROTOCOL_VERSION_def split: if_splits option.splits)

lemma discover_outcome:
  obtains (offered) v caps where "offers_modern S h v caps"
      "dispatch_discover S h Pristine = (Inr v, SessionReady Modern20260728 caps)"
  | (refused) e where "\<nexists>v caps. offers_modern S h v caps" "dispatch_discover S h Pristine = (Inl e, Pristine)"
proof (cases "\<exists>v caps. offers_modern S h v caps")
  case True
  then obtain v d where d: "discover h = Inr d" "validate_discover_result d = Inr ()"
    "''2026-07-28'' \<in> set (supported_versions d)" "ser_discover_result S d = Some v"
    unfolding offers_modern_def by blast
  then have "dispatch_discover S h Pristine = (Inr v, SessionReady Modern20260728 (dr_capabilities d))"
    using repeated_or_unknown_valid [OF d(2)] select_modern(1) [THEN iffD2, OF d(3)]
    by (simp add: dispatch_discover_def is_modern_def)
  with d show thesis by (intro offered) (auto simp: offers_modern_def)
next
  case False
  obtain r n' where run: "dispatch_discover S h Pristine = (r, n')" by (metis surj_pair)
  have "\<exists>e. r = Inl e \<and> n' = Pristine"
  proof (cases r)
    case (Inr v)
    have "\<exists>caps. offers_modern S h v caps"
      using run Inr unfolding dispatch_discover_def offers_modern_def
      by (auto simp: select_modern(2) split: sum.splits if_splits)
    with False show ?thesis by blast
  qed (use run in \<open>auto simp: dispatch_discover_def split: sum.splits if_splits\<close>)
  with run False show thesis using refused by blast
qed

lemma initialize_outcome:
  fixes S h r
  defines "p \<equiv> case req_params r of Some p \<Rightarrow> p | None \<Rightarrow> JObject []"
  obtains (offered) v caps where "offers_legacy S h r v caps"
      "dispatch_initialize S h Pristine p = (Inr v, LegacyStaged Legacy20251125 caps)"
  | (refused) e where "\<nexists>v caps. offers_legacy S h r v caps" "dispatch_initialize S h Pristine p = (Inl e, Pristine)"
proof (cases "\<exists>v caps. offers_legacy S h r v caps")
  case True
  then obtain v params result where o: "de_initialize_params S p = Some params"
    "validate_initialize_params params = Inr ()" "ip_protocol_version params = ''2025-11-25''"
    "initialize h params = Inr result" "validate_initialize_result result = Inr ()"
    "ir_protocol_version result = ''2025-11-25''" "ser_initialize_result S result = Some v"
    unfolding offers_legacy_def p_def by blast
  moreover have "from_wire_version ''2025-11-25'' = Some Legacy20251125" by code_simp
  ultimately have "dispatch_initialize S h Pristine p = (Inr v, LegacyStaged Legacy20251125 (ir_capabilities result))"
    by (simp add: dispatch_initialize_def params_of_def)
  with o show thesis by (intro offered) (auto simp: offers_legacy_def p_def)
next
  case False
  obtain q n' where run: "dispatch_initialize S h Pristine p = (q, n')" by (metis surj_pair)
  have "\<exists>e. q = Inl e \<and> n' = Pristine"
  proof (cases q)
    case (Inr v)
    have "\<exists>caps. offers_legacy S h r v caps"
      using run Inr unfolding dispatch_initialize_def offers_legacy_def p_def params_of_def
      by (auto split: sum.splits if_splits)
    with False show ?thesis by blast
  qed (use run in \<open>auto simp: dispatch_initialize_def split: sum.splits if_splits\<close>)
  with run False show thesis using refused by blast
qed

lemma negotiated_before:
  "n \<noteq> Pristine \<Longrightarrow> dispatch_discover S h n = (Inl negotiation_error, negotiate_again n)"
  "n \<noteq> Pristine \<Longrightarrow> dispatch_initialize S h n p = (Inl negotiation_error, negotiate_again n)"
  by (simp_all add: dispatch_discover_def dispatch_initialize_def)

lemma dispatch_error:
  assumes "dispatch_request S h n r = (Inl e, n')"
  shows "server_told S n (Sv_Request h r) = None"
    and "server_step S n (Sv_Request h r) = n' \<or> n' \<noteq> Rejected \<and> server_step S n (Sv_Request h r) = n"
proof -
  show "server_told S n (Sv_Request h r) = None"
    using assms by (cases rule: dispatch_cases [of S h n r])
      (auto simp: validated_response_Inr response_Inr safe_internal_error_response_def)
  show "server_step S n (Sv_Request h r) = n' \<or> n' \<noteq> Rejected \<and> server_step S n (Sv_Request h r) = n"
    using assms by (cases rule: dispatch_cases [of S h n r]) auto
qed

lemma dispatch_result:
  assumes "dispatch_request S h n r = (Inr v, n')" "n' \<noteq> Rejected"
  shows "answerable S r v \<and> server_told S n (Sv_Request h r) = Some v \<and> server_step S n (Sv_Request h r) = n'
     \<or> \<not> answerable S r v \<and> server_told S n (Sv_Request h r) = None \<and> server_step S n (Sv_Request h r) = n"
proof (cases "validated_response_for_method S (req_method r) (req_id r) (Inr v)")
  case (Inl e)
  with assms show ?thesis by (simp add: answerable_def dispatch_def safe_internal_error_response_def)
next
  case (Inr resp)
  moreover from this have "resp_result resp = Body_Result v" by (auto simp: validated_response_Inr response_Inr)
  ultimately show ?thesis using assms by (simp add: answerable_def dispatch_def)
qed

lemma negotiation_request_moves:
  assumes m: "req_method r \<in> {''server/discover'', ''initialize''}"
  shows "negotiates S n (Sv_Request h r) (server_told S n (Sv_Request h r)) (server_step S n (Sv_Request h r))"
proof (cases "n = Pristine")
  case False
  with m have again: "dispatch_request S h n r = (Inl negotiation_error, negotiate_again n)"
    by (auto simp: dispatch_request_def Let_def method_names negotiated_before)
  have told: "server_told S n (Sv_Request h r) = None" by (rule dispatch_error(1) [OF again])
  have "negotiate_again n = n \<or> negotiate_again n = Rejected" by (cases n) (simp_all add: negotiate_again_def)
  with dispatch_error(2) [OF again] have "server_step S n (Sv_Request h r) = negotiate_again n" by metis
  then show ?thesis
    using False unfolding told
    by (cases n) (simp_all add: negotiate_again_def neg_reject [OF m] neg_ready [OF m] neg_rejected [OF m]
        del: server_step.simps)
next
  case True
  show ?thesis
  proof (cases "req_method r = ''server/discover''")
    case d: True
    show ?thesis
    proof (cases rule: discover_outcome [of S h])
      case (offered v caps)
      then have run: "dispatch_request S h n r = (Inr v, SessionReady Modern20260728 caps)"
        using d True by (simp add: dispatch_request_def Let_def METHOD_DISCOVER_def)
      have unique: "w = v" if "offers_modern S h w caps'" for w caps'
        using offered(1) that by (auto simp: offers_modern_def)
      from dispatch_result [OF run NegotiationState.distinct(11)] show ?thesis
      proof (elim disjE conjE, goal_cases)
        case 1
        with neg_discover [OF d offered(1)] show ?case by (simp only: True)
      next
        case 2
        with unique have "\<nexists>v caps. offers_modern S h v caps \<and> answerable S r v" by blast
        with 2 neg_no_modern [OF d] show ?case by (simp only: True)
      qed
    next
      case (refused e)
      then have run: "dispatch_request S h n r = (Inl e, Pristine)"
        using d True by (simp add: dispatch_request_def Let_def METHOD_DISCOVER_def)
      have "server_told S n (Sv_Request h r) = None" "server_step S n (Sv_Request h r) = Pristine"
        using dispatch_error [OF run] True by auto
      with neg_no_modern [OF d] refused(1) show ?thesis unfolding True by auto
    qed
  next
    case False
    with m have i: "req_method r = ''initialize''" by simp
    show ?thesis
    proof (cases rule: initialize_outcome [where S = S and h = h and r = r])
      case (offered v caps)
      then have run: "dispatch_request S h n r = (Inr v, LegacyStaged Legacy20251125 caps)"
        using i True by (simp add: dispatch_request_def Let_def method_names)
      have unique: "w = v" if "offers_legacy S h r w caps'" for w caps'
        using offered(1) that by (auto simp: offers_legacy_def)
      from dispatch_result [OF run NegotiationState.distinct(9)] show ?thesis
      proof (elim disjE conjE, goal_cases)
        case 1
        with neg_initialize [OF i offered(1)] show ?case by (simp only: True)
      next
        case 2
        with unique have "\<nexists>v caps. offers_legacy S h r v caps \<and> answerable S r v" by blast
        with 2 neg_no_legacy [OF i] show ?case by (simp only: True)
      qed
    next
      case (refused e)
      then have run: "dispatch_request S h n r = (Inl e, Pristine)"
        using i True by (simp add: dispatch_request_def Let_def method_names)
      have "server_told S n (Sv_Request h r) = None" "server_step S n (Sv_Request h r) = Pristine"
        using dispatch_error [OF run] True by auto
      with neg_no_legacy [OF i] refused(1) show ?thesis unfolding True by auto
    qed
  qed
qed

lemma notify_state:
  "fst (snd (notify S n note)) =
     (if note_method note = METHOD_INITIALIZED
      then (case n of LegacyStaged e caps \<Rightarrow> SessionReady e caps | _ \<Rightarrow> n) else n)"
  unfolding notify_def Let_def by (simp split: NegotiationState.split sum.split)

lemma call_state:
  assumes "req_method r \<notin> {''server/discover'', ''initialize''}"
  shows "snd (dispatch S h n r) = n"
proof -
  have "snd (dispatch_request S h n r) = n"
    using assms by (simp add: dispatch_request_def Let_def METHOD_DISCOVER_def METHOD_INITIALIZE_def)
  then show ?thesis by (cases rule: dispatch_cases [of S h n r]) auto
qed

lemma step_negotiates: "negotiates S n op (server_told S n op) (server_step S n op)"
proof (cases op)
  case (Sv_Request h r)
  show ?thesis
  proof (cases "req_method r \<in> {''server/discover'', ''initialize''}")
    case True
    then show ?thesis unfolding Sv_Request by (rule negotiation_request_moves)
  next
    case False
    then show ?thesis using neg_call [OF False] by (simp add: Sv_Request call_state)
  qed
next
  case (Sv_Notify nt)
  then show ?thesis
    by (cases n) (auto simp: notify_state METHOD_INITIALIZED_def intro: neg_note neg_initialized)
qed

text \<open>
  Property C32: every request and notification, whatever the handler and the JSON library do, moves
  the negotiation, and tells the client, exactly as specified.  A modern session becomes ready by a
  discovery, with the capabilities of the result that the client is sent; a legacy one is staged by
  initialize, with the capabilities of the result that the client is sent, and becomes ready with the
  staged ones by the initialized notification; a second negotiation rejects a staged session; a
  negotiation is refused only where there is no valid offer of the handler or where it is too late;
  and nothing else moves the session.
\<close>

theorem server_refines_negotiation: "negotiates S n op (server_told S n op) (server_step S n op)"
  by (rule step_negotiates)

interpretation ready_session: op_invariant "server_step S" "\<lambda>n. n = SessionReady e caps"
  by unfold_locales (metis negotiates_ready step_negotiates)

interpretation rejected_session: op_invariant "server_step S" "\<lambda>n. n = Rejected"
  by unfold_locales (metis negotiates_rejected step_negotiates)

lemma offers_valid:
  "offers_modern S h v caps \<Longrightarrow> validate_server_capabilities caps = Inr ()"
  "offers_legacy S h r v caps \<Longrightarrow> validate_server_capabilities caps = Inr ()"
  by (auto simp: offers_modern_def offers_legacy_def validate_discover_result_def validate_initialize_result_def
      split: if_splits)

definition negotiation_ok :: "NegotiationState \<Rightarrow> bool" where
  "negotiation_ok n =
     (case n of
        LegacyStaged e caps \<Rightarrow>
          e = Legacy20251125 \<and> validate_server_capabilities caps = Inr ()
      | SessionReady e caps \<Rightarrow>
          e \<in> set SUPPORTED_PROTOCOL_ERAS \<and> validate_server_capabilities caps = Inr ()
      | _ \<Rightarrow> True)"

interpretation negotiation: op_invariant "server_step S" negotiation_ok
proof
  fix n x
  assume "negotiation_ok n"
  with step_negotiates [of S n x] show "negotiation_ok (server_step S n x)"
    by (cases rule: negotiates.cases)
       (auto simp: negotiation_ok_def SUPPORTED_PROTOCOL_ERAS_def offers_valid)
qed

text \<open>
  Property: what a client negotiated is final.  Whatever is sent later, a ready session keeps its
  era and its capabilities, and a rejected session is never ready.
\<close>

theorem negotiation_is_final:
  "run_ops (server_step S) (SessionReady e caps) ops = SessionReady e caps
   \<and> run_ops (server_step S) Rejected ops = Rejected"
  by (simp add: ready_session.run_keeps_inv rejected_session.run_keeps_inv)

text \<open>
  Property: in every reachable state, a staged session is legacy, a ready one has a supported
  era, and the capabilities were validated.
\<close>

theorem negotiation_invariant: "negotiation_ok (run_ops (server_step S) Pristine ops)"
  by (rule negotiation.run_keeps_inv) (simp add: negotiation_ok_def)

subsection \<open>Capabilities\<close>

text \<open>The wire names of the methods that \<open>capabilities.rs\<close> gates.\<close>

fun method_name :: "CapabilityMethod \<Rightarrow> string" where
  "method_name ToolsList = METHOD_TOOLS_LIST"
| "method_name ToolsCall = METHOD_TOOLS_CALL"
| "method_name ResourcesList = METHOD_RESOURCES_LIST"
| "method_name ResourcesRead = METHOD_RESOURCES_READ"
| "method_name ResourcesSubscribe = METHOD_RESOURCES_SUBSCRIBE"
| "method_name ResourcesUnsubscribe = METHOD_RESOURCES_UNSUBSCRIBE"
| "method_name PromptsList = METHOD_PROMPTS_LIST"
| "method_name PromptsGet = METHOD_PROMPTS_GET"
| "method_name Ping = METHOD_PING"

lemma require_method_iff:
  "require_method n (method_name m) = Inr () \<longleftrightarrow>
     m \<noteq> Ping \<and> (\<exists>e caps. n = SessionReady e caps \<and> require m caps = Inr ())"
  by (cases n; cases m) (simp_all add: require_method_def method_names)

text \<open>
  Property: the dispatcher and the capability table, which the source writes down separately,
  gate the methods alike: the dispatcher lets a method through exactly in a ready session whose
  capabilities the table allows it for (a ping needs no gate there).
\<close>

theorem require_agrees_with_capabilities:
  "require_method n (method_name m) = Inr () \<longleftrightarrow>
     m \<noteq> Ping \<and> (\<exists>e caps. n = SessionReady e caps \<and> require m caps = Inr ())"
  by (rule require_method_iff)

lemma guarded_call_refused:
  "require_method n method = Inl e \<Longrightarrow> guarded_call n method de vp vr tv handle params = Inl e"
  by (simp add: guarded_call_def)

lemma dispatch_call_refused:
  assumes "require_method n (method_name m) = Inl e" and "m \<noteq> Ping"
  shows "dispatch_call S h n (method_name m) params = Inl e"
  using assms by (cases m) (simp_all add: dispatch_call_def method_names guarded_call_refused)

lemma require_error:
  "require_method n method = Inl e \<Longrightarrow> error_code e \<in> {-32001, -32002}"
  by (auto simp: require_method_def Let_def rpc_error_def ERROR_CAPABILITY_def
      ERROR_NOT_INITIALIZED_def split: NegotiationState.splits if_splits)

text \<open>
  Property C34: a gated method that the negotiated capabilities do not allow never reaches the
  handler: the answer is an error and the same for every handler, and the session does not change.
\<close>

theorem ungranted_method_never_reaches_handler:
  assumes "m \<noteq> Ping" and "req_method r = method_name m"
    and "\<nexists>e caps. n = SessionReady e caps \<and> allowed m caps"
  shows "dispatch S h n r = dispatch S default_handler n r
     \<and> snd (dispatch S h n r) = n \<and> (\<exists>e. resp_result (fst (dispatch S h n r)) = Body_Error e)"
proof -
  obtain e where e: "require_method n (method_name m) = Inl e"
    using require_method_iff [of n m] assms(3)
    by (cases "require_method n (method_name m)") auto
  have "method_name m \<noteq> METHOD_DISCOVER" "method_name m \<noteq> METHOD_INITIALIZE"
    by (cases m; simp add: method_names)+
  then have req: "dispatch_request S h' n r = (Inl e, n)" for h'
    using dispatch_call_refused [OF e assms(1)] assms(2)
    by (simp add: dispatch_request_def Let_def)
  show ?thesis
  proof (cases "validated_response_for_method S (req_method r) (req_id r) (Inl e)")
    case (Inl w)
    then show ?thesis by (simp add: dispatch_def req safe_internal_error_response_def)
  next
    case (Inr resp)
    then have "resp_result resp = Body_Error e" by (auto simp: validated_response_Inr response_Inr)
    with Inr show ?thesis by (simp add: dispatch_def req)
  qed
qed

theorem ungranted_method_never_reaches_handler_witness:
  "\<exists>e. resp_result (fst (dispatch (one_message (Msg_Request (sample_request (Number 1) JNull)) ''x'')
        (default_handler\<lparr>tools_list := \<lambda>_. Inr \<lparr>page_items = [], next_cursor = None\<rparr>\<rparr>) Pristine
        \<lparr>req_jsonrpc = ''2.0'', req_id = Number 1, req_method = ''tools/list'', req_params = None\<rparr>))
     = Body_Error e"
  by (rule ungranted_method_never_reaches_handler [of ToolsList, THEN conjunct2, THEN conjunct2])
     (simp_all add: METHOD_TOOLS_LIST_def)

subsection \<open>Answers\<close>

text \<open>
  Property: every answer carries the id of its request, and it is either a well-formed response
  whose result passes the checks of the method, or the fixed internal error.
\<close>

theorem dispatch_answers_well_formed:
  "resp_id (fst (dispatch S h n r)) = req_id r
   \<and> (fst (dispatch S h n r) = safe_internal_error_response (req_id r)
      \<or> message_ok S (Msg_Response (fst (dispatch S h n r)))
        \<and> correlate S (fst (dispatch S h n r)) (req_method r) = Inr (fst (dispatch S h n r)))"
proof (cases rule: dispatch_cases [of S h n r])
  case (answered result n' resp)
  then show ?thesis
    by (cases result) (auto simp: validated_response_Inr response_Inr correlate_def
        simp del: message_ok.simps)
qed (simp add: safe_internal_error_response_def)

lemma negotiate_again_neq: "n \<noteq> Pristine \<Longrightarrow> negotiate_again n \<noteq> Pristine"
  by (cases n) (auto simp: negotiate_again_def)

text \<open>
  Property: the session advances exactly when the client is told so: a discover or initialize
  request gets a result if and only if it took the dispatcher out of its pristine state; an
  answer withheld because it was not well-formed takes the negotiation back.
\<close>

theorem negotiation_atomic:
  assumes "req_method r \<in> {''server/discover'', ''initialize''}"
  shows "(\<exists>v. resp_result (fst (dispatch S h n r)) = Body_Result v)
     \<longleftrightarrow> n = Pristine \<and> snd (dispatch S h n r) \<noteq> Pristine"
proof -
  have told: "(\<exists>v. resp_result (fst (dispatch S h n r)) = Body_Result v) \<longleftrightarrow> server_told S n (Sv_Request h r) \<noteq> None"
    by (auto split: ResponseBody.split)
  from step_negotiates [of S n "Sv_Request h r"] show ?thesis
    unfolding told using assms by (cases rule: negotiates.cases) auto
qed

theorem negotiation_atomic_witness:
  "(\<exists>v. resp_result (fst (dispatch (one_message (Msg_Request (sample_request (Number 1) JNull)) ''x'')
        default_handler Pristine (sample_request (Number 1) JNull\<lparr>req_method := ''initialize''\<rparr>)))
      = Body_Result v)
   \<longleftrightarrow> Pristine = Pristine
     \<and> snd (dispatch (one_message (Msg_Request (sample_request (Number 1) JNull)) ''x'')
          default_handler Pristine (sample_request (Number 1) JNull\<lparr>req_method := ''initialize''\<rparr>))
        \<noteq> Pristine"
  by (rule negotiation_atomic) simp

end
