(* ===== verification/Mcp_Stdio.thy ===== *)
theory Mcp_Stdio
  imports Mcp_Wire
begin

section \<open>Line framing over pipes (\<open>mcp/stdio.rs\<close>)\<close>

text \<open>
  The transport of \<open>crates/gobrowse-core/src/mcp/stdio.rs\<close>.  The reader is the bytes that are
  still to come and whether the pipe then fails instead of ending; the writer is what has been
  written, and an argument says whether the pipe takes the writes.
\<close>

datatype McpStdioError = Io | CleanEof | PartialEof | Stdio_FrameTooLarge | Wire WireError

abbreviation LF :: char where "LF \<equiv> CHR 0x0A"
abbreviation CR :: char where "CR \<equiv> CHR 0x0D"

definition push_payload_byte :: "string \<Rightarrow> char \<Rightarrow> McpStdioError + string" where
  "push_payload_byte payload b =
     (if length payload = MAX_FRAME_BYTES then Inl Stdio_FrameTooLarge else Inr (payload @ [b]))"

definition at_end :: "bool \<Rightarrow> string \<Rightarrow> bool \<Rightarrow> McpStdioError" where
  "at_end failing payload pending_cr =
     (if failing then Io
      else if pending_cr \<and> length payload = MAX_FRAME_BYTES then Stdio_FrameTooLarge
      else if payload = [] \<and> \<not> pending_cr then CleanEof
      else PartialEof)"

text \<open>The loop: the result and the bytes that are left in the pipe.\<close>

fun recv_loop ::
  "serde \<Rightarrow> bool \<Rightarrow> string \<Rightarrow> bool \<Rightarrow> string \<Rightarrow> (McpStdioError + ValidatedMessage) \<times> string" where
  "recv_loop S failing payload pending_cr [] = (Inl (at_end failing payload pending_cr), [])"
| "recv_loop S failing payload pending_cr (b # bs) =
     (if pending_cr \<and> b = LF then (map_err Wire (decode_message S payload), bs)
      else
        case (if pending_cr then push_payload_byte payload CR else Inr payload) of
          Inl e \<Rightarrow> (Inl e, bs)
        | Inr payload \<Rightarrow>
            if b = LF then (map_err Wire (decode_message S payload), bs)
            else if b = CR then recv_loop S failing payload True bs
            else case push_payload_byte payload b of
                   Inl e \<Rightarrow> (Inl e, bs)
                 | Inr payload \<Rightarrow> recv_loop S failing payload False bs)"

definition recv :: "serde \<Rightarrow> bool \<Rightarrow> string \<Rightarrow> (McpStdioError + ValidatedMessage) \<times> string" where
  "recv S failing input = recv_loop S failing [] False input"

definition send :: "serde \<Rightarrow> bool \<Rightarrow> ValidatedMessage \<Rightarrow> string \<Rightarrow> McpStdioError + string" where
  "send S writable m out =
     and_then (map_err Wire (encode_message S m)) (\<lambda>payload.
       if writable then Inr (out @ payload @ [LF]) else Inl Io)"

definition send_request :: "serde \<Rightarrow> bool \<Rightarrow> Request \<Rightarrow> string \<Rightarrow> McpStdioError + string" where
  "send_request S writable r out = send S writable (Msg_Request r) out"

definition send_notification :: "serde \<Rightarrow> bool \<Rightarrow> Notification \<Rightarrow> string \<Rightarrow> McpStdioError + string" where
  "send_notification S writable n out = send S writable (Msg_Notification n) out"

subsection \<open>Frames\<close>

text \<open>A line without its terminator: one carriage return at its end belongs to the terminator.\<close>

definition strip_cr :: "string \<Rightarrow> string" where
  "strip_cr line = (if line \<noteq> [] \<and> last line = CR then butlast line else line)"

definition held :: "string \<Rightarrow> bool \<Rightarrow> string" where
  "held payload pending_cr = (if pending_cr then payload @ [CR] else payload)"

lemma strip_cr_snoc [simp]:
  "strip_cr (xs @ [CR]) = xs" "b \<noteq> CR \<Longrightarrow> strip_cr (xs @ [b]) = xs @ [b]" "strip_cr [] = []"
  by (simp_all add: strip_cr_def)

lemma strip_cr_length: "length (strip_cr line) \<le> length line" "length line \<le> Suc (length (strip_cr line))"
  by (simp_all add: strip_cr_def)

text \<open>
  The loop on a complete line, from any point inside it: the invariant is that what it holds,
  payload and pending carriage return, is what it has read of the line.
\<close>

lemma recv_loop_line:
  assumes "LF \<notin> set line" and "length payload \<le> MAX_FRAME_BYTES"
  shows "length (strip_cr (held payload pending_cr @ line)) \<le> MAX_FRAME_BYTES
      \<Longrightarrow> (pending_cr \<or> payload = [] \<or> last payload \<noteq> CR)
      \<Longrightarrow> recv_loop S failing payload pending_cr (line @ LF # rest) =
         (map_err Wire (decode_message S (strip_cr (held payload pending_cr @ line))), rest)"
  using assms
proof (induction line arbitrary: payload pending_cr)
  case Nil
  then show ?case
    by (cases "payload = []") (auto simp: held_def strip_cr_def)
next
  case (Cons b line)
  let ?w = "held payload pending_cr"
  have len: "length ?w \<le> MAX_FRAME_BYTES \<or> (b = CR \<and> line = [] \<and> False)"
  proof -
    have "length (?w @ b # line) \<le> Suc (length (strip_cr (?w @ b # line)))"
      by (rule strip_cr_length)
    with Cons.prems(1) show ?thesis by simp
  qed
  then have w: "length ?w \<le> MAX_FRAME_BYTES" by simp
  have b: "b \<noteq> LF" "LF \<notin> set line" using Cons.prems(3) by auto
  have first: "(if pending_cr then push_payload_byte payload CR else Inr payload) = Inr ?w"
    using w by (auto simp: push_payload_byte_def held_def)
  show ?case
  proof (cases "b = CR")
    case True
    have "recv_loop S failing ?w True (line @ LF # rest) =
        (map_err Wire (decode_message S (strip_cr (held ?w True @ line))), rest)"
      using Cons.prems True w b by (intro Cons.IH) (auto simp: held_def)
    with True first b show ?thesis by (simp add: held_def [of ?w])
  next
    case False
    have "length (?w @ [b]) \<le> MAX_FRAME_BYTES"
    proof (cases "line = []")
      case True
      with False Cons.prems(1) show ?thesis by simp
    next
      case nonempty: False
      then have "Suc (length ?w + 1) \<le> length (?w @ b # line)" by (cases line) auto
      with strip_cr_length(2) [of "?w @ b # line"] Cons.prems(1) show ?thesis by simp
    qed
    then have push: "push_payload_byte ?w b = Inr (?w @ [b])"
      by (simp add: push_payload_byte_def)
    have "recv_loop S failing (?w @ [b]) False (line @ LF # rest) =
        (map_err Wire (decode_message S (strip_cr (held (?w @ [b]) False @ line))), rest)"
      using Cons.prems False w b \<open>length (?w @ [b]) \<le> MAX_FRAME_BYTES\<close>
      by (intro Cons.IH) (auto simp: held_def)
    with False first push b show ?thesis by (simp add: held_def [of "?w @ [b]"])
  qed
qed

lemma recv_loop_long:
  assumes "LF \<notin> set line"
  shows "length payload \<le> MAX_FRAME_BYTES
      \<Longrightarrow> length (strip_cr (held payload pending_cr @ line)) > MAX_FRAME_BYTES
      \<Longrightarrow> (pending_cr \<or> payload = [] \<or> last payload \<noteq> CR)
      \<Longrightarrow> fst (recv_loop S failing payload pending_cr (line @ LF # rest)) = Inl Stdio_FrameTooLarge"
  using assms
proof (induction line arbitrary: payload pending_cr)
  case Nil
  then show ?case by (cases "payload = []") (auto simp: held_def strip_cr_def split: if_splits)
next
  case (Cons b line)
  let ?w = "held payload pending_cr"
  have b: "b \<noteq> LF" "LF \<notin> set line" using Cons.prems(4) by auto
  show ?case
  proof (cases "length ?w \<le> MAX_FRAME_BYTES")
    case False
    then have "pending_cr \<and> push_payload_byte payload CR = Inl Stdio_FrameTooLarge"
      using Cons.prems(1) by (auto simp: held_def push_payload_byte_def split: if_splits)
    with b show ?thesis by simp
  next
    case w: True
    then have first: "(if pending_cr then push_payload_byte payload CR else Inr payload) = Inr ?w"
      by (auto simp: push_payload_byte_def held_def)
    show ?thesis
    proof (cases "b = CR")
      case True
      have "fst (recv_loop S failing ?w True (line @ LF # rest)) = Inl Stdio_FrameTooLarge"
        using Cons.prems True w b by (intro Cons.IH) (auto simp: held_def)
      with True first b show ?thesis by simp
    next
      case False
      show ?thesis
      proof (cases "length ?w = MAX_FRAME_BYTES")
        case True
        with False first b show ?thesis by (simp add: push_payload_byte_def)
      next
        case short: False
        have "fst (recv_loop S failing (?w @ [b]) False (line @ LF # rest)) = Inl Stdio_FrameTooLarge"
          using Cons.prems False w b short by (intro Cons.IH) (auto simp: held_def)
        with False first b short show ?thesis by (simp add: push_payload_byte_def)
      qed
    qed
  qed
qed

lemma recv_loop_no_line:
  "LF \<notin> set input \<Longrightarrow> is_ok (fst (recv_loop S failing payload pending_cr input)) = False"
  by (induction S failing payload pending_cr input rule: recv_loop.induct)
     (auto simp: push_payload_byte_def split: sum.splits if_splits)

text \<open>
  Property: the transport cuts its input at line feeds.  A line, without its line feed and one
  carriage return before it, is decoded as one frame when it is at most 1 MiB, and the bytes after
  it are left for the next call; a longer line is refused; and no message is returned for input
  without a line feed.
\<close>

theorem recv_frames:
  assumes "LF \<notin> set line"
  shows "recv S failing (line @ LF # rest) =
       (if length (strip_cr line) \<le> MAX_FRAME_BYTES
        then (map_err Wire (decode_message S (strip_cr line)), rest)
        else (Inl Stdio_FrameTooLarge, snd (recv S failing (line @ LF # rest))))
     \<and> isl (fst (recv S failing line))"
  using recv_loop_line [OF assms, of "[]" False S failing rest]
    recv_loop_long [OF assms, of "[]" False S failing rest]
    recv_loop_no_line [OF assms, of S failing "[]" False]
  by (simp add: recv_def held_def prod_eq_iff)

theorem recv_frames_witness:
  "isl (fst (recv (one_message (Msg_Request (sample_request (Number 7) JNull)) ''x'') False ''{}''))"
  by (rule recv_frames [THEN conjunct2]) simp

text \<open>
  Property: what one side sends the other receives, frame by frame: after a send, with anything
  already in the pipe consumed and anything following, the receiver gets the message that was sent
  and the rest of the pipe is left.  The printer is assumed not to emit line breaks, as the
  documentation of the compact format says.
\<close>

theorem send_recv:
  assumes "send S True m out = Inr (out @ sent)" and "message_ok S m" and "reads_back S m"
    and "validate_json (message_json m) = Inr ()"
    and "json_wf (message_json m)" and "numbers_ok (message_json m)"
    and "\<forall>b. to_vec S (message_json m) = Some b \<longrightarrow> LF \<notin> set b \<and> CR \<notin> set b"
  shows "recv S failing (sent @ rest) = (Inr m, rest)"
proof -
  obtain bytes where bytes: "encode_message S m = Inr bytes" "sent = bytes @ [LF]"
    using assms(1) by (auto simp: send_def)
  then have v: "to_vec S (message_json m) = Some bytes" and len: "length bytes \<le> MAX_FRAME_BYTES"
    using assms(3) by (cases m; auto simp: encode_message_def reads_back_def split: if_splits)+
  then have "LF \<notin> set bytes" "CR \<notin> set bytes" using assms(7) by auto
  moreover from this have "strip_cr bytes = bytes"
    by (cases bytes rule: rev_cases) (auto simp: strip_cr_def)
  ultimately show ?thesis
    using recv_loop_line [of bytes "[]" False S failing rest] len bytes
      decodes_encoded [OF bytes(1) assms(2-6)]
    by (simp add: recv_def held_def)
qed


theorem send_recv_witness:
  "recv (one_message (Msg_Request (sample_request (Number 7) (JBool True))) ''{..}'') False
     ((''{..}'' @ [LF]) @ ''rest'')
   = (Inr (Msg_Request (sample_request (Number 7) (JBool True))), ''rest'')"
proof (rule send_recv)
  let ?m = "Msg_Request (sample_request (Number 7) (JBool True))"
  let ?S = "one_message ?m ''{..}''"
  show "send ?S True ?m [] = Inr ([] @ (''{..}'' @ [LF]))"
    by (simp add: send_def encode_message_def one_message_def MAX_FRAME_BYTES_def)
  show "message_ok ?S ?m"
    by (simp add: validate_json_def walk_node MAX_JSON_DEPTH_def del: message_ok.simps)
  show "reads_back ?S ?m" by (simp add: one_message_reads_back)
  show "validate_json (message_json ?m) = Inr ()"
    by (simp add: sample_request_def validate_json_def walk_node validation_limits opt_entry_def
        number_of_i64_def)
  show "json_wf (message_json ?m)"
    by (simp add: sample_request_def opt_entry_def is_btree_def number_of_i64_def)
  show "numbers_ok (message_json ?m)"
    by (simp add: sample_request_def opt_entry_def number_of_i64_def)
  show "\<forall>b. to_vec ?S (message_json ?m) = Some b \<longrightarrow> LF \<notin> set b \<and> CR \<notin> set b"
    by (simp add: one_message_def)
qed

end
