(* ===== verification/Runtime_Session.thy ===== *)
theory Runtime_Session
  imports Journal State_Machine Hash_Table
begin

section \<open>Sessions of the container runtime (\<open>runtime.rs\<close>)\<close>

text \<open>
  The in-memory bookkeeping of \<open>crates/gobrowse-sandboxd/src/runtime.rs\<close>: the life cycle of a
  session, its termination flags, and the registry that counts the active sessions and retains
  the finished ones.  An atomic operation and a critical section are one step each.  A
  \<open>HashMap\<close> is an association list with distinct keys; an \<open>Arc<Session>\<close> in the registry is
  the session itself.
\<close>

definition MAX_ACTIVE_SESSIONS_HARD :: nat where "MAX_ACTIVE_SESSIONS_HARD = 1024"
definition MAX_RETAINED_RECORDS_HARD :: nat where "MAX_RETAINED_RECORDS_HARD = 16384"

record SessionLimits =
  max_active :: nat
  max_active_per_workspace :: nat
  max_retained_records :: nat

record ValidatedStart =
  vs_terminal_id :: uuid
  vs_request :: TerminalStartRequest
  vs_workspace_storage :: WorkspaceStorageIdentity
  vs_network_name :: string

record WorkspacePause =
  pause_workspace_id :: uuid
  pause_terminal_ids :: "uuid list"
  pause_recovery_id :: "uuid option"

record InputOutcome =
  outcome_bytes :: nat
  outcome_replayed :: bool

text \<open>The sources of \<open>Journal\<close> and \<open>Io\<close> errors; an I/O error is opaque.\<close>

datatype RuntimeError =
    Rt_RunningAsRoot | Rt_InvalidConfiguration | Rt_WorkspaceQuotaUnavailable | Rt_SessionLimit
  | Rt_NotFound | Rt_NotRunning | Rt_ReadinessFailed | Rt_ControlTimeout | Rt_InputTimeout
  | Rt_PodmanFailed | Rt_WorkspaceVolumeInvalid | Rt_WorkspacePauseFailed
  | Rt_WorkspaceResumeFailed | Rt_WorkspaceRecoveryFailed | Rt_OutcomeUnknown | Rt_Conflict
  | Rt_Journal JournalError | Rt_Pty | Rt_Io

definition map_journal_error :: "JournalError \<Rightarrow> RuntimeError" where
  "map_journal_error e =
     (case e of
        Je_NotFound \<Rightarrow> Rt_NotFound
      | Je_Conflict \<Rightarrow> Rt_Conflict
      | Je_OutcomeUnknown \<Rightarrow> Rt_OutcomeUnknown
      | e \<Rightarrow> Rt_Journal e)"

subsection \<open>The life cycle\<close>

datatype LifecycleState =
    LS_Starting | LS_Running | LS_Terminating | LS_Unrecoverable | LS_Exited | LS_Terminated

fun terminal_state :: "LifecycleState \<Rightarrow> TerminalState" where
  "terminal_state LS_Starting = TS_Running"
| "terminal_state LS_Running = TS_Running"
| "terminal_state LS_Terminating = TS_Terminating"
| "terminal_state LS_Unrecoverable = TS_Unrecoverable"
| "terminal_state LS_Exited = TS_Exited"
| "terminal_state LS_Terminated = TS_Terminated"

definition lifecycle_is_terminal :: "LifecycleState \<Rightarrow> bool" where
  "lifecycle_is_terminal s \<longleftrightarrow> s = LS_Exited \<or> s = LS_Terminated"

record Session =
  session_terminal_id :: uuid
  session_workspace_id :: uuid
  lifecycle :: LifecycleState
  termination_requested :: bool
  termination_owner :: bool
  background_cleanup_started :: bool

definition new_session :: "uuid \<Rightarrow> uuid \<Rightarrow> Session" where
  "new_session terminal_id workspace_id =
     \<lparr>session_terminal_id = terminal_id, session_workspace_id = workspace_id,
      lifecycle = LS_Starting, termination_requested = False, termination_owner = False,
      background_cleanup_started = False\<rparr>"

definition transition_allowed :: "LifecycleState \<Rightarrow> LifecycleState \<Rightarrow> bool" where
  "transition_allowed current new =
     (case new of
        LS_Starting \<Rightarrow> False
      | LS_Running \<Rightarrow> current = LS_Starting
      | LS_Terminating \<Rightarrow> current \<in> {LS_Starting, LS_Running, LS_Unrecoverable}
      | LS_Unrecoverable \<Rightarrow> current \<in> {LS_Starting, LS_Running, LS_Terminating}
      | LS_Exited \<Rightarrow> True
      | LS_Terminated \<Rightarrow> True)"

definition session_transition :: "LifecycleState \<Rightarrow> Session \<Rightarrow> bool \<times> Session" where
  "session_transition new s =
     (if lifecycle_is_terminal (lifecycle s) then (False, s)
      else if transition_allowed (lifecycle s) new \<and> lifecycle s \<noteq> new
      then (True, s\<lparr>lifecycle := new\<rparr>)
      else (False, s))"

definition begin_termination :: "Session \<Rightarrow> bool \<times> Session" where
  "begin_termination s =
     (let state = lifecycle s
      in if lifecycle_is_terminal state then (False, s)
         else let s' = s\<lparr>termination_requested := True\<rparr>
              in if state \<in> {LS_Starting, LS_Running, LS_Unrecoverable}
                 then (True, snd (session_transition LS_Terminating s'))
                 else (True, s'))"

text \<open>\<open>compare_exchange\<close> on the owner flag, and the drop of the claim it gives.\<close>

definition claim_termination :: "Session \<Rightarrow> bool \<times> Session" where
  "claim_termination s =
     (if termination_owner s then (False, s) else (True, s\<lparr>termination_owner := True\<rparr>))"

definition drop_claim :: "Session \<Rightarrow> Session" where
  "drop_claim s = s\<lparr>termination_owner := False\<rparr>"

text \<open>The swap that lets one background cleanup run, and the drop of its claim.\<close>

definition start_background :: "Session \<Rightarrow> bool \<times> Session" where
  "start_background s = (\<not> background_cleanup_started s, s\<lparr>background_cleanup_started := True\<rparr>)"

definition drop_background :: "Session \<Rightarrow> Session" where
  "drop_background s = s\<lparr>background_cleanup_started := False\<rparr>"

datatype session_op =
    Ses_Transition LifecycleState | Ses_BeginTermination | Ses_Claim | Ses_DropClaim
  | Ses_StartBackground | Ses_DropBackground

fun session_step :: "Session \<Rightarrow> session_op \<Rightarrow> Session" where
  "session_step s (Ses_Transition n) = snd (session_transition n s)"
| "session_step s Ses_BeginTermination = snd (begin_termination s)"
| "session_step s Ses_Claim = snd (claim_termination s)"
| "session_step s Ses_DropClaim = drop_claim s"
| "session_step s Ses_StartBackground = snd (start_background s)"
| "session_step s Ses_DropBackground = drop_background s"

lemmas session_defs =
  session_transition_def transition_allowed_def begin_termination_def claim_termination_def
  drop_claim_def start_background_def drop_background_def lifecycle_is_terminal_def Let_def

subsection \<open>What the life cycle promises\<close>

text \<open>
  The states are ordered by how far the session has come; it never starts again, and once it
  has left \<open>Running\<close> it does not come back.
\<close>

fun progress :: "LifecycleState \<Rightarrow> nat" where
  "progress LS_Starting = 0"
| "progress LS_Running = 1"
| "progress LS_Terminating = 2"
| "progress LS_Unrecoverable = 2"
| "progress LS_Exited = 3"
| "progress LS_Terminated = 3"

lemma session_step_progress: "progress (lifecycle s) \<le> progress (lifecycle (session_step s op))"
  by (cases op; cases "lifecycle s")
     (auto simp: session_defs split: LifecycleState.splits)

lemma session_step_final:
  "lifecycle_is_terminal (lifecycle s) \<Longrightarrow> lifecycle (session_step s op) = lifecycle s"
  by (cases op) (auto simp: session_defs)

interpretation never_back: op_invariant session_step "\<lambda>s. n \<le> progress (lifecycle s)" for n
  by unfold_locales (use session_step_progress le_trans in blast)

interpretation final_kept: op_invariant session_step "\<lambda>s. lifecycle_is_terminal l \<and> lifecycle s = l"
  for l
  by unfold_locales (use session_step_final in force)

text \<open>
  After a termination was requested, a session that is not finished is terminating or could
  not be terminated; it is never running.
\<close>

definition termination_inv :: "Session \<Rightarrow> bool" where
  "termination_inv s \<longleftrightarrow> (termination_requested s \<longrightarrow> 2 \<le> progress (lifecycle s))"

lemma begin_termination_inv: "termination_inv s \<Longrightarrow> termination_inv (snd (begin_termination s))"
  by (cases "lifecycle s") (auto simp: session_defs termination_inv_def)

interpretation asked: op_invariant session_step termination_inv
proof
  fix s op assume inv: "termination_inv s"
  show "termination_inv (session_step s op)"
  proof (cases "op = Ses_BeginTermination")
    case True
    with inv show ?thesis by (simp add: begin_termination_inv)
  next
    case False
    then have "termination_requested (session_step s op) = termination_requested s"
      by (cases op) (auto simp: session_defs)
    with inv session_step_progress [of s op] show ?thesis by (auto simp: termination_inv_def)
  qed
qed

text \<open>
  Property: whatever is done to a session, its life cycle only moves forward: a finished
  session keeps its state, one that left the running state does not come back to it, and
  after a termination was requested the session is never starting or running again.
\<close>

theorem session_only_advances:
  "progress (lifecycle s) \<le> progress (lifecycle (run_ops session_step s ops))
   \<and> (lifecycle_is_terminal (lifecycle s)
        \<longrightarrow> lifecycle (run_ops session_step s ops) = lifecycle s)
   \<and> (termination_requested (run_ops session_step (new_session t w) ops)
        \<longrightarrow> terminal_state (lifecycle (run_ops session_step (new_session t w) ops)) \<noteq> TS_Running)"
proof (intro conjI impI)
  show "progress (lifecycle s) \<le> progress (lifecycle (run_ops session_step s ops))"
    by (rule never_back.run_keeps_inv) simp
  show "lifecycle (run_ops session_step s ops) = lifecycle s"
    if "lifecycle_is_terminal (lifecycle s)"
    using final_kept.run_keeps_inv [of "lifecycle s" s] that by blast
  let ?t = "run_ops session_step (new_session t w) ops"
  assume "termination_requested ?t"
  moreover have "termination_inv ?t"
    by (rule asked.run_keeps_inv) (simp add: termination_inv_def new_session_def)
  ultimately have "2 \<le> progress (lifecycle ?t)" by (simp add: termination_inv_def)
  then show "terminal_state (lifecycle ?t) \<noteq> TS_Running" by (cases "lifecycle ?t") auto
qed

theorem session_only_advances_witness:
  "lifecycle (run_ops session_step ((new_session 1 2)\<lparr>lifecycle := LS_Exited\<rparr>)
      [Ses_Transition LS_Running, Ses_BeginTermination]) = LS_Exited
   \<and> terminal_state (lifecycle (run_ops session_step (new_session 1 2)
        [Ses_BeginTermination, Ses_Transition LS_Running])) \<noteq> TS_Running"
proof -
  have "termination_requested (run_ops session_step (new_session 1 2)
      [Ses_BeginTermination, Ses_Transition LS_Running])"
    by (simp add: session_defs new_session_def)
  moreover have "lifecycle_is_terminal (lifecycle ((new_session 1 2)\<lparr>lifecycle := LS_Exited\<rparr>))"
    by (simp add: lifecycle_is_terminal_def)
  ultimately show ?thesis
    using session_only_advances [of "(new_session 1 2)\<lparr>lifecycle := LS_Exited\<rparr>"
        "[Ses_Transition LS_Running, Ses_BeginTermination]" 1 2]
      session_only_advances [of "(new_session 1 2)\<lparr>lifecycle := LS_Exited\<rparr>"
        "[Ses_BeginTermination, Ses_Transition LS_Running]" 1 2]
    by simp
qed

subsection \<open>The registry\<close>

record Registry =
  sessions :: "(uuid \<times> Session) list"
  active :: nat
  active_by_workspace :: "(uuid \<times> nat) list"
  completed :: "uuid list"

definition new_registry :: Registry where
  "new_registry = \<lparr>sessions = [], active = 0, active_by_workspace = [], completed = []\<rparr>"

definition workspace_count :: "Registry \<Rightarrow> uuid \<Rightarrow> nat" where
  "workspace_count r w = (case map_of (active_by_workspace r) w of None \<Rightarrow> 0 | Some n \<Rightarrow> n)"

definition registry_reserve ::
  "Session \<Rightarrow> SessionLimits \<Rightarrow> Registry \<Rightarrow> (RuntimeError + unit) \<times> Registry" where
  "registry_reserve session limits r =
     (let workspace_active = workspace_count r (session_workspace_id session)
      in if active r \<ge> max_active limits \<or> workspace_active \<ge> max_active_per_workspace limits
         then (Inl Rt_SessionLimit, r)
         else (Inr (), r\<lparr>active := active r + 1,
                 active_by_workspace := table_insert (session_workspace_id session)
                   (workspace_active + 1) (active_by_workspace r),
                 sessions := table_insert (session_terminal_id session) session (sessions r)\<rparr>))"

text \<open>The decrement that \<open>complete\<close> and \<open>cancel_reservation\<close> share.\<close>

definition release_active :: "Session \<Rightarrow> Registry \<Rightarrow> Registry" where
  "release_active session r =
     (let r = r\<lparr>active := active r - 1\<rparr>; w = session_workspace_id session
      in case map_of (active_by_workspace r) w of
           None \<Rightarrow> r
         | Some n \<Rightarrow>
             if n - 1 = 0 then r\<lparr>active_by_workspace := remove_key w (active_by_workspace r)\<rparr>
             else r\<lparr>active_by_workspace := set_entry w (n - 1) (active_by_workspace r)\<rparr>)"

text \<open>The loop that drops the oldest finished sessions; the queue gets shorter each time.\<close>

fun expire :: "nat \<Rightarrow> uuid list \<Rightarrow> (uuid \<times> Session) list \<Rightarrow> uuid list \<times> (uuid \<times> Session) list" where
  "expire limit [] ss = ([], ss)"
| "expire limit (expired # queue) ss =
     (if length (expired # queue) > limit then expire limit queue (remove_key expired ss)
      else (expired # queue, ss))"

definition registry_complete :: "uuid \<Rightarrow> SessionLimits \<Rightarrow> Registry \<Rightarrow> Registry" where
  "registry_complete terminal_id limits r =
     (case map_of (sessions r) terminal_id of
        None \<Rightarrow> r
      | Some session \<Rightarrow>
          let r = release_active session r;
              (queue, ss) = expire (max_retained_records limits)
                              (completed r @ [terminal_id]) (sessions r)
          in r\<lparr>completed := queue, sessions := ss\<rparr>)"

definition remove_completed :: "uuid \<Rightarrow> Registry \<Rightarrow> Registry" where
  "remove_completed terminal_id r =
     r\<lparr>sessions := remove_key terminal_id (sessions r),
       completed := filter (\<lambda>candidate. candidate \<noteq> terminal_id) (completed r)\<rparr>"

definition cancel_reservation :: "uuid \<Rightarrow> Registry \<Rightarrow> Registry" where
  "cancel_reservation terminal_id r =
     (case map_of (sessions r) terminal_id of
        None \<Rightarrow> r
      | Some session \<Rightarrow>
          release_active session (r\<lparr>sessions := remove_key terminal_id (sessions r)\<rparr>))"

text \<open>A lifecycle step of a session that the registry holds, made through its \<open>Arc\<close>.\<close>

definition update_session :: "uuid \<Rightarrow> session_op \<Rightarrow> Registry \<Rightarrow> Registry" where
  "update_session terminal_id op r =
     (case map_of (sessions r) terminal_id of
        None \<Rightarrow> r
      | Some s \<Rightarrow> r\<lparr>sessions := set_entry terminal_id (session_step s op) (sessions r)\<rparr>)"

subsection \<open>The counters of the registry are exact\<close>

text \<open>
  A terminal is reserved at most once, because the journal grants its start at most once; the
  reservation ends by being cancelled, before the session runs, or by being completed by the
  monitor of the session; only a completed session is removed.  The events of the registry
  are its operations, in any order that follows this protocol; the phases of the terminals
  say where each one is.
\<close>

datatype phase = Fresh | Live uuid | Finished | Dropped

datatype registry_op =
    Rg_Reserve Session | Rg_Cancel uuid | Rg_Complete uuid | Rg_RemoveCompleted uuid
  | Rg_Session uuid session_op

fun registry_event ::
  "SessionLimits \<Rightarrow> Registry \<times> (uuid \<Rightarrow> phase) \<Rightarrow> registry_op \<Rightarrow> (Registry \<times> (uuid \<Rightarrow> phase)) option"
  where
  "registry_event limits (r, ph) (Rg_Reserve s) =
     (if ph (session_terminal_id s) = Fresh
      then case registry_reserve s limits r of
             (Inl _, r') \<Rightarrow> Some (r', ph)
           | (Inr _, r') \<Rightarrow> Some (r', ph(session_terminal_id s := Live (session_workspace_id s)))
      else None)"
| "registry_event limits (r, ph) (Rg_Cancel t) =
     (case ph t of Live _ \<Rightarrow> Some (cancel_reservation t r, ph(t := Dropped)) | _ \<Rightarrow> None)"
| "registry_event limits (r, ph) (Rg_Complete t) =
     (case ph t of Live _ \<Rightarrow> Some (registry_complete t limits r, ph(t := Finished)) | _ \<Rightarrow> None)"
| "registry_event limits (r, ph) (Rg_RemoveCompleted t) =
     (if ph t = Finished then Some (remove_completed t r, ph) else None)"
| "registry_event limits (r, ph) (Rg_Session t op) = Some (update_session t op r, ph)"

definition live :: "Registry \<Rightarrow> (uuid \<times> Session) list" where
  "live r = filter (\<lambda>(t, s). t \<notin> set (completed r)) (sessions r)"

definition in_workspace :: "uuid \<Rightarrow> (uuid \<times> Session) list \<Rightarrow> (uuid \<times> Session) list" where
  "in_workspace w ss = filter (\<lambda>(t, s). session_workspace_id s = w) ss"

definition counted :: "nat \<Rightarrow> nat option" where
  "counted n = (if n = 0 then None else Some n)"

definition registry_inv :: "SessionLimits \<Rightarrow> Registry \<times> (uuid \<Rightarrow> phase) \<Rightarrow> bool" where
  "registry_inv limits x =
     (case x of (r, ph) \<Rightarrow>
       distinct (map fst (sessions r)) \<and> distinct (completed r)
       \<and> (\<forall>t s. map_of (sessions r) t = Some s \<longrightarrow> session_terminal_id s = t)
       \<and> (\<forall>t \<in> set (completed r). ph t = Finished \<and> map_of (sessions r) t \<noteq> None)
       \<and> (\<forall>t w. ph t = Live w \<longleftrightarrow>
             (\<exists>s. map_of (live r) t = Some s \<and> session_workspace_id s = w))
       \<and> active r = length (live r)
       \<and> (\<forall>w. map_of (active_by_workspace r) w = counted (length (in_workspace w (live r))))
       \<and> active r \<le> max_active limits
       \<and> (\<forall>w. length (in_workspace w (live r)) \<le> max_active_per_workspace limits)
       \<and> length (completed r) \<le> max_retained_records limits)"

lemma map_of_live:
  "map_of (live r) t = (if t \<in> set (completed r) then None else map_of (sessions r) t)"
  unfolding live_def by (simp add: map_of_filter_key [where P = "\<lambda>t. t \<notin> set (completed r)"])

lemma distinct_live: "distinct (map fst (sessions r)) \<Longrightarrow> distinct (map fst (live r))"
  by (simp add: live_def distinct_filter_keys)

lemma live_workspace:
  "distinct (map fst ss) \<Longrightarrow> map_of ss t = Some s \<Longrightarrow>
     length (in_workspace w ss) =
       length (in_workspace w (remove_key t ss)) + (if session_workspace_id s = w then 1 else 0)"
  unfolding in_workspace_def using length_filter_remove_key by fastforce

lemma map_of_release:
  "map_of (active_by_workspace r) (session_workspace_id s) = Some n \<Longrightarrow>
     map_of (active_by_workspace (release_active s r)) =
       (map_of (active_by_workspace r))(session_workspace_id s := counted (n - 1))"
  by (auto simp: release_active_def Let_def counted_def map_of_set_entry map_of_remove_key_fun fun_eq_iff)

lemma release_fields [simp]:
  "active (release_active s r) = active r - 1"
  "sessions (release_active s r) = sessions r"
  "completed (release_active s r) = completed r"
  by (auto simp: release_active_def Let_def split: option.splits)

lemma expire_eq:
  "expire limit q ss =
     (drop (length q - limit) q,
      filter (\<lambda>(t, s). t \<notin> set (take (length q - limit) q)) ss)"
proof (induction q arbitrary: ss)
  case (Cons e q)
  show ?case
  proof (cases "length q < limit")
    case False
    then have "Suc (length q) - limit = Suc (length q - limit)" by simp
    moreover have "filter (\<lambda>(t, s). t \<notin> set (take (length q - limit) q)) (remove_key e ss)
      = filter (\<lambda>(t, s). t \<notin> set (take (Suc (length q - limit)) (e # q))) ss"
      by (auto simp: remove_key_def intro!: filter_cong)
    ultimately show ?thesis using Cons False by simp
  qed (simp add: case_prod_beta)
qed simp

text \<open>Giving up a reservation, whatever becomes of the session.\<close>

lemma release_inv:
  assumes inv: "registry_inv limits (r, ph)" and t: "ph t = Live w"
    and s: "map_of (live r) t = Some s"
    and r': "live r' = remove_key t (live r)" "active r' = active r - 1"
      "map_of (active_by_workspace r') =
         (map_of (active_by_workspace r))
           (session_workspace_id s := counted (length (in_workspace (session_workspace_id s) (live r)) - 1))"
    and ss: "distinct (map fst (sessions r'))"
      "\<And>t s. map_of (sessions r') t = Some s \<Longrightarrow> session_terminal_id s = t"
    and q: "\<And>u. u \<in> set (completed r') \<Longrightarrow> ph' u = Finished \<and> map_of (sessions r') u \<noteq> None"
      "length (completed r') \<le> max_retained_records limits" "distinct (completed r')"
    and ph': "ph' = ph(t := p)" "\<And>w. p \<noteq> Live w"
  shows "registry_inv limits (r', ph')"
proof -
  have d: "distinct (map fst (live r))"
    using inv by (simp add: registry_inv_def distinct_live)
  note count = live_workspace [OF d s]
  have len: "length (live r) = Suc (length (live r'))"
    using length_remove_key [OF d s] r'(1) by simp
  have ws: "length (in_workspace v (live r)) =
      length (in_workspace v (live r')) + (if session_workspace_id s = v then 1 else 0)" for v
    using count r'(1) by simp
  have abw: "map_of (active_by_workspace r') v = counted (length (in_workspace v (live r')))" for v
    using inv ws [of v] unfolding r'(3) by (auto simp: registry_inv_def)
  have phase: "ph' u = Live v \<longleftrightarrow> (\<exists>s. map_of (live r') u = Some s \<and> session_workspace_id s = v)"
    for u v
    using inv unfolding ph'(1) r'(1) registry_inv_def by (simp add: map_of_remove_key ph'(2))
  show ?thesis
    unfolding registry_inv_def prod.case
  proof (intro conjI allI ballI impI)
    show "active r' = length (live r')" using inv len r'(2) by (simp add: registry_inv_def)
    show "active r' \<le> max_active limits"
    proof -
      have "active r \<le> max_active limits" using inv by (simp add: registry_inv_def)
      with r'(2) show ?thesis by simp
    qed
    show "length (in_workspace v (live r')) \<le> max_active_per_workspace limits" for v
    proof -
      have "length (in_workspace v (live r)) \<le> max_active_per_workspace limits"
        using inv by (simp add: registry_inv_def)
      with ws [of v] show ?thesis by simp
    qed
  qed (use ss q abw phase in blast)+
qed

lemma live_terminal:
  assumes "registry_inv limits (r, ph)" and "ph t = Live w"
  obtains s where "map_of (live r) t = Some s" "map_of (sessions r) t = Some s"
    "t \<notin> set (completed r)" "session_workspace_id s = w"
  using assms by (auto simp: registry_inv_def map_of_live split: if_splits)

lemma active_entry:
  assumes inv: "registry_inv limits (r, ph)" and s: "map_of (live r) t = Some s"
  shows "map_of (active_by_workspace r) (session_workspace_id s) =
     Some (length (in_workspace (session_workspace_id s) (live r)))"
proof -
  have "0 < length (in_workspace (session_workspace_id s) (live r))"
    using map_of_SomeD [OF s] unfolding in_workspace_def
    by (auto simp: length_greater_0_conv filter_empty_conv simp del: length_greater_0_conv intro!: length_pos_if_in_set)
  with inv show ?thesis by (auto simp: registry_inv_def counted_def)
qed

lemma registry_reserve_inv:
  assumes inv: "registry_inv limits (r, ph)" and fresh: "ph (session_terminal_id s) = Fresh"
    and r': "registry_reserve s limits r = (Inr u, r')"
  shows "registry_inv limits (r', ph(session_terminal_id s := Live (session_workspace_id s)))"
proof -
  let ?t = "session_terminal_id s" and ?w = "session_workspace_id s"
  have none: "map_of (sessions r) ?t = None" and nc: "?t \<notin> set (completed r)"
  proof -
    show nc: "?t \<notin> set (completed r)" using inv fresh by (auto simp: registry_inv_def)
    have "map_of (live r) ?t \<noteq> Some x" for x
      using inv fresh unfolding registry_inv_def prod.case by (metis phase.distinct(1))
    then show "map_of (sessions r) ?t = None"
      using nc by (cases "map_of (sessions r) ?t") (auto simp: map_of_live)
  qed
  have room: "active r < max_active limits" "workspace_count r ?w < max_active_per_workspace limits"
    and eq: "r' = r\<lparr>active := active r + 1,
      active_by_workspace := table_insert ?w (workspace_count r ?w + 1) (active_by_workspace r),
      sessions := table_insert ?t s (sessions r)\<rparr>"
    using r' by (auto simp: registry_reserve_def Let_def split: if_splits)
  have live: "live r' = live r @ [(?t, s)]"
    using none nc by (simp add: eq live_def table_insert_def)
  have count: "workspace_count r v = length (in_workspace v (live r))" for v
    using inv by (simp add: registry_inv_def workspace_count_def counted_def)
  have ws: "in_workspace v (live r') = in_workspace v (live r) @ (if v = ?w then [(?t, s)] else [])"
    for v by (simp add: in_workspace_def live)
  have lookup: "map_of (live r') = (map_of (live r))(?t \<mapsto> s)"
    unfolding live by (rule map_of_append_new) (simp add: map_of_live none)
  show ?thesis
    unfolding registry_inv_def prod.case
  proof (intro conjI allI ballI impI)
    show "distinct (map fst (sessions r'))"
      using inv by (simp add: eq registry_inv_def distinct_table_insert)
    show "distinct (completed r')" using inv by (simp add: eq registry_inv_def)
    show "session_terminal_id x = v" if "map_of (sessions r') v = Some x" for v x
      using inv that by (auto simp: eq registry_inv_def split: if_splits)
    show "(ph(?t := Live ?w)) v = Finished" "map_of (sessions r') v \<noteq> None"
      if "v \<in> set (completed r')" for v
      using inv that nc by (auto simp: eq registry_inv_def)
    show "(ph(?t := Live ?w)) v = Live w
      \<longleftrightarrow> (\<exists>x. map_of (live r') v = Some x \<and> session_workspace_id x = w)" for v w
      using inv by (simp add: lookup registry_inv_def)
    have "active r' = Suc (active r)" by (simp add: eq)
    then show "active r' = length (live r')" using inv by (simp add: live registry_inv_def)
    show "map_of (active_by_workspace r') v = counted (length (in_workspace v (live r')))" for v
    proof -
      have "map_of (active_by_workspace r') v =
          (if v = ?w then Some (length (in_workspace v (live r)) + 1)
           else counted (length (in_workspace v (live r))))"
        using inv by (simp add: eq count registry_inv_def)
      then show ?thesis unfolding ws by (simp add: counted_def)
    qed
    show "active r' \<le> max_active limits" using room(1) by (simp add: eq)
    show "length (in_workspace v (live r')) \<le> max_active_per_workspace limits" for v
      using inv room(2) by (auto simp: ws count registry_inv_def)
    show "length (completed r') \<le> max_retained_records limits"
      using inv by (simp add: eq registry_inv_def)
  qed
qed

lemma registry_cancel_inv:
  assumes inv: "registry_inv limits (r, ph)" and t: "ph t = Live w"
  shows "registry_inv limits (cancel_reservation t r, ph(t := Dropped))"
proof -
  obtain s where s: "map_of (live r) t = Some s" "map_of (sessions r) t = Some s"
    "t \<notin> set (completed r)" using live_terminal [OF inv t] .
  let ?r = "cancel_reservation t r"
  have eq: "?r = release_active s (r\<lparr>sessions := remove_key t (sessions r)\<rparr>)"
    by (simp add: cancel_reservation_def s(2))
  show ?thesis
  proof (rule release_inv [OF inv t s(1), where p = Dropped])
    show "live ?r = remove_key t (live r)"
      by (simp add: eq live_def filter_remove_key)
    show "map_of (active_by_workspace ?r) = (map_of (active_by_workspace r))
      (session_workspace_id s := counted (length (in_workspace (session_workspace_id s) (live r)) - 1))"
      unfolding eq using map_of_release active_entry [OF inv s(1)] by fastforce
    show "distinct (map fst (sessions ?r))"
      using inv by (simp add: eq registry_inv_def distinct_remove_key del: keys_remove_key)
    show "session_terminal_id x = u" if "map_of (sessions ?r) u = Some x" for u x
      using inv that by (auto simp: eq registry_inv_def map_of_remove_key split: if_splits)
    show "(ph(t := Dropped)) u = Finished \<and> map_of (sessions ?r) u \<noteq> None"
      if "u \<in> set (completed ?r)" for u
      using inv that s(3) by (auto simp: eq registry_inv_def map_of_remove_key)
  qed (use inv in \<open>simp_all add: eq registry_inv_def\<close>)
qed

lemma registry_complete_inv:
  assumes inv: "registry_inv limits (r, ph)" and t: "ph t = Live w"
  shows "registry_inv limits (registry_complete t limits r, ph(t := Finished))"
proof -
  obtain s where s: "map_of (live r) t = Some s" "map_of (sessions r) t = Some s"
    "t \<notin> set (completed r)" using live_terminal [OF inv t] .
  let ?r = "registry_complete t limits r" and ?q = "completed r @ [t]"
  let ?n = "length ?q - max_retained_records limits"
  obtain gone kept where gk: "take ?n ?q = gone" "drop ?n ?q = kept" by blast
  then have split: "set ?q = set gone \<union> set kept" by (metis append_take_drop_id set_append)
  have "distinct ?q" using inv s(3) by (simp add: registry_inv_def)
  then have disj: "set gone \<inter> set kept = {}" and dd: "distinct kept"
    using gk by (metis set_take_disj_set_drop_if_distinct order_refl, metis distinct_drop)
  have "length kept = length ?q - ?n" using gk(2) by (metis length_drop)
  then have short: "length kept \<le> max_retained_records limits" by simp
  have eq: "?r = (release_active s r)\<lparr>completed := kept,
      sessions := filter (\<lambda>(u, _). u \<notin> set gone) (sessions r)\<rparr>"
    by (simp add: registry_complete_def s(2) Let_def expire_eq gk del: length_append take_append drop_append)
  have look: "map_of (sessions ?r) u = (if u \<notin> set gone then map_of (sessions r) u else None)" for u
    by (simp add: eq map_of_filter_key [where P = "\<lambda>u. u \<notin> set gone"])
  show ?thesis
  proof (rule release_inv [OF inv t s(1), where p = Finished])
    have "live ?r = filter (\<lambda>(u, _). u \<notin> set ?q) (sessions r)"
      unfolding split by (auto simp: eq live_def intro!: filter_cong)
    then show "live ?r = remove_key t (live r)"
      by (auto simp: live_def remove_key_def intro!: filter_cong)
    show "map_of (active_by_workspace ?r) = (map_of (active_by_workspace r))
      (session_workspace_id s := counted (length (in_workspace (session_workspace_id s) (live r)) - 1))"
      unfolding eq using map_of_release active_entry [OF inv s(1)] by fastforce
    show "distinct (map fst (sessions ?r))"
      using inv by (simp add: eq registry_inv_def distinct_filter_keys)
    show "session_terminal_id x = u" if "map_of (sessions ?r) u = Some x" for u x
      using inv that unfolding look by (auto simp: registry_inv_def split: if_splits)
    show "(ph(t := Finished)) u = Finished \<and> map_of (sessions ?r) u \<noteq> None"
      if "u \<in> set (completed ?r)" for u
    proof -
      have u: "u \<in> set kept" using that by (simp add: eq)
      then have "u \<in> set ?q" "u \<notin> set gone" using split disj by blast+
      then show ?thesis using inv s(2) unfolding look by (auto simp: registry_inv_def)
    qed
  qed (simp_all add: eq short dd)
qed

lemma remove_completed_inv:
  assumes inv: "registry_inv limits (r, ph)" and t: "ph t = Finished"
  shows "registry_inv limits (remove_completed t r, ph)"
proof -
  let ?r = "remove_completed t r"
  have "map_of (live r) t = None"
  proof (rule ccontr)
    assume "map_of (live r) t \<noteq> None"
    then obtain s where "map_of (live r) t = Some s" by blast
    with inv have "ph t = Live (session_workspace_id s)" by (auto simp: registry_inv_def)
    with t show False by simp
  qed
  then have "remove_key t (live r) = live r" by (rule remove_key_absent)
  moreover have "live ?r = remove_key t (live r)"
    by (auto simp: live_def remove_completed_def remove_key_def intro!: filter_cong)
  ultimately have "live ?r = live r" by simp
  moreover have "length (completed ?r) \<le> length (completed r)"
    by (simp add: remove_completed_def)
  moreover have "length (completed r) \<le> max_retained_records limits"
    using inv by (simp add: registry_inv_def)
  ultimately have "length (completed ?r) \<le> max_retained_records limits" by linarith
  with \<open>live ?r = live r\<close> show ?thesis
    using inv unfolding registry_inv_def prod.case
    by (auto simp: remove_completed_def map_of_remove_key distinct_remove_key
        simp del: keys_remove_key split: if_splits)
qed

lemma session_step_ids [simp]:
  "session_terminal_id (session_step s op) = session_terminal_id s"
  "session_workspace_id (session_step s op) = session_workspace_id s"
  by (cases op; auto simp: session_defs)+

lemma in_workspace_set_entry:
  assumes "map_of ss t = Some s" and "distinct (map fst ss)"
    and "session_workspace_id s' = session_workspace_id s"
  shows "length (in_workspace w (set_entry t s' ss)) = length (in_workspace w ss)"
proof -
  have only: "x = s" if "(t, x) \<in> set ss" for x
    using map_of_is_SomeI [OF assms(2) that] assms(1) by simp
  have "filter ((\<lambda>(t, s). session_workspace_id s = w) \<circ> (\<lambda>(i, x). if i = t then (i, s') else (i, x))) ss
      = filter (\<lambda>(t, s). session_workspace_id s = w) ss"
    using only assms(3) by (intro filter_cong) (auto split: if_splits)
  then show ?thesis unfolding in_workspace_def set_entry_def filter_map length_map by (rule arg_cong)
qed

lemma update_session_inv:
  assumes inv: "registry_inv limits (r, ph)"
  shows "registry_inv limits (update_session t op r, ph)"
proof (cases "map_of (sessions r) t")
  case (Some s)
  let ?r = "update_session t op r"
  have eq: "?r = r\<lparr>sessions := set_entry t (session_step s op) (sessions r)\<rparr>"
    by (simp add: update_session_def Some)
  have live: "live ?r = set_entry t (session_step s op) (live r)"
    unfolding eq live_def set_entry_def by (auto simp: filter_map split: if_splits intro!: map_cong filter_cong)
  have d: "distinct (map fst (live r))" using inv by (simp add: registry_inv_def distinct_live)
  have ws: "length (in_workspace w (live ?r)) = length (in_workspace w (live r))" for w
  proof (cases "map_of (live r) t")
    case None
    then have "live ?r = live r"
      unfolding live set_entry_def by (intro map_idI) (force simp: map_of_eq_None_iff)
    then show ?thesis by simp
  next
    case (Some s')
    with \<open>map_of (sessions r) t = Some s\<close> have "s' = s" by (simp add: map_of_live split: if_splits)
    with Some d show ?thesis unfolding live by (simp add: in_workspace_set_entry)
  qed
  have len: "length (live ?r) = length (live r)" unfolding live by (simp add: set_entry_def)
  have look: "map_of (sessions ?r) u
      = (if u = t then Some (session_step s op) else map_of (sessions r) u)" for u
    by (simp add: eq map_of_set_entry Some)
  have fields: "completed ?r = completed r" "active ?r = active r"
    "active_by_workspace ?r = active_by_workspace r" "map fst (sessions ?r) = map fst (sessions r)"
    by (simp_all add: eq)
  have ids: "session_terminal_id s = t" using inv Some by (simp add: registry_inv_def)
  have "(\<exists>x. map_of (live ?r) u = Some x \<and> session_workspace_id x = w)
      \<longleftrightarrow> (\<exists>x. map_of (live r) u = Some x \<and> session_workspace_id x = w)" for u w
    by (simp add: map_of_live fields look Some)
  then show ?thesis
    using inv ids unfolding registry_inv_def prod.case len ws fields look by auto
qed (use inv in \<open>simp add: update_session_def\<close>)

interpretation registry: event_invariant "registry_event limits" "registry_inv limits" for limits
proof
  fix x e y
  assume inv: "registry_inv limits x" and e: "registry_event limits x e = Some y"
  obtain r ph where x: "x = (r, ph)" by (cases x)
  show "registry_inv limits y"
  proof (cases e)
    case (Rg_Reserve s)
    show ?thesis
    proof (cases "registry_reserve s limits r")
      case (Pair res r')
      with e inv show ?thesis
        by (cases res) (auto simp: x Rg_Reserve registry_reserve_def Let_def split: if_splits
            intro!: registry_reserve_inv [unfolded registry_reserve_def Let_def])
    qed
  qed (use inv e in \<open>auto simp: x split: phase.splits if_splits
      intro: registry_cancel_inv registry_complete_inv remove_completed_inv update_session_inv\<close>)
qed

text \<open>
  Property: the counters of the session registry are exact and its limits hold: in every
  history that follows the protocol, the number of active sessions is the number of
  reservations not yet given up, in all and for each workspace, and no limit is exceeded; the
  registry holds exactly the active sessions and the retained finished ones.
\<close>

theorem registry_counts_exact:
  assumes "run_events (registry_event limits) (new_registry, \<lambda>_. Fresh) es = Some (r, ph)"
  shows "active r = card {t. \<exists>w. ph t = Live w} \<and> active r \<le> max_active limits
     \<and> (\<forall>w. workspace_count r w = card {t. ph t = Live w}
              \<and> workspace_count r w \<le> max_active_per_workspace limits)
     \<and> length (completed r) \<le> max_retained_records limits
     \<and> {t. map_of (sessions r) t \<noteq> None} = {t. \<exists>w. ph t = Live w} \<union> set (completed r)"
proof -
  have inv: "registry_inv limits (r, ph)"
    by (rule registry.run_events_inv [OF assms])
       (simp add: registry_inv_def new_registry_def live_def in_workspace_def counted_def)
  then have d: "distinct (map fst (live r))" by (simp add: registry_inv_def distinct_live)
  have phase: "ph t = Live w \<longleftrightarrow> (\<exists>s. map_of (live r) t = Some s \<and> session_workspace_id s = w)"
    for t w using inv by (simp add: registry_inv_def)
  have sets: "{t. ph t = Live w} = set (map fst (in_workspace w (live r)))" for w
    using d by (force simp: phase in_workspace_def)
  have all: "{t. \<exists>w. ph t = Live w} = set (map fst (live r))"
    using d by (force simp: phase)
  have "card {t. \<exists>w. ph t = Live w} = active r"
    using inv unfolding all distinct_card [OF d] by (simp add: registry_inv_def)
  moreover have "card {t. ph t = Live w} = workspace_count r w" for w
  proof -
    have "distinct (map fst (in_workspace w (live r)))"
      using d unfolding in_workspace_def by (rule distinct_filter_keys)
    then have "card {t. ph t = Live w} = length (in_workspace w (live r))"
      unfolding sets by (metis distinct_card length_map)
    with inv show ?thesis by (simp add: registry_inv_def workspace_count_def counted_def)
  qed
  moreover have "workspace_count r w \<le> max_active_per_workspace limits" for w
    using inv by (simp add: registry_inv_def workspace_count_def counted_def)
  moreover have "{t. map_of (sessions r) t \<noteq> None} = {t. \<exists>w. ph t = Live w} \<union> set (completed r)"
    using inv phase by (auto simp: registry_inv_def map_of_live split: if_splits)
  ultimately show ?thesis using inv by (simp add: registry_inv_def)
qed

theorem registry_counts_exact_witness:
  "\<exists>r ph. run_events (registry_event \<lparr>max_active = 2, max_active_per_workspace = 1,
          max_retained_records = 1\<rparr>) (new_registry, \<lambda>_. Fresh)
        [Rg_Reserve (new_session 1 7), Rg_Reserve (new_session 2 7), Rg_Reserve (new_session 3 8),
         Rg_Complete 1] = Some (r, ph)
     \<and> active r = 1 \<and> active r = card {t. \<exists>w. ph t = Live w}"
  (is "\<exists>r ph. ?run = Some (r, ph) \<and> _ r ph")
proof -
  obtain r ph where run: "?run = Some (r, ph)" and one: "active r = 1"
    by (simp add: registry_reserve_def registry_complete_def new_registry_def new_session_def
        workspace_count_def table_insert_def release_active_def set_entry_def remove_key_def Let_def)
  from registry_counts_exact [OF run] have "active r = card {t. \<exists>w. ph t = Live w}" by blast
  with run one show ?thesis by blast
qed

end
