(* ===== verification/Effects.thy ===== *)
theory Effects
  imports Rust_Std
begin

section \<open>Fallible operations on a state\<close>

text \<open>
  An operation that reads and writes a state and may fail: the code's \<open>Result\<close>-returning
  functions with side effects, an \<open>await\<close> being an ordinary call.  \<open>io_bind\<close> is the question
  mark operator; a failure keeps the state it happened in.
\<close>

type_synonym ('s, 'e, 'a) io = "'s \<Rightarrow> ('e + 'a) \<times> 's"

definition io_ok :: "'a \<Rightarrow> ('s, 'e, 'a) io" where
  "io_ok x s = (Inr x, s)"

definition io_fail :: "'e \<Rightarrow> ('s, 'e, 'a) io" where
  "io_fail e s = (Inl e, s)"

definition io_lift :: "'e + 'a \<Rightarrow> ('s, 'e, 'a) io" where
  "io_lift r s = (r, s)"

definition io_bind :: "('s, 'e, 'a) io \<Rightarrow> ('a \<Rightarrow> ('s, 'e, 'b) io) \<Rightarrow> ('s, 'e, 'b) io" where
  "io_bind m f s = (case m s of (Inl e, s') \<Rightarrow> (Inl e, s') | (Inr x, s') \<Rightarrow> f x s')"

definition io_then :: "('s, 'e, 'a) io \<Rightarrow> ('s, 'e, 'b) io \<Rightarrow> ('s, 'e, 'b) io" where
  "io_then m n = io_bind m (\<lambda>_. n)"

definition io_map_err :: "('e \<Rightarrow> 'd) \<Rightarrow> ('s, 'e, 'a) io \<Rightarrow> ('s, 'd, 'a) io" where
  "io_map_err f m s = (case m s of (r, s') \<Rightarrow> (map_err f r, s'))"

text \<open>\<open>let _ = m\<close>: the result is dropped; and \<open>m.ok()\<close>-like uses that look at it.\<close>

definition io_try :: "('s, 'e, 'a) io \<Rightarrow> ('s, 'd, 'e + 'a) io" where
  "io_try m s = (case m s of (r, s') \<Rightarrow> (Inr r, s'))"

definition io_ignore :: "('s, 'e, 'a) io \<Rightarrow> ('s, 'd, unit) io" where
  "io_ignore m s = (Inr (), snd (m s))"

definition io_guard :: "bool \<Rightarrow> 'e \<Rightarrow> ('s, 'e, unit) io" where
  "io_guard b e = (if b then io_ok () else io_fail e)"

fun io_for_each :: "('a \<Rightarrow> ('s, 'e, unit) io) \<Rightarrow> 'a list \<Rightarrow> ('s, 'e, unit) io" where
  "io_for_each f [] = io_ok ()"
| "io_for_each f (x # xs) = io_then (f x) (io_for_each f xs)"

lemmas io_defs =
  io_ok_def io_fail_def io_lift_def io_bind_def io_then_def io_map_err_def io_try_def
  io_ignore_def io_guard_def

lemma io_bind_Inr:
  "io_bind m f s = (Inr y, t) \<longleftrightarrow> (\<exists>x u. m s = (Inr x, u) \<and> f x u = (Inr y, t))"
  by (auto simp: io_bind_def split: prod.splits sum.splits)

lemma io_bind_cong [fundef_cong]:
  "m s = n s' \<Longrightarrow> s = s' \<Longrightarrow> (\<And>x t. n s' = (Inr x, t) \<Longrightarrow> f x t = g x t)
     \<Longrightarrow> io_bind m f s = io_bind n g s'"
  by (auto simp: io_bind_def split: prod.splits sum.splits)

subsection \<open>What an operation keeps\<close>

text \<open>
  \<open>keeps P m\<close>: the operation keeps the predicate on the state, whatever it returns.  The rules
  follow the structure of the code.
\<close>

definition keeps :: "('s \<Rightarrow> bool) \<Rightarrow> ('s, 'e, 'a) io \<Rightarrow> bool" where
  "keeps P m \<longleftrightarrow> (\<forall>s. P s \<longrightarrow> P (snd (m s)))"

lemma keepsI: "(\<And>s. P s \<Longrightarrow> P (snd (m s))) \<Longrightarrow> keeps P m"
  by (simp add: keeps_def)

lemma keepsD: "keeps P m \<Longrightarrow> P s \<Longrightarrow> P (snd (m s))"
  by (simp add: keeps_def)

named_theorems keeps_rules \<open>rules that show that an operation keeps a predicate\<close>

lemma keeps_ok [keeps_rules, simp]: "keeps P (io_ok x)"
  by (simp add: keeps_def io_ok_def)

lemma keeps_fail [keeps_rules, simp]: "keeps P (io_fail e)"
  by (simp add: keeps_def io_fail_def)

lemma keeps_lift [keeps_rules, simp]: "keeps P (io_lift r)"
  by (simp add: keeps_def io_lift_def)

lemma keeps_guard [keeps_rules, simp]: "keeps P (io_guard b e)"
  by (simp add: keeps_def io_guard_def io_ok_def io_fail_def)

lemma keeps_bind [keeps_rules]:
  "keeps P m \<Longrightarrow> (\<And>x. keeps P (f x)) \<Longrightarrow> keeps P (io_bind m f)"
proof (rule keepsI)
  fix s assume m: "keeps P m" and f: "\<And>x. keeps P (f x)" and "P s"
  obtain r t where r: "m s = (r, t)" by (cases "m s")
  then have "P t" using keepsD [OF m \<open>P s\<close>] by simp
  with r keepsD [OF f] show "P (snd (io_bind m f s))" by (cases r) (simp_all add: io_bind_def)
qed

lemma keeps_then [keeps_rules]: "keeps P m \<Longrightarrow> keeps P n \<Longrightarrow> keeps P (io_then m n)"
  unfolding io_then_def by (intro keeps_bind)

lemma keeps_map_err [keeps_rules]: "keeps P m \<Longrightarrow> keeps P (io_map_err f m)"
  by (auto simp: keeps_def io_map_err_def split: prod.splits)

lemma keeps_try [keeps_rules]: "keeps P m \<Longrightarrow> keeps P (io_try m)"
  by (auto simp: keeps_def io_try_def split: prod.splits)

lemma keeps_ignore [keeps_rules]: "keeps P m \<Longrightarrow> keeps P (io_ignore m)"
  by (auto simp: keeps_def io_ignore_def)

lemma keeps_for_each [keeps_rules]:
  "(\<And>x. x \<in> set xs \<Longrightarrow> keeps P (f x)) \<Longrightarrow> keeps P (io_for_each f xs)"
  by (induction xs) (auto intro: keeps_then)

end
