(* ===== verification/Filesystem.thy ===== *)
theory Filesystem
  imports Sandbox Effects
begin

section \<open>The workspace file system (\<open>filesystem.rs\<close>)\<close>

text \<open>
  Path handling and error mapping of \<open>crates/gobrowse-sandboxd/src/filesystem.rs\<close>.  A
  \<open>PathBuf\<close> of \<open>Normal\<close> components is the list of its components; the path \<open>"."\<close>, which is
  all \<open>checked_path\<close> gives beside these, is the empty list.
\<close>

datatype FilesystemError =
    Fs_InvalidPath | Fs_WorkspaceNotFound | Fs_NotFound | Fs_UnsafeEntry
  | Fs_ContainmentFailure | Fs_LimitExceeded | Fs_Conflict | Fs_Io

text \<open>The error numbers the code tells apart.\<close>

datatype Errno = NOENT | EXIST | NOTEMPTY | ELOOP | XDEV | NOTDIR | ISDIR | Other_Errno nat

definition errno_io :: "Errno \<Rightarrow> FilesystemError" where
  "errno_io e = Fs_Io"

definition map_errno :: "Errno \<Rightarrow> FilesystemError" where
  "map_errno e =
     (case e of
        NOENT \<Rightarrow> Fs_NotFound
      | EXIST \<Rightarrow> Fs_Conflict
      | NOTEMPTY \<Rightarrow> Fs_Conflict
      | ELOOP \<Rightarrow> Fs_UnsafeEntry
      | XDEV \<Rightarrow> Fs_UnsafeEntry
      | NOTDIR \<Rightarrow> Fs_UnsafeEntry
      | ISDIR \<Rightarrow> Fs_UnsafeEntry
      | _ \<Rightarrow> errno_io e)"

fun normal_component :: "path_component \<Rightarrow> string option" where
  "normal_component (Normal c) = Some c"
| "normal_component _ = None"

definition checked_path :: "string \<Rightarrow> FilesystemError + string list" where
  "checked_path val =
     and_then (map_err (\<lambda>_. Fs_InvalidPath) (validate_workspace_path val)) (\<lambda>path.
       Inr (List.map_filter normal_component (path_components path)))"

end
