(* ===== verification/Daemon.thy ===== *)
theory Daemon
  imports Replay_Cache Journal_Ledger Runtime_Session Filesystem Json
begin

section \<open>The sandbox daemon (\<open>daemon.rs\<close>)\<close>

text \<open>
  The request handling of \<open>crates/gobrowse-sandboxd/src/daemon.rs\<close>: authentication, the replay
  and journal protocol around each operation, the dispatcher, and the connection loop.  It
  composes the replay cache, the terminal journal and the validation of the protocol's types.

  The container runtime is a trait object in the code, the record \<open>runtime\<close>; it and the operations
  of the file system, the record \<open>filesystem\<close>, are arguments of the dispatcher.  They work on
  the journal, which the runtime writes, and on the outside world.  Further arguments, in the record \<open>externals\<close>, are
  \<open>serde_json\<close> at the protocol's types, SHA-256 and base64.  A \<open>Duration\<close> is its number of
  nanoseconds.  What a task sees of the others while it waits is the subject of the theory
  \<open>Daemon_Tasks\<close>; here a request runs alone.
\<close>

definition MAX_TOKEN_BYTES :: nat where "MAX_TOKEN_BYTES = 4 * 1024"
definition MAX_REPLAY_ENTRIES_HARD :: nat where "MAX_REPLAY_ENTRIES_HARD = 16384"
definition MAX_CONNECTIONS_HARD :: nat where "MAX_CONNECTIONS_HARD = 1024"
definition seconds :: "nat \<Rightarrow> nat" where "seconds n = n * 10 ^ 9"
definition MAX_PRE_AUTH_TIMEOUT :: nat where "MAX_PRE_AUTH_TIMEOUT = seconds 60"
definition MAX_IDLE_TIMEOUT :: nat where "MAX_IDLE_TIMEOUT = seconds (60 * 60)"
definition MAX_OPERATION_TIMEOUT :: nat where "MAX_OPERATION_TIMEOUT = seconds (5 * 60)"

datatype DaemonError =
    De_InvalidConfiguration | De_Unauthorized | De_UnsupportedVersion | De_InvalidRequest
  | De_PolicyDenied | De_LimitExceeded | De_NotFound | De_Conflict | De_OutcomeUnknown
  | De_Journal | De_ConnectionTimeout | De_OperationTimeout
  | De_Filesystem FilesystemError | De_Runtime RuntimeError | De_Io

subsection \<open>Configuration\<close>

record ConnectionConfig =
  max_connections :: nat
  pre_auth_timeout :: nat
  idle_timeout :: nat
  operation_timeout :: nat

definition validate_connections :: "ConnectionConfig \<Rightarrow> DaemonError + unit" where
  "validate_connections c =
     (if max_connections c = 0 \<or> max_connections c > MAX_CONNECTIONS_HARD
         \<or> pre_auth_timeout c = 0 \<or> pre_auth_timeout c > MAX_PRE_AUTH_TIMEOUT
         \<or> idle_timeout c = 0 \<or> idle_timeout c > MAX_IDLE_TIMEOUT
         \<or> operation_timeout c = 0 \<or> operation_timeout c > MAX_OPERATION_TIMEOUT
      then Inl De_InvalidConfiguration else Inr ())"

record NetworkPolicyConfig =
  restricted_network :: "string option"
  allow_full :: bool

definition resolve_network :: "NetworkPolicyConfig \<Rightarrow> NetworkPolicy \<Rightarrow> DaemonError + string" where
  "resolve_network c requested =
     (case requested of
        Net_None \<Rightarrow> Inr ''none''
      | Net_Restricted \<Rightarrow>
          (case restricted_network c of
             Some name \<Rightarrow> if valid_restricted_network_name name then Inr name else Inl De_PolicyDenied
           | None \<Rightarrow> Inl De_PolicyDenied)
      | Net_Full \<Rightarrow> if allow_full c then Inr ''slirp4netns'' else Inl De_PolicyDenied)"

record DaemonConfig =
  resource_ceiling :: ResourceLimits
  network_policies :: NetworkPolicyConfig
  replay_capacity :: nat
  connections :: ConnectionConfig

text \<open>An authenticator is the digest of the token it expects; \<open>sha\<close> is SHA-256.\<close>

definition new_authenticator :: "(string \<Rightarrow> string) \<Rightarrow> string \<Rightarrow> DaemonError + string" where
  "new_authenticator sha token =
     (if token = [] \<or> length token > MAX_TOKEN_BYTES \<or> CHR 0x00 \<in> set token
      then Inl De_InvalidConfiguration else Inr (sha token))"

definition verify_token :: "(string \<Rightarrow> string) \<Rightarrow> string \<Rightarrow> string \<Rightarrow> bool" where
  "verify_token sha expected_digest candidate =
     (if length candidate > MAX_TOKEN_BYTES then False else expected_digest = sha candidate)"

text \<open>The checks of \<open>Daemon::new\<close>; \<open>socket\<close> is the result of the socket configuration's own check.\<close>

definition new_daemon :: "DaemonConfig \<Rightarrow> DaemonError + unit \<Rightarrow> DaemonError + ReplayCache" where
  "new_daemon config socket =
     and_then (map_err (\<lambda>_. De_InvalidConfiguration) (validate_hard_ceiling (resource_ceiling config)))
       (\<lambda>_.
     and_then socket (\<lambda>_.
     and_then (validate_connections (connections config)) (\<lambda>_.
       if replay_capacity config = 0 \<or> replay_capacity config > MAX_REPLAY_ENTRIES_HARD
          \<or> (case restricted_network (network_policies config) of
               Some name \<Rightarrow> \<not> valid_restricted_network_name name | None \<Rightarrow> False)
       then Inl De_InvalidConfiguration
       else ok_or (new_cache (replay_capacity config)) De_InvalidConfiguration)))"

subsection \<open>Operations\<close>

definition is_non_idempotent :: "SandboxOperation \<Rightarrow> bool" where
  "is_non_idempotent operation =
     (case operation of
        Op_Start _ _ \<Rightarrow> True | Op_Input _ _ _ \<Rightarrow> True | Op_Resize _ _ _ \<Rightarrow> True
      | Op_Terminate _ \<Rightarrow> True | Op_FsWrite _ _ _ \<Rightarrow> True | Op_FsPatch _ _ _ _ \<Rightarrow> True
      | Op_FsMkdir _ _ \<Rightarrow> True | Op_FsMove _ _ _ \<Rightarrow> True | Op_FsCopy _ _ _ \<Rightarrow> True
      | Op_FsDelete _ _ \<Rightarrow> True | _ \<Rightarrow> False)"

definition terminal_mutation :: "SandboxOperation \<Rightarrow> (uuid \<times> string) option" where
  "terminal_mutation operation =
     (case operation of
        Op_Start t _ \<Rightarrow> Some (t, ''start'')
      | Op_Input t _ _ \<Rightarrow> Some (t, ''input'')
      | Op_AckOutput t _ \<Rightarrow> Some (t, ''ack_output'')
      | Op_Resize t _ _ \<Rightarrow> Some (t, ''resize'')
      | Op_Interrupt t \<Rightarrow> Some (t, ''interrupt'')
      | Op_Kill t _ \<Rightarrow> Some (t, ''kill'')
      | Op_Terminate t \<Rightarrow> Some (t, ''terminate'')
      | _ \<Rightarrow> None)"

definition terminal_id :: "SandboxOperation \<Rightarrow> uuid option" where
  "terminal_id operation =
     (case operation of
        Op_Start t _ \<Rightarrow> Some t | Op_Input t _ _ \<Rightarrow> Some t | Op_ReadOutput t _ _ _ \<Rightarrow> Some t
      | Op_AckOutput t _ \<Rightarrow> Some t | Op_Resize t _ _ \<Rightarrow> Some t | Op_Interrupt t \<Rightarrow> Some t
      | Op_Processes t \<Rightarrow> Some t | Op_Kill t _ \<Rightarrow> Some t | Op_Terminate t \<Rightarrow> Some t
      | Op_Inspect t \<Rightarrow> Some t | Op_Reconnect t \<Rightarrow> Some t | _ \<Rightarrow> None)"

definition allowed_fields :: "string \<Rightarrow> string list option" where
  "allowed_fields name =
     (if name = ''health'' then Some [''op'']
      else if name = ''provision_workspace'' then Some [''op'', ''workspace_id'']
      else if name = ''start'' then Some [''op'', ''terminal_id'', ''request'']
      else if name = ''input'' then Some [''op'', ''terminal_id'', ''input_id'', ''data_base64'']
      else if name = ''read_output''
      then Some [''op'', ''terminal_id'', ''after_cursor'', ''max_bytes'', ''wait_ms'']
      else if name = ''ack_output'' then Some [''op'', ''terminal_id'', ''cursor'']
      else if name = ''resize'' then Some [''op'', ''terminal_id'', ''cols'', ''rows'']
      else if name \<in> set [''interrupt'', ''processes'', ''terminate'', ''inspect'', ''reconnect'']
      then Some [''op'', ''terminal_id'']
      else if name = ''kill'' then Some [''op'', ''terminal_id'', ''pid'']
      else if name \<in> set [''fs_list'', ''fs_read'', ''fs_metadata'', ''fs_mkdir'', ''fs_delete'']
      then Some [''op'', ''workspace_id'', ''path'']
      else if name = ''fs_search'' then Some [''op'', ''workspace_id'', ''path'', ''query'']
      else if name = ''fs_write'' then Some [''op'', ''workspace_id'', ''path'', ''data_base64'']
      else if name = ''fs_patch''
      then Some [''op'', ''workspace_id'', ''path'', ''expected_sha256'', ''data_base64'']
      else if name \<in> set [''fs_move'', ''fs_copy'']
      then Some [''op'', ''workspace_id'', ''from'', ''to'']
      else None)"

definition valid_wire_shape :: "json \<Rightarrow> bool" where
  "valid_wire_shape val =
     (case as_object val of
        None \<Rightarrow> False
      | Some envelope \<Rightarrow>
          if \<not> list_all (\<lambda>(key, _). key \<in> set [''version'', ''request_id'', ''token'', ''operation''])
                 envelope
          then False
          else
            (case Option.bind (map_of envelope ''operation'') as_object of
               None \<Rightarrow> False
             | Some operation \<Rightarrow>
                 (case Option.bind (map_of operation ''op'') as_str of
                    None \<Rightarrow> False
                  | Some name \<Rightarrow>
                      (case allowed_fields name of
                         None \<Rightarrow> False
                       | Some allowed \<Rightarrow> list_all (\<lambda>(key, _). key \<in> set allowed) operation))))"

subsection \<open>Answers\<close>

definition error_of :: "DaemonError \<Rightarrow> SandboxErrorCode \<times> string" where
  "error_of e =
     (case e of
        De_Unauthorized \<Rightarrow> (Err_Unauthorized, ''authentication failed'')
      | De_UnsupportedVersion \<Rightarrow> (Err_UnsupportedVersion, ''unsupported protocol version'')
      | De_PolicyDenied \<Rightarrow> (Err_PolicyDenied, ''policy denied'')
      | De_LimitExceeded \<Rightarrow> (Err_LimitExceeded, ''operation exceeds a bound'')
      | De_Filesystem Fs_LimitExceeded \<Rightarrow> (Err_LimitExceeded, ''operation exceeds a bound'')
      | De_Runtime Rt_SessionLimit \<Rightarrow> (Err_LimitExceeded, ''operation exceeds a bound'')
      | De_Runtime Rt_WorkspaceQuotaUnavailable \<Rightarrow>
          (Err_PolicyDenied, ''workspace quota unavailable'')
      | De_OperationTimeout \<Rightarrow> (Err_DeadlineExceeded, ''operation deadline exceeded'')
      | De_Runtime Rt_InputTimeout \<Rightarrow> (Err_DeadlineExceeded, ''operation deadline exceeded'')
      | De_NotFound \<Rightarrow> (Err_NotFound, ''object not found'')
      | De_Filesystem Fs_NotFound \<Rightarrow> (Err_NotFound, ''object not found'')
      | De_Filesystem Fs_WorkspaceNotFound \<Rightarrow> (Err_NotFound, ''object not found'')
      | De_Runtime Rt_NotFound \<Rightarrow> (Err_NotFound, ''object not found'')
      | De_Conflict \<Rightarrow> (Err_Conflict, ''object conflict'')
      | De_Filesystem Fs_Conflict \<Rightarrow> (Err_Conflict, ''object conflict'')
      | De_OutcomeUnknown \<Rightarrow> (Err_OutcomeUnknown, ''operation outcome is unknown'')
      | De_Runtime Rt_OutcomeUnknown \<Rightarrow> (Err_OutcomeUnknown, ''operation outcome is unknown'')
      | De_Runtime Rt_Conflict \<Rightarrow> (Err_Conflict, ''object conflict'')
      | De_InvalidRequest \<Rightarrow> (Err_InvalidRequest, ''invalid request'')
      | De_Filesystem Fs_InvalidPath \<Rightarrow> (Err_InvalidRequest, ''invalid request'')
      | _ \<Rightarrow> (Err_Internal, ''operation failed''))"

definition error_response :: "uuid \<Rightarrow> DaemonError \<Rightarrow> ResponseEnvelope" where
  "error_response request_id error =
     (case error_of error of (code, message) \<Rightarrow>
        \<lparr>resp_version = SANDBOX_PROTOCOL_VERSION, resp_request_id = request_id,
         resp_result = Inl \<lparr>error_code = code, error_message = message\<rparr>\<rparr>)"

definition decode_bounded :: "(string \<Rightarrow> string option) \<Rightarrow> string \<Rightarrow> nat \<Rightarrow> DaemonError + string" where
  "decode_bounded b64_decode val maximum =
     (let maximum_encoded = (maximum + 2) div 3 * 4
      in if length val > maximum_encoded then Inl De_LimitExceeded
         else and_then (ok_or (b64_decode val) De_InvalidRequest) (\<lambda>bytes.
                if length bytes > maximum then Inl De_LimitExceeded else Inr bytes))"

subsection \<open>The dispatcher\<close>

text \<open>
  What the services work on, the file system (\<open>fs\<close>) and the runtime (\<open>rt\<close>).  An operation
  that is dropped at its deadline may have done part of its work: \<open>expired\<close> gives the state
  it leaves when the timer wins.
\<close>

type_synonym 'w env = "journal \<times> 'w"
type_synonym ('w, 'a) fs = "('w env, FilesystemError, 'a) io"
type_synonym ('w, 'a) rt = "('w env, RuntimeError, 'a) io"

record 'w filesystem =
  fs_ensure_workspace :: "uuid \<Rightarrow> ('w, unit) fs"
  fs_workspace_storage :: "uuid \<Rightarrow> ('w, WorkspaceStorageIdentity) fs"
  fs_require_directory :: "uuid \<Rightarrow> string \<Rightarrow> ('w, unit) fs"
  fs_list :: "uuid \<Rightarrow> string \<Rightarrow> ('w, FilesystemEntry list) fs"
  fs_read :: "uuid \<Rightarrow> string \<Rightarrow> ('w, string \<times> string) fs"
  fs_metadata :: "uuid \<Rightarrow> string \<Rightarrow> ('w, FilesystemMetadata) fs"
  fs_search :: "uuid \<Rightarrow> string \<Rightarrow> string \<Rightarrow> ('w, FilesystemSearchMatch list) fs"
  fs_write :: "uuid \<Rightarrow> string \<Rightarrow> string \<Rightarrow> ('w, string) fs"
  fs_patch :: "uuid \<Rightarrow> string \<Rightarrow> string \<Rightarrow> string \<Rightarrow> ('w, string) fs"
  fs_mkdir :: "uuid \<Rightarrow> string \<Rightarrow> ('w, unit) fs"
  fs_move :: "uuid \<Rightarrow> string \<Rightarrow> string \<Rightarrow> ('w, unit) fs"
  fs_copy :: "uuid \<Rightarrow> string \<Rightarrow> string \<Rightarrow> ('w, unit) fs"
  fs_delete :: "uuid \<Rightarrow> string \<Rightarrow> ('w, unit) fs"

record 'w runtime =
  rt_provision_workspace :: "uuid \<Rightarrow> ('w, unit) rt"
  rt_start :: "ValidatedStart \<Rightarrow> ('w, unit) rt"
  rt_input :: "uuid \<Rightarrow> uuid \<Rightarrow> string \<Rightarrow> ('w, InputOutcome) rt"
  rt_read_output :: "uuid \<Rightarrow> nat \<Rightarrow> nat \<Rightarrow> nat \<Rightarrow> ('w, OutputRead) rt"
  rt_ack_output :: "uuid \<Rightarrow> nat \<Rightarrow> ('w, nat) rt"
  rt_resize :: "uuid \<Rightarrow> u16 \<Rightarrow> u16 \<Rightarrow> ('w, unit) rt"
  rt_interrupt :: "uuid \<Rightarrow> ('w, unit) rt"
  rt_processes :: "uuid \<Rightarrow> ('w, SandboxProcess list) rt"
  rt_kill :: "uuid \<Rightarrow> u32 \<Rightarrow> ('w, unit) rt"
  rt_terminate :: "uuid \<Rightarrow> ('w, unit) rt"
  rt_inspect :: "uuid \<Rightarrow> ('w, TerminalSnapshot) rt"
  rt_pause_workspace :: "uuid \<Rightarrow> ('w, WorkspacePause) rt"
  rt_resume_workspace :: "WorkspacePause \<Rightarrow> ('w, unit) rt"
  rt_chown_workspace_path :: "uuid \<Rightarrow> string \<Rightarrow> bool \<Rightarrow> ('w, unit) rt"
  expired :: "SandboxOperation \<Rightarrow> uuid list \<times> 'w env \<Rightarrow> (uuid list \<times> 'w env) option"

record externals =
  parse_request :: "string \<Rightarrow> RequestEnvelope option"
  parse_value :: "string \<Rightarrow> json option"
  op_to_vec :: "SandboxOperation \<Rightarrow> string option"
  response_codec :: journal_codec
  sha256 :: "string \<Rightarrow> string"
  base64_encode :: "string \<Rightarrow> string"
  base64_decode :: "string \<Rightarrow> string option"

text \<open>
  The state of the dispatcher: the workspaces that have a lock, and what the services work on.
  The locks serialise requests that run at the same time; a request alone finds them free.
\<close>

type_synonym 'w dispatch_state = "uuid list \<times> 'w env"

definition fs_call :: "('w, 'a) fs \<Rightarrow> ('w dispatch_state, DaemonError, 'a) io" where
  "fs_call m s = (case s of (locks, e) \<Rightarrow> case m e of (r, e') \<Rightarrow> (map_err De_Filesystem r, (locks, e')))"

definition rt_call :: "('w, 'a) rt \<Rightarrow> ('w dispatch_state, DaemonError, 'a) io" where
  "rt_call m s = (case s of (locks, e) \<Rightarrow> case m e of (r, e') \<Rightarrow> (map_err De_Runtime r, (locks, e')))"

definition workspace_lock :: "uuid \<Rightarrow> ('w dispatch_state, DaemonError, unit) io" where
  "workspace_lock workspace_id s =
     (case s of (locks, e) \<Rightarrow>
        (Inr (), (if workspace_id \<in> set locks then locks else locks @ [workspace_id], e)))"

text \<open>\<open>rsplit_once\<close>: the last separator splits; and the parent of a path.\<close>

definition parent_of :: "string \<Rightarrow> string" where
  "parent_of path =
     (if CHR ''/'' \<notin> set path then ''.''
      else let parent = rev (tl (dropWhile (\<lambda>c. c \<noteq> CHR ''/'') (rev path)))
           in if parent \<noteq> [] then parent else ''.'')"

definition chown_hook ::
  "'w runtime \<Rightarrow> uuid \<Rightarrow> (string \<times> bool) option \<Rightarrow> ('w dispatch_state, DaemonError, unit) io" where
  "chown_hook R workspace_id hook =
     (case hook of
        None \<Rightarrow> io_ok ()
      | Some (path, recursive) \<Rightarrow>
          io_ignore (rt_call (rt_chown_workspace_path R workspace_id path recursive)))"

text \<open>
  A resume that fails leaves the guard armed, and its drop spawns one more attempt, which
  runs on its own.
\<close>

definition resume_guarded ::
  "'w runtime \<Rightarrow> WorkspacePause \<Rightarrow> ('w dispatch_state, DaemonError, unit) io" where
  "resume_guarded R pause =
     io_bind (io_try (rt_call (rt_resume_workspace R pause))) (\<lambda>resumed.
       case resumed of
         Inr _ \<Rightarrow> io_ok ()
       | Inl e \<Rightarrow> io_bind (io_ignore (rt_call (rt_resume_workspace R pause))) (\<lambda>_. io_fail e))"

definition is_containment_failure :: "DaemonError + 'a \<Rightarrow> bool" where
  "is_containment_failure result =
     (case result of Inl e \<Rightarrow> e = De_Filesystem Fs_ContainmentFailure | Inr _ \<Rightarrow> False)"

text \<open>
  The guard that resumes the containers is created after the first ownership fix, which is awaited
  while they are paused already.  A run that is not dropped in between does not show this; one that
  the deadline drops there leaves them paused, as a state that \<open>expired\<close> may give.
\<close>

definition mutate_workspace ::
  "'w filesystem \<Rightarrow> 'w runtime \<Rightarrow> uuid \<Rightarrow> (string \<times> bool) option \<Rightarrow> (string \<times> bool) option
     \<Rightarrow> ('w, 'a) fs \<Rightarrow> ('w dispatch_state, DaemonError, 'a) io" where
  "mutate_workspace F R workspace_id pre_chown post_chown operation =
     io_bind (fs_call (fs_require_directory F workspace_id ''.'')) (\<lambda>_.
     io_bind (workspace_lock workspace_id) (\<lambda>_.
     io_bind (rt_call (rt_pause_workspace R workspace_id)) (\<lambda>pause.
     io_bind (chown_hook R workspace_id pre_chown) (\<lambda>_.
     io_bind (io_try (fs_call operation)) (\<lambda>result.
       if is_containment_failure result then
         io_bind (io_for_each (\<lambda>t. io_ignore (rt_call (rt_terminate R t))) (pause_terminal_ids pause))
           (\<lambda>_. io_lift result)
       else
         io_bind (chown_hook R workspace_id post_chown) (\<lambda>_.
         io_bind (resume_guarded R pause) (\<lambda>_.
           io_lift result)))))))"

text \<open>The operations on terminals.\<close>

definition dispatch_start ::
  "DaemonConfig \<Rightarrow> 'w filesystem \<Rightarrow> 'w runtime \<Rightarrow> uuid \<Rightarrow> TerminalStartRequest
     \<Rightarrow> ('w dispatch_state, DaemonError, SandboxResult) io" where
  "dispatch_start config F R t request0 =
     io_bind (io_lift (map_err (\<lambda>_. De_InvalidRequest) (validate_start request0))) (\<lambda>_.
       let request = request0\<lparr>req_limits :=
             narrow_to (narrow_to (req_limits request0) (resource_ceiling config)) HARD_RESOURCE_LIMITS\<rparr>;
           w = req_workspace_id request
       in io_bind (io_lift (resolve_network (network_policies config) (req_network_policy request)))
            (\<lambda>network_name.
          io_bind (fs_call (fs_workspace_storage F w)) (\<lambda>_.
          io_bind (workspace_lock w) (\<lambda>_.
          io_bind (fs_call (fs_require_directory F w (req_working_directory request))) (\<lambda>_.
          io_bind (fs_call (fs_workspace_storage F w)) (\<lambda>workspace_storage.
          io_bind (rt_call (rt_start R
              \<lparr>vs_terminal_id = t, vs_request = request, vs_workspace_storage = workspace_storage,
               vs_network_name = network_name\<rparr>)) (\<lambda>_.
            io_ok (Res_Started t (req_limits request) (req_network_policy request)))))))))"

definition dispatch_read_output ::
  "externals \<Rightarrow> 'w runtime \<Rightarrow> uuid \<Rightarrow> u64 \<Rightarrow> u32 \<Rightarrow> u32
     \<Rightarrow> ('w dispatch_state, DaemonError, SandboxResult) io" where
  "dispatch_read_output X R t after_cursor max_bytes wait_ms =
     (if unat max_bytes = 0 \<or> unat max_bytes > MAX_TERMINAL_OUTPUT_READ_BYTES
         \<or> wait_ms > MAX_TERMINAL_OUTPUT_WAIT_MS
      then io_fail De_LimitExceeded
      else io_bind (rt_call (rt_read_output R t (unat after_cursor) (unat max_bytes) (unat wait_ms)))
        (\<lambda>output.
          io_ok (Res_Output t (word_of_nat (read_start_cursor output))
            (word_of_nat (read_next_cursor output)) (base64_encode X (read_bytes output))
            (rec_state (read_record output)) (rec_output_complete (read_record output)))))"

text \<open>An \<open>InputOutcome\<close>, \<open>RuntimeInspect\<close> or digest becomes the result that carries it.\<close>

definition io_result :: "('a \<Rightarrow> 'b) \<Rightarrow> ('s, 'e, 'a) io \<Rightarrow> ('s, 'e, 'b) io" where
  "io_result f m = io_bind m (\<lambda>x. io_ok (f x))"

definition dispatch ::
  "DaemonConfig \<Rightarrow> externals \<Rightarrow> 'w filesystem \<Rightarrow> 'w runtime \<Rightarrow> SandboxOperation
     \<Rightarrow> ('w dispatch_state, DaemonError, SandboxResult) io" where
  "dispatch config X F R operation =
     (if terminal_id operation = Some 0 then io_fail De_InvalidRequest
      else case operation of
        Op_Health \<Rightarrow> io_ok (Res_Health ''ok'')
      | Op_ProvisionWorkspace w \<Rightarrow>
          if w = 0 then io_fail De_InvalidRequest
          else io_bind (fs_call (fs_ensure_workspace F w)) (\<lambda>_.
               io_bind (rt_call (rt_provision_workspace R w)) (\<lambda>_. io_ok (Res_Provisioned w)))
      | Op_Start t request \<Rightarrow> dispatch_start config F R t request
      | Op_Input t input_id data \<Rightarrow>
          if input_id = 0 then io_fail De_InvalidRequest
          else io_bind (io_lift (decode_bounded (base64_decode X) data MAX_TERMINAL_INPUT_BYTES)) (\<lambda>bytes.
               io_result (\<lambda>out. Res_InputAccepted input_id (outcome_bytes out) (outcome_replayed out))
                 (rt_call (rt_input R t input_id bytes)))
      | Op_ReadOutput t after_cursor max_bytes wait_ms \<Rightarrow>
          dispatch_read_output X R t after_cursor max_bytes wait_ms
      | Op_AckOutput t cursor \<Rightarrow>
          io_result (\<lambda>c. Res_OutputAcked (word_of_nat c)) (rt_call (rt_ack_output R t (unat cursor)))
      | Op_Resize t cols rows \<Rightarrow>
          if \<not> (20 \<le> cols \<and> cols \<le> 1000) \<or> \<not> (5 \<le> rows \<and> rows \<le> 500)
          then io_fail De_InvalidRequest
          else io_result (\<lambda>_. Res_Resized) (rt_call (rt_resize R t cols rows))
      | Op_Interrupt t \<Rightarrow> io_result (\<lambda>_. Res_Interrupted) (rt_call (rt_interrupt R t))
      | Op_Processes t \<Rightarrow> io_result Res_Processes (rt_call (rt_processes R t))
      | Op_Kill t pid \<Rightarrow>
          if pid = 0 then io_fail De_InvalidRequest
          else io_result (\<lambda>_. Res_Killed pid) (rt_call (rt_kill R t pid))
      | Op_Terminate t \<Rightarrow> io_result (\<lambda>_. Res_Terminated) (rt_call (rt_terminate R t))
      | Op_Inspect t \<Rightarrow> io_result Res_Inspected (rt_call (rt_inspect R t))
      | Op_Reconnect t \<Rightarrow> io_result Res_Reconnected (rt_call (rt_inspect R t))
      | Op_FsList w path \<Rightarrow> io_result Res_FsList (fs_call (fs_list F w path))
      | Op_FsRead w path \<Rightarrow>
          io_result (\<lambda>(bytes, digest). Res_FsRead (base64_encode X bytes) digest)
            (fs_call (fs_read F w path))
      | Op_FsMetadata w path \<Rightarrow> io_result Res_FsMetadata (fs_call (fs_metadata F w path))
      | Op_FsSearch w path query \<Rightarrow> io_result Res_FsSearch (fs_call (fs_search F w path query))
      | Op_FsWrite w path data \<Rightarrow>
          io_bind (io_lift (decode_bounded (base64_decode X) data MAX_FILE_PAYLOAD_BYTES)) (\<lambda>bytes.
            io_result (Res_FsWritten (length bytes))
              (mutate_workspace F R w (Some (parent_of path, False)) None (fs_write F w path bytes)))
      | Op_FsPatch w path expected data \<Rightarrow>
          io_bind (io_lift (decode_bounded (base64_decode X) data MAX_FILE_PAYLOAD_BYTES)) (\<lambda>bytes.
            io_result (Res_FsPatched (length bytes))
              (mutate_workspace F R w (Some (parent_of path, False)) None
                 (fs_patch F w path expected bytes)))
      | Op_FsMkdir w path \<Rightarrow>
          io_result (\<lambda>_. Res_FsCreated)
            (mutate_workspace F R w (Some (parent_of path, False)) (Some (path, False))
               (fs_mkdir F w path))
      | Op_FsMove w from to \<Rightarrow>
          io_result (\<lambda>_. Res_FsMoved)
            (mutate_workspace F R w (Some (parent_of to, False)) (Some (to, False))
               (fs_move F w from to))
      | Op_FsCopy w from to \<Rightarrow>
          io_result (\<lambda>_. Res_FsCopied)
            (mutate_workspace F R w (Some (parent_of to, False)) (Some (to, True))
               (fs_copy F w from to))
      | Op_FsDelete w path \<Rightarrow>
          io_result (\<lambda>_. Res_FsDeleted)
            (mutate_workspace F R w (Some (parent_of path, False)) None (fs_delete F w path)))"

text \<open>The deadline: the timer wins, or the operation finishes first.\<close>

definition response_for ::
  "DaemonConfig \<Rightarrow> externals \<Rightarrow> 'w filesystem \<Rightarrow> 'w runtime \<Rightarrow> uuid \<Rightarrow> SandboxOperation
     \<Rightarrow> 'w dispatch_state \<Rightarrow> ResponseEnvelope \<times> 'w dispatch_state" where
  "response_for config X F R request_id operation s =
     (case expired R operation s of
        Some s' \<Rightarrow> (error_response request_id De_OperationTimeout, s')
      | None \<Rightarrow>
          (case dispatch config X F R operation s of
             (Inr result, s') \<Rightarrow>
               (\<lparr>resp_version = SANDBOX_PROTOCOL_VERSION, resp_request_id = request_id,
                 resp_result = Inr result\<rparr>, s')
           | (Inl error, s') \<Rightarrow> (error_response request_id error, s')))"

subsection \<open>Handling a line\<close>

text \<open>The checks before an operation is looked at; \<open>expected\<close> is the digest of the token.\<close>

definition admit :: "externals \<Rightarrow> string \<Rightarrow> string \<Rightarrow> ResponseEnvelope + RequestEnvelope" where
  "admit X expected line =
     (if line = [] \<or> length line \<ge> MAX_PROTOCOL_LINE_BYTES
         \<or> list_ex (\<lambda>byte. byte = CHR 0x0D \<or> byte = CHR 0x0A) line
      then Inl (error_response 0 De_InvalidRequest)
      else case parse_request X line of
        None \<Rightarrow> Inl (error_response 0 De_InvalidRequest)
      | Some request \<Rightarrow>
          if \<not> (case parse_value X line of Some val \<Rightarrow> valid_wire_shape val | None \<Rightarrow> False)
          then Inl (error_response 0 De_InvalidRequest)
          else
            let request_id = env_request_id request
            in if request_id = 0 then Inl (error_response request_id De_InvalidRequest)
               else if \<not> verify_token (sha256 X) expected (env_token request)
               then Inl (error_response request_id De_Unauthorized)
               else if env_version request \<noteq> SANDBOX_PROTOCOL_VERSION
               then Inl (error_response request_id De_UnsupportedVersion)
               else Inr request)"

definition op_fingerprint :: "externals \<Rightarrow> SandboxOperation \<Rightarrow> string option" where
  "op_fingerprint X operation = map_option (sha256 X) (op_to_vec X operation)"

definition on_journal ::
  "(journal \<Rightarrow> 'a \<times> journal) \<Rightarrow> 'w dispatch_state \<Rightarrow> 'a \<times> 'w dispatch_state" where
  "on_journal f s = (case s of (locks, j, w) \<Rightarrow> case f j of (x, j') \<Rightarrow> (x, (locks, j', w)))"

text \<open>What the journal's decision on a terminal mutation leads to.\<close>

definition journal_refusal :: "uuid \<Rightarrow> JournalError \<Rightarrow> ResponseEnvelope" where
  "journal_refusal request_id e =
     (case e of
        Je_Conflict \<Rightarrow> error_response request_id De_Conflict
      | Je_OutcomeUnknown \<Rightarrow> error_response request_id De_OutcomeUnknown
      | _ \<Rightarrow> error_response request_id De_Journal)"

definition complete_recorded ::
  "externals \<Rightarrow> uuid \<Rightarrow> ResponseEnvelope \<Rightarrow> 'w dispatch_state
     \<Rightarrow> ResponseEnvelope \<times> 'w dispatch_state" where
  "complete_recorded X request_id response s =
     (case on_journal (\<lambda>j. complete_mutation (encode (response_codec X)) j request_id response) s of
        (Inl _, s') \<Rightarrow> (error_response request_id De_OutcomeUnknown, s')
      | (Inr _, s') \<Rightarrow> (response, s'))"

definition execute_mutation ::
  "DaemonConfig \<Rightarrow> externals \<Rightarrow> 'w filesystem \<Rightarrow> 'w runtime \<Rightarrow> RequestEnvelope \<Rightarrow> uuid \<Rightarrow> string
     \<Rightarrow> string \<Rightarrow> 'w dispatch_state \<Rightarrow> ResponseEnvelope \<times> 'w dispatch_state" where
  "execute_mutation config X F R request t kind fp s =
     (let request_id = env_request_id request
      in case on_journal (\<lambda>j. begin_mutation (decode (response_codec X)) j request_id t kind fp) s of
           (Inr (Mutation_Cached response), s') \<Rightarrow> (response, s')
         | (Inr Mutation_Execute, s') \<Rightarrow>
             (case response_for config X F R request_id (env_operation request) s' of
                (response, s'') \<Rightarrow> complete_recorded X request_id response s'')
         | (Inl e, s') \<Rightarrow> (journal_refusal request_id e, s'))"

text \<open>
  The replay loop around an execution.  A request alone that meets a pending entry waits for
  ever, and the result is \<open>None\<close>.
\<close>

type_synonym 'w daemon_state = "ReplayCache \<times> 'w dispatch_state"

definition replayed ::
  "uuid \<Rightarrow> string \<Rightarrow> ('w dispatch_state \<Rightarrow> ResponseEnvelope \<times> 'w dispatch_state) \<Rightarrow> 'w daemon_state
     \<Rightarrow> (ResponseEnvelope \<times> 'w daemon_state) option" where
  "replayed request_id fp execute d =
     (case d of (cache, s) \<Rightarrow>
        case begin_request cache request_id fp of
          (Execute, cache') \<Rightarrow>
            (case execute s of (response, s') \<Rightarrow>
               Some (response, (snd (complete_request cache' request_id fp response), s')))
        | (Cached response, cache') \<Rightarrow> Some (response, (cache', s))
        | (Conflict, cache') \<Rightarrow> Some (error_response request_id De_Conflict, (cache', s))
        | (Full, cache') \<Rightarrow> Some (error_response request_id De_LimitExceeded, (cache', s))
        | (Wait _, cache') \<Rightarrow> None)"

definition handle_request ::
  "DaemonConfig \<Rightarrow> externals \<Rightarrow> 'w filesystem \<Rightarrow> 'w runtime \<Rightarrow> RequestEnvelope \<Rightarrow> 'w daemon_state
     \<Rightarrow> (ResponseEnvelope \<times> 'w daemon_state) option" where
  "handle_request config X F R request d =
     (let request_id = env_request_id request; operation = env_operation request
      in case terminal_mutation operation of
           Some (t, kind) \<Rightarrow>
             (case op_fingerprint X operation of
                None \<Rightarrow> Some (error_response request_id De_InvalidRequest, d)
              | Some fp \<Rightarrow> replayed request_id fp (execute_mutation config X F R request t kind fp) d)
         | None \<Rightarrow>
             if \<not> is_non_idempotent operation then
               (case d of (cache, s) \<Rightarrow>
                  case response_for config X F R request_id operation s of
                    (response, s') \<Rightarrow> Some (response, (cache, s')))
             else
               (case op_fingerprint X operation of
                  None \<Rightarrow> Some (error_response request_id De_InvalidRequest, d)
                | Some fp \<Rightarrow>
                    replayed request_id fp (response_for config X F R request_id operation) d))"

definition handle_line ::
  "DaemonConfig \<Rightarrow> externals \<Rightarrow> 'w filesystem \<Rightarrow> 'w runtime \<Rightarrow> string \<Rightarrow> string \<Rightarrow> 'w daemon_state
     \<Rightarrow> (ResponseEnvelope \<times> 'w daemon_state) option" where
  "handle_line config X F R expected line d =
     (case admit X expected line of
        Inl response \<Rightarrow> Some (response, d)
      | Inr request \<Rightarrow> handle_request config X F R request d)"

subsection \<open>Connections\<close>

text \<open>
  A read takes up to and including the next newline, and at most one byte more than the limit.
\<close>

definition read_until :: "string \<Rightarrow> string \<times> string" where
  "read_until input =
     (let window = take (MAX_PROTOCOL_LINE_BYTES + 1) input
      in case find_index (\<lambda>c. c = CHR 0x0A) window of
           Some i \<Rightarrow> (take (i + 1) input, drop (i + 1) input)
         | None \<Rightarrow> (window, drop (length window) input))"

text \<open>\<open>write_response\<close>: the bytes it sends.\<close>

definition write_response :: "externals \<Rightarrow> ResponseEnvelope \<Rightarrow> DaemonError + string" where
  "write_response X response =
     and_then (ok_or (encode (response_codec X) response) De_InvalidRequest) (\<lambda>encoded.
     and_then
       (if length encoded + 1 > MAX_PROTOCOL_LINE_BYTES
        then ok_or (encode (response_codec X)
                      (error_response (resp_request_id response) De_LimitExceeded)) De_InvalidRequest
        else Inr encoded) (\<lambda>encoded.
       Inr (encoded @ [CHR 0x0A])))"

definition response_code :: "ResponseEnvelope \<Rightarrow> SandboxErrorCode option" where
  "response_code response =
     (case resp_result response of Inl error \<Rightarrow> Some (error_code error) | Inr _ \<Rightarrow> None)"

text \<open>
  One connection over the bytes the peer sends.  \<open>stalls\<close> says whether the deadline of the
  state passes before the next line has arrived; \<open>write\<close> is \<open>write_response\<close>, or an error when
  the peer does not take the bytes in time.  The result is the bytes written, how the
  connection ends, and the daemon after it.
\<close>

datatype connection_end = Closed_Ok | Closed_Err DaemonError | Waits_Forever

lemma read_until_shorter: "read_until input = (line, rest) \<Longrightarrow> line \<noteq> [] \<Longrightarrow> length rest < length input"
  by (auto simp: read_until_def Let_def split: option.splits)

function connection ::
  "(string \<Rightarrow> 'd \<Rightarrow> (ResponseEnvelope \<times> 'd) option) \<Rightarrow> (ResponseEnvelope \<Rightarrow> DaemonError + string)
     \<Rightarrow> (bool \<Rightarrow> string \<Rightarrow> bool) \<Rightarrow> bool \<Rightarrow> string \<Rightarrow> 'd \<Rightarrow> string list \<times> connection_end \<times> 'd" where
  "connection handle write stalls authenticated input d =
     (if stalls authenticated input then ([], Closed_Err De_ConnectionTimeout, d)
      else
        let (line, rest) = read_until input
        in if line = [] then ([], Closed_Ok, d)
           else if length line > MAX_PROTOCOL_LINE_BYTES \<or> last line \<noteq> CHR 0x0A then
             (case write (error_response 0 De_LimitExceeded) of
                Inl e \<Rightarrow> ([], Closed_Err e, d)
              | Inr bytes \<Rightarrow> ([bytes], Closed_Ok, d))
           else
             (case handle (butlast line) d of
                None \<Rightarrow> ([], Waits_Forever, d)
              | Some (response, d') \<Rightarrow>
                  let authorized = resp_request_id response \<noteq> 0
                                   \<and> response_code response \<noteq> Some Err_Unauthorized;
                      operation_timed_out = response_code response = Some Err_DeadlineExceeded
                  in (case write response of
                        Inl e \<Rightarrow> ([], Closed_Err e, d')
                      | Inr bytes \<Rightarrow>
                          if \<not> authorized \<or> operation_timed_out then ([bytes], Closed_Ok, d')
                          else
                            (case connection handle write stalls True rest d' of
                               (out, ending, d'') \<Rightarrow> (bytes # out, ending, d'')))))"
  by pat_completeness auto

termination
  by (relation "measure (\<lambda>(_, _, _, _, input, _). length input)")
     (auto dest!: read_until_shorter [OF sym])

end
