(* ===== verification/Daemon_Laws.thy ===== *)
theory Daemon_Laws
  imports Daemon
begin

section \<open>What the daemon promises for one request\<close>

text \<open>
  Authentication comes before everything; a retry is answered alike and executes nothing, also
  after a restart; mutations of a workspace run while its containers are paused; a start stays
  within the configured limits; and the table of locks is bounded by the workspaces.
\<close>

subsection \<open>What a dispatch keeps\<close>

text \<open>A predicate on the journal and the world that every operation of the services keeps.\<close>

definition filesystem_keeps :: "('w env \<Rightarrow> bool) \<Rightarrow> 'w filesystem \<Rightarrow> bool" where
  "filesystem_keeps P F \<longleftrightarrow>
     (\<forall>w. keeps P (fs_ensure_workspace F w)) \<and> (\<forall>w. keeps P (fs_workspace_storage F w))
     \<and> (\<forall>w p. keeps P (fs_require_directory F w p)) \<and> (\<forall>w p. keeps P (fs_list F w p))
     \<and> (\<forall>w p. keeps P (fs_read F w p)) \<and> (\<forall>w p. keeps P (fs_metadata F w p))
     \<and> (\<forall>w p q. keeps P (fs_search F w p q)) \<and> (\<forall>w p b. keeps P (fs_write F w p b))
     \<and> (\<forall>w p e b. keeps P (fs_patch F w p e b)) \<and> (\<forall>w p. keeps P (fs_mkdir F w p))
     \<and> (\<forall>w p q. keeps P (fs_move F w p q)) \<and> (\<forall>w p q. keeps P (fs_copy F w p q))
     \<and> (\<forall>w p. keeps P (fs_delete F w p))"

definition runtime_keeps :: "('w env \<Rightarrow> bool) \<Rightarrow> 'w runtime \<Rightarrow> bool" where
  "runtime_keeps P R \<longleftrightarrow>
     (\<forall>w. keeps P (rt_provision_workspace R w)) \<and> (\<forall>v. keeps P (rt_start R v))
     \<and> (\<forall>t i b. keeps P (rt_input R t i b)) \<and> (\<forall>t a m d. keeps P (rt_read_output R t a m d))
     \<and> (\<forall>t c. keeps P (rt_ack_output R t c)) \<and> (\<forall>t c r. keeps P (rt_resize R t c r))
     \<and> (\<forall>t. keeps P (rt_interrupt R t)) \<and> (\<forall>t. keeps P (rt_processes R t))
     \<and> (\<forall>t p. keeps P (rt_kill R t p)) \<and> (\<forall>t. keeps P (rt_terminate R t))
     \<and> (\<forall>t. keeps P (rt_inspect R t)) \<and> (\<forall>w. keeps P (rt_pause_workspace R w))
     \<and> (\<forall>p. keeps P (rt_resume_workspace R p))
     \<and> (\<forall>w p r. keeps P (rt_chown_workspace_path R w p r))
     \<and> (\<forall>op s s'. expired R op s = Some s' \<longrightarrow> P (snd s) \<longrightarrow> P (snd s'))"

abbreviation on_env :: "('w env \<Rightarrow> bool) \<Rightarrow> 'w dispatch_state \<Rightarrow> bool" where
  "on_env P \<equiv> \<lambda>s. P (snd s)"

lemma keeps_fs_call [keeps_rules]: "keeps P m \<Longrightarrow> keeps (on_env P) (fs_call m)"
  unfolding keeps_def fs_call_def by (auto split: prod.splits) (metis snd_conv)

lemma keeps_rt_call [keeps_rules]: "keeps P m \<Longrightarrow> keeps (on_env P) (rt_call m)"
  unfolding keeps_def rt_call_def by (auto split: prod.splits) (metis snd_conv)

lemma keeps_lock [keeps_rules]: "keeps (on_env P) (workspace_lock w)"
  by (auto simp: keeps_def workspace_lock_def split: prod.splits)

lemma keeps_result [keeps_rules]: "keeps Q m \<Longrightarrow> keeps Q (io_result f m)"
  unfolding io_result_def by (intro keeps_rules)

lemma keeps_chown [keeps_rules]:
  "runtime_keeps P R \<Longrightarrow> keeps (on_env P) (chown_hook R w hook)"
  by (auto simp: chown_hook_def runtime_keeps_def intro!: keeps_rules split: option.split)

lemma keeps_resume [keeps_rules]:
  "runtime_keeps P R \<Longrightarrow> keeps (on_env P) (resume_guarded R pause)"
  by (auto simp: resume_guarded_def runtime_keeps_def intro!: keeps_rules split: sum.split)

lemma keeps_mutate [keeps_rules]:
  assumes "filesystem_keeps P F" and "runtime_keeps P R" and "keeps P operation"
  shows "keeps (on_env P) (mutate_workspace F R w pre post operation)"
proof -
  have "keeps P (fs_require_directory F w ''.'')" "keeps P (rt_pause_workspace R w)"
    "\<And>t. keeps P (rt_terminate R t)"
    using assms by (auto simp: filesystem_keeps_def runtime_keeps_def)
  then show ?thesis
    using assms(2,3) unfolding mutate_workspace_def by (auto intro!: keeps_rules)
qed

lemma dispatch_keeps:
  assumes "filesystem_keeps P F" and "runtime_keeps P R"
  shows "keeps (on_env P) (dispatch config X F R operation)"
proof -
  note F = assms(1) [unfolded filesystem_keeps_def] and R = assms(2) [unfolded runtime_keeps_def]
  have "keeps (on_env P) (dispatch_start config F R t request)" for t request
    using F R unfolding dispatch_start_def Let_def by (auto intro!: keeps_rules)
  moreover have "keeps (on_env P) (dispatch_read_output X R t a m d)" for t a m d
    using R unfolding dispatch_read_output_def by (auto intro!: keeps_rules)
  ultimately show ?thesis
    using F R unfolding dispatch_def
    by (cases operation) (auto intro!: keeps_rules assms)
qed

lemma response_for_keeps:
  assumes "filesystem_keeps P F" and "runtime_keeps P R" and "P (snd s)"
  shows "P (snd (snd (response_for config X F R rid operation s)))"
proof -
  have "P (snd (snd (dispatch config X F R operation s)))"
    by (rule keepsD [OF dispatch_keeps [OF assms(1,2)] assms(3)])
  moreover have "P (snd s')" if "expired R operation s = Some s'" for s'
    using assms(2,3) that unfolding runtime_keeps_def by blast
  ultimately show ?thesis
    by (auto simp: response_for_def split: option.split prod.split sum.split)
qed

subsection \<open>Authentication\<close>

definition authentic :: "externals \<Rightarrow> string \<Rightarrow> string \<Rightarrow> bool" where
  "authentic X expected line \<longleftrightarrow>
     (\<exists>request. parse_request X line = Some request
        \<and> length (env_token request) \<le> MAX_TOKEN_BYTES \<and> sha256 X (env_token request) = expected)"

lemma admit_refuses:
  assumes "\<not> authentic X expected line"
  shows "\<exists>request_id error. (error = De_Unauthorized \<or> error = De_InvalidRequest \<and> request_id = 0)
     \<and> admit X expected line = Inl (error_response request_id error)" (is "\<exists>i e. ?refused i e")
proof (cases "parse_request X line")
  case None
  then have "?refused 0 De_InvalidRequest" by (simp add: admit_def)
  then show ?thesis by blast
next
  case (Some request)
  have "\<not> verify_token (sha256 X) expected (env_token request)"
    using assms Some by (auto simp: authentic_def verify_token_def split: if_splits)
  with Some have "?refused 0 De_InvalidRequest \<or> ?refused (env_request_id request) De_Unauthorized"
    by (auto simp: admit_def Let_def)
  then show ?thesis by blast
qed

lemma unauthenticated_answer:
  assumes "\<not> authentic X expected line"
  shows "\<exists>request_id error. (error = De_Unauthorized \<or> error = De_InvalidRequest \<and> request_id = 0)
     \<and> (\<forall>config F R d. handle_line config X F R expected line d
          = Some (error_response request_id error, d))"
proof -
  obtain i e where e: "e = De_Unauthorized \<or> e = De_InvalidRequest \<and> i = 0"
    and "admit X expected line = Inl (error_response i e)" using admit_refuses [OF assms] by blast
  then have "\<forall>config F R d. handle_line config X F R expected line d = Some (error_response i e, d)"
    by (simp add: handle_line_def)
  with e show ?thesis by blast
qed

text \<open>
  Property C5: a line without the right token is refused before anything else happens: the answer
  is the same whatever the daemon's state, policies and services are, and nothing changes.
\<close>

theorem unauthenticated_line_changes_nothing:
  assumes "\<not> authentic X expected line"
  shows "\<exists>request_id error. (error = De_Unauthorized \<or> error = De_InvalidRequest \<and> request_id = 0)
     \<and> (\<forall>config F R d. handle_line config X F R expected line d
          = Some (error_response request_id error, d))"
  using assms by (rule unauthenticated_answer)

text \<open>
  Property: a peer that does not authenticate is cut off: when the first line of a connection
  does not carry the token, the connection ends with at most one message to the peer, and
  nothing has changed.
\<close>

theorem unauthenticated_connection_ends:
  assumes "\<not> authentic X expected (butlast (fst (read_until input)))"
    and "connection (handle_line config X F R expected) write stalls authenticated input d
           = (out, ending, d')"
  shows "d' = d \<and> length out \<le> 1 \<and> ending \<noteq> Waits_Forever"
proof -
  obtain i e where e: "e = De_Unauthorized \<or> e = De_InvalidRequest \<and> i = 0"
    and h: "handle_line config X F R expected (butlast (fst (read_until input))) d
      = Some (error_response i e, d)"
    using unauthenticated_answer [OF assms(1)] by blast
  have "resp_request_id (error_response i e) = 0
      \<or> response_code (error_response i e) = Some Err_Unauthorized"
    using e by (auto simp: error_response_def error_of_def response_code_def)
  with assms(2) h show ?thesis
    by (auto simp: Let_def case_prod_beta split: if_splits sum.splits)
qed

subsection \<open>Retries\<close>

lemma begin_request_Execute:
  assumes "begin_request c rid fp = (Execute, c')"
  shows "map_of (entries c') rid = Some \<lparr>entry_fingerprint = fp, entry_state = Pending (next_notify c)\<rparr>"
proof -
  have none: "map_of (entries c) rid = None"
    using assms by (auto simp: begin_request_def split: option.splits if_splits ReplayState.splits)
  have "map_of (entries d) rid = None" if "evict c = Some d" for d
    using that none by (auto simp: evict_def Let_def map_of_remove_key split: option.splits)
  moreover have "next_notify d = next_notify c" if "evict c = Some d" for d
    using that by (auto simp: evict_def Let_def split: option.splits)
  ultimately show ?thesis
    using assms none by (auto simp: begin_request_def insert_pending_def map_of_append_new
        simp del: map_of_append split: option.splits if_splits)
qed

lemma completed_is_cached:
  assumes "begin_request c rid fp = (Execute, c')"
  shows "begin_request (snd (complete_request c' rid fp resp)) rid fp
     = (Cached resp, snd (complete_request c' rid fp resp))"
  using begin_request_Execute [OF assms]
  by (simp add: complete_request_def begin_request_def map_of_set_entry)

lemma begin_request_same:
  assumes "begin_request c rid fp = (dec, c')" and "dec \<noteq> Execute"
  shows "c' = c"
  using assms by (auto simp: begin_request_def split: option.splits if_splits ReplayState.splits)

lemma replayed_again:
  assumes "replayed rid fp execute d = Some (r, d')"
  shows "replayed rid fp execute' d' = Some (r, d')"
proof -
  obtain cache s where d: "d = (cache, s)" by (cases d)
  obtain dec cache' where b: "begin_request cache rid fp = (dec, cache')"
    by (cases "begin_request cache rid fp")
  show ?thesis
  proof (cases "dec = Execute")
    case True
    with assms b d show ?thesis
      by (auto simp: replayed_def completed_is_cached [OF b [unfolded True]] split: prod.splits)
  next
    case False
    with begin_request_same [OF b] have "cache' = cache" by blast
    with assms b d False show ?thesis
      by (cases dec) (auto simp: replayed_def split: prod.splits)
  qed
qed

text \<open>
  Property C6: an operation that must not run twice is not run by an immediate retry: the same
  line is answered with the same response, and neither the daemon nor the world changes, even
  if the configuration and the services have changed in between.
\<close>

theorem retry_is_stable:
  assumes "handle_line config X F R expected line d = Some (r, d')"
    and "admit X expected line = Inr request"
    and "is_non_idempotent (env_operation request) \<or> terminal_mutation (env_operation request) \<noteq> None"
  shows "handle_line config' X F' R' expected line d' = Some (r, d')"
  using assms
  by (auto simp: handle_line_def handle_request_def Let_def
      split: option.splits if_splits dest: replayed_again)

text \<open>A file system and a runtime on which everything but \<open>terminate\<close> fails, and a library that
  knows one request and its answer.\<close>

definition idle_filesystem :: "'w filesystem" where
  "idle_filesystem =
     \<lparr>fs_ensure_workspace = \<lambda>_. io_fail Fs_Io, fs_workspace_storage = \<lambda>_. io_fail Fs_Io,
      fs_require_directory = \<lambda>_ _. io_fail Fs_Io, fs_list = \<lambda>_ _. io_fail Fs_Io,
      fs_read = \<lambda>_ _. io_fail Fs_Io, fs_metadata = \<lambda>_ _. io_fail Fs_Io,
      fs_search = \<lambda>_ _ _. io_fail Fs_Io, fs_write = \<lambda>_ _ _. io_fail Fs_Io,
      fs_patch = \<lambda>_ _ _ _. io_fail Fs_Io, fs_mkdir = \<lambda>_ _. io_fail Fs_Io,
      fs_move = \<lambda>_ _ _. io_fail Fs_Io, fs_copy = \<lambda>_ _ _. io_fail Fs_Io,
      fs_delete = \<lambda>_ _. io_fail Fs_Io\<rparr>"

definition idle_runtime :: "'w runtime" where
  "idle_runtime =
     \<lparr>rt_provision_workspace = \<lambda>_. io_fail Rt_InvalidConfiguration,
      rt_start = \<lambda>_. io_fail Rt_InvalidConfiguration,
      rt_input = \<lambda>_ _ _. io_fail Rt_InvalidConfiguration,
      rt_read_output = \<lambda>_ _ _ _. io_fail Rt_InvalidConfiguration,
      rt_ack_output = \<lambda>_ _. io_fail Rt_InvalidConfiguration,
      rt_resize = \<lambda>_ _ _. io_fail Rt_InvalidConfiguration,
      rt_interrupt = \<lambda>_. io_fail Rt_InvalidConfiguration,
      rt_processes = \<lambda>_. io_fail Rt_InvalidConfiguration,
      rt_kill = \<lambda>_ _. io_fail Rt_InvalidConfiguration,
      rt_terminate = \<lambda>_. io_ok (),
      rt_inspect = \<lambda>_. io_fail Rt_InvalidConfiguration,
      rt_pause_workspace = \<lambda>_. io_fail Rt_InvalidConfiguration,
      rt_resume_workspace = \<lambda>_. io_fail Rt_InvalidConfiguration,
      rt_chown_workspace_path = \<lambda>_ _ _. io_ok (), expired = \<lambda>_ _. None\<rparr>"

lemma idle_filesystem_keeps [simp]: "filesystem_keeps P idle_filesystem"
  by (simp add: filesystem_keeps_def idle_filesystem_def)

lemma idle_runtime_keeps [simp]: "runtime_keeps P idle_runtime"
  by (simp add: runtime_keeps_def idle_runtime_def)

definition terminate_request :: RequestEnvelope where
  "terminate_request = \<lparr>env_version = 2, env_request_id = 9, env_token = ''secret'',
     env_operation = Op_Terminate 1\<rparr>"

definition sample_shape :: json where
  "sample_shape = JObject [(''operation'', JObject [(''op'', JString ''terminate'')])]"

definition sample_externals :: externals where
  "sample_externals =
     \<lparr>parse_request = \<lambda>_. Some terminate_request, parse_value = \<lambda>_. Some sample_shape,
      op_to_vec = \<lambda>_. Some ''op'', response_codec = sample_codec,
      sha256 = \<lambda>s. s, base64_encode = \<lambda>s. s, base64_decode = \<lambda>s. Some s\<rparr>"

definition sample_config :: DaemonConfig where
  "sample_config = \<lparr>resource_ceiling = HARD_RESOURCE_LIMITS,
     network_policies = \<lparr>restricted_network = None, allow_full = False\<rparr>, replay_capacity = 1,
     connections = \<lparr>max_connections = 1, pre_auth_timeout = 1, idle_timeout = 1, operation_timeout = 1\<rparr>\<rparr>"

definition sample_daemon :: "unit daemon_state" where
  "sample_daemon = (\<lparr>capacity = 1, entries = [], order = [], next_notify = 0\<rparr>, [], open_new, ())"

lemma sample_admit: "admit sample_externals ''secret'' ''x'' = Inr terminate_request"
  by (simp add: admit_def sample_externals_def terminate_request_def sample_shape_def valid_wire_shape_def
      allowed_fields_def verify_token_def MAX_PROTOCOL_LINE_BYTES_def MAX_TOKEN_BYTES_def
      SANDBOX_PROTOCOL_VERSION_def)

theorem unauthenticated_line_changes_nothing_witness:
  "\<exists>request_id error. handle_line sample_config sample_externals idle_filesystem idle_runtime
      ''other'' ''x'' sample_daemon = Some (error_response request_id error, sample_daemon)"
proof -
  have "\<not> authentic sample_externals ''other'' ''x''"
    by (simp add: authentic_def sample_externals_def terminate_request_def)
  from unauthenticated_line_changes_nothing [OF this] show ?thesis by blast
qed

theorem unauthenticated_connection_ends_witness:
  "snd (snd (connection (handle_line sample_config sample_externals idle_filesystem idle_runtime ''other'')
      (write_response sample_externals) (\<lambda>_ _. False) False (''x'' @ [CHR 0x0A] @ ''y'' @ [CHR 0x0A])
      sample_daemon)) = sample_daemon"
proof -
  let ?run = "connection (handle_line sample_config sample_externals idle_filesystem idle_runtime ''other'')
      (write_response sample_externals) (\<lambda>_ _. False) False (''x'' @ [CHR 0x0A] @ ''y'' @ [CHR 0x0A])
      sample_daemon"
  obtain out ending d' where run: "?run = (out, ending, d')" by (metis surj_pair)
  have "\<not> authentic sample_externals ''other'' line" for line
    by (simp add: authentic_def sample_externals_def terminate_request_def)
  from unauthenticated_connection_ends [OF this run] run show ?thesis by simp
qed

lemma sample_handle_request:
  "\<exists>c' j'. handle_request sample_config sample_externals idle_filesystem idle_runtime terminate_request
      sample_daemon = Some (sample_response, c', [], j', ())"
proof -
  have tm: "terminal_mutation (env_operation terminate_request) = Some (1, ''terminate'')"
    "op_fingerprint sample_externals (env_operation terminate_request) = Some ''op''"
    "env_request_id terminate_request = 9"
    by (simp_all add: terminate_request_def terminal_mutation_def op_fingerprint_def
        sample_externals_def)
  have run: "response_for sample_config sample_externals idle_filesystem idle_runtime 9
      (env_operation terminate_request) s = (sample_response, s)" for s :: "unit dispatch_state"
    by (cases s) (simp add: response_for_def dispatch_def terminal_id_def terminate_request_def
        idle_runtime_def io_defs io_result_def rt_call_def sample_response_def
        SANDBOX_PROTOCOL_VERSION_def)
  have codec: "response_codec sample_externals = sample_codec" by (simp add: sample_externals_def)
  show ?thesis
    unfolding handle_request_def Let_def tm option.case prod.case replayed_def execute_mutation_def
    by (simp add: sample_daemon_def begin_request_def begin_mutation_def on_journal_def open_new_def
        run codec complete_recorded_def complete_mutation_def sample_codec_def)
qed

theorem retry_is_stable_witness:
  "\<exists>d'. handle_line sample_config sample_externals idle_filesystem idle_runtime ''secret'' ''x'' d'
     = Some (sample_response, (d' :: unit daemon_state))"
proof -
  obtain d' where d': "handle_line sample_config sample_externals idle_filesystem idle_runtime
      ''secret'' ''x'' sample_daemon = Some (sample_response, d')"
    using sample_handle_request by (auto simp: handle_line_def sample_admit)
  have "terminal_mutation (env_operation terminate_request) \<noteq> None"
    by (simp add: terminate_request_def terminal_mutation_def)
  with retry_is_stable [OF d' sample_admit] show ?thesis by blast
qed

subsection \<open>Restarts\<close>

text \<open>
  Property: the answer to an operation on a terminal survives the daemon.  When the operation
  was executed, then after any further use of the journal (only the task that executed an
  operation records its response) and any number of restarts, with a new replay cache and whatever configuration and services, the same request is answered with
  the same response and executes nothing.
\<close>

theorem answers_survive_restart:
  assumes tame: "\<And>m. filesystem_keeps (\<lambda>(j, w). mutations j = m) F"
      "\<And>m. runtime_keeps (\<lambda>(j, w). mutations j = m) R"
    and codec: "\<And>resp bytes. encode (response_codec X) resp = Some bytes
                  \<Longrightarrow> decode (response_codec X) bytes = Some resp"
    and operation: "terminal_mutation (env_operation request) = Some (t, kind)"
      "op_fingerprint X (env_operation request) = Some fp"
    and executed: "fst (begin_request cache (env_request_id request) fp) = Execute"
      "map_of (mutations j) (env_request_id request) = None"
    and run: "handle_request config X F R request (cache, locks, j, w) = Some (r, cache', locks', j', w')"
    and after: "j'' = run_ops (journal_step (response_codec X)) j' ops"
      "\<And>resp. Do_CompleteMutation (env_request_id request) resp \<notin> set ops"
      "new_cache capacity' = Some cache''"
  shows "\<exists>c. handle_request config' X F' R' request (cache'', locks'', j'', w'')
     = Some (r, c, locks'', j'', w'')"
proof -
  let ?rid = "env_request_id request" and ?C = "response_codec X"
  let ?jb = "j\<lparr>mutations := mutations j @ [(?rid, mutation_entry t kind fp None)]\<rparr>"
  have b: "begin_mutation (decode ?C) j ?rid t kind fp = (Inr Mutation_Execute, ?jb)"
    using executed(2) by (simp add: begin_mutation_def mutation_entry_def)
  obtain response locks1 j1 w1 where disp: "response_for config X F R ?rid (env_operation request)
      (locks, ?jb, w) = (response, locks1, j1, w1)" by (metis surj_pair)
  have "mutations j1 = mutations ?jb"
    using response_for_keeps [OF tame(1,2), of "mutations ?jb" "(locks, ?jb, w)" config X ?rid
        "env_operation request"] disp by simp
  then have row: "map_of (mutations j1) ?rid = Some (mutation_entry t kind fp None)"
    using executed(2) by (simp add: map_of_append_new del: map_of_append)
  have eq: "execute_mutation config X F R request t kind fp (locks, j, w)
      = complete_recorded X ?rid response (locks1, j1, w1)"
    using b disp by (simp add: execute_mutation_def on_journal_def Let_def)
  have outcome: "\<exists>out. map_of (mutations j') ?rid = Some (mutation_entry t kind fp out)
      \<and> (case out of None \<Rightarrow> r = error_response ?rid De_OutcomeUnknown
                   | Some bytes \<Rightarrow> decode ?C bytes = Some r)"
  proof (cases "encode ?C response")
    case None
    with row eq run operation executed show ?thesis
      by (auto simp: handle_request_def replayed_def complete_recorded_def on_journal_def
          complete_mutation_def Let_def split: prod.splits)
  next
    case (Some bytes)
    with codec have "decode ?C bytes = Some response" by blast
    with Some row eq run operation executed show ?thesis
      by (intro exI [of _ "Some bytes"])
         (auto simp: handle_request_def replayed_def complete_recorded_def on_journal_def
          complete_mutation_def Let_def map_of_update_key mutation_entry_def split: prod.splits)
  qed
  then obtain out where out: "map_of (mutations j') ?rid = Some (mutation_entry t kind fp out)"
    "case out of None \<Rightarrow> r = error_response ?rid De_OutcomeUnknown
               | Some bytes \<Rightarrow> decode ?C bytes = Some r" by blast
  have "mutation_outcome ?C ?rid ops = None"
    using after(2) by (induction ops) (auto split: journal_op.splits)
  with mutation_entry_run [OF out(1), of ?C ops] after(1)
  have "map_of (mutations j'') ?rid = Some (mutation_entry t kind fp out)"
    by (cases out) auto
  then have "execute_mutation config' X F' R' request t kind fp (locks'', j'', w'')
      = (r, locks'', j'', w'')"
    using out(2) by (cases out) (auto simp: execute_mutation_def begin_mutation_def on_journal_def
        mutation_entry_def journal_refusal_def Let_def)
  moreover have "\<exists>c. begin_request cache'' ?rid fp = (Execute, c)"
    using after(3) by (auto simp: new_cache_def begin_request_def split: if_splits)
  ultimately show ?thesis
    using operation by (auto simp: handle_request_def replayed_def Let_def)
qed

theorem answers_survive_restart_witness:
  "\<exists>j c. handle_request sample_config sample_externals idle_filesystem idle_runtime terminate_request
      (\<lparr>capacity = 5, entries = [], order = [], next_notify = 0\<rparr>, [], j, ())
    = Some (sample_response, c, [], j, ())"
proof -
  obtain c' j' where run: "handle_request sample_config sample_externals idle_filesystem idle_runtime
      terminate_request sample_daemon = Some (sample_response, c', [], j', ())"
    using sample_handle_request by blast
  have codec: "encode (response_codec sample_externals) resp = Some bytes
      \<Longrightarrow> decode (response_codec sample_externals) bytes = Some resp" for resp bytes
    by (auto simp: sample_externals_def sample_codec_def split: if_splits)
  have "\<exists>c. handle_request sample_config sample_externals idle_filesystem idle_runtime
      terminate_request (\<lparr>capacity = 5, entries = [], order = [], next_notify = 0\<rparr>, [],
        snd (reconcile_restart j'), ())
    = Some (sample_response, c, [], snd (reconcile_restart j'), ())"
    by (rule answers_survive_restart [OF idle_filesystem_keeps idle_runtime_keeps codec _ _ _ _
          run [unfolded sample_daemon_def], of 1 "''terminate''" "''op''" _ "[Do_Restart]" 5])
       (simp_all add: terminate_request_def terminal_mutation_def op_fingerprint_def
         sample_externals_def begin_request_def open_new_def new_cache_def)
  then show ?thesis by blast
qed


subsection \<open>Mutations run while the workspace is paused\<close>

text \<open>
  Two file systems that read alike and mutate alike where the workspace is paused; what they do
  to a workspace that is running is not restricted.
\<close>

definition agree_when_paused ::
  "(uuid \<Rightarrow> 'w env \<Rightarrow> bool) \<Rightarrow> 'w filesystem \<Rightarrow> 'w filesystem \<Rightarrow> bool" where
  "agree_when_paused paused F F' \<longleftrightarrow>
     fs_ensure_workspace F = fs_ensure_workspace F' \<and> fs_workspace_storage F = fs_workspace_storage F'
     \<and> fs_require_directory F = fs_require_directory F' \<and> fs_list F = fs_list F'
     \<and> fs_read F = fs_read F' \<and> fs_metadata F = fs_metadata F' \<and> fs_search F = fs_search F'
     \<and> (\<forall>w e. paused w e \<longrightarrow>
          (\<forall>p b. fs_write F w p b e = fs_write F' w p b e)
          \<and> (\<forall>p d b. fs_patch F w p d b e = fs_patch F' w p d b e)
          \<and> (\<forall>p. fs_mkdir F w p e = fs_mkdir F' w p e)
          \<and> (\<forall>p q. fs_move F w p q e = fs_move F' w p q e)
          \<and> (\<forall>p q. fs_copy F w p q e = fs_copy F' w p q e)
          \<and> (\<forall>p. fs_delete F w p e = fs_delete F' w p e))"

lemma io_bind_cong_inv:
  assumes "\<And>x t. m s = (Inr x, t) \<Longrightarrow> f x t = g x t"
  shows "io_bind m f s = io_bind m g s"
  using assms by (auto simp: io_bind_def split: prod.split sum.split)

lemma mutate_paused:
  assumes pauses: "\<And>e p e'. rt_pause_workspace R w e = (Inr p, e') \<Longrightarrow> paused e'"
    and chown: "\<And>path r. keeps paused (rt_chown_workspace_path R w path r)"
    and req: "fs_require_directory F = fs_require_directory F'"
    and op: "\<And>e. paused e \<Longrightarrow> operation e = operation' e"
  shows "mutate_workspace F R w pre post operation = mutate_workspace F' R w pre post operation'"
proof (rule ext)
  fix s
  have hook: "keeps (on_env paused) (chown_hook R w hook)" for hook
    using chown by (auto simp: chown_hook_def intro!: keeps_rules split: option.split)
  have pause: "on_env paused s2" if "rt_call (rt_pause_workspace R w) s1 = (Inr p, s2)" for s1 s2 p
    using that pauses by (auto simp: rt_call_def split: prod.splits)
  have after_hook: "on_env paused s2"
    if "chown_hook R w hook s1 = (Inr u, s2)" and "on_env paused s1" for s1 s2 u hook
    using keepsD [OF hook that(2), of hook] that(1) by simp
  have tried: "io_try (fs_call operation) t = io_try (fs_call operation') t" if "on_env paused t" for t
    using that op by (auto simp: io_try_def fs_call_def split: prod.split)
  show "mutate_workspace F R w pre post operation s = mutate_workspace F' R w pre post operation' s"
    unfolding mutate_workspace_def req
    by (intro io_bind_cong_inv) (auto simp: io_bind_def tried dest!: pause after_hook)
qed

text \<open>
  Property: a workspace is changed only while its containers are paused.  When pausing leaves
  the workspace paused and the ownership fixes keep it so, the dispatcher cannot tell apart
  two file systems that differ only in what they do to running workspaces.
\<close>

theorem mutations_run_paused:
  assumes "\<And>w e p e'. rt_pause_workspace R w e = (Inr p, e') \<Longrightarrow> paused w e'"
    and "\<And>w path r. keeps (paused w) (rt_chown_workspace_path R w path r)"
    and "agree_when_paused paused F F'"
  shows "dispatch config X F R operation = dispatch config X F' R operation"
proof -
  note agree = assms(3) [unfolded agree_when_paused_def]
  note mutate = mutate_paused [of R w "paused w" F F' for w, OF assms(1,2)]
  have "dispatch_start config F R t request = dispatch_start config F' R t request" for t request
    using agree by (simp add: dispatch_start_def)
  with agree show ?thesis
    by (cases operation)
       (auto simp: dispatch_def io_result_def intro!: arg_cong2 [where f = io_bind] mutate)
qed

text \<open>A world that is just the fact that the containers are paused.\<close>

definition pausing_runtime :: "bool runtime" where
  "pausing_runtime = idle_runtime
     \<lparr>rt_pause_workspace := \<lambda>w (j, _). (Inr \<lparr>pause_workspace_id = w, pause_terminal_ids = [1],
        pause_recovery_id = None\<rparr>, (j, True)),
      rt_resume_workspace := \<lambda>_ (j, _). (Inr (), (j, False))\<rparr>"

definition writing_filesystem :: "(bool, string) fs \<Rightarrow> bool filesystem" where
  "writing_filesystem m = idle_filesystem
     \<lparr>fs_require_directory := \<lambda>_ _. io_ok (), fs_write := \<lambda>_ _ _. m\<rparr>"

theorem mutations_run_paused_witness:
  "dispatch sample_config sample_externals (writing_filesystem (io_ok ''digest'')) pausing_runtime
     (Op_FsWrite 1 ''a'' ''b'')
   = dispatch sample_config sample_externals
       (writing_filesystem (\<lambda>(j, p). if p then (Inr ''digest'', (j, p)) else (Inl Fs_Io, (j, p))))
       pausing_runtime (Op_FsWrite 1 ''a'' ''b'')"
  by (rule mutations_run_paused [where paused = "\<lambda>_. snd"])
     (auto simp: pausing_runtime_def writing_filesystem_def agree_when_paused_def idle_runtime_def io_ok_def)

lemma chown_hook_ok: "fst (chown_hook R w hook s) = Inr ()"
  by (auto simp: chown_hook_def io_ok_def io_ignore_def split: option.split)

text \<open>
  To say what a change of a workspace does, its calls are watched: every call of the runtime, and
  the change of the file system itself, is written down in the order in which it is made.
\<close>

datatype touch =
    Paused uuid "RuntimeError + WorkspacePause"
  | Chowned string bool
  | Changed "FilesystemError option"
  | Terminated uuid
  | Resumed WorkspacePause "RuntimeError + unit"

definition failure_of :: "'e + 'a \<Rightarrow> 'e option" where
  "failure_of r = (case r of Inl e \<Rightarrow> Some e | Inr _ \<Rightarrow> None)"

definition unseen :: "('w env \<Rightarrow> 'r \<times> 'w env) \<Rightarrow> ('w \<times> touch list) env \<Rightarrow> 'r \<times> ('w \<times> touch list) env" where
  "unseen m e = (case e of (j, w, calls) \<Rightarrow> case m (j, w) of (r, j', w') \<Rightarrow> (r, j', w', calls))"

definition seen ::
  "('r \<Rightarrow> touch) \<Rightarrow> ('w env \<Rightarrow> 'r \<times> 'w env) \<Rightarrow> ('w \<times> touch list) env \<Rightarrow> 'r \<times> ('w \<times> touch list) env" where
  "seen touch m e = (case e of (j, w, calls) \<Rightarrow> case m (j, w) of (r, j', w') \<Rightarrow> (r, j', w', calls @ [touch r]))"

definition watched_runtime :: "'w runtime \<Rightarrow> ('w \<times> touch list) runtime" where
  "watched_runtime R = idle_runtime
     \<lparr>rt_pause_workspace := \<lambda>w. seen (Paused w) (rt_pause_workspace R w),
      rt_chown_workspace_path := \<lambda>w path r. seen (\<lambda>_. Chowned path r) (rt_chown_workspace_path R w path r),
      rt_terminate := \<lambda>t. seen (\<lambda>_. Terminated t) (rt_terminate R t),
      rt_resume_workspace := \<lambda>p. seen (Resumed p) (rt_resume_workspace R p)\<rparr>"

definition watched_directory :: "'w filesystem \<Rightarrow> ('w \<times> touch list) filesystem" where
  "watched_directory F = idle_filesystem
     \<lparr>fs_require_directory := \<lambda>w path. unseen (fs_require_directory F w path)\<rparr>"

definition watched_change :: "('w, 'a) fs \<Rightarrow> ('w \<times> touch list, 'a) fs" where
  "watched_change operation = seen (\<lambda>r. Changed (failure_of r)) operation"

fun chown_touch :: "(string \<times> bool) option \<Rightarrow> touch list" where
  "chown_touch None = []"
| "chown_touch (Some (path, r)) = [Chowned path r]"

lemma chown_cases:
  obtains j' v' where "chown_hook R w hook (locks, j, v) = (Inr (), locks, j', v')"
    and "\<And>calls. chown_hook (watched_runtime R) w hook (locks, j, v, calls) = (Inr (), locks, j', v', calls @ chown_touch hook)"
proof -
  have "\<exists>j' v'. chown_hook R w hook (locks, j, v) = (Inr (), locks, j', v')
      \<and> (\<forall>calls. chown_hook (watched_runtime R) w hook (locks, j, v, calls) = (Inr (), locks, j', v', calls @ chown_touch hook))"
    by (cases hook) (auto simp: chown_hook_def io_ok_def io_ignore_def rt_call_def watched_runtime_def seen_def
        split: prod.splits)
  then show thesis using that by blast
qed

lemma terminate_cases:
  fixes R :: "'w runtime"
  obtains j' v' where
    "(io_for_each (\<lambda>t. io_ignore (rt_call (rt_terminate R t))) ts :: ('w dispatch_state, DaemonError, unit) io)
       (locks, j, v) = (Inr (), locks, j', v')"
    and "\<And>calls. (io_for_each (\<lambda>t. io_ignore (rt_call (rt_terminate (watched_runtime R) t))) ts
        :: (('w \<times> touch list) dispatch_state, DaemonError, unit) io)
       (locks, j, v, calls) = (Inr (), locks, j', v', calls @ map Terminated ts)"
proof -
  have "\<exists>j' v'. (io_for_each (\<lambda>t. io_ignore (rt_call (rt_terminate R t))) ts :: ('w dispatch_state, DaemonError, unit) io)
       (locks, j, v) = (Inr (), locks, j', v')
    \<and> (\<forall>calls. (io_for_each (\<lambda>t. io_ignore (rt_call (rt_terminate (watched_runtime R) t))) ts
        :: (('w \<times> touch list) dispatch_state, DaemonError, unit) io)
       (locks, j, v, calls) = (Inr (), locks, j', v', calls @ map Terminated ts))"
  proof (induction ts arbitrary: j v)
    case (Cons t ts)
    obtain r j1 v1 where "rt_terminate R t (j, v) = (r, j1, v1)" by (metis surj_pair)
    with Cons [of j1 v1] show ?case
      by (auto simp: io_then_def io_bind_def io_ignore_def rt_call_def watched_runtime_def seen_def)
  qed (simp add: io_ok_def)
  then show thesis using that by blast
qed

lemma resume_cases:
  obtains (resumed) j' v' where "rt_resume_workspace R p (j, v) = (Inr (), j', v')"
      "resume_guarded R p (locks, j, v) = (Inr (), locks, j', v')"
      "\<And>calls. resume_guarded (watched_runtime R) p (locks, j, v, calls) = (Inr (), locks, j', v', calls @ [Resumed p (Inr ())])"
  | (failed) e r j' v' where
      "resume_guarded R p (locks, j, v) = (Inl (De_Runtime e), locks, j', v')"
      "\<And>calls. resume_guarded (watched_runtime R) p (locks, j, v, calls)
         = (Inl (De_Runtime e), locks, j', v', calls @ [Resumed p (Inl e), Resumed p r])"
proof -
  obtain r j1 v1 where first: "rt_resume_workspace R p (j, v) = (r, j1, v1)" by (metis surj_pair)
  obtain r' j2 v2 where second: "rt_resume_workspace R p (j1, v1) = (r', j2, v2)" by (metis surj_pair)
  note defs = resume_guarded_def io_bind_def io_try_def io_ok_def io_ignore_def io_fail_def rt_call_def
    watched_runtime_def seen_def
  show thesis
  proof (cases r)
    case (Inl e)
    with first second show thesis by (intro failed [of e j2 v2 r']) (simp_all add: defs)
  next
    case (Inr u)
    with first show thesis by (intro resumed [of j1 v1]) (simp_all add: defs)
  qed
qed

text \<open>
  What a change of a workspace did, from what it wrote down: nothing, because the workspace could not
  be opened; a pause that failed; or a pause, with the change between it and its end.  The end of
  the pause is the termination of all its terminals when the change could not be contained, and
  otherwise its resumption, tried once more when it fails.
\<close>

definition mutation_trace ::
  "uuid \<Rightarrow> (string \<times> bool) option \<Rightarrow> (string \<times> bool) option \<Rightarrow> DaemonError + 'a \<Rightarrow> touch list \<Rightarrow> bool" where
  "mutation_trace w pre post result calls \<longleftrightarrow>
     (\<exists>e. result = Inl (De_Filesystem e) \<and> calls = [])
   \<or> (\<exists>e. result = Inl (De_Runtime e) \<and> calls = [Paused w (Inl e)])
   \<or> (\<exists>p change ending. calls = Paused w (Inr p) # chown_touch pre @ Changed change # ending
        \<and> (if change = Some Fs_ContainmentFailure
           then ending = map Terminated (pause_terminal_ids p) \<and> result = Inl (De_Filesystem Fs_ContainmentFailure)
           else ending = chown_touch post @ [Resumed p (Inr ())] \<and> failure_of result = map_option De_Filesystem change
             \<or> (\<exists>e again. ending = chown_touch post @ [Resumed p (Inl e), Resumed p again]
                  \<and> result = Inl (De_Runtime e))))"

lemma mutation_traced:
  fixes R :: "'w runtime"
  assumes "mutate_workspace F R w pre post operation (locks, j, v) = (result, locks', j', v')"
  shows "\<exists>calls. mutate_workspace (watched_directory F) (watched_runtime R) w pre post (watched_change operation)
        (locks, j, v, []) = (result, locks', j', v', calls) \<and> mutation_trace w pre post result calls"
proof -
  let ?watched = "mutate_workspace (watched_directory F) (watched_runtime R) w pre post (watched_change operation)
        (locks, j, v, [])"
  obtain r1 j1 v1 where dir: "fs_require_directory F w ''.'' (j, v) = (r1, j1, v1)" by (metis surj_pair)
  define l1 where "l1 = (if w \<in> set locks then locks else locks @ [w])"
  obtain r2 j2 v2 where pause: "rt_pause_workspace R w (j1, v1) = (r2, j2, v2)" by (metis surj_pair)
  have dir': "fs_require_directory (watched_directory F) w ''.'' (j, v, calls) = (r1, j1, v1, calls)" for calls
    using dir by (simp add: watched_directory_def unseen_def)
  have pause': "rt_pause_workspace (watched_runtime R) w (j1, v1, calls) = (r2, j2, v2, calls @ [Paused w r2])" for calls
    using pause by (simp add: watched_runtime_def seen_def)
  note open_defs = mutate_workspace_def io_bind_def fs_call_def rt_call_def workspace_lock_def
  consider (closed) e where "r1 = Inl e" | (unpaused) u e where "r1 = Inr u" "r2 = Inl e"
    | (paused) u p where "r1 = Inr u" "r2 = Inr p" by (cases r1; cases r2) auto
  then show ?thesis
  proof cases
    case closed
    with assms dir dir' show ?thesis by (auto simp: open_defs mutation_trace_def)
  next
    case unpaused
    with assms dir dir' pause pause' show ?thesis by (auto simp: open_defs mutation_trace_def)
  next
    case paused
    obtain j3 v3 where pre: "chown_hook R w pre (l1, j2, v2) = (Inr (), l1, j3, v3)"
      and pre': "\<And>calls. chown_hook (watched_runtime R) w pre (l1, j2, v2, calls) = (Inr (), l1, j3, v3, calls @ chown_touch pre)"
      by (rule chown_cases [of R w pre l1 j2 v2]) blast
    obtain change j4 v4 where op: "operation (j3, v3) = (change, j4, v4)" by (metis surj_pair)
    let ?result = "map_err De_Filesystem change"
    let ?calls = "Paused w (Inr p) # chown_touch pre @ [Changed (failure_of change)]"
    have op': "watched_change operation (j3, v3, calls) = (change, j4, v4, calls @ [Changed (failure_of change)])" for calls
      using op by (simp add: watched_change_def seen_def)
    have contained: "is_containment_failure ?result \<longleftrightarrow> failure_of change = Some Fs_ContainmentFailure"
      by (cases change) (auto simp: is_containment_failure_def failure_of_def)
    show ?thesis
    proof (cases "is_containment_failure ?result")
      case True
      then have failed: "?result = Inl (De_Filesystem Fs_ContainmentFailure)"
        by (cases change) (auto simp: is_containment_failure_def)
      obtain j5 v5 where ts: "(io_for_each (\<lambda>t. io_ignore (rt_call (rt_terminate R t))) (pause_terminal_ids p)
          :: ('w dispatch_state, DaemonError, unit) io) (l1, j4, v4) = (Inr (), l1, j5, v5)"
        and ts': "\<And>calls. (io_for_each (\<lambda>t. io_ignore (rt_call (rt_terminate (watched_runtime R) t))) (pause_terminal_ids p)
          :: (('w \<times> touch list) dispatch_state, DaemonError, unit) io) (l1, j4, v4, calls)
            = (Inr (), l1, j5, v5, calls @ map Terminated (pause_terminal_ids p))"
        by (rule terminate_cases [of R "pause_terminal_ids p" l1 j4 v4]) blast
      have "(result, locks', j', v') = (?result, l1, j5, v5)"
        using assms dir pause paused pre op True ts
        by (simp add: open_defs io_try_def io_lift_def l1_def [symmetric])
      moreover have "?watched = (?result, l1, j5, v5, ?calls @ map Terminated (pause_terminal_ids p))"
        using dir' pause' paused pre' op' True ts'
        by (simp add: open_defs io_try_def io_lift_def l1_def [symmetric])
      ultimately show ?thesis using failed True contained by (auto simp: mutation_trace_def)
    next
      case False
      obtain j5 v5 where post: "chown_hook R w post (l1, j4, v4) = (Inr (), l1, j5, v5)"
        and post': "\<And>calls. chown_hook (watched_runtime R) w post (l1, j4, v4, calls) = (Inr (), l1, j5, v5, calls @ chown_touch post)"
        by (rule chown_cases [of R w post l1 j4 v4]) blast
      have run: "mutate_workspace F R w pre post operation (locks, j, v)
          = io_bind (resume_guarded R p) (\<lambda>_. io_lift ?result) (l1, j5, v5)"
        using dir pause paused pre op False post
        by (simp add: open_defs io_try_def io_lift_def l1_def [symmetric])
      have run': "?watched = io_bind (resume_guarded (watched_runtime R) p) (\<lambda>_. io_lift ?result)
          (l1, j5, v5, ?calls @ chown_touch post)"
        using dir' pause' paused pre' op' False post'
        by (simp add: open_defs io_try_def io_lift_def l1_def [symmetric])
      have outcome: "failure_of ?result = map_option De_Filesystem (failure_of change)"
        by (cases change) (simp_all add: failure_of_def)
      show ?thesis
      proof (cases rule: resume_cases [of R p j5 v5 l1])
        case (resumed j6 v6)
        with run run' assms have "result = ?result"
          "?watched = (?result, locks', j', v', ?calls @ chown_touch post @ [Resumed p (Inr ())])"
          by (auto simp: io_bind_def io_lift_def)
        with outcome False contained show ?thesis by (auto simp: mutation_trace_def)
      next
        case (failed e r j6 v6)
        with run run' assms have "result = Inl (De_Runtime e)"
          "?watched = (result, locks', j', v', ?calls @ chown_touch post @ [Resumed p (Inl e), Resumed p r])"
          by (auto simp: io_bind_def)
        with False contained show ?thesis by (auto simp: mutation_trace_def)
      qed
    qed
  qed
qed

text \<open>
  Property C7: a change of a workspace is made between a pause and the end of that pause, and a pause
  never stays without its end.  Whatever the services answer, a run of \<open>mutate_workspace\<close> made, in this
  order, exactly the calls that follow: none, because the workspace could not be opened; a pause
  that failed; or a pause, the first ownership fix, the change, and then, when the change left an
  unsafe entry behind, the termination of every terminal of that pause and nothing else, and in
  every other case, an error included, the second fix and the resumption of that same pause, once
  more when it failed, with the error of the resumption as the result.
\<close>

theorem mutation_resumes_or_contains:
  assumes "mutate_workspace F R w pre post operation (locks, j, v) = (result, locks', j', v')"
  shows "\<exists>calls. mutate_workspace (watched_directory F) (watched_runtime R) w pre post (watched_change operation)
        (locks, j, v, []) = (result, locks', j', v', calls)
     \<and> ((\<exists>e. result = Inl (De_Filesystem e) \<and> calls = [])
      \<or> (\<exists>e. result = Inl (De_Runtime e) \<and> calls = [Paused w (Inl e)])
      \<or> (\<exists>p change ending. calls = Paused w (Inr p) # chown_touch pre @ Changed change # ending
           \<and> (if change = Some Fs_ContainmentFailure
              then ending = map Terminated (pause_terminal_ids p) \<and> result = Inl (De_Filesystem Fs_ContainmentFailure)
              else ending = chown_touch post @ [Resumed p (Inr ())] \<and> failure_of result = map_option De_Filesystem change
                \<or> (\<exists>e again. ending = chown_touch post @ [Resumed p (Inl e), Resumed p again]
                     \<and> result = Inl (De_Runtime e)))))"
  using mutation_traced [OF assms] by (simp add: mutation_trace_def)

text \<open>A change that leaves something unsafe behind.\<close>

theorem mutation_resumes_or_contains_witness:
  "\<exists>calls. snd (snd (snd (mutate_workspace (watched_directory (writing_filesystem (io_ok ''digest'')))
       (watched_runtime pausing_runtime) 1 None None (watched_change (io_fail Fs_ContainmentFailure :: (bool, string) fs))
       ([], open_new, False, [])))) = (True, calls)
     \<and> calls = [Paused 1 (Inr \<lparr>pause_workspace_id = 1, pause_terminal_ids = [1], pause_recovery_id = None\<rparr>),
         Changed (Some Fs_ContainmentFailure), Terminated 1]"
proof -
  have "mutate_workspace (writing_filesystem (io_ok ''digest'')) pausing_runtime 1 None None
      (io_fail Fs_ContainmentFailure :: (bool, string) fs) ([], open_new, False)
      = (Inl (De_Filesystem Fs_ContainmentFailure), [1], open_new, True)"
    by (simp add: mutate_workspace_def writing_filesystem_def pausing_runtime_def idle_runtime_def
        chown_hook_def resume_guarded_def workspace_lock_def fs_call_def rt_call_def
        is_containment_failure_def io_defs)
  from mutation_resumes_or_contains [OF this] show ?thesis
    by (auto simp: mutate_workspace_def writing_filesystem_def pausing_runtime_def idle_runtime_def
        chown_hook_def resume_guarded_def workspace_lock_def fs_call_def rt_call_def unseen_def seen_def failure_of_def
        watched_directory_def watched_runtime_def watched_change_def idle_filesystem_def
        is_containment_failure_def io_defs)
qed

text \<open>
  The pause of a run that succeeds: it is the one that the run made, in the state in which the directory
  of the workspace had been opened, and the last call of the run was its resumption.
\<close>

lemma mutation_ends:
  assumes "mutate_workspace F R w pre post operation s = (Inr x, s')"
  obtains p e1 e where "rt_pause_workspace R w (snd (fs_require_directory F w ''.'' (snd s))) = (Inr p, e1)"
    and "rt_resume_workspace R p e = (Inr (), snd s')"
proof -
  obtain locks j v where s: "s = (locks, j, v)" by (cases s) auto
  obtain r1 j1 v1 where dir: "fs_require_directory F w ''.'' (j, v) = (r1, j1, v1)" by (metis surj_pair)
  define l1 where "l1 = (if w \<in> set locks then locks else locks @ [w])"
  obtain r2 j2 v2 where pause: "rt_pause_workspace R w (j1, v1) = (r2, j2, v2)" by (metis surj_pair)
  note open_defs = mutate_workspace_def io_bind_def fs_call_def rt_call_def workspace_lock_def
  obtain u p where ok: "r1 = Inr u" "r2 = Inr p"
    using assms dir pause by (cases r1; cases r2) (auto simp: open_defs s)
  obtain j3 v3 where pre: "chown_hook R w pre (l1, j2, v2) = (Inr (), l1, j3, v3)"
    by (rule chown_cases [of R w pre l1 j2 v2]) blast
  obtain change j4 v4 where op: "operation (j3, v3) = (change, j4, v4)" by (metis surj_pair)
  obtain j5 v5 where post: "chown_hook R w post (l1, j4, v4) = (Inr (), l1, j5, v5)"
    by (rule chown_cases [of R w post l1 j4 v4]) blast
  have "\<not> is_containment_failure (map_err De_Filesystem change)"
    using assms dir pause ok pre op
    by (auto simp: open_defs s io_try_def io_lift_def l1_def [symmetric] is_containment_failure_def
        split: sum.splits if_splits prod.splits)
  then have "io_bind (resume_guarded R p) (\<lambda>_. io_lift (map_err De_Filesystem change)) (l1, j5, v5) = (Inr x, s')"
    using assms dir pause ok pre op post by (simp add: open_defs s io_try_def io_lift_def l1_def [symmetric])
  then have "rt_resume_workspace R p (j5, v5) = (Inr (), snd s')"
    by (cases rule: resume_cases [of R p j5 v5 l1]) (auto simp: io_bind_def io_lift_def)
  moreover have "rt_pause_workspace R w (snd (fs_require_directory F w ''.'' (snd s))) = (Inr p, j2, v2)"
    using dir pause ok by (simp add: s)
  ultimately show thesis by (rule that [rotated])
qed

subsection \<open>What may be started\<close>

definition limits_within :: "ResourceLimits \<Rightarrow> ResourceLimits \<Rightarrow> bool" where
  "limits_within l c \<longleftrightarrow>
     cpu_millis l \<le> cpu_millis c \<and> memory_bytes l \<le> memory_bytes c
     \<and> writable_storage_bytes l \<le> writable_storage_bytes c \<and> pids l \<le> pids c
     \<and> execution_seconds l \<le> execution_seconds c"

definition start_permitted :: "DaemonConfig \<Rightarrow> ValidatedStart \<Rightarrow> bool" where
  "start_permitted config v \<longleftrightarrow>
     (let request = vs_request v
      in vs_terminal_id v \<noteq> 0 \<and> validate_command (req_command request) = Inr ()
         \<and> is_ok (validate_workspace_path (req_working_directory request))
         \<and> req_cols request \<in> {20..1000} \<and> req_rows request \<in> {5..500}
         \<and> limits_within (req_limits request) (resource_ceiling config)
         \<and> limits_within (req_limits request) HARD_RESOURCE_LIMITS
         \<and> resolve_network (network_policies config) (req_network_policy request)
             = Inr (vs_network_name v))"

lemma mutate_other_start:
  "mutate_workspace F (R\<lparr>rt_start := start'\<rparr>) w pre post op = mutate_workspace F R w pre post op"
proof -
  have "chown_hook (R\<lparr>rt_start := start'\<rparr>) w hook = chown_hook R w hook" for hook
    by (simp add: chown_hook_def split: option.split)
  moreover have "resume_guarded (R\<lparr>rt_start := start'\<rparr>) pause = resume_guarded R pause" for pause
    by (simp add: resume_guarded_def cong: sum.case_cong)
  ultimately show ?thesis by (simp add: mutate_workspace_def cong: if_cong)
qed

text \<open>
  Property: nothing is started beyond the configuration.  Whatever the operation, the dispatcher
  asks the runtime only for starts with a valid command, directory and size, with limits
  within the configured and the hard ones, on the network that the policy stands for: a
  runtime that does anything else with other starts makes no difference.
\<close>

theorem starts_stay_within_limits:
  assumes "\<And>v. start_permitted config v \<Longrightarrow> rt_start R v = start' v"
  shows "dispatch config X F (R\<lparr>rt_start := start'\<rparr>) operation = dispatch config X F R operation"
proof -
  have start: "dispatch_start config F (R\<lparr>rt_start := start'\<rparr>) t request s
      = dispatch_start config F R t request s" if "t \<noteq> 0" for t request s
    unfolding dispatch_start_def Let_def
  proof (intro io_bind_cong_inv, goal_cases)
    case (1 path s1 network s2 i1 s3 u s4 v s5 storage s6)
    then have "start_permitted config
        \<lparr>vs_terminal_id = t, vs_request = request\<lparr>req_limits := narrow_to (narrow_to (req_limits request)
           (resource_ceiling config)) HARD_RESOURCE_LIMITS\<rparr>, vs_workspace_storage = storage,
         vs_network_name = network\<rparr>"
      using that by (auto simp: start_permitted_def io_lift_def validate_start_def limits_within_def
          narrow_to_def min_le_iff_disj split: if_splits)
    from assms [OF this] show ?case by simp
  qed
  show ?thesis
    by (rule ext, cases operation)
       (auto simp: dispatch_def terminal_id_def mutate_other_start start dispatch_read_output_def io_result_def
         intro!: io_bind_cong_inv)
qed

definition sample_start :: TerminalStartRequest where
  "sample_start = \<lparr>req_workspace_id = 1, req_command = [''sh''], req_working_directory = ''.'',
     req_cols = 80, req_rows = 24, req_network_policy = Net_None, req_limits = HARD_RESOURCE_LIMITS\<rparr>"

theorem starts_stay_within_limits_witness:
  "dispatch sample_config sample_externals idle_filesystem
     (pausing_runtime\<lparr>rt_start :=
        \<lambda>v. if start_permitted sample_config v then io_ok () else io_fail Rt_SessionLimit\<rparr>) (Op_Start 1 sample_start)
   = dispatch sample_config sample_externals idle_filesystem
       (pausing_runtime\<lparr>rt_start := \<lambda>v. io_ok ()\<rparr>) (Op_Start 1 sample_start)"
  using starts_stay_within_limits [of sample_config "pausing_runtime\<lparr>rt_start := \<lambda>v. io_ok ()\<rparr>"
      "\<lambda>v. if start_permitted sample_config v then io_ok () else io_fail Rt_SessionLimit"
      sample_externals idle_filesystem "Op_Start 1 sample_start"]
  by simp

subsection \<open>The table of locks\<close>

definition locks_known :: "(uuid \<Rightarrow> 'w env \<Rightarrow> bool) \<Rightarrow> 'w dispatch_state \<Rightarrow> bool" where
  "locks_known present s \<longleftrightarrow> (\<forall>w \<in> set (fst s). present w (snd s))"

lemma locks_known_fs_call [keeps_rules]:
  "(\<And>w. keeps (present w) m) \<Longrightarrow> keeps (locks_known present) (fs_call m)"
  unfolding keeps_def locks_known_def fs_call_def by (auto split: prod.splits) (metis snd_conv)

lemma locks_known_rt_call [keeps_rules]:
  "(\<And>w. keeps (present w) m) \<Longrightarrow> keeps (locks_known present) (rt_call m)"
  unfolding keeps_def locks_known_def rt_call_def by (auto split: prod.splits) (metis snd_conv)

lemma locks_known_lock:
  assumes "\<And>v. keeps (present v) m" and "\<And>e x e'. m e = (Inr x, e') \<Longrightarrow> present w e'"
    and "\<And>x. keeps (locks_known present) (f x)"
  shows "keeps (locks_known present) (io_bind (fs_call m) (\<lambda>_. io_bind (workspace_lock w) f))"
proof (rule keepsI)
  fix s assume known: "locks_known present s"
  obtain locks e where s: "s = (locks, e)" by (cases s)
  obtain r e' where m: "m e = (r, e')" by (cases "m e")
  have known': "locks_known present (locks, e')"
    using keepsD [OF assms(1), of _ e] m known unfolding s locks_known_def by simp
  show "locks_known present (snd (io_bind (fs_call m) (\<lambda>_. io_bind (workspace_lock w) f) s))"
  proof (cases r)
    case (Inl err)
    with m known' show ?thesis by (simp add: s io_bind_def fs_call_def)
  next
    case (Inr x)
    have "locks_known present (if w \<in> set locks then locks else locks @ [w], e')"
      using known' assms(2) [OF m [unfolded Inr]] by (auto simp: locks_known_def)
    from keepsD [OF assms(3) this] show ?thesis
      using m Inr by (simp add: s io_bind_def fs_call_def workspace_lock_def)
  qed
qed

lemma locks_known_mutate:
  assumes "\<And>w. filesystem_keeps (present w) F" "\<And>w. runtime_keeps (present w) R"
    and "\<And>w p e u e'. fs_require_directory F w p e = (Inr u, e') \<Longrightarrow> present w e'"
    and "\<And>v. keeps (present v) op"
  shows "keeps (locks_known present) (mutate_workspace F R w pre post op)"
proof -
  note F = assms(1) [unfolded filesystem_keeps_def] and R = assms(2) [unfolded runtime_keeps_def]
  have hook: "keeps (locks_known present) (chown_hook R w hook)" for hook
    using R by (auto simp: chown_hook_def intro!: keeps_rules split: option.split)
  have resume: "keeps (locks_known present) (resume_guarded R pause)" for pause
    using R by (auto simp: resume_guarded_def intro!: keeps_rules split: sum.split)
  show ?thesis
    using assms(4) F R unfolding mutate_workspace_def
    by (intro locks_known_lock)
       (auto intro!: keeps_rules hook resume intro: assms(3))
qed

text \<open>
  Property: the table of workspace locks is bounded by the workspaces: when opening the storage
  or a directory of a workspace succeeds only if it is there, and workspaces do not disappear,
  the daemon has a lock only for workspaces that are there, whatever clients ask for.
\<close>

theorem locks_only_for_workspaces:
  assumes storage: "\<And>w e i e'. fs_workspace_storage F w e = (Inr i, e') \<Longrightarrow> present w e'"
    and directory: "\<And>w p e u e'. fs_require_directory F w p e = (Inr u, e') \<Longrightarrow> present w e'"
    and stay: "\<And>w. filesystem_keeps (present w) F" "\<And>w. runtime_keeps (present w) R"
    and known: "\<forall>w \<in> set locks. present w e"
    and run: "dispatch config X F R operation (locks, e) = (r, locks', e')"
  shows "\<forall>w \<in> set locks'. present w e'"
proof -
  note F = stay(1) [unfolded filesystem_keeps_def] and R = stay(2) [unfolded runtime_keeps_def]
  have start: "keeps (locks_known present) (dispatch_start config F R t request)" for t request
    unfolding dispatch_start_def Let_def
    by (rule keeps_bind, rule keeps_lift, rule keeps_bind, rule keeps_lift, rule locks_known_lock)
       (use F R in \<open>auto intro!: keeps_rules intro: storage\<close>)
  have reading: "keeps (locks_known present) (dispatch_read_output X R t a m d)" for t a m d
    using R unfolding dispatch_read_output_def by (auto intro!: keeps_rules)
  note mutate = locks_known_mutate [of present F R, OF stay directory]
  have "keeps (locks_known present) (dispatch config X F R operation)"
    using F R unfolding dispatch_def
    by (cases operation) (auto intro!: keeps_rules start reading mutate)
  from keepsD [OF this, of "(locks, e)"] known run show ?thesis by (simp add: locks_known_def)
qed

text \<open>Workspaces 1 and 2 are there; a directory of another one cannot be opened.\<close>

definition two_workspaces :: "unit filesystem" where
  "two_workspaces = idle_filesystem
     \<lparr>fs_require_directory := \<lambda>w _. if w \<in> {1, 2} then io_ok () else io_fail Fs_WorkspaceNotFound\<rparr>"

theorem locks_only_for_workspaces_witness:
  "set (fst (snd (dispatch sample_config sample_externals two_workspaces idle_runtime
       (Op_FsMkdir 5 ''a'') ([2], open_new, ())))) \<subseteq> {1, 2}"
proof -
  let ?run = "dispatch sample_config sample_externals two_workspaces idle_runtime
       (Op_FsMkdir 5 ''a'') ([2], open_new, ())"
  obtain r locks' e' where run: "?run = (r, locks', e')" by (metis surj_pair)
  have stay: "filesystem_keeps (\<lambda>_. w \<in> {1, 2}) two_workspaces" for w :: uuid
    by (auto simp: filesystem_keeps_def two_workspaces_def idle_filesystem_def keeps_def)
  have "\<forall>w \<in> set locks'. w \<in> {1, 2}"
  proof (rule locks_only_for_workspaces [OF _ _ stay _ _ run])
    show "w \<in> {1, 2}" if "fs_workspace_storage two_workspaces w e = (Inr i, f)" for w e i f
      using that by (simp add: two_workspaces_def idle_filesystem_def io_fail_def)
    show "w \<in> {1, 2}" if "fs_require_directory two_workspaces w p e = (Inr u, f)" for w p e u f
      using that by (auto simp: two_workspaces_def io_fail_def split: if_splits)
  qed simp_all
  then show ?thesis unfolding run by auto
qed

end
