(* ===== verification/Daemon_Tasks.thy ===== *)
theory Daemon_Tasks
  imports Daemon
begin

section \<open>Requests that run at the same time\<close>

text \<open>
  Each line is handled by a task of its own (\<open>handle_line\<close> in
  \<open>crates/gobrowse-sandboxd/src/daemon.rs\<close>); the tasks share the replay cache and the journal.
  A task is where its code stands: one step is the code up to the next operation on shared
  state, each of which holds a lock and is atomic.  What the dispatcher of an operation does
  to the journal is free, except that only \<open>handle_line\<close> touches the table of mutations, and so
  is its result.  A task may be dropped where it awaits.
\<close>

datatype task =
    T_Received string
  | T_Plain RequestEnvelope
  | T_Admitting RequestEnvelope string
  | T_Held RequestEnvelope string nat
  | T_Rechecking RequestEnvelope string nat bool
  | T_Waiting RequestEnvelope string nat
  | T_Granted RequestEnvelope string
  | T_Executing RequestEnvelope string
  | T_Recording RequestEnvelope string ResponseEnvelope
  | T_Publishing RequestEnvelope string ResponseEnvelope
  | T_Done ResponseEnvelope
  | T_Dropped

record system =
  s_tasks :: "task list"
  s_cache :: ReplayCache
  s_journal :: journal

datatype action =
    A_Arrive string
  | A_Step nat
  | A_Finish nat "DaemonError + SandboxResult"
  | A_Cancel nat
  | A_Runtime journal_op
  | A_Restart

definition response_of :: "uuid \<Rightarrow> DaemonError + SandboxResult \<Rightarrow> ResponseEnvelope" where
  "response_of request_id result =
     (case result of
        Inr res \<Rightarrow> \<lparr>resp_version = SANDBOX_PROTOCOL_VERSION, resp_request_id = request_id,
                    resp_result = Inr res\<rparr>
      | Inl error \<Rightarrow> error_response request_id error)"

text \<open>\<open>notify_waiters\<close>: the enabled futures of one notification.\<close>

fun wake :: "nat \<Rightarrow> task \<Rightarrow> task" where
  "wake n (T_Waiting request fp m) =
     (if m = n then T_Admitting request fp else T_Waiting request fp m)"
| "wake n (T_Rechecking request fp m notified) = T_Rechecking request fp m (notified \<or> m = n)"
| "wake n t = t"

definition publish :: "system \<Rightarrow> RequestEnvelope \<Rightarrow> string \<Rightarrow> ResponseEnvelope \<Rightarrow> system" where
  "publish s request fp response =
     (case complete_request (s_cache s) (env_request_id request) fp response of
        (None, cache) \<Rightarrow> s\<lparr>s_cache := cache\<rparr>
      | (Some n, cache) \<Rightarrow> s\<lparr>s_cache := cache, s_tasks := map (wake n) (s_tasks s)\<rparr>)"

definition set_task :: "nat \<Rightarrow> task \<Rightarrow> system \<Rightarrow> system" where
  "set_task i t s = s\<lparr>s_tasks := (s_tasks s)[i := t]\<rparr>"

text \<open>From the checks to the replay loop, or to the dispatcher.\<close>

definition route :: "externals \<Rightarrow> string \<Rightarrow> string \<Rightarrow> task" where
  "route X expected line =
     (case admit X expected line of
        Inl response \<Rightarrow> T_Done response
      | Inr request \<Rightarrow>
          if terminal_mutation (env_operation request) = None
             \<and> \<not> is_non_idempotent (env_operation request)
          then T_Plain request
          else case op_fingerprint X (env_operation request) of
                 None \<Rightarrow> T_Done (error_response (env_request_id request) De_InvalidRequest)
               | Some fp \<Rightarrow> T_Admitting request fp)"

text \<open>The head of the loop; and the second look at the cache before waiting.\<close>

definition admitted :: "RequestEnvelope \<Rightarrow> string \<Rightarrow> ReplayDecision \<Rightarrow> task" where
  "admitted request fp dec =
     (case dec of
        Execute \<Rightarrow> T_Granted request fp
      | Cached response \<Rightarrow> T_Done response
      | Conflict \<Rightarrow> T_Done (error_response (env_request_id request) De_Conflict)
      | Full \<Rightarrow> T_Done (error_response (env_request_id request) De_LimitExceeded)
      | Wait n \<Rightarrow> T_Held request fp n)"

definition rechecked :: "RequestEnvelope \<Rightarrow> string \<Rightarrow> nat \<Rightarrow> bool \<Rightarrow> ReplayDecision \<Rightarrow> task" where
  "rechecked request fp n notified dec =
     (case dec of
        Wait _ \<Rightarrow> if notified then T_Admitting request fp else T_Waiting request fp n
      | _ \<Rightarrow> T_Admitting request fp)"

text \<open>What the journal decides for a granted operation on a terminal.\<close>

definition granted :: "RequestEnvelope \<Rightarrow> string \<Rightarrow> JournalError + MutationDecision \<Rightarrow> task" where
  "granted request fp dec =
     (case dec of
        Inr Mutation_Execute \<Rightarrow> T_Executing request fp
      | Inr (Mutation_Cached response) \<Rightarrow> T_Publishing request fp response
      | Inl e \<Rightarrow> T_Publishing request fp (journal_refusal (env_request_id request) e))"

definition task_step :: "externals \<Rightarrow> string \<Rightarrow> system \<Rightarrow> nat \<Rightarrow> system" where
  "task_step X expected s i =
     (if i \<ge> length (s_tasks s) then s
      else case s_tasks s ! i of
        T_Received line \<Rightarrow> set_task i (route X expected line) s
      | T_Admitting request fp \<Rightarrow>
          (case begin_request (s_cache s) (env_request_id request) fp of
             (dec, cache) \<Rightarrow> set_task i (admitted request fp dec) (s\<lparr>s_cache := cache\<rparr>))
      | T_Held request fp n \<Rightarrow> set_task i (T_Rechecking request fp n False) s
      | T_Rechecking request fp n notified \<Rightarrow>
          (case begin_request (s_cache s) (env_request_id request) fp of
             (dec, cache) \<Rightarrow>
               set_task i (rechecked request fp n notified dec) (s\<lparr>s_cache := cache\<rparr>))
      | T_Granted request fp \<Rightarrow>
          (case terminal_mutation (env_operation request) of
             None \<Rightarrow> set_task i (T_Executing request fp) s
           | Some (t, kind) \<Rightarrow>
               (case begin_mutation (decode (response_codec X)) (s_journal s)
                       (env_request_id request) t kind fp of
                  (dec, j) \<Rightarrow> set_task i (granted request fp dec) (s\<lparr>s_journal := j\<rparr>)))
      | T_Recording request fp response \<Rightarrow>
          (case complete_mutation (encode (response_codec X)) (s_journal s)
                  (env_request_id request) response of
             (res, j) \<Rightarrow>
               set_task i (T_Publishing request fp
                   (case res of
                      Inl _ \<Rightarrow> error_response (env_request_id request) De_OutcomeUnknown
                    | Inr _ \<Rightarrow> response)) (s\<lparr>s_journal := j\<rparr>))
      | T_Publishing request fp response \<Rightarrow>
          set_task i (T_Done response) (publish s request fp response)
      | _ \<Rightarrow> s)"

definition finish_step :: "system \<Rightarrow> nat \<Rightarrow> DaemonError + SandboxResult \<Rightarrow> system" where
  "finish_step s i result =
     (if i \<ge> length (s_tasks s) then s
      else case s_tasks s ! i of
        T_Plain request \<Rightarrow>
          set_task i (T_Done (response_of (env_request_id request) result)) s
      | T_Executing request fp \<Rightarrow>
          (let response = response_of (env_request_id request) result
           in set_task i (if terminal_mutation (env_operation request) = None
                          then T_Publishing request fp response
                          else T_Recording request fp response) s)
      | _ \<Rightarrow> s)"

text \<open>A dropped execution completes its replay entry with the fixed timeout answer.\<close>

definition cancel_step :: "system \<Rightarrow> nat \<Rightarrow> system" where
  "cancel_step s i =
     (if i \<ge> length (s_tasks s) then s
      else case s_tasks s ! i of
        T_Plain _ \<Rightarrow> set_task i T_Dropped s
      | T_Waiting _ _ _ \<Rightarrow> set_task i T_Dropped s
      | T_Executing request fp \<Rightarrow>
          set_task i T_Dropped
            (publish s request fp (error_response (env_request_id request) De_OperationTimeout))
      | _ \<Rightarrow> s)"

fun quiet_op :: "journal_op \<Rightarrow> bool" where
  "quiet_op (Do_BeginMutation _ _ _ _) = False"
| "quiet_op (Do_CompleteMutation _ _) = False"
| "quiet_op Do_Restart = False"
| "quiet_op _ = True"

text \<open>A restart: the process and its cache are gone, and the journal is reconciled.\<close>

definition restart_step :: "system \<Rightarrow> system" where
  "restart_step s =
     \<lparr>s_tasks = [],
      s_cache = (s_cache s)\<lparr>entries := [], order := []\<rparr>,
      s_journal = snd (reconcile_restart (s_journal s))\<rparr>"

fun system_step :: "externals \<Rightarrow> string \<Rightarrow> system \<Rightarrow> action \<Rightarrow> system" where
  "system_step X expected s (A_Arrive line) = s\<lparr>s_tasks := s_tasks s @ [T_Received line]\<rparr>"
| "system_step X expected s (A_Step i) = task_step X expected s i"
| "system_step X expected s (A_Finish i result) = finish_step s i result"
| "system_step X expected s (A_Cancel i) = cancel_step s i"
| "system_step X expected s (A_Runtime op) =
     (if quiet_op op then s\<lparr>s_journal := journal_step (response_codec X) (s_journal s) op\<rparr> else s)"
| "system_step X expected s A_Restart = restart_step s"

subsection \<open>Operations on terminals are executed at most once\<close>

text \<open>The request whose dispatcher an action starts.\<close>

fun dispatches :: "externals \<Rightarrow> string \<Rightarrow> system \<Rightarrow> action \<Rightarrow> uuid option" where
  "dispatches X expected s (A_Step i) =
     (case task_step X expected s i of s' \<Rightarrow>
        if i < length (s_tasks s) then
          (case (s_tasks s ! i, s_tasks s' ! i) of
             (T_Granted request _, T_Executing _ _) \<Rightarrow>
               if terminal_mutation (env_operation request) \<noteq> None
               then Some (env_request_id request) else None
           | _ \<Rightarrow> None)
        else None)"
| "dispatches X expected s _ = None"

lemma set_task_fields [simp]:
  "s_cache (set_task i t s) = s_cache s" "s_journal (set_task i t s) = s_journal s"
  "s_tasks (set_task i t s) = (s_tasks s)[i := t]"
  by (simp_all add: set_task_def)

lemma publish_journal [simp]: "s_journal (publish s request fp response) = s_journal s"
  by (simp add: publish_def split: prod.split option.split)

lemma publish_length [simp]: "length (s_tasks (publish s request fp response)) = length (s_tasks s)"
  by (simp add: publish_def split: prod.split option.split)

lemma finish_journal [simp]: "s_journal (finish_step s i result) = s_journal s"
  by (simp add: finish_step_def Let_def split: task.split)

lemma cancel_journal [simp]: "s_journal (cancel_step s i) = s_journal s"
  by (simp add: cancel_step_def split: task.split)

lemma quiet_mutations: "quiet_op op \<Longrightarrow> mutations (journal_step c j op) = mutations j"
  unfolding mutations_journal_step by (cases op) auto

lemma mutation_recorded:
  assumes "map_of (mutations (s_journal s)) rid \<noteq> None"
  shows "map_of (mutations (s_journal (system_step X expected s a))) rid \<noteq> None"
proof (cases a)
  case (A_Step i)
  have started: "map_of (mutations (snd (begin_mutation dec (s_journal s) k t kind fp))) rid \<noteq> None"
    for dec k t kind fp
    using assms by (auto simp: begin_mutation_def map_add_def split: option.split)
  have complete: "map_of (mutations (snd (complete_mutation enc (s_journal s) k resp))) rid \<noteq> None"
    for enc k resp
    using assms by (auto simp: complete_mutation_def map_of_update_key split: option.split)
  show ?thesis
    using started complete assms unfolding A_Step
    by (auto simp: task_step_def split: task.split prod.split option.split)
       (metis option.distinct(1) snd_conv)+
next
  case (A_Runtime op)
  with assms show ?thesis by (simp add: quiet_mutations)
qed (use assms in \<open>simp_all add: restart_step_def reconcile_restart_def\<close>)

lemma dispatch_grants:
  assumes "dispatches X expected s a = Some rid"
  shows "map_of (mutations (s_journal s)) rid = None
     \<and> map_of (mutations (s_journal (system_step X expected s a))) rid \<noteq> None"
proof -
  obtain i request fp where a: "a = A_Step i" and i: "i < length (s_tasks s)"
    and t: "s_tasks s ! i = T_Granted request fp" and rid: "rid = env_request_id request"
    and tm: "terminal_mutation (env_operation request) \<noteq> None"
    and ex: "\<exists>r f. s_tasks (task_step X expected s i) ! i = T_Executing r f"
    using assms by (cases a) (auto split: task.splits if_splits)
  obtain t' kind where k: "terminal_mutation (env_operation request) = Some (t', kind)" using tm by auto
  obtain dec j where b: "begin_mutation (decode (response_codec X)) (s_journal s) rid t' kind fp = (dec, j)"
    by (metis surj_pair)
  have step: "task_step X expected s i = set_task i (granted request fp dec) (s\<lparr>s_journal := j\<rparr>)"
    using i t k b by (simp add: task_step_def rid)
  with ex i have "dec = Inr Mutation_Execute"
    by (auto simp: granted_def split: sum.splits MutationDecision.splits)
  with b show ?thesis
    unfolding a system_step.simps step
    by (auto simp: begin_mutation_def map_add_def split: option.splits if_splits)
qed

interpretation executions: once_ledger "system_step X expected" "dispatches X expected"
  "\<lambda>s rid. map_of (mutations (s_journal s)) rid \<noteq> None" for X expected
  by unfold_locales (auto dest: dispatch_grants simp: mutation_recorded simp del: system_step.simps)

text \<open>
  Property C2: whatever the interleaving of any number of tasks, and across time-outs, dropped
  tasks, evictions from the replay cache and restarts, the operation of a request on a terminal
  is handed to the dispatcher at most once.
\<close>

theorem terminal_operations_run_once:
  "grant_count (system_step X expected) (dispatches X expected) rid s acts \<le> 1"
  by (rule executions.granted_at_most_once)

subsection \<open>One executor for each request\<close>

text \<open>
  What matters of the tasks for the replay cache: which one is executing which request.  The
  moves of this specification are to find nothing, to look at the cache, to be granted a
  request by it, to complete the request one was granted, and to restart.
\<close>

fun holds :: "task \<Rightarrow> (uuid \<times> string) option" where
  "holds (T_Granted request fp) = Some (env_request_id request, fp)"
| "holds (T_Executing request fp) = Some (env_request_id request, fp)"
| "holds (T_Recording request fp _) = Some (env_request_id request, fp)"
| "holds (T_Publishing request fp _) = Some (env_request_id request, fp)"
| "holds _ = None"

type_synonym executors = "(uuid \<times> string) option list \<times> ReplayCache"

inductive live_move :: "executors \<Rightarrow> executors \<Rightarrow> bool" where
  move_stay: "live_move (hs, c) (hs, c)"
| move_arrive: "live_move (hs, c) (hs @ [None], c)"
| move_look: "live_move (hs, c) (hs, snd (begin_request c rid fp))"
| move_grant: "i < length hs \<Longrightarrow> hs ! i = None \<Longrightarrow> begin_request c rid fp = (Execute, c')
     \<Longrightarrow> live_move (hs, c) (hs[i := Some (rid, fp)], c')"
| move_release: "i < length hs \<Longrightarrow> hs ! i = Some (rid, fp)
     \<Longrightarrow> live_move (hs, c) (hs[i := None], snd (complete_request c rid fp response))"

inductive exec_move :: "executors \<Rightarrow> executors \<Rightarrow> bool" where
  move_live: "live_move x y \<Longrightarrow> exec_move x y"
| move_restart: "exec_move (hs, c) ([], c\<lparr>entries := [], order := []\<rparr>)"

definition executors_of :: "system \<Rightarrow> executors" where
  "executors_of s = (map holds (s_tasks s), s_cache s)"

lemma holds_wake [simp]: "holds (wake n t) = holds t"
  by (cases t) auto

lemma executors_publish:
  "executors_of (publish s request fp response) =
     (map holds (s_tasks s), snd (complete_request (s_cache s) (env_request_id request) fp response))"
  by (simp add: executors_of_def publish_def comp_def split: prod.split option.split)

lemma executors_set:
  "executors_of (set_task i t s) = ((fst (executors_of s))[i := holds t], s_cache s)"
  by (simp add: executors_of_def map_update)

lemma same_holds: "i < length (s_tasks s) \<Longrightarrow> holds t = holds (s_tasks s ! i)
    \<Longrightarrow> (map holds (s_tasks s))[i := holds t] = map holds (s_tasks s)"
  by (metis length_map list_update_id nth_map)

lemma holds_granted [simp]: "holds (granted request fp dec) = Some (env_request_id request, fp)"
  by (auto simp: granted_def split: sum.split MutationDecision.split)

lemma holds_rechecked [simp]: "holds (rechecked request fp n b dec) = None"
  by (auto simp: rechecked_def split: ReplayDecision.split)

lemma holds_admitted:
  "holds (admitted request fp dec) =
     (if dec = Execute then Some (env_request_id request, fp) else None)"
  by (auto simp: admitted_def split: ReplayDecision.split)

lemma holds_route [simp]: "holds (route X expected line) = None"
  by (auto simp: route_def split: sum.split option.split)

lemma keep_move:
  assumes "i < length (s_tasks s)" and "holds t = holds (s_tasks s ! i)"
  shows "live_move (executors_of s) (executors_of (set_task i t s))"
    and "live_move (executors_of s) (executors_of (set_task i t (s\<lparr>s_journal := j\<rparr>)))"
  using assms by (simp_all add: executors_of_def map_update same_holds move_stay)

lemma no_move: "live_move x x"
  by (cases x) (simp add: move_stay)

lemma release_move:
  assumes "i < length (s_tasks s)" and "holds (s_tasks s ! i) = Some (env_request_id request, fp)"
    and "holds t = None"
  shows "live_move (executors_of s) (executors_of (set_task i t (publish s request fp response)))"
  unfolding executors_set executors_publish
  using move_release [of i "map holds (s_tasks s)" "env_request_id request" fp "s_cache s" response]
    assms executors_publish [of s request fp response]
  by (simp add: executors_of_def)

lemma live_moves:
  "a \<noteq> A_Restart \<Longrightarrow> live_move (executors_of s) (executors_of (system_step X expected s a))"
proof (cases a)
  case (A_Arrive line)
  then show ?thesis by (simp add: executors_of_def move_arrive)
next
  case (A_Step i)
  show ?thesis
  proof (cases "i < length (s_tasks s)")
    case True
    note steps = A_Step system_step.simps task_step_def
    note keep = keep_move [OF True]
    show ?thesis
    proof (cases "s_tasks s ! i")
      case (T_Admitting request fp)
      obtain dec c where b: "begin_request (s_cache s) (env_request_id request) fp = (dec, c)"
        by (metis surj_pair)
      have "live_move (executors_of s)
          (executors_of (set_task i (admitted request fp dec) (s\<lparr>s_cache := c\<rparr>)))"
      proof (cases "dec = Execute")
        case True
        with move_grant [of i "map holds (s_tasks s)" "s_cache s"] \<open>i < length (s_tasks s)\<close> b
        show ?thesis by (simp add: executors_of_def map_update holds_admitted T_Admitting)
      next
        case False
        with move_look [of "map holds (s_tasks s)" "s_cache s" "env_request_id request" fp] True b
          same_holds [OF True, of "admitted request fp dec"]
        show ?thesis by (simp add: executors_of_def map_update holds_admitted T_Admitting)
      qed
      with True b show ?thesis by (simp add: steps T_Admitting)
    next
      case (T_Rechecking request fp n notified)
      obtain dec c where b: "begin_request (s_cache s) (env_request_id request) fp = (dec, c)"
        by (metis surj_pair)
      have "live_move (executors_of s)
          (executors_of (set_task i (rechecked request fp n notified dec) (s\<lparr>s_cache := c\<rparr>)))"
        using move_look [of "map holds (s_tasks s)" "s_cache s" "env_request_id request" fp] b
          same_holds [OF True, of "rechecked request fp n notified dec"]
        by (simp add: executors_of_def map_update T_Rechecking)
      with True b show ?thesis by (simp add: steps T_Rechecking)
    next
      case (T_Publishing request fp response)
      with True show ?thesis
        by (simp add: steps release_move)
    qed (use True in \<open>auto simp: steps no_move intro!: keep split: option.split prod.split\<close>)
  qed (simp add: A_Step task_step_def no_move)
next
  case (A_Finish i result)
  show ?thesis
  proof (cases "i < length (s_tasks s)")
    case True
    then show ?thesis
      by (cases "s_tasks s ! i")
         (simp_all add: A_Finish finish_step_def Let_def no_move keep_move)
  qed (simp add: A_Finish finish_step_def no_move)
next
  case (A_Cancel i)
  show ?thesis
  proof (cases "i < length (s_tasks s)")
    case True
    then show ?thesis
      by (cases "s_tasks s ! i")
         (simp_all add: A_Cancel cancel_step_def no_move keep_move release_move)
  qed (simp add: A_Cancel cancel_step_def no_move)
next
  case (A_Runtime op)
  then show ?thesis by (simp add: executors_of_def no_move)
qed simp

lemma system_moves:
  "exec_move (executors_of s) (executors_of (system_step X expected s a))"
proof (cases "a = A_Restart")
  case True
  then show ?thesis by (simp add: executors_of_def restart_step_def move_restart)
qed (rule move_live [OF live_moves])

text \<open>
  Property C3: the tasks and their cache, with all they do, are an implementation of this
  specification: every action of the system is one of its moves.
\<close>

theorem tasks_refine_executors:
  "exec_move (executors_of s) (executors_of (system_step X expected s a))"
  by (rule system_moves)

definition executors_inv :: "executors \<Rightarrow> bool" where
  "executors_inv x =
     (case x of (hs, c) \<Rightarrow>
       replay_inv c
       \<and> (\<forall>i < length hs. \<forall>rid fp. hs ! i = Some (rid, fp) \<longrightarrow>
            (\<exists>n. map_of (entries c) rid = Some \<lparr>entry_fingerprint = fp, entry_state = Pending n\<rparr>))
       \<and> (\<forall>i < length hs. \<forall>j < length hs. \<forall>rid fp gp.
            hs ! i = Some (rid, fp) \<longrightarrow> hs ! j = Some (rid, gp) \<longrightarrow> i = j))"

lemma pending_stays:
  assumes "replay_inv c"
    and "map_of (entries c) rid = Some \<lparr>entry_fingerprint = fp, entry_state = Pending n\<rparr>"
  shows "map_of (entries (snd (begin_request c k f))) rid
     = Some \<lparr>entry_fingerprint = fp, entry_state = Pending n\<rparr>"
  using begin_request_keeps [OF assms, of k f] assms(2) by (auto simp: is_complete_id_def)

lemma live_move_inv: "live_move x y \<Longrightarrow> executors_inv x \<Longrightarrow> executors_inv y"
proof (induction rule: live_move.induct)
  case (move_arrive hs c)
  then show ?case by (auto simp: executors_inv_def nth_append less_Suc_eq)
next
  case (move_look hs c rid fp)
  then have "replay_inv c" by (simp add: executors_inv_def)
  with move_look show ?case
    by (fastforce simp: executors_inv_def begin_inv dest: pending_stays [of c _ _ _ rid fp])
next
  case (move_grant i hs c rid fp c')
  have inv: "replay_inv c" and own: "\<And>j k f. j < length hs \<Longrightarrow> hs ! j = Some (k, f) \<Longrightarrow>
      \<exists>n. map_of (entries c) k = Some \<lparr>entry_fingerprint = f, entry_state = Pending n\<rparr>"
    using move_grant.prems by (auto simp: executors_inv_def)
  have none: "map_of (entries c) rid = None"
    using move_grant.hyps(3) by (auto simp: begin_request_def split: option.splits if_splits ReplayState.splits)
  have "replay_inv c'" using begin_inv [OF inv, of rid fp] move_grant.hyps(3) by simp
  moreover have "\<exists>n. map_of (entries c') k = Some \<lparr>entry_fingerprint = f, entry_state = Pending n\<rparr>"
    if "j < length hs" "hs[i := Some (rid, fp)] ! j = Some (k, f)" for j k f
  proof (cases "j = i")
    case True
    with that begin_execute [OF inv move_grant.hyps(3)] show ?thesis by auto
  next
    case False
    with that own obtain n where "map_of (entries c) k
        = Some \<lparr>entry_fingerprint = f, entry_state = Pending n\<rparr>" by fastforce
    from pending_stays [OF inv this, of rid fp] move_grant.hyps(3) show ?thesis by simp
  qed
  moreover have "j = k" if "j < length hs" "k < length hs"
    "hs[i := Some (rid, fp)] ! j = Some (r, f)" "hs[i := Some (rid, fp)] ! k = Some (r, g)" for j k r f g
  proof -
    have "hs ! l \<noteq> Some (rid, h)" if "l < length hs" for l h
      using own [OF that] none by fastforce
    with that move_grant.prems move_grant.hyps(1) show ?thesis
      unfolding executors_inv_def by (auto simp: nth_list_update split: if_splits)
  qed
  ultimately show ?case by (auto simp: executors_inv_def)
next
  case (move_release i hs rid fp c response)
  have inv: "replay_inv c" using move_release.prems by (simp add: executors_inv_def)
  have "\<exists>n. map_of (entries (snd (complete_request c rid fp response))) k
      = Some \<lparr>entry_fingerprint = f, entry_state = Pending n\<rparr>"
    if j: "j < length hs" "hs[i := None] ! j = Some (k, f)" for j k f
  proof -
    have "j \<noteq> i" "hs ! j = Some (k, f)"
      using j move_release.hyps(1) by (auto simp: nth_list_update split: if_splits)
    with move_release j(1) have "k \<noteq> rid"
      unfolding executors_inv_def by blast
    moreover obtain n where "map_of (entries c) k
        = Some \<lparr>entry_fingerprint = f, entry_state = Pending n\<rparr>"
      using move_release.prems j(1) \<open>hs ! j = Some (k, f)\<close>
      unfolding executors_inv_def prod.case by blast
    ultimately show ?thesis by (intro exI [of _ n] complete_other) auto
  qed
  moreover have "j = k" if "j < length hs" "k < length hs" "hs[i := None] ! j = Some (r, f)"
      "hs[i := None] ! k = Some (r, g)" for j k r f g
  proof -
    have "hs ! j = Some (r, f)" "hs ! k = Some (r, g)"
      using that move_release.hyps(1) by (auto simp: nth_list_update split: if_splits)
    with that(1,2) move_release.prems show ?thesis unfolding executors_inv_def prod.case by blast
  qed
  ultimately show ?case
    using complete_inv [OF inv] unfolding executors_inv_def prod.case length_list_update by blast
qed

lemma exec_move_inv: "exec_move x y \<Longrightarrow> executors_inv x \<Longrightarrow> executors_inv y"
proof (induction rule: exec_move.induct)
  case (move_live x y)
  then show ?case by (rule live_move_inv)
next
  case (move_restart hs c)
  then show ?case by (simp add: executors_inv_def replay_inv_def)
qed

definition system_ok :: "system \<Rightarrow> bool" where
  "system_ok s \<longleftrightarrow> executors_inv (executors_of s)"

interpretation running: op_invariant "system_step X expected" system_ok for X expected
  unfolding system_ok_def by unfold_locales (rule exec_move_inv [OF system_moves])

definition new_system :: "nat \<Rightarrow> journal \<Rightarrow> system" where
  "new_system cap j = \<lparr>s_tasks = [], s_cache = \<lparr>capacity = cap, entries = [], order = [], next_notify = 0\<rparr>,
     s_journal = j\<rparr>"

lemma new_system_ok: "0 < cap \<Longrightarrow> system_ok (new_system cap j)"
  by (simp add: system_ok_def executors_of_def executors_inv_def new_system_def replay_inv_def)

text \<open>
  Property C4: a request that must not run twice has one executor: in every reachable state, two
  tasks that are anywhere between the grant of a request and its published answer, the
  dispatcher included, and that handle the same request id are the same task, and the cache
  makes all others wait for it.
\<close>

theorem one_executor_per_request:
  assumes "0 < cap" and "s = run_ops (system_step X expected) (new_system cap j) acts"
    and "i < length (s_tasks s)" and "k < length (s_tasks s)"
    and "holds (s_tasks s ! i) = Some (rid, fp)" and "holds (s_tasks s ! k) = Some (rid, fp')"
  shows "i = k \<and> (\<exists>n. fst (begin_request (s_cache s) rid fp) = Wait n)"
proof -
  have "executors_inv (map holds (s_tasks s), s_cache s)"
    using running.run_keeps_inv [OF new_system_ok [OF assms(1)]] assms(2)
    by (simp add: system_ok_def executors_of_def)
  then have "i = k" and "\<exists>n. map_of (entries (s_cache s)) rid
      = Some \<lparr>entry_fingerprint = fp, entry_state = Pending n\<rparr>"
    using assms(3-6) by (auto simp: executors_inv_def)
  then show ?thesis by (auto simp: begin_request_def)
qed

text \<open>
  A library that knows the lines \<open>a\<close> and \<open>b\<close>: two requests that make a directory, with the ids
  1 and 2.
\<close>

definition mkdir_request :: "uuid \<Rightarrow> RequestEnvelope" where
  "mkdir_request rid = \<lparr>env_version = 2, env_request_id = rid, env_token = ''t'',
     env_operation = Op_FsMkdir 9 ''d''\<rparr>"

definition two_lines :: externals where
  "two_lines =
     \<lparr>parse_request = \<lambda>line. Some (mkdir_request (if line = ''a'' then 1 else 2)),
      parse_value = \<lambda>_. Some (JObject [(''operation'', JObject [(''op'', JString ''fs_mkdir'')])]),
      op_to_vec = \<lambda>_. Some ''op'', response_codec = \<lparr>encode = \<lambda>_. None, decode = \<lambda>_. None\<rparr>,
      sha256 = \<lambda>s. s, base64_encode = \<lambda>s. s, base64_decode = \<lambda>s. Some s\<rparr>"

lemma route_two_lines:
  "route two_lines ''t'' ''a'' = T_Admitting (mkdir_request 1) ''op''"
  "route two_lines ''t'' ''b'' = T_Admitting (mkdir_request 2) ''op''"
  by (simp_all add: route_def admit_def two_lines_def mkdir_request_def valid_wire_shape_def
      allowed_fields_def verify_token_def MAX_PROTOCOL_LINE_BYTES_def MAX_TOKEN_BYTES_def
      SANDBOX_PROTOCOL_VERSION_def terminal_mutation_def is_non_idempotent_def op_fingerprint_def)

lemma mkdir_fields [simp]:
  "env_request_id (mkdir_request rid) = rid"
  "terminal_mutation (env_operation (mkdir_request rid)) = None"
  by (simp_all add: mkdir_request_def terminal_mutation_def)

lemmas run_defs =
  task_step_def finish_step_def set_task_def admitted_def rechecked_def publish_def Let_def
  new_system_def route_two_lines begin_request_def complete_request_def insert_pending_def evict_def
  is_complete_id_def remove_key_def set_entry_def

theorem one_executor_per_request_witness:
  "\<exists>n. fst (begin_request (s_cache (run_ops (system_step two_lines ''t'') (new_system 1 open_new)
      [A_Arrive ''a'', A_Step 0, A_Step 0, A_Step 0])) 1 ''op'') = Wait n"
proof -
  let ?s = "run_ops (system_step two_lines ''t'') (new_system 1 open_new)
      [A_Arrive ''a'', A_Step 0, A_Step 0, A_Step 0]"
  have "s_tasks ?s = [T_Executing (mkdir_request 1) ''op'']" by (simp add: run_defs)
  then show ?thesis
    by (intro one_executor_per_request [THEN conjunct2, OF _ refl, of 1 0 _ _ _ _ 0]) simp_all
qed

subsection \<open>A lost execution\<close>

text \<open>
  A repetition that finds its request pending looks at the cache a second time before it
  waits.  When the request has been completed and evicted in between, this second look is
  granted the execution, and the code drops the grant.
\<close>

definition lost_execution :: "action list" where
  "lost_execution =
     [A_Arrive ''a'', A_Step 0, A_Step 0, A_Step 0, A_Arrive ''a'', A_Step 1, A_Step 1, A_Step 1,
      A_Finish 0 (Inr Res_FsCreated), A_Step 0,
      A_Arrive ''b'', A_Step 2, A_Step 2, A_Step 2, A_Finish 2 (Inr Res_FsCreated), A_Step 2,
      A_Step 1, A_Step 1, A_Step 1, A_Step 1]"

text \<open>A pending entry that no task holds, and whose notification belongs to no other entry.\<close>

definition orphan :: "uuid \<Rightarrow> string \<Rightarrow> nat \<Rightarrow> executors \<Rightarrow> bool" where
  "orphan rid fp n x =
     (case x of (hs, c) \<Rightarrow>
       replay_inv c \<and> n < next_notify c
       \<and> map_of (entries c) rid = Some \<lparr>entry_fingerprint = fp, entry_state = Pending n\<rparr>
       \<and> (\<forall>i < length hs. \<forall>f. hs ! i \<noteq> Some (rid, f))
       \<and> (\<forall>k e. map_of (entries c) k = Some e \<longrightarrow> entry_state e = Pending n \<longrightarrow> k = rid))"

lemma orphanI:
  assumes "replay_inv c" "n < next_notify c"
    "map_of (entries c) rid = Some \<lparr>entry_fingerprint = fp, entry_state = Pending n\<rparr>"
    "\<And>i f. i < length hs \<Longrightarrow> hs ! i \<noteq> Some (rid, f)"
    "\<And>k e. map_of (entries c) k = Some e \<Longrightarrow> entry_state e = Pending n \<Longrightarrow> k = rid"
  shows "orphan rid fp n (hs, c)"
  unfolding orphan_def prod.case using assms by blast

lemma orphanD:
  assumes "orphan rid fp n (hs, c)"
  shows "map_of (entries c) rid = Some \<lparr>entry_fingerprint = fp, entry_state = Pending n\<rparr>"
    and "i < length hs \<Longrightarrow> hs ! i \<noteq> Some (rid, f)"
    and "map_of (entries c) k = Some e \<Longrightarrow> entry_state e = Pending n \<Longrightarrow> k = rid"
  using assms unfolding orphan_def prod.case by blast+

lemma complete_notifies:
  "complete_request c k g response = (Some m, c') \<Longrightarrow>
     \<exists>e. map_of (entries c) k = Some e \<and> entry_state e = Pending m"
  by (auto simp: complete_request_def split: option.splits if_splits ReplayState.splits)

lemma next_notify_begin: "next_notify c \<le> next_notify (snd (begin_request c k f))"
  by (auto simp: begin_request_def evict_def insert_pending_def Let_def
      split: option.splits ReplayState.splits)

lemma begin_new_pending:
  assumes "replay_inv c" and "n < next_notify c"
    and "map_of (entries (snd (begin_request c k f))) i = Some e" and "entry_state e = Pending n"
  shows "map_of (entries c) i = Some e"
proof (cases "i = k")
  case False
  with begin_other [OF assms(1), of k i f] assms(3) show ?thesis by auto
next
  case True
  obtain dec c' where b: "begin_request c k f = (dec, c')" by (metis surj_pair)
  show ?thesis
  proof (cases "dec = Execute")
    case exec: True
    with b begin_execute [OF assms(1), of k f c'] assms True show ?thesis by auto
  next
    case False
    with b have "c' = c"
      by (auto simp: begin_request_def split: option.splits if_splits ReplayState.splits)
    with b assms(3) show ?thesis by simp
  qed
qed

lemma orphan_begin:
  assumes "orphan rid fp n (hs, c)"
  shows "orphan rid fp n (hs, snd (begin_request c k f))"
proof -
  have inv: "replay_inv c" and n: "n < next_notify c"
    and e: "map_of (entries c) rid = Some \<lparr>entry_fingerprint = fp, entry_state = Pending n\<rparr>"
    and own: "\<And>k e. map_of (entries c) k = Some e \<Longrightarrow> entry_state e = Pending n \<Longrightarrow> k = rid"
    using assms by (auto simp: orphan_def)
  show ?thesis
  proof (rule orphanI)
    show "replay_inv (snd (begin_request c k f))" using inv by (rule begin_inv)
    show "n < next_notify (snd (begin_request c k f))" using n next_notify_begin by (rule less_le_trans)
    show "map_of (entries (snd (begin_request c k f))) rid
        = Some \<lparr>entry_fingerprint = fp, entry_state = Pending n\<rparr>" using inv e by (rule pending_stays)
    show "i = rid" if "map_of (entries (snd (begin_request c k f))) i = Some x"
      "entry_state x = Pending n" for i x
      using own [OF begin_new_pending [OF inv n that] that(2)] .
    show "hs ! i \<noteq> Some (rid, g)" if "i < length hs" for i g
      using assms that by (auto simp: orphan_def)
  qed
qed

lemma orphan_move: "live_move x y \<Longrightarrow> orphan rid fp n x \<Longrightarrow> orphan rid fp n y"
proof (induction rule: live_move.induct)
  case (move_arrive hs c)
  then show ?case by (auto simp: orphan_def nth_append less_Suc_eq)
next
  case (move_look hs c k f)
  then show ?case by (rule orphan_begin)
next
  case (move_grant i hs c k f c')
  have "fst (begin_request c rid f) \<noteq> Execute"
    using orphanD(1) [OF move_grant.prems] by (simp add: begin_request_def)
  then have "k \<noteq> rid" using move_grant.hyps(3) by auto
  moreover have "orphan rid fp n (hs, c')"
    using orphan_begin [OF move_grant.prems, of k f] move_grant.hyps(3) by simp
  ultimately show ?case
    using move_grant.hyps(1) unfolding orphan_def prod.case
    by (simp add: nth_list_update)
next
  case (move_release i hs k f c response)
  have k: "k \<noteq> rid" using orphanD(2) [OF move_release.prems] move_release.hyps by blast
  let ?c = "snd (complete_request c k f response)"
  have inv: "replay_inv ?c" and less: "n < next_notify c"
    using move_release.prems by (simp_all add: orphan_def complete_inv)
  show ?case
  proof (rule orphanI)
    show "replay_inv ?c" by (rule inv)
    show "n < next_notify ?c"
      using less by (simp add: complete_request_def split: option.split ReplayState.split)
    show "map_of (entries ?c) rid = Some \<lparr>entry_fingerprint = fp, entry_state = Pending n\<rparr>"
      using orphanD(1) [OF move_release.prems] k by (intro complete_other) simp_all
    show "hs[i := None] ! j \<noteq> Some (rid, g)" if "j < length (hs[i := None])" for j g
      using orphanD(2) [OF move_release.prems, of j g] that by (cases "j = i") simp_all
    show "j = rid" if "map_of (entries ?c) j = Some e" "entry_state e = Pending n" for j e
    proof -
      have "map_of (entries c) j = Some e"
        using that by (auto simp: complete_request_def map_of_set_entry
            split: option.splits if_splits ReplayState.splits)
      from orphanD(3) [OF move_release.prems this that(2)] show ?thesis .
    qed
  qed
qed

text \<open>A task that waits for the notification of an orphan is not woken.\<close>

definition stuck :: "RequestEnvelope \<Rightarrow> string \<Rightarrow> nat \<Rightarrow> task \<Rightarrow> bool" where
  "stuck r fp n t = (t = T_Waiting r fp n \<or> t = T_Dropped)"

lemma stuck_wake [simp]: "m \<noteq> n \<Longrightarrow> stuck r fp n t \<Longrightarrow> stuck r fp n (wake m t)"
  by (auto simp: stuck_def)

lemma stuck_cases:
  assumes "stuck r fp n t"
  obtains "t = T_Waiting r fp n" | "t = T_Dropped"
  using assms by (auto simp: stuck_def)

lemma publish_stuck:
  assumes "orphan rid fp n (executors_of s)" and "j < length (s_tasks s)"
    and "holds (s_tasks s ! j) = Some (env_request_id request, f)"
    and "i < length (s_tasks s)" and "stuck r fp n (s_tasks s ! i)"
  shows "stuck r fp n (s_tasks (publish s request g response) ! i)"
proof (cases "complete_request (s_cache s) (env_request_id request) g response")
  case (Pair m c)
  show ?thesis
  proof (cases m)
    case None
    with Pair assms(5) show ?thesis by (simp add: publish_def)
  next
    case (Some k)
    have other: "env_request_id request \<noteq> rid"
      using orphanD(2) [OF assms(1) [unfolded executors_of_def], of j f] assms(2,3) by auto
    obtain e where "map_of (entries (s_cache s)) (env_request_id request) = Some e"
      and "entry_state e = Pending k"
      using complete_notifies [of "s_cache s"] Pair Some by blast
    with orphanD(3) [OF assms(1) [unfolded executors_of_def]] other have "k \<noteq> n" by metis
    with Pair Some assms(4,5) show ?thesis by (simp add: publish_def)
  qed
qed

lemma stuck_set: "i \<noteq> j \<Longrightarrow> stuck r fp n (ts ! i) \<Longrightarrow> stuck r fp n (ts[j := t] ! i)"
  by simp

lemma stuck_step:
  assumes "orphan rid fp n (executors_of s)"
    and "i < length (s_tasks s)" and "stuck r fp n (s_tasks s ! i)"
  shows "stuck r fp n (s_tasks (task_step X expected s j) ! i)"
proof (cases "j < length (s_tasks s) \<and> j \<noteq> i")
  case True
  note pub = publish_stuck [OF assms(1) True [THEN conjunct1] _ assms(2,3)]
  from True show ?thesis
    by (cases "s_tasks s ! j")
       (auto simp: task_step_def assms(3) pub split: prod.split option.split)
next
  case False
  with assms(2) have "j = i \<or> length (s_tasks s) \<le> j" by linarith
  with assms(2,3) show ?thesis
    by (elim disjE stuck_cases) (simp_all add: task_step_def stuck_def)
qed

lemma stuck_finish:
  assumes "i < length (s_tasks s)" and "stuck r fp n (s_tasks s ! i)"
  shows "stuck r fp n (s_tasks (finish_step s j result) ! i)"
proof (cases "j = i")
  case True
  from assms(2) show ?thesis
    by (rule stuck_cases) (simp_all add: True assms(1) finish_step_def stuck_def)
next
  case False
  with assms show ?thesis
    by (auto simp: finish_step_def Let_def split: task.split)
qed

lemma stuck_cancel:
  assumes "orphan rid fp n (executors_of s)"
    and "i < length (s_tasks s)" and "stuck r fp n (s_tasks s ! i)"
  shows "stuck r fp n (s_tasks (cancel_step s j) ! i)"
proof (cases "j < length (s_tasks s) \<and> j \<noteq> i")
  case True
  note pub = publish_stuck [OF assms(1) True [THEN conjunct1] _ assms(2,3)]
  from True show ?thesis
    by (cases "s_tasks s ! j") (auto simp: cancel_step_def assms(3) pub)
next
  case False
  with assms(2) have "j = i \<or> length (s_tasks s) \<le> j" by linarith
  with assms(2,3) show ?thesis
    by (elim disjE stuck_cases) (simp_all add: cancel_step_def stuck_def)
qed

text \<open>Nothing but a restart, which drops it, ends the wait.\<close>

definition deserted :: "uuid \<Rightarrow> RequestEnvelope \<Rightarrow> string \<Rightarrow> nat \<Rightarrow> nat \<Rightarrow> system \<Rightarrow> bool" where
  "deserted rid r fp n i s \<longleftrightarrow> orphan rid fp n (executors_of s) \<and> i < length (s_tasks s)
     \<and> stuck r fp n (s_tasks s ! i)"

lemma system_step_stuck:
  assumes "deserted rid r fp n i s" and "a \<noteq> A_Restart"
  shows "stuck r fp n (s_tasks (system_step X expected s a) ! i)"
  using assms by (cases a) (auto simp: deserted_def nth_append stuck_step stuck_finish stuck_cancel)

lemma system_step_length:
  "a \<noteq> A_Restart \<Longrightarrow> i < length (s_tasks s) \<Longrightarrow> i < length (s_tasks (system_step X expected s a))"
  by (cases a) (auto simp: task_step_def finish_step_def cancel_step_def Let_def
      split: task.split prod.split option.split)

lemma deserted_step:
  assumes "deserted rid r fp n i s" and "a \<noteq> A_Restart"
  shows "deserted rid r fp n i (system_step X expected s a)"
  using orphan_move [OF live_moves [OF assms(2)]] system_step_stuck [OF assms]
    system_step_length [OF assms(2)] assms(1)
  by (auto simp: deserted_def)

lemma deserted_run:
  "deserted rid r fp n i s \<Longrightarrow> A_Restart \<notin> set acts
   \<Longrightarrow> deserted rid r fp n i (run_ops (system_step X expected) s acts)"
  by (induction acts arbitrary: s) (auto simp: deserted_step simp del: system_step.simps)

lemma lost_execution_end:
  "let s = run_ops (system_step two_lines ''t'') (new_system 1 open_new) lost_execution
   in s_tasks s ! 1 = T_Waiting (mkdir_request 1) ''op'' 2
      \<and> map holds (s_tasks s) = [None, None, None]
      \<and> s_cache s = \<lparr>capacity = 1,
          entries = [(1, \<lparr>entry_fingerprint = ''op'', entry_state = Pending 2\<rparr>)],
          order = [1], next_notify = 3\<rparr>"
  by (simp add: lost_execution_def run_defs)

lemma lost_execution_deserted:
  "deserted 1 (mkdir_request 1) ''op'' 2 1
     (run_ops (system_step two_lines ''t'') (new_system 1 open_new) lost_execution)"
proof -
  let ?s = "run_ops (system_step two_lines ''t'') (new_system 1 open_new) lost_execution"
  have "s_tasks ?s ! 1 = T_Waiting (mkdir_request 1) ''op'' 2"
    and holds: "map holds (s_tasks ?s) = [None, None, None]"
    and cache: "s_cache ?s = \<lparr>capacity = 1,
          entries = [(1, \<lparr>entry_fingerprint = ''op'', entry_state = Pending 2\<rparr>)],
          order = [1], next_notify = 3\<rparr>"
    using lost_execution_end by (simp_all add: Let_def)
  moreover have "length (s_tasks ?s) = 3" using holds by (metis length_map list.size(3,4) numeral_3_eq_3 One_nat_def Suc_eq_plus1)
  moreover have "orphan 1 ''op'' 2 (executors_of ?s)"
    unfolding executors_of_def holds cache
    by (auto simp: orphan_def replay_inv_def less_Suc_eq numeral_3_eq_3 is_complete_id_def split: if_splits)
  ultimately show ?thesis by (simp add: deserted_def stuck_def)
qed

text \<open>
  Property C30: after these actions, in which nothing fails, the repeated request is never
  executed and never answered: whatever the tasks do from there, short of a restart, it waits or
  is dropped with its connection.
\<close>

theorem lost_execution_blocks_forever:
  "let s = run_ops (system_step two_lines ''t'') (new_system 1 open_new)
             (lost_execution @ filter (\<lambda>a. a \<noteq> A_Restart) acts)
   in s_tasks s ! 1 \<in> {T_Waiting (mkdir_request 1) ''op'' 2, T_Dropped}"
  using deserted_run [OF lost_execution_deserted, of "filter (\<lambda>a. a \<noteq> A_Restart) acts"
      two_lines "''t''"]
  by (simp add: deserted_def stuck_def Let_def run_ops_append)

end
