(* ===== verification/Effects_Loops.thy ===== *)
theory Effects_Loops
  imports Effects
begin

section \<open>Loops and results of fallible operations\<close>

text \<open>A loop with an accumulator that ends at the first failure.\<close>

fun io_fold :: "('b \<Rightarrow> 'a \<Rightarrow> ('s, 'e, 'b) io) \<Rightarrow> 'b \<Rightarrow> 'a list \<Rightarrow> ('s, 'e, 'b) io" where
  "io_fold f b [] = io_ok b"
| "io_fold f b (x # xs) = io_bind (f b x) (\<lambda>c. io_fold f c xs)"

text \<open>\<open>map_err\<close> with the continuation of a cleanup: what \<open>if let Err(error) = ...\<close> does.\<close>

definition io_catch :: "('s, 'e, 'a) io \<Rightarrow> ('e \<Rightarrow> ('s, 'e, 'a) io) \<Rightarrow> ('s, 'e, 'a) io" where
  "io_catch m h s = (case m s of (Inl e, s') \<Rightarrow> h e s' | (Inr x, s') \<Rightarrow> (Inr x, s'))"

definition io_is_ok :: "('s, 'e, 'a) io \<Rightarrow> ('s, 'd, bool) io" where
  "io_is_ok m s = (case m s of (r, s') \<Rightarrow> (Inr (is_ok r), s'))"

text \<open>
  \<open>yields P Q m\<close>: the operation keeps the predicate \<open>P\<close> on the state, and what it returns when it
  does not fail satisfies \<open>Q\<close>.
\<close>

definition yields :: "('s \<Rightarrow> bool) \<Rightarrow> ('a \<Rightarrow> bool) \<Rightarrow> ('s, 'e, 'a) io \<Rightarrow> bool" where
  "yields P Q m \<longleftrightarrow> (\<forall>s. P s \<longrightarrow> P (snd (m s)) \<and> (\<forall>x. fst (m s) = Inr x \<longrightarrow> Q x))"

named_theorems yields_rules \<open>rules that follow the structure of an operation\<close>

lemma yieldsI: "(\<And>s. P s \<Longrightarrow> P (snd (m s)) \<and> (\<forall>x. fst (m s) = Inr x \<longrightarrow> Q x)) \<Longrightarrow> yields P Q m"
  by (simp add: yields_def)

lemma yieldsD:
  assumes "yields P Q m" "P s"
  shows "P (snd (m s))" "fst (m s) = Inr x \<Longrightarrow> Q x"
  using assms by (auto simp: yields_def)

lemma yields_keeps: "keeps P m \<longleftrightarrow> yields P (\<lambda>_. True) m"
  by (simp add: keeps_def yields_def)

lemma yields_weaken: "yields P Q m \<Longrightarrow> (\<And>x. Q x \<Longrightarrow> R x) \<Longrightarrow> yields P R m"
  by (auto simp: yields_def)

lemma yields_imp_keeps: "yields P Q m \<Longrightarrow> keeps P m"
  by (auto simp: keeps_def yields_def)

lemma yields_ok [yields_rules]: "Q x \<Longrightarrow> yields P Q (io_ok x)"
  by (simp add: yields_def io_ok_def)

lemma yields_fail [yields_rules, simp]: "yields P Q (io_fail e)"
  by (simp add: yields_def io_fail_def)

lemma yields_lift [yields_rules]: "(\<And>x. r = Inr x \<Longrightarrow> Q x) \<Longrightarrow> yields P Q (io_lift r)"
  by (simp add: yields_def io_lift_def)

lemma yields_bind [yields_rules]:
  assumes "yields P R m" and "\<And>x. R x \<Longrightarrow> yields P Q (f x)"
  shows "yields P Q (io_bind m f)"
proof (rule yieldsI)
  fix s assume "P s"
  obtain r t where m: "m s = (r, t)" by (cases "m s")
  with yieldsD(1) [OF assms(1) \<open>P s\<close>] have t: "P t" by simp
  show "P (snd (io_bind m f s)) \<and> (\<forall>x. fst (io_bind m f s) = Inr x \<longrightarrow> Q x)"
  proof (cases r)
    case (Inr x)
    with m yieldsD(2) [OF assms(1) \<open>P s\<close>] have "R x" by simp
    from yieldsD [OF assms(2) [OF this] t] m Inr show ?thesis by (simp add: io_bind_def)
  qed (use m t in \<open>simp add: io_bind_def\<close>)
qed

lemma yields_then [yields_rules]:
  "keeps P m \<Longrightarrow> yields P Q n \<Longrightarrow> yields P Q (io_then m n)"
  unfolding io_then_def yields_keeps by (rule yields_bind) simp_all

lemma yields_map_err [yields_rules]: "yields P Q m \<Longrightarrow> yields P Q (io_map_err f m)"
  unfolding yields_def io_map_err_def
  by (metis (no_types, lifting) case_prod_unfold fst_conv map_err_Inr snd_conv)

lemma yields_try [yields_rules]: "yields P R m \<Longrightarrow> (\<And>e. Q (Inl e)) \<Longrightarrow> (\<And>x. R x \<Longrightarrow> Q (Inr x))
    \<Longrightarrow> yields P Q (io_try m)"
  by (auto simp: yields_def io_try_def split: prod.split sum.split)
     (metis Inr_Inl_False fst_conv obj_sumE)

lemma keeps_catch [keeps_rules]:
  "keeps P m \<Longrightarrow> (\<And>e. keeps P (h e)) \<Longrightarrow> keeps P (io_catch m h)"
  unfolding keeps_def io_catch_def by (auto split: prod.split sum.split)

lemma yields_catch [yields_rules]:
  assumes "yields P Q m" and "\<And>e. yields P Q (h e)"
  shows "yields P Q (io_catch m h)"
  using assms unfolding yields_def io_catch_def
  by (auto split: prod.split sum.split)

lemma keeps_is_ok [keeps_rules]: "keeps P m \<Longrightarrow> keeps P (io_is_ok m)"
  unfolding keeps_def io_is_ok_def by (auto split: prod.split)

lemma keeps_fold [keeps_rules]:
  "(\<And>b x. x \<in> set xs \<Longrightarrow> keeps P (f b x)) \<Longrightarrow> keeps P (io_fold f b xs)"
  by (induction xs arbitrary: b) (auto intro!: keeps_bind)

lemma yields_fold [yields_rules]:
  "Q b \<Longrightarrow> (\<And>b x. x \<in> set xs \<Longrightarrow> Q b \<Longrightarrow> yields P Q (f b x)) \<Longrightarrow> yields P Q (io_fold f b xs)"
  by (induction xs arbitrary: b) (auto intro!: yields_rules)

lemma fold_blocked:
  assumes "\<And>b s. isl (fst (f b x s))" and "x \<in> set xs"
  shows "isl (fst (io_fold f b xs s))"
  using assms(2)
proof (induction xs arbitrary: b s)
  case (Cons y ys)
  obtain r t where r: "f b y s = (r, t)" by (cases "f b y s")
  with Cons assms(1) [of b s] show ?case by (cases r) (auto simp: io_bind_def)
qed simp

lemma bind_lift [simp]: "io_bind (io_lift (Inr x)) f = f x" "io_bind (io_lift (Inl e)) f = io_fail e"
  by (simp_all add: fun_eq_iff io_bind_def io_lift_def io_fail_def)

lemma bind_assoc: "io_bind (io_bind m f) g = io_bind m (\<lambda>x. io_bind (f x) g)"
  by (simp add: fun_eq_iff io_bind_def split: prod.split sum.split)

lemma bind_ok [simp]: "io_bind (io_ok x) f = f x" "io_bind (io_fail e) f = io_fail e"
  by (simp_all add: fun_eq_iff io_bind_def io_ok_def io_fail_def)

subsection \<open>Before and after\<close>

text \<open>
  \<open>triple P m Q E\<close>: from a state that satisfies \<open>P\<close>, a success ends in a state that satisfies \<open>Q\<close>
  for its result, a failure in one that satisfies \<open>E\<close> for its error.
\<close>

definition triple ::
  "('s \<Rightarrow> bool) \<Rightarrow> ('s, 'e, 'a) io \<Rightarrow> ('a \<Rightarrow> 's \<Rightarrow> bool) \<Rightarrow> ('e \<Rightarrow> 's \<Rightarrow> bool) \<Rightarrow> bool" where
  "triple P m Q E \<longleftrightarrow> (\<forall>s. P s \<longrightarrow> (case m s of (Inr x, t) \<Rightarrow> Q x t | (Inl e, t) \<Rightarrow> E e t))"

named_theorems triple_rules \<open>rules that follow the structure of an operation\<close>

lemma tripleI:
  "(\<And>s r t. P s \<Longrightarrow> m s = (r, t) \<Longrightarrow> (\<forall>x. r = Inr x \<longrightarrow> Q x t) \<and> (\<forall>e. r = Inl e \<longrightarrow> E e t))
     \<Longrightarrow> triple P m Q E"
  unfolding triple_def by (auto split: prod.split sum.split)

lemma tripleD:
  assumes "triple P m Q E" "P s" "m s = (r, t)"
  shows "r = Inr x \<Longrightarrow> Q x t" "r = Inl e \<Longrightarrow> E e t"
  using assms by (auto simp: triple_def split: prod.splits sum.splits)

lemma triple_conseq:
  "triple P m Q E \<Longrightarrow> (\<And>s. P' s \<Longrightarrow> P s) \<Longrightarrow> (\<And>x s. Q x s \<Longrightarrow> Q' x s) \<Longrightarrow> (\<And>e s. E e s \<Longrightarrow> E' e s)
     \<Longrightarrow> triple P' m Q' E'"
  unfolding triple_def by (fastforce split: prod.splits sum.splits)

lemma triple_pre: "triple P m Q E \<Longrightarrow> (\<And>s. P' s \<Longrightarrow> P s) \<Longrightarrow> triple P' m Q E"
  by (simp add: triple_def)

lemma triple_ok [triple_rules]: "(\<And>s. P s \<Longrightarrow> Q x s) \<Longrightarrow> triple P (io_ok x) Q E"
  by (simp add: triple_def io_ok_def)

lemma triple_fail [triple_rules]: "(\<And>s. P s \<Longrightarrow> E e s) \<Longrightarrow> triple P (io_fail e) Q E"
  by (simp add: triple_def io_fail_def)

lemma triple_lift [triple_rules]:
  "(\<And>x s. P s \<Longrightarrow> r = Inr x \<Longrightarrow> Q x s) \<Longrightarrow> (\<And>e s. P s \<Longrightarrow> r = Inl e \<Longrightarrow> E e s)
     \<Longrightarrow> triple P (io_lift r) Q E"
  by (auto simp: triple_def io_lift_def split: sum.split)

lemma triple_bind [triple_rules]:
  "triple P m R E \<Longrightarrow> (\<And>x. triple (R x) (f x) Q E) \<Longrightarrow> triple P (io_bind m f) Q E"
  unfolding triple_def io_bind_def by (fastforce split: prod.splits sum.splits)

lemma triple_then [triple_rules]:
  "triple P m (\<lambda>_. R) E \<Longrightarrow> triple R n Q E \<Longrightarrow> triple P (io_then m n) Q E"
  unfolding io_then_def by (rule triple_bind)

lemma triple_map_err:
  "triple P m Q (\<lambda>e. E (f e)) \<Longrightarrow> triple P (io_map_err f m) Q E"
  unfolding triple_def io_map_err_def by (fastforce split: prod.splits sum.splits)

lemma triple_try:
  "triple P m (\<lambda>x. Q (Inr x)) (\<lambda>e. Q (Inl e)) \<Longrightarrow> triple P (io_try m) Q E"
  unfolding triple_def io_try_def by (fastforce split: prod.splits sum.splits)

lemma triple_ignore:
  "triple P m (\<lambda>_. Q ()) (\<lambda>_. Q ()) \<Longrightarrow> triple P (io_ignore m) Q E"
  unfolding triple_def io_ignore_def by (fastforce split: prod.splits sum.splits)

lemma triple_is_ok:
  "triple P m (\<lambda>_. Q True) (\<lambda>_. Q False) \<Longrightarrow> triple P (io_is_ok m) Q E"
  unfolding triple_def io_is_ok_def by (fastforce split: prod.splits sum.splits)

lemma triple_catch:
  "triple P m Q R \<Longrightarrow> (\<And>e. triple (R e) (h e) Q E) \<Longrightarrow> triple P (io_catch m h) Q E"
  unfolding triple_def io_catch_def by (fastforce split: prod.splits sum.splits)

lemma triple_fold:
  "(\<And>b x. x \<in> set xs \<Longrightarrow> triple (P b) (f b x) P E)
     \<Longrightarrow> triple (P b) (io_fold f b xs) P E"
  by (induction xs arbitrary: b) (auto intro!: triple_rules)

lemma triple_for_each:
  "(\<And>x. x \<in> set xs \<Longrightarrow> triple P (f x) (\<lambda>_. P) E) \<Longrightarrow> triple P (io_for_each f xs) (\<lambda>_. P) E"
  by (induction xs) (auto intro!: triple_rules)

lemma keeps_triple: "keeps P m \<longleftrightarrow> triple P m (\<lambda>_. P) (\<lambda>_. P)"
  unfolding keeps_def triple_def by (metis (mono_tags, lifting) case_prod_unfold old.sum.exhaust sum.simps(5,6))

lemmas io_loop_defs = io_catch_def io_is_ok_def

end
