(* ===== verification/Fs_Kernel.thy ===== *)
theory Fs_Kernel
  imports Filesystem Effects_Loops
begin

section \<open>The system calls of the file system\<close>

text \<open>
  The system calls that \<open>crates/gobrowse-sandboxd/src/filesystem.rs\<close> makes through \<open>rustix\<close> and
  \<open>std::fs\<close> are a parameter: each is an operation on an unknown state that succeeds or gives an
  error number.  A descriptor is a value of an unknown type; closing one has no effect here.
  Flags and modes are as in the code.
\<close>

datatype oflag =
    O_RDONLY | O_WRONLY | O_DIRECTORY | O_NOFOLLOW | O_CLOEXEC | O_PATH | O_NONBLOCK | O_CREATE | O_EXCL

datatype resolve_flag = R_BENEATH | R_NO_SYMLINKS | R_NO_MAGICLINKS | R_NO_XDEV

datatype rename_flag = Rename_Replace | Rename_NoReplace | Rename_Exchange

definition RESOLVE :: "resolve_flag set" where
  "RESOLVE = {R_BENEATH, R_NO_SYMLINKS, R_NO_MAGICLINKS, R_NO_XDEV}"

definition DIRECTORY_FLAGS :: "oflag set" where
  "DIRECTORY_FLAGS = {O_RDONLY, O_DIRECTORY, O_NOFOLLOW, O_CLOEXEC}"

definition METADATA_FLAGS :: "oflag set" where
  "METADATA_FLAGS = {O_PATH, O_NOFOLLOW, O_CLOEXEC}"

definition READ_FLAGS :: "oflag set" where
  "READ_FLAGS = {O_RDONLY, O_NONBLOCK, O_NOFOLLOW, O_CLOEXEC}"

definition CREATE_FLAGS :: "oflag set" where
  "CREATE_FLAGS = {O_WRONLY, O_CREATE, O_EXCL, O_NOFOLLOW, O_CLOEXEC}"

definition STAGING_DIRECTORY :: string where "STAGING_DIRECTORY = ''.gobrowse-staging''"
definition RECOVERY_DIRECTORY :: string where "RECOVERY_DIRECTORY = ''.gobrowse-recovery''"
definition VOLUME_DATA_DIRECTORY :: string where "VOLUME_DATA_DIRECTORY = ''_data''"
definition MAX_RECOVERY_RECORD_BYTES :: nat where "MAX_RECOVERY_RECORD_BYTES = 256 * 1024"
definition MAX_INTERNAL_COPY_FILE_BYTES :: nat where "MAX_INTERNAL_COPY_FILE_BYTES = 16 * 1024 * 1024"
definition MAX_INTERNAL_COPY_TOTAL_BYTES :: u64 where "MAX_INTERNAL_COPY_TOTAL_BYTES = 256 * 1024 * 1024"
definition MAX_INTERNAL_COPY_ENTRIES :: nat where "MAX_INTERNAL_COPY_ENTRIES = 16384"

record Stat =
  st_mode :: u32
  st_nlink :: u64
  st_size :: int
  st_dev :: u64
  st_ino :: u64
  st_uid :: u32
  st_mtime :: int

text \<open>
  \<open>k_dir\<close> opens a directory stream and gives what its reads return, in order; \<open>k_read fd n\<close> is
  \<open>take(n).read_to_end\<close> on a descriptor that was just opened, from its start and as of one moment:
  the code reads every descriptor once, right after it was opened, and drops it; \<open>k_descriptors\<close> bounds how many descriptors may be open at once.
  \<open>k_uuid\<close> is \<open>Uuid::new_v4\<close> \<open>k_sha256\<close> the hexadecimal digest and
  \<open>k_encode_match\<close> the JSON of a search result.
\<close>

record ('w, 'fd) kernel =
  k_open :: "string \<Rightarrow> oflag set \<Rightarrow> u32 \<Rightarrow> ('w, Errno, 'fd) io"
  k_openat2 :: "'fd \<Rightarrow> string \<Rightarrow> oflag set \<Rightarrow> u32 \<Rightarrow> resolve_flag set \<Rightarrow> ('w, Errno, 'fd) io"
  k_fstat :: "'fd \<Rightarrow> ('w, Errno, Stat) io"
  k_mkdirat :: "'fd \<Rightarrow> string \<Rightarrow> u32 \<Rightarrow> ('w, Errno, unit) io"
  k_renameat :: "'fd \<Rightarrow> string \<Rightarrow> 'fd \<Rightarrow> string \<Rightarrow> rename_flag \<Rightarrow> ('w, Errno, unit) io"
  k_unlinkat :: "'fd \<Rightarrow> string \<Rightarrow> bool \<Rightarrow> ('w, Errno, unit) io"
  k_fchmod :: "'fd \<Rightarrow> u32 \<Rightarrow> ('w, Errno, unit) io"
  k_fsync :: "'fd \<Rightarrow> ('w, Errno, unit) io"
  k_dir :: "'fd \<Rightarrow> ('w, Errno, (Errno + string) list) io"
  k_read :: "'fd \<Rightarrow> nat \<Rightarrow> ('w, Errno, string) io"
  k_write_all :: "'fd \<Rightarrow> string \<Rightarrow> ('w, Errno, unit) io"
  k_sync_all :: "'fd \<Rightarrow> ('w, Errno, unit) io"
  k_uuid :: "'w \<Rightarrow> uuid \<times> 'w"
  k_descriptors :: nat
  k_sha256 :: "string \<Rightarrow> string"
  k_hyphenated :: "uuid \<Rightarrow> string"
  k_parse_uuid :: "string \<Rightarrow> uuid option"
  k_encode_match :: "FilesystemSearchMatch \<Rightarrow> string option"

text \<open>A call whose error is mapped by \<open>map_errno\<close>, and one whose error stays an I/O error.\<close>

definition sys :: "('w, Errno, 'a) io \<Rightarrow> ('w, FilesystemError, 'a) io" where
  "sys m = io_map_err map_errno m"

definition sys_io :: "('w, Errno, 'a) io \<Rightarrow> ('w, FilesystemError, 'a) io" where
  "sys_io m = io_map_err errno_io m"

definition openat :: "('w, 'fd) kernel \<Rightarrow> 'fd \<Rightarrow> string \<Rightarrow> oflag set \<Rightarrow> ('w, Errno, 'fd) io" where
  "openat K fd path flags = k_openat2 K fd path flags 0 RESOLVE"

subsection \<open>Files\<close>

text \<open>Modes in octal: 0700, 0600, 0644 and 0755.\<close>

definition MODE_RWXU :: u32 where "MODE_RWXU = 0x1C0"
definition MODE_PRIVATE :: u32 where "MODE_PRIVATE = 0x180"
definition MODE_FILE :: u32 where "MODE_FILE = 0x1A4"
definition MODE_DIRECTORY :: u32 where "MODE_DIRECTORY = 0x1ED"

definition S_IFMT :: u32 where "S_IFMT = 0xF000"
definition S_IFREG :: u32 where "S_IFREG = 0x8000"
definition S_IFDIR :: u32 where "S_IFDIR = 0x4000"

text \<open>\<open>FileType::from_raw_mode\<close>, as far as the code looks at it.\<close>

definition is_regular :: "Stat \<Rightarrow> bool" where
  "is_regular st \<longleftrightarrow> and (st_mode st) S_IFMT = S_IFREG"

definition is_directory :: "Stat \<Rightarrow> bool" where
  "is_directory st \<longleftrightarrow> and (st_mode st) S_IFMT = S_IFDIR"

definition ensure_directory :: "('w, 'fd) kernel \<Rightarrow> 'fd \<Rightarrow> ('w, FilesystemError, unit) io" where
  "ensure_directory K fd =
     io_bind (sys (k_fstat K fd)) (\<lambda>st. if is_directory st then io_ok () else io_fail Fs_UnsafeEntry)"

definition safe_kind_and_size :: "Stat \<Rightarrow> FilesystemError + (FilesystemEntryKind \<times> u64)" where
  "safe_kind_and_size st =
     (if is_regular st then
        (if st_nlink st \<noteq> 1 then Inl Fs_UnsafeEntry
         else if st_size st < 0 then Inl Fs_UnsafeEntry
         else Inr (Kind_File, word_of_int (st_size st)))
      else if is_directory st then Inr (Kind_Directory, 0)
      else Inl Fs_UnsafeEntry)"

definition metadata_for_fd :: "('w, 'fd) kernel \<Rightarrow> 'fd \<Rightarrow> ('w, FilesystemError, FilesystemMetadata) io" where
  "metadata_for_fd K fd =
     io_bind (sys (k_fstat K fd)) (\<lambda>st.
     io_bind (io_lift (safe_kind_and_size st)) (\<lambda>(kind, size).
       io_ok \<lparr>meta_kind = kind, meta_size = size, meta_mode = and (st_mode st) 0xFFF,
              modified_unix_seconds = st_mtime st\<rparr>))"

definition read_regular_bounded ::
  "('w, 'fd) kernel \<Rightarrow> 'fd \<Rightarrow> nat \<Rightarrow> ('w, FilesystemError, string \<times> string) io" where
  "read_regular_bounded K fd maximum =
     io_bind (sys (k_fstat K fd)) (\<lambda>st.
     io_bind (io_lift (safe_kind_and_size st)) (\<lambda>(kind, size).
       if kind \<noteq> Kind_File then io_fail Fs_UnsafeEntry
       else if unat size > maximum then io_fail Fs_LimitExceeded
       else io_bind (sys_io (k_read K fd (maximum + 1))) (\<lambda>bytes.
         if length bytes > maximum then io_fail Fs_LimitExceeded
         else io_ok (bytes, k_sha256 K bytes))))"

definition read_regular :: "('w, 'fd) kernel \<Rightarrow> 'fd \<Rightarrow> ('w, FilesystemError, string \<times> string) io" where
  "read_regular K fd = read_regular_bounded K fd MAX_FILE_PAYLOAD_BYTES"

record FileIdentity =
  identity_device :: u64
  identity_inode :: u64

definition identity :: "Stat \<Rightarrow> FileIdentity" where
  "identity st = \<lparr>identity_device = st_dev st, identity_inode = st_ino st\<rparr>"

definition stage_name :: "('w, 'fd) kernel \<Rightarrow> string \<Rightarrow> ('w, 'e, string) io" where
  "stage_name K operation s =
     (case k_uuid K s of (u, s') \<Rightarrow> (Inr (''.gobrowse-'' @ operation @ ''-'' @ k_hyphenated K u), s'))"

text \<open>A failed write or sync removes the file again.\<close>

definition create_staged_file ::
  "('w, 'fd) kernel \<Rightarrow> 'fd \<Rightarrow> string \<Rightarrow> string \<Rightarrow> nat \<Rightarrow> u32
     \<Rightarrow> ('w, FilesystemError, string \<times> FileIdentity) io" where
  "create_staged_file K parent name bytes maximum mode =
     (if length bytes > maximum then io_fail Fs_LimitExceeded
      else io_bind (sys (k_openat2 K parent name CREATE_FLAGS mode RESOLVE)) (\<lambda>fd.
        io_bind (sys (k_fchmod K fd mode)) (\<lambda>_.
        io_bind (sys (k_fstat K fd)) (\<lambda>st.
        io_bind (io_catch
            (sys_io (io_then (k_write_all K fd bytes) (k_sync_all K fd)))
            (\<lambda>e. io_then (io_ignore (k_unlinkat K parent name False)) (io_fail e))) (\<lambda>_.
          io_ok (k_sha256 K bytes, identity st))))))"

definition safe_copy_mode :: "u32 \<Rightarrow> u32" where
  "safe_copy_mode mode = or MODE_FILE (and mode 0x49)"

subsection \<open>Paths\<close>

definition is_dot :: "string \<Rightarrow> bool" where
  "is_dot name \<longleftrightarrow> name = ''.'' \<or> name = ''..''"

definition cstr_to_string :: "string \<Rightarrow> FilesystemError + string" where
  "cstr_to_string name = (if is_utf8 name then Inr name else Inl Fs_UnsafeEntry)"

text \<open>The text of a checked path: its components, or a dot.\<close>

definition path_text :: "string list \<Rightarrow> string" where
  "path_text path = (if path = [] then ''.'' else str_join ''/'' path)"

definition open_beneath ::
  "('w, 'fd) kernel \<Rightarrow> 'fd \<Rightarrow> string list \<Rightarrow> oflag set \<Rightarrow> ('w, FilesystemError, 'fd) io" where
  "open_beneath K directory path flags = sys (openat K directory (path_text path) flags)"

definition open_parent ::
  "('w, 'fd) kernel \<Rightarrow> 'fd \<Rightarrow> string \<Rightarrow> ('w, FilesystemError, 'fd \<times> string) io" where
  "open_parent K workspace val =
     io_bind (io_lift (checked_path val)) (\<lambda>path.
       if path = [] \<or> ends_with val ''/'' \<or> ends_with val ''/.'' then io_fail Fs_InvalidPath
       else io_bind (open_beneath K workspace (butlast path) DIRECTORY_FLAGS) (\<lambda>parent.
         io_ok (parent, last path)))"

definition path_join :: "string \<Rightarrow> string \<Rightarrow> string" where
  "path_join a b =
     (if starts_with b ''/'' then b else if a = [] \<or> ends_with a ''/'' then a @ b else a @ ''/'' @ b)"

end
