(* ===== verification/Fs_Trees.thy ===== *)
theory Fs_Trees
  imports Fs_Kernel
begin

section \<open>Directory trees\<close>

text \<open>
  The recursive functions of \<open>filesystem.rs\<close>.  Where the code counts the depth up to
  \<open>MAX_WORKSPACE_PATH_COMPONENTS\<close>, the definitions count the levels left down to zero.  Removal
  has no such bound: every level keeps a descriptor open, and when there is none left the open
  fails; the number of descriptors left is the argument the removal recurses on.
\<close>

text \<open>Open an entry for its metadata, and check its kind.\<close>

definition look_at ::
  "('w, 'fd) kernel \<Rightarrow> 'fd \<Rightarrow> string \<Rightarrow> ('w, FilesystemError, Stat \<times> FilesystemEntryKind \<times> u64) io" where
  "look_at K directory name =
     io_bind (sys (openat K directory name METADATA_FLAGS)) (\<lambda>fd.
     io_bind (sys (k_fstat K fd)) (\<lambda>st.
     io_bind (io_lift (safe_kind_and_size st)) (\<lambda>(kind, sz). io_ok (st, kind, sz))))"

primrec validate_tree ::
  "('w, 'fd) kernel \<Rightarrow> nat \<Rightarrow> 'fd \<Rightarrow> nat \<Rightarrow> ('w, FilesystemError, nat) io" where
  "validate_tree K 0 directory scanned = io_fail Fs_LimitExceeded"
| "validate_tree K (Suc n) directory scanned =
     io_bind (sys (k_dir K directory)) (\<lambda>stream.
       io_fold (\<lambda>scanned entry.
         io_bind (io_lift (map_err map_errno entry)) (\<lambda>name.
           if is_dot name then io_ok scanned
           else if scanned + 1 > MAX_FILESYSTEM_SCANNED_ENTRIES then io_fail Fs_LimitExceeded
           else io_bind (io_lift (cstr_to_string name)) (\<lambda>_.
             io_bind (look_at K directory name) (\<lambda>(st, kind, sz).
               if kind = Kind_Directory
               then io_bind (sys (openat K directory name DIRECTORY_FLAGS)) (\<lambda>child.
                      validate_tree K n child (scanned + 1))
               else io_ok (scanned + 1))))) scanned stream)"

definition validate_named_entry ::
  "('w, 'fd) kernel \<Rightarrow> 'fd \<Rightarrow> string \<Rightarrow> ('w, FilesystemError, unit) io" where
  "validate_named_entry K parent name =
     io_bind (look_at K parent name) (\<lambda>(st, kind, sz).
       if kind = Kind_Directory
       then io_bind (sys (openat K parent name DIRECTORY_FLAGS)) (\<lambda>directory.
            io_bind (validate_tree K MAX_WORKSPACE_PATH_COMPONENTS directory 0) (\<lambda>_. io_ok ()))
       else io_ok ())"

definition verify_published ::
  "('w, 'fd) kernel \<Rightarrow> 'fd \<Rightarrow> string \<Rightarrow> FileIdentity \<Rightarrow> FilesystemEntryKind
     \<Rightarrow> ('w, FilesystemError, unit) io" where
  "verify_published K parent name expected expected_kind =
     io_bind (look_at K parent name) (\<lambda>(st, kind, sz).
       if identity st \<noteq> expected \<or> kind \<noteq> expected_kind then io_fail Fs_UnsafeEntry
       else if kind = Kind_Directory
       then io_bind (sys (openat K parent name DIRECTORY_FLAGS)) (\<lambda>directory.
            io_bind (validate_tree K MAX_WORKSPACE_PATH_COMPONENTS directory 0) (\<lambda>_. io_ok ()))
       else io_ok ())"

subsection \<open>Search\<close>

record search_state =
  scanned :: nat
  encoded_bytes :: nat
  matches :: "FilesystemSearchMatch list"

text \<open>A name that contains the query is added, within the bounds.\<close>

definition add_match ::
  "('w, 'fd) kernel \<Rightarrow> string \<Rightarrow> string \<Rightarrow> string \<Rightarrow> FilesystemEntryKind \<Rightarrow> u64 \<Rightarrow> search_state
     \<Rightarrow> FilesystemError + search_state" where
  "add_match K query name entry_path kind sz acc =
     (if \<not> str_contains name query then Inr acc
      else if length (matches acc) = MAX_FILESYSTEM_SEARCH_RESULTS then Inl Fs_LimitExceeded
      else
        let found = \<lparr>match_path = entry_path, match_kind = kind, match_size = sz\<rparr>
        in and_then (ok_or (k_encode_match K found) Fs_LimitExceeded) (\<lambda>encoded.
             let bytes = encoded_bytes acc + (length encoded + 1)
             in if bytes > MAX_FILESYSTEM_SEARCH_ENCODED_BYTES then Inl Fs_LimitExceeded
                else Inr (acc\<lparr>encoded_bytes := bytes, matches := matches acc @ [found]\<rparr>)))"

primrec search_directory ::
  "('w, 'fd) kernel \<Rightarrow> string \<Rightarrow> nat \<Rightarrow> 'fd \<Rightarrow> string \<Rightarrow> search_state
     \<Rightarrow> ('w, FilesystemError, search_state) io" where
  "search_directory K query 0 directory prefix acc = io_fail Fs_LimitExceeded"
| "search_directory K query (Suc n) directory prefix acc =
     io_bind (sys (k_dir K directory)) (\<lambda>stream.
       io_fold (\<lambda>acc entry.
         io_bind (io_lift (map_err map_errno entry)) (\<lambda>name.
           if is_dot name then io_ok acc
           else if scanned acc + 1 > MAX_FILESYSTEM_SCANNED_ENTRIES then io_fail Fs_LimitExceeded
           else io_bind (io_lift (cstr_to_string name)) (\<lambda>name.
             let entry_path = (if prefix = [] then name else prefix @ ''/'' @ name)
             in if length entry_path > MAX_WORKSPACE_PATH_BYTES then io_fail Fs_LimitExceeded
                else io_bind (look_at K directory name) (\<lambda>(st, kind, sz).
                  io_bind (io_lift (add_match K query name entry_path kind sz
                      (acc\<lparr>scanned := scanned acc + 1\<rparr>))) (\<lambda>acc.
                    if kind = Kind_Directory
                    then io_bind (sys (openat K directory name DIRECTORY_FLAGS)) (\<lambda>child.
                           search_directory K query n child entry_path acc)
                    else io_ok acc))))) acc stream)"

subsection \<open>Copying\<close>

record CopyBudget =
  budget_entries :: nat
  budget_bytes :: u64

definition add_entry :: "CopyBudget \<Rightarrow> FilesystemError + CopyBudget" where
  "add_entry b =
     (let b = b\<lparr>budget_entries := budget_entries b + 1\<rparr>
      in if budget_entries b > MAX_INTERNAL_COPY_ENTRIES then Inl Fs_LimitExceeded else Inr b)"

definition add_file :: "nat \<Rightarrow> CopyBudget \<Rightarrow> FilesystemError + CopyBudget" where
  "add_file bytes b =
     and_then (add_entry b) (\<lambda>b.
     and_then (ok_or (checked_add (budget_bytes b) (word_of_nat bytes)) Fs_LimitExceeded) (\<lambda>n.
       if n > MAX_INTERNAL_COPY_TOTAL_BYTES then Inl Fs_LimitExceeded
       else Inr (b\<lparr>budget_bytes := n\<rparr>)))"

primrec copy_directory ::
  "('w, 'fd) kernel \<Rightarrow> nat \<Rightarrow> 'fd \<Rightarrow> 'fd \<Rightarrow> CopyBudget \<Rightarrow> ('w, FilesystemError, CopyBudget) io" where
  "copy_directory K 0 source destination budget = io_fail Fs_LimitExceeded"
| "copy_directory K (Suc n) source destination budget =
     io_bind (sys (k_dir K source)) (\<lambda>stream.
     io_bind (io_fold (\<lambda>budget entry.
         io_bind (io_lift (map_err map_errno entry)) (\<lambda>name.
           if is_dot name then io_ok budget
           else io_bind (io_lift (cstr_to_string name)) (\<lambda>_.
             io_bind (look_at K source name) (\<lambda>(st, kind, sz).
               case kind of
                 Kind_File \<Rightarrow>
                   io_bind (sys (openat K source name READ_FLAGS)) (\<lambda>source_file.
                   io_bind (read_regular_bounded K source_file MAX_INTERNAL_COPY_FILE_BYTES)
                     (\<lambda>(bytes, digest).
                   io_bind (io_lift (add_file (length bytes) budget)) (\<lambda>budget.
                   io_bind (create_staged_file K destination name bytes MAX_INTERNAL_COPY_FILE_BYTES
                       (safe_copy_mode (st_mode st))) (\<lambda>_.
                     io_ok budget))))
               | Kind_Directory \<Rightarrow>
                   io_bind (io_lift (add_entry budget)) (\<lambda>budget.
                   io_bind (sys (k_mkdirat K destination name MODE_DIRECTORY)) (\<lambda>_.
                   io_bind (sys (openat K source name DIRECTORY_FLAGS)) (\<lambda>source_child.
                   io_bind (sys (openat K destination name DIRECTORY_FLAGS)) (\<lambda>destination_child.
                     copy_directory K n source_child destination_child budget)))))))) budget stream)
       (\<lambda>budget. io_bind (sys_io (k_fsync K destination)) (\<lambda>_. io_ok budget)))"

subsection \<open>Removal\<close>

text \<open>The entries before the first read that fails.\<close>

fun read_until_error :: "('e + 'a) list \<Rightarrow> 'a list" where
  "read_until_error (Inr x # xs) = x # read_until_error xs"
| "read_until_error _ = []"

primrec remove_tree_best_effort_cstr ::
  "('w, 'fd) kernel \<Rightarrow> nat \<Rightarrow> 'fd \<Rightarrow> string \<Rightarrow> ('w, FilesystemError, unit) io" where
  "remove_tree_best_effort_cstr K 0 parent name = io_ignore (k_unlinkat K parent name False)"
| "remove_tree_best_effort_cstr K (Suc d) parent name =
     io_bind (io_try (openat K parent name DIRECTORY_FLAGS)) (\<lambda>opened.
       case opened of
         Inl _ \<Rightarrow> io_ignore (k_unlinkat K parent name False)
       | Inr directory \<Rightarrow>
           io_bind (io_try (k_dir K directory)) (\<lambda>stream.
           io_then
             (case stream of
                Inl _ \<Rightarrow> io_ok ()
              | Inr stream \<Rightarrow>
                  io_for_each (\<lambda>name. if is_dot name then io_ok ()
                      else remove_tree_best_effort_cstr K d directory name) (read_until_error stream))
             (io_ignore (k_unlinkat K parent name True))))"

definition remove_tree_best_effort ::
  "('w, 'fd) kernel \<Rightarrow> 'fd \<Rightarrow> string \<Rightarrow> ('w, FilesystemError, unit) io" where
  "remove_tree_best_effort K parent name =
     remove_tree_best_effort_cstr K (k_descriptors K) parent name"

primrec remove_tree_cstr ::
  "('w, 'fd) kernel \<Rightarrow> nat \<Rightarrow> 'fd \<Rightarrow> string \<Rightarrow> ('w, FilesystemError, unit) io" where
  "remove_tree_cstr K 0 parent name = sys (k_unlinkat K parent name False)"
| "remove_tree_cstr K (Suc d) parent name =
     io_bind (io_try (openat K parent name DIRECTORY_FLAGS)) (\<lambda>opened.
       case opened of
         Inl _ \<Rightarrow> sys (k_unlinkat K parent name False)
       | Inr directory \<Rightarrow>
           io_bind (sys (k_dir K directory)) (\<lambda>stream.
           io_then
             (io_for_each (\<lambda>entry.
                io_bind (io_lift (map_err map_errno entry)) (\<lambda>name.
                  if is_dot name then io_ok () else remove_tree_cstr K d directory name)) stream)
             (sys (k_unlinkat K parent name True))))"

definition remove_tree :: "('w, 'fd) kernel \<Rightarrow> 'fd \<Rightarrow> string \<Rightarrow> ('w, FilesystemError, unit) io" where
  "remove_tree K parent name = remove_tree_cstr K (k_descriptors K) parent name"

definition clear_directory :: "('w, 'fd) kernel \<Rightarrow> 'fd \<Rightarrow> ('w, FilesystemError, unit) io" where
  "clear_directory K directory =
     io_bind (sys (k_dir K directory)) (\<lambda>stream.
     io_then
       (io_for_each (\<lambda>entry.
          io_bind (io_lift (map_err map_errno entry)) (\<lambda>name.
            if is_dot name then io_ok ()
            else remove_tree_cstr K (k_descriptors K) directory name)) stream)
       (sys_io (k_fsync K directory)))"

definition quarantine_and_remove ::
  "('w, 'fd) kernel \<Rightarrow> 'fd \<Rightarrow> string \<Rightarrow> 'fd \<Rightarrow> ('w, FilesystemError, unit) io" where
  "quarantine_and_remove K parent name staging =
     io_bind (stage_name K ''quarantine'') (\<lambda>quarantine.
     io_then (sys (k_renameat K parent name staging quarantine Rename_NoReplace))
       (remove_tree K staging quarantine))"

end
