(* ===== verification/Fs_Operations.thy ===== *)
theory Fs_Operations
  imports Fs_Trees
begin

section \<open>The operations of the file system\<close>

text \<open>
  \<open>Filesystem\<close>, \<open>WorkspaceResolver\<close> and their operations from \<open>filesystem.rs\<close>, over the system
  calls of \<open>Fs_Kernel\<close>.  The record holds the descriptors that the code keeps open for good.
\<close>

record 'fd Filesystem =
  root_path :: string
  root_fd :: 'fd
  staging_fd :: 'fd
  recovery_fd :: 'fd

subsection \<open>Opening the root\<close>

text \<open>A directory that is made when it is missing.\<close>

definition make_directory ::
  "('w, 'fd) kernel \<Rightarrow> 'fd \<Rightarrow> string \<Rightarrow> ('w, FilesystemError, unit) io" where
  "make_directory K parent name =
     io_bind (io_try (k_mkdirat K parent name MODE_RWXU)) (\<lambda>made.
       case made of
         Inr _ \<Rightarrow> sys_io (k_fsync K parent)
       | Inl e \<Rightarrow> if e = EXIST then io_ok () else io_fail (map_errno e))"

text \<open>The staging and the recovery directory: private, on the device and of the owner of the root.\<close>

definition private_directory ::
  "('w, 'fd) kernel \<Rightarrow> 'fd \<Rightarrow> Stat \<Rightarrow> string \<Rightarrow> ('w, FilesystemError, 'fd) io" where
  "private_directory K root root_stat name =
     io_then (make_directory K root name)
     (io_bind (sys (openat K root name DIRECTORY_FLAGS)) (\<lambda>fd.
      io_bind (sys (k_fstat K fd)) (\<lambda>st.
        if \<not> is_directory st \<or> st_dev st \<noteq> st_dev root_stat \<or> st_uid st \<noteq> st_uid root_stat
           \<or> and (st_mode st) 0x3F \<noteq> 0
        then io_fail Fs_UnsafeEntry else io_ok fd)))"

definition fs_new :: "('w, 'fd) kernel \<Rightarrow> string \<Rightarrow> ('w, FilesystemError, 'fd Filesystem) io" where
  "fs_new K root =
     (if \<not> starts_with root ''/'' then io_fail Fs_InvalidPath
      else io_bind (sys_io (k_open K root DIRECTORY_FLAGS 0)) (\<lambda>root_fd.
        io_then (ensure_directory K root_fd)
        (io_bind (sys (k_fstat K root_fd)) (\<lambda>root_stat.
          if and (st_mode root_stat) 0x12 \<noteq> 0 then io_fail Fs_UnsafeEntry
          else io_bind (sys_io (openat K root_fd ''.'' (METADATA_FLAGS \<union> {O_DIRECTORY}))) (\<lambda>_.
               io_bind (private_directory K root_fd root_stat STAGING_DIRECTORY) (\<lambda>staging.
               io_then (clear_directory K staging)
               (io_bind (private_directory K root_fd root_stat RECOVERY_DIRECTORY) (\<lambda>recovery.
                 io_ok \<lparr>root_path = root, root_fd = root_fd, staging_fd = staging,
                        recovery_fd = recovery\<rparr>))))))))"

definition volume_of :: "('w, 'fd) kernel \<Rightarrow> uuid \<Rightarrow> string" where
  "volume_of K w = workspace_volume_name (k_hyphenated K) w"

definition workspace ::
  "('w, 'fd) kernel \<Rightarrow> 'fd Filesystem \<Rightarrow> uuid \<Rightarrow> ('w, FilesystemError, 'fd) io" where
  "workspace K F w =
     (if w = 0 then io_fail Fs_InvalidPath
      else io_map_err (\<lambda>e. if e = NOENT then Fs_WorkspaceNotFound else map_errno e)
             (openat K (root_fd F) (volume_of K w @ ''/'' @ VOLUME_DATA_DIRECTORY) DIRECTORY_FLAGS))"

definition ensure_workspace ::
  "('w, 'fd) kernel \<Rightarrow> 'fd Filesystem \<Rightarrow> uuid \<Rightarrow> ('w, FilesystemError, string) io" where
  "ensure_workspace K F w =
     (let name = volume_of K w
      in io_then (make_directory K (root_fd F) name)
         (io_bind (sys (openat K (root_fd F) name DIRECTORY_FLAGS)) (\<lambda>volume.
          io_then (make_directory K volume VOLUME_DATA_DIRECTORY)
          (io_bind (workspace K F w) (\<lambda>_.
            io_ok (path_join (path_join (root_path F) name) VOLUME_DATA_DIRECTORY))))))"

subsection \<open>Reading\<close>

definition require_directory ::
  "('w, 'fd) kernel \<Rightarrow> 'fd Filesystem \<Rightarrow> uuid \<Rightarrow> string \<Rightarrow> ('w, FilesystemError, unit) io" where
  "require_directory K F w path =
     io_bind (workspace K F w) (\<lambda>ws.
     io_bind (io_lift (checked_path path)) (\<lambda>path.
     io_bind (open_beneath K ws path DIRECTORY_FLAGS) (\<lambda>directory.
       ensure_directory K directory)))"

definition workspace_storage ::
  "('w, 'fd) kernel \<Rightarrow> 'fd Filesystem \<Rightarrow> uuid \<Rightarrow> ('w, FilesystemError, WorkspaceStorageIdentity) io" where
  "workspace_storage K F w =
     io_bind (workspace K F w) (\<lambda>ws.
     io_bind (sys (k_fstat K ws)) (\<lambda>st.
     io_then (ensure_directory K ws)
       (io_ok \<lparr>volume_name = volume_of K w, storage_device = st_dev st, storage_inode = st_ino st\<rparr>)))"

definition list_entries ::
  "('w, 'fd) kernel \<Rightarrow> 'fd Filesystem \<Rightarrow> uuid \<Rightarrow> string \<Rightarrow> ('w, FilesystemError, FilesystemEntry list) io" where
  "list_entries K F w path =
     io_bind (workspace K F w) (\<lambda>ws.
     io_bind (io_lift (checked_path path)) (\<lambda>path.
     io_bind (open_beneath K ws path DIRECTORY_FLAGS) (\<lambda>directory.
     io_bind (sys (k_dir K directory)) (\<lambda>stream.
     io_bind (io_fold (\<lambda>acc entry.
         io_bind (io_lift (map_err map_errno entry)) (\<lambda>name.
           if is_dot name then io_ok acc
           else if length acc = MAX_DIRECTORY_ENTRIES then io_fail Fs_LimitExceeded
           else io_bind (io_lift (cstr_to_string name)) (\<lambda>name.
             io_bind (look_at K directory name) (\<lambda>(st, kind, sz).
               io_ok (acc @ [\<lparr>entry_name = name, entry_kind = kind, entry_size = sz\<rparr>]))))) [] stream)
       (\<lambda>acc. io_ok (sort_key entry_name acc))))))"

definition read_file ::
  "('w, 'fd) kernel \<Rightarrow> 'fd Filesystem \<Rightarrow> uuid \<Rightarrow> string \<Rightarrow> ('w, FilesystemError, string \<times> string) io" where
  "read_file K F w path =
     io_bind (workspace K F w) (\<lambda>ws.
     io_bind (io_lift (checked_path path)) (\<lambda>path.
     io_bind (open_beneath K ws path METADATA_FLAGS) (\<lambda>metadata.
     io_bind (sys (k_fstat K metadata)) (\<lambda>st.
     io_bind (io_lift (safe_kind_and_size st)) (\<lambda>(kind, sz).
       if kind \<noteq> Kind_File then io_fail Fs_UnsafeEntry
       else io_bind (open_beneath K ws path READ_FLAGS) (\<lambda>fd. read_regular K fd))))))"

definition file_metadata ::
  "('w, 'fd) kernel \<Rightarrow> 'fd Filesystem \<Rightarrow> uuid \<Rightarrow> string \<Rightarrow> ('w, FilesystemError, FilesystemMetadata) io" where
  "file_metadata K F w path =
     io_bind (workspace K F w) (\<lambda>ws.
     io_bind (io_lift (checked_path path)) (\<lambda>path.
     io_bind (open_beneath K ws path METADATA_FLAGS) (\<lambda>fd. metadata_for_fd K fd)))"

definition search_files ::
  "('w, 'fd) kernel \<Rightarrow> 'fd Filesystem \<Rightarrow> uuid \<Rightarrow> string \<Rightarrow> string
     \<Rightarrow> ('w, FilesystemError, FilesystemSearchMatch list) io" where
  "search_files K F w path query =
     (if query = [] \<or> length query > MAX_FILESYSTEM_SEARCH_QUERY_BYTES \<or> CHR 0x00 \<in> set query
      then io_fail Fs_InvalidPath
      else io_bind (workspace K F w) (\<lambda>ws.
        io_bind (io_lift (checked_path path)) (\<lambda>path.
        io_bind (open_beneath K ws path DIRECTORY_FLAGS) (\<lambda>directory.
          let prefix = str_join ''/'' path
          in io_bind (search_directory K query MAX_WORKSPACE_PATH_COMPONENTS directory prefix
                \<lparr>scanned = 0, encoded_bytes = 0, matches = []\<rparr>) (\<lambda>acc.
               io_ok (sort_key match_path (matches acc)))))))"

subsection \<open>Writing\<close>

text \<open>The checks on what an exchange took out of the target's place.\<close>

definition validate_displaced ::
  "('w, 'fd) kernel \<Rightarrow> 'fd Filesystem \<Rightarrow> string \<Rightarrow> string option \<Rightarrow> ('w, FilesystemError, unit) io" where
  "validate_displaced K F stage expected_sha256 =
     io_bind (look_at K (staging_fd F) stage) (\<lambda>(st, kind, sz).
       if kind \<noteq> Kind_File then io_fail Fs_UnsafeEntry
       else case expected_sha256 of
         None \<Rightarrow> io_ok ()
       | Some expected \<Rightarrow>
           io_bind (sys (openat K (staging_fd F) stage READ_FLAGS)) (\<lambda>displaced.
           io_bind (read_regular K displaced) (\<lambda>(bytes, actual).
             if actual \<noteq> expected then io_fail Fs_Conflict else io_ok ())))"

text \<open>A failed validation after an exchange: exchange back, or quarantine what is there.\<close>

definition roll_back ::
  "('w, 'fd) kernel \<Rightarrow> 'fd Filesystem \<Rightarrow> 'fd \<Rightarrow> string \<Rightarrow> string \<Rightarrow> FilesystemError
     \<Rightarrow> ('w, FilesystemError, unit) io" where
  "roll_back K F parent name stage error =
     io_bind (io_is_ok (k_renameat K (staging_fd F) stage parent name Rename_Exchange)) (\<lambda>rolled_back.
     io_then (remove_tree_best_effort K (staging_fd F) stage)
     (if rolled_back
      then io_bind (io_is_ok (validate_named_entry K parent name)) (\<lambda>valid.
             io_then
               (if valid then io_ok ()
                else io_map_err (\<lambda>_. Fs_ContainmentFailure)
                       (quarantine_and_remove K parent name (staging_fd F)))
               (io_fail error))
      else io_fail Fs_UnsafeEntry))"

definition quarantine_published ::
  "('w, 'fd) kernel \<Rightarrow> 'fd Filesystem \<Rightarrow> 'fd \<Rightarrow> string \<Rightarrow> FilesystemError
     \<Rightarrow> ('w, FilesystemError, unit) io" where
  "quarantine_published K F parent name error =
     io_then
       (io_map_err (\<lambda>_. Fs_ContainmentFailure) (quarantine_and_remove K parent name (staging_fd F)))
       (io_fail error)"

text \<open>Publish the staged file: exchange it with the target, or rename it to a free name.\<close>

definition publish_staged ::
  "('w, 'fd) kernel \<Rightarrow> 'fd Filesystem \<Rightarrow> 'fd \<Rightarrow> string \<Rightarrow> string \<Rightarrow> FileIdentity \<Rightarrow> string option \<Rightarrow> bool
     \<Rightarrow> ('w, FilesystemError, unit) io" where
  "publish_staged K F parent name stage staged expected_sha256 target_exists =
     (if target_exists then
        io_bind (io_catch (sys (k_renameat K (staging_fd F) stage parent name Rename_Exchange))
          (\<lambda>e. io_then (remove_tree_best_effort K (staging_fd F) stage) (io_fail e))) (\<lambda>_.
        io_bind (io_catch
          (io_then (verify_published K parent name staged Kind_File)
             (validate_displaced K F stage expected_sha256))
          (roll_back K F parent name stage)) (\<lambda>_.
          remove_tree K (staging_fd F) stage))
      else
        io_bind (io_catch (sys (k_renameat K (staging_fd F) stage parent name Rename_NoReplace))
          (\<lambda>e. io_then (remove_tree_best_effort K (staging_fd F) stage) (io_fail e))) (\<lambda>_.
        io_catch (verify_published K parent name staged Kind_File)
          (quarantine_published K F parent name)))"

text \<open>The target as it is before the write, and the check of the expected digest.\<close>

definition check_target ::
  "('w, 'fd) kernel \<Rightarrow> 'fd \<Rightarrow> string \<Rightarrow> string option \<Rightarrow> ('w, FilesystemError, unit) io" where
  "check_target K parent name expected_sha256 =
     io_bind (io_try (openat K parent name METADATA_FLAGS)) (\<lambda>opened.
     io_then
       (case opened of
          Inr existing \<Rightarrow>
            io_bind (sys (k_fstat K existing)) (\<lambda>st.
            io_bind (io_lift (safe_kind_and_size st)) (\<lambda>(kind, sz).
              if kind \<noteq> Kind_File then io_fail Fs_UnsafeEntry else io_ok ()))
        | Inl e \<Rightarrow>
            if e = NOENT then (if expected_sha256 = None then io_ok () else io_fail Fs_NotFound)
            else io_fail (map_errno e))
       (case expected_sha256 of
          None \<Rightarrow> io_ok ()
        | Some expected \<Rightarrow>
            io_bind (sys (openat K parent name READ_FLAGS)) (\<lambda>existing.
            io_bind (read_regular K existing) (\<lambda>(bytes, actual).
              if actual \<noteq> expected then io_fail Fs_Conflict else io_ok ()))))"

text \<open>The part of a write after the checks: stage the bytes, publish them, sync both directories.\<close>

definition stage_and_publish ::
  "('w, 'fd) kernel \<Rightarrow> 'fd Filesystem \<Rightarrow> 'fd \<Rightarrow> string \<Rightarrow> string option \<Rightarrow> string
     \<Rightarrow> ('w, FilesystemError, string) io" where
  "stage_and_publish K F parent name expected_sha256 bytes =
     io_bind (io_is_ok (openat K parent name METADATA_FLAGS)) (\<lambda>target_exists.
     io_bind (stage_name K ''write'') (\<lambda>stage.
     io_bind (create_staged_file K (staging_fd F) stage bytes MAX_FILE_PAYLOAD_BYTES MODE_FILE)
       (\<lambda>(digest, staged).
     io_then
       (io_catch (verify_published K (staging_fd F) stage staged Kind_File)
          (\<lambda>e. io_then (remove_tree_best_effort K (staging_fd F) stage) (io_fail e)))
     (io_then (publish_staged K F parent name stage staged expected_sha256 target_exists)
     (io_then (sys_io (k_fsync K parent))
     (io_then (sys_io (k_fsync K (staging_fd F)))
       (io_ok digest)))))))"

definition atomic_write ::
  "('w, 'fd) kernel \<Rightarrow> 'fd Filesystem \<Rightarrow> uuid \<Rightarrow> string \<Rightarrow> string option \<Rightarrow> string
     \<Rightarrow> ('w, FilesystemError, string) io" where
  "atomic_write K F w path expected_sha256 bytes =
     (if length bytes > MAX_FILE_PAYLOAD_BYTES then io_fail Fs_LimitExceeded
      else io_bind (workspace K F w) (\<lambda>ws.
        io_bind (open_parent K ws path) (\<lambda>(parent, name).
        io_then (check_target K parent name expected_sha256)
          (stage_and_publish K F parent name expected_sha256 bytes))))"

definition write_file ::
  "('w, 'fd) kernel \<Rightarrow> 'fd Filesystem \<Rightarrow> uuid \<Rightarrow> string \<Rightarrow> string \<Rightarrow> ('w, FilesystemError, string) io" where
  "write_file K F w path bytes = atomic_write K F w path None bytes"

definition patch_file ::
  "('w, 'fd) kernel \<Rightarrow> 'fd Filesystem \<Rightarrow> uuid \<Rightarrow> string \<Rightarrow> string \<Rightarrow> string
     \<Rightarrow> ('w, FilesystemError, string) io" where
  "patch_file K F w path expected_sha256 bytes =
     (if length expected_sha256 \<noteq> 64
         \<or> \<not> list_all (\<lambda>c. is_ascii_digit (byte c) \<or> 97 \<le> byte c \<and> byte c \<le> 102) expected_sha256
      then io_fail Fs_InvalidPath
      else atomic_write K F w path (Some expected_sha256) bytes)"

end
