(* ===== verification/Fs_Mutations.thy ===== *)
theory Fs_Mutations
  imports Fs_Operations
begin

section \<open>Directories, moves, copies and deletions\<close>

text \<open>
  The remaining mutations of \<open>Filesystem\<close> in \<open>filesystem.rs\<close>, and the check of a volume against
  the storage of its workspace.
\<close>

definition make_dir ::
  "('w, 'fd) kernel \<Rightarrow> 'fd Filesystem \<Rightarrow> uuid \<Rightarrow> string \<Rightarrow> ('w, FilesystemError, unit) io" where
  "make_dir K F w path =
     io_bind (workspace K F w) (\<lambda>ws.
     io_bind (open_parent K ws path) (\<lambda>(parent, name).
     io_then (sys (k_mkdirat K parent name MODE_DIRECTORY))
     (io_then
       (io_catch
          (io_bind (sys (openat K parent name METADATA_FLAGS)) (\<lambda>fd.
           io_then (ensure_directory K fd)
           (io_bind (sys (openat K parent name DIRECTORY_FLAGS)) (\<lambda>directory.
            io_bind (validate_tree K MAX_WORKSPACE_PATH_COMPONENTS directory 0) (\<lambda>_. io_ok ())))))
          (quarantine_published K F parent name))
       (sys_io (k_fsync K parent)))))"

text \<open>\<open>Path::starts_with\<close> compares components.\<close>

definition inside :: "string list \<Rightarrow> string list \<Rightarrow> bool" where
  "inside source destination \<longleftrightarrow> take (length source) destination = source"

definition move_entry ::
  "('w, 'fd) kernel \<Rightarrow> 'fd Filesystem \<Rightarrow> uuid \<Rightarrow> string \<Rightarrow> string \<Rightarrow> ('w, FilesystemError, unit) io" where
  "move_entry K F w from to =
     io_bind (workspace K F w) (\<lambda>ws.
     io_bind (io_lift (checked_path from)) (\<lambda>source_path.
     io_bind (io_lift (checked_path to)) (\<lambda>destination_path.
       if source_path = [] then io_fail Fs_InvalidPath
       else io_bind (open_beneath K ws source_path METADATA_FLAGS) (\<lambda>source.
         io_bind (sys (k_fstat K source)) (\<lambda>st.
         io_bind (io_lift (safe_kind_and_size st)) (\<lambda>(kind, sz).
         io_then
           (if kind = Kind_Directory then
              (if inside source_path destination_path then io_fail Fs_InvalidPath
               else io_bind (open_beneath K ws source_path DIRECTORY_FLAGS) (\<lambda>source_directory.
                    io_bind (validate_tree K MAX_WORKSPACE_PATH_COMPONENTS source_directory 0) (\<lambda>_.
                      io_ok ())))
            else io_ok ())
         (io_bind (open_parent K ws from) (\<lambda>(source_parent, source_name).
          io_bind (open_parent K ws to) (\<lambda>(destination_parent, destination_name).
          io_then (sys (k_renameat K source_parent source_name destination_parent destination_name
              Rename_NoReplace))
          (io_then
            (io_catch (verify_published K destination_parent destination_name (identity st) kind)
               (quarantine_published K F destination_parent destination_name))
          (io_then (sys_io (k_fsync K source_parent))
            (sys_io (k_fsync K destination_parent))))))))))))) "

text \<open>The copy in the staging directory; its identity.\<close>

definition stage_copy ::
  "('w, 'fd) kernel \<Rightarrow> 'fd Filesystem \<Rightarrow> 'fd \<Rightarrow> string list \<Rightarrow> Stat \<Rightarrow> FilesystemEntryKind \<Rightarrow> string
     \<Rightarrow> ('w, FilesystemError, FilesystemError + FileIdentity) io" where
  "stage_copy K F ws source_path st kind stage =
     (let budget = \<lparr>budget_entries = 0, budget_bytes = 0\<rparr>
      in case kind of
        Kind_File \<Rightarrow>
          io_bind (open_beneath K ws source_path READ_FLAGS) (\<lambda>source.
          io_bind (read_regular_bounded K source MAX_INTERNAL_COPY_FILE_BYTES) (\<lambda>(bytes, digest).
          io_bind (io_lift (add_file (length bytes) budget)) (\<lambda>_.
            io_try (io_bind (create_staged_file K (staging_fd F) stage bytes
                MAX_INTERNAL_COPY_FILE_BYTES (safe_copy_mode (st_mode st)))
              (\<lambda>(digest, staged). io_ok staged)))))
      | Kind_Directory \<Rightarrow>
          io_then (sys (k_mkdirat K (staging_fd F) stage MODE_DIRECTORY))
          (io_try
            (io_bind (open_beneath K ws source_path DIRECTORY_FLAGS) (\<lambda>source.
             io_bind (sys (openat K (staging_fd F) stage DIRECTORY_FLAGS)) (\<lambda>destination.
             io_bind (sys (k_fstat K destination)) (\<lambda>destination_stat.
             io_bind (copy_directory K MAX_WORKSPACE_PATH_COMPONENTS source destination budget) (\<lambda>_.
               io_ok (identity destination_stat))))))))"

text \<open>An error after which the staged entry is removed.\<close>

definition abandon_stage ::
  "('w, 'fd) kernel \<Rightarrow> 'fd Filesystem \<Rightarrow> string \<Rightarrow> FilesystemError \<Rightarrow> ('w, FilesystemError, 'a) io" where
  "abandon_stage K F stage e =
     io_then (remove_tree_best_effort K (staging_fd F) stage) (io_fail e)"

definition copy_entry ::
  "('w, 'fd) kernel \<Rightarrow> 'fd Filesystem \<Rightarrow> uuid \<Rightarrow> string \<Rightarrow> string \<Rightarrow> ('w, FilesystemError, unit) io" where
  "copy_entry K F w from to =
     io_bind (workspace K F w) (\<lambda>ws.
     io_bind (io_lift (checked_path from)) (\<lambda>source_path.
     io_bind (io_lift (checked_path to)) (\<lambda>destination_path.
     io_bind (open_beneath K ws source_path METADATA_FLAGS) (\<lambda>source_metadata.
     io_bind (sys (k_fstat K source_metadata)) (\<lambda>st.
     io_bind (io_lift (safe_kind_and_size st)) (\<lambda>(kind, sz).
       if kind = Kind_Directory \<and> (source_path = [] \<or> inside source_path destination_path)
       then io_fail Fs_InvalidPath
       else io_bind (open_parent K ws to) (\<lambda>(destination_parent, destination_name).
         io_bind (stage_name K ''copy'') (\<lambda>stage.
         io_bind (io_bind (stage_copy K F ws source_path st kind stage) (\<lambda>staged.
             case staged of Inr x \<Rightarrow> io_ok x | Inl e \<Rightarrow> abandon_stage K F stage e)) (\<lambda>staged_identity.
         io_then
           (io_catch (verify_published K (staging_fd F) stage staged_identity kind)
              (abandon_stage K F stage))
         (io_then
           (io_catch (sys (k_renameat K (staging_fd F) stage destination_parent destination_name
                Rename_NoReplace)) (abandon_stage K F stage))
         (io_then
           (io_catch (verify_published K destination_parent destination_name staged_identity kind)
              (quarantine_published K F destination_parent destination_name))
           (sys_io (k_fsync K destination_parent))))))))))))) "

definition delete_entry ::
  "('w, 'fd) kernel \<Rightarrow> 'fd Filesystem \<Rightarrow> uuid \<Rightarrow> string \<Rightarrow> ('w, FilesystemError, unit) io" where
  "delete_entry K F w path =
     io_bind (workspace K F w) (\<lambda>ws.
     io_bind (open_parent K ws path) (\<lambda>(parent, name).
     io_bind (look_at K parent name) (\<lambda>(st, kind, sz).
     io_bind (stage_name K ''delete'') (\<lambda>stage.
     io_then (sys (k_renameat K parent name (staging_fd F) stage Rename_NoReplace))
     (io_then
       (io_catch (verify_published K (staging_fd F) stage (identity st) kind)
          (abandon_stage K F stage))
     (io_then (remove_tree K (staging_fd F) stage)
       (sys_io (k_fsync K parent))))))))"

subsection \<open>Volumes\<close>

definition expected_mountpoint :: "('w, 'fd) kernel \<Rightarrow> 'fd Filesystem \<Rightarrow> uuid \<Rightarrow> string" where
  "expected_mountpoint K F w =
     path_join (path_join (root_path F) (volume_of K w)) VOLUME_DATA_DIRECTORY"

text \<open>Paths are compared by their components.\<close>

definition verify_volume ::
  "('w, 'fd) kernel \<Rightarrow> 'fd Filesystem \<Rightarrow> uuid \<Rightarrow> string \<Rightarrow> string \<Rightarrow> string \<Rightarrow> WorkspaceStorageIdentity
     \<Rightarrow> ('w, FilesystemError, unit) io" where
  "verify_volume K F w driver options mountpoint expected =
     (let name = volume_of K w
      in if w = 0 \<or> driver \<noteq> ''local'' \<or> options \<noteq> ''{}'' \<or> volume_name expected \<noteq> name
            \<or> CHR 0x00 \<in> set mountpoint
            \<or> path_components mountpoint \<noteq> path_components (expected_mountpoint K F w)
         then io_fail Fs_UnsafeEntry
         else io_bind (sys (openat K (root_fd F) (name @ ''/'' @ VOLUME_DATA_DIRECTORY) DIRECTORY_FLAGS))
           (\<lambda>fd.
           io_bind (sys (k_fstat K fd)) (\<lambda>st.
             if st_dev st \<noteq> storage_device expected \<or> st_ino st \<noteq> storage_inode expected
             then io_fail Fs_UnsafeEntry else io_ok ())))"

end
