(* ===== verification/Fs_Laws.thy ===== *)
theory Fs_Laws
  imports Fs_Mutations
begin

section \<open>Isolation of workspaces\<close>

text \<open>
  What the file system can reach is decided by the descriptors it uses.  A set of descriptors
  (\<open>own\<close>) is confined for a predicate on the state when opening below one of them, with the
  resolve flags of the code, gives one of them again, and no call on them changes the
  predicate.  This is what \<open>openat2\<close> promises, whatever the path, for the flags in \<open>RESOLVE\<close>: a
  descriptor for a directory reaches only what is below it.  The other calls with a name
  promise it only for a name that is one component and no dot: \<open>mkdirat\<close>, \<open>unlinkat\<close> and \<open>renameat\<close>
  follow a path of more components wherever it leads.  The names in a directory are single
  components, dots among them, and the text of a UUID has no slash.
\<close>

definition plain_name :: "string \<Rightarrow> bool" where
  "plain_name n \<longleftrightarrow> n \<noteq> [] \<and> CHR ''/'' \<notin> set n \<and> \<not> is_dot n"

definition entry_names :: "('e + string) list \<Rightarrow> bool" where
  "entry_names stream \<longleftrightarrow> (\<forall>name. Inr name \<in> set stream \<longrightarrow> name \<noteq> [] \<and> CHR ''/'' \<notin> set name)"

definition kernel_confined :: "('w, 'fd) kernel \<Rightarrow> ('fd \<Rightarrow> bool) \<Rightarrow> ('w \<Rightarrow> bool) \<Rightarrow> bool" where
  "kernel_confined K own P \<longleftrightarrow>
     (\<forall>fd. own fd \<longrightarrow>
        (\<forall>path flags mode. yields P own (k_openat2 K fd path flags mode RESOLVE))
        \<and> keeps P (k_fstat K fd) \<and> yields P entry_names (k_dir K fd) \<and> (\<forall>n. keeps P (k_read K fd n))
        \<and> (\<forall>name mode. plain_name name \<longrightarrow> keeps P (k_mkdirat K fd name mode))
        \<and> (\<forall>name isdir. plain_name name \<longrightarrow> keeps P (k_unlinkat K fd name isdir))
        \<and> (\<forall>mode. keeps P (k_fchmod K fd mode)) \<and> keeps P (k_fsync K fd)
        \<and> (\<forall>bytes. keeps P (k_write_all K fd bytes)) \<and> keeps P (k_sync_all K fd)
        \<and> (\<forall>name to new how. plain_name name \<longrightarrow> own to \<longrightarrow> plain_name new \<longrightarrow>
             keeps P (k_renameat K fd name to new how)))
     \<and> (\<forall>s. P s \<longrightarrow> P (snd (k_uuid K s))) \<and> (\<forall>u. CHR ''/'' \<notin> set (k_hyphenated K u))"

lemma kernel_confined_yields:
  assumes "kernel_confined K own P" and "own fd"
  shows "yields P own (k_openat2 K fd path flags mode RESOLVE)" "yields P entry_names (k_dir K fd)"
  using assms unfolding kernel_confined_def by blast+

lemma kernel_confinedD:
  assumes "kernel_confined K own P" and "own fd"
  shows "yields P own (k_openat2 K fd path flags mode RESOLVE)"
    "keeps P (k_fstat K fd)" "keeps P (k_dir K fd)" "keeps P (k_read K fd n)"
    "plain_name name \<Longrightarrow> keeps P (k_mkdirat K fd name mode)" "plain_name name \<Longrightarrow> keeps P (k_unlinkat K fd name isdir)"
    "keeps P (k_fchmod K fd mode)" "keeps P (k_fsync K fd)"
    "keeps P (k_write_all K fd bytes)" "keeps P (k_sync_all K fd)"
    "plain_name name \<Longrightarrow> own to \<Longrightarrow> plain_name new \<Longrightarrow> keeps P (k_renameat K fd name to new how)"
    "P s \<Longrightarrow> P (snd (k_uuid K s))" "CHR ''/'' \<notin> set (k_hyphenated K u)"
  using assms yields_imp_keeps [OF kernel_confined_yields(2) [OF assms]] unfolding kernel_confined_def by blast+

text \<open>The names that the code makes up, and the components of a path that was checked.\<close>

lemma plain_stage_name:
  "kernel_confined K own P \<Longrightarrow> CHR ''/'' \<notin> set operation \<Longrightarrow> plain_name (''.gobrowse-'' @ operation @ ''-'' @ k_hyphenated K u)"
  by (simp add: plain_name_def is_dot_def kernel_confined_def)

lemma checked_path_plain:
  assumes "checked_path val = Inr path" "c \<in> set path"
  shows "plain_name c"
proof -
  have "x = Normal c" if "normal_component x = Some c" for x using that by (cases x) simp_all
  then have "Normal c \<in> set (path_components val)"
    using assms by (auto simp: checked_path_def validate_workspace_path_def Let_def map_filter_def split: if_splits)
  then show ?thesis
    by (auto simp: path_components_def plain_name_def is_dot_def Let_def dest: split_on_sep split: if_splits)
qed

text \<open>The calls and the functions over them, from the leaves up.\<close>

named_theorems confined \<open>functions that keep what the descriptors they get keep\<close>

lemma keeps_sys [keeps_rules]: "keeps P m \<Longrightarrow> keeps P (sys m)" "keeps P m \<Longrightarrow> keeps P (sys_io m)"
  unfolding sys_def sys_io_def by (simp_all add: keeps_map_err)

lemma keeps_openat [confined]:
  "kernel_confined K own P \<Longrightarrow> own fd \<Longrightarrow> yields P own (sys (openat K fd path flags))"
  unfolding openat_def sys_def by (rule yields_map_err, rule kernel_confinedD(1))

lemma keeps_bind_own:
  "yields P own m \<Longrightarrow> (\<And>fd. own fd \<Longrightarrow> keeps P (f fd)) \<Longrightarrow> keeps P (io_bind m f)"
  unfolding yields_keeps by (rule yields_bind)

lemma yields_bind_any:
  "keeps P m \<Longrightarrow> (\<And>x. yields P Q (f x)) \<Longrightarrow> yields P Q (io_bind m f)"
  unfolding yields_keeps by (rule yields_bind)

lemma yields_then_any: "keeps P m \<Longrightarrow> yields P Q n \<Longrightarrow> yields P Q (io_then m n)"
  unfolding io_then_def by (rule yields_bind_any)

lemma keeps_stage_name [confined]: "kernel_confined K own P \<Longrightarrow> keeps P (stage_name K operation)"
  by (auto intro!: keepsI simp: stage_name_def kernel_confined_def split: prod.split) (metis snd_conv)

lemma keeps_stage_then:
  assumes C: "kernel_confined K own P" and "CHR ''/'' \<notin> set operation"
    and "\<And>stage. plain_name stage \<Longrightarrow> keeps P (f stage)"
  shows "keeps P (io_bind (stage_name K operation) f)"
proof -
  have "yields P plain_name (stage_name K operation)"
    using plain_stage_name [OF C assms(2)] C
    by (auto simp: yields_def stage_name_def kernel_confined_def split: prod.split dest: spec)
  then show ?thesis unfolding yields_keeps by (rule yields_bind) (simp add: yields_keeps [symmetric] assms(3))
qed

lemma keeps_dir_then:
  assumes C: "kernel_confined K own P" and "own fd" and "\<And>stream. entry_names stream \<Longrightarrow> keeps P (f stream)"
  shows "keeps P (io_bind (sys (k_dir K fd)) f)"
proof -
  have "yields P entry_names (sys (k_dir K fd))"
    unfolding sys_def by (rule yields_map_err [OF kernel_confined_yields(2) [OF C assms(2)]])
  then show ?thesis unfolding yields_keeps by (rule yields_bind) (simp add: yields_keeps [symmetric] assms(3))
qed

text \<open>A name of a directory that is no dot is a plain name.\<close>

lemma keeps_entry_then:
  assumes "entry_names stream" "entry \<in> set stream"
    and "\<And>name. name \<noteq> [] \<Longrightarrow> CHR ''/'' \<notin> set name \<Longrightarrow> keeps P (f name)"
  shows "keeps P (io_bind (io_lift (map_err map_errno entry)) f)"
proof (cases entry)
  case (Inr name)
  then have "name \<noteq> [] \<and> CHR ''/'' \<notin> set name" using assms(1,2) by (auto simp: entry_names_def)
  then show ?thesis using assms(3) Inr by (simp add: io_bind_def io_lift_def keeps_def)
qed (simp add: io_bind_def io_lift_def io_fail_def keeps_def)

lemma keeps_unless_dot:
  assumes "name \<noteq> []" "CHR ''/'' \<notin> set name" "keeps P m" "plain_name name \<Longrightarrow> keeps P n"
  shows "keeps P (if is_dot name then m else n)"
  using assms by (simp add: plain_name_def)

lemma read_until_error_names: "entry_names stream \<Longrightarrow> name \<in> set (read_until_error stream) \<Longrightarrow> name \<noteq> [] \<and> CHR ''/'' \<notin> set name"
  by (induction stream rule: read_until_error.induct) (auto simp: entry_names_def)

lemma keeps_if [keeps_rules]: "keeps P m \<Longrightarrow> keeps P n \<Longrightarrow> keeps P (if b then m else n)"
  by simp

lemma keeps_prod [keeps_rules]: "(\<And>a b. keeps P (f a b)) \<Longrightarrow> keeps P (case p of (a, b) \<Rightarrow> f a b)"
  by (cases p) simp

lemma keeps_sum [keeps_rules]:
  "(\<And>a. keeps P (f a)) \<Longrightarrow> (\<And>b. keeps P (g b)) \<Longrightarrow> keeps P (case x of Inl a \<Rightarrow> f a | Inr b \<Rightarrow> g b)"
  by (cases x) simp_all

lemma keeps_option [keeps_rules]:
  "keeps P m \<Longrightarrow> (\<And>a. keeps P (f a)) \<Longrightarrow> keeps P (case x of None \<Rightarrow> m | Some a \<Rightarrow> f a)"
  by (cases x) simp_all

lemma keeps_kind [keeps_rules]:
  "keeps P m \<Longrightarrow> keeps P n \<Longrightarrow> keeps P (case k of Kind_File \<Rightarrow> m | Kind_Directory \<Rightarrow> n)"
  by (cases k) simp_all

lemma keeps_let [keeps_rules]: "(\<And>x. keeps P (f x)) \<Longrightarrow> keeps P (Let a f)"
  by (simp add: Let_def)

text \<open>
  From here on a lemma says of a function that it keeps what its descriptors keep.  The
  argument \<open>C\<close> of each is the confinement.
\<close>

lemma keeps_ensure_directory [confined]:
  assumes C: "kernel_confined K own P" and "own fd"
  shows "keeps P (ensure_directory K fd)"
  unfolding ensure_directory_def by (intro keeps_rules kernel_confinedD [OF C] assms)

lemma keeps_metadata_for_fd [confined]:
  assumes C: "kernel_confined K own P" and "own fd"
  shows "keeps P (metadata_for_fd K fd)"
  unfolding metadata_for_fd_def by (intro keeps_rules kernel_confinedD [OF C] assms)

lemma keeps_read_regular_bounded [confined]:
  assumes C: "kernel_confined K own P" and "own fd"
  shows "keeps P (read_regular_bounded K fd maximum)"
  unfolding read_regular_bounded_def by (intro keeps_rules kernel_confinedD [OF C] assms)

lemma keeps_read_regular [confined]:
  assumes C: "kernel_confined K own P" and "own fd"
  shows "keeps P (read_regular K fd)"
  unfolding read_regular_def by (rule keeps_read_regular_bounded [OF assms])

lemma keeps_openat_then:
  assumes C: "kernel_confined K own P" and "own fd" and "\<And>fd. own fd \<Longrightarrow> keeps P (f fd)"
  shows "keeps P (io_bind (sys (openat K fd path flags)) f)"
  by (rule keeps_bind_own [OF keeps_openat [OF C assms(2)] assms(3)])

lemma keeps_look_at [confined]:
  assumes C: "kernel_confined K own P" and "own fd"
  shows "keeps P (look_at K fd name)"
  unfolding look_at_def
  by (intro keeps_openat_then [OF C] keeps_rules kernel_confinedD [OF C] assms)

lemma keeps_create [confined]:
  assumes C: "kernel_confined K own P" and "own fd" and "plain_name name"
  shows "keeps P (create_staged_file K fd name bytes maximum mode)"
proof -
  have "yields P own (sys (k_openat2 K fd name CREATE_FLAGS mode RESOLVE))"
    unfolding sys_def by (intro yields_map_err kernel_confinedD [OF C] assms)
  then show ?thesis
    unfolding create_staged_file_def
    by (intro keeps_rules keeps_bind_own [of P own] kernel_confinedD [OF C] assms)
qed

lemma keeps_validate_tree [confined]:
  assumes C: "kernel_confined K own P"
  shows "own fd \<Longrightarrow> keeps P (validate_tree K n fd seen)"
proof (induction n arbitrary: fd seen)
  case (Suc n)
  then show ?case
    unfolding validate_tree.simps
    by (intro keeps_openat_then [OF C] keeps_rules keeps_look_at [OF C] kernel_confinedD [OF C])
qed simp

lemma keeps_validate_named [confined]:
  assumes C: "kernel_confined K own P" and "own fd"
  shows "keeps P (validate_named_entry K fd name)"
  unfolding validate_named_entry_def
  by (intro keeps_openat_then [OF C] keeps_rules confined [OF C] assms)

lemma keeps_verify_published [confined]:
  assumes C: "kernel_confined K own P" and "own fd"
  shows "keeps P (verify_published K fd name expected kind)"
  unfolding verify_published_def
  by (intro keeps_openat_then [OF C] keeps_rules confined [OF C] assms)

lemma keeps_search_directory [confined]:
  assumes C: "kernel_confined K own P"
  shows "own fd \<Longrightarrow> keeps P (search_directory K query n fd prefix acc)"
proof (induction n arbitrary: fd prefix acc)
  case (Suc n)
  then show ?case
    unfolding search_directory.simps
    by (intro keeps_openat_then [OF C] keeps_rules confined [OF C] kernel_confinedD [OF C])
qed simp

lemma keeps_copy_directory [confined]:
  assumes C: "kernel_confined K own P"
  shows "own a \<Longrightarrow> own b \<Longrightarrow> keeps P (copy_directory K n a b budget)"
proof (induction n arbitrary: a b budget)
  case (Suc n)
  then show ?case
    unfolding copy_directory.simps
    by (intro keeps_dir_then [OF C] keeps_openat_then [OF C] keeps_entry_then keeps_unless_dot keeps_rules
        confined [OF C] kernel_confinedD [OF C])
qed simp

text \<open>In a removal the directory may fail to open.\<close>

lemma keeps_try_openat:
  assumes C: "kernel_confined K own P" and "own fd"
    and "\<And>e. keeps P (f (Inl e))" and "\<And>d. own d \<Longrightarrow> keeps P (f (Inr d))"
  shows "keeps P (io_bind (io_try (openat K fd path flags)) f)"
proof -
  have "yields P own (openat K fd path flags)"
    unfolding openat_def by (rule kernel_confinedD [OF C assms(2)])
  then have "yields P (\<lambda>r. case r of Inl _ \<Rightarrow> True | Inr d \<Rightarrow> own d) (io_try (openat K fd path flags))"
    by (rule yields_try) simp_all
  then show ?thesis
    unfolding yields_keeps
    by (rule yields_bind) (use assms(3,4) in \<open>auto simp: yields_keeps split: sum.splits\<close>)
qed

lemma keeps_try_dir:
  assumes C: "kernel_confined K own P" and "own fd"
    and "\<And>e. keeps P (f (Inl e))" and "\<And>stream. entry_names stream \<Longrightarrow> keeps P (f (Inr stream))"
  shows "keeps P (io_bind (io_try (k_dir K fd)) f)"
proof -
  have "yields P (\<lambda>r. case r of Inl _ \<Rightarrow> True | Inr stream \<Rightarrow> entry_names stream) (io_try (k_dir K fd))"
    by (rule yields_try [OF kernel_confined_yields(2) [OF C assms(2)]]) simp_all
  then show ?thesis
    unfolding yields_keeps
    by (rule yields_bind) (use assms(3,4) in \<open>auto simp: yields_keeps split: sum.splits\<close>)
qed

lemma keeps_remove_best_effort_cstr [confined]:
  assumes C: "kernel_confined K own P"
  shows "own fd \<Longrightarrow> plain_name name \<Longrightarrow> keeps P (remove_tree_best_effort_cstr K d fd name)"
proof (induction d arbitrary: fd name)
  case 0
  then show ?case by (simp add: keeps_ignore kernel_confinedD [OF C])
next
  case (Suc d)
  have listed: "keeps P (io_for_each (\<lambda>name. if is_dot name then io_ok ()
      else remove_tree_best_effort_cstr K d fd name) (read_until_error stream))"
    if "own fd" "entry_names stream" for fd stream
    using read_until_error_names [OF that(2)] Suc.IH [OF that(1)]
    by (intro keeps_for_each) (auto simp: plain_name_def intro: keeps_rules)
  show ?case
    unfolding remove_tree_best_effort_cstr.simps
  proof (rule keeps_try_openat [OF C Suc.prems(1)], goal_cases)
    case (1 e)
    show ?case by (simp add: keeps_ignore kernel_confinedD(6) [OF C Suc.prems])
  next
    case (2 directory)
    show ?case
      unfolding sum.case
      by (rule keeps_try_dir [OF C 2])
        (simp_all add: keeps_then keeps_ok keeps_ignore kernel_confinedD(6) [OF C Suc.prems] listed [OF 2])
  qed
qed

lemma keeps_remove_best_effort [confined]:
  assumes "kernel_confined K own P" and "own fd" and "plain_name name"
  shows "keeps P (remove_tree_best_effort K fd name)"
  unfolding remove_tree_best_effort_def by (intro confined [OF assms(1)] assms)

lemma keeps_remove_tree_cstr [confined]:
  assumes C: "kernel_confined K own P"
  shows "own fd \<Longrightarrow> plain_name name \<Longrightarrow> keeps P (remove_tree_cstr K d fd name)"
proof (induction d arbitrary: fd name)
  case 0
  then show ?case by (simp add: keeps_sys kernel_confinedD [OF C])
next
  case (Suc d)
  have listed: "keeps P (io_for_each (\<lambda>entry. io_bind (io_lift (map_err map_errno entry)) (\<lambda>name.
      if is_dot name then io_ok () else remove_tree_cstr K d fd name)) stream)"
    if "own fd" "entry_names stream" for fd stream
    by (intro keeps_for_each keeps_entry_then [OF that(2)] keeps_unless_dot keeps_rules Suc.IH [OF that(1)])
  show ?case
    unfolding remove_tree_cstr.simps
  proof (rule keeps_try_openat [OF C Suc.prems(1)], goal_cases)
    case (1 e)
    show ?case by (simp add: keeps_sys kernel_confinedD(6) [OF C Suc.prems])
  next
    case (2 directory)
    show ?case
      unfolding sum.case
      by (rule keeps_dir_then [OF C 2])
        (intro keeps_then keeps_sys kernel_confinedD(6) [OF C Suc.prems] listed [OF 2])
  qed
qed

lemma keeps_remove_tree [confined]:
  assumes "kernel_confined K own P" and "own fd" and "plain_name name"
  shows "keeps P (remove_tree K fd name)"
  unfolding remove_tree_def by (intro confined [OF assms(1)] assms)

lemma keeps_quarantine [confined]:
  assumes C: "kernel_confined K own P" and "own fd" and "own staging" and "plain_name name"
  shows "keeps P (quarantine_and_remove K fd name staging)"
  unfolding quarantine_and_remove_def
  by (intro keeps_stage_then [OF C] keeps_rules confined [OF C] kernel_confinedD [OF C] assms) simp_all

lemma keeps_quarantine_published [confined]:
  assumes C: "kernel_confined K own P" and "own fd" and "own (staging_fd F)" and "plain_name name"
  shows "keeps P (quarantine_published K F fd name e)"
  unfolding quarantine_published_def by (intro keeps_rules confined [OF C] assms)

lemma keeps_abandon_stage [confined]:
  assumes C: "kernel_confined K own P" and "own (staging_fd F)" and "plain_name stage"
  shows "keeps P (abandon_stage K F stage e)"
  unfolding abandon_stage_def by (intro keeps_rules confined [OF C] assms)

lemma keeps_roll_back [confined]:
  assumes C: "kernel_confined K own P" and "own fd" and "own (staging_fd F)" and "plain_name name" "plain_name stage"
  shows "keeps P (roll_back K F fd name stage e)"
  unfolding roll_back_def
  by (intro keeps_rules confined [OF C] kernel_confinedD [OF C] assms)

lemma keeps_validate_displaced [confined]:
  assumes C: "kernel_confined K own P" and "own (staging_fd F)"
  shows "keeps P (validate_displaced K F stage expected)"
  unfolding validate_displaced_def
  by (intro keeps_openat_then [OF C] keeps_rules confined [OF C] assms)

lemma keeps_publish_staged [confined]:
  assumes C: "kernel_confined K own P" and "own fd" and "own (staging_fd F)" and "plain_name name" "plain_name stage"
  shows "keeps P (publish_staged K F fd name stage staged expected exists)"
  unfolding publish_staged_def
  by (intro keeps_rules confined [OF C] kernel_confinedD [OF C] assms)

text \<open>The operations on a workspace, given that its directory is confined.\<close>

definition workspace_confined ::
  "('w, 'fd) kernel \<Rightarrow> 'fd Filesystem \<Rightarrow> uuid \<Rightarrow> ('fd \<Rightarrow> bool) \<Rightarrow> ('w \<Rightarrow> bool) \<Rightarrow> bool" where
  "workspace_confined K F w own P \<longleftrightarrow>
     kernel_confined K own P \<and> own (staging_fd F)
     \<and> yields P own (openat K (root_fd F) (volume_of K w @ ''/'' @ VOLUME_DATA_DIRECTORY) DIRECTORY_FLAGS)"

lemma workspace_confinedD:
  assumes "workspace_confined K F w own P"
  shows "kernel_confined K own P" "own (staging_fd F)"
    "yields P own (openat K (root_fd F) (volume_of K w @ ''/'' @ VOLUME_DATA_DIRECTORY) DIRECTORY_FLAGS)"
  using assms by (simp_all add: workspace_confined_def)

lemma keeps_workspace_then:
  assumes "workspace_confined K F w own P" and "\<And>ws. own ws \<Longrightarrow> keeps P (f ws)"
  shows "keeps P (io_bind (workspace K F w) f)"
proof -
  have "yields P own (workspace K F w)"
    unfolding workspace_def
    by (cases "w = 0") (simp_all only: simp_thms if_True if_False yields_fail
        yields_map_err [OF workspace_confinedD(3) [OF assms(1)]])
  then show ?thesis by (rule keeps_bind_own) (rule assms(2))
qed

lemma keeps_open_beneath_then:
  assumes C: "kernel_confined K own P" and "own ws" and "\<And>fd. own fd \<Longrightarrow> keeps P (f fd)"
  shows "keeps P (io_bind (open_beneath K ws path flags) f)"
  unfolding open_beneath_def by (rule keeps_openat_then [OF C assms(2,3)])

lemma keeps_open_parent_then:
  assumes C: "kernel_confined K own P" and "own ws"
    and "\<And>parent name. own parent \<Longrightarrow> plain_name name \<Longrightarrow> keeps P (g parent name)"
  shows "keeps P (io_bind (open_parent K ws path) (\<lambda>(parent, name). g parent name))"
proof -
  have "yields P (\<lambda>path'. checked_path path = Inr path') (io_lift (checked_path path))"
    by (rule yields_lift)
  then have "yields P (\<lambda>(parent, name). own parent \<and> plain_name name) (open_parent K ws path)"
    unfolding open_parent_def open_beneath_def
    by (rule yields_bind)
       (auto intro!: yields_bind [OF keeps_openat [OF C assms(2)]] yields_ok intro: checked_path_plain)
  then show ?thesis
    unfolding yields_keeps by (rule yields_bind) (auto simp: yields_keeps [symmetric] assms(3))
qed

lemmas workspace_steps = keeps_workspace_then keeps_open_beneath_then keeps_open_parent_then

lemma keeps_check_target [confined]:
  assumes C: "kernel_confined K own P" and "own fd"
  shows "keeps P (check_target K fd name expected)"
  unfolding check_target_def
  by (rule keeps_try_openat [OF C assms(2)])
     (auto intro!: keeps_rules keeps_openat_then [OF C] confined [OF C] kernel_confinedD [OF C] assms
       split: option.split)

lemma keeps_is_ok_openat [confined]:
  assumes "kernel_confined K own P" and "own fd"
  shows "keeps P (io_is_ok (openat K fd path flags))"
  unfolding openat_def by (rule keeps_is_ok [OF yields_imp_keeps [OF kernel_confinedD(1) [OF assms]]])

lemma keeps_stage_and_publish [confined]:
  assumes C: "kernel_confined K own P" and "own parent" and S: "own (staging_fd F)" and "plain_name name"
  shows "keeps P (stage_and_publish K F parent name expected bytes)"
  unfolding stage_and_publish_def
  by (intro keeps_stage_then [OF C] keeps_rules confined [OF C] kernel_confinedD [OF C] assms) simp_all

lemma keeps_atomic_write:
  assumes W: "workspace_confined K F w own P"
  shows "keeps P (atomic_write K F w path expected bytes)"
proof -
  note C = workspace_confinedD(1) [OF W] and S = workspace_confinedD(2) [OF W]
  show ?thesis
    unfolding atomic_write_def
    by (intro keeps_if keeps_fail keeps_workspace_then [OF W] keeps_open_parent_then [OF C])
       (auto intro!: keeps_rules confined [OF C] kernel_confinedD [OF C] S)
qed

lemma keeps_stage_copy [confined]:
  assumes C: "kernel_confined K own P" and "own ws" and "own (staging_fd F)" and "plain_name stage"
  shows "keeps P (stage_copy K F ws path st kind stage)"
  unfolding stage_copy_def Let_def
  by (intro keeps_kind keeps_open_beneath_then [OF C] keeps_openat_then [OF C] keeps_rules
      confined [OF C] kernel_confinedD [OF C] assms)

text \<open>
  Property C14: an operation on a workspace reaches nothing but that workspace and the staging
  directory, whatever path and content a client sends.  Any fact about the state that the calls
  on descriptors below those two directories cannot change, such as the content of all other
  workspaces, is the same after each of the operations, whether it succeeds or fails.
\<close>

theorem workspaces_isolated:
  assumes W: "workspace_confined K F w own P"
  shows "keeps P (require_directory K F w path) \<and> keeps P (workspace_storage K F w)
    \<and> keeps P (list_entries K F w path) \<and> keeps P (read_file K F w path)
    \<and> keeps P (file_metadata K F w path) \<and> keeps P (search_files K F w path query)
    \<and> keeps P (write_file K F w path bytes) \<and> keeps P (patch_file K F w path expected bytes)
    \<and> keeps P (make_dir K F w path) \<and> keeps P (move_entry K F w from to)
    \<and> keeps P (copy_entry K F w from to) \<and> keeps P (delete_entry K F w path)"
proof (intro conjI)
  note C = workspace_confinedD(1) [OF W] and S = workspace_confinedD(2) [OF W]
  note start = keeps_workspace_then [OF W] keeps_open_beneath_then [OF C] keeps_open_parent_then [OF C]
    keeps_openat_then [OF C] keeps_stage_then [OF C]
  note inner = start keeps_rules confined [OF C] kernel_confinedD [OF C] S
  show "keeps P (require_directory K F w path)"
    unfolding require_directory_def by (intro inner)
  show "keeps P (workspace_storage K F w)"
    unfolding workspace_storage_def by (intro inner)
  show "keeps P (list_entries K F w path)"
    unfolding list_entries_def by (intro inner)
  show "keeps P (read_file K F w path)"
    unfolding read_file_def by (intro inner)
  show "keeps P (file_metadata K F w path)"
    unfolding file_metadata_def by (intro inner)
  show "keeps P (search_files K F w path query)"
    unfolding search_files_def by (intro inner)
  show "keeps P (write_file K F w path bytes)"
    unfolding write_file_def by (rule keeps_atomic_write [OF W])
  show "keeps P (patch_file K F w path expected bytes)"
    unfolding patch_file_def by (intro keeps_if keeps_fail keeps_atomic_write [OF W])
  show "keeps P (make_dir K F w path)"
    unfolding make_dir_def by (intro keeps_catch inner)
  show "keeps P (move_entry K F w from to)"
    unfolding move_entry_def by (intro keeps_catch inner)
  show "keeps P (copy_entry K F w from to)"
    unfolding copy_entry_def by (intro keeps_catch inner) simp_all
  show "keeps P (delete_entry K F w path)"
    unfolding delete_entry_def by (intro keeps_catch inner) simp_all
qed

end
