(* ===== verification/Fs_Reads.thy ===== *)
theory Fs_Reads
  imports Fs_Laws "HOL-Library.Multiset"
begin

section \<open>Operations that only read\<close>

text \<open>The calls that do not write: opening without creating, and reading.\<close>

definition reads_keep :: "('w, 'fd) kernel \<Rightarrow> ('w \<Rightarrow> bool) \<Rightarrow> bool" where
  "reads_keep K P \<longleftrightarrow>
     (\<forall>fd. (\<forall>path flags mode. O_CREATE \<notin> flags \<longrightarrow> keeps P (k_openat2 K fd path flags mode RESOLVE))
        \<and> keeps P (k_fstat K fd) \<and> keeps P (k_dir K fd) \<and> (\<forall>n. keeps P (k_read K fd n)))"

named_theorems reading \<open>functions that only read\<close>

lemma reads_keepD [reading]:
  assumes "reads_keep K P"
  shows "O_CREATE \<notin> flags \<Longrightarrow> keeps P (k_openat2 K fd path flags mode RESOLVE)"
    "keeps P (k_fstat K fd)" "keeps P (k_dir K fd)" "keeps P (k_read K fd n)"
  using assms by (auto simp: reads_keep_def)

lemma no_create [simp, reading]:
  "O_CREATE \<notin> METADATA_FLAGS" "O_CREATE \<notin> DIRECTORY_FLAGS" "O_CREATE \<notin> READ_FLAGS"
  by (simp_all add: METADATA_FLAGS_def DIRECTORY_FLAGS_def READ_FLAGS_def)

lemma reads_openat [reading]:
  "reads_keep K P \<Longrightarrow> O_CREATE \<notin> flags \<Longrightarrow> keeps P (openat K fd path flags)"
  unfolding openat_def by (rule reads_keepD)

lemma reads_open_beneath [reading]:
  "reads_keep K P \<Longrightarrow> O_CREATE \<notin> flags \<Longrightarrow> keeps P (open_beneath K fd path flags)"
  unfolding open_beneath_def by (intro keeps_rules reading)

lemma reads_ensure_directory [reading]: "reads_keep K P \<Longrightarrow> keeps P (ensure_directory K fd)"
  unfolding ensure_directory_def by (intro keeps_rules reading)

lemma reads_metadata [reading]: "reads_keep K P \<Longrightarrow> keeps P (metadata_for_fd K fd)"
  unfolding metadata_for_fd_def by (intro keeps_rules reading)

lemma reads_read_regular [reading]: "reads_keep K P \<Longrightarrow> keeps P (read_regular K fd)"
  unfolding read_regular_def read_regular_bounded_def by (intro keeps_rules reading)

lemma reads_look_at [reading]: "reads_keep K P \<Longrightarrow> keeps P (look_at K fd name)"
  unfolding look_at_def by (intro keeps_rules reading)

lemma reads_validate_tree [reading]: "reads_keep K P \<Longrightarrow> keeps P (validate_tree K n fd seen)"
proof (induction n arbitrary: fd seen)
  case (Suc n)
  then show ?case unfolding validate_tree.simps by (intro keeps_rules reading)
qed simp

lemma reads_search_directory [reading]:
  "reads_keep K P \<Longrightarrow> keeps P (search_directory K query n fd prefix acc)"
proof (induction n arbitrary: fd prefix acc)
  case (Suc n)
  then show ?case unfolding search_directory.simps by (intro keeps_rules reading)
qed simp

lemma reads_validate_named [reading]: "reads_keep K P \<Longrightarrow> keeps P (validate_named_entry K fd name)"
  unfolding validate_named_entry_def by (intro keeps_rules reading)

lemma reads_verify_published [reading]:
  "reads_keep K P \<Longrightarrow> keeps P (verify_published K fd name expected kind)"
  unfolding verify_published_def by (intro keeps_rules reading)

lemma reads_validate_displaced [reading]:
  "reads_keep K P \<Longrightarrow> keeps P (validate_displaced K F stage expected)"
  unfolding validate_displaced_def by (intro keeps_rules reading)

lemma reads_check_target [reading]: "reads_keep K P \<Longrightarrow> keeps P (check_target K fd name expected)"
  unfolding check_target_def by (intro keeps_rules reading)

lemma reads_workspace [reading]: "reads_keep K P \<Longrightarrow> keeps P (workspace K F w)"
  unfolding workspace_def by (intro keeps_rules reading)

lemma reads_open_parent [reading]: "reads_keep K P \<Longrightarrow> keeps P (open_parent K fd path)"
  unfolding open_parent_def by (intro keeps_rules reading)

text \<open>
  Property: listing, reading, searching and the queries change nothing: whatever opening without
  creating and reading leave as it is, they leave as it is.
\<close>

theorem queries_change_nothing:
  assumes "reads_keep K P"
  shows "keeps P (require_directory K F w path) \<and> keeps P (workspace_storage K F w)
    \<and> keeps P (list_entries K F w path) \<and> keeps P (read_file K F w path)
    \<and> keeps P (file_metadata K F w path) \<and> keeps P (search_files K F w path query)"
  unfolding require_directory_def workspace_storage_def list_entries_def read_file_def
    file_metadata_def search_files_def
  by (intro conjI keeps_rules reading assms)

subsection \<open>What the queries return\<close>

abbreviation returns :: "('a \<Rightarrow> bool) \<Rightarrow> ('s, 'e, 'a) io \<Rightarrow> bool" where
  "returns Q m \<equiv> yields (\<lambda>_. True) Q m"

lemma returns_bind: "(\<And>x. returns Q (f x)) \<Longrightarrow> returns Q (io_bind m f)"
  by (rule yields_bind_any) (simp add: keeps_def)

lemma returns_prod: "(\<And>a b. returns Q (f a b)) \<Longrightarrow> returns Q (case p of (a, b) \<Rightarrow> f a b)"
  by (cases p) simp

lemma returns_if: "(b \<Longrightarrow> returns Q m) \<Longrightarrow> (\<not> b \<Longrightarrow> returns Q n) \<Longrightarrow> returns Q (if b then m else n)"
  by simp

lemma returns_list:
  "returns (\<lambda>es. length es \<le> MAX_DIRECTORY_ENTRIES \<and> sorted (map entry_name es)) (list_entries K F w path)"
proof -
  have loop: "returns (\<lambda>acc. length acc \<le> MAX_DIRECTORY_ENTRIES) (io_fold (\<lambda>acc entry.
         io_bind (io_lift (map_err map_errno entry)) (\<lambda>name.
           if is_dot name then io_ok acc
           else if length acc = MAX_DIRECTORY_ENTRIES then io_fail Fs_LimitExceeded
           else io_bind (io_lift (cstr_to_string name)) (\<lambda>name.
             io_bind (look_at K directory name) (\<lambda>(st, kind, sz).
               io_ok (acc @ [\<lparr>entry_name = name, entry_kind = kind, entry_size = sz\<rparr>]))))) [] stream)"
    for directory stream
    by (rule yields_fold) (auto intro!: returns_bind yields_ok split: prod.split)
  show ?thesis
    unfolding list_entries_def
    by (intro yields_bind [OF loop] returns_bind yields_ok) simp_all
qed

lemma returns_read_bounded:
  "returns (\<lambda>(bytes, digest). length bytes \<le> n \<and> digest = k_sha256 K bytes) (read_regular_bounded K fd n)"
  unfolding read_regular_bounded_def
  by (auto intro!: returns_bind yields_ok split: prod.split)

lemma returns_read:
  "returns (\<lambda>(bytes, digest). length bytes \<le> MAX_FILE_PAYLOAD_BYTES \<and> digest = k_sha256 K bytes)
     (read_file K F w path)"
  unfolding read_file_def
  by (auto intro!: returns_bind returns_read_bounded simp: read_regular_def split: prod.split)

text \<open>The size of the encoded matches, each with a separator.\<close>

definition match_bytes :: "('w, 'fd) kernel \<Rightarrow> FilesystemSearchMatch \<Rightarrow> nat" where
  "match_bytes K m = (case k_encode_match K m of None \<Rightarrow> 1 | Some e \<Rightarrow> length e + 1)"

definition search_ok :: "('w, 'fd) kernel \<Rightarrow> search_state \<Rightarrow> bool" where
  "search_ok K acc \<longleftrightarrow>
     length (matches acc) \<le> MAX_FILESYSTEM_SEARCH_RESULTS
     \<and> encoded_bytes acc = sum_list (map (match_bytes K) (matches acc))
     \<and> encoded_bytes acc \<le> MAX_FILESYSTEM_SEARCH_ENCODED_BYTES
     \<and> list_all (\<lambda>m. length (match_path m) \<le> MAX_WORKSPACE_PATH_BYTES) (matches acc)"

lemma add_match_ok:
  assumes "search_ok K acc" "length path \<le> MAX_WORKSPACE_PATH_BYTES"
    and "add_match K query name path kind sz (acc\<lparr>scanned := n\<rparr>) = Inr acc'"
  shows "search_ok K acc'"
  using assms by (auto simp: add_match_def search_ok_def match_bytes_def Let_def split: if_splits option.splits)

lemma returns_search_directory:
  "search_ok K acc \<Longrightarrow> returns (search_ok K) (search_directory K query n fd prefix acc)"
proof (induction n arbitrary: fd prefix acc)
  case (Suc n)
  have step: "returns (search_ok K) (io_bind (io_lift (add_match K query name path kind sz (acc\<lparr>scanned := k\<rparr>))) f)"
    if "search_ok K acc" "length path \<le> MAX_WORKSPACE_PATH_BYTES"
      "\<And>acc. search_ok K acc \<Longrightarrow> returns (search_ok K) (f acc)"
    for name path kind sz acc k f
    by (rule yields_bind [OF yields_lift]) (auto intro!: that(3) add_match_ok [OF that(1,2)])
  show ?case
    unfolding search_directory.simps Let_def
    by (intro step returns_if returns_prod returns_bind yields_fold yields_ok yields_fail Suc)
       (simp_all add: not_less)
qed simp

text \<open>
  Property C22: what the queries return is bounded, whatever is on the disk: at most 1024 entries in
  the order of their names; a file of at most the payload limit with the digest of its content;
  at most 1024 matches in the order of their paths, each path within the path limit, and all
  of them together within the share of the protocol line that is kept for them.
\<close>

theorem queries_bounded:
  "returns (\<lambda>es. length es \<le> MAX_DIRECTORY_ENTRIES \<and> sorted (map entry_name es)) (list_entries K F w path)
   \<and> returns (\<lambda>(bytes, digest). length bytes \<le> MAX_FILE_PAYLOAD_BYTES \<and> digest = k_sha256 K bytes)
       (read_file K F w path)
   \<and> returns (\<lambda>ms. length ms \<le> MAX_FILESYSTEM_SEARCH_RESULTS \<and> sorted (map match_path ms)
         \<and> sum_list (map (match_bytes K) ms) \<le> MAX_FILESYSTEM_SEARCH_ENCODED_BYTES
         \<and> list_all (\<lambda>m. length (match_path m) \<le> MAX_WORKSPACE_PATH_BYTES) ms)
       (search_files K F w path query)"
proof (intro conjI returns_list returns_read)
  have start: "search_ok K \<lparr>scanned = 0, encoded_bytes = 0, matches = []\<rparr>"
    by (simp add: search_ok_def)
  have "mset (sort_key match_path ms) = mset ms" for ms by simp
  then have sum: "sum_list (map (match_bytes K) (sort_key match_path ms)) = sum_list (map (match_bytes K) ms)" for ms
    by (metis mset_map sum_mset_sum_list)
  show "returns (\<lambda>ms. length ms \<le> MAX_FILESYSTEM_SEARCH_RESULTS \<and> sorted (map match_path ms)
         \<and> sum_list (map (match_bytes K) ms) \<le> MAX_FILESYSTEM_SEARCH_ENCODED_BYTES
         \<and> list_all (\<lambda>m. length (match_path m) \<le> MAX_WORKSPACE_PATH_BYTES) ms)
       (search_files K F w path query)"
    unfolding search_files_def Let_def
    by (intro returns_if returns_bind yields_fail yields_bind [OF returns_search_directory [OF start]] yields_ok)
       (auto simp: search_ok_def sum list_all_iff)
qed

end
