(* ===== verification/Fs_Recording.thy ===== *)
theory Fs_Recording
  imports Fs_Reads
begin

section \<open>System calls that are written down\<close>

text \<open>
  A kernel whose state also has a history: after every call, what an observer sees (\<open>look\<close>) is
  written down.  The calls are those of the given kernel, with the same results, so that every
  function does with it what it does without, and the history says what could be seen meanwhile.
\<close>

definition recorded :: "('w \<Rightarrow> 'o) \<Rightarrow> ('w, 'e, 'a) io \<Rightarrow> ('w \<times> 'o list, 'e, 'a) io" where
  "recorded look m z = (case z of (s, h) \<Rightarrow> case m s of (r, s') \<Rightarrow> (r, s', h @ [look s']))"

definition recording :: "('w \<Rightarrow> 'o) \<Rightarrow> ('w, 'fd) kernel \<Rightarrow> ('w \<times> 'o list, 'fd) kernel" where
  "recording look K =
     \<lparr>k_open = \<lambda>path flags mode. recorded look (k_open K path flags mode),
      k_openat2 = \<lambda>fd path flags mode how. recorded look (k_openat2 K fd path flags mode how),
      k_fstat = \<lambda>fd. recorded look (k_fstat K fd),
      k_mkdirat = \<lambda>fd name mode. recorded look (k_mkdirat K fd name mode),
      k_renameat = \<lambda>fd name to new how. recorded look (k_renameat K fd name to new how),
      k_unlinkat = \<lambda>fd name isdir. recorded look (k_unlinkat K fd name isdir),
      k_fchmod = \<lambda>fd mode. recorded look (k_fchmod K fd mode),
      k_fsync = \<lambda>fd. recorded look (k_fsync K fd),
      k_dir = \<lambda>fd. recorded look (k_dir K fd),
      k_read = \<lambda>fd n. recorded look (k_read K fd n),
      k_write_all = \<lambda>fd bytes. recorded look (k_write_all K fd bytes),
      k_sync_all = \<lambda>fd. recorded look (k_sync_all K fd),
      k_uuid = \<lambda>z. (case z of (s, h) \<Rightarrow> case k_uuid K s of (u, s') \<Rightarrow> (u, s', h @ [look s'])),
      k_descriptors = k_descriptors K, k_sha256 = k_sha256 K, k_hyphenated = k_hyphenated K,
      k_parse_uuid = k_parse_uuid K, k_encode_match = k_encode_match K\<rparr>"

lemma recording_simps [simp]:
  "k_openat2 (recording look K) fd path flags mode how = recorded look (k_openat2 K fd path flags mode how)"
  "k_fstat (recording look K) fd = recorded look (k_fstat K fd)"
  "k_mkdirat (recording look K) fd name mode' = recorded look (k_mkdirat K fd name mode')"
  "k_renameat (recording look K) fd name to new how' = recorded look (k_renameat K fd name to new how')"
  "k_unlinkat (recording look K) fd name isdir = recorded look (k_unlinkat K fd name isdir)"
  "k_fchmod (recording look K) fd mode = recorded look (k_fchmod K fd mode)"
  "k_fsync (recording look K) fd = recorded look (k_fsync K fd)"
  "k_dir (recording look K) fd = recorded look (k_dir K fd)"
  "k_read (recording look K) fd n = recorded look (k_read K fd n)"
  "k_write_all (recording look K) fd bytes = recorded look (k_write_all K fd bytes)"
  "k_sync_all (recording look K) fd = recorded look (k_sync_all K fd)"
  "k_uuid (recording look K) (s, h) = (fst (k_uuid K s), snd (k_uuid K s), h @ [look (snd (k_uuid K s))])"
  "k_descriptors (recording look K) = k_descriptors K" "k_sha256 (recording look K) = k_sha256 K"
  "k_hyphenated (recording look K) = k_hyphenated K" "k_encode_match (recording look K) = k_encode_match K"
  by (simp_all add: recording_def split: prod.split)

subsection \<open>Recording changes nothing\<close>

definition erases :: "('w \<times> 'o list, 'e, 'a) io \<Rightarrow> ('w, 'e, 'a) io \<Rightarrow> bool" where
  "erases m' m \<longleftrightarrow> (\<forall>s h. \<exists>h'. m' (s, h) = (fst (m s), snd (m s), h'))"

named_theorems erasing \<open>functions that do the same when their calls are recorded\<close>

lemma erasesD: "erases m' m \<Longrightarrow> m s = (r, t) \<Longrightarrow> \<exists>h'. m' (s, h) = (r, t, h')"
  unfolding erases_def by (metis fst_conv snd_conv)

lemma erases_recorded [erasing]: "erases (recorded look m) m"
  by (simp add: erases_def recorded_def split: prod.split)

lemma erases_pure [erasing]: "erases (io_ok x) (io_ok x)" "erases (io_fail e) (io_fail e)" "erases (io_lift r) (io_lift r)"
  by (simp_all add: erases_def io_ok_def io_fail_def io_lift_def)

lemma erases_bind [erasing]:
  assumes "erases m' m" "\<And>x. erases (f' x) (f x)"
  shows "erases (io_bind m' f') (io_bind m f)"
  unfolding erases_def
proof (intro allI)
  fix s h
  obtain r t where m: "m s = (r, t)" by (cases "m s")
  obtain h1 where m': "m' (s, h) = (r, t, h1)" using erasesD [OF assms(1) m] by blast
  show "\<exists>h'. io_bind m' f' (s, h) = (fst (io_bind m f s), snd (io_bind m f s), h')"
  proof (cases r)
    case (Inr x)
    obtain r2 t2 where f: "f x t = (r2, t2)" by (cases "f x t")
    obtain h2 where "f' x (t, h1) = (r2, t2, h2)" using erasesD [OF assms(2) f] by blast
    with m m' f Inr show ?thesis by (simp add: io_bind_def)
  qed (use m m' in \<open>simp add: io_bind_def\<close>)
qed

lemma erases_then [erasing]: "erases m' m \<Longrightarrow> erases n' n \<Longrightarrow> erases (io_then m' n') (io_then m n)"
  unfolding io_then_def by (intro erasing)

lemma erases_result [erasing]:
  assumes "erases m' m"
  shows "erases (io_map_err f m') (io_map_err f m)" "erases (io_try m') (io_try m)" "erases (io_ignore m') (io_ignore m)"
    "erases (io_is_ok m') (io_is_ok m)"
proof -
  obtain g where "\<And>s h. m' (s, h) = (fst (m s), snd (m s), g s h)"
    using assms unfolding erases_def by metis
  then show "erases (io_map_err f m') (io_map_err f m)" "erases (io_try m') (io_try m)"
    "erases (io_ignore m') (io_ignore m)" "erases (io_is_ok m') (io_is_ok m)"
    by (simp_all add: erases_def io_map_err_def io_try_def io_ignore_def io_is_ok_def case_prod_beta)
qed

lemma erases_catch [erasing]:
  assumes "erases m' m" "\<And>e. erases (f' e) (f e)"
  shows "erases (io_catch m' f') (io_catch m f)"
  unfolding erases_def
proof (intro allI)
  fix s h
  obtain r t where m: "m s = (r, t)" by (cases "m s")
  obtain h1 where m': "m' (s, h) = (r, t, h1)" using erasesD [OF assms(1) m] by blast
  show "\<exists>h'. io_catch m' f' (s, h) = (fst (io_catch m f s), snd (io_catch m f s), h')"
  proof (cases r)
    case (Inl e)
    obtain r2 t2 where f: "f e t = (r2, t2)" by (cases "f e t")
    obtain h2 where "f' e (t, h1) = (r2, t2, h2)" using erasesD [OF assms(2) f] by blast
    with m m' f Inl show ?thesis by (simp add: io_catch_def)
  qed (use m m' in \<open>simp add: io_catch_def\<close>)
qed

lemma erases_loops [erasing]:
  "(\<And>b x. erases (f' b x) (f b x)) \<Longrightarrow> erases (io_fold f' b xs) (io_fold f b xs)"
  "(\<And>x. erases (g' x) (g x)) \<Longrightarrow> erases (io_for_each g' xs) (io_for_each g xs)"
  by (induction xs arbitrary: b) (auto intro: erasing)

lemma erases_cases [erasing]:
  "erases m' m \<Longrightarrow> erases n' n \<Longrightarrow> erases (if b then m' else n') (if b then m else n)"
  "(\<And>a b. erases (p' a b) (p a b)) \<Longrightarrow> erases (case x of (a, b) \<Rightarrow> p' a b) (case x of (a, b) \<Rightarrow> p a b)"
  "(\<And>a. erases (f' a) (f a)) \<Longrightarrow> (\<And>b. erases (g' b) (g b)) \<Longrightarrow>
     erases (case y of Inl a \<Rightarrow> f' a | Inr b \<Rightarrow> g' b) (case y of Inl a \<Rightarrow> f a | Inr b \<Rightarrow> g b)"
  "erases m' m \<Longrightarrow> (\<And>a. erases (k' a) (k a)) \<Longrightarrow>
     erases (case v of None \<Rightarrow> m' | Some a \<Rightarrow> k' a) (case v of None \<Rightarrow> m | Some a \<Rightarrow> k a)"
  by (simp_all split: prod.split sum.split option.split)

text \<open>The functions that a write is made of.\<close>

lemma erases_sys [erasing]: "erases m' m \<Longrightarrow> erases (sys m') (sys m)" "erases m' m \<Longrightarrow> erases (sys_io m') (sys_io m)"
  unfolding sys_def sys_io_def by (rule erases_result, assumption)+

lemma erases_openat [erasing]: "erases (openat (recording look K) fd path flags) (openat K fd path flags)"
  by (simp add: openat_def erases_recorded)

lemma erases_stage_name [erasing]: "erases (stage_name (recording look K) operation) (stage_name K operation)"
  by (simp add: erases_def stage_name_def split: prod.split)

lemma erases_let [erasing]: "(\<And>x. erases (f' x) (f x)) \<Longrightarrow> erases (Let a f') (Let a f)"
  by (simp add: Let_def)

lemma erases_reads [erasing]:
  "erases (open_beneath (recording look K) fd comps flags) (open_beneath K fd comps flags)"
  "erases (look_at (recording look K) fd name) (look_at K fd name)"
  "erases (read_regular_bounded (recording look K) fd maximum) (read_regular_bounded K fd maximum)"
  "erases (read_regular (recording look K) fd) (read_regular K fd)"
  unfolding open_beneath_def look_at_def read_regular_def read_regular_bounded_def recording_simps
  by (intro erasing)+

lemma erases_validate_tree [erasing]: "erases (validate_tree (recording look K) n fd seen) (validate_tree K n fd seen)"
proof (induction n arbitrary: fd seen)
  case (Suc n)
  then show ?case unfolding validate_tree.simps recording_simps by (intro erasing)
qed (simp add: erasing)

lemma erases_validated [erasing]:
  "erases (validate_named_entry (recording look K) fd name) (validate_named_entry K fd name)"
  "erases (verify_published (recording look K) fd name expected kind) (verify_published K fd name expected kind)"
  unfolding validate_named_entry_def verify_published_def by (intro erasing)+

lemma erases_create [erasing]:
  "erases (create_staged_file (recording look K) fd name bytes maximum mode) (create_staged_file K fd name bytes maximum mode)"
  unfolding create_staged_file_def recording_simps by (intro erasing)

lemma erases_remove_best_effort [erasing]:
  "erases (remove_tree_best_effort_cstr (recording look K) d fd name) (remove_tree_best_effort_cstr K d fd name)"
proof (induction d arbitrary: fd name)
  case 0
  show ?case unfolding remove_tree_best_effort_cstr.simps recording_simps by (intro erasing)
next
  case (Suc d)
  then show ?case unfolding remove_tree_best_effort_cstr.simps recording_simps by (intro erasing)
qed

lemma erases_remove_tree [erasing]:
  "erases (remove_tree_cstr (recording look K) d fd name) (remove_tree_cstr K d fd name)"
proof (induction d arbitrary: fd name)
  case 0
  show ?case unfolding remove_tree_cstr.simps recording_simps by (intro erasing)
next
  case (Suc d)
  then show ?case unfolding remove_tree_cstr.simps recording_simps by (intro erasing)
qed

lemma erases_removal [erasing]:
  "erases (remove_tree_best_effort (recording look K) fd name) (remove_tree_best_effort K fd name)"
  "erases (remove_tree (recording look K) fd name) (remove_tree K fd name)"
  "erases (quarantine_and_remove (recording look K) fd name staging) (quarantine_and_remove K fd name staging)"
  unfolding remove_tree_best_effort_def remove_tree_def quarantine_and_remove_def recording_simps
  by (intro erasing)+

lemma erases_workspace [erasing]:
  "erases (workspace (recording look K) F w) (workspace K F w)"
  "erases (open_parent (recording look K) fd path) (open_parent K fd path)"
  unfolding workspace_def open_parent_def volume_of_def recording_simps by (intro erasing)+

lemma erases_publish [erasing]:
  "erases (check_target (recording look K) fd name expected) (check_target K fd name expected)"
  "erases (validate_displaced (recording look K) F stage expected) (validate_displaced K F stage expected)"
  "erases (roll_back (recording look K) F fd name stage e) (roll_back K F fd name stage e)"
  "erases (quarantine_published (recording look K) F fd name e) (quarantine_published K F fd name e)"
  "erases (publish_staged (recording look K) F fd name stage staged expected present)
     (publish_staged K F fd name stage staged expected present)"
  unfolding check_target_def validate_displaced_def roll_back_def quarantine_published_def publish_staged_def
    recording_simps
  by (intro erasing)+

lemma erases_write:
  "erases (stage_and_publish (recording look K) F fd name expected bytes) (stage_and_publish K F fd name expected bytes)"
  "erases (atomic_write (recording look K) F w path expected bytes) (atomic_write K F w path expected bytes)"
proof -
  show *: "erases (stage_and_publish (recording look K) F fd name expected bytes)
      (stage_and_publish K F fd name expected bytes)" for fd name
    unfolding stage_and_publish_def recording_simps by (intro erasing)
  show "erases (atomic_write (recording look K) F w path expected bytes) (atomic_write K F w path expected bytes)"
    unfolding atomic_write_def by (intro erasing *)
qed

subsection \<open>What is kept, recorded\<close>

text \<open>
  What is seen is \<open>v\<close>, it is the last that was written down, and the history satisfies \<open>H\<close>.  A history may go on with what is seen when it
  is \<open>continues\<close>.
\<close>

definition sees :: "('w \<Rightarrow> 'o) \<Rightarrow> 'o \<Rightarrow> ('o list \<Rightarrow> bool) \<Rightarrow> 'w \<times> 'o list \<Rightarrow> bool" where
  "sees look v H z \<longleftrightarrow> look (fst z) = v \<and> (snd z \<noteq> [] \<longrightarrow> last (snd z) = v) \<and> H (snd z)"

definition continues :: "'o \<Rightarrow> ('o list \<Rightarrow> bool) \<Rightarrow> bool" where
  "continues v H \<longleftrightarrow> (\<forall>h. H h \<longrightarrow> H (h @ [v]))"

lemma keeps_recorded:
  assumes "keeps (\<lambda>s. P s \<and> look s = v) m" "continues v H"
  shows "keeps (\<lambda>z. P (fst z) \<and> sees look v H z) (recorded look m)"
proof (rule keepsI)
  fix z assume "P (fst z) \<and> sees look v H z"
  with keepsD [OF assms(1), of "fst z"] assms(2)
  show "P (fst (snd (recorded look m z))) \<and> sees look v H (snd (recorded look m z))"
    by (auto simp: recorded_def sees_def continues_def split: prod.split)
qed

lemma yields_recorded:
  assumes "yields (\<lambda>s. look s = v) Q m" "continues v H"
  shows "yields (sees look v H) Q (recorded look m)"
proof (rule yieldsI)
  fix z assume "sees look v H z"
  with yieldsD [OF assms(1), of "fst z"] assms(2)
  show "sees look v H (snd (recorded look m z)) \<and> (\<forall>x. fst (recorded look m z) = Inr x \<longrightarrow> Q x)"
    by (auto simp: recorded_def sees_def continues_def split: prod.split)
qed

lemma keeps_sees: "keeps (\<lambda>s. look s = v) m \<Longrightarrow> continues v H \<Longrightarrow> keeps (sees look v H) (recorded look m)"
  using keeps_recorded [of "\<lambda>_. True"] by simp

lemma recording_confined:
  assumes C: "kernel_confined K own (\<lambda>s. look s = v)" and "continues v H"
  shows "kernel_confined (recording look K) own (sees look v H)"
  unfolding kernel_confined_def recording_simps
proof (intro conjI allI impI)
  show "sees look v H (snd (k_uuid (recording look K) z))" if "sees look v H z" for z
    using that C assms(2) by (cases z) (auto simp: sees_def continues_def kernel_confined_def)
  show "CHR ''/'' \<notin> set (k_hyphenated K u)" for u using C by (simp add: kernel_confined_def)
qed (rule yields_recorded [OF _ assms(2)] keeps_sees [OF _ assms(2)],
     rule kernel_confined_yields [OF C] kernel_confinedD [OF C]; assumption)+

end
