(* ===== verification/Fs_Disk.thy ===== *)
theory Fs_Disk
  imports Fs_Laws Rust_Text
begin

section \<open>A disk to run the file system on\<close>

text \<open>
  A small implementation of the system calls, for examples: the nodes of a tree by their path
  from the trusted root.  A descriptor is the path it was opened at.  Links are never
  followed, a path with a dot-dot component is refused, and a rename moves a subtree.
\<close>

datatype node = N_Dir nat | N_File nat string | N_Link nat

record disk =
  nodes :: "(string list \<times> node) list"
  next_id :: nat

definition node_at :: "disk \<Rightarrow> string list \<Rightarrow> node option" where
  "node_at d p = map_of (nodes d) p"

lemma inside_append [simp]: "inside a (a @ p)"
  by (simp add: inside_def)

lemma inside_iff: "inside a p \<longleftrightarrow> (\<exists>q. p = a @ q)"
  by (metis append_take_drop_id inside_append inside_def)

lemma inside_trans: "inside a b \<Longrightarrow> inside b p \<Longrightarrow> inside a p"
  by (auto simp: inside_iff)

definition steps_of :: "string \<Rightarrow> string list option" where
  "steps_of path =
     (let comps = path_components path
      in if ParentDir \<in> set comps \<or> RootDir \<in> set comps then None
         else Some (List.map_filter normal_component comps))"

definition is_link :: "node option \<Rightarrow> bool" where
  "is_link n = (case n of Some (N_Link _) \<Rightarrow> True | _ \<Rightarrow> False)"

definition disk_open :: "string list \<Rightarrow> string \<Rightarrow> oflag set \<Rightarrow> (disk, Errno, string list) io" where
  "disk_open fd path flags d =
     (case steps_of path of
        None \<Rightarrow> (Inl XDEV, d)
      | Some steps \<Rightarrow>
          let p = fd @ steps
          in if list_ex (\<lambda>i. is_link (node_at d (fd @ take i steps))) [1..<length steps] then (Inl ELOOP, d)
             else case node_at d p of
               None \<Rightarrow>
                 if O_CREATE \<in> flags
                 then (Inr p, d\<lparr>nodes := (p, N_File (next_id d) []) # nodes d, next_id := Suc (next_id d)\<rparr>)
                 else (Inl NOENT, d)
             | Some n \<Rightarrow>
                 if O_CREATE \<in> flags then (Inl EXIST, d)
                 else (case n of
                   N_Dir _ \<Rightarrow> (Inr p, d)
                 | N_File _ _ \<Rightarrow> if O_DIRECTORY \<in> flags then (Inl NOTDIR, d) else (Inr p, d)
                 | N_Link _ \<Rightarrow> if O_PATH \<in> flags then (Inr p, d) else (Inl ELOOP, d)))"

definition disk_stat :: "string list \<Rightarrow> (disk, Errno, Stat) io" where
  "disk_stat fd d =
     (case node_at d fd of
        None \<Rightarrow> (Inl NOENT, d)
      | Some n \<Rightarrow>
          (let st = \<lparr>st_mode = 0, st_nlink = 1, st_size = 0, st_dev = 1, st_ino = 0, st_uid = 0, st_mtime = 0\<rparr>
           in (Inr (case n of
                 N_Dir i \<Rightarrow> st\<lparr>st_mode := S_IFDIR, st_ino := word_of_nat i\<rparr>
               | N_File i bytes \<Rightarrow>
                   st\<lparr>st_mode := S_IFREG, st_ino := word_of_nat i, st_size := int (length bytes)\<rparr>
               | N_Link i \<Rightarrow> st\<lparr>st_mode := 0xA000, st_ino := word_of_nat i\<rparr>), d)))"

definition disk_dir :: "string list \<Rightarrow> (disk, Errno, (Errno + string) list) io" where
  "disk_dir fd d =
     (Inr (map (\<lambda>(p, n). Inr (last p))
        (filter (\<lambda>(p, n). length p = Suc (length fd) \<and> inside fd p \<and> plain_name (last p)) (nodes d))), d)"

definition disk_read :: "string list \<Rightarrow> nat \<Rightarrow> (disk, Errno, string) io" where
  "disk_read fd n d =
     (case node_at d fd of Some (N_File _ bytes) \<Rightarrow> (Inr (take n bytes), d) | _ \<Rightarrow> (Inl ISDIR, d))"

definition disk_mkdir :: "string list \<Rightarrow> string \<Rightarrow> (disk, Errno, unit) io" where
  "disk_mkdir fd name d =
     (if node_at d (fd @ [name]) \<noteq> None then (Inl EXIST, d)
      else (Inr (), d\<lparr>nodes := (fd @ [name], N_Dir (next_id d)) # nodes d, next_id := Suc (next_id d)\<rparr>))"

definition disk_unlink :: "string list \<Rightarrow> string \<Rightarrow> bool \<Rightarrow> (disk, Errno, unit) io" where
  "disk_unlink fd name isdir d =
     (let p = fd @ [name]
      in case node_at d p of
           None \<Rightarrow> (Inl NOENT, d)
         | Some n \<Rightarrow>
             if (case n of N_Dir _ \<Rightarrow> \<not> isdir | _ \<Rightarrow> isdir) then (Inl (if isdir then NOTDIR else ISDIR), d)
             else if list_ex (\<lambda>(q, _). q \<noteq> p \<and> inside p q) (nodes d) then (Inl NOTEMPTY, d)
             else (Inr (), d\<lparr>nodes := filter (\<lambda>(q, _). q \<noteq> p) (nodes d)\<rparr>))"

definition disk_write :: "string list \<Rightarrow> string \<Rightarrow> (disk, Errno, unit) io" where
  "disk_write fd bytes d =
     (Inr (), d\<lparr>nodes := map (\<lambda>(p, n). (p,
        case n of N_File i old \<Rightarrow> if p = fd then N_File i (old @ bytes) else n | _ \<Rightarrow> n)) (nodes d)\<rparr>)"

definition relocate :: "string list \<Rightarrow> string list \<Rightarrow> string list \<Rightarrow> string list" where
  "relocate a b p = (if inside a p then b @ drop (length a) p else p)"

definition swap_paths :: "string list \<Rightarrow> string list \<Rightarrow> string list \<Rightarrow> string list" where
  "swap_paths a b p = (if inside a p then b @ drop (length a) p
                       else if inside b p then a @ drop (length b) p else p)"

definition disk_rename ::
  "string list \<Rightarrow> string \<Rightarrow> string list \<Rightarrow> string \<Rightarrow> rename_flag \<Rightarrow> (disk, Errno, unit) io" where
  "disk_rename fd name to new how d =
     (let a = fd @ [name]; b = to @ [new]
      in if node_at d a = None then (Inl NOENT, d)
         else case how of
           Rename_NoReplace \<Rightarrow>
             if node_at d b \<noteq> None then (Inl EXIST, d)
             else (Inr (), d\<lparr>nodes := map (\<lambda>(p, n). (relocate a b p, n)) (nodes d)\<rparr>)
         | Rename_Exchange \<Rightarrow>
             if node_at d b = None then (Inl NOENT, d)
             else (Inr (), d\<lparr>nodes := map (\<lambda>(p, n). (swap_paths a b p, n)) (nodes d)\<rparr>)
         | Rename_Replace \<Rightarrow>
             (Inr (), d\<lparr>nodes := map (\<lambda>(p, n). (relocate a b p, n))
                 (filter (\<lambda>(p, _). \<not> inside b p \<or> inside a p) (nodes d))\<rparr>))"

definition disk_kernel :: "(disk, string list) kernel" where
  "disk_kernel =
     \<lparr>k_open = \<lambda>path flags mode. io_ok [],
      k_openat2 = \<lambda>fd path flags mode resolve. disk_open fd path flags,
      k_fstat = disk_stat,
      k_mkdirat = \<lambda>fd name mode. disk_mkdir fd name,
      k_renameat = disk_rename,
      k_unlinkat = disk_unlink,
      k_fchmod = \<lambda>fd mode. io_ok (),
      k_fsync = \<lambda>fd. io_ok (),
      k_dir = disk_dir,
      k_read = disk_read,
      k_write_all = disk_write,
      k_sync_all = \<lambda>fd. io_ok (),
      k_uuid = \<lambda>d. (word_of_nat (next_id d), d\<lparr>next_id := Suc (next_id d)\<rparr>),
      k_descriptors = 1000,
      k_sha256 = \<lambda>bytes. bytes,
      k_hyphenated = \<lambda>u. decimal (unat u),
      k_parse_uuid = \<lambda>s. map_option word_of_nat (parse_unsigned (2 ^ 128 - 1) s),
      k_encode_match = \<lambda>m. Some (match_path m)\<rparr>"

lemma disk_kernel_simps [simp]:
  "k_openat2 disk_kernel fd path flags mode how = disk_open fd path flags"
  "k_fstat disk_kernel = disk_stat" "k_dir disk_kernel = disk_dir" "k_read disk_kernel = disk_read"
  "k_mkdirat disk_kernel fd name mode = disk_mkdir fd name"
  "k_renameat disk_kernel = disk_rename" "k_unlinkat disk_kernel = disk_unlink"
  "k_fchmod disk_kernel fd mode = io_ok ()" "k_fsync disk_kernel fd = io_ok ()"
  "k_write_all disk_kernel = disk_write" "k_sync_all disk_kernel fd = io_ok ()"
  "k_uuid disk_kernel d = (word_of_nat (next_id d), d\<lparr>next_id := Suc (next_id d)\<rparr>)"
  "k_descriptors disk_kernel = 1000" "k_sha256 disk_kernel bytes = bytes"
  "k_hyphenated disk_kernel u = decimal (unat u)" "k_encode_match disk_kernel m = Some (match_path m)"
  by (simp_all add: disk_kernel_def)

subsection \<open>Descriptors of the disk are confined\<close>

definition below :: "string list list \<Rightarrow> string list \<Rightarrow> bool" where
  "below roots p \<longleftrightarrow> list_ex (\<lambda>r. inside r p) roots"

lemma below_inside: "below roots fd \<Longrightarrow> inside fd p \<Longrightarrow> below roots p"
  by (auto simp: below_def list_ex_iff dest: inside_trans)

lemma below_append [simp]: "below roots fd \<Longrightarrow> below roots (fd @ p)"
  by (erule below_inside) simp

text \<open>The nodes outside the given roots.\<close>

definition outside :: "string list list \<Rightarrow> disk \<Rightarrow> (string list \<times> node) list" where
  "outside roots d = filter (\<lambda>(p, n). \<not> below roots p) (nodes d)"

lemma outside_map:
  assumes "\<And>p n. (p, n) \<in> set ns \<Longrightarrow> \<not> below roots p \<Longrightarrow> g (p, n) = (p, n)"
    and "\<And>p n. (p, n) \<in> set ns \<Longrightarrow> below roots p \<Longrightarrow> below roots (fst (g (p, n)))"
  shows "filter (\<lambda>(p, n). \<not> below roots p) (map g ns) = filter (\<lambda>(p, n). \<not> below roots p) ns"
  using assms by (induction ns) (force split: prod.splits)+

lemma outside_filter:
  assumes "\<And>p n. (p, n) \<in> set ns \<Longrightarrow> \<not> below roots p \<Longrightarrow> Q (p, n)"
  shows "filter (\<lambda>(p, n). \<not> below roots p) (filter Q ns) = filter (\<lambda>(p, n). \<not> below roots p) ns"
  using assms by (induction ns) auto

lemma below_relocate:
  assumes "below roots a" "below roots b"
  shows "\<not> below roots p \<Longrightarrow> relocate a b p = p" "below roots p \<Longrightarrow> below roots (relocate a b p)"
    "\<not> below roots p \<Longrightarrow> swap_paths a b p = p" "below roots p \<Longrightarrow> below roots (swap_paths a b p)"
  using assms by (auto simp: relocate_def swap_paths_def dest: below_inside)

lemma disk_rename_outside:
  assumes "below roots fd" "below roots to"
  shows "outside roots (snd (disk_rename fd name to new how d)) = outside roots d"
proof -
  have ab: "below roots (fd @ [name])" "below roots (to @ [new])" using assms by simp_all
  have "inside (to @ [new]) p \<Longrightarrow> below roots p" for p using ab(2) below_inside by blast
  then show ?thesis
    unfolding disk_rename_def outside_def Let_def
    by (cases how) (auto simp: outside_map below_relocate [OF ab] simp del: filter_filter
        intro!: outside_filter)
qed

lemma disk_confined:
  "kernel_confined disk_kernel (below roots) (\<lambda>d. outside roots d = others)"
  unfolding kernel_confined_def
proof (intro conjI allI impI)
  fix fd assume fd: "below roots fd"
  show "yields (\<lambda>d. outside roots d = others) (below roots) (k_openat2 disk_kernel fd path flags mode RESOLVE)"
    for path flags mode
    using fd by (auto simp: yields_def disk_open_def outside_def Let_def
        split: option.split node.split if_splits)
  show "keeps (\<lambda>d. outside roots d = others) (k_fstat disk_kernel fd)"
    by (simp add: keeps_def disk_stat_def Let_def split: option.split)
  show "yields (\<lambda>d. outside roots d = others) entry_names (k_dir disk_kernel fd)"
    by (auto simp: yields_def disk_dir_def entry_names_def plain_name_def)
  show "keeps (\<lambda>d. outside roots d = others) (k_read disk_kernel fd n)" for n
    by (simp add: keeps_def disk_read_def split: option.split node.split)
  show "keeps (\<lambda>d. outside roots d = others) (k_mkdirat disk_kernel fd name mode)" for name mode
    using fd by (simp add: keeps_def disk_mkdir_def outside_def)
  show "keeps (\<lambda>d. outside roots d = others) (k_unlinkat disk_kernel fd name isdir)" for name isdir
    using fd below_append [OF fd, of "[name]"]
    by (auto simp: keeps_def disk_unlink_def outside_def Let_def split: option.split
        simp del: filter_filter intro!: trans [OF outside_filter])
  show "keeps (\<lambda>d. outside roots d = others) (k_write_all disk_kernel fd bytes)" for bytes
    using fd by (auto simp: keeps_def disk_write_def outside_def intro!: trans [OF outside_map] split: node.split)
  show "keeps (\<lambda>d. outside roots d = others) (k_renameat disk_kernel fd name to new how)"
    if "below roots to" for name to new how
    using disk_rename_outside [OF fd that] by (simp add: keeps_def)
next
  show "CHR ''/'' \<notin> set (k_hyphenated disk_kernel u)" for u
    using decimal_digits [of "CHR ''/''" "unat u"] by (auto simp: is_ascii_digit_def byte_def)
qed (simp_all add: outside_def)

subsection \<open>Examples\<close>

text \<open>A root with the workspaces 1 and 2; workspace 2 has the file \<open>f\<close>.\<close>

definition disk_fs :: "string list Filesystem" where
  "disk_fs = \<lparr>root_path = ''/srv'', root_fd = [], staging_fd = [STAGING_DIRECTORY],
     recovery_fd = [RECOVERY_DIRECTORY]\<rparr>"

definition workspace_dir :: "string \<Rightarrow> string list" where
  "workspace_dir n = [''gobrowse-workspace-'' @ n, VOLUME_DATA_DIRECTORY]"

definition two_disk :: disk where
  "two_disk = \<lparr>nodes =
     [([STAGING_DIRECTORY], N_Dir 1), ([RECOVERY_DIRECTORY], N_Dir 2),
      (butlast (workspace_dir ''1''), N_Dir 3), (workspace_dir ''1'', N_Dir 4),
      (butlast (workspace_dir ''2''), N_Dir 5), (workspace_dir ''2'', N_Dir 6),
      (workspace_dir ''2'' @ [''f''], N_File 7 ''kept'')],
     next_id = 8\<rparr>"

definition roots_of_1 :: "string list list" where
  "roots_of_1 = [[STAGING_DIRECTORY], workspace_dir ''1'']"

lemma decimal_1: "decimal 1 = ''1''" "decimal (Suc 0) = ''1''"
  by code_simp+

lemma disk_workspace_confined:
  "workspace_confined disk_kernel disk_fs 1 (below roots_of_1) (\<lambda>d. outside roots_of_1 d = others)"
proof -
  have path: "steps_of (volume_of disk_kernel 1 @ CHR ''/'' # VOLUME_DATA_DIRECTORY) = Some (workspace_dir ''1'')"
    by (simp add: volume_of_def workspace_volume_name_def decimal_1 steps_of_def path_components_def
        VOLUME_DATA_DIRECTORY_def starts_with_def workspace_dir_def List.map_filter_def Let_def)
  have "below roots_of_1 (workspace_dir ''1'')"
    by (simp add: below_def roots_of_1_def inside_def)
  then show ?thesis
    by (auto simp: workspace_confined_def disk_confined openat_def disk_fs_def yields_def disk_open_def path
        DIRECTORY_FLAGS_def Let_def below_def roots_of_1_def inside_def split: option.split node.split)
qed

theorem workspaces_isolated_witness:
  "outside roots_of_1 (snd (delete_entry disk_kernel disk_fs 1 ''../x'' two_disk)) = outside roots_of_1 two_disk"
  using workspaces_isolated [OF disk_workspace_confined [of "outside roots_of_1 two_disk"]]
  by (auto simp: keeps_def)

end
