(* ===== verification/Fs_Atomic.thy ===== *)
theory Fs_Atomic
  imports Fs_Recording Fs_Disk
begin

section \<open>Writes are atomic\<close>

text \<open>
  What a write relies on, for the file \<open>name\<close> in the directory \<open>parent\<close>, which is the target, and
  the staging directory, whose descriptors and those below it are \<open>own\<close>.  \<open>content\<close> is the
  content of the file at a path below a descriptor, \<open>refers\<close> says that a descriptor is open on
  the file at a path.  Calls on the staging directory do not change the target; a file is
  created empty; a read gives the content, a write adds to it; an exchange swaps the two
  contents, a rename to or from the target moves one; and a failed rename changes nothing.
  This is the documented behaviour of the calls when no one else changes the two directories.

  The content of the target is written down after every call of the write (\<open>Fs_Recording\<close>), so that
  what is proved is not only what the target is in the end but all that it is on the way.
\<close>

definition contents_are ::
  "('w \<Rightarrow> 'fd \<Rightarrow> string \<Rightarrow> string option) \<Rightarrow> 'fd \<Rightarrow> string \<Rightarrow> string option \<Rightarrow> 'fd \<Rightarrow> string \<Rightarrow> string option
     \<Rightarrow> 'w \<Rightarrow> bool" where
  "contents_are content staging stage x parent name y s \<longleftrightarrow>
     content s staging stage = x \<and> content s parent name = y"

definition quiet_kernel :: "('w, 'fd) kernel \<Rightarrow> ('w \<Rightarrow> bool) \<Rightarrow> bool" where
  "quiet_kernel K P \<longleftrightarrow> reads_keep K P \<and> (\<forall>fd. keeps P (k_fsync K fd)) \<and> (\<forall>s. P s \<longrightarrow> P (snd (k_uuid K s)))
     \<and> (\<forall>fd mode. keeps P (k_fchmod K fd mode)) \<and> (\<forall>fd. keeps P (k_sync_all K fd))"

definition stage_laws ::
  "('w, 'fd) kernel \<Rightarrow> ('w \<Rightarrow> 'fd \<Rightarrow> string \<Rightarrow> string option) \<Rightarrow> ('w \<Rightarrow> 'fd \<Rightarrow> 'fd \<Rightarrow> string \<Rightarrow> bool)
     \<Rightarrow> 'fd \<Rightarrow> string \<Rightarrow> 'fd \<Rightarrow> string \<Rightarrow> bool" where
  "stage_laws K content refers staging stage parent name \<longleftrightarrow>
     (\<forall>mode. triple (\<lambda>_. True) (k_openat2 K staging stage CREATE_FLAGS mode RESOLVE)
        (\<lambda>f s. refers s f staging stage \<and> content s staging stage = Some []) (\<lambda>_ _. True))
     \<and> (\<forall>f v bytes. triple (\<lambda>s. refers s f staging stage \<and> content s staging stage = Some v)
          (k_write_all K f bytes) (\<lambda>_ s. content s staging stage = Some (v @ bytes)) (\<lambda>_ _. True))
     \<and> (\<forall>x y. triple (contents_are content staging stage x parent name y)
          (k_renameat K staging stage parent name Rename_Exchange)
          (\<lambda>_. contents_are content staging stage y parent name x)
          (\<lambda>_. contents_are content staging stage x parent name y))
     \<and> (\<forall>x y. triple (contents_are content staging stage x parent name y)
          (k_renameat K staging stage parent name Rename_NoReplace)
          (\<lambda>_ s. content s parent name = x)
          (\<lambda>_. contents_are content staging stage x parent name y))
     \<and> (\<forall>y. triple (\<lambda>s. content s parent name = y)
          (k_renameat K parent name staging stage Rename_NoReplace)
          (\<lambda>_ s. content s parent name = None) (\<lambda>_ s. content s parent name = y))"

definition file_laws ::
  "('w, 'fd) kernel \<Rightarrow> ('fd \<Rightarrow> bool) \<Rightarrow> ('w \<Rightarrow> 'fd \<Rightarrow> string \<Rightarrow> string option)
     \<Rightarrow> ('w \<Rightarrow> 'fd \<Rightarrow> 'fd \<Rightarrow> string \<Rightarrow> bool) \<Rightarrow> 'fd \<Rightarrow> 'fd \<Rightarrow> string \<Rightarrow> bool" where
  "file_laws K own content refers staging parent name \<longleftrightarrow>
     own staging \<and> (\<forall>u. plain_name (''.gobrowse-write-'' @ k_hyphenated K u)
                      \<and> plain_name (''.gobrowse-quarantine-'' @ k_hyphenated K u))
     \<and> (\<forall>t. kernel_confined K own (\<lambda>s. content s parent name = t))
     \<and> (\<forall>d p t. quiet_kernel K (\<lambda>s. content s d p = t))
     \<and> (\<forall>f d p t. quiet_kernel K (\<lambda>s. refers s f d p \<and> content s d p = t))
     \<and> (\<forall>p flags. O_CREATE \<notin> flags \<longrightarrow>
          triple (\<lambda>_. True) (openat K parent p flags) (\<lambda>f s. refers s f parent p) (\<lambda>_ _. True))
     \<and> (\<forall>f d p t n. triple (\<lambda>s. refers s f d p \<and> content s d p = t) (k_read K f n)
          (\<lambda>bytes _. \<exists>v. t = Some v \<and> bytes = take n v) (\<lambda>_ _. True))
     \<and> (\<forall>stage. plain_name stage \<longrightarrow> stage_laws K content refers staging stage parent name)"

lemma file_lawsD:
  assumes "file_laws K own content refers staging parent name"
  shows "own staging" "plain_name (''.gobrowse-write-'' @ k_hyphenated K u)"
    "plain_name (''.gobrowse-quarantine-'' @ k_hyphenated K u)"
    "kernel_confined K own (\<lambda>s. content s parent name = t)"
    "quiet_kernel K (\<lambda>s. content s d p = t)"
    "quiet_kernel K (\<lambda>s. refers s f d p \<and> content s d p = t)"
    "O_CREATE \<notin> flags \<Longrightarrow>
       triple (\<lambda>_. True) (openat K parent p flags) (\<lambda>f s. refers s f parent p) (\<lambda>_ _. True)"
    "triple (\<lambda>s. refers s f d p \<and> content s d p = t) (k_read K f n)
       (\<lambda>bytes _. \<exists>v. t = Some v \<and> bytes = take n v) (\<lambda>_ _. True)"
    "plain_name stage \<Longrightarrow> triple (\<lambda>_. True) (k_openat2 K staging stage CREATE_FLAGS mode RESOLVE)
       (\<lambda>f s. refers s f staging stage \<and> content s staging stage = Some []) (\<lambda>_ _. True)"
    "plain_name stage \<Longrightarrow> triple (\<lambda>s. refers s f staging stage \<and> content s staging stage = Some v)
       (k_write_all K f bytes) (\<lambda>_ s. content s staging stage = Some (v @ bytes)) (\<lambda>_ _. True)"
    "plain_name stage \<Longrightarrow> triple (contents_are content staging stage x parent name y)
       (k_renameat K staging stage parent name Rename_Exchange)
       (\<lambda>_. contents_are content staging stage y parent name x)
       (\<lambda>_. contents_are content staging stage x parent name y)"
    "plain_name stage \<Longrightarrow> triple (contents_are content staging stage x parent name y)
       (k_renameat K staging stage parent name Rename_NoReplace)
       (\<lambda>_ s. content s parent name = x)
       (\<lambda>_. contents_are content staging stage x parent name y)"
    "plain_name stage \<Longrightarrow> triple (\<lambda>s. content s parent name = y)
       (k_renameat K parent name staging stage Rename_NoReplace)
       (\<lambda>_ s. content s parent name = None) (\<lambda>_ s. content s parent name = y)"
  using assms unfolding file_laws_def stage_laws_def by simp_all

subsection \<open>Triples of recorded calls\<close>

lemma keeps_as_triple: "keeps P m \<Longrightarrow> triple P m (\<lambda>_. P) (\<lambda>_. P)"
  by (simp add: keeps_triple)

lemma triple_weak: "triple P m Q E \<Longrightarrow> (\<And>e s. E e s \<Longrightarrow> E' e s) \<Longrightarrow> triple P m Q E'"
  by (rule triple_conseq)

lemma triple_both:
  "triple P m Q E \<Longrightarrow> triple P' m Q' E' \<Longrightarrow>
     triple (\<lambda>s. P s \<and> P' s) m (\<lambda>x s. Q x s \<and> Q' x s) (\<lambda>e s. E e s \<and> E' e s)"
  unfolding triple_def by (auto split: prod.splits sum.splits)

lemma triple_with:
  "triple P m Q E \<Longrightarrow> keeps R m \<Longrightarrow> triple (\<lambda>s. P s \<and> R s) m (\<lambda>x s. Q x s \<and> R s) (\<lambda>e s. R s)"
  unfolding triple_def keeps_def by (fastforce split: prod.splits sum.splits)

lemma quiet_kernelD:
  assumes "quiet_kernel K P"
  shows "reads_keep K P" "keeps P (k_fsync K fd)" "keeps P (k_fchmod K fd mode)"
    "keeps P (k_sync_all K fd)" "P s \<Longrightarrow> P (snd (k_uuid K s))"
  using assms by (auto simp: quiet_kernel_def)

lemma triple_stage_name:
  "quiet_kernel K P \<Longrightarrow> triple P (stage_name K what)
     (\<lambda>stage s. (\<exists>u. stage = ''.gobrowse-'' @ what @ ''-'' @ k_hyphenated K u) \<and> P s) E"
  unfolding triple_def stage_name_def
  by (auto split: prod.split) (metis quiet_kernelD(5) snd_conv)+

lemma triple_yields:
  "triple P m Q E \<Longrightarrow> yields R W m \<Longrightarrow> triple (\<lambda>s. P s \<and> R s) m (\<lambda>x s. Q x s \<and> W x \<and> R s) (\<lambda>e s. R s)"
  unfolding triple_def yields_def by (fastforce split: prod.splits sum.splits)

lemma triple_sys [triple_rules]:
  "triple P m Q (\<lambda>_. E) \<Longrightarrow> triple P (sys m) Q (\<lambda>_. E)" "triple P m Q (\<lambda>_. E) \<Longrightarrow> triple P (sys_io m) Q (\<lambda>_. E)"
  unfolding sys_def sys_io_def by (rule triple_map_err; simp)+

lemma triple_when: "(c \<Longrightarrow> triple P m Q E) \<Longrightarrow> triple (\<lambda>s. P s \<and> c) m Q E"
  by (auto simp: triple_def)

lemma keeps_conj: "keeps P m \<Longrightarrow> keeps Q m \<Longrightarrow> keeps (\<lambda>s. P s \<and> Q s) m"
  by (simp add: keeps_def)


lemma quiet_conj: "quiet_kernel K P \<Longrightarrow> quiet_kernel K Q \<Longrightarrow> quiet_kernel K (\<lambda>s. P s \<and> Q s)"
  unfolding quiet_kernel_def reads_keep_def by (simp add: keeps_conj)

lemma quiet_const: "quiet_kernel K (\<lambda>_. c)"
  by (simp add: quiet_kernel_def reads_keep_def keeps_def)

lemma recording_quiet:
  assumes "quiet_kernel K (\<lambda>s. P s \<and> look s = v)" "continues v H"
  shows "quiet_kernel (recording look K) (\<lambda>z. P (fst z) \<and> sees look v H z)"
  unfolding quiet_kernel_def reads_keep_def recording_simps
proof (intro conjI allI impI)
  note Q = quiet_kernelD [OF assms(1)]
  show "P (fst (snd (k_uuid (recording look K) z)))" "sees look v H (snd (k_uuid (recording look K) z))"
    if "P (fst z) \<and> sees look v H z" for z
    using that Q(5) [of "fst z"] assms(2) by (cases z; auto simp: sees_def continues_def)+
qed (rule keeps_recorded [OF _ assms(2)], rule quiet_kernelD [OF assms(1)] reads_keepD [OF quiet_kernelD(1) [OF assms(1)]];
     assumption)+

lemma triple_fst:
  "triple P m Q E \<Longrightarrow> triple (\<lambda>z. P (fst z)) (recorded look m) (\<lambda>x z. Q x (fst z)) (\<lambda>e z. E e (fst z))"
  unfolding triple_def recorded_def by (fastforce split: prod.splits sum.splits)

text \<open>A call after which something else may be seen.\<close>

lemma triple_recorded:
  assumes "triple (\<lambda>s. P s \<and> look s = v) m (\<lambda>_ s. Q s \<and> look s = v') (\<lambda>_ s. E s \<and> look s = v)"
    and "\<And>h. H h \<Longrightarrow> H' (h @ [v'])" and "continues v H"
  shows "triple (\<lambda>z. P (fst z) \<and> sees look v H z) (recorded look m)
     (\<lambda>_ z. Q (fst z) \<and> sees look v' H' z) (\<lambda>_ z. E (fst z) \<and> sees look v H z)"
proof (rule tripleI)
  fix z r z' assume z: "P (fst z) \<and> sees look v H z" and run: "recorded look m z = (r, z')"
  obtain t where t: "m (fst z) = (r, t)" "z' = (t, snd z @ [look t])"
    using run by (auto simp: recorded_def split: prod.splits)
  have "P (fst z) \<and> look (fst z) = v" using z by (simp add: sees_def)
  from tripleD [OF assms(1) this t(1)] z t(2) assms(2,3)
  show "(\<forall>x. r = Inr x \<longrightarrow> Q (fst z') \<and> sees look v' H' z') \<and> (\<forall>e. r = Inl e \<longrightarrow> E (fst z') \<and> sees look v H z')"
    by (auto simp: sees_def continues_def)
qed

subsection \<open>What may be seen of the target\<close>

text \<open>
  Before the new content is there only the old one has been seen; when it is published, the old one
  and from then on the new one; and after that also the old one again, or none.
\<close>

definition untouched :: "'o \<Rightarrow> 'o list \<Rightarrow> bool" where
  "untouched old h \<longleftrightarrow> set h \<subseteq> {old}"

definition published :: "'o \<Rightarrow> 'o \<Rightarrow> 'o list \<Rightarrow> bool" where
  "published old new h \<longleftrightarrow> (\<exists>before after. h = before @ after \<and> set before \<subseteq> {old} \<and> after \<noteq> [] \<and> set after \<subseteq> {new})"

definition afterwards :: "string option \<Rightarrow> string option \<Rightarrow> string option list \<Rightarrow> bool" where
  "afterwards old new h \<longleftrightarrow>
     (\<exists>before after. h = before @ new # after \<and> set before \<subseteq> {old} \<and> set after \<subseteq> {old, new, None})"

lemma continues_phases [intro, simp]:
  "continues old (untouched old)" "continues new (published old new)"
  "v \<in> {old', new', None} \<Longrightarrow> continues v (afterwards old' new')"
proof -
  show "continues old (untouched old)" by (simp add: continues_def untouched_def)
  show "continues new (published old new)"
    unfolding continues_def published_def
  proof (intro allI impI, elim exE conjE)
    fix h before after
    assume "h = before @ after" "set before \<subseteq> {old}" "after \<noteq> []" "set after \<subseteq> {new}"
    then show "\<exists>before after. h @ [new] = before @ after \<and> set before \<subseteq> {old} \<and> after \<noteq> [] \<and> set after \<subseteq> {new}"
      by (intro exI [of _ before] exI [of _ "after @ [new]"]) simp
  qed
  show "continues v (afterwards old' new')" if "v \<in> {old', new', None}"
    unfolding continues_def afterwards_def
  proof (intro allI impI, elim exE conjE)
    fix h before after
    assume "h = before @ new' # after" "set before \<subseteq> {old'}" "set after \<subseteq> {old', new', None}"
    with that show "\<exists>before after. h @ [v] = before @ new' # after \<and> set before \<subseteq> {old'} \<and> set after \<subseteq> {old', new', None}"
      by (intro exI [of _ before] exI [of _ "after @ [v]"]) auto
  qed
qed

lemma publishes: "untouched old h \<Longrightarrow> published old new (h @ [new])"
  unfolding untouched_def published_def by (intro exI [of _ h] exI [of _ "[new]"]) simp

lemma published_afterwards: "published old new h \<Longrightarrow> afterwards old new h"
  unfolding published_def afterwards_def
proof (elim exE conjE)
  fix before after assume "h = before @ after" "set before \<subseteq> {old}" "after \<noteq> []" "set after \<subseteq> {new}"
  then show "\<exists>before after. h = before @ new # after \<and> set before \<subseteq> {old} \<and> set after \<subseteq> {old, new, None}"
    by (intro exI [of _ before] exI [of _ "tl after"]) (cases after, auto)
qed

definition put_back :: "('w \<Rightarrow> string option) \<Rightarrow> string option \<Rightarrow> string option \<Rightarrow> 'w \<times> string option list \<Rightarrow> bool" where
  "put_back look old new z \<longleftrightarrow> (\<exists>v \<in> {old, new, None}. sees look v (afterwards old new) z)"

definition safe :: "('w \<Rightarrow> string option) \<Rightarrow> string option \<Rightarrow> string option \<Rightarrow> 'w \<times> string option list \<Rightarrow> bool" where
  "safe look old new z \<longleftrightarrow> sees look old (untouched old) z \<or> put_back look old new z"

lemma safe_intros [intro]:
  "sees look old (untouched old) z \<Longrightarrow> safe look old new z"
  "sees look new (published old new) z \<Longrightarrow> safe look old new z"
  "put_back look old new z \<Longrightarrow> safe look old new z"
  "v \<in> {old, new, None} \<Longrightarrow> sees look v (afterwards old new) z \<Longrightarrow> put_back look old new z"
  by (auto simp: safe_def put_back_def sees_def intro: published_afterwards)

subsection \<open>The steps of a write, each with what is seen of the target\<close>

abbreviation target_in :: "('w \<Rightarrow> 'fd \<Rightarrow> string \<Rightarrow> string option) \<Rightarrow> 'fd \<Rightarrow> string \<Rightarrow> 'w \<Rightarrow> string option" where
  "target_in content parent name \<equiv> \<lambda>s. content s parent name"

definition staged_as ::
  "('w \<Rightarrow> 'fd \<Rightarrow> string \<Rightarrow> string option) \<Rightarrow> 'fd \<Rightarrow> string \<Rightarrow> string option \<Rightarrow> ('w \<Rightarrow> string option)
     \<Rightarrow> string option \<Rightarrow> (string option list \<Rightarrow> bool) \<Rightarrow> 'w \<times> string option list \<Rightarrow> bool" where
  "staged_as content staging stage x look v H z \<longleftrightarrow> content (fst z) staging stage = x \<and> sees look v H z"

lemma recording_laws:
  assumes L: "file_laws K own content refers staging parent name" and "continues v H"
  shows "kernel_confined (recording (target_in content parent name) K) own (sees (target_in content parent name) v H)"
    "quiet_kernel (recording (target_in content parent name) K) (sees (target_in content parent name) v H)"
    "quiet_kernel (recording (target_in content parent name) K)
       (staged_as content staging stage x (target_in content parent name) v H)"
    "quiet_kernel (recording (target_in content parent name) K)
       (\<lambda>z. (refers (fst z) f d p \<and> content (fst z) d p = t) \<and> sees (target_in content parent name) v H z)"
proof -
  show "kernel_confined (recording (target_in content parent name) K) own (sees (target_in content parent name) v H)"
    by (rule recording_confined [OF file_lawsD(4) [OF L] assms(2)])
  have "quiet_kernel K (\<lambda>s. True \<and> content s parent name = v)"
    by (intro quiet_conj quiet_const file_lawsD(5) [OF L])
  from recording_quiet [OF this assms(2)]
  show "quiet_kernel (recording (target_in content parent name) K) (sees (target_in content parent name) v H)" by simp
  have "quiet_kernel K (\<lambda>s. content s staging stage = x \<and> content s parent name = v)"
    by (intro quiet_conj file_lawsD(5) [OF L])
  from recording_quiet [OF this assms(2)]
  show "quiet_kernel (recording (target_in content parent name) K)
       (staged_as content staging stage x (target_in content parent name) v H)" by (simp add: staged_as_def [abs_def])
  have "quiet_kernel K (\<lambda>s. (refers s f d p \<and> content s d p = t) \<and> content s parent name = v)"
    by (intro quiet_conj [OF file_lawsD(6) [OF L]] file_lawsD(5) [OF L])
  from recording_quiet [OF this assms(2)]
  show "quiet_kernel (recording (target_in content parent name) K)
       (\<lambda>z. (refers (fst z) f d p \<and> content (fst z) d p = t) \<and> sees (target_in content parent name) v H z)" .
qed

text \<open>Reading the target gives its whole content.\<close>

lemma triple_read_target:
  assumes L: "file_laws K own content refers staging parent name" and H: "continues y H"
  defines "W \<equiv> recording (target_in content parent name) K" and "T \<equiv> sees (target_in content parent name) y H"
  shows "triple T (io_bind (sys (openat W parent name READ_FLAGS)) (read_regular W))
     (\<lambda>(bytes, digest) z. T z \<and> y = Some bytes \<and> digest = k_sha256 K bytes) (\<lambda>_. T)"
proof (rule triple_bind)
  let ?R = "\<lambda>f z. refers (fst z) f parent name \<and> T z"
  note quiet = recording_laws(2) [OF L H, folded W_def T_def]
  have y: "T z \<Longrightarrow> content (fst z) parent name = y" for z by (simp add: T_def sees_def)
  have quiet2: "quiet_kernel W (?R f)" for f
    using recording_laws(4) [OF L H, of f parent name y, folded W_def T_def] y
    by (simp add: conj_ac cong: conj_cong)
  have opened: "openat W parent name READ_FLAGS = recorded (target_in content parent name) (openat K parent name READ_FLAGS)"
    by (simp add: W_def openat_def)
  have "keeps T (openat W parent name READ_FLAGS)"
    by (intro reading quiet_kernelD [OF quiet])
  from triple_with [OF triple_fst [OF file_lawsD(7) [OF L, of READ_FLAGS name],
      of "target_in content parent name", folded opened] this]
  show "triple T (sys (openat W parent name READ_FLAGS)) ?R (\<lambda>_. T)"
    by (intro triple_sys) simp
  fix f
  have stat: "triple (?R f) (sys (k_fstat W f)) (\<lambda>_. ?R f) (\<lambda>_. T)"
    by (rule triple_weak [OF keeps_as_triple [OF keeps_sys(1)]])
       (intro reads_keepD quiet_kernelD [OF quiet2], simp)
  have bytes_read: "triple (?R f) (k_read W f (n + 1)) (\<lambda>b z. (\<exists>v. y = Some v \<and> b = take (n + 1) v) \<and> T z) (\<lambda>_. T)" for n
  proof -
    have "keeps T (k_read W f (n + 1))" by (intro reads_keepD quiet_kernelD [OF quiet])
    from triple_with [OF triple_fst [OF file_lawsD(8) [OF L, of f parent name y],
        of "target_in content parent name"] this [unfolded W_def recording_simps]]
    show ?thesis unfolding W_def recording_simps by (rule triple_pre) (simp add: y)
  qed
  have body: "triple (?R f)
      (io_bind (sys_io (k_read W f (n + 1))) (\<lambda>bytes.
         if length bytes > n then io_fail Fs_LimitExceeded else io_ok (bytes, k_sha256 W bytes)))
      (\<lambda>(bytes, digest) z. T z \<and> y = Some bytes \<and> digest = k_sha256 K bytes) (\<lambda>_. T)" for n
    by (rule triple_bind [OF triple_sys(2) [OF bytes_read]]) (auto simp: triple_def io_ok_def io_fail_def W_def)
  have fail: "triple (?R f) (io_fail e) Q (\<lambda>_. T)" for e :: FilesystemError
    and Q :: "string \<times> string \<Rightarrow> _ \<Rightarrow> bool"
    by (rule triple_fail) simp
  show "triple (?R f) (read_regular W f)
      (\<lambda>(bytes, digest) z. T z \<and> y = Some bytes \<and> digest = k_sha256 K bytes) (\<lambda>_. T)"
    unfolding read_regular_def read_regular_bounded_def
  proof (rule triple_bind [OF stat])
    fix st
    show "triple (?R f)
       (io_bind (io_lift (safe_kind_and_size st)) (\<lambda>(kind, size).
          if kind \<noteq> Kind_File then io_fail Fs_UnsafeEntry
          else if MAX_FILE_PAYLOAD_BYTES < unat size then io_fail Fs_LimitExceeded
          else io_bind (sys_io (k_read W f (MAX_FILE_PAYLOAD_BYTES + 1))) (\<lambda>bytes.
             if MAX_FILE_PAYLOAD_BYTES < length bytes then io_fail Fs_LimitExceeded
             else io_ok (bytes, k_sha256 W bytes))))
       (\<lambda>(bytes, digest) z. T z \<and> y = Some bytes \<and> digest = k_sha256 K bytes) (\<lambda>_. T)"
      using body [of MAX_FILE_PAYLOAD_BYTES] fail
      by (cases "safe_kind_and_size st") (simp_all split: prod.split)
  qed
qed

lemma triple_check_target:
  assumes L: "file_laws K own content refers staging parent name" and H: "continues y H"
  defines "W \<equiv> recording (target_in content parent name) K" and "T \<equiv> sees (target_in content parent name) y H"
  shows "triple T (check_target W parent name expected)
     (\<lambda>_ z. T z \<and> (expected = None \<or> (\<exists>v. y = Some v \<and> expected = Some (k_sha256 K v)))) (\<lambda>_. T)"
proof -
  note R = quiet_kernelD(1) [OF recording_laws(2) [OF L H, folded W_def T_def]]
  have "triple T
       (case expected of
          None \<Rightarrow> io_ok ()
        | Some expected \<Rightarrow>
            io_bind (sys (openat W parent name READ_FLAGS)) (\<lambda>existing.
            io_bind (read_regular W existing) (\<lambda>(bytes, actual).
              if actual \<noteq> expected then io_fail Fs_Conflict else io_ok ())))
     (\<lambda>_ z. T z \<and> (expected = None \<or> (\<exists>v. y = Some v \<and> expected = Some (k_sha256 K v)))) (\<lambda>_. T)"
  proof (cases expected)
    case (Some h)
    have "triple T (io_bind (io_bind (sys (openat W parent name READ_FLAGS)) (read_regular W))
         (\<lambda>(bytes, actual). if actual \<noteq> h then io_fail Fs_Conflict else io_ok ()))
       (\<lambda>_ z. T z \<and> (\<exists>v. y = Some v \<and> h = k_sha256 K v)) (\<lambda>_. T)"
      by (rule triple_bind [OF triple_read_target [OF L H, folded W_def T_def]])
         (auto simp: triple_def io_ok_def io_fail_def split: if_splits)
    then show ?thesis by (simp add: Some bind_assoc)
  qed (simp add: triple_ok)
  note digest = this
  have "keeps T (io_try (openat W parent name METADATA_FLAGS))"
    by (intro keeps_rules reading R)
  note opened = keeps_as_triple [OF this]
  show ?thesis
    unfolding check_target_def io_then_def
    by (rule triple_bind [OF opened], rule triple_bind [OF keeps_as_triple digest])
       (auto split: sum.split intro!: keeps_rules reading R)
qed

lemma triple_create:
  assumes L: "file_laws K own content refers staging parent name" and stage: "plain_name stage" and H: "continues y H"
  defines "W \<equiv> recording (target_in content parent name) K" and "T \<equiv> sees (target_in content parent name) y H"
  shows "triple T (create_staged_file W staging stage bytes maximum mode)
     (\<lambda>(digest, staged) z. digest = k_sha256 K bytes
        \<and> staged_as content staging stage (Some bytes) (target_in content parent name) y H z) (\<lambda>_. T)"
proof -
  let ?look = "target_in content parent name"
  let ?O = "\<lambda>f v z. (refers (fst z) f staging stage \<and> content (fst z) staging stage = Some v) \<and> own f \<and> T z"
  note C = recording_laws(1) [OF L H, folded W_def T_def] and S = file_lawsD(1) [OF L]
  note QT = recording_laws(2) [OF L H, folded W_def T_def]
  have opened: "triple T (sys (k_openat2 W staging stage CREATE_FLAGS mode RESOLVE)) (\<lambda>f. ?O f []) (\<lambda>_. T)"
    using triple_yields [OF triple_fst [OF file_lawsD(9) [OF L stage], of ?look]
        kernel_confined_yields(1) [OF C S, unfolded W_def recording_simps]]
    unfolding W_def recording_simps by (intro triple_sys) simp
  have Q: "quiet_kernel W (?O f v)" for f v
    using quiet_conj [OF recording_laws(4) [OF L H, of f staging stage "Some v", folded W_def T_def]
        quiet_const [of W "own f"]]
    by (simp add: conj_ac)
  have quiet: "triple (?O f v) (sys m) (\<lambda>_. ?O f v) (\<lambda>_. T)" if "keeps (?O f v) m" for f v and m :: "(_, Errno, 'c) io"
    by (rule triple_weak [OF keeps_as_triple [OF keeps_sys(1) [OF that]]]) simp
  have chmod: "triple (?O f v) (sys (k_fchmod W f mode)) (\<lambda>_. ?O f v) (\<lambda>_. T)" for f v
    by (intro quiet quiet_kernelD [OF Q])
  have stat: "triple (?O f v) (sys (k_fstat W f)) (\<lambda>_. ?O f v) (\<lambda>_. T)" for f v
    by (intro quiet reads_keepD quiet_kernelD [OF Q])
  let ?D = "staged_as content staging stage (Some bytes) ?look y H"
  have wrote: "triple (?O f []) (k_write_all W f bytes) (\<lambda>_. ?D) (\<lambda>_. T)" for f
  proof (cases "own f")
    case True
    from triple_with [OF triple_fst [OF file_lawsD(10) [OF L stage, of f "[]" bytes], of ?look]
        kernel_confinedD(9) [OF C True, unfolded W_def recording_simps]] True
    show ?thesis unfolding W_def recording_simps by (simp add: staged_as_def [abs_def] T_def)
  qed (simp add: triple_def)
  have synced: "triple ?D (k_sync_all W f) (\<lambda>_. ?D) (\<lambda>_. T)" for f
    by (rule triple_weak [OF keeps_as_triple [OF quiet_kernelD(4) [OF recording_laws(3) [OF L H, folded W_def T_def]]]])
       (simp add: staged_as_def T_def)
  have undo: "triple T (io_then (io_ignore (k_unlinkat W staging stage False)) (io_fail e)) R (\<lambda>_. T)"
    for e :: FilesystemError and R :: "unit \<Rightarrow> _ \<Rightarrow> bool"
    by (intro triple_then triple_fail, rule keeps_as_triple)
       (intro keeps_ignore kernel_confinedD(6) [OF C S stage])
  have written: "triple (?O f [])
     (io_catch (sys_io (io_then (k_write_all W f bytes) (k_sync_all W f)))
       (\<lambda>e. io_then (io_ignore (k_unlinkat W staging stage False)) (io_fail e))) (\<lambda>_. ?D) (\<lambda>_. T)" for f
    by (rule triple_catch [OF triple_sys(2) [OF triple_then [OF wrote synced]] undo])
  have sha: "k_sha256 W bytes = k_sha256 K bytes" by (simp add: W_def)
  show ?thesis
    unfolding create_staged_file_def
    by (auto intro!: triple_fail triple_bind [OF opened] triple_bind [OF chmod] triple_bind [OF stat]
        triple_bind [OF written] triple_ok simp: sha)
qed

text \<open>Operations on the staging directory leave the target alone, whatever they do.\<close>

lemma triple_aside:
  assumes "keeps P m" and "\<And>z. P z \<Longrightarrow> Q () z" and "\<And>e z. P z \<Longrightarrow> E e z"
  shows "triple P m (\<lambda>_. Q ()) E"
  by (rule triple_conseq [OF keeps_as_triple [OF assms(1)]]) (use assms(2,3) in auto)

lemma triple_gone:
  assumes L: "file_laws K own content refers staging parent name" and stage: "plain_name stage"
    and v: "v \<in> {old, new, None}"
  shows "triple (sees (target_in content parent name) v (afterwards old new))
     (k_renameat (recording (target_in content parent name) K) parent name staging stage Rename_NoReplace)
     (\<lambda>_. sees (target_in content parent name) None (afterwards old new))
     (\<lambda>_. sees (target_in content parent name) v (afterwards old new))"
proof -
  have "triple (\<lambda>s. True \<and> content s parent name = v) (k_renameat K parent name staging stage Rename_NoReplace)
      (\<lambda>_ s. True \<and> content s parent name = None) (\<lambda>_ s. True \<and> content s parent name = v)"
    using file_lawsD(13) [OF L stage, of v] by simp
  from triple_recorded [OF this, of "afterwards old new" "afterwards old new"]
  show ?thesis using continues_phases(3) [OF v] continues_phases(3) [of None old new] by (simp add: continues_def)
qed

lemma triple_quarantine:
  assumes L: "file_laws K own content refers (staging_fd F) parent name" and v: "v \<in> {old, new, None}"
  defines "look \<equiv> target_in content parent name"
  shows "triple (sees look v (afterwards old new)) (quarantine_published (recording look K) F parent name e) Q
     (\<lambda>_. put_back look old new)"
proof -
  let ?W = "recording look K" and ?T = "\<lambda>v. sees look v (afterwards old new)"
  note S = file_lawsD(1) [OF L]
  have P: "?T u z \<Longrightarrow> put_back look old new z" if "u \<in> {old, new, None}" for u z
    using that by (rule safe_intros)
  have stage: "triple (?T v) (stage_name ?W ''quarantine'') (\<lambda>q z. plain_name q \<and> ?T v z) (\<lambda>_. put_back look old new)"
    by (rule triple_conseq [OF triple_stage_name [OF recording_laws(2) [OF L continues_phases(3) [OF v], folded look_def]]])
       (auto intro: file_lawsD(3) [OF L, simplified] P [OF v])
  have renamed: "triple (\<lambda>z. plain_name q \<and> ?T v z)
      (sys (k_renameat ?W parent name (staging_fd F) q Rename_NoReplace))
      (\<lambda>_ z. plain_name q \<and> ?T None z) (\<lambda>_. put_back look old new)" for q
  proof (cases "plain_name q")
    case True
    show ?thesis
      by (intro triple_sys triple_conseq [OF triple_gone [OF L True v, folded look_def]]) (use True P [OF v] in auto)
  qed (simp add: triple_def)
  have removed: "triple (\<lambda>z. plain_name q \<and> ?T None z) (remove_tree ?W (staging_fd F) q)
      (\<lambda>_. put_back look old new) (\<lambda>_. put_back look old new)" for q
  proof (cases "plain_name q")
    case True
    note keeps_remove_tree [OF recording_laws(1) [OF L continues_phases(3) [of None old new], folded look_def] S True]
    then have "triple (?T None) (remove_tree ?W (staging_fd F) q) (\<lambda>_. put_back look old new) (\<lambda>_. put_back look old new)"
      by (intro triple_aside) (auto intro: P)
    then show ?thesis by (rule triple_pre) simp
  qed (simp add: triple_def)
  show ?thesis
    unfolding quarantine_published_def quarantine_and_remove_def
    by (rule triple_then, rule triple_map_err, rule triple_bind [OF stage triple_then [OF renamed removed]],
        rule triple_fail)
qed

lemma triple_exchange:
  assumes L: "file_laws K own content refers staging parent name" and stage: "plain_name stage"
    and "continues y H" "\<And>h. H h \<Longrightarrow> H' (h @ [x])"
  defines "look \<equiv> target_in content parent name"
  shows "triple (staged_as content staging stage x look y H)
     (k_renameat (recording look K) staging stage parent name Rename_Exchange)
     (\<lambda>_. staged_as content staging stage y look x H') (\<lambda>_. staged_as content staging stage x look y H)"
proof -
  have "triple (\<lambda>s. content s staging stage = x \<and> look s = y) (k_renameat K staging stage parent name Rename_Exchange)
      (\<lambda>_ s. content s staging stage = y \<and> look s = x) (\<lambda>_ s. content s staging stage = x \<and> look s = y)"
    using file_lawsD(11) [OF L stage, of x y] by (simp add: contents_are_def [abs_def] look_def)
  then show ?thesis
    unfolding recording_simps staged_as_def [abs_def]
    by (rule triple_recorded [where P = "\<lambda>s. content s staging stage = x" and Q = "\<lambda>s. content s staging stage = y"
          and E = "\<lambda>s. content s staging stage = x"]) (rule assms(4), assumption, rule assms(3))
qed

lemma triple_roll_back:
  assumes L: "file_laws K own content refers (staging_fd F) parent name" and stage: "plain_name stage"
  defines "look \<equiv> target_in content parent name"
  shows "triple (staged_as content (staging_fd F) stage old look new (afterwards old new))
     (roll_back (recording look K) F parent name stage e) Q (\<lambda>_. put_back look old new)"
proof -
  let ?W = "recording look K" and ?T = "\<lambda>v. sees look v (afterwards old new)" and ?I = "put_back look old new"
  note S = file_lawsD(1) [OF L] and C = recording_laws(1) [OF L continues_phases(3), folded look_def]
  have P: "?T u z \<Longrightarrow> ?I z" if "u \<in> {old, new, None}" for u z
    using that by (rule safe_intros)
  have swapped: "triple (staged_as content (staging_fd F) stage old look new (afterwards old new))
      (io_is_ok (k_renameat ?W (staging_fd F) stage parent name Rename_Exchange))
      (\<lambda>ok. ?T (if ok then old else new)) (\<lambda>_. ?I)"
  proof (rule triple_is_ok)
    have "continues new (afterwards old new)" "\<And>h. afterwards old new h \<Longrightarrow> afterwards old new (h @ [old])"
      using continues_phases(3) [of old old new] continues_phases(3) [of new old new] by (simp_all add: continues_def)
    note this [intro]
    have "triple (staged_as content (staging_fd F) stage old look new (afterwards old new))
        (k_renameat ?W (staging_fd F) stage parent name Rename_Exchange)
        (\<lambda>_. staged_as content (staging_fd F) stage new look old (afterwards old new))
        (\<lambda>_. staged_as content (staging_fd F) stage old look new (afterwards old new))"
      unfolding look_def by (rule triple_exchange [OF L stage]) auto
    then show "triple (staged_as content (staging_fd F) stage old look new (afterwards old new))
        (k_renameat ?W (staging_fd F) stage parent name Rename_Exchange)
        (\<lambda>_. ?T (if True then old else new)) (\<lambda>_. ?T (if False then old else new))"
      by (rule triple_conseq) (simp_all add: staged_as_def)
  qed
  have removed: "triple (?T z) (remove_tree_best_effort ?W (staging_fd F) stage) (\<lambda>_. ?T z) (\<lambda>_. ?I)"
    if "z \<in> {old, new}" for z
    by (rule triple_aside) (use that in \<open>auto intro!: keeps_remove_best_effort [OF C S stage] intro: P\<close>)
  have valid: "triple (?T old) (io_is_ok (validate_named_entry ?W parent name)) (\<lambda>_. ?T old) (\<lambda>_. ?I)"
    by (rule triple_aside)
       (auto intro!: keeps_is_ok reading quiet_kernelD [OF recording_laws(2) [OF L continues_phases(3), folded look_def]]
         intro: P)
  have quarantine: "triple (?T old)
      (io_then (if ok then io_ok () else io_map_err (\<lambda>_. Fs_ContainmentFailure)
         (quarantine_and_remove ?W parent name (staging_fd F))) (io_fail e)) Q (\<lambda>_. ?I)" for ok
  proof (cases ok)
    case True
    have "triple (?T old) (io_fail e) Q (\<lambda>_. ?I)" by (rule triple_fail) (auto intro: P)
    with True show ?thesis by (simp add: io_then_def)
  next
    case False
    then show ?thesis
      using triple_quarantine [OF L, of old old new, folded look_def, unfolded quarantine_published_def] by simp
  qed
  show ?thesis
    unfolding roll_back_def
  proof (rule triple_bind [OF swapped])
    fix ok
    show "triple (?T (if ok then old else new))
      (io_then (remove_tree_best_effort ?W (staging_fd F) stage)
        (if ok then io_bind (io_is_ok (validate_named_entry ?W parent name)) (\<lambda>valid. io_then
           (if valid then io_ok () else io_map_err (\<lambda>_. Fs_ContainmentFailure)
              (quarantine_and_remove ?W parent name (staging_fd F))) (io_fail e))
         else io_fail Fs_UnsafeEntry)) Q (\<lambda>_. ?I)"
    proof (cases ok)
      case True
      then show ?thesis
        by (simp, intro triple_then [OF removed triple_bind [OF valid quarantine]]) simp
    next
      case False
      have "triple (?T new) (io_fail Fs_UnsafeEntry) Q (\<lambda>_. ?I)"
        by (rule triple_fail) (auto intro: P)
      with False show ?thesis by (simp, intro triple_then [OF removed]) simp_all
    qed
  qed
qed

lemma triple_abandon:
  assumes L: "file_laws K own content refers (staging_fd F) parent name" and stage: "plain_name stage"
  defines "look \<equiv> target_in content parent name"
  shows "triple (staged_as content (staging_fd F) stage x look old (untouched old))
     (io_then (remove_tree_best_effort (recording look K) (staging_fd F) stage) (io_fail e)) Q
     (\<lambda>_. safe look old new)"
proof -
  let ?T = "sees look old (untouched old)"
  note keeps_remove_best_effort [OF recording_laws(1) [OF L continues_phases(1), folded look_def] file_lawsD(1) [OF L] stage]
  then have "triple ?T (remove_tree_best_effort (recording look K) (staging_fd F) stage) (\<lambda>_. ?T) (\<lambda>_. safe look old new)"
    by (intro triple_aside) auto
  from triple_then [OF this triple_fail] show ?thesis
    by (rule triple_pre) (auto simp: staged_as_def)
qed

lemma triple_publish:
  assumes L: "file_laws K own content refers (staging_fd F) parent name" and stage: "plain_name stage"
  defines "look \<equiv> target_in content parent name"
  shows "triple (staged_as content (staging_fd F) stage (Some bytes) look old (untouched old))
     (publish_staged (recording look K) F parent name stage staged expected target_exists)
     (\<lambda>_. sees look (Some bytes) (published old (Some bytes))) (\<lambda>_. safe look old (Some bytes))"
proof -
  let ?W = "recording look K" and ?new = "Some bytes"
  let ?I = "safe look old ?new" and ?P = "sees look ?new (published old ?new)"
  let ?S = "\<lambda>x. staged_as content (staging_fd F) stage x look"
  note S = file_lawsD(1) [OF L] and C = recording_laws(1) [OF L continues_phases(2), folded look_def]
  note reads = quiet_kernelD(1) [OF recording_laws(3) [OF L continues_phases(2), folded look_def]]
  have "triple (?S ?new old (untouched old)) (k_renameat ?W (staging_fd F) stage parent name Rename_Exchange)
      (\<lambda>_. ?S old ?new (published old ?new)) (\<lambda>_. ?S ?new old (untouched old))"
    unfolding look_def by (rule triple_exchange [OF L stage]) (auto intro: publishes)
  then have exchange: "triple (?S ?new old (untouched old))
      (io_catch (sys (k_renameat ?W (staging_fd F) stage parent name Rename_Exchange))
         (\<lambda>e. io_then (remove_tree_best_effort ?W (staging_fd F) stage) (io_fail e)))
      (\<lambda>_. ?S old ?new (published old ?new)) (\<lambda>_. ?I)"
    unfolding look_def by (rule triple_catch [OF triple_sys(1) triple_abandon [OF L stage]])
  have checks: "triple (?S old ?new (published old ?new))
      (io_then (verify_published ?W parent name staged Kind_File) (validate_displaced ?W F stage expected))
      (\<lambda>_. ?S old ?new (published old ?new)) (\<lambda>_. ?S old ?new (published old ?new))"
    by (rule keeps_as_triple) (intro keeps_rules reading reads)
  have undone: "triple (?S old ?new (published old ?new)) (roll_back ?W F parent name stage e)
      (\<lambda>_. ?S old ?new (published old ?new)) (\<lambda>_. ?I)" for e
    by (rule triple_conseq [OF triple_roll_back [OF L stage, where Q = "\<lambda>_ _. False", folded look_def]])
       (auto simp: staged_as_def sees_def intro: published_afterwards)
  have removed: "triple (?S old ?new (published old ?new)) (remove_tree ?W (staging_fd F) stage) (\<lambda>_. ?P) (\<lambda>_. ?I)"
    by (rule triple_pre [of ?P], rule triple_aside)
       (auto simp: staged_as_def intro!: keeps_remove_tree [OF C S stage])
  have "triple (\<lambda>s. content s (staging_fd F) stage = ?new \<and> look s = old)
      (k_renameat K (staging_fd F) stage parent name Rename_NoReplace)
      (\<lambda>_ s. True \<and> look s = ?new) (\<lambda>_ s. content s (staging_fd F) stage = ?new \<and> look s = old)"
    using file_lawsD(12) [OF L stage, of ?new old] by (simp add: contents_are_def [abs_def] look_def)
  then have "triple (\<lambda>z. content (fst z) (staging_fd F) stage = ?new \<and> sees look old (untouched old) z)
      (recorded look (k_renameat K (staging_fd F) stage parent name Rename_NoReplace))
      (\<lambda>_ z. True \<and> ?P z) (\<lambda>_ z. content (fst z) (staging_fd F) stage = ?new \<and> sees look old (untouched old) z)"
    by (rule triple_recorded [where P = "\<lambda>s. content s (staging_fd F) stage = ?new" and Q = "\<lambda>_. True"
          and E = "\<lambda>s. content s (staging_fd F) stage = ?new"]) (auto intro: publishes)
  then have "triple (?S ?new old (untouched old)) (k_renameat ?W (staging_fd F) stage parent name Rename_NoReplace)
      (\<lambda>_. ?P) (\<lambda>_. ?S ?new old (untouched old))"
    by (simp add: staged_as_def [abs_def])
  then have rename: "triple (?S ?new old (untouched old))
      (io_catch (sys (k_renameat ?W (staging_fd F) stage parent name Rename_NoReplace))
         (\<lambda>e. io_then (remove_tree_best_effort ?W (staging_fd F) stage) (io_fail e)))
      (\<lambda>_. ?P) (\<lambda>_. ?I)"
    unfolding look_def by (rule triple_catch [OF triple_sys(1) triple_abandon [OF L stage]])
  have verify: "triple ?P
      (io_catch (verify_published ?W parent name staged Kind_File) (quarantine_published ?W F parent name))
      (\<lambda>_. ?P) (\<lambda>_. ?I)"
  proof (rule triple_catch)
    show "triple ?P (verify_published ?W parent name staged Kind_File) (\<lambda>_. ?P) (\<lambda>_. ?P)"
      by (rule keeps_as_triple)
        (intro reading quiet_kernelD(1) [OF recording_laws(2) [OF L continues_phases(2), folded look_def]])
    show "triple ?P (quarantine_published ?W F parent name e) (\<lambda>_. ?P) (\<lambda>_. ?I)" for e
      by (rule triple_conseq [OF triple_quarantine [OF L, where v = ?new and old = old and new = ?new
            and Q = "\<lambda>_ _. False", folded look_def]])
         (auto simp: sees_def intro: published_afterwards)
  qed
  show ?thesis
  proof (cases target_exists)
    case True
    show ?thesis
      unfolding publish_staged_def if_P [OF True]
      by (rule triple_bind [OF exchange], rule triple_bind [OF triple_catch [OF checks undone]], rule removed)
  next
    case False
    show ?thesis
      unfolding publish_staged_def if_not_P [OF False]
      by (rule triple_bind [OF rename verify])
  qed
qed

lemma triple_stage_and_publish:
  assumes L: "file_laws K own content refers (staging_fd F) parent name"
  defines "look \<equiv> target_in content parent name"
  shows "triple (sees look old (untouched old)) (stage_and_publish (recording look K) F parent name expected bytes)
     (\<lambda>digest z. sees look (Some bytes) (published old (Some bytes)) z \<and> digest = k_sha256 K bytes)
     (\<lambda>_. safe look old (Some bytes))"
proof -
  let ?W = "recording look K" and ?T = "sees look old (untouched old)" and ?I = "safe look old (Some bytes)"
  let ?S = "\<lambda>x. staged_as content (staging_fd F) x (Some bytes) look old (untouched old)"
  let ?P = "sees look (Some bytes) (published old (Some bytes))"
  note quiet = recording_laws(2) [OF L continues_phases(1), folded look_def]
  have exists: "triple ?T (io_is_ok (openat ?W parent name METADATA_FLAGS)) (\<lambda>_. ?T) (\<lambda>_. ?I)"
  proof (rule triple_is_ok, rule triple_conseq [OF keeps_as_triple])
    show "keeps ?T (openat ?W parent name METADATA_FLAGS)"
      by (intro reading quiet_kernelD(1) [OF quiet])
  qed auto
  have staging: "triple ?T (stage_name ?W ''write'') (\<lambda>x z. plain_name x \<and> ?T z) (\<lambda>_. ?I)"
    by (rule triple_conseq [OF triple_stage_name [OF quiet]]) (auto intro: file_lawsD(2) [OF L, simplified])
  have created: "triple (\<lambda>z. plain_name x \<and> ?T z)
      (create_staged_file ?W (staging_fd F) x bytes MAX_FILE_PAYLOAD_BYTES MODE_FILE)
      (\<lambda>(digest, staged) z. plain_name x \<and> digest = k_sha256 K bytes \<and> ?S x z) (\<lambda>_. ?I)" for x
  proof (cases "plain_name x")
    case True
    show ?thesis
      by (rule triple_conseq [OF triple_create [OF L True continues_phases(1), folded look_def]]) (use True in auto)
  qed (auto simp: triple_def)
  have verified: "triple (?S x)
      (io_catch (verify_published ?W (staging_fd F) x staged Kind_File)
         (\<lambda>e. io_then (remove_tree_best_effort ?W (staging_fd F) x) (io_fail e)))
      (\<lambda>_. ?S x) (\<lambda>_. ?I)" if "plain_name x" for x staged
  proof (rule triple_catch)
    show "triple (?S x) (verify_published ?W (staging_fd F) x staged Kind_File) (\<lambda>_. ?S x) (\<lambda>_. ?S x)"
      by (rule keeps_as_triple)
        (intro reading quiet_kernelD(1) [OF recording_laws(3) [OF L continues_phases(1), folded look_def]])
    show "triple (?S x) (io_then (remove_tree_best_effort ?W (staging_fd F) x) (io_fail e)) (\<lambda>_. ?S x) (\<lambda>_. ?I)" for e
      using triple_abandon [OF L that, folded look_def] .
  qed
  have synced: "triple ?P (sys_io (k_fsync ?W fd)) (\<lambda>_. ?P) (\<lambda>_. ?I)" for fd
    by (rule triple_aside [OF keeps_sys(2) [OF quiet_kernelD(2)
          [OF recording_laws(2) [OF L continues_phases(2), folded look_def]]]]) auto
  have finish: "triple ?P
      (io_then (sys_io (k_fsync ?W parent)) (io_then (sys_io (k_fsync ?W (staging_fd F))) (io_ok digest)))
      (\<lambda>digest' z. digest' = digest \<and> ?P z) (\<lambda>_. ?I)" for digest
    by (rule triple_then [OF synced triple_then [OF synced triple_ok]]) simp
  have published: "triple (\<lambda>z. plain_name x \<and> digest = k_sha256 K bytes \<and> ?S x z)
      (io_then
           (io_catch (verify_published ?W (staging_fd F) x staged Kind_File)
              (\<lambda>e. io_then (remove_tree_best_effort ?W (staging_fd F) x) (io_fail e)))
         (io_then (publish_staged ?W F parent name x staged expected target_exists)
         (io_then (sys_io (k_fsync ?W parent))
         (io_then (sys_io (k_fsync ?W (staging_fd F)))
           (io_ok digest)))))
      (\<lambda>digest z. ?P z \<and> digest = k_sha256 K bytes) (\<lambda>_. ?I)"
    for x digest staged target_exists
  proof (cases "plain_name x \<and> digest = k_sha256 K bytes")
    case True
    then have x: "plain_name x" by simp
    show ?thesis
      by (rule triple_conseq [OF triple_then [OF verified [OF x] triple_then [OF triple_publish [OF L x, folded look_def] finish]]])
         (use True in auto)
  qed (auto simp: triple_def)
  show ?thesis
    unfolding stage_and_publish_def
    by (rule triple_bind [OF exists], rule triple_bind [OF staging], rule triple_bind [OF created],
        simp only: split_beta, rule published)
qed

text \<open>The whole write, with the history of the target.\<close>

lemma recorded_write:
  assumes L: "file_laws K own content refers (staging_fd F) parent name"
    and opened: "io_bind (workspace K F w) (\<lambda>ws. open_parent K ws path) s = (Inr (parent, name), s1)"
    and run: "atomic_write (recording (target_in content parent name) K) F w path expected bytes (s, []) = (r, z)"
  defines "look \<equiv> target_in content parent name"
  shows "case r of
      Inr digest \<Rightarrow> sees look (Some bytes) (published (look s) (Some bytes)) z \<and> digest = k_sha256 K bytes
        \<and> (expected = None \<or> (\<exists>v. look s = Some v \<and> expected = Some (k_sha256 K v)))
    | Inl _ \<Rightarrow> safe look (look s) (Some bytes) z"
proof (cases "length bytes > MAX_FILE_PAYLOAD_BYTES")
  case True
  with run have "r = Inl Fs_LimitExceeded" "z = (s, [])" by (simp_all add: atomic_write_def io_fail_def)
  then show ?thesis by (auto simp: sees_def untouched_def)
next
  case False
  let ?W = "recording look K" and ?T = "sees look (look s) (untouched (look s))"
  let ?E = "expected = None \<or> (\<exists>v. look s = Some v \<and> expected = Some (k_sha256 K v))"
  let ?rest = "io_then (check_target ?W parent name expected) (stage_and_publish ?W F parent name expected bytes)"
  note quiet = recording_laws(2) [OF L continues_phases(1), folded look_def]
  have "erases (io_bind (workspace ?W F w) (\<lambda>ws. open_parent ?W ws path))
      (io_bind (workspace K F w) (\<lambda>ws. open_parent K ws path))" by (intro erasing)
  from erasesD [OF this opened] obtain h1 where
    opened': "io_bind (workspace ?W F w) (\<lambda>ws. open_parent ?W ws path) (s, []) = (Inr (parent, name), s1, h1)"
    by metis
  have "keeps ?T (io_bind (workspace ?W F w) (\<lambda>ws. open_parent ?W ws path))"
    by (intro keeps_rules reading quiet_kernelD(1) [OF quiet])
  from keepsD [OF this, of "(s, [])"] opened' have start: "?T (s1, h1)" by (simp add: sees_def untouched_def)
  have "atomic_write ?W F w path expected bytes
      = io_bind (io_bind (workspace ?W F w) (\<lambda>ws. open_parent ?W ws path)) (\<lambda>(parent, name).
          io_then (check_target ?W parent name expected) (stage_and_publish ?W F parent name expected bytes))"
    using False by (simp add: atomic_write_def bind_assoc)
  then have rest: "?rest (s1, h1) = (r, z)" using opened' run by (simp add: io_bind_def look_def)
  have "triple (\<lambda>z. ?T z \<and> ?E) (stage_and_publish ?W F parent name expected bytes)
      (\<lambda>digest z. ?E \<and> sees look (Some bytes) (published (look s) (Some bytes)) z \<and> digest = k_sha256 K bytes)
      (\<lambda>_. safe look (look s) (Some bytes))"
    by (rule triple_when, rule triple_conseq [OF triple_stage_and_publish [OF L, folded look_def]]) auto
  then have "triple ?T ?rest
      (\<lambda>digest z. ?E \<and> sees look (Some bytes) (published (look s) (Some bytes)) z \<and> digest = k_sha256 K bytes)
      (\<lambda>_. safe look (look s) (Some bytes))"
    by (rule triple_then [OF triple_weak [OF triple_check_target [OF L continues_phases(1), folded look_def]], rotated]) auto
  from tripleD [OF this start rest] show ?thesis by (auto split: sum.split)
qed

text \<open>
  Property C15: a write is atomic, at every moment.  When the parent directory of the path has been
  opened, then whatever calls fail on the way, the target is seen with its old content only (\<open>before\<close>)
  until it is seen, in one step, with exactly the new content; no call in between leaves it without
  content or with a part.  Only after that, and only in a write that fails, it may be seen with the
  old content again, or with none, having been put aside because it could not be verified.  A write
  that succeeds published the new content, left it there, gives its digest, and when it is conditional
  the content it found had the expected digest.
\<close>

theorem write_is_atomic:
  assumes L: "file_laws K own content refers (staging_fd F) parent name"
    and opened: "io_bind (workspace K F w) (\<lambda>ws. open_parent K ws path) s = (Inr (parent, name), s1)"
    and run: "atomic_write K F w path expected bytes s = (r, t)"
  shows "\<exists>before after.
     atomic_write (recording (\<lambda>s. content s parent name) K) F w path expected bytes (s, []) = (r, t, before @ after)
   \<and> set before \<subseteq> {content s parent name}
   \<and> content t parent name = last (content s parent name # before @ after)
   \<and> (case r of
        Inr digest \<Rightarrow> after \<noteq> [] \<and> set after = {Some bytes} \<and> digest = k_sha256 K bytes
          \<and> (expected = None \<or> (\<exists>v. content s parent name = Some v \<and> expected = Some (k_sha256 K v)))
      | Inl _ \<Rightarrow> after = [] \<or> hd after = Some bytes \<and> set after \<subseteq> {content s parent name, Some bytes, None})"
proof -
  let ?look = "target_in content parent name" and ?new = "Some bytes"
  obtain h where recorded: "atomic_write (recording ?look K) F w path expected bytes (s, []) = (r, t, h)"
    using erasesD [OF erases_write(2) run] by metis
  have last: "?look t = last (?look s # h)" if "sees ?look v H (t, h)" "h = [] \<Longrightarrow> v = ?look s" for v H
    using that by (auto simp: sees_def)
  note written = recorded_write [OF L opened recorded]
  show ?thesis
  proof (cases r)
    case (Inr digest)
    with written have seen: "sees ?look ?new (published (?look s) ?new) (t, h)" and "digest = k_sha256 K bytes"
      "expected = None \<or> (\<exists>v. ?look s = Some v \<and> expected = Some (k_sha256 K v))" by simp_all
    moreover obtain before after where "h = before @ after" "set before \<subseteq> {?look s}" "after \<noteq> []" "set after \<subseteq> {?new}"
      using seen by (auto simp: sees_def published_def)
    moreover from this have "set after = {?new}" by (cases after) auto
    ultimately show ?thesis
      using recorded last [OF seen] Inr by (intro exI [of _ before] exI [of _ after]) auto
  next
    case (Inl e)
    with written have "safe ?look (?look s) ?new (t, h)" by simp
    then consider "sees ?look (?look s) (untouched (?look s)) (t, h)"
      | v where "sees ?look v (afterwards (?look s) ?new) (t, h)" by (auto simp: safe_def put_back_def)
    then show ?thesis
    proof cases
      case 1
      then show ?thesis
        using recorded last [OF 1] Inl by (intro exI [of _ h] exI [of _ "[]"]) (simp add: sees_def untouched_def)
    next
      case 2
      then obtain before after where h: "h = before @ ?new # after" "set before \<subseteq> {?look s}"
        "set after \<subseteq> {?look s, ?new, None}" by (auto simp: sees_def afterwards_def)
      then show ?thesis
        using recorded last [OF 2] Inl by (intro exI [of _ before] exI [of _ "?new # after"]) auto
    qed
  qed
qed

end
