(* ===== verification/Fs_Disk_Laws.thy ===== *)
theory Fs_Disk_Laws
  imports Fs_Atomic
begin

section \<open>The example disk satisfies the laws of a write\<close>

text \<open>
  The laws that \<open>Fs_Atomic\<close> asks of the system calls, proved of the example disk of \<open>Fs_Disk\<close>:
  an exchange swaps two subtrees, a rename moves one, and what happens below the staging
  directory does not change a file outside of it.
\<close>

lemma steps_of_plain:
  assumes "plain_name n"
  shows "steps_of n = Some [n]"
proof -
  have "split_on CHR ''/'' n = [n]" using assms by (simp add: plain_name_def split_on_no_sep)
  moreover have "\<not> starts_with n ''/''" using assms by (cases n) (auto simp: plain_name_def starts_with_def)
  ultimately have "path_components n = [Normal n]"
    using assms by (simp add: path_components_def plain_name_def is_dot_def)
  then show ?thesis by (simp add: steps_of_def List.map_filter_def)
qed

definition file_at :: "disk \<Rightarrow> string list \<Rightarrow> string option" where
  "file_at d p = (case node_at d p of Some (N_File _ bytes) \<Rightarrow> Some bytes | _ \<Rightarrow> None)"

definition disk_content :: "disk \<Rightarrow> string list \<Rightarrow> string \<Rightarrow> string option" where
  "disk_content d fd path = (case steps_of path of None \<Rightarrow> None | Some steps \<Rightarrow> file_at d (fd @ steps))"

definition disk_refers :: "disk \<Rightarrow> string list \<Rightarrow> string list \<Rightarrow> string \<Rightarrow> bool" where
  "disk_refers d f fd path \<longleftrightarrow> map_option ((@) fd) (steps_of path) = Some f"

lemma disk_content_plain: "plain_name n \<Longrightarrow> disk_content d fd n = file_at d (fd @ [n])"
  by (simp add: disk_content_def steps_of_plain)

lemma disk_refers_content: "disk_refers d f fd path \<Longrightarrow> disk_content d fd path = file_at d f"
  by (auto simp: disk_refers_def disk_content_def)

lemma disk_kernel_uuid: "snd (k_uuid disk_kernel d) = d\<lparr>next_id := Suc (next_id d)\<rparr>"
  by simp

lemma file_at_nodes [simp]: "file_at (d\<lparr>next_id := n\<rparr>) p = file_at d p"
  by (simp add: file_at_def node_at_def)

lemma disk_content_nodes [simp]: "disk_content (d\<lparr>next_id := n\<rparr>) fd p = disk_content d fd p"
  by (simp add: disk_content_def split: option.split)

text \<open>Reads change nothing at all.\<close>

lemma disk_reads_keep: "reads_keep disk_kernel P"
  unfolding reads_keep_def
  by (auto simp: keeps_def disk_open_def disk_stat_def disk_dir_def disk_read_def Let_def
      split: option.split node.split)

lemma disk_quiet: "(\<And>d n. P d \<Longrightarrow> P (d\<lparr>next_id := n\<rparr>)) \<Longrightarrow> quiet_kernel disk_kernel P"
  by (simp add: quiet_kernel_def disk_reads_keep keeps_def io_ok_def)

text \<open>Changes below the staging directory do not reach a file outside.\<close>

lemma map_of_outside:
  "\<not> below roots p \<Longrightarrow> map_of (filter (\<lambda>(p, n). \<not> below roots p) ns) p = map_of ns p"
  by (induction ns) auto

lemma node_at_outside:
  "\<not> below roots p \<Longrightarrow> outside roots d = outside roots d' \<Longrightarrow> node_at d p = node_at d' p"
  unfolding node_at_def outside_def by (metis map_of_outside)

lemma keeps_by:
  "(\<And>others. keeps (\<lambda>s. g s = others) m) \<Longrightarrow> (\<And>s t. g t = g s \<Longrightarrow> P s \<Longrightarrow> P t) \<Longrightarrow> keeps P m"
  unfolding keeps_def by blast

lemma yields_by:
  "(\<And>others. yields (\<lambda>s. g s = others) Q m) \<Longrightarrow> (\<And>s t. g t = g s \<Longrightarrow> P s \<Longrightarrow> P t) \<Longrightarrow> yields P Q m"
  unfolding yields_def by blast

lemma confined_by:
  assumes C: "\<And>others. kernel_confined K own (\<lambda>s. g s = others)"
    and inv: "\<And>s t. g t = g s \<Longrightarrow> P s \<Longrightarrow> P t"
  shows "kernel_confined K own P"
proof -
  have "P (snd (k_uuid K s))" if "P s" for s
    using C [of "g s"] by (intro inv [OF _ that]) (simp add: kernel_confined_def)
  moreover have "CHR ''/'' \<notin> set (k_hyphenated K u)" for u
    using C [of undefined] by (simp add: kernel_confined_def)
  ultimately show ?thesis
    unfolding kernel_confined_def
    by (intro conjI allI impI)
       (((rule keeps_by yields_by, rule kernel_confined_yields [OF C] kernel_confinedD [OF C], assumption+),
         rule inv, assumption+) | blast)+
qed

lemma disk_file_confined:
  assumes "\<And>steps. steps_of path = Some steps \<Longrightarrow> \<not> below roots (fd @ steps)"
  shows "kernel_confined disk_kernel (below roots) (\<lambda>d. disk_content d fd path = t)"
proof (rule confined_by [OF disk_confined])
  fix d d' assume same: "outside roots d' = outside roots d" and t: "disk_content d fd path = t"
  have "node_at d' (fd @ steps) = node_at d (fd @ steps)" if "steps_of path = Some steps" for steps
    by (rule node_at_outside [OF assms [OF that] same])
  with t show "disk_content d' fd path = t"
    by (auto simp: disk_content_def file_at_def split: option.split)
qed

text \<open>Renames move the nodes of a subtree.\<close>

lemma map_of_moved:
  assumes "\<And>p. p \<in> fst ` set ns \<Longrightarrow> f p = q \<longleftrightarrow> p = p0"
  shows "map_of (map (\<lambda>(p, n). (f p, n)) ns) q = map_of ns p0"
  using assms
proof (induction ns)
  case (Cons e ns)
  then have "map_of (map (\<lambda>(p, n). (f p, n)) ns) q = map_of ns p0" by simp
  with Cons.prems [of "fst e"] show ?case by (cases e) (auto simp: eq_commute [of q])
qed simp

lemma map_of_gone:
  "(\<And>p. f p \<noteq> q) \<Longrightarrow> map_of (map (\<lambda>(p, n). (f p, n)) ns) q = None"
  by (induction ns) (auto simp: eq_commute [of q])

definition unrelated :: "string list \<Rightarrow> string list \<Rightarrow> bool" where
  "unrelated a b \<longleftrightarrow> \<not> inside a b \<and> \<not> inside b a"

lemma unrelated_apart:
  assumes "unrelated a b"
  shows "inside a p \<Longrightarrow> \<not> inside b p" "a \<noteq> b @ r" "b \<noteq> a @ r"
  using assms unfolding unrelated_def inside_iff
  by (metis append_eq_append_conv2)+

lemma inside_drop: "inside a p \<Longrightarrow> a @ drop (length a) p = p"
  by (auto simp: inside_iff)

lemma swap_target:
  assumes U: "unrelated a b"
  shows "swap_paths a b p = b \<longleftrightarrow> p = a" "swap_paths a b p = a \<longleftrightarrow> p = b"
proof -
  note A = unrelated_apart [OF U]
  have "inside a p \<Longrightarrow> drop (length a) p = [] \<longleftrightarrow> p = a" "inside b p \<Longrightarrow> drop (length b) p = [] \<longleftrightarrow> p = b"
    by (auto simp: inside_iff)
  moreover have "inside a a" "inside b b" by (auto simp: inside_iff)
  moreover have "\<not> inside a b" "\<not> inside b a" using U by (auto simp: unrelated_def)
  ultimately show "swap_paths a b p = b \<longleftrightarrow> p = a" "swap_paths a b p = a \<longleftrightarrow> p = b"
    using A(2) A(3) A(2) [symmetric] A(3) [symmetric] by (auto simp: swap_paths_def)
qed

lemma relocate_target:
  assumes U: "unrelated a b"
  shows "p \<noteq> b \<Longrightarrow> relocate a b p = b \<longleftrightarrow> p = a" "relocate a b p \<noteq> a"
proof -
  note A = unrelated_apart [OF U]
  have "inside a p \<Longrightarrow> drop (length a) p = [] \<longleftrightarrow> p = a" by (auto simp: inside_iff)
  moreover have "inside a a" by (auto simp: inside_iff)
  ultimately show "p \<noteq> b \<Longrightarrow> relocate a b p = b \<longleftrightarrow> p = a" "relocate a b p \<noteq> a"
    using A(2) A(3) A(2) [symmetric] by (auto simp: relocate_def)
qed

lemma disk_exchange:
  assumes "unrelated (fd @ [a]) (to @ [b])" and "disk_rename fd a to b Rename_Exchange d = (Inr u, d')"
  shows "file_at d' (fd @ [a]) = file_at d (to @ [b])" "file_at d' (to @ [b]) = file_at d (fd @ [a])"
proof -
  have "d' = d\<lparr>nodes := map (\<lambda>(p, n). (swap_paths (fd @ [a]) (to @ [b]) p, n)) (nodes d)\<rparr>"
    using assms(2) by (simp add: disk_rename_def Let_def split: if_splits)
  then show "file_at d' (fd @ [a]) = file_at d (to @ [b])" "file_at d' (to @ [b]) = file_at d (fd @ [a])"
    using swap_target [OF assms(1)] by (simp_all add: file_at_def node_at_def map_of_moved)
qed

lemma disk_no_replace:
  assumes "unrelated (fd @ [a]) (to @ [b])" and "disk_rename fd a to b Rename_NoReplace d = (Inr u, d')"
  shows "file_at d' (to @ [b]) = file_at d (fd @ [a])" "file_at d' (fd @ [a]) = None"
proof -
  let ?a = "fd @ [a]" and ?b = "to @ [b]"
  have d': "d' = d\<lparr>nodes := map (\<lambda>(p, n). (relocate ?a ?b p, n)) (nodes d)\<rparr>" and free: "node_at d ?b = None"
    using assms(2) by (simp_all add: disk_rename_def Let_def split: if_splits)
  from free have "p \<in> fst ` set (nodes d) \<Longrightarrow> p \<noteq> ?b" for p
    by (force simp: node_at_def map_of_eq_None_iff)
  then have "node_at d' ?b = node_at d ?a"
    unfolding d' node_at_def by simp (rule map_of_moved, simp add: relocate_target(1) [OF assms(1)])
  moreover have "node_at d' ?a = None"
    unfolding d' node_at_def by simp (rule map_of_gone, simp add: relocate_target(2) [OF assms(1)])
  ultimately show "file_at d' ?b = file_at d ?a" "file_at d' ?a = None"
    by (simp_all add: file_at_def)
qed

lemma disk_rename_fails: "disk_rename fd a to b how d = (Inl e, d') \<Longrightarrow> d' = d"
  by (auto simp: disk_rename_def Let_def split: if_splits rename_flag.splits)

lemma disk_write_at:
  "file_at d f = Some v \<Longrightarrow> file_at (snd (disk_write f bytes d)) f = Some (v @ bytes)"
proof -
  have "map_of (map (\<lambda>(p, n). (p, case n of N_File i old \<Rightarrow> if p = f then N_File i (old @ bytes) else n
      | _ \<Rightarrow> n)) ns) f = map_option (\<lambda>n. case n of N_File i old \<Rightarrow> N_File i (old @ bytes) | _ \<Rightarrow> n) (map_of ns f)"
    for ns by (induction ns) (auto split: node.split)
  then show "file_at d f = Some v \<Longrightarrow> file_at (snd (disk_write f bytes d)) f = Some (v @ bytes)"
    by (auto simp: file_at_def node_at_def disk_write_def split: option.splits node.splits)
qed

lemma disk_stage_laws:
  assumes stage: "plain_name stage" and name: "plain_name name" and U: "unrelated (staging @ [stage]) (parent @ [name])"
  shows "stage_laws disk_kernel disk_content disk_refers staging stage parent name"
proof -
  note c = disk_content_plain [OF stage] disk_content_plain [OF name] steps_of_plain [OF stage]
  have U': "unrelated (parent @ [name]) (staging @ [stage])" using U by (auto simp: unrelated_def)
  show ?thesis
    unfolding stage_laws_def
  proof (intro conjI allI)
    show "triple (\<lambda>_. True) (k_openat2 disk_kernel staging stage CREATE_FLAGS mode RESOLVE)
        (\<lambda>f s. disk_refers s f staging stage \<and> disk_content s staging stage = Some []) (\<lambda>_ _. True)" for mode
      by (auto simp: triple_def c disk_open_def disk_refers_def CREATE_FLAGS_def Let_def file_at_def node_at_def
          split: option.split)
    show "triple (\<lambda>s. disk_refers s f staging stage \<and> disk_content s staging stage = Some v)
        (k_write_all disk_kernel f bytes) (\<lambda>_ s. disk_content s staging stage = Some (v @ bytes)) (\<lambda>_ _. True)"
      for f v bytes
      by (rule tripleI) (auto simp: c disk_refers_def dest: disk_write_at [where bytes = bytes])
    show "triple (contents_are disk_content staging stage x parent name y)
        (k_renameat disk_kernel staging stage parent name Rename_Exchange)
        (\<lambda>_. contents_are disk_content staging stage y parent name x)
        (\<lambda>_. contents_are disk_content staging stage x parent name y)" for x y
      by (rule tripleI) (auto simp: contents_are_def c disk_exchange [OF U] dest: disk_rename_fails)
    show "triple (contents_are disk_content staging stage x parent name y)
        (k_renameat disk_kernel staging stage parent name Rename_NoReplace)
        (\<lambda>_ s. disk_content s parent name = x) (\<lambda>_. contents_are disk_content staging stage x parent name y)"
      for x y
      by (rule tripleI) (auto simp: contents_are_def c disk_no_replace [OF U] dest: disk_rename_fails)
    show "triple (\<lambda>s. disk_content s parent name = y)
        (k_renameat disk_kernel parent name staging stage Rename_NoReplace)
        (\<lambda>_ s. disk_content s parent name = None) (\<lambda>_ s. disk_content s parent name = y)" for y
      by (rule tripleI) (auto simp: c disk_no_replace [OF U'] dest: disk_rename_fails)
  qed
qed

lemma disk_file_laws:
  assumes name: "plain_name name" and parent: "\<not> inside staging parent" "\<not> inside parent staging"
  shows "file_laws disk_kernel (below [staging]) disk_content disk_refers staging parent name"
proof -
  have "c \<noteq> CHR ''/''" if "c \<in> set (decimal n)" for c n
    using decimal_digits [OF that] by (auto simp: is_ascii_digit_def byte_def)
  then have slash: "CHR ''/'' \<notin> set (decimal n)" for n by auto
  have U: "unrelated (staging @ [stage]) (parent @ [name])" for stage
    using parent unfolding unrelated_def inside_iff
    by (metis append_assoc append_eq_append_conv2)
  have apart: "\<not> below [staging] (parent @ [name])"
  proof
    assume "below [staging] (parent @ [name])"
    then obtain q where "parent @ [name] = staging @ q" by (auto simp: below_def inside_iff)
    then show False using parent by (cases q rule: rev_cases) (auto simp: inside_iff)
  qed
  have stable: "disk_refers (d\<lparr>next_id := n\<rparr>) f fd p = disk_refers d f fd p" for d n f fd p
    by (simp add: disk_refers_def)
  show ?thesis
    unfolding file_laws_def
  proof (intro conjI allI impI)
    show "below [staging] staging" by (simp add: below_def inside_iff)
    show "plain_name (''.gobrowse-write-'' @ k_hyphenated disk_kernel u)"
      "plain_name (''.gobrowse-quarantine-'' @ k_hyphenated disk_kernel u)" for u
      using slash by (simp_all add: plain_name_def is_dot_def)
    show "kernel_confined disk_kernel (below [staging]) (\<lambda>s. disk_content s parent name = t)" for t
      by (rule disk_file_confined) (use apart name in \<open>auto simp: steps_of_plain\<close>)
    show "quiet_kernel disk_kernel (\<lambda>s. disk_content s d p = t)" for d p t
      by (rule disk_quiet) simp
    show "quiet_kernel disk_kernel (\<lambda>s. disk_refers s f d p \<and> disk_content s d p = t)" for f d p t
      by (rule disk_quiet) (simp add: stable)
    show "triple (\<lambda>_. True) (openat disk_kernel parent p flags) (\<lambda>f s. disk_refers s f parent p) (\<lambda>_ _. True)"
      if "O_CREATE \<notin> flags" for p flags
      using that by (auto simp: triple_def openat_def disk_open_def disk_refers_def Let_def
          split: option.split node.split)
    show "triple (\<lambda>s. disk_refers s f d p \<and> disk_content s d p = t) (k_read disk_kernel f n)
        (\<lambda>bytes _. \<exists>v. t = Some v \<and> bytes = take n v) (\<lambda>_ _. True)" for f d p t n
      by (auto simp: triple_def disk_read_def disk_refers_content file_at_def split: option.split node.split)
    show "stage_laws disk_kernel disk_content disk_refers staging stage parent name" if "plain_name stage" for stage
      by (rule disk_stage_laws [OF that name U])
  qed
qed

subsection \<open>A write on the example disk\<close>

lemma two_disk_parent:
  "io_bind (workspace disk_kernel disk_fs 2) (\<lambda>ws. open_parent disk_kernel ws ''f'') two_disk
     = (Inr (workspace_dir ''2'', ''f''), two_disk)"
proof -
  have two: "decimal 2 = ''2''" by code_simp
  have "steps_of (volume_of disk_kernel 2 @ CHR ''/'' # VOLUME_DATA_DIRECTORY) = Some (workspace_dir ''2'')"
    by (simp add: volume_of_def workspace_volume_name_def two steps_of_def path_components_def
        VOLUME_DATA_DIRECTORY_def starts_with_def workspace_dir_def List.map_filter_def Let_def)
  then have "workspace disk_kernel disk_fs 2 two_disk = (Inr (workspace_dir ''2''), two_disk)"
    by (simp add: workspace_def io_map_err_def openat_def disk_open_def disk_fs_def two_disk_def
        node_at_def workspace_dir_def is_link_def DIRECTORY_FLAGS_def upt_rec Let_def
        VOLUME_DATA_DIRECTORY_def STAGING_DIRECTORY_def RECOVERY_DIRECTORY_def)
  moreover have "open_parent disk_kernel (workspace_dir ''2'') ''f'' two_disk
      = (Inr (workspace_dir ''2'', ''f''), two_disk)"
    by (simp add: open_parent_def checked_path_def validate_workspace_path_def path_components_def
        MAX_WORKSPACE_PATH_BYTES_def MAX_WORKSPACE_PATH_COMPONENTS_def starts_with_def ends_with_def
        List.map_filter_def open_beneath_def path_text_def steps_of_def sys_def io_map_err_def openat_def
        disk_open_def two_disk_def node_at_def workspace_dir_def is_link_def DIRECTORY_FLAGS_def
        io_bind_def io_ok_def Let_def VOLUME_DATA_DIRECTORY_def STAGING_DIRECTORY_def RECOVERY_DIRECTORY_def)
  ultimately show ?thesis by (simp add: io_bind_def)
qed

theorem write_is_atomic_witness:
  "\<exists>before after. snd (snd (atomic_write (recording (\<lambda>d. disk_content d (workspace_dir ''2'') ''f'') disk_kernel)
      disk_fs 2 ''f'' None ''new'' (two_disk, []))) = before @ after
     \<and> set before \<subseteq> {Some ''kept''} \<and> (after = [] \<or> hd after = Some ''new'')"
proof (cases "atomic_write disk_kernel disk_fs 2 ''f'' None ''new'' two_disk")
  case (Pair r t)
  have plain: "plain_name ''f''" by (simp add: plain_name_def is_dot_def)
  have laws: "file_laws disk_kernel (below [[STAGING_DIRECTORY]]) disk_content disk_refers (staging_fd disk_fs)
      (workspace_dir ''2'') ''f''"
    using disk_file_laws [OF plain, of "[STAGING_DIRECTORY]" "workspace_dir ''2''"]
    by (simp add: disk_fs_def inside_def workspace_dir_def STAGING_DIRECTORY_def)
  have old: "disk_content two_disk (workspace_dir ''2'') ''f'' = Some ''kept''"
    by (simp add: disk_content_plain [OF plain] file_at_def node_at_def two_disk_def workspace_dir_def
        STAGING_DIRECTORY_def RECOVERY_DIRECTORY_def VOLUME_DATA_DIRECTORY_def)
  from write_is_atomic [OF laws two_disk_parent Pair] obtain before after where
    h: "atomic_write (recording (\<lambda>d. disk_content d (workspace_dir ''2'') ''f'') disk_kernel)
      disk_fs 2 ''f'' None ''new'' (two_disk, []) = (r, t, before @ after)" "set before \<subseteq> {Some ''kept''}"
    and ended: "case r of Inr digest \<Rightarrow> after \<noteq> [] \<and> set after = {Some ''new''}
        \<and> digest = k_sha256 disk_kernel ''new''
        \<and> (None = (None :: string option) \<or> (\<exists>v. Some ''kept'' = Some v \<and> None = Some (k_sha256 disk_kernel v)))
      | Inl _ \<Rightarrow> after = [] \<or> hd after = Some ''new'' \<and> set after \<subseteq> {Some ''kept'', Some ''new'', None}"
    unfolding old by blast
  have "after = [] \<or> hd after = Some ''new''"
    using ended by (cases after) (auto split: sum.splits)
  with h show ?thesis by (intro exI [of _ before] exI [of _ after]) simp
qed

theorem queries_change_nothing_witness:
  "snd (read_file disk_kernel disk_fs 2 ''f'' two_disk) = two_disk
   \<and> snd (search_files disk_kernel disk_fs 2 ''.'' ''f'' two_disk) = two_disk"
  using queries_change_nothing [OF disk_reads_keep [of "\<lambda>d. d = two_disk"]]
  by (simp add: keeps_def)

end
