(* ===== verification/Recovery_Store.thy ===== *)
theory Recovery_Store
  imports Fs_Atomic Rust_Text
begin

section \<open>Recovery records\<close>

text \<open>
  \<open>RecoveryStore\<close> of \<open>filesystem.rs\<close>: before the containers of a workspace are paused, a record of
  them is written below the root, one file per workspace, named by the workspace.  After a
  crash the records say what has to be resumed or stopped.
\<close>

record RecoveryRecord =
  recovery_workspace :: uuid
  recovery_operation :: uuid
  recovery_containers :: "string list"

definition valid_container_name :: "('w, 'fd) kernel \<Rightarrow> string \<Rightarrow> bool" where
  "valid_container_name K name \<longleftrightarrow>
     (case strip_prefix name ''gobrowse-'' of
        None \<Rightarrow> False
      | Some rest \<Rightarrow> k_parse_uuid K rest \<noteq> None)"

definition encode_record :: "('w, 'fd) kernel \<Rightarrow> RecoveryRecord \<Rightarrow> string" where
  "encode_record K r = k_hyphenated K (recovery_operation r) @ [NL] @ str_join [NL] (recovery_containers r)"

definition decode_record :: "('w, 'fd) kernel \<Rightarrow> string \<Rightarrow> FilesystemError + (uuid \<times> string list)" where
  "decode_record K encoded =
     (let lines = str_lines encoded
      in and_then (ok_or (case lines of
             [] \<Rightarrow> None
           | line # _ \<Rightarrow> (case k_parse_uuid K line of
                 Some u \<Rightarrow> if u = 0 then None else Some u
               | None \<Rightarrow> None)) Fs_UnsafeEntry) (\<lambda>operation_id.
           let containers = tl lines
           in if containers = [] \<or> list_ex (\<lambda>c. \<not> valid_container_name K c) containers
              then Inl Fs_UnsafeEntry else Inr (operation_id, containers)))"

definition persist ::
  "('w, 'fd) kernel \<Rightarrow> 'fd Filesystem \<Rightarrow> RecoveryRecord \<Rightarrow> ('w, FilesystemError, unit) io" where
  "persist K F r =
     (if recovery_workspace r = 0 \<or> recovery_operation r = 0 \<or> recovery_containers r = []
         \<or> list_ex (\<lambda>c. \<not> valid_container_name K c) (recovery_containers r)
      then io_fail Fs_InvalidPath
      else
        let encoded = encode_record K r
        in if length encoded > MAX_RECOVERY_RECORD_BYTES then io_fail Fs_LimitExceeded
           else io_bind (stage_name K ''recovery'') (\<lambda>temporary.
             io_bind (create_staged_file K (recovery_fd F) temporary encoded MAX_RECOVERY_RECORD_BYTES
                 MODE_PRIVATE) (\<lambda>_.
             io_bind (io_catch
                 (sys (k_renameat K (recovery_fd F) temporary (recovery_fd F)
                    (k_hyphenated K (recovery_workspace r)) Rename_Replace))
                 (\<lambda>e. io_then (remove_tree_best_effort K (recovery_fd F) temporary) (io_fail e))) (\<lambda>_.
               sys_io (k_fsync K (recovery_fd F))))))"

text \<open>One entry of the directory.\<close>

definition read_recovery ::
  "('w, 'fd) kernel \<Rightarrow> 'fd Filesystem \<Rightarrow> string \<Rightarrow> ('w, FilesystemError, RecoveryRecord) io" where
  "read_recovery K F name =
     io_bind (io_lift (cstr_to_string name)) (\<lambda>name.
     io_bind (io_lift (ok_or (k_parse_uuid K name) Fs_UnsafeEntry)) (\<lambda>workspace_id.
     io_bind (sys (openat K (recovery_fd F) name READ_FLAGS)) (\<lambda>fd.
     io_bind (read_regular_bounded K fd MAX_RECOVERY_RECORD_BYTES) (\<lambda>(bytes, _).
     io_bind (io_lift (if is_utf8 bytes then Inr bytes else Inl Fs_UnsafeEntry)) (\<lambda>encoded.
     io_bind (io_lift (decode_record K encoded)) (\<lambda>(operation_id, containers).
       io_ok \<lparr>recovery_workspace = workspace_id, recovery_operation = operation_id,
              recovery_containers = containers\<rparr>))))))"

definition list_records ::
  "('w, 'fd) kernel \<Rightarrow> 'fd Filesystem \<Rightarrow> ('w, FilesystemError, RecoveryRecord list) io" where
  "list_records K F =
     io_bind (sys (k_dir K (recovery_fd F))) (\<lambda>stream.
     io_bind (io_fold (\<lambda>records entry.
         io_bind (io_lift (map_err map_errno entry)) (\<lambda>name.
           if is_dot name then io_ok records
           else io_bind (read_recovery K F name) (\<lambda>r. io_ok (records @ [r])))) [] stream)
       (\<lambda>records. io_ok (sort_key recovery_workspace records)))"

definition clear_record ::
  "('w, 'fd) kernel \<Rightarrow> 'fd Filesystem \<Rightarrow> uuid \<Rightarrow> uuid \<Rightarrow> ('w, FilesystemError, unit) io" where
  "clear_record K F workspace_id operation_id =
     io_bind (list_records K F) (\<lambda>records.
     io_bind (io_lift (ok_or (find (\<lambda>r. recovery_workspace r = workspace_id) records) Fs_NotFound)) (\<lambda>current.
       if recovery_operation current \<noteq> operation_id then io_fail Fs_Conflict
       else io_bind (sys (k_unlinkat K (recovery_fd F) (k_hyphenated K workspace_id) False)) (\<lambda>_.
              sys_io (k_fsync K (recovery_fd F)))))"

subsection \<open>Encoding and decoding\<close>

text \<open>
  What the records rely on of the textual form of identifiers: printing is read back, and what
  is read is ASCII text without control characters.
\<close>

definition uuid_text_ok :: "('w, 'fd) kernel \<Rightarrow> bool" where
  "uuid_text_ok K \<longleftrightarrow>
     (\<forall>u. k_parse_uuid K (k_hyphenated K u) = Some u \<and> \<not> is_dot (k_hyphenated K u))
     \<and> (\<forall>s u. k_parse_uuid K s = Some u \<longrightarrow> list_all (\<lambda>c. 32 \<le> byte c \<and> byte c < 127) s)"

lemma uuid_text_okD:
  assumes "uuid_text_ok K"
  shows "k_parse_uuid K (k_hyphenated K u) = Some u" "\<not> is_dot (k_hyphenated K u)"
    "k_parse_uuid K s = Some u \<Longrightarrow> c \<in> set s \<Longrightarrow> 32 \<le> byte c \<and> byte c < 127"
  using assms by (fastforce simp: uuid_text_ok_def list_all_iff)+

definition printable :: "string \<Rightarrow> bool" where
  "printable s \<longleftrightarrow> (\<forall>c \<in> set s. 32 \<le> byte c \<and> byte c < 127)"

lemma printable_append [simp]: "printable (s @ t) \<longleftrightarrow> printable s \<and> printable t"
  by (auto simp: printable_def)

lemma printable_no_nl: "printable s \<Longrightarrow> NL \<notin> set s \<and> CHR 0x0D \<notin> set s"
  by (auto simp: printable_def NL_def byte_def)

lemma printable_hyphenated: "uuid_text_ok K \<Longrightarrow> printable (k_hyphenated K u)"
  unfolding printable_def using uuid_text_okD by blast

lemma valid_container_printable:
  assumes "uuid_text_ok K" "valid_container_name K name"
  shows "printable name" "name \<noteq> []"
proof -
  obtain rest u where name: "name = ''gobrowse-'' @ rest" and u: "k_parse_uuid K rest = Some u"
    using assms(2) by (auto simp: valid_container_name_def strip_prefix_Some split: option.splits)
  have "printable rest" unfolding printable_def using uuid_text_okD(3) [OF assms(1) u] by blast
  moreover have "printable ''gobrowse-''" by (simp add: printable_def byte_def)
  ultimately show "printable name" unfolding name printable_append by blast
  show "name \<noteq> []" using name by simp
qed

definition valid_record :: "('w, 'fd) kernel \<Rightarrow> RecoveryRecord \<Rightarrow> bool" where
  "valid_record K r \<longleftrightarrow> recovery_operation r \<noteq> 0 \<and> recovery_containers r \<noteq> []
     \<and> list_all (valid_container_name K) (recovery_containers r)"

lemma encode_lines:
  assumes "uuid_text_ok K" "valid_record K r"
  shows "str_lines (encode_record K r) = k_hyphenated K (recovery_operation r) # recovery_containers r"
proof -
  let ?ls = "k_hyphenated K (recovery_operation r) # recovery_containers r"
  have "encode_record K r = str_join [NL] ?ls"
    using assms(2) by (cases "recovery_containers r") (simp_all add: encode_record_def valid_record_def)
  moreover have "str_lines (str_join [NL] ?ls) = ?ls"
  proof (rule str_lines_join)
    show "last ?ls \<noteq> []"
      using assms(2) valid_container_printable(2) [OF assms(1)]
      by (auto simp: valid_record_def list_all_iff)
    show "NL \<notin> set w \<and> CHR 0x0D \<notin> set w" if "w \<in> set ?ls" for w
      using that assms(2) valid_container_printable(1) [OF assms(1)] printable_hyphenated [OF assms(1)]
      by (intro printable_no_nl) (auto simp: valid_record_def list_all_iff)
  qed simp
  ultimately show ?thesis by simp
qed

lemma decode_encode_record:
  assumes "uuid_text_ok K" "valid_record K r"
  shows "decode_record K (encode_record K r) = Inr (recovery_operation r, recovery_containers r)"
  using assms(2) unfolding decode_record_def encode_lines [OF assms] Let_def
  by (auto simp: uuid_text_okD(1) [OF assms(1)] valid_record_def list_all_iff list_ex_iff)

subsection \<open>What is persisted is listed\<close>

text \<open>
  What the store relies on of the system calls on its directory \<open>dir\<close>, when no one else uses it: a
  file is created empty, a write adds to it, a read gives the content, a rename moves the file,
  a directory stream has every file, and nothing else changes a file.
\<close>

definition record_laws ::
  "('w, 'fd) kernel \<Rightarrow> ('w \<Rightarrow> 'fd \<Rightarrow> string \<Rightarrow> string option) \<Rightarrow> ('w \<Rightarrow> 'fd \<Rightarrow> 'fd \<Rightarrow> string \<Rightarrow> bool)
     \<Rightarrow> 'fd \<Rightarrow> bool" where
  "record_laws K content refers dir \<longleftrightarrow>
     (\<forall>p t. quiet_kernel K (\<lambda>s. content s dir p = t))
     \<and> (\<forall>f p t. quiet_kernel K (\<lambda>s. refers s f dir p \<and> content s dir p = t))
     \<and> (\<forall>p mode. triple (\<lambda>_. True) (k_openat2 K dir p CREATE_FLAGS mode RESOLVE)
          (\<lambda>f s. refers s f dir p \<and> content s dir p = Some []) (\<lambda>_ _. True))
     \<and> (\<forall>f p v bytes. triple (\<lambda>s. refers s f dir p \<and> content s dir p = Some v) (k_write_all K f bytes)
          (\<lambda>_ s. content s dir p = Some (v @ bytes)) (\<lambda>_ _. True))
     \<and> (\<forall>u. plain_name (''.gobrowse-recovery-'' @ k_hyphenated K u) \<and> plain_name (k_hyphenated K u))
     \<and> (\<forall>p q x. plain_name p \<longrightarrow> plain_name q \<longrightarrow>
          triple (\<lambda>s. content s dir p = Some x) (k_renameat K dir p dir q Rename_Replace)
          (\<lambda>_ s. content s dir q = Some x) (\<lambda>_ _. True))
     \<and> (\<forall>p flags. O_CREATE \<notin> flags \<longrightarrow>
          triple (\<lambda>_. True) (openat K dir p flags) (\<lambda>f s. refers s f dir p) (\<lambda>_ _. True))
     \<and> (\<forall>f p t n. triple (\<lambda>s. refers s f dir p \<and> content s dir p = t) (k_read K f n)
          (\<lambda>bytes _. \<exists>v. t = Some v \<and> bytes = take n v) (\<lambda>_ _. True))
     \<and> (\<forall>p. plain_name p \<longrightarrow>
          triple (\<lambda>s. content s dir p \<noteq> None) (k_dir K dir) (\<lambda>stream _. Inr p \<in> set stream) (\<lambda>_ _. True))"

lemma record_lawsD:
  assumes "record_laws K content refers dir"
  shows "quiet_kernel K (\<lambda>s. content s dir p = t)"
    "quiet_kernel K (\<lambda>s. refers s f dir p \<and> content s dir p = t)"
    "triple (\<lambda>_. True) (k_openat2 K dir p CREATE_FLAGS mode RESOLVE)
       (\<lambda>f s. refers s f dir p \<and> content s dir p = Some []) (\<lambda>_ _. True)"
    "triple (\<lambda>s. refers s f dir p \<and> content s dir p = Some v) (k_write_all K f bytes)
       (\<lambda>_ s. content s dir p = Some (v @ bytes)) (\<lambda>_ _. True)"
    "plain_name p \<Longrightarrow> plain_name q \<Longrightarrow>
       triple (\<lambda>s. content s dir p = Some x) (k_renameat K dir p dir q Rename_Replace)
       (\<lambda>_ s. content s dir q = Some x) (\<lambda>_ _. True)"
    "O_CREATE \<notin> flags \<Longrightarrow>
       triple (\<lambda>_. True) (openat K dir p flags) (\<lambda>f s. refers s f dir p) (\<lambda>_ _. True)"
    "triple (\<lambda>s. refers s f dir p \<and> content s dir p = t) (k_read K f n)
       (\<lambda>bytes _. \<exists>v. t = Some v \<and> bytes = take n v) (\<lambda>_ _. True)"
    "plain_name p \<Longrightarrow>
       triple (\<lambda>s. content s dir p \<noteq> None) (k_dir K dir) (\<lambda>stream _. Inr p \<in> set stream) (\<lambda>_ _. True)"
    "plain_name (''.gobrowse-recovery-'' @ k_hyphenated K u)" "plain_name (k_hyphenated K u)"
  using assms unfolding record_laws_def by simp_all

abbreviation gives :: "('s \<Rightarrow> bool) \<Rightarrow> ('s, 'e, 'a) io \<Rightarrow> ('a \<Rightarrow> 's \<Rightarrow> bool) \<Rightarrow> bool" where
  "gives P m Q \<equiv> triple P m Q (\<lambda>_ _. True)"

lemma gives_keeps: "keeps P m \<Longrightarrow> gives P m (\<lambda>_. P)"
  by (rule triple_weak [OF keeps_as_triple]) auto

lemma gives_sys: "gives P m Q \<Longrightarrow> gives P (sys m) Q" "gives P m Q \<Longrightarrow> gives P (sys_io m) Q"
  by (rule triple_sys, assumption)+

lemma gives_catch: "gives P m Q \<Longrightarrow> (\<And>e. gives (\<lambda>_. True) (h e) Q) \<Longrightarrow> gives P (io_catch m h) Q"
  by (rule triple_catch)

lemma gives_cleanup: "gives (\<lambda>_. True) (io_then m (io_fail e)) Q"
  unfolding io_then_def by (rule triple_bind [of _ _ "\<lambda>_ _. True"]) (auto simp: triple_def io_fail_def split: prod.split sum.split)

lemma gives_create:
  assumes L: "record_laws K content refers dir"
  shows "gives (\<lambda>_. True) (create_staged_file K dir p bytes maximum mode) (\<lambda>_ s. content s dir p = Some bytes)"
proof -
  let ?R = "\<lambda>f s. refers s f dir p \<and> content s dir p = Some []"
  note quiet = record_lawsD(2) [OF L]
  have sync: "keeps (\<lambda>s. content s dir p = Some bytes) (k_sync_all K f)" for f
    by (rule quiet_kernelD(4) [OF record_lawsD(1) [OF L]])
  have chmod: "gives (?R f) (sys (k_fchmod K f mode)) (\<lambda>_. ?R f)" for f
    by (intro gives_sys gives_keeps quiet_kernelD [OF quiet])
  have stat: "gives (?R f) (sys (k_fstat K f)) (\<lambda>_. ?R f)" for f
    by (intro gives_sys gives_keeps reads_keepD quiet_kernelD [OF quiet])
  have wrote: "gives (?R f) (sys_io (io_then (k_write_all K f bytes) (k_sync_all K f)))
      (\<lambda>_ s. content s dir p = Some bytes)" for f
    by (intro gives_sys) (use record_lawsD(4) [OF L, of f p "[]"] in
        \<open>auto intro: triple_then [OF _ gives_keeps [OF sync]]\<close>)
  show ?thesis
    unfolding create_staged_file_def
    by (auto intro!: triple_fail triple_bind [OF gives_sys(1) [OF record_lawsD(3) [OF L]]] triple_bind [OF chmod]
        triple_bind [OF stat] triple_bind [OF gives_catch [OF wrote gives_cleanup]] triple_ok)
qed

lemma gives_persist:
  assumes L: "record_laws K content refers (recovery_fd F)"
  shows "gives (\<lambda>_. True) (persist K F r)
     (\<lambda>_ s. content s (recovery_fd F) (k_hyphenated K (recovery_workspace r)) = Some (encode_record K r)
        \<and> valid_record K r \<and> length (encode_record K r) \<le> MAX_RECOVERY_RECORD_BYTES)"
proof -
  let ?c = "\<lambda>p s. content s (recovery_fd F) p = Some (encode_record K r)"
  let ?q = "k_hyphenated K (recovery_workspace r)"
  have named: "gives (\<lambda>_. True) (stage_name K ''recovery'') (\<lambda>p _. plain_name p)"
    using record_lawsD(9) [OF L] by (simp add: triple_def stage_name_def split: prod.split)
  have moved: "gives (?c p) (io_catch
      (sys (k_renameat K (recovery_fd F) p (recovery_fd F) ?q Rename_Replace))
      (\<lambda>e. io_then (remove_tree_best_effort K (recovery_fd F) p) (io_fail e))) (\<lambda>_. ?c ?q)" if "plain_name p" for p
    by (rule gives_catch [OF gives_sys(1) [OF record_lawsD(5) [OF L that record_lawsD(10) [OF L]]] gives_cleanup])
  have synced: "gives (?c ?q) (sys_io (k_fsync K (recovery_fd F))) (\<lambda>_. ?c ?q)"
    by (intro gives_sys gives_keeps quiet_kernelD [OF record_lawsD(1) [OF L]])
  have written: "gives (\<lambda>_. plain_name temporary)
     (io_bind (create_staged_file K (recovery_fd F) temporary (encode_record K r) MAX_RECOVERY_RECORD_BYTES
                 MODE_PRIVATE) (\<lambda>_.
      io_bind (io_catch
         (sys (k_renameat K (recovery_fd F) temporary (recovery_fd F) ?q Rename_Replace))
         (\<lambda>e. io_then (remove_tree_best_effort K (recovery_fd F) temporary) (io_fail e))) (\<lambda>_.
       sys_io (k_fsync K (recovery_fd F))))) (\<lambda>_. ?c ?q)" for temporary
    by (rule triple_pre [of "\<lambda>s. True \<and> plain_name temporary"], rule triple_when)
       (rule triple_bind [OF gives_create [OF L]], rule triple_bind [OF moved synced], simp_all)
  note stored = triple_bind [OF named written]
  have fails: "gives (\<lambda>_. True) (io_fail e) Q" for e :: FilesystemError and Q :: "unit \<Rightarrow> 'a \<Rightarrow> bool"
    by (rule triple_fail) simp
  show ?thesis
  proof (cases "valid_record K r \<and> length (encode_record K r) \<le> MAX_RECOVERY_RECORD_BYTES")
    case True
    with stored fails show ?thesis by (simp add: persist_def Let_def)
  next
    case False
    then have "persist K F r = io_fail Fs_InvalidPath \<or> persist K F r = io_fail Fs_LimitExceeded"
      by (auto simp: persist_def valid_record_def Let_def list_all_iff list_ex_iff not_le)
    with fails show ?thesis by metis
  qed
qed

lemma gives_fold:
  assumes "\<And>b x. gives P (f b x) (\<lambda>_. P)" and "\<And>b. gives P (f b x0) (\<lambda>c _. G c)"
    and "\<And>b x. G b \<Longrightarrow> gives P (f b x) (\<lambda>c _. G c)" and "x0 \<in> set xs"
  shows "gives P (io_fold f b xs) (\<lambda>c _. G c)"
proof -
  have both: "gives P (f b x) (\<lambda>c s. Q c \<and> P s)" if "gives P (f b x) (\<lambda>c _. Q c)" for b x and Q
    using triple_both [OF that assms(1) [of b x]] by simp
  have reached: "gives P (io_fold f b ys) (\<lambda>c _. G c)" if "G b" for b ys
    using that
  proof (induction ys arbitrary: b)
    case (Cons y ys)
    have "gives (\<lambda>s. G c \<and> P s) (io_fold f c ys) (\<lambda>c _. G c)" for c
      using Cons.IH [of c] by (cases "G c") (simp_all add: triple_def)
    then show ?case
      unfolding io_fold.simps by (rule triple_bind [OF both [OF assms(3) [OF Cons.prems]]])
  qed (simp add: triple_ok)
  show ?thesis
    using assms(4)
  proof (induction xs arbitrary: b)
    case (Cons x xs)
    show ?case
    proof (cases "x = x0")
      case True
      show ?thesis
        unfolding True io_fold.simps
        by (rule triple_bind [OF both [OF assms(2)]]) (use reached in \<open>simp add: triple_def\<close>)
    next
      case False
      with Cons show ?thesis by (auto intro: triple_bind [OF assms(1)])
    qed
  qed simp
qed

lemma reads_read_record [reading]: "reads_keep K P \<Longrightarrow> keeps P (read_recovery K F name)"
  unfolding read_recovery_def read_regular_bounded_def by (intro keeps_rules reading)

lemma gives_read_record:
  assumes L: "record_laws K content refers (recovery_fd F)" and U: "uuid_text_ok K"
    and valid: "valid_record K r" "length (encode_record K r) \<le> MAX_RECOVERY_RECORD_BYTES"
  shows "gives (\<lambda>s. content s (recovery_fd F) (k_hyphenated K (recovery_workspace r)) = Some (encode_record K r))
     (read_recovery K F (k_hyphenated K (recovery_workspace r))) (\<lambda>r' _. r' = r)"
proof -
  let ?q = "k_hyphenated K (recovery_workspace r)" and ?e = "encode_record K r"
  let ?P = "\<lambda>s. content s (recovery_fd F) ?q = Some ?e"
  let ?R = "\<lambda>f s. refers s f (recovery_fd F) ?q \<and> ?P s"
  note quiet = record_lawsD(1) [OF L, of ?q "Some ?e"] and quiet2 = record_lawsD(2) [OF L, of _ ?q "Some ?e"]
  have fails: "gives P (io_fail e) Q" for e :: FilesystemError and P and Q :: "'c \<Rightarrow> 'a \<Rightarrow> bool"
    by (rule triple_fail) simp
  have opened: "gives ?P (sys (openat K (recovery_fd F) ?q READ_FLAGS)) ?R"
  proof (rule gives_sys)
    have "keeps ?P (openat K (recovery_fd F) ?q READ_FLAGS)" by (intro reading quiet_kernelD(1) [OF quiet])
    from triple_with [OF record_lawsD(6) [OF L, of READ_FLAGS ?q] this]
    show "gives ?P (openat K (recovery_fd F) ?q READ_FLAGS) ?R" by (auto elim: triple_conseq)
  qed
  have stat: "gives (?R f) (sys (k_fstat K f)) (\<lambda>_. ?R f)" for f
    by (intro gives_sys gives_keeps reads_keepD quiet_kernelD [OF quiet2])
  have bytes: "gives (?R f) (sys_io (k_read K f (MAX_RECOVERY_RECORD_BYTES + 1))) (\<lambda>b _. b = ?e)" for f
    by (rule gives_sys, rule triple_conseq [OF record_lawsD(7) [OF L, of f ?q "Some ?e"]])
       (use valid(2) in auto)
  have "gives (?R f) (read_regular_bounded K f MAX_RECOVERY_RECORD_BYTES) (\<lambda>(b, _) _. b = ?e)" for f
    unfolding read_regular_bounded_def
  proof (rule triple_bind [OF stat])
    fix st
    show "gives (?R f) (io_bind (io_lift (safe_kind_and_size st)) (\<lambda>(kind, size).
        if kind \<noteq> Kind_File then io_fail Fs_UnsafeEntry
        else if MAX_RECOVERY_RECORD_BYTES < unat size then io_fail Fs_LimitExceeded
        else io_bind (sys_io (k_read K f (MAX_RECOVERY_RECORD_BYTES + 1))) (\<lambda>bytes.
           if MAX_RECOVERY_RECORD_BYTES < length bytes then io_fail Fs_LimitExceeded
           else io_ok (bytes, k_sha256 K bytes)))) (\<lambda>(b, _) _. b = ?e)"
      by (cases "safe_kind_and_size st")
         (auto simp del: One_nat_def add_Suc_right simp: fails split: prod.split intro!: triple_bind [OF bytes] triple_ok triple_fail)
  qed
  then have content: "gives (?R f) (read_regular_bounded K f MAX_RECOVERY_RECORD_BYTES) (\<lambda>x _. fst x = ?e)" for f
    by (rule triple_conseq) auto
  have decoded: "gives (\<lambda>_. fst x = ?e)
      (case x of (bytes, _) \<Rightarrow>
        io_bind (io_lift (if is_utf8 bytes then Inr bytes else Inl Fs_UnsafeEntry)) (\<lambda>encoded.
        io_bind (io_lift (decode_record K encoded)) (\<lambda>(operation_id, containers).
          io_ok \<lparr>recovery_workspace = recovery_workspace r, recovery_operation = operation_id,
                 recovery_containers = containers\<rparr>))) (\<lambda>r' _. r' = r)" for x :: "string \<times> string"
    by (cases x; cases "is_utf8 ?e")
       (auto simp: triple_def decode_encode_record [OF U valid(1)] io_ok_def io_fail_def)
  show ?thesis
  proof (cases "cstr_to_string ?q")
    case (Inr n)
    then have "n = ?q" by (simp add: cstr_to_string_def split: if_splits)
    with Inr show ?thesis
      unfolding read_recovery_def
      by (simp add: uuid_text_okD(1) [OF U]) (rule triple_bind [OF opened], rule triple_bind [OF content], rule decoded)
  qed (simp add: read_recovery_def fails)
qed

text \<open>
  Property C23: a record that was persisted is listed.  When a record has been written and the
  directory can then be listed, the list has exactly this record.
\<close>

theorem persisted_record_is_listed:
  assumes L: "record_laws K content refers (recovery_fd F)" and U: "uuid_text_ok K"
    and run: "io_then (persist K F r) (list_records K F) s = (Inr records, t)"
  shows "r \<in> set records"
proof -
  let ?q = "k_hyphenated K (recovery_workspace r)" and ?e = "encode_record K r"
  let ?ok = "valid_record K r \<and> length ?e \<le> MAX_RECOVERY_RECORD_BYTES"
  let ?P = "\<lambda>s. content s (recovery_fd F) ?q = Some ?e"
  let ?step = "\<lambda>records entry. io_bind (io_lift (map_err map_errno entry)) (\<lambda>name.
     if is_dot name then io_ok records
     else io_bind (read_recovery K F name) (\<lambda>r. io_ok (records @ [r])))"
  note quiet = quiet_kernelD(1) [OF record_lawsD(1) [OF L, of ?q "Some ?e"]]
  have stream: "gives ?P (sys (k_dir K (recovery_fd F))) (\<lambda>stream s. Inr ?q \<in> set stream \<and> ?P s)"
    by (rule gives_sys, rule triple_conseq [OF triple_with [OF record_lawsD(8) [OF L record_lawsD(10) [OF L], of "recovery_workspace r"] reads_keepD(3) [OF quiet]]])
       auto
  have keep: "gives ?P (?step b x) (\<lambda>_. ?P)" for b x
    by (rule gives_keeps) (intro keeps_rules reading quiet)
  have found: "gives ?P (?step b (Inr ?q)) (\<lambda>c _. r \<in> set c)" if ?ok for b
    using uuid_text_okD(2) [OF U] that
    by simp (rule triple_bind [OF gives_read_record [OF L U]], simp_all add: triple_def io_ok_def)
  have stays: "gives ?P (?step b x) (\<lambda>c _. r \<in> set c)" if "r \<in> set b" for b x
    using that by (cases x) (auto simp: triple_def io_bind_def io_ok_def io_fail_def split: prod.split sum.split)
  have listed: "gives (\<lambda>s. ?P s \<and> ?ok) (list_records K F) (\<lambda>records _. r \<in> set records)"
  proof (rule triple_when)
    assume ok: ?ok
    show "gives ?P (list_records K F) (\<lambda>records _. r \<in> set records)"
      unfolding list_records_def
    proof (rule triple_bind [OF stream])
      fix st
      show "gives (\<lambda>s. Inr ?q \<in> set st \<and> ?P s) (io_bind (io_fold ?step [] st)
          (\<lambda>records. io_ok (sort_key recovery_workspace records))) (\<lambda>records _. r \<in> set records)"
      proof (cases "Inr ?q \<in> set st")
        case True
        have "gives ?P (io_fold ?step [] st) (\<lambda>c _. r \<in> set c)"
          by (rule gives_fold [where G = "\<lambda>c. r \<in> set c" and f = ?step, OF keep found [OF ok] stays True])
        from triple_bind [OF this, of "\<lambda>c. io_ok (sort_key recovery_workspace c)"] True show ?thesis
          by (simp add: triple_def io_ok_def)
      qed (simp add: triple_def)
    qed
  qed
  have "gives (\<lambda>_. True) (io_then (persist K F r) (list_records K F)) (\<lambda>records _. r \<in> set records)"
    by (rule triple_then [OF triple_conseq [OF gives_persist [OF L]] listed]) simp_all
  from tripleD(1) [OF this _ run] show ?thesis by simp
qed

subsection \<open>Entries without a name of the form of an identifier\<close>

text \<open>
  Property: an entry of the directory whose name is no identifier makes every listing fail, so
  no record can be read or cleared while it is there.  A record is staged in the same directory,
  under such a name.
\<close>

theorem foreign_entry_blocks_recovery:
  assumes "k_dir K (recovery_fd F) s = (Inr stream, s1)" and "Inr name \<in> set stream"
    and "\<not> is_dot name" and "k_parse_uuid K name = None"
  shows "isl (fst (list_records K F s)) \<and> isl (fst (clear_record K F w operation s))"
proof -
  let ?step = "\<lambda>records entry. io_bind (io_lift (map_err map_errno entry)) (\<lambda>name.
     if is_dot name then io_ok records
     else io_bind (read_recovery K F name) (\<lambda>r. io_ok (records @ [r])))"
  have blocked: "isl (fst (?step b (Inr name) u))" for b u
    using assms(3,4)
    by (simp add: read_recovery_def cstr_to_string_def io_bind_def io_lift_def io_fail_def split: if_splits)
  from fold_blocked [of ?step, OF blocked assms(2), of "[]" s1] have "isl (fst (list_records K F s))"
    using assms(1) by (auto simp: list_records_def sys_def io_map_err_def io_bind_def split: prod.split sum.split)
  then show ?thesis
    by (auto simp: clear_record_def io_bind_def split: prod.split sum.split)
qed

end
