(* ===== verification/Recovery_Disk.thy ===== *)
theory Recovery_Disk
  imports Fs_Disk_Laws Recovery_Store
begin

section \<open>Recovery records on the example disk\<close>

text \<open>
  The laws of \<open>Recovery_Store\<close>, proved of the example disk, and the properties of the records
  at a concrete record.
\<close>

lemma disk_parse_uuid [simp]:
  "k_parse_uuid disk_kernel s = map_option word_of_nat (parse_unsigned (2 ^ 128 - 1) s)"
  by (simp add: disk_kernel_def)

lemma plain_decimal:
  "plain_name (decimal n)" "plain_name (CHR ''.'' # CHR ''g'' # p @ decimal n) \<longleftrightarrow> CHR ''/'' \<notin> set p"
proof -
  have digit: "c \<noteq> CHR ''/'' \<and> c \<noteq> CHR ''.''" if "c \<in> set (decimal n)" for c
    using decimal_digits [OF that] by (auto simp: is_ascii_digit_def byte_def)
  then show "plain_name (decimal n)"
    by (cases "decimal n") (auto simp: plain_name_def is_dot_def)
  show "plain_name (CHR ''.'' # CHR ''g'' # p @ decimal n) \<longleftrightarrow> CHR ''/'' \<notin> set p"
    using digit by (auto simp: plain_name_def is_dot_def)
qed

lemma parse_digits_printable:
  "parse_digits m a s = Some n \<Longrightarrow> c \<in> set s \<Longrightarrow> 32 \<le> byte c \<and> byte c < 127"
  by (induction m a s rule: parse_digits.induct)
     (auto simp: is_ascii_digit_def split: if_splits)

lemma disk_uuid_text: "uuid_text_ok disk_kernel"
proof -
  have "parse_unsigned (2 ^ 128 - 1) (decimal (unat (u :: uuid))) = Some (unat u)" for u
    using unsigned_less [of u, where 'a = nat] by (intro parse_unsigned_decimal) simp
  moreover have "\<not> is_dot (decimal n)" for n using plain_decimal(1) by (simp add: plain_name_def)
  moreover have "list_all (\<lambda>c. 32 \<le> byte c \<and> byte c < 127) s"
    if "parse_unsigned (2 ^ 128 - 1) s = Some n" for s n
    using that by (auto simp: parse_unsigned_def list_all_iff byte_def is_ascii_digit_def dest: parse_digits_printable split: if_splits list.splits)
  ultimately show ?thesis
    by (auto simp: uuid_text_ok_def)
qed

lemma disk_replace:
  assumes "p \<noteq> q" and "disk_rename fd p fd q Rename_Replace d = (Inr u, d')"
  shows "file_at d' (fd @ [q]) = file_at d (fd @ [p])"
proof -
  let ?a = "fd @ [p]" and ?b = "fd @ [q]"
  have U: "unrelated ?a ?b" using assms(1) by (auto simp: unrelated_def inside_iff)
  have d': "d' = d\<lparr>nodes := map (\<lambda>(p, n). (relocate ?a ?b p, n))
      (filter (\<lambda>(p, _). \<not> inside ?b p \<or> inside ?a p) (nodes d))\<rparr>"
    using assms(2) by (simp add: disk_rename_def Let_def split: if_splits)
  have "map_of (map (\<lambda>(p, n). (relocate ?a ?b p, n))
      (filter (\<lambda>(p, _). \<not> inside ?b p \<or> inside ?a p) (nodes d))) ?b
    = map_of (filter (\<lambda>(p, _). \<not> inside ?b p \<or> inside ?a p) (nodes d)) ?a"
    using U by (intro map_of_moved relocate_target(1)) (auto simp: unrelated_def inside_iff)
  moreover have "map_of (filter (\<lambda>(p, _). \<not> inside ?b p \<or> inside ?a p) ns) ?a = map_of ns ?a"
    for ns :: "(string list \<times> node) list"
    by (induction ns) (auto simp: inside_iff)
  ultimately show ?thesis by (simp add: d' file_at_def node_at_def)
qed

lemma disk_record_laws: "record_laws disk_kernel disk_content disk_refers dir"
  unfolding record_laws_def
proof (intro conjI allI impI)
  have stable: "disk_refers (d\<lparr>next_id := n\<rparr>) f fd p = disk_refers d f fd p" for d n f fd p
    by (simp add: disk_refers_def)
  show "quiet_kernel disk_kernel (\<lambda>s. disk_content s dir p = t)" for p t
    by (rule disk_quiet) simp
  show "quiet_kernel disk_kernel (\<lambda>s. disk_refers s f dir p \<and> disk_content s dir p = t)" for f p t
    by (rule disk_quiet) (simp add: stable)
  show "gives (\<lambda>_. True) (k_openat2 disk_kernel dir p CREATE_FLAGS mode RESOLVE)
      (\<lambda>f s. disk_refers s f dir p \<and> disk_content s dir p = Some [])" for p mode
    by (auto simp: triple_def disk_open_def disk_refers_def disk_content_def CREATE_FLAGS_def Let_def
        file_at_def node_at_def split: option.split)
  show "gives (\<lambda>s. disk_refers s f dir p \<and> disk_content s dir p = Some v) (k_write_all disk_kernel f bytes)
      (\<lambda>_ s. disk_content s dir p = Some (v @ bytes))" for f p v bytes
  proof (rule tripleI)
    fix s r t
    assume "disk_refers s f dir p \<and> disk_content s dir p = Some v" "k_write_all disk_kernel f bytes s = (r, t)"
    then show "(\<forall>x. r = Inr x \<longrightarrow> disk_content t dir p = Some (v @ bytes)) \<and> (\<forall>e. r = Inl e \<longrightarrow> True)"
      using disk_write_at [of s f v bytes] by (auto simp: disk_refers_def disk_content_def)
  qed
  show "plain_name (''.gobrowse-recovery-'' @ k_hyphenated disk_kernel u)"
    "plain_name (k_hyphenated disk_kernel u)" for u
    using plain_decimal(2) [of "''obrowse-recovery-''"] by (simp_all add: plain_decimal(1))
  show "gives (\<lambda>s. disk_content s dir p = Some x) (k_renameat disk_kernel dir p dir q Rename_Replace)
      (\<lambda>_ s. disk_content s dir q = Some x)" if "plain_name p" "plain_name q" for p q x
  proof (cases "p = q")
    case True
    have "relocate a a r = r" for a r :: "string list" by (simp add: relocate_def inside_drop)
    with True show ?thesis
      by (auto simp: triple_def disk_rename_def disk_content_def file_at_def node_at_def map_idI Let_def
          split_beta split: option.split)
  next
    case False
    with that show ?thesis
      by (intro tripleI) (auto simp: disk_content_plain disk_replace)
  qed
  show "gives (\<lambda>_. True) (openat disk_kernel dir p flags) (\<lambda>f s. disk_refers s f dir p)"
    if "O_CREATE \<notin> flags" for p flags
    using that by (auto simp: triple_def openat_def disk_open_def disk_refers_def Let_def
        split: option.split node.split)
  show "gives (\<lambda>s. disk_refers s f dir p \<and> disk_content s dir p = t) (k_read disk_kernel f n)
      (\<lambda>bytes _. \<exists>v. t = Some v \<and> bytes = take n v)" for f p t n
    by (auto simp: triple_def disk_read_def disk_refers_content file_at_def split: option.split node.split)
  show "gives (\<lambda>s. disk_content s dir p \<noteq> None) (k_dir disk_kernel dir) (\<lambda>stream _. Inr p \<in> set stream)"
    if "plain_name p" for p
    using that
    by (force simp: triple_def disk_dir_def disk_content_plain file_at_def node_at_def
        dest: map_of_SomeD split: option.splits)
qed

definition example_record :: RecoveryRecord where
  "example_record = \<lparr>recovery_workspace = 1, recovery_operation = 5, recovery_containers = [''gobrowse-7'']\<rparr>"

text \<open>The disk after the record has been written, and what the list gives on it.\<close>

lemma example_record_text:
  "encode_record disk_kernel example_record = ''5'' @ [NL] @ ''gobrowse-7''"
  "valid_container_name disk_kernel ''gobrowse-7''"
proof -
  have "decimal 5 = ''5''" by code_simp
  then show "encode_record disk_kernel example_record = ''5'' @ [NL] @ ''gobrowse-7''"
    by (simp add: encode_record_def example_record_def)
  show "valid_container_name disk_kernel ''gobrowse-7''"
    by (simp add: valid_container_name_def strip_prefix_def starts_with_def parse_unsigned_def
        is_ascii_digit_def byte_def)
qed

definition stored_disk :: disk where
  "stored_disk = two_disk\<lparr>nodes :=
     ([RECOVERY_DIRECTORY, ''1''], N_File 9 (''5'' @ [NL] @ ''gobrowse-7'')) # nodes two_disk, next_id := 10\<rparr>"

lemmas example_disk_defs = stored_disk_def two_disk_def disk_fs_def workspace_dir_def
  STAGING_DIRECTORY_def RECOVERY_DIRECTORY_def VOLUME_DATA_DIRECTORY_def

lemma plain_example: "steps_of ''.gobrowse-recovery-8'' = Some [''.gobrowse-recovery-8'']" "steps_of ''1'' = Some [''1'']"
  by (rule steps_of_plain, simp add: plain_name_def is_dot_def)+

lemma persist_example: "persist disk_kernel disk_fs example_record two_disk = (Inr (), stored_disk)"
proof -
  have "decimal 8 = ''8''" by code_simp
  then show ?thesis
    unfolding persist_def example_record_text(1)
    by (simp add: example_record_def example_record_text(2) Let_def io_bind_def stage_name_def
        create_staged_file_def disk_open_def plain_example node_at_def CREATE_FLAGS_def
        MAX_RECOVERY_RECORD_BYTES_def example_disk_defs sys_def sys_io_def io_map_err_def io_catch_def
        io_then_def io_ok_def disk_stat_def disk_write_def disk_rename_def decimal_1 relocate_def
        inside_def NL_def)
qed

lemma read_example: "read_recovery disk_kernel disk_fs ''1'' stored_disk = (Inr example_record, stored_disk)"
proof -
  have "valid_record disk_kernel example_record"
    using example_record_text(2) by (simp add: valid_record_def example_record_def)
  note dec = decode_encode_record [OF disk_uuid_text this, unfolded example_record_text(1)]
  have utf8: "is_utf8 ''1''" "is_utf8 (''5'' @ [NL] @ ''gobrowse-7'')"
    by (simp_all add: is_utf8_def utf8_slice_def complete_slice_def str_defs ascii_class_defs NL_def)
  have "parse_unsigned (2 ^ 128 - 1) ''1'' = Some 1"
    by (simp add: parse_unsigned_def is_ascii_digit_def byte_def)
  then show ?thesis
    by (simp add: read_recovery_def cstr_to_string_def utf8 [simplified] dec [simplified] io_bind_def example_disk_defs
        disk_open_def plain_example node_at_def READ_FLAGS_def MAX_RECOVERY_RECORD_BYTES_def sys_def
        sys_io_def io_map_err_def openat_def io_ok_def io_lift_def read_regular_bounded_def
        safe_kind_and_size_def is_regular_def S_IFMT_def S_IFREG_def disk_read_def disk_stat_def Let_def)
       (simp add: example_record_def)
qed

lemma list_example: "list_records disk_kernel disk_fs stored_disk = (Inr [example_record], stored_disk)"
proof -
  have "disk_dir [RECOVERY_DIRECTORY] stored_disk = (Inr [Inr ''1''], stored_disk)"
    by (simp add: disk_dir_def inside_def plain_name_def is_dot_def example_disk_defs)
  with read_example show ?thesis
    by (simp add: list_records_def io_bind_def sys_def io_map_err_def disk_fs_def is_dot_def io_lift_def io_ok_def)
qed

theorem persisted_record_is_listed_witness:
  "fst (io_then (persist disk_kernel disk_fs example_record) (list_records disk_kernel disk_fs) two_disk)
     = Inr [example_record]
   \<and> example_record \<in> set [example_record]"
proof -
  have "io_then (persist disk_kernel disk_fs example_record) (list_records disk_kernel disk_fs) two_disk
      = (Inr [example_record], stored_disk)"
    by (simp add: io_then_def io_bind_def persist_example list_example)
  with persisted_record_is_listed [OF disk_record_laws disk_uuid_text this] show ?thesis by simp
qed

theorem foreign_entry_blocks_recovery_witness:
  "isl (fst (list_records disk_kernel disk_fs
     (two_disk\<lparr>nodes := [([RECOVERY_DIRECTORY, ''.gobrowse-recovery-8''], N_File 8 [])]\<rparr>)))"
proof -
  let ?d = "two_disk\<lparr>nodes := [([RECOVERY_DIRECTORY, ''.gobrowse-recovery-8''], N_File 8 [])]\<rparr>"
  have stream: "k_dir disk_kernel (recovery_fd disk_fs) ?d = (Inr [Inr ''.gobrowse-recovery-8''], ?d)"
    by (simp add: disk_dir_def disk_fs_def inside_def plain_name_def is_dot_def)
  have "k_parse_uuid disk_kernel ''.gobrowse-recovery-8'' = None"
    by (simp add: parse_unsigned_def is_ascii_digit_def byte_def)
  then show ?thesis
    using foreign_entry_blocks_recovery [OF stream, of "''.gobrowse-recovery-8''"] by (simp add: is_dot_def)
qed

end
