(* ===== verification/Podman_Spec.thy ===== *)
theory Podman_Spec
  imports Runtime_Session Rust_Text
begin

section \<open>What the runtime asks of Podman (\<open>runtime.rs\<close>)\<close>

text \<open>
  The configuration of the runtime, the command lines it builds and the output it parses, from
  \<open>crates/gobrowse-sandboxd/src/runtime.rs\<close>.  The \<open>uuid\<close> crate's printing and parsing of
  identifiers is a parameter.
\<close>

record uuid_codec =
  hyphenated :: "uuid \<Rightarrow> string"
  parse_str :: "string \<Rightarrow> uuid option"

text \<open>What the code relies on: printing gives 36 hexadecimal digits and hyphens, and is read back.\<close>

definition uuid_codec_ok :: "uuid_codec \<Rightarrow> bool" where
  "uuid_codec_ok U \<longleftrightarrow>
     (\<forall>u. parse_str U (hyphenated U u) = Some u \<and> length (hyphenated U u) = 36
        \<and> list_all (\<lambda>c. is_ascii_hexdigit (byte c) \<or> c = CHR ''-'') (hyphenated U u))"

lemma uuid_codec_okD:
  assumes "uuid_codec_ok U"
  shows "parse_str U (hyphenated U u) = Some u" "length (hyphenated U u) = 36"
    "c \<in> set (hyphenated U u) \<Longrightarrow> is_ascii_hexdigit (byte c) \<or> c = CHR ''-''"
  using assms by (auto simp: uuid_codec_ok_def list_all_iff)

definition MINIMAL_PATH :: string where "MINIMAL_PATH = ''/usr/bin:/bin''"
definition MAX_READINESS_TIMEOUT :: nat where "MAX_READINESS_TIMEOUT = 60 * 10 ^ 9"
definition MAX_CONTROL_TIMEOUT :: nat where "MAX_CONTROL_TIMEOUT = 60 * 10 ^ 9"
definition MAX_TERMINATION_TIMEOUT :: nat where "MAX_TERMINATION_TIMEOUT = 5 * 60 * 10 ^ 9"
definition MAX_INPUT_WRITE_TIMEOUT :: nat where "MAX_INPUT_WRITE_TIMEOUT = 10 * 10 ^ 9"

datatype WorkspaceProvisioning = Unverified | NamedVolume u64

text \<open>Durations are in nanoseconds; stores and journal are not part of the record here.\<close>

record PodmanConfig =
  pc_executable :: string
  pc_home :: string
  pc_runtime_dir :: "string option"
  pc_container_uid :: u32
  pc_image :: string
  pc_readiness_timeout :: nat
  pc_control_timeout :: nat
  pc_termination_timeout :: nat
  pc_input_write_timeout :: nat
  pc_session_limits :: SessionLimits
  pc_workspace_provisioning :: WorkspaceProvisioning
  pc_deployment_id :: uuid
  pc_restricted_network :: "string option"

record ProcessSpec =
  spec_program :: string
  spec_args :: "string list"

text \<open>What is run: the program, its arguments, its whole environment, and whether a drop kills it.\<close>

record Command =
  cmd_program :: string
  cmd_args :: "string list"
  cmd_env :: "(string \<times> string) list"
  cmd_kill_on_drop :: bool

definition command_env :: "string \<Rightarrow> string option \<Rightarrow> (string \<times> string) list" where
  "command_env home runtime_dir =
     [(''PATH'', MINIMAL_PATH), (''HOME'', home)]
     @ (case runtime_dir of None \<Rightarrow> [] | Some dir \<Rightarrow> [(''XDG_RUNTIME_DIR'', dir)])"

definition spec_command :: "ProcessSpec \<Rightarrow> string \<Rightarrow> string option \<Rightarrow> Command" where
  "spec_command spec home runtime_dir =
     \<lparr>cmd_program = spec_program spec, cmd_args = spec_args spec,
      cmd_env = command_env home runtime_dir, cmd_kill_on_drop = True\<rparr>"

definition spec_pty_command :: "ProcessSpec \<Rightarrow> string \<Rightarrow> string option \<Rightarrow> Command" where
  "spec_pty_command spec home runtime_dir =
     \<lparr>cmd_program = spec_program spec, cmd_args = spec_args spec,
      cmd_env = command_env home runtime_dir, cmd_kill_on_drop = False\<rparr>"

subsection \<open>Names\<close>

definition valid_image_reference :: "string \<Rightarrow> bool" where
  "valid_image_reference img \<longleftrightarrow>
     img \<noteq> [] \<and> length img \<le> 512 \<and> \<not> starts_with img ''-''
     \<and> list_all (\<lambda>c. is_ascii_alphanumeric c
          \<or> c \<in> set [byte CHR ''/'', byte CHR ''.'', byte CHR '':'', byte CHR ''-'', byte CHR ''_'', byte CHR ''@''])
         (str_chars img)"

definition valid_runtime_network :: "NetworkPolicy \<Rightarrow> string \<Rightarrow> bool" where
  "valid_runtime_network policy name =
     (case policy of
        Net_None \<Rightarrow> name = ''none''
      | Net_Full \<Rightarrow> name = ''slirp4netns''
      | Net_Restricted \<Rightarrow>
          starts_with name ''gobrowse-restricted-''
          \<and> length name > length ''gobrowse-restricted-''
          \<and> length name \<le> 128
          \<and> list_all (\<lambda>c. is_ascii_alphanumeric c \<or> c = byte CHR ''-'' \<or> c = byte CHR ''_'')
              (str_chars name))"

definition valid_workspace_volume_name :: "uuid_codec \<Rightarrow> string \<Rightarrow> bool" where
  "valid_workspace_volume_name U name \<longleftrightarrow>
     length name = length ''gobrowse-workspace-'' + 36
     \<and> starts_with name ''gobrowse-workspace-''
     \<and> parse_str U (drop (length ''gobrowse-workspace-'') name) \<noteq> None"

definition cpu_limit :: "u32 \<Rightarrow> string" where
  "cpu_limit cpu = decimal (unat (cpu div 1000)) @ ''.'' @ decimal_padded 3 (unat (cpu mod 1000))"

definition container_name :: "uuid_codec \<Rightarrow> uuid \<Rightarrow> string" where
  "container_name U terminal_id = ''gobrowse-'' @ hyphenated U terminal_id"

subsection \<open>Configuration\<close>

text \<open>\<open>Path::file_name\<close>.\<close>

definition path_file_name :: "string \<Rightarrow> string option" where
  "path_file_name path =
     (case rev (path_components path) of Normal name # _ \<Rightarrow> Some name | _ \<Rightarrow> None)"

definition from_validated_config :: "PodmanConfig \<Rightarrow> RuntimeError + PodmanConfig" where
  "from_validated_config config =
     (let limits = pc_session_limits config
      in if \<not> starts_with (pc_executable config) ''/''
            \<or> path_file_name (pc_executable config) \<noteq> Some ''podman''
            \<or> \<not> valid_image_reference (pc_image config)
            \<or> pc_readiness_timeout config = 0
            \<or> pc_readiness_timeout config > MAX_READINESS_TIMEOUT
            \<or> pc_control_timeout config = 0
            \<or> pc_control_timeout config > MAX_CONTROL_TIMEOUT
            \<or> pc_termination_timeout config = 0
            \<or> pc_termination_timeout config > MAX_TERMINATION_TIMEOUT
            \<or> pc_input_write_timeout config = 0
            \<or> pc_input_write_timeout config > MAX_INPUT_WRITE_TIMEOUT
            \<or> max_active limits = 0
            \<or> max_active limits > MAX_ACTIVE_SESSIONS_HARD
            \<or> max_active_per_workspace limits = 0
            \<or> max_active_per_workspace limits > max_active limits
            \<or> max_retained_records limits = 0
            \<or> max_retained_records limits > MAX_RETAINED_RECORDS_HARD
            \<or> pc_deployment_id config = 0
         then Inl Rt_InvalidConfiguration
         else if pc_workspace_provisioning config = NamedVolume 0 then Inl Rt_InvalidConfiguration
         else if (case pc_restricted_network config of None \<Rightarrow> False
                  | Some name \<Rightarrow> \<not> valid_restricted_network_name name)
         then Inl Rt_InvalidConfiguration
         else Inr config)"

definition effective_uid_from_proc_status :: "string \<Rightarrow> RuntimeError + u32" where
  "effective_uid_from_proc_status status =
     and_then (ok_or (find (\<lambda>line. starts_with line ''Uid:'') (str_lines status)) Rt_InvalidConfiguration)
       (\<lambda>uid_line.
          let fields = split_ascii_whitespace uid_line
          in and_then (ok_or (if 2 < length fields then Some (fields ! 2) else None) Rt_InvalidConfiguration)
               (\<lambda>field. ok_or (parse_u32 field) Rt_InvalidConfiguration))"

text \<open>\<open>PodmanRuntime::new\<close>, given the text of \<open>/proc/self/status\<close>.\<close>

definition new_podman :: "RuntimeError + string \<Rightarrow> PodmanConfig \<Rightarrow> RuntimeError + PodmanConfig" where
  "new_podman status config =
     and_then status (\<lambda>status.
     and_then (effective_uid_from_proc_status status) (\<lambda>uid.
       if uid = 0 then Inl Rt_RunningAsRoot else from_validated_config config))"

subsection \<open>Command lines\<close>

definition podman :: "PodmanConfig \<Rightarrow> string list \<Rightarrow> ProcessSpec" where
  "podman config args = \<lparr>spec_program = pc_executable config, spec_args = args\<rparr>"

text \<open>The options of every container; \<open>workspace\<close> is the name of its volume.\<close>

definition run_options :: "uuid_codec \<Rightarrow> PodmanConfig \<Rightarrow> ValidatedStart \<Rightarrow> string \<Rightarrow> string list" where
  "run_options U config start workspace =
     (let request = vs_request start; limits = req_limits request
      in [''run'', ''--interactive'', ''--tty'', ''--sig-proxy=false'', ''--detach-keys='', ''--init'',
          ''--pull=never'', ''--log-driver=none'', ''--image-volume=ignore'', ''--http-proxy=false'',
          ''--name'', container_name U (vs_terminal_id start),
          ''--label'', ''io.gobrowse.managed=true'',
          ''--label'', ''io.gobrowse.deployment-id='' @ hyphenated U (pc_deployment_id config),
          ''--label'', ''io.gobrowse.workspace-id='' @ hyphenated U (req_workspace_id request),
          ''--label'', ''io.gobrowse.terminal-id='' @ hyphenated U (vs_terminal_id start),
          ''--cap-drop=ALL'', ''--security-opt=no-new-privileges'', ''--read-only'',
          ''--pid=private'', ''--ipc=private'', ''--uts=private'', ''--cgroupns=private'',
          ''--pids-limit'', decimal (unat (pids limits)),
          ''--memory'', decimal (unat (memory_bytes limits)),
          ''--cpus'', cpu_limit (cpu_millis limits),
          ''--network'', vs_network_name start,
          ''--volume'', workspace @ '':/workspace:rw,nodev,nosuid'',
          ''--tmpfs'', ''/tmp:rw,noexec,nosuid,nodev,size=67108864'',
          ''--workdir'', ''/workspace/'' @ req_working_directory request])"

text \<open>\<open>attested\<close>: the attestation of the restricted network that is cached, if any.\<close>

definition start_spec ::
  "uuid_codec \<Rightarrow> PodmanConfig \<Rightarrow> RestrictedNetworkAttestation option \<Rightarrow> ValidatedStart
     \<Rightarrow> RuntimeError + ProcessSpec" where
  "start_spec U config attested start =
     (case pc_workspace_provisioning config of
        Unverified \<Rightarrow> Inl Rt_WorkspaceQuotaUnavailable
      | NamedVolume maximum_bytes \<Rightarrow>
          let request = vs_request start; storage = vs_workspace_storage start;
              workspace = workspace_volume_name (hyphenated U) (req_workspace_id request)
          in if writable_storage_bytes (req_limits request) > maximum_bytes
             then Inl Rt_WorkspaceQuotaUnavailable
             else if req_workspace_id request = 0
                \<or> \<not> valid_workspace_volume_name U workspace
                \<or> volume_name storage \<noteq> workspace
                \<or> storage_device storage = 0
                \<or> storage_inode storage = 0
             then Inl Rt_InvalidConfiguration
             else if \<not> valid_runtime_network (req_network_policy request) (vs_network_name start)
             then Inl Rt_InvalidConfiguration
             else if req_network_policy request = Net_Restricted
                \<and> pc_restricted_network config \<noteq> None \<and> attested = None
             then Inl Rt_InvalidConfiguration
             else Inr (podman config
                    (run_options U config start workspace @ [pc_image config] @ req_command request)))"

definition readiness_spec :: "uuid_codec \<Rightarrow> PodmanConfig \<Rightarrow> uuid \<Rightarrow> ProcessSpec" where
  "readiness_spec U config t =
     podman config [''inspect'', ''--format'', ''{{.State.Running}}'', container_name U t]"

definition resize_spec :: "uuid_codec \<Rightarrow> PodmanConfig \<Rightarrow> uuid \<Rightarrow> u16 \<Rightarrow> u16 \<Rightarrow> ProcessSpec" where
  "resize_spec U config t cols rows =
     podman config [''exec'', ''-t'', container_name U t, ''/bin/stty'', ''cols'', decimal (unat cols),
       ''rows'', decimal (unat rows)]"

definition terminate_spec :: "uuid_codec \<Rightarrow> PodmanConfig \<Rightarrow> uuid \<Rightarrow> ProcessSpec" where
  "terminate_spec U config t = podman config [''stop'', ''--ignore'', ''--time'', ''1'', container_name U t]"

definition force_removal_spec :: "uuid_codec \<Rightarrow> PodmanConfig \<Rightarrow> uuid \<Rightarrow> ProcessSpec" where
  "force_removal_spec U config t = podman config [''rm'', ''--force'', ''--ignore'', container_name U t]"

definition processes_spec :: "uuid_codec \<Rightarrow> PodmanConfig \<Rightarrow> uuid \<Rightarrow> ProcessSpec" where
  "processes_spec U config t = podman config [''top'', container_name U t, ''pid'', ''comm'', ''args'']"

definition kill_spec :: "uuid_codec \<Rightarrow> PodmanConfig \<Rightarrow> uuid \<Rightarrow> u32 \<Rightarrow> ProcessSpec" where
  "kill_spec U config t pid =
     podman config [''exec'', container_name U t, ''/bin/kill'', ''-TERM'', ''--'', decimal (unat pid)]"

definition volume_inspect_spec :: "uuid_codec \<Rightarrow> PodmanConfig \<Rightarrow> uuid \<Rightarrow> ProcessSpec" where
  "volume_inspect_spec U config w =
     podman config [''volume'', ''inspect'', ''--format'',
       ''{{.Name}}|{{.Driver}}|{{json .Options}}|{{.Mountpoint}}'', workspace_volume_name (hyphenated U) w]"

definition volume_create_spec :: "uuid_codec \<Rightarrow> PodmanConfig \<Rightarrow> uuid \<Rightarrow> ProcessSpec" where
  "volume_create_spec U config w =
     podman config [''volume'', ''create'', workspace_volume_name (hyphenated U) w]"

definition unshare_chown_spec :: "PodmanConfig \<Rightarrow> string \<Rightarrow> bool \<Rightarrow> ProcessSpec" where
  "unshare_chown_spec config mountpoint recursive =
     podman config ([''unshare'', ''chown''] @ (if recursive then [''-R''] else [])
       @ [decimal (unat (pc_container_uid config)) @ '':0'', mountpoint])"

definition unshare_chmod_spec :: "PodmanConfig \<Rightarrow> string \<Rightarrow> ProcessSpec" where
  "unshare_chmod_spec config mountpoint = podman config [''unshare'', ''chmod'', ''2775'', mountpoint]"

definition network_inspect_spec :: "PodmanConfig \<Rightarrow> string \<Rightarrow> ProcessSpec" where
  "network_inspect_spec config name =
     podman config [''network'', ''inspect'', ''--format'', ''{{.Name}}|{{json .Subnets}}|'', name]"

definition pause_spec :: "uuid_codec \<Rightarrow> PodmanConfig \<Rightarrow> uuid \<Rightarrow> ProcessSpec" where
  "pause_spec U config t = podman config [''pause'', container_name U t]"

definition unpause_spec :: "uuid_codec \<Rightarrow> PodmanConfig \<Rightarrow> uuid \<Rightarrow> ProcessSpec" where
  "unpause_spec U config t = podman config [''unpause'', container_name U t]"

definition paused_inspect_spec :: "uuid_codec \<Rightarrow> PodmanConfig \<Rightarrow> uuid \<Rightarrow> ProcessSpec" where
  "paused_inspect_spec U config t =
     podman config [''inspect'', ''--format'', ''{{.State.Paused}}'', container_name U t]"

text \<open>The format prints the two labels; a double quote is written by its code.\<close>

definition managed_format :: string where
  "managed_format =
     (let quoted = (\<lambda>s. [CHR 0x22] @ s @ [CHR 0x22])
      in ''{{.Names}}|{{.Label '' @ quoted ''io.gobrowse.terminal-id'' @ ''}}|{{.Label ''
         @ quoted ''io.gobrowse.workspace-id'' @ ''}}'')"

definition managed_containers_spec :: "uuid_codec \<Rightarrow> PodmanConfig \<Rightarrow> uuid option \<Rightarrow> ProcessSpec" where
  "managed_containers_spec U config workspace_id =
     podman config
       ([''ps'', ''--all'', ''--filter'', ''label=io.gobrowse.managed=true'',
         ''--filter'', ''label=io.gobrowse.deployment-id='' @ hyphenated U (pc_deployment_id config)]
        @ (case workspace_id of None \<Rightarrow> []
           | Some w \<Rightarrow> [''--filter'', ''label=io.gobrowse.workspace-id='' @ hyphenated U w])
        @ [''--format'', managed_format])"

end
