(* ===== verification/Podman_Engine.thy ===== *)
theory Podman_Engine
  imports Podman_Spec Recovery_Store Json
begin

section \<open>Calls of the container engine\<close>

text \<open>
  The parts of \<open>PodmanRuntime\<close> in \<open>runtime.rs\<close> that run \<open>podman\<close> and read its answers.  The process
  itself is a parameter: \<open>en_status\<close> runs a command to its end and tells whether it succeeded,
  \<open>en_output n\<close> also gives the first \<open>n\<close> bytes of its output; both fail when the command cannot be
  started or the control timeout passes.  A pseudo-terminal is a value of an unknown type; its
  calls open it with a raw mode, set its size (rows, columns), spawn a command on it, and write
  to it within the input timeout.  \<open>en_rounds s d\<close> is how many rounds of a loop fit before a timer
  of \<open>d\<close> fires; \<open>en_parse_array\<close>, \<open>en_encode_request\<close> are \<open>serde_json\<close>, \<open>en_parse_ip\<close> is
  \<open>IpAddr::from_str\<close> and \<open>en_digest\<close> SHA-256.  While a command runs, the other tasks of the daemon
  go on, so the calls work on the whole state.
\<close>

datatype pty_error = Pty_Timeout | Pty_Io

record ('s, 'fd, 'pty) PodmanRuntime =
  config :: PodmanConfig
  host_kernel :: "('s, 'fd) kernel"
  volumes :: "'fd Filesystem"
  en_status :: "Command \<Rightarrow> ('s, RuntimeError, bool) io"
  en_output :: "Command \<Rightarrow> nat \<Rightarrow> ('s, RuntimeError, bool \<times> string) io"
  en_sleep :: "nat \<Rightarrow> 's \<Rightarrow> 's"
  en_rounds :: "'s \<Rightarrow> nat \<Rightarrow> nat"
  en_parse_array :: "string \<Rightarrow> json list option"
  en_parse_ip :: "string \<Rightarrow> ip_addr option"
  en_encode_request :: "TerminalStartRequest \<Rightarrow> string option"
  en_digest :: "string \<Rightarrow> fingerprint"
  en_pty_open :: "('s, unit, 'pty) io"
  en_pty_raw :: "'pty \<Rightarrow> ('s, unit, unit) io"
  en_pty_resize :: "'pty \<Rightarrow> u16 \<Rightarrow> u16 \<Rightarrow> ('s, unit, unit) io"
  en_spawn :: "Command \<Rightarrow> 'pty \<Rightarrow> ('s, unit, unit) io"
  en_pty_write :: "'pty \<Rightarrow> string \<Rightarrow> ('s, pty_error, unit) io"

definition codec :: "('s, 'fd, 'pty) PodmanRuntime \<Rightarrow> uuid_codec" where
  "codec P = \<lparr>hyphenated = k_hyphenated (host_kernel P), parse_str = k_parse_uuid (host_kernel P)\<rparr>"

definition CLEANUP_RETRY_INTERVAL :: nat where "CLEANUP_RETRY_INTERVAL = 50 * 10 ^ 6"

definition engine_command :: "('s, 'fd, 'pty) PodmanRuntime \<Rightarrow> ProcessSpec \<Rightarrow> Command" where
  "engine_command P spec = spec_command spec (pc_home (config P)) (pc_runtime_dir (config P))"

definition run_checked :: "('s, 'fd, 'pty) PodmanRuntime \<Rightarrow> ProcessSpec \<Rightarrow> ('s, RuntimeError, unit) io" where
  "run_checked P spec =
     io_bind (en_status P (engine_command P spec)) (\<lambda>success.
       if success then io_ok () else io_fail Rt_PodmanFailed)"

definition run_output_bounded ::
  "('s, 'fd, 'pty) PodmanRuntime \<Rightarrow> ProcessSpec \<Rightarrow> nat \<Rightarrow> ('s, RuntimeError, bool \<times> string) io" where
  "run_output_bounded P spec maximum =
     io_bind (en_output P (engine_command P spec) (maximum + 1)) (\<lambda>(success, out).
       if length out > maximum then io_fail Rt_PodmanFailed else io_ok (success, out))"

definition inspect_ready :: "('s, 'fd, 'pty) PodmanRuntime \<Rightarrow> uuid \<Rightarrow> ('s, RuntimeError, bool) io" where
  "inspect_ready P t =
     io_bind (run_output_bounded P (readiness_spec (codec P) (config P) t) 16) (\<lambda>(success, out).
       io_ok (success \<and> out = ''true'' @ [NL]))"

definition inspect_paused :: "('s, 'fd, 'pty) PodmanRuntime \<Rightarrow> uuid \<Rightarrow> ('s, RuntimeError, bool) io" where
  "inspect_paused P t =
     io_bind (run_output_bounded P (paused_inspect_spec (codec P) (config P) t) 16) (\<lambda>(success, out).
       if \<not> success then io_fail Rt_PodmanFailed
       else if out = ''true'' @ [NL] then io_ok True
       else if out = ''false'' @ [NL] then io_ok False
       else io_fail Rt_PodmanFailed)"

subsection \<open>Volumes\<close>

text \<open>The four fields of the line that \<open>volume inspect\<close> prints.\<close>

definition volume_fields :: "string \<Rightarrow> (string \<times> string \<times> string \<times> string) option" where
  "volume_fields out =
     (case strip_suffix out [NL] of
        None \<Rightarrow> None
      | Some line \<Rightarrow>
          (case splitn 4 CHR ''|'' line of
             [name, driver, options, mountpoint] \<Rightarrow> Some (name, driver, options, mountpoint)
           | _ \<Rightarrow> None))"

definition verify_workspace_volume ::
  "('s, 'fd, 'pty) PodmanRuntime \<Rightarrow> ValidatedStart \<Rightarrow> ('s, RuntimeError, unit) io" where
  "verify_workspace_volume P start =
     (case pc_workspace_provisioning (config P) of
        Unverified \<Rightarrow> io_fail Rt_WorkspaceQuotaUnavailable
      | NamedVolume maximum_bytes \<Rightarrow>
          let request = vs_request start; w = req_workspace_id request
          in io_bind (run_output_bounded P (volume_inspect_spec (codec P) (config P) w) (16 * 1024))
               (\<lambda>(success, out).
                 if \<not> success \<or> \<not> is_utf8 out then io_fail Rt_WorkspaceVolumeInvalid
                 else case volume_fields out of
                   None \<Rightarrow> io_fail Rt_WorkspaceVolumeInvalid
                 | Some (name, driver, options, mountpoint) \<Rightarrow>
                     if name \<noteq> volume_name (vs_workspace_storage start)
                        \<or> writable_storage_bytes (req_limits request) > maximum_bytes
                     then io_fail Rt_WorkspaceVolumeInvalid
                     else io_map_err (\<lambda>_. Rt_WorkspaceVolumeInvalid)
                            (verify_volume (host_kernel P) (volumes P) w driver options mountpoint
                               (vs_workspace_storage start))))"

definition workspace_volume_mountpoint :: "string \<Rightarrow> string option" where
  "workspace_volume_mountpoint out =
     (case volume_fields (from_utf8_lossy out) of
        None \<Rightarrow> None
      | Some (_, _, _, mountpoint) \<Rightarrow> if mountpoint = [] then None else Some mountpoint)"

definition provision_workspace :: "('s, 'fd, 'pty) PodmanRuntime \<Rightarrow> uuid \<Rightarrow> ('s, RuntimeError, unit) io" where
  "provision_workspace P w =
     io_bind (run_output_bounded P (volume_inspect_spec (codec P) (config P) w) (16 * 1024)) (\<lambda>(success, out).
     io_bind
       (if success then io_ok None
        else io_bind (run_output_bounded P (volume_create_spec (codec P) (config P) w) (16 * 1024))
          (\<lambda>(success, create_output).
            if success then io_ok None
            else let message = from_utf8_lossy create_output
                 in if str_contains message ''already exists'' \<or> str_contains message ''already in use''
                    then io_ok (Some ()) else io_fail Rt_PodmanFailed)) (\<lambda>early.
       if early \<noteq> None then io_ok ()
       else io_bind (io_lift (ok_or (workspace_volume_mountpoint out) Rt_WorkspaceVolumeInvalid)) (\<lambda>mountpoint.
         io_then (run_checked P (unshare_chown_spec (config P) mountpoint False))
           (run_checked P (unshare_chmod_spec (config P) mountpoint)))))"

definition chown_workspace_path ::
  "('s, 'fd, 'pty) PodmanRuntime \<Rightarrow> uuid \<Rightarrow> string \<Rightarrow> bool \<Rightarrow> ('s, RuntimeError, unit) io" where
  "chown_workspace_path P w relative recursive =
     io_bind (io_lift (map_err (\<lambda>_. Rt_InvalidConfiguration) (validate_workspace_path relative))) (\<lambda>_.
     io_bind (run_output_bounded P (volume_inspect_spec (codec P) (config P) w) (16 * 1024)) (\<lambda>(success, out).
       if \<not> success then io_fail Rt_PodmanFailed
       else io_bind (io_lift (ok_or (workspace_volume_mountpoint out) Rt_WorkspaceVolumeInvalid)) (\<lambda>mountpoint.
         let target = from_utf8_lossy (path_join mountpoint relative)
         in io_then (run_checked P (unshare_chown_spec (config P) target recursive))
              (if \<not> recursive then run_checked P (unshare_chmod_spec (config P) target) else io_ok ()))))"

subsection \<open>The restricted network\<close>

definition read_attestation ::
  "('s, 'fd, 'pty) PodmanRuntime \<Rightarrow> string \<Rightarrow> string \<Rightarrow> RestrictedNetworkAttestation option" where
  "read_attestation P name out =
     (if \<not> is_utf8 out then None
      else case strip_suffix out [NL] of
        None \<Rightarrow> None
      | Some line \<Rightarrow>
          (case splitn 4 CHR ''|'' line of
             inspected_name # subnets_json # _ \<Rightarrow>
               (case en_parse_array P subnets_json of
                  Some (first # _) \<Rightarrow>
                    (case (Option.bind (Option.bind (json_get first ''subnet'') as_str)
                             (\<lambda>cidr. en_parse_ip P (hd (split_on CHR ''/'' cidr))),
                           Option.bind (Option.bind (json_get first ''gateway'') as_str) (en_parse_ip P)) of
                       (Some sub, Some gate) \<Rightarrow>
                         if inspected_name \<noteq> name then None
                         else
                           let att = \<lparr>network_name = name, subnet = sub, gateway = gate, dns = []\<rparr>
                           in if is_ok (validate_attestation att) then Some att else None
                     | _ \<Rightarrow> None)
                | _ \<Rightarrow> None)
           | _ \<Rightarrow> None))"

definition attest_restricted_network ::
  "('s, 'fd, 'pty) PodmanRuntime \<Rightarrow> string \<Rightarrow> ('s, RuntimeError, RestrictedNetworkAttestation) io" where
  "attest_restricted_network P name =
     io_bind (run_output_bounded P (network_inspect_spec (config P) name) (4 * 1024)) (\<lambda>(success, out).
       if \<not> success then io_fail Rt_InvalidConfiguration
       else io_lift (ok_or (read_attestation P name out) Rt_InvalidConfiguration))"

subsection \<open>Managed containers\<close>

text \<open>One line: the container's name and the two labels.\<close>

definition managed_line ::
  "uuid_codec \<Rightarrow> uuid option \<Rightarrow> string \<Rightarrow> (uuid \<times> uuid) option" where
  "managed_line U workspace_id line =
     (case split_on CHR ''|'' line of
        [name, terminal, label] \<Rightarrow>
          (case (parse_str U terminal, parse_str U label) of
             (Some terminal_id, Some listed_workspace) \<Rightarrow>
               if name \<noteq> container_name U terminal_id
                  \<or> (case workspace_id of None \<Rightarrow> False | Some expected \<Rightarrow> expected \<noteq> listed_workspace)
               then None else Some (terminal_id, listed_workspace)
           | _ \<Rightarrow> None)
      | _ \<Rightarrow> None)"

fun managed_lines :: "uuid_codec \<Rightarrow> uuid option \<Rightarrow> string list \<Rightarrow> (uuid \<times> uuid) list option" where
  "managed_lines U workspace_id [] = Some []"
| "managed_lines U workspace_id (line # lines) =
     (case managed_line U workspace_id line of
        None \<Rightarrow> None
      | Some c \<Rightarrow> map_option ((#) c) (managed_lines U workspace_id lines))"

definition managed_containers ::
  "('s, 'fd, 'pty) PodmanRuntime \<Rightarrow> uuid option \<Rightarrow> ('s, RuntimeError, (uuid \<times> uuid) list) io" where
  "managed_containers P workspace_id =
     io_bind (run_output_bounded P (managed_containers_spec (codec P) (config P) workspace_id) (1024 * 1024))
       (\<lambda>(success, out).
         if \<not> success \<or> \<not> is_utf8 out then io_fail Rt_WorkspaceRecoveryFailed
         else io_lift (ok_or (managed_lines (codec P) workspace_id (str_lines out)) Rt_WorkspaceRecoveryFailed))"

definition terminate_managed :: "('s, 'fd, 'pty) PodmanRuntime \<Rightarrow> uuid \<Rightarrow> ('s, RuntimeError, unit) io" where
  "terminate_managed P t = run_checked P (force_removal_spec (codec P) (config P) t)"

subsection \<open>Processes\<close>

text \<open>
  The loop over the lines after the header.  \<open>seen\<close> is the number of processes and \<open>used\<close> the sum
  of the lengths of their commands so far.
\<close>

fun process_lines :: "nat \<Rightarrow> nat \<Rightarrow> string list \<Rightarrow> RuntimeError + SandboxProcess list" where
  "process_lines seen used [] = Inr []"
| "process_lines seen used (line # lines) =
     (let fields = splitn2_whitespace (str_trim line)
      in case parse_u32 (hd fields) of
           None \<Rightarrow> Inl Rt_PodmanFailed
         | Some pid \<Rightarrow>
             if pid = 0 then Inl Rt_PodmanFailed
             else
               let command = (case fields of [_, rest] \<Rightarrow> str_trim rest | _ \<Rightarrow> []);
                   command_bytes = used + length command
               in if command_bytes \<ge> 2 ^ 64 \<or> length command > MAX_TERMINAL_PROCESS_COMMAND_BYTES
                     \<or> command_bytes > MAX_TERMINAL_PROCESS_BYTES
                     \<or> seen \<ge> MAX_TERMINAL_PROCESSES
                  then Inl Rt_PodmanFailed
                  else and_then (process_lines (seen + 1) command_bytes lines) (\<lambda>ps.
                         Inr (\<lparr>process_pid = pid, process_command = command\<rparr> # ps)))"

definition parse_processes :: "string \<Rightarrow> RuntimeError + SandboxProcess list" where
  "parse_processes out =
     (if \<not> is_utf8 out then Inl Rt_PodmanFailed else process_lines 0 0 (drop 1 (str_lines out)))"

end
