(* ===== verification/Podman_Recovery.thy ===== *)
theory Podman_Recovery
  imports Podman_Engine
begin

section \<open>Pausing, resuming and recovering a workspace\<close>

text \<open>
  The runtime's own state: the registry of sessions, the cached attestation of the restricted
  network, and the write halves of the terminals; beside it the journal and the outside world.
\<close>

record ('w, 'pty) host =
  registry :: Registry
  attestation :: "RestrictedNetworkAttestation option"
  ptys :: "(uuid \<times> 'pty) list"
  world :: 'w

type_synonym ('w, 'pty) host_state = "journal \<times> ('w, 'pty) host"
type_synonym ('w, 'pty, 'fd) podman_runtime = "(('w, 'pty) host_state, 'fd, 'pty) PodmanRuntime"
type_synonym ('w, 'pty, 'a) run = "(('w, 'pty) host_state, RuntimeError, 'a) io"

definition get_host :: "(('w, 'pty) host \<Rightarrow> 'a) \<Rightarrow> (('w, 'pty) host_state, 'e, 'a) io" where
  "get_host f s = (Inr (f (snd s)), s)"

definition put_attestation :: "RestrictedNetworkAttestation \<Rightarrow> ('w, 'pty, unit) run" where
  "put_attestation a s = (Inr (), (fst s, (snd s)\<lparr>attestation := Some a\<rparr>))"

definition on_registry :: "(Registry \<Rightarrow> (RuntimeError + 'a) \<times> Registry) \<Rightarrow> ('w, 'pty, 'a) run" where
  "on_registry f s = (case f (registry (snd s)) of (r, reg) \<Rightarrow> (r, (fst s, (snd s)\<lparr>registry := reg\<rparr>)))"

definition change_registry :: "(Registry \<Rightarrow> Registry) \<Rightarrow> ('w, 'pty, unit) run" where
  "change_registry f = on_registry (\<lambda>r. (Inr (), f r))"

definition on_journal :: "(journal \<Rightarrow> (JournalError + 'a) \<times> journal) \<Rightarrow> ('w, 'pty, 'a) run" where
  "on_journal f s = (case f (fst s) of (r, j) \<Rightarrow> (map_err map_journal_error r, (j, snd s)))"

definition sleep :: "('s, 'fd, 'pty) PodmanRuntime \<Rightarrow> nat \<Rightarrow> ('s, 'e, unit) io" where
  "sleep P d s = (Inr (), en_sleep P d s)"

definition new_uuid :: "('s, 'fd, 'pty) PodmanRuntime \<Rightarrow> ('s, 'e, uuid) io" where
  "new_uuid P s = (case k_uuid (host_kernel P) s of (u, t) \<Rightarrow> (Inr u, t))"

text \<open>The recovery store; its errors are not told apart.\<close>

definition store :: "('s, FilesystemError, 'a) io \<Rightarrow> ('s, RuntimeError, 'a) io" where
  "store m = io_map_err (\<lambda>_. Rt_WorkspaceRecoveryFailed) m"

definition recovery_records :: "('s, 'fd, 'pty) PodmanRuntime \<Rightarrow> ('s, RuntimeError, RecoveryRecord list) io" where
  "recovery_records P = store (list_records (host_kernel P) (volumes P))"

definition clear_recovery :: "('s, 'fd, 'pty) PodmanRuntime \<Rightarrow> uuid \<Rightarrow> uuid \<Rightarrow> ('s, RuntimeError, unit) io" where
  "clear_recovery P w operation = store (clear_record (host_kernel P) (volumes P) w operation)"

subsection \<open>Resuming\<close>

text \<open>One container of a pause; the result says that it is still unresolved.\<close>

definition resume_one :: "('s, 'fd, 'pty) PodmanRuntime \<Rightarrow> uuid \<Rightarrow> ('s, RuntimeError, bool) io" where
  "resume_one P t =
     io_bind (io_try (inspect_paused P t)) (\<lambda>paused.
       case paused of
         Inl _ \<Rightarrow> io_ok True
       | Inr False \<Rightarrow> io_ok False
       | Inr True \<Rightarrow>
           io_bind (io_is_ok (run_checked P (unpause_spec (codec P) (config P) t))) (\<lambda>unpaused.
             if \<not> unpaused then io_ok True
             else io_bind (io_try (inspect_paused P t)) (\<lambda>paused. io_ok (paused \<noteq> Inr False))))"

definition resume_pass :: "('s, 'fd, 'pty) PodmanRuntime \<Rightarrow> uuid list \<Rightarrow> uuid list \<Rightarrow> ('s, RuntimeError, bool) io" where
  "resume_pass P listed terminal_ids =
     io_fold (\<lambda>unresolved t.
       if t \<notin> set listed then io_ok unresolved
       else io_bind (resume_one P t) (\<lambda>failed. io_ok (unresolved \<or> failed))) False terminal_ids"

text \<open>The attempts that are left, of three; between two of them the code waits.\<close>

primrec resume_attempts ::
  "('s, 'fd, 'pty) PodmanRuntime \<Rightarrow> uuid \<Rightarrow> uuid list \<Rightarrow> uuid \<Rightarrow> nat \<Rightarrow> ('s, RuntimeError, unit) io" where
  "resume_attempts P w terminal_ids recovery_id 0 = io_fail Rt_WorkspaceResumeFailed"
| "resume_attempts P w terminal_ids recovery_id (Suc n) =
     io_bind (managed_containers P (Some w)) (\<lambda>listed.
     io_bind (resume_pass P (map fst listed) terminal_ids) (\<lambda>unresolved.
       if \<not> unresolved then clear_recovery P w recovery_id
       else io_then (if n > 0 then sleep P CLEANUP_RETRY_INTERVAL else io_ok ())
              (resume_attempts P w terminal_ids recovery_id n)))"

definition resume_workspace_owned ::
  "('s, 'fd, 'pty) PodmanRuntime \<Rightarrow> WorkspacePause \<Rightarrow> ('s, RuntimeError, unit) io" where
  "resume_workspace_owned P p =
     (if pause_terminal_ids p = [] then io_ok ()
      else case pause_recovery_id p of
        None \<Rightarrow> io_fail Rt_WorkspaceRecoveryFailed
      | Some recovery_id \<Rightarrow>
          resume_attempts P (pause_workspace_id p) (pause_terminal_ids p) recovery_id 3)"

subsection \<open>Recovery\<close>

definition registered_terminals :: "uuid \<Rightarrow> Registry \<Rightarrow> uuid list" where
  "registered_terminals w r =
     map session_terminal_id (filter (\<lambda>s. session_workspace_id s = w \<and> \<not> lifecycle_is_terminal (lifecycle s))
       (map snd (sessions r)))"

definition remove_workspace_orphans :: "('w, 'pty, 'fd) podman_runtime \<Rightarrow> uuid \<Rightarrow> ('w, 'pty, unit) run" where
  "remove_workspace_orphans P w =
     io_bind (get_host (\<lambda>h. registered_terminals w (registry h))) (\<lambda>registered.
     io_bind (managed_containers P (Some w)) (\<lambda>listed.
     io_then
       (io_for_each (\<lambda>(t, _). if t \<notin> set registered then terminate_managed P t else io_ok ()) listed)
       (io_bind (managed_containers P (Some w)) (\<lambda>listed.
          if list_ex (\<lambda>(t, _). t \<notin> set registered) listed then io_fail Rt_WorkspaceRecoveryFailed
          else io_ok ()))))"

definition container_terminal :: "('s, 'fd, 'pty) PodmanRuntime \<Rightarrow> string \<Rightarrow> uuid option" where
  "container_terminal P name =
     Option.bind (strip_prefix name ''gobrowse-'') (k_parse_uuid (host_kernel P))"

definition ensure_workspace_recovered :: "('w, 'pty, 'fd) podman_runtime \<Rightarrow> uuid \<Rightarrow> ('w, 'pty, unit) run" where
  "ensure_workspace_recovered P w =
     io_bind (recovery_records P) (\<lambda>records.
     io_then
       (case find (\<lambda>r. recovery_workspace r = w) records of
          None \<Rightarrow> io_ok ()
        | Some r \<Rightarrow>
            io_bind (io_lift (ok_or (those (map (container_terminal P) (recovery_containers r)))
                Rt_WorkspaceRecoveryFailed)) (\<lambda>terminal_ids.
              resume_workspace_owned P
                \<lparr>pause_workspace_id = w, pause_terminal_ids = terminal_ids,
                 pause_recovery_id = Some (recovery_operation r)\<rparr>))
       (remove_workspace_orphans P w))"

text \<open>What a daemon does when it starts: nothing of an earlier one goes on running.\<close>

definition attest_network :: "('w, 'pty, 'fd) podman_runtime \<Rightarrow> ('w, 'pty, unit) run" where
  "attest_network P =
     (case pc_restricted_network (config P) of
        None \<Rightarrow> io_ok ()
      | Some name \<Rightarrow>
          io_bind (get_host attestation) (\<lambda>cached.
            if cached \<noteq> None then io_ok ()
            else io_bind (attest_restricted_network P name) put_attestation))"

definition reconcile_recoveries :: "('w, 'pty, 'fd) podman_runtime \<Rightarrow> ('w, 'pty, unit) run" where
  "reconcile_recoveries P =
     io_then (attest_network P)
     (io_bind (on_journal reconcile_restart) (\<lambda>_.
      io_bind (recovery_records P) (\<lambda>records.
      io_bind (managed_containers P None) (\<lambda>managed.
      io_bind (io_fold (\<lambda>failed (t, _).
          io_bind (io_is_ok (terminate_managed P t)) (\<lambda>removed. io_ok (failed \<or> \<not> removed))) False managed)
        (\<lambda>removal_failed.
      io_bind (if removal_failed then io_ok False
               else io_bind (managed_containers P None) (\<lambda>left. io_ok (left = []))) (\<lambda>clean.
        if \<not> clean then io_fail Rt_WorkspaceRecoveryFailed
        else io_for_each (\<lambda>r. clear_recovery P (recovery_workspace r) (recovery_operation r)) records))))))"

subsection \<open>Pausing\<close>

definition pause_one :: "('s, 'fd, 'pty) PodmanRuntime \<Rightarrow> uuid \<Rightarrow> ('s, RuntimeError, bool) io" where
  "pause_one P t =
     io_bind (io_is_ok (run_checked P (pause_spec (codec P) (config P) t))) (\<lambda>ran.
       if \<not> ran then io_ok False
       else io_bind (io_try (inspect_paused P t)) (\<lambda>paused. io_ok (paused = Inr True)))"

fun pause_each ::
  "('s, 'fd, 'pty) PodmanRuntime \<Rightarrow> uuid \<Rightarrow> uuid \<Rightarrow> uuid list \<Rightarrow> uuid list \<Rightarrow> ('s, RuntimeError, WorkspacePause) io" where
  "pause_each P w recovery_id paused [] =
     io_ok \<lparr>pause_workspace_id = w, pause_terminal_ids = paused, pause_recovery_id = Some recovery_id\<rparr>"
| "pause_each P w recovery_id paused (t # ts) =
     io_bind (pause_one P t) (\<lambda>ok.
       if ok then pause_each P w recovery_id (paused @ [t]) ts
       else io_bind (io_is_ok (resume_workspace_owned P
              \<lparr>pause_workspace_id = w, pause_terminal_ids = paused, pause_recovery_id = Some recovery_id\<rparr>))
            (\<lambda>resumed. io_fail (if resumed then Rt_WorkspacePauseFailed else Rt_WorkspaceResumeFailed)))"

definition pause_workspace_owned :: "('w, 'pty, 'fd) podman_runtime \<Rightarrow> uuid \<Rightarrow> ('w, 'pty, WorkspacePause) run" where
  "pause_workspace_owned P w =
     io_then (ensure_workspace_recovered P w)
     (io_bind (managed_containers P (Some w)) (\<lambda>listed.
        let terminal_ids = map fst listed
        in if terminal_ids = []
           then io_ok \<lparr>pause_workspace_id = w, pause_terminal_ids = [], pause_recovery_id = None\<rparr>
           else io_bind (new_uuid P) (\<lambda>recovery_id.
             io_then
               (store (persist (host_kernel P) (volumes P)
                  \<lparr>recovery_workspace = w, recovery_operation = recovery_id,
                   recovery_containers = map (container_name (codec P)) terminal_ids\<rparr>))
               (pause_each P w recovery_id [] terminal_ids))))"

end
