(* ===== verification/Podman_Laws.thy ===== *)
theory Podman_Laws
  imports Podman_Recovery
begin

section \<open>What pausing, resuming and recovering promise\<close>

lemma gives_try: "triple P m Q R \<Longrightarrow> gives P (io_try m) (\<lambda>r s. case r of Inr x \<Rightarrow> Q x s | Inl e \<Rightarrow> R e s)"
  by (rule triple_try) simp

lemma gives_any: "gives P m (\<lambda>_ _. True)"
  by (simp add: triple_def split: prod.split sum.split)

lemma gives_map_err: "gives P m Q \<Longrightarrow> gives P (io_map_err f m) Q"
  by (rule triple_map_err)

lemma gives_and: "gives P m Q \<Longrightarrow> keeps R m \<Longrightarrow> gives (\<lambda>s. P s \<and> R s) m (\<lambda>x s. Q x s \<and> R s)"
  by (rule triple_weak [OF triple_with]) simp_all

subsection \<open>Nothing stays paused after a resume\<close>

text \<open>
  What the engine is relied on for a workspace: \<open>unpaused s t\<close> says that no container of the
  terminal is paused.  An inspection that prints \<open>false\<close> tells the truth, a container that is not
  listed does not exist, and no call but \<open>pause\<close> pauses one.
\<close>

definition resume_laws :: "('s, 'fd, 'pty) PodmanRuntime \<Rightarrow> uuid \<Rightarrow> ('s \<Rightarrow> uuid \<Rightarrow> bool) \<Rightarrow> bool" where
  "resume_laws P w unpaused \<longleftrightarrow>
     (\<forall>t. gives (\<lambda>_. True) (inspect_paused P t) (\<lambda>paused s. \<not> paused \<longrightarrow> unpaused s t))
     \<and> gives (\<lambda>_. True) (managed_containers P (Some w)) (\<lambda>listed s. \<forall>t. t \<notin> fst ` set listed \<longrightarrow> unpaused s t)
     \<and> (\<forall>t. (\<forall>u. keeps (\<lambda>s. unpaused s t) (inspect_paused P u)
             \<and> keeps (\<lambda>s. unpaused s t) (run_checked P (unpause_spec (codec P) (config P) u)))
          \<and> keeps (\<lambda>s. unpaused s t) (managed_containers P (Some w))
          \<and> (\<forall>operation. keeps (\<lambda>s. unpaused s t) (clear_recovery P w operation)))"

lemma resume_lawsD:
  assumes "resume_laws P w unpaused"
  shows "gives (\<lambda>_. True) (inspect_paused P t) (\<lambda>paused s. \<not> paused \<longrightarrow> unpaused s t)"
    "gives (\<lambda>_. True) (managed_containers P (Some w)) (\<lambda>listed s. \<forall>t. t \<notin> fst ` set listed \<longrightarrow> unpaused s t)"
    "keeps (\<lambda>s. unpaused s t) (inspect_paused P u)"
    "keeps (\<lambda>s. unpaused s t) (run_checked P (unpause_spec (codec P) (config P) u))"
    "keeps (\<lambda>s. unpaused s t) (managed_containers P (Some w))"
    "keeps (\<lambda>s. unpaused s t) (clear_recovery P w operation)"
  using assms unfolding resume_laws_def by blast+

lemma resume_one_gives:
  assumes L: "resume_laws P w unpaused"
  shows "gives (\<lambda>_. True) (resume_one P t) (\<lambda>failed s. \<not> failed \<longrightarrow> unpaused s t)"
proof -
  have asked: "gives (\<lambda>_. True) (io_try (inspect_paused P t)) (\<lambda>r s. r = Inr False \<longrightarrow> unpaused s t)"
    by (rule triple_conseq [OF gives_try [OF resume_lawsD(1) [OF L]]]) (auto split: sum.splits)
  show ?thesis
    unfolding resume_one_def
  proof (rule triple_bind [OF asked])
    fix r
    show "gives (\<lambda>s. r = Inr False \<longrightarrow> unpaused s t)
       (case r of Inl _ \<Rightarrow> io_ok True | Inr False \<Rightarrow> io_ok False
        | Inr True \<Rightarrow>
           io_bind (io_is_ok (run_checked P (unpause_spec (codec P) (config P) t))) (\<lambda>unpaused.
             if \<not> unpaused then io_ok True
             else io_bind (io_try (inspect_paused P t)) (\<lambda>paused. io_ok (paused \<noteq> Inr False))))
       (\<lambda>failed s. \<not> failed \<longrightarrow> unpaused s t)"
    proof (cases "r = Inr True")
      case True
      have again: "gives (\<lambda>_. True) (io_bind (io_try (inspect_paused P t)) (\<lambda>paused. io_ok (paused \<noteq> Inr False)))
          (\<lambda>failed s. \<not> failed \<longrightarrow> unpaused s t)"
        by (rule triple_bind [OF asked]) (auto simp: triple_def io_ok_def)
      have "gives (\<lambda>_. True) (if \<not> ok then io_ok True
             else io_bind (io_try (inspect_paused P t)) (\<lambda>paused. io_ok (paused \<noteq> Inr False)))
          (\<lambda>failed s. \<not> failed \<longrightarrow> unpaused s t)" for ok
        using again by (auto intro: triple_ok)
      from triple_bind [OF gives_any this] True show ?thesis by (auto intro: triple_pre)
    next
      case False
      then show ?thesis
        by (cases r) (auto simp: triple_def io_ok_def split: bool.splits)
    qed
  qed
qed

lemma resume_one_keeps: "resume_laws P w unpaused \<Longrightarrow> keeps (\<lambda>s. unpaused s x) (resume_one P t)"
  unfolding resume_one_def
  by (intro keeps_rules keeps_sum keeps_is_ok resume_lawsD) (auto split: bool.split intro!: keeps_rules resume_lawsD)

lemma keeps_all: "(\<And>x. x \<in> A \<Longrightarrow> keeps (\<lambda>s. Q s x) m) \<Longrightarrow> keeps (\<lambda>s. \<forall>x \<in> A. Q s x) m"
  by (auto simp: keeps_def)

lemma resume_pass_gives:
  assumes L: "resume_laws P w unpaused"
  shows "gives (\<lambda>s. \<forall>t. t \<notin> set listed \<longrightarrow> unpaused s t) (resume_pass P listed ts)
     (\<lambda>unresolved s. \<not> unresolved \<longrightarrow> (\<forall>t \<in> set ts. unpaused s t))"
proof -
  let ?step = "\<lambda>unresolved t. if t \<notin> set listed then io_ok unresolved
       else io_bind (resume_one P t) (\<lambda>failed. io_ok (unresolved \<or> failed))"
  let ?N = "\<lambda>s. \<forall>t \<in> - set listed. unpaused s t"
  let ?D = "\<lambda>D u s. \<not> u \<longrightarrow> (\<forall>t \<in> D. unpaused s t)"
  have step: "gives (\<lambda>s. ?N s \<and> ?D D u s) (?step u t) (\<lambda>u' s. ?N s \<and> ?D (insert t D) u' s)" for D u t
  proof (cases "t \<in> set listed")
    case True
    have kept: "keeps (\<lambda>s. ?N s \<and> ?D D u s) (resume_one P t)"
      by (cases u) (simp_all add: keeps_conj keeps_all resume_one_keeps [OF L])
    from gives_and [OF resume_one_gives [OF L, of t] kept]
    have "gives (\<lambda>s. ?N s \<and> ?D D u s) (resume_one P t)
       (\<lambda>failed s. (\<not> failed \<longrightarrow> unpaused s t) \<and> ?N s \<and> ?D D u s)" by simp
    from triple_bind [OF this, of "\<lambda>failed. io_ok (u \<or> failed)"] True show ?thesis
      by (simp add: triple_def io_ok_def)
  qed (auto simp: triple_def io_ok_def)
  have whole: "gives (\<lambda>s. ?N s \<and> ?D D u s) (io_fold ?step u ts) (\<lambda>u' s. ?N s \<and> ?D (D \<union> set ts) u' s)" for D u
  proof (induction ts arbitrary: D u)
    case (Cons t ts)
    show ?case
      using triple_bind [OF step Cons.IH [where D = "insert t D"]] by (simp add: insert_commute)
  qed (simp add: triple_ok)
  show ?thesis
    unfolding resume_pass_def by (rule triple_conseq [OF whole [where D = "{}"]]) auto
qed

lemma resume_gives:
  assumes L: "resume_laws P (pause_workspace_id p) unpaused"
  shows "gives (\<lambda>_. True) (resume_workspace_owned P p) (\<lambda>_ s. \<forall>t \<in> set (pause_terminal_ids p). unpaused s t)"
proof -
  let ?w = "pause_workspace_id p" and ?ids = "pause_terminal_ids p"
  have attempts: "gives (\<lambda>_. True) (resume_attempts P ?w ?ids rid n) (\<lambda>_ s. \<forall>t \<in> set ?ids. unpaused s t)" for rid n
  proof (induction n)
    case (Suc n)
    have pass: "gives (\<lambda>s. \<forall>t. t \<notin> fst ` set listed \<longrightarrow> unpaused s t) (resume_pass P (map fst listed) ?ids)
       (\<lambda>unresolved s. \<not> unresolved \<longrightarrow> (\<forall>t \<in> set ?ids. unpaused s t))" for listed
      using resume_pass_gives [OF L, of "map fst listed" ?ids] by simp
    have clear: "gives (\<lambda>s. \<forall>t \<in> set ?ids. unpaused s t) (clear_recovery P ?w rid)
       (\<lambda>_ s. \<forall>t \<in> set ?ids. unpaused s t)"
      by (rule gives_keeps [OF keeps_all]) (rule resume_lawsD(6) [OF L])
    have retry: "gives (\<lambda>_. True) (io_then m (resume_attempts P ?w ?ids rid n))
       (\<lambda>_ s. \<forall>t \<in> set ?ids. unpaused s t)" for m :: "('a, RuntimeError, unit) io"
      by (rule triple_then [OF gives_any Suc.IH])
    show ?case
      unfolding resume_attempts.simps
    proof (rule triple_bind [OF resume_lawsD(2) [OF L]], rule triple_bind [OF pass])
      fix unresolved
      show "gives (\<lambda>s. \<not> unresolved \<longrightarrow> (\<forall>t \<in> set ?ids. unpaused s t))
        (if \<not> unresolved then clear_recovery P ?w rid
         else io_then (if 0 < n then sleep P CLEANUP_RETRY_INTERVAL else io_ok ())
                (resume_attempts P ?w ?ids rid n)) (\<lambda>_ s. \<forall>t \<in> set ?ids. unpaused s t)"
        using clear retry by (cases unresolved) simp_all
    qed
  qed (simp add: triple_def io_fail_def)
  show ?thesis
    unfolding resume_workspace_owned_def
    by (cases "pause_recovery_id p")
       (use attempts in \<open>auto simp: triple_def io_ok_def io_fail_def\<close>)
qed

text \<open>
  Property C18: a resume that succeeds leaves no container of the pause paused, whichever of the
  three attempts it was that succeeded.
\<close>

theorem resume_leaves_nothing_paused:
  assumes "resume_laws P (pause_workspace_id p) unpaused"
    and "resume_workspace_owned P p s = (Inr (), s')" and "t \<in> set (pause_terminal_ids p)"
  shows "unpaused s' t"
  using tripleD(1) [OF resume_gives [OF assms(1)] _ assms(2)] assms(3) by simp

subsection \<open>A pause that fails half-way\<close>

lemma resume_attempts_end:
  "resume_attempts P w ids rid n s = (Inr (), t) \<Longrightarrow> \<exists>u. clear_recovery P w rid u = (Inr (), t)"
proof (induction n arbitrary: s)
  case (Suc n)
  then show ?case
    by (auto simp: io_bind_Inr io_then_def split: if_splits)
qed (simp add: io_fail_def)

text \<open>
  Property C25: a container whose pause was carried out but could not be confirmed stays paused.
  The operation fails with \<open>WorkspacePauseFailed\<close>, the error for a workspace that runs again, and
  its last act is to clear the record that names the container; when an earlier container of
  the workspace had been paused, only the earlier ones are resumed.  The premises say that
  no call but its own \<open>unpause\<close> resumes the container.
\<close>

theorem failed_pause_strands_container:
  assumes stays: "keeps stuck (managed_containers P (Some w))" "\<And>u. keeps stuck (inspect_paused P u)"
      "\<And>u. u \<noteq> b \<Longrightarrow> keeps stuck (run_checked P (unpause_spec (codec P) (config P) u))"
      "keeps stuck (clear_recovery P w rid)" "\<And>d. keeps stuck (sleep P d :: ('s, RuntimeError, unit) io)"
    and paused: "pause_one P b s = (Inr False, s1)" "stuck s1" and before: "earlier \<noteq> []" "b \<notin> set earlier"
    and run: "pause_each P w rid earlier (b # later) s = (Inl Rt_WorkspacePauseFailed, t)"
  shows "stuck t \<and> (\<exists>u. clear_recovery P w rid u = (Inr (), t))"
proof -
  let ?p = "\<lparr>pause_workspace_id = w, pause_terminal_ids = earlier, pause_recovery_id = Some rid\<rparr>"
  have "resume_workspace_owned P ?p s1 = (Inr (), t)"
  proof (cases "resume_workspace_owned P ?p s1")
    case (Pair a u)
    with run paused(1) show ?thesis
      by (cases a) (auto simp: io_bind_def io_is_ok_def io_fail_def)
  qed
  then have attempts: "resume_attempts P w earlier rid 3 s1 = (Inr (), t)"
    using before(1) by (simp add: resume_workspace_owned_def)
  have one: "keeps stuck (resume_one P u)" if "u \<noteq> b" for u
    unfolding resume_one_def
    by (intro keeps_rules keeps_sum keeps_is_ok stays(2))
       (auto split: bool.split intro!: keeps_rules stays(2) stays(3) [OF that])
  have pass: "keeps stuck (resume_pass P listed earlier)" for listed
    unfolding resume_pass_def
  proof (rule keeps_fold)
    fix u x assume "x \<in> set earlier"
    with before(2) have "keeps stuck (resume_one P x)" by (intro one) blast
    then show "keeps stuck (if x \<notin> set listed then io_ok u
        else io_bind (resume_one P x) (\<lambda>failed. io_ok (u \<or> failed)))"
      by (auto intro!: keeps_rules)
  qed
  have "keeps stuck (resume_attempts P w earlier rid n)" for n
    by (induction n) (auto intro!: keeps_rules stays pass)
  from keepsD [OF this paused(2), of 3] attempts have "stuck t" by simp
  with resume_attempts_end [OF attempts] show ?thesis by simp
qed

subsection \<open>What a restart leaves\<close>

definition settled :: "('w, 'pty, 'fd) podman_runtime \<Rightarrow> ('w, 'pty) host_state \<Rightarrow> bool" where
  "settled P s \<longleftrightarrow>
     (\<forall>(t, row) \<in> set (terminals (fst s)). \<not> live_state (row_state row))
     \<and> (pc_restricted_network (config P) \<noteq> None \<longrightarrow> attestation (snd s) \<noteq> None)"

definition restart_laws ::
  "('w, 'pty, 'fd) podman_runtime \<Rightarrow> (('w, 'pty) host_state \<Rightarrow> bool) \<Rightarrow> bool" where
  "restart_laws P none_left \<longleftrightarrow>
     gives (\<lambda>_. True) (managed_containers P None) (\<lambda>listed s. listed = [] \<longrightarrow> none_left s)
     \<and> (\<forall>w operation. keeps none_left (clear_recovery P w operation))
     \<and> keeps (settled P) (managed_containers P None) \<and> keeps (settled P) (recovery_records P)
     \<and> (\<forall>t. keeps (settled P) (terminate_managed P t))
     \<and> (\<forall>w operation. keeps (settled P) (clear_recovery P w operation))"

lemma restart_lawsD:
  assumes "restart_laws P none_left"
  shows "gives (\<lambda>_. True) (managed_containers P None) (\<lambda>listed s. listed = [] \<longrightarrow> none_left s)"
    "keeps none_left (clear_recovery P w operation)"
    "keeps (settled P) (managed_containers P None)" "keeps (settled P) (recovery_records P)"
    "keeps (settled P) (terminate_managed P t)" "keeps (settled P) (clear_recovery P w operation)"
  using assms unfolding restart_laws_def by blast+

lemma journal_settles:
  "gives (\<lambda>s. pc_restricted_network (config P) \<noteq> None \<longrightarrow> attestation (snd s) \<noteq> None)
     (on_journal reconcile_restart) (\<lambda>_. settled P)"
proof -
  have "\<not> live_state (row_state (lose_terminal row))" for row
    by (simp add: lose_terminal_def live_state_def)
  then show ?thesis
    by (auto simp: triple_def on_journal_def reconcile_restart_def settled_def)
qed

lemma attest_gives:
  "gives (\<lambda>_. True) (attest_network P)
     (\<lambda>_ s. pc_restricted_network (config P) \<noteq> None \<longrightarrow> attestation (snd s) \<noteq> None)"
  by (auto simp: triple_def attest_network_def io_bind_def get_host_def put_attestation_def io_ok_def
      split: option.split prod.split sum.split)

text \<open>
  Property C17: a daemon that starts leaves nothing of an earlier one.  When the reconciliation
  succeeds, no managed container exists, no terminal of the journal counts as running, and a
  restricted network, when one is configured, has been attested.
\<close>

theorem restart_leaves_nothing_running:
  assumes L: "restart_laws P none_left" and run: "reconcile_recoveries P s = (Inr (), t)"
  shows "none_left t \<and> settled P t"
proof -
  let ?S = "settled P"
  let ?SN = "\<lambda>s. none_left s \<and> settled P s"
  note D = restart_lawsD [OF L]
  have listed: "gives ?S (managed_containers P None) (\<lambda>l s. (l = [] \<longrightarrow> none_left s) \<and> ?S s)"
    by (rule triple_pre [OF gives_and [OF D(1) D(3)]]) simp
  have removal: "keeps ?S (io_fold (\<lambda>failed (t, _).
      io_bind (io_is_ok (terminate_managed P t)) (\<lambda>removed. io_ok (failed \<or> \<not> removed))) False managed)" for managed
    by (intro keeps_rules D)
  have clean: "gives ?S (if failed then io_ok False
      else io_bind (managed_containers P None) (\<lambda>left. io_ok (left = []))) (\<lambda>c s. (c \<longrightarrow> none_left s) \<and> ?S s)" for failed
    using triple_bind [OF listed, of "\<lambda>left. io_ok (left = [])"] by (simp add: triple_def io_ok_def)
  have cleared: "keeps ?SN (io_for_each (\<lambda>r. clear_recovery P (recovery_workspace r) (recovery_operation r)) records)"
    for records by (intro keeps_for_each keeps_conj D)
  have final: "gives (\<lambda>s. (c \<longrightarrow> none_left s) \<and> ?S s) (if \<not> c then io_fail Rt_WorkspaceRecoveryFailed
      else io_for_each (\<lambda>r. clear_recovery P (recovery_workspace r) (recovery_operation r)) records) (\<lambda>_. ?SN)"
    for c records
    using gives_keeps [OF cleared [of records]] by (cases c) (simp_all add: triple_def io_fail_def)
  have "gives (\<lambda>_. True) (reconcile_recoveries P) (\<lambda>_. ?SN)"
    unfolding reconcile_recoveries_def
    by (rule triple_then [OF attest_gives], rule triple_bind [OF journal_settles],
        rule triple_bind [OF gives_keeps [OF D(4)]], rule triple_bind [OF gives_keeps [OF D(3)]],
        rule triple_bind [OF gives_keeps [OF removal]], rule triple_bind [OF clean final])
  from tripleD(1) [OF this _ run] show ?thesis by simp
qed

lemma pause_each_names:
  "pause_each P w rid before ts s = (Inr p, t) \<Longrightarrow> pause_workspace_id p = w"
proof (induction ts arbitrary: before s)
  case (Cons x xs)
  then show ?case
    by (auto simp: io_bind_Inr io_fail_def split: if_splits)
qed (auto simp: io_ok_def)

lemma pause_names_workspace:
  "pause_workspace_owned P w s = (Inr p, t) \<Longrightarrow> pause_workspace_id p = w"
  by (auto simp: pause_workspace_owned_def io_then_def io_bind_Inr Let_def io_ok_def split: if_splits
      dest: pause_each_names)

end
