(* ===== verification/Podman_Sessions.thy ===== *)
theory Podman_Sessions
  imports Podman_Recovery
begin

section \<open>Terminal sessions of the container runtime\<close>

text \<open>
  The terminal operations of \<open>PodmanRuntime\<close> in \<open>runtime.rs\<close>, and the tasks they spawn: the one
  that drains the output, the one that waits for the container, the timeout and the persistent
  cleanup.  A session is shared with the registry (an \<open>Arc\<close>), so it is looked up again at every
  use.  One that the registry has dropped is seen as it was when the operation found it: a snapshot,
  where the code reads the live \<open>Arc\<close>, which other tasks that hold it may still change.
\<close>

definition current_session :: "Session \<Rightarrow> Registry \<Rightarrow> Session" where
  "current_session s0 r =
     (case map_of (sessions r) (session_terminal_id s0) of None \<Rightarrow> s0 | Some s \<Rightarrow> s)"

definition session_of :: "uuid \<Rightarrow> ('w, 'pty, Session) run" where
  "session_of t = io_bind (get_host (\<lambda>h. map_of (sessions (registry h)) t)) (\<lambda>s. io_lift (ok_or s Rt_NotFound))"

definition lifecycle_of :: "Session \<Rightarrow> ('w, 'pty, LifecycleState) run" where
  "lifecycle_of s0 = get_host (\<lambda>h. lifecycle (current_session s0 (registry h)))"

text \<open>An operation on the shared session.\<close>

definition on_session :: "Session \<Rightarrow> (Session \<Rightarrow> bool \<times> Session) \<Rightarrow> ('w, 'pty, bool) run" where
  "on_session s0 f =
     on_registry (\<lambda>r.
       case f (current_session s0 r) of (b, s) \<Rightarrow>
         (Inr b, if map_of (sessions r) (session_terminal_id s0) = None then r
                 else r\<lparr>sessions := set_entry (session_terminal_id s0) s (sessions r)\<rparr>))"

definition journal_state ::
  "uuid \<Rightarrow> TerminalState \<Rightarrow> int option \<Rightarrow> string \<Rightarrow> bool option \<Rightarrow> ('w, 'pty, unit) run" where
  "journal_state t state code reason finished =
     io_ignore (on_journal (\<lambda>j. set_state j t state code (Some reason) finished))"

definition journal_record :: "uuid \<Rightarrow> ('w, 'pty, TerminalRecord) run" where
  "journal_record t = on_journal (\<lambda>j. (inspect j t, j))"

definition exited_normally :: "uuid \<Rightarrow> ('w, 'pty, bool) run" where
  "exited_normally t =
     io_bind (io_try (journal_record t)) (\<lambda>r.
       io_ok (case r of Inl _ \<Rightarrow> False | Inr record \<Rightarrow> rec_state record = TS_Exited))"

definition pty_of :: "uuid \<Rightarrow> ('w, 'pty, 'pty option) run" where
  "pty_of t = get_host (\<lambda>h. map_of (ptys h) t)"

definition change_ptys :: "((uuid \<times> 'pty) list \<Rightarrow> (uuid \<times> 'pty) list) \<Rightarrow> ('w, 'pty, unit) run" where
  "change_ptys f s = (Inr (), (fst s, (snd s)\<lparr>ptys := f (ptys (snd s))\<rparr>))"

subsection \<open>Cleanup\<close>

text \<open>One attempt; the claim makes two cleanups exclude each other, and is dropped at the end.\<close>

definition cleanup_attempt :: "('w, 'pty, 'fd) podman_runtime \<Rightarrow> Session \<Rightarrow> ('w, 'pty, unit) run" where
  "cleanup_attempt P s0 =
     (let t = session_terminal_id s0
      in io_bind (lifecycle_of s0) (\<lambda>l.
         if lifecycle_is_terminal l then io_ok ()
         else io_bind (on_session s0 claim_termination) (\<lambda>claimed.
           if \<not> claimed then io_ok ()
           else io_then
             (io_bind (lifecycle_of s0) (\<lambda>l.
                if lifecycle_is_terminal l then io_ok ()
                else io_bind (io_is_ok (run_checked P (terminate_spec (codec P) (config P) t))) (\<lambda>stopped.
                  if stopped then io_ok ()
                  else io_ignore (run_checked P (force_removal_spec (codec P) (config P) t)))))
             (io_bind (on_session s0 (\<lambda>s. (True, drop_claim s))) (\<lambda>_. io_ok ())))))"

text \<open>
  The loop of \<open>cleanup_until\<close>: the rounds that fit before the deadline, each an attempt and a
  wait of at most \<open>CLEANUP_RETRY_INTERVAL\<close>.
\<close>

primrec cleanup_rounds :: "('w, 'pty, 'fd) podman_runtime \<Rightarrow> Session \<Rightarrow> nat \<Rightarrow> ('w, 'pty, bool) run" where
  "cleanup_rounds P s0 0 =
     io_bind (lifecycle_of s0) (\<lambda>l.
       if lifecycle_is_terminal l then io_ok True
       else io_then (io_bind (on_session s0 (session_transition LS_Unrecoverable)) (\<lambda>_. io_ok ()))
         (io_then (journal_state (session_terminal_id s0) TS_Unrecoverable None
            ''force_cleanup_deadline_exceeded'' None)
            (io_ok False)))"
| "cleanup_rounds P s0 (Suc n) =
     io_bind (lifecycle_of s0) (\<lambda>l.
       if lifecycle_is_terminal l then io_ok True
       else io_then (cleanup_attempt P s0)
         (io_then (sleep P CLEANUP_RETRY_INTERVAL) (cleanup_rounds P s0 n)))"

definition cleanup_until :: "('w, 'pty, 'fd) podman_runtime \<Rightarrow> Session \<Rightarrow> ('w, 'pty, bool) run" where
  "cleanup_until P s0 =
     (let t = session_terminal_id s0
      in io_bind (on_session s0 begin_termination) (\<lambda>begun.
         if \<not> begun then io_ok True
         else io_then (journal_state t TS_Terminating None ''termination_requested'' None)
           (io_bind (pty_of t) (\<lambda>pty.
            io_then
              (case pty of None \<Rightarrow> io_ok ()
               | Some pty \<Rightarrow> io_ignore (en_pty_write P pty [CHR 0x03]))
              (\<lambda>s. cleanup_rounds P s0 (en_rounds P s (pc_termination_timeout (config P))) s)))))"

definition spawn_persistent_cleanup :: "Session \<Rightarrow> ('w, 'pty, unit) run" where
  "spawn_persistent_cleanup s0 = io_bind (on_session s0 start_background) (\<lambda>_. io_ok ())"

text \<open>The task it spawns, for the rounds it gets; and the task of the execution timeout.\<close>

primrec persistent_cleanup :: "('w, 'pty, 'fd) podman_runtime \<Rightarrow> Session \<Rightarrow> nat \<Rightarrow> ('w, 'pty, unit) run" where
  "persistent_cleanup P s0 0 = io_ok ()"
| "persistent_cleanup P s0 (Suc n) =
     io_bind (lifecycle_of s0) (\<lambda>l.
       if lifecycle_is_terminal l
       then io_bind (on_session s0 (\<lambda>s. (True, drop_background s))) (\<lambda>_. io_ok ())
       else io_then (cleanup_attempt P s0)
         (io_then (sleep P CLEANUP_RETRY_INTERVAL) (persistent_cleanup P s0 n)))"

definition timeout_task :: "('w, 'pty, 'fd) podman_runtime \<Rightarrow> Session \<Rightarrow> nat \<Rightarrow> ('w, 'pty, unit) run" where
  "timeout_task P s0 timeout =
     io_then (sleep P timeout)
     (io_bind (cleanup_until P s0) (\<lambda>cleaned.
        if cleaned then io_ok () else spawn_persistent_cleanup s0))"

text \<open>What the drop of the guard of a start does, when the start was cancelled.\<close>

definition cancelled_start :: "Session \<Rightarrow> ('w, 'pty, unit) run" where
  "cancelled_start s0 =
     io_bind (lifecycle_of s0) (\<lambda>l.
       if lifecycle_is_terminal l then io_ok ()
       else io_then (io_bind (on_session s0 begin_termination) (\<lambda>_. io_ok ())) (spawn_persistent_cleanup s0))"

subsection \<open>The tasks of a session\<close>

datatype OutputDrain = Drain_Complete | Drain_Failed string

text \<open>What the reads of the terminal give: bytes, or an error number; the end of the list is the end.\<close>

fun drain_pty_output :: "uuid \<Rightarrow> (nat option + string) list \<Rightarrow> ('w, 'pty, OutputDrain) run" where
  "drain_pty_output t [] = io_ok Drain_Complete"
| "drain_pty_output t (Inl e # reads) =
     io_ok (if e = Some 5 then Drain_Complete else Drain_Failed ''pty_output_failed'')"
| "drain_pty_output t (Inr bytes # reads) =
     io_bind (io_try (on_journal (\<lambda>j. append_output j t bytes))) (\<lambda>r.
       case r of
         Inr accepted \<Rightarrow>
           if accepted = length bytes then drain_pty_output t reads
           else io_ok (Drain_Failed ''terminal_output_limit_exceeded'')
       | Inl _ \<Rightarrow> io_ok (Drain_Failed ''terminal_output_journal_failed''))"

definition record_output_failure :: "Session \<Rightarrow> string \<Rightarrow> ('w, 'pty, unit) run" where
  "record_output_failure s0 reason =
     (let t = session_terminal_id s0
      in io_bind (io_try (journal_record t)) (\<lambda>r.
         io_bind (lifecycle_of s0) (\<lambda>l.
           journal_state t (terminal_state l)
             (case r of Inl _ \<Rightarrow> None | Inr record \<Rightarrow> rec_exit_code record) reason (Some False))))"

definition output_task :: "Session \<Rightarrow> (nat option + string) list \<Rightarrow> ('w, 'pty, OutputDrain) run" where
  "output_task s0 reads =
     io_bind (drain_pty_output (session_terminal_id s0) reads) (\<lambda>result.
     io_then
       (case result of
          Drain_Complete \<Rightarrow> io_ok ()
        | Drain_Failed reason \<Rightarrow>
            io_then (io_bind (on_session s0 begin_termination) (\<lambda>_. io_ok ()))
              (io_then (spawn_persistent_cleanup s0) (record_output_failure s0 reason)))
       (io_ok result))"

text \<open>An exit status has an exit code, or a signal, or neither.\<close>

record ExitStatus =
  exit_code :: "int option"
  exit_signal :: "int option"

definition decimal_int :: "int \<Rightarrow> string" where
  "decimal_int i = (if i < 0 then CHR ''-'' # decimal (nat (- i)) else decimal (nat i))"

definition exit_description :: "ExitStatus option \<Rightarrow> LifecycleState \<Rightarrow> int option \<times> string" where
  "exit_description status state =
     (if state = LS_Terminated then (Option.bind status exit_code, ''terminated'')
      else case status of
        None \<Rightarrow> (None, ''wait_failed'')
      | Some st \<Rightarrow>
          (case exit_code st of
             Some c \<Rightarrow> (Some c, ''exit_status_'' @ decimal_int c)
           | None \<Rightarrow>
               (case exit_signal st of
                  Some n \<Rightarrow> (None, ''exit_signal_'' @ decimal_int n)
                | None \<Rightarrow> (None, ''exited''))))"

text \<open>
  The task that waits for the container: \<open>status\<close> is what waiting gives, \<open>joined\<close> what the output
  task returned, if it did not panic.
\<close>

definition monitor ::
  "('w, 'pty, 'fd) podman_runtime \<Rightarrow> Session \<Rightarrow> ExitStatus option \<Rightarrow> OutputDrain option \<Rightarrow> ('w, 'pty, unit) run" where
  "monitor P s0 status joined =
     (let t = session_terminal_id s0
      in io_then (change_ptys (remove_key t))
        (io_then
          (case joined of Some _ \<Rightarrow> io_ok ()
           | None \<Rightarrow> io_bind (lifecycle_of s0) (\<lambda>l.
               journal_state t (terminal_state l) None ''pty_output_task_failed'' (Some False)))
        (io_then (io_ignore (run_checked P (force_removal_spec (codec P) (config P) t)))
        (io_bind (get_host (\<lambda>h. termination_requested (current_session s0 (registry h)))) (\<lambda>requested.
           let drained = (case joined of Some d \<Rightarrow> d | None \<Rightarrow> Drain_Failed ''pty_output_task_failed'');
               final = (if requested then LS_Terminated else LS_Exited);
               (code, exit_reason) = exit_description status final;
               reason = (case drained of Drain_Complete \<Rightarrow> exit_reason | Drain_Failed r \<Rightarrow> r)
           in io_then (journal_state t (terminal_state final) code reason
                (case drained of Drain_Complete \<Rightarrow> None | Drain_Failed _ \<Rightarrow> Some False))
              (io_then (change_registry (registry_complete t (pc_session_limits (config P))))
                 (io_bind (on_session s0 (session_transition final)) (\<lambda>_. io_ok ()))))))))"

subsection \<open>Starting\<close>

definition start_fingerprint :: "('s, 'fd, 'pty) PodmanRuntime \<Rightarrow> ValidatedStart \<Rightarrow> RuntimeError + fingerprint" where
  "start_fingerprint P start =
     and_then (ok_or (en_encode_request P (vs_request start)) Rt_InvalidConfiguration) (\<lambda>encoded.
       Inr (en_digest P (encoded @ vs_network_name start)))"

text \<open>The rounds that fit before the readiness timer; each inspects the container once.\<close>

primrec readiness_rounds :: "('w, 'pty, 'fd) podman_runtime \<Rightarrow> Session \<Rightarrow> nat \<Rightarrow> ('w, 'pty, unit) run" where
  "readiness_rounds P s0 0 = io_fail Rt_ReadinessFailed"
| "readiness_rounds P s0 (Suc n) =
     (let t = session_terminal_id s0
      in io_bind (lifecycle_of s0) (\<lambda>l.
         if lifecycle_is_terminal l
         then io_bind (exited_normally t) (\<lambda>exited. if exited then io_ok () else io_fail Rt_ReadinessFailed)
         else io_bind (io_try (inspect_ready P t)) (\<lambda>ready.
           case ready of
             Inr True \<Rightarrow>
               io_bind (lifecycle_of s0) (\<lambda>l.
               io_bind (exited_normally t) (\<lambda>exited.
                 if l = LS_Starting \<or> exited then io_ok () else io_fail Rt_ReadinessFailed))
           | Inl e \<Rightarrow>
               if e = Rt_PodmanFailed
               then io_then (sleep P CLEANUP_RETRY_INTERVAL) (readiness_rounds P s0 n)
               else io_fail e
           | Inr False \<Rightarrow> io_then (sleep P CLEANUP_RETRY_INTERVAL) (readiness_rounds P s0 n))))"

definition await_readiness :: "('w, 'pty, 'fd) podman_runtime \<Rightarrow> Session \<Rightarrow> ('w, 'pty, unit) run" where
  "await_readiness P s0 s = readiness_rounds P s0 (en_rounds P s (pc_readiness_timeout (config P))) s"

end
