(* ===== verification/Podman_Terminals.thy ===== *)
theory Podman_Terminals
  imports Podman_Sessions
begin

section \<open>The terminal operations\<close>

text \<open>
  \<open>start\<close>, \<open>input\<close> and the other operations of \<open>SandboxRuntime\<close> for \<open>PodmanRuntime\<close>.  The tasks
  that \<open>start\<close> spawns (\<open>output_task\<close>, \<open>monitor\<close>, \<open>timeout_task\<close>) run on their own; what they do while
  the operation awaits the engine is part of the effect of the engine's calls.
\<close>

text \<open>A start that fails before the container is spawned gives its reservation back.\<close>

definition cancel_start :: "Session \<Rightarrow> string \<Rightarrow> RuntimeError \<Rightarrow> ('w, 'pty, 'a) run" where
  "cancel_start s0 reason e =
     io_then (change_registry (cancel_reservation (session_terminal_id s0)))
       (io_then (journal_state (session_terminal_id s0) TS_Terminated None reason (Some False)) (io_fail e))"

definition open_terminal ::
  "('w, 'pty, 'fd) podman_runtime \<Rightarrow> ValidatedStart \<Rightarrow> ProcessSpec \<Rightarrow> Session \<Rightarrow> ('w, 'pty, unit) run" where
  "open_terminal P start spec s0 =
     (let request = vs_request start; failed = cancel_start s0
      in io_bind (io_try (en_pty_open P)) (\<lambda>opened.
         case opened of
           Inl _ \<Rightarrow> failed ''pty_open_failed'' Rt_Pty
         | Inr pty \<Rightarrow>
             io_bind (io_try (io_then (en_pty_raw P pty) (en_pty_resize P pty (req_rows request) (req_cols request))))
               (\<lambda>ready.
               case ready of
                 Inl _ \<Rightarrow> failed ''pty_initialization_failed'' Rt_Pty
               | Inr _ \<Rightarrow>
                   io_bind (io_try (en_spawn P
                       (spec_pty_command spec (pc_home (config P)) (pc_runtime_dir (config P))) pty)) (\<lambda>spawned.
                     case spawned of
                       Inl _ \<Rightarrow> failed ''spawn_failed'' Rt_Pty
                     | Inr _ \<Rightarrow> change_ptys (table_insert (session_terminal_id s0) pty)))))"

text \<open>
  What follows readiness: a command that has already ended is left to its monitor; otherwise the
  container gets its size.  When that fails the code waits up to a second for the session to end.
\<close>

definition initialize ::
  "('w, 'pty, 'fd) podman_runtime \<Rightarrow> ValidatedStart \<Rightarrow> Session \<Rightarrow> ('w, 'pty, unit) run" where
  "initialize P start s0 =
     (let t = session_terminal_id s0; request = vs_request start
      in io_then (await_readiness P s0)
         (io_bind (lifecycle_of s0) (\<lambda>l.
          io_bind (exited_normally t) (\<lambda>exited.
            if lifecycle_is_terminal l \<or> exited then io_ok ()
            else io_bind (io_is_ok (run_checked P
                   (resize_spec (codec P) (config P) t (req_cols request) (req_rows request)))) (\<lambda>resized.
              if resized
              then io_bind (on_session s0 (session_transition LS_Running)) (\<lambda>moved.
                     if moved then io_ok () else io_fail Rt_ReadinessFailed)
              else io_then (sleep P (10 ^ 9))
                (io_bind (exited_normally t) (\<lambda>exited.
                   if exited then io_ok () else io_fail Rt_PodmanFailed)))))))"

text \<open>A start that fails after the spawn: the container is cleaned up, the session forgotten.\<close>

definition abandon_start :: "('w, 'pty, 'fd) podman_runtime \<Rightarrow> Session \<Rightarrow> RuntimeError \<Rightarrow> ('w, 'pty, unit) run" where
  "abandon_start P s0 e =
     (let t = session_terminal_id s0
      in io_bind (cleanup_until P s0) (\<lambda>cleaned.
         io_then (if cleaned then change_registry (remove_completed t) else spawn_persistent_cleanup s0)
         (io_bind (io_try (journal_record t)) (\<lambda>existing.
            let reason = (case existing of
                  Inl _ \<Rightarrow> None
                | Inr record \<Rightarrow> if rec_output_complete record then None else rec_reason record)
            in io_then (journal_state t TS_Terminated None
                  (case reason of None \<Rightarrow> ''start_readiness_failed'' | Some r \<Rightarrow> r) (Some False))
                 (io_fail e)))))"

text \<open>From the reservation on.  When the journal cannot be told, the guard of the start fires.\<close>

definition launch ::
  "('w, 'pty, 'fd) podman_runtime \<Rightarrow> ValidatedStart \<Rightarrow> ProcessSpec \<Rightarrow> ('w, 'pty, unit) run" where
  "launch P start spec =
     (let t = vs_terminal_id start; s0 = new_session t (req_workspace_id (vs_request start))
      in io_bind (io_try (on_registry (registry_reserve s0 (pc_session_limits (config P))))) (\<lambda>reserved.
         case reserved of
           Inl e \<Rightarrow> io_then (journal_state t TS_Terminated None ''session_reservation_failed'' (Some False)) (io_fail e)
         | Inr _ \<Rightarrow>
             io_then (open_terminal P start spec s0)
             (io_bind (io_try (initialize P start s0)) (\<lambda>initialized.
               case initialized of
                 Inl e \<Rightarrow> abandon_start P s0 e
               | Inr _ \<Rightarrow>
                   io_catch (on_journal (\<lambda>j. set_running j t))
                     (\<lambda>e. io_then (cancelled_start s0) (io_fail e))))))"

definition podman_start :: "('w, 'pty, 'fd) podman_runtime \<Rightarrow> ValidatedStart \<Rightarrow> ('w, 'pty, unit) run" where
  "podman_start P start =
     (let t = vs_terminal_id start; request = vs_request start; w = req_workspace_id request
      in io_then (ensure_workspace_recovered P w)
         (io_bind (get_host attestation) (\<lambda>attested.
          io_bind (io_lift (start_spec (codec P) (config P) attested start)) (\<lambda>spec.
          io_then (verify_workspace_volume P start)
          (io_bind (io_lift (start_fingerprint P start)) (\<lambda>fingerprint.
           io_bind (on_journal (\<lambda>j. begin_start j t w fingerprint (req_cols request) (req_rows request)))
             (\<lambda>decision.
             case decision of
               Start_Existing \<Rightarrow>
                 io_bind (get_host (\<lambda>h. map_of (sessions (registry h)) t)) (\<lambda>found.
                   case found of
                     Some s \<Rightarrow> if session_workspace_id s = w \<and> lifecycle s = LS_Running then io_ok ()
                               else io_fail Rt_Conflict
                   | None \<Rightarrow> io_fail Rt_Conflict)
             | Start_Execute \<Rightarrow> launch P start spec)))))))"

subsection \<open>Running terminals\<close>

definition running_session :: "uuid \<Rightarrow> ('w, 'pty, Session) run" where
  "running_session t =
     io_bind (session_of t) (\<lambda>s.
       if lifecycle s \<noteq> LS_Running then io_fail Rt_NotRunning else io_ok s)"

definition mark_unknown :: "uuid \<Rightarrow> uuid \<Rightarrow> RuntimeError \<Rightarrow> ('w, 'pty, 'a) run" where
  "mark_unknown t input_id e =
     io_then (io_ignore (on_journal (\<lambda>j. mark_input_unknown j t input_id))) (io_fail e)"

text \<open>The write of an input that the journal has granted.\<close>

definition apply_input ::
  "('w, 'pty, 'fd) podman_runtime \<Rightarrow> Session \<Rightarrow> uuid \<Rightarrow> string \<Rightarrow> ('w, 'pty, InputOutcome) run" where
  "apply_input P s0 input_id bytes =
     (let t = session_terminal_id s0; unknown = mark_unknown t input_id
      in io_bind (lifecycle_of s0) (\<lambda>l.
         if l \<noteq> LS_Running then unknown Rt_NotRunning
         else io_bind (pty_of t) (\<lambda>pty.
           case pty of
             None \<Rightarrow> unknown Rt_OutcomeUnknown
           | Some pty \<Rightarrow>
               io_bind (io_try (en_pty_write P pty bytes)) (\<lambda>written.
                 case written of
                   Inl _ \<Rightarrow> unknown Rt_OutcomeUnknown
                 | Inr _ \<Rightarrow>
                     io_bind (io_is_ok (on_journal (\<lambda>j. complete_input j t input_id (length bytes)))) (\<lambda>completed.
                       if \<not> completed then unknown Rt_OutcomeUnknown
                       else io_ok \<lparr>outcome_bytes = length bytes, outcome_replayed = False\<rparr>)))))"

definition podman_input ::
  "('w, 'pty, 'fd) podman_runtime \<Rightarrow> uuid \<Rightarrow> uuid \<Rightarrow> string \<Rightarrow> ('w, 'pty, InputOutcome) run" where
  "podman_input P t input_id bytes =
     io_bind (running_session t) (\<lambda>s0.
     io_bind (on_journal (\<lambda>j. begin_input j t input_id (en_digest P bytes))) (\<lambda>decision.
       case decision of
         Input_Applied n \<Rightarrow> io_ok \<lparr>outcome_bytes = n, outcome_replayed = True\<rparr>
       | Input_Execute \<Rightarrow> apply_input P s0 input_id bytes))"

definition read_now :: "uuid \<Rightarrow> nat \<Rightarrow> nat \<Rightarrow> ('w, 'pty, OutputRead) run" where
  "read_now t after_cursor max_bytes = on_journal (\<lambda>j. (read_output j t after_cursor max_bytes, j))"

text \<open>
  A read that finds nothing waits for a notification, at most for \<open>wait\<close>; the other tasks run
  then.  It looks a second time first, so that no notification is missed.
\<close>

definition podman_read_output ::
  "('w, 'pty, 'fd) podman_runtime \<Rightarrow> uuid \<Rightarrow> nat \<Rightarrow> nat \<Rightarrow> nat \<Rightarrow> ('w, 'pty, OutputRead) run" where
  "podman_read_output P t after_cursor max_bytes wait =
     io_bind (read_now t after_cursor max_bytes) (\<lambda>first.
       if read_bytes first \<noteq> [] \<or> rec_state (read_record first) \<noteq> TS_Running \<or> wait = 0 then io_ok first
       else io_bind (io_try (session_of t)) (\<lambda>s.
         case s of
           Inl _ \<Rightarrow> io_ok first
         | Inr _ \<Rightarrow>
             io_bind (read_now t after_cursor max_bytes) (\<lambda>second.
               if read_bytes second \<noteq> [] \<or> rec_state (read_record second) \<noteq> TS_Running then io_ok second
               else io_then (sleep P wait) (read_now t after_cursor max_bytes))))"

definition podman_ack_output :: "uuid \<Rightarrow> nat \<Rightarrow> ('w, 'pty, nat) run" where
  "podman_ack_output t cursor = on_journal (\<lambda>j. ack_output j t cursor)"

definition podman_resize ::
  "('w, 'pty, 'fd) podman_runtime \<Rightarrow> uuid \<Rightarrow> u16 \<Rightarrow> u16 \<Rightarrow> ('w, 'pty, unit) run" where
  "podman_resize P t cols rows =
     io_bind (running_session t) (\<lambda>_.
     io_bind (pty_of t) (\<lambda>pty.
     io_bind (io_lift (ok_or pty Rt_NotRunning)) (\<lambda>pty.
     io_then (io_map_err (\<lambda>_. Rt_Pty) (en_pty_resize P pty rows cols))
     (io_then (run_checked P (resize_spec (codec P) (config P) t cols rows))
       (on_journal (\<lambda>j. set_size j t cols rows))))))"

definition podman_interrupt :: "('w, 'pty, 'fd) podman_runtime \<Rightarrow> uuid \<Rightarrow> ('w, 'pty, unit) run" where
  "podman_interrupt P t =
     io_bind (running_session t) (\<lambda>_.
     io_bind (pty_of t) (\<lambda>pty.
     io_bind (io_lift (ok_or pty Rt_NotRunning)) (\<lambda>pty.
       io_map_err (\<lambda>e. case e of Pty_Timeout \<Rightarrow> Rt_OutcomeUnknown | Pty_Io \<Rightarrow> Rt_Io)
         (en_pty_write P pty [CHR 0x03]))))"

definition podman_processes :: "('w, 'pty, 'fd) podman_runtime \<Rightarrow> uuid \<Rightarrow> ('w, 'pty, SandboxProcess list) run" where
  "podman_processes P t =
     io_bind (journal_record t) (\<lambda>_.
     io_bind (run_output_bounded P (processes_spec (codec P) (config P) t) MAX_TERMINAL_PROCESS_BYTES)
       (\<lambda>(success, out). if \<not> success then io_fail Rt_PodmanFailed else io_lift (parse_processes out)))"

definition podman_kill :: "('w, 'pty, 'fd) podman_runtime \<Rightarrow> uuid \<Rightarrow> u32 \<Rightarrow> ('w, 'pty, unit) run" where
  "podman_kill P t pid =
     (if pid = 0 then io_fail Rt_InvalidConfiguration
      else io_bind (journal_record t) (\<lambda>_. run_checked P (kill_spec (codec P) (config P) t pid)))"

definition podman_terminate :: "('w, 'pty, 'fd) podman_runtime \<Rightarrow> uuid \<Rightarrow> ('w, 'pty, unit) run" where
  "podman_terminate P t =
     io_bind (session_of t) (\<lambda>s0.
       if lifecycle_is_terminal (lifecycle s0) then io_ok ()
       else io_bind (on_session s0 begin_termination) (\<lambda>_.
         io_then (journal_state t TS_Terminating None ''termination_requested'' None)
         (io_bind (cleanup_until P s0) (\<lambda>cleaned.
            if cleaned then io_ok ()
            else io_then (spawn_persistent_cleanup s0) (io_fail Rt_ControlTimeout)))))"

definition podman_inspect :: "uuid \<Rightarrow> ('w, 'pty, TerminalRecord) run" where
  "podman_inspect t = journal_record t"

definition podman_shutdown :: "('w, 'pty, 'fd) podman_runtime \<Rightarrow> ('w, 'pty, unit) run" where
  "podman_shutdown P =
     io_bind (get_host (\<lambda>h. map session_terminal_id
         (filter (\<lambda>s. \<not> lifecycle_is_terminal (lifecycle s)) (map snd (sessions (registry h)))))) (\<lambda>terminal_ids.
     io_then (io_for_each (\<lambda>t. io_ignore (podman_terminate P t)) terminal_ids)
     (io_bind (managed_containers P None) (\<lambda>remaining.
        io_for_each (\<lambda>(t, _). terminate_managed P t) remaining)))"

end
