(* ===== verification/Podman_Service.thy ===== *)
theory Podman_Service
  imports Podman_Terminals Podman_Laws Daemon_Laws
begin

section \<open>The daemon with its container runtime and file system\<close>

text \<open>
  \<open>Daemon\<close> takes the runtime and the file system as arguments, as the code takes a trait object.
  Here they are the ones that \<open>main.rs\<close> passes: \<open>PodmanRuntime\<close> and \<open>Filesystem\<close>.
\<close>

text \<open>\<open>RuntimeInspect::from\<close>, and the fields of the answer.\<close>

definition snapshot_of :: "TerminalRecord \<Rightarrow> TerminalSnapshot" where
  "snapshot_of r =
     \<lparr>snap_terminal_id = rec_terminal_id r, snap_workspace_id = rec_workspace_id r,
      snap_state = rec_state r, snap_cols = word_of_nat (rec_cols r), snap_rows = word_of_nat (rec_rows r),
      snap_exit_code = rec_exit_code r, snap_reason = rec_reason r,
      snap_output_start = word_of_nat (output_start_cursor r),
      snap_output_end = word_of_nat (output_end_cursor r), snap_acked = word_of_nat (acked_cursor r),
      snap_output_complete = rec_output_complete r\<rparr>"

definition podman_services ::
  "('w, 'pty, 'fd) podman_runtime
     \<Rightarrow> (SandboxOperation \<Rightarrow> uuid list \<times> ('w, 'pty) host env \<Rightarrow> (uuid list \<times> ('w, 'pty) host env) option)
     \<Rightarrow> ('w, 'pty) host runtime" where
  "podman_services P timer =
     \<lparr>rt_provision_workspace = provision_workspace P,
      rt_start = podman_start P,
      rt_input = podman_input P,
      rt_read_output = podman_read_output P,
      rt_ack_output = podman_ack_output,
      rt_resize = podman_resize P,
      rt_interrupt = podman_interrupt P,
      rt_processes = podman_processes P,
      rt_kill = podman_kill P,
      rt_terminate = podman_terminate P,
      rt_inspect = (\<lambda>t. io_bind (podman_inspect t) (\<lambda>r. io_ok (snapshot_of r))),
      rt_pause_workspace = pause_workspace_owned P,
      rt_resume_workspace = resume_workspace_owned P,
      rt_chown_workspace_path = chown_workspace_path P,
      expired = timer\<rparr>"

definition local_filesystem ::
  "('w env, 'fd) kernel \<Rightarrow> 'fd Filesystem \<Rightarrow> 'w filesystem" where
  "local_filesystem K F =
     \<lparr>fs_ensure_workspace = (\<lambda>w. io_bind (ensure_workspace K F w) (\<lambda>_. io_ok ())),
      fs_workspace_storage = workspace_storage K F,
      fs_require_directory = require_directory K F,
      fs_list = list_entries K F,
      fs_read = read_file K F,
      fs_metadata = file_metadata K F,
      fs_search = search_files K F,
      fs_write = write_file K F,
      fs_patch = patch_file K F,
      fs_mkdir = make_dir K F,
      fs_move = move_entry K F,
      fs_copy = copy_entry K F,
      fs_delete = delete_entry K F\<rparr>"

text \<open>
  Property C19: after a change of a workspace that succeeds, every container that was paused for it is
  running again.  The run paused the workspace in the state in which its directory had been opened,
  with a pause \<open>p\<close>, and none of the containers of this \<open>p\<close> is paused at the end of the run.  The change is
  made by the dispatcher, with the services of the daemon.
\<close>

theorem changed_workspace_runs_again:
  assumes "resume_laws P w unpaused"
    and "mutate_workspace F (podman_services P timer) w pre post operation s = (Inr x, s')"
  shows "\<exists>p. fst (pause_workspace_owned P w (snd (fs_require_directory F w ''.'' (snd s)))) = Inr p
     \<and> (\<forall>t \<in> set (pause_terminal_ids p). unpaused (snd s') t)"
proof -
  obtain p e1 e where p: "pause_workspace_owned P w (snd (fs_require_directory F w ''.'' (snd s))) = (Inr p, e1)"
    and resumed: "resume_workspace_owned P p e = (Inr (), snd s')"
    by (rule mutation_ends [OF assms(2)]) (simp add: podman_services_def)
  have "pause_workspace_id p = w"
    using p by (rule pause_names_workspace)
  with tripleD(1) [OF resume_gives _ resumed] assms(1) p show ?thesis by auto
qed

end
