(* ===== verification/Podman_Promises.thy ===== *)
theory Podman_Promises
  imports Podman_Terminals Journal_Output
begin

section \<open>What the terminal operations promise\<close>

text \<open>
  The command line of a start, the processes that are listed, the end of a termination, the
  repetition of an input, and the first provisioning of a workspace.
\<close>

subsection \<open>The command line of a start\<close>

text \<open>Every option that a container is started with, in order; none depends on the request.\<close>

definition isolation_options :: "string list" where
  "isolation_options =
     [''--interactive'', ''--tty'', ''--sig-proxy=false'', ''--detach-keys='', ''--init'', ''--pull=never'',
      ''--log-driver=none'', ''--image-volume=ignore'', ''--http-proxy=false'', ''--name'', ''--label'', ''--label'',
      ''--label'', ''--label'', ''--cap-drop=ALL'', ''--security-opt=no-new-privileges'', ''--read-only'',
      ''--pid=private'', ''--ipc=private'', ''--uts=private'', ''--cgroupns=private'', ''--pids-limit'',
      ''--memory'', ''--cpus'', ''--network'', ''--volume'', ''--tmpfs'', ''--workdir'']"

lemma starts_with_dash: "starts_with (x # xs) ''-'' \<longleftrightarrow> x = CHR ''-''" "\<not> starts_with [] ''-''"
  by (simp_all add: starts_with_def)

lemma decimal_no_dash: "\<not> starts_with (decimal n @ s) ''-''" "\<not> starts_with (decimal n) ''-''"
proof -
  have "c \<noteq> CHR ''-''" if "c \<in> set (decimal n)" for c
    using decimal_digits [OF that] by (auto simp: is_ascii_digit_def byte_def)
  then show "\<not> starts_with (decimal n @ s) ''-''" "\<not> starts_with (decimal n) ''-''"
    by (cases "decimal n"; auto simp: starts_with_dash)+
qed

lemma network_no_dash:
  assumes "valid_runtime_network policy name"
  shows "\<not> starts_with name ''-''"
proof (cases policy)
  case Net_Restricted
  with assms have "starts_with name ''gobrowse-restricted-''" by (simp add: valid_runtime_network_def)
  then show ?thesis by (cases name) (simp_all add: starts_with_def)
qed (use assms in \<open>simp_all add: valid_runtime_network_def starts_with_dash\<close>)

lemma config_image_no_dash:
  "from_validated_config c0 = Inr c \<Longrightarrow> \<not> starts_with (pc_image c) ''-''"
  by (auto simp: from_validated_config_def valid_image_reference_def Let_def split: if_splits)

lemma options_filter:
  assumes "\<not> starts_with (vs_network_name start) ''-''"
  shows "filter (\<lambda>a. starts_with a ''-'') (run_options U c start (''gobrowse-workspace-'' @ w))
     = isolation_options"
  using assms
  by (simp add: run_options_def Let_def container_name_def cpu_limit_def decimal_no_dash starts_with_dash
      isolation_options_def)

text \<open>
  Property C16: nothing a client sends becomes an option of Podman.  The command line of a start is
  the options, the configured image and the command of the request; among the options exactly
  the fixed list begins with a dash, so the isolation of the container is the same for every
  request, and its network and its only volume are the permitted network and the volume of the
  workspace.
\<close>

theorem start_cannot_inject_options:
  assumes "from_validated_config c0 = Inr c" and "start_spec U c attested start = Inr spec"
  shows "\<exists>opts. spec_args spec = ''run'' # opts @ [pc_image c] @ req_command (vs_request start)
     \<and> filter (\<lambda>a. starts_with a ''-'') opts = isolation_options
     \<and> (\<exists>before after. opts = before @ [''--network'', vs_network_name start, ''--volume'',
          volume_name (vs_workspace_storage start) @ '':/workspace:rw,nodev,nosuid''] @ after)
     \<and> valid_runtime_network (req_network_policy (vs_request start)) (vs_network_name start)
     \<and> \<not> starts_with (pc_image c) ''-''"
proof -
  let ?w = "hyphenated U (req_workspace_id (vs_request start))"
  let ?opts = "run_options U c start (''gobrowse-workspace-'' @ ?w)"
  have spec: "spec = podman c (?opts @ [pc_image c] @ req_command (vs_request start))"
    and network: "valid_runtime_network (req_network_policy (vs_request start)) (vs_network_name start)"
    and volume: "volume_name (vs_workspace_storage start) = ''gobrowse-workspace-'' @ ?w"
    using assms(2)
    by (auto simp: start_spec_def workspace_volume_name_def Let_def split: WorkspaceProvisioning.splits if_splits)
  have run: "?opts = ''run'' # tl ?opts"
    by (simp add: run_options_def Let_def)
  have only: "filter (\<lambda>a. starts_with a ''-'') (tl ?opts) = isolation_options"
    using options_filter [OF network_no_dash [OF network], of U c ?w] by (subst (asm) run) (simp add: starts_with_dash)
  have "\<exists>before after. tl ?opts = before @ [''--network'', vs_network_name start, ''--volume'',
          volume_name (vs_workspace_storage start) @ '':/workspace:rw,nodev,nosuid''] @ after"
    by (intro exI [where x = "take 32 (tl ?opts)"] exI [where x = "drop 36 (tl ?opts)"])
       (simp add: run_options_def Let_def volume)
  with spec run only network config_image_no_dash [OF assms(1)] show ?thesis
    by (intro exI [where x = "tl ?opts"]) (simp add: podman_def)
qed

subsection \<open>The processes of a terminal\<close>

lemma process_lines_bounds:
  "process_lines seen used lines = Inr ps \<Longrightarrow> used \<le> MAX_TERMINAL_PROCESS_BYTES \<Longrightarrow> seen \<le> MAX_TERMINAL_PROCESSES \<Longrightarrow>
     seen + length ps \<le> MAX_TERMINAL_PROCESSES
     \<and> used + sum_list (map (\<lambda>p. length (process_command p)) ps) \<le> MAX_TERMINAL_PROCESS_BYTES
     \<and> list_all (\<lambda>p. process_pid p \<noteq> 0 \<and> length (process_command p) \<le> MAX_TERMINAL_PROCESS_COMMAND_BYTES) ps"
proof (induction seen used lines arbitrary: ps rule: process_lines.induct)
  case (2 seen used line lines)
  show ?case
    using 2(2-)
    by (auto simp: Let_def and_then_Inr not_le split: option.splits if_splits dest!: 2(1) [OF refl])
qed simp

text \<open>
  Property: what a listing of processes returns is bounded, whatever the engine prints: the number
  of processes, each command and all of them together; and no process has the number zero.
\<close>

theorem parse_processes_bounded:
  assumes "parse_processes out = Inr ps"
  shows "length ps \<le> MAX_TERMINAL_PROCESSES
     \<and> sum_list (map (\<lambda>p. length (process_command p)) ps) \<le> MAX_TERMINAL_PROCESS_BYTES
     \<and> list_all (\<lambda>p. process_pid p \<noteq> 0 \<and> length (process_command p) \<le> MAX_TERMINAL_PROCESS_COMMAND_BYTES) ps"
  using assms process_lines_bounds [of 0 0 "drop 1 (str_lines out)" ps]
  by (auto simp: parse_processes_def split: if_splits)

subsection \<open>The end of a termination\<close>

text \<open>\<open>surely P m Q\<close>: the operation does not fail, and ends in \<open>Q\<close>.\<close>

abbreviation surely :: "('s \<Rightarrow> bool) \<Rightarrow> ('s, 'e, 'a) io \<Rightarrow> ('a \<Rightarrow> 's \<Rightarrow> bool) \<Rightarrow> bool" where
  "surely P m Q \<equiv> triple P m Q (\<lambda>_ _. False)"

abbreviation session_now :: "Session \<Rightarrow> ('w, 'pty) host_state \<Rightarrow> Session" where
  "session_now s0 s \<equiv> current_session s0 (registry (snd s))"

abbreviation registered :: "Session \<Rightarrow> ('w, 'pty) host_state \<Rightarrow> bool" where
  "registered s0 s \<equiv> map_of (sessions (registry (snd s))) (session_terminal_id s0) \<noteq> None"

lemma surely_session:
  "surely (\<lambda>_. True) (lifecycle_of s0) (\<lambda>l s. l = lifecycle (session_now s0 s))"
  "surely (\<lambda>_. True) (on_session s0 f) (\<lambda>b s. True)"
  "surely (\<lambda>_. True) (journal_state t state code reason finished) (\<lambda>_ _. True)"
  "surely (\<lambda>_. True) (pty_of t) (\<lambda>_ _. True)"
  "surely (\<lambda>_. True) (sleep E d) (\<lambda>_ _. True)"
  "surely (\<lambda>_. True) (io_ignore m) (\<lambda>_ _. True)" "surely (\<lambda>_. True) (io_is_ok m) (\<lambda>_ _. True)"
  by (simp_all add: triple_def lifecycle_of_def get_host_def on_session_def on_registry_def journal_state_def
      io_ignore_def io_is_ok_def pty_of_def sleep_def split: prod.split)

lemma surely_then: "surely (\<lambda>_. True) m (\<lambda>_ _. True) \<Longrightarrow> surely (\<lambda>_. True) n Q \<Longrightarrow> surely (\<lambda>_. True) (io_then m n) Q"
  by (rule triple_then) simp_all

lemma surely_bind:
  "surely (\<lambda>_. True) m (\<lambda>_ _. True) \<Longrightarrow> (\<And>x. surely (\<lambda>_. True) (f x) Q) \<Longrightarrow> surely (\<lambda>_. True) (io_bind m f) Q"
  by (rule triple_bind) simp_all

lemma surely_trivial: "surely (\<lambda>_. True) m Q \<Longrightarrow> surely (\<lambda>_. True) m (\<lambda>_ _. True)"
  by (erule triple_conseq) simp_all

lemma surely_attempt: "surely (\<lambda>_. True) (cleanup_attempt P s0) (\<lambda>_ _. True)"
  unfolding cleanup_attempt_def Let_def
  by (intro surely_bind surely_then surely_session surely_trivial [OF surely_session(1)])
     (auto intro!: surely_bind surely_then surely_session surely_trivial [OF surely_session(1)] triple_ok)

lemma surely_ended:
  assumes "surely (\<lambda>_. True) m Q"
  shows "surely (\<lambda>_. True) (io_bind (lifecycle_of s0) (\<lambda>l. if lifecycle_is_terminal l then io_ok True else m))
     (\<lambda>b s. b \<and> lifecycle_is_terminal (lifecycle (session_now s0 s)) \<or> Q b s)"
proof (rule triple_bind [OF surely_session(1)])
  fix l
  show "surely (\<lambda>s. l = lifecycle (session_now s0 s)) (if lifecycle_is_terminal l then io_ok True else m)
     (\<lambda>b s. b \<and> lifecycle_is_terminal (lifecycle (session_now s0 s)) \<or> Q b s)"
    by (auto intro!: triple_ok triple_conseq [OF assms])
qed

lemma surely_rounds:
  "surely (\<lambda>_. True) (cleanup_rounds P s0 n)
     (\<lambda>b s. b \<longrightarrow> lifecycle_is_terminal (lifecycle (session_now s0 s)))"
proof (induction n)
  case 0
  have "surely (\<lambda>_. True) (io_then (io_bind (on_session s0 (session_transition LS_Unrecoverable)) (\<lambda>_. io_ok ()))
         (io_then (journal_state (session_terminal_id s0) TS_Unrecoverable None
            ''force_cleanup_deadline_exceeded'' None) (io_ok False))) (\<lambda>b _. \<not> b)"
    by (intro surely_then surely_bind surely_session triple_ok) simp_all
  then show ?case
    unfolding cleanup_rounds.simps by (rule triple_conseq [OF surely_ended]) auto
next
  case (Suc n)
  have "surely (\<lambda>_. True) (io_then (cleanup_attempt P s0) (io_then (sleep P CLEANUP_RETRY_INTERVAL) (cleanup_rounds P s0 n)))
     (\<lambda>b s. b \<longrightarrow> lifecycle_is_terminal (lifecycle (session_now s0 s)))"
    by (intro surely_then surely_attempt surely_session Suc.IH)
  then show ?case
    unfolding cleanup_rounds.simps by (rule triple_conseq [OF surely_ended]) auto
qed

lemma surely_background:
  "surely (\<lambda>_. True) (spawn_persistent_cleanup s0)
     (\<lambda>_ s. registered s0 s \<longrightarrow> background_cleanup_started (session_now s0 s))"
  by (auto simp: triple_def spawn_persistent_cleanup_def on_session_def on_registry_def start_background_def
      io_bind_def io_ok_def current_session_def map_of_set_entry split: if_splits)

lemma surely_until:
  "surely (\<lambda>_. True) (cleanup_until P s0)
     (\<lambda>b s. b \<longrightarrow> lifecycle_is_terminal (lifecycle (session_now s0 s)))"
proof -
  have begun: "surely (\<lambda>_. True) (on_session s0 begin_termination)
      (\<lambda>b s. \<not> b \<longrightarrow> lifecycle_is_terminal (lifecycle (session_now s0 s)))"
    by (auto simp: triple_def on_session_def on_registry_def begin_termination_def current_session_def
        map_of_set_entry Let_def split: if_splits option.splits prod.splits)
  have rest: "surely (\<lambda>_. True) (io_then (journal_state (session_terminal_id s0) TS_Terminating None ''termination_requested'' None)
      (io_bind (pty_of (session_terminal_id s0)) (\<lambda>pty. io_then
         (case pty of None \<Rightarrow> io_ok () | Some pty \<Rightarrow> io_ignore (en_pty_write P pty [CHR 0x03]))
         (\<lambda>s. cleanup_rounds P s0 (en_rounds P s (pc_termination_timeout (config P))) s))))
      (\<lambda>b s. b \<longrightarrow> lifecycle_is_terminal (lifecycle (session_now s0 s)))"
  proof (intro surely_then surely_bind surely_session)
    show "surely (\<lambda>_. True) (\<lambda>s. cleanup_rounds P s0 (en_rounds P s (pc_termination_timeout (config P))) s)
        (\<lambda>b s. b \<longrightarrow> lifecycle_is_terminal (lifecycle (session_now s0 s)))"
      using surely_rounds [of P s0] by (simp add: triple_def)
  qed (auto split: option.split intro: surely_session triple_ok)
  show ?thesis
    unfolding cleanup_until_def Let_def
  proof (rule triple_bind [OF begun])
    fix b
    show "surely (\<lambda>s. \<not> b \<longrightarrow> lifecycle_is_terminal (lifecycle (session_now s0 s)))
       (if \<not> b then io_ok True
        else io_then (journal_state (session_terminal_id s0) TS_Terminating None ''termination_requested'' None)
      (io_bind (pty_of (session_terminal_id s0)) (\<lambda>pty. io_then
         (case pty of None \<Rightarrow> io_ok () | Some pty \<Rightarrow> io_ignore (en_pty_write P pty [CHR 0x03]))
         (\<lambda>s. cleanup_rounds P s0 (en_rounds P s (pc_termination_timeout (config P))) s))))
       (\<lambda>b s. b \<longrightarrow> lifecycle_is_terminal (lifecycle (session_now s0 s)))"
      using rest by (cases b) (auto intro: triple_ok triple_pre)
  qed
qed

text \<open>
  Property C20: a termination is never lost.  For a terminal the registry knows, either the operation
  succeeds and the session has ended, or it reports \<open>ControlTimeout\<close> and, while the session is
  registered, the task that goes on trying has been started; there is no other outcome, whatever
  the engine does.
\<close>

theorem termination_settles:
  "case podman_terminate P t s of (r, s') \<Rightarrow>
     (case map_of (sessions (registry (snd s))) t of
        None \<Rightarrow> r = Inl Rt_NotFound \<and> s' = s
      | Some s0 \<Rightarrow>
          r = Inr () \<and> (lifecycle_is_terminal (lifecycle s0) \<or> lifecycle_is_terminal (lifecycle (session_now s0 s')))
        \<or> r = Inl Rt_ControlTimeout
          \<and> (map_of (sessions (registry (snd s'))) (session_terminal_id s0) = None
             \<or> background_cleanup_started (session_now s0 s')))"
proof (cases "map_of (sessions (registry (snd s))) t")
  case None
  then show ?thesis
    by (simp add: podman_terminate_def session_of_def get_host_def io_bind_def io_lift_def)
next
  case (Some s0)
  let ?ended = "\<lambda>s. lifecycle_is_terminal (lifecycle (session_now s0 s))"
  let ?late = "\<lambda>e s. e = Rt_ControlTimeout \<and> (registered s0 s \<longrightarrow> background_cleanup_started (session_now s0 s))"
  have late: "triple (\<lambda>_. True) (io_then (spawn_persistent_cleanup s0) (io_fail Rt_ControlTimeout)) (\<lambda>(_ :: unit). Q) ?late" for Q
    by (rule triple_then [OF triple_conseq [OF surely_background] triple_fail]) simp_all
  have finish: "triple (\<lambda>_. True) (io_bind (cleanup_until P s0) (\<lambda>cleaned.
      if cleaned then io_ok () else io_then (spawn_persistent_cleanup s0) (io_fail Rt_ControlTimeout)))
      (\<lambda>_. ?ended) ?late"
  proof (rule triple_bind)
    show "triple (\<lambda>_. True) (cleanup_until P s0) (\<lambda>b s. b \<longrightarrow> ?ended s) ?late"
      by (rule triple_conseq [OF surely_until]) simp_all
    show "triple (\<lambda>s. b \<longrightarrow> ?ended s)
       (if b then io_ok () else io_then (spawn_persistent_cleanup s0) (io_fail Rt_ControlTimeout)) (\<lambda>_. ?ended) ?late" for b
      using late by (cases b) (simp_all add: triple_ok triple_pre)
  qed
  have asked: "triple (\<lambda>_. True) (journal_state t TS_Terminating None ''termination_requested'' None) (\<lambda>_ _. True) ?late"
    "triple (\<lambda>_. True) (on_session s0 begin_termination) (\<lambda>_ _. True) ?late"
    by (rule triple_conseq [OF surely_session(3)], simp_all, rule triple_conseq [OF surely_session(2)], simp_all)
  have whole: "triple (\<lambda>_. True) (io_bind (on_session s0 begin_termination) (\<lambda>_.
      io_then (journal_state t TS_Terminating None ''termination_requested'' None)
        (io_bind (cleanup_until P s0) (\<lambda>cleaned.
           if cleaned then io_ok () else io_then (spawn_persistent_cleanup s0) (io_fail Rt_ControlTimeout)))))
      (\<lambda>_. ?ended) ?late"
    by (rule triple_bind [OF asked(2)], rule triple_then [OF asked(1) finish])
  show ?thesis
  proof (cases "lifecycle_is_terminal (lifecycle s0)")
    case True
    with Some show ?thesis
      by (simp add: podman_terminate_def session_of_def get_host_def io_bind_def io_lift_def io_ok_def)
  next
    case False
    with Some have "podman_terminate P t s = io_bind (on_session s0 begin_termination) (\<lambda>_.
      io_then (journal_state t TS_Terminating None ''termination_requested'' None)
        (io_bind (cleanup_until P s0) (\<lambda>cleaned.
           if cleaned then io_ok () else io_then (spawn_persistent_cleanup s0) (io_fail Rt_ControlTimeout)))) s"
      by (simp add: podman_terminate_def session_of_def get_host_def io_bind_def io_lift_def)
    moreover obtain r s' where "podman_terminate P t s = (r, s')" by (cases "podman_terminate P t s")
    ultimately show ?thesis
      using tripleD [OF whole, of s r s'] Some by (cases r) auto
  qed
qed

subsection \<open>The repetition of an input\<close>

lemma apply_input_wrote:
  assumes "apply_input P s0 i bytes s = (Inr outcome, s')"
  shows "\<exists>pty s2 r. en_pty_write P pty bytes s = (Inr (), s2)
     \<and> complete_input (fst s2) (session_terminal_id s0) i (length bytes) = (r, fst s') \<and> is_ok r
     \<and> outcome = \<lparr>outcome_bytes = length bytes, outcome_replayed = False\<rparr>"
proof -
  let ?t = "session_terminal_id s0"
  have fails: "mark_unknown ?t i e v \<noteq> (Inr outcome, s')" for e v
    by (simp add: mark_unknown_def io_then_def io_bind_def io_ignore_def io_fail_def)
  have running: "lifecycle (session_now s0 s) = LS_Running"
    using assms fails by (auto simp: apply_input_def Let_def lifecycle_of_def get_host_def io_bind_def split: if_splits)
  then obtain pty where pty: "map_of (ptys (snd s)) ?t = Some pty"
    using assms fails
    by (cases "map_of (ptys (snd s)) ?t") (auto simp: apply_input_def Let_def lifecycle_of_def pty_of_def get_host_def io_bind_def)
  obtain x s2 where wrote: "en_pty_write P pty bytes s = (x, s2)" by (cases "en_pty_write P pty bytes s")
  with assms running pty fails obtain w: "en_pty_write P pty bytes s = (Inr (), s2)"
    and rest: "io_bind (io_is_ok (on_journal (\<lambda>j. complete_input j ?t i (length bytes)))) (\<lambda>completed.
       if \<not> completed then mark_unknown ?t i Rt_OutcomeUnknown
       else io_ok \<lparr>outcome_bytes = length bytes, outcome_replayed = False\<rparr>) s2 = (Inr outcome, s')"
    by (cases x) (simp_all add: apply_input_def Let_def lifecycle_of_def pty_of_def get_host_def io_bind_def io_try_def)
  moreover obtain r j where c: "complete_input (fst s2) (session_terminal_id s0) i (length bytes) = (r, j)"
    by (cases "complete_input (fst s2) (session_terminal_id s0) i (length bytes)")
  ultimately have "fst s' = j \<and> is_ok r \<and> outcome = \<lparr>outcome_bytes = length bytes, outcome_replayed = False\<rparr>"
    using rest fails by (cases r) (auto simp: io_bind_def io_is_ok_def on_journal_def io_ok_def)
  with w c show ?thesis by blast
qed

text \<open>
  Property C21: an input that was written is not written again.  Once the operation has succeeded, its
  repetition on a running terminal, with the same journal, answers with the same number of bytes,
  marked as replayed, and leaves everything as it is.  The journal's row of the input is only
  touched by the operations on it: the write to the terminal keeps it.
\<close>

theorem applied_input_replays:
  assumes kept: "\<And>p bytes row. keeps (\<lambda>s. map_of (inputs (fst s)) (t, i) = row) (en_pty_write P p bytes)"
    and own: "\<And>s0. map_of (sessions (registry (snd s))) t = Some s0 \<Longrightarrow> session_terminal_id s0 = t"
    and ran: "podman_input P t i bytes s = (Inr outcome, s')"
    and again: "fst u = fst s'" "map_of (sessions (registry (snd u))) t = Some x" "lifecycle x = LS_Running"
  shows "podman_input P t i bytes u = (Inr \<lparr>outcome_bytes = outcome_bytes outcome, outcome_replayed = True\<rparr>, u)"
proof -
  let ?fp = "en_digest P bytes"
  obtain s0 where s0: "map_of (sessions (registry (snd s))) t = Some s0" "lifecycle s0 = LS_Running"
    using ran by (auto simp: podman_input_def running_session_def session_of_def get_host_def io_bind_def io_lift_def
        io_fail_def split: option.splits sum.splits if_splits prod.splits)
  have run: "io_bind (on_journal (\<lambda>j. begin_input j t i ?fp)) (\<lambda>decision.
       case decision of
         Input_Applied n \<Rightarrow> io_ok \<lparr>outcome_bytes = n, outcome_replayed = True\<rparr>
       | Input_Execute \<Rightarrow> apply_input P s0 i bytes) s = (Inr outcome, s')"
    using ran s0 by (simp add: podman_input_def running_session_def session_of_def get_host_def io_bind_def io_lift_def
        io_ok_def)
  have "\<exists>row. map_of (inputs (fst s')) (t, i) = Some row \<and> in_fingerprint row = ?fp
      \<and> in_status row = ''APPLIED'' \<and> in_byte_count row = Some (int (outcome_bytes outcome))"
  proof (cases "map_of (inputs (fst s)) (t, i)")
    case (Some row)
    with run show ?thesis
      by (auto simp: io_bind_def on_journal_def begin_input_def io_ok_def split: if_splits option.splits)
  next
    case None
    let ?row = "\<lparr>in_fingerprint = ?fp, in_status = ''PENDING'', in_byte_count = None\<rparr>"
    let ?s1 = "((fst s)\<lparr>inputs := inputs (fst s) @ [((t, i), ?row)]\<rparr>, snd s)"
    have s1: "apply_input P s0 i bytes ?s1 = (Inr outcome, s')" "map_of (inputs (fst ?s1)) (t, i) = Some ?row"
      using run None by (auto simp: io_bind_def on_journal_def begin_input_def map_add_def split: if_splits)
    have tid: "session_terminal_id s0 = t" using own s0 by simp
    obtain pty s2 r where w: "en_pty_write P pty bytes ?s1 = (Inr (), s2)"
      and fin: "complete_input (fst s2) t i (length bytes) = (r, fst s')" "is_ok r"
      and out: "outcome = \<lparr>outcome_bytes = length bytes, outcome_replayed = False\<rparr>"
      using apply_input_wrote [OF s1(1)] tid by blast
    have "map_of (inputs (fst s2)) (t, i) = Some ?row"
      using keepsD [of "\<lambda>s. map_of (inputs (fst s)) (t, i) = Some ?row", OF kept s1(2)] w by (metis snd_conv)
    with fin have "fst s' = (fst s2)\<lparr>inputs := update_key (t, i)
        (\<lambda>r. r\<lparr>in_status := ''APPLIED'', in_byte_count := Some (int (length bytes))\<rparr>) (inputs (fst s2))\<rparr>"
      by (auto simp: complete_input_def to_i64_def split: if_splits)
    with \<open>map_of (inputs (fst s2)) (t, i) = Some ?row\<close> out show ?thesis
      by (simp add: map_of_update_key)
  qed
  with again show ?thesis
    by (cases u) (auto simp: podman_input_def running_session_def session_of_def get_host_def io_bind_def io_lift_def
        io_ok_def on_journal_def begin_input_def)
qed

subsection \<open>The first provisioning of a workspace\<close>

text \<open>
  Property C24: the first provisioning of a workspace fails although it creates the volume.  When the
  inspection of a volume that does not exist fails, without a line of four fields, and the creation
  succeeds, the mount point is then looked for in the output of the failed inspection, so the
  operation fails, and neither the owner nor the mode of the volume is set.
\<close>

theorem first_provisioning_fails:
  assumes "run_output_bounded P (volume_inspect_spec (codec P) (config P) w) (16 * 1024) s = (Inr (False, out), s1)"
    and "volume_fields (from_utf8_lossy out) = None"
    and "run_output_bounded P (volume_create_spec (codec P) (config P) w) (16 * 1024) s1 = (Inr (True, created), s2)"
  shows "provision_workspace P w s = (Inl Rt_WorkspaceVolumeInvalid, s2)"
  using assms
  by (simp add: provision_workspace_def io_bind_def workspace_volume_mountpoint_def io_ok_def io_lift_def io_fail_def)

end
