(* ===== verification/Podman_Example.thy ===== *)
theory Podman_Example
  imports Podman_Service Podman_Promises Recovery_Disk
begin

section \<open>An engine to run the container runtime on\<close>

text \<open>
  A small implementation of the engine, for examples: a machine has the disk of \<open>Fs_Disk\<close> for the
  recovery records, and a list of containers with their workspace and whether they are paused.
  The commands it knows are those that pause, resume, inspect, list and remove containers.
\<close>

record machine =
  machine_disk :: disk
  containers :: "(uuid \<times> uuid \<times> bool) list"

type_synonym machine_state = "(machine, unit) host_state"

definition containers_of :: "machine_state \<Rightarrow> (uuid \<times> uuid \<times> bool) list" where
  "containers_of s = containers (world (snd s))"

definition with_containers ::
  "((uuid \<times> uuid \<times> bool) list \<Rightarrow> (uuid \<times> uuid \<times> bool) list) \<Rightarrow> machine_state \<Rightarrow> machine_state" where
  "with_containers f s =
     (fst s, (snd s)\<lparr>world := (world (snd s))\<lparr>containers := f (containers_of s)\<rparr>\<rparr>)"

lemma with_containers_simps [simp]:
  "containers_of (with_containers f s) = f (containers_of s)"
  "fst (with_containers f s) = fst s" "attestation (snd (with_containers f s)) = attestation (snd s)"
  by (simp_all add: with_containers_def containers_of_def)

text \<open>A call on the disk, as a call on the whole state.\<close>

definition on_disk :: "(disk, 'e, 'a) io \<Rightarrow> (machine_state, 'e, 'a) io" where
  "on_disk m s = (case m (machine_disk (world (snd s))) of (r, d) \<Rightarrow>
     (r, (fst s, (snd s)\<lparr>world := (world (snd s))\<lparr>machine_disk := d\<rparr>\<rparr>)))"

lemma on_disk_keeps:
  assumes "\<And>j h d. P (j, h\<lparr>world := (world h)\<lparr>machine_disk := d\<rparr>\<rparr>) = P (j, h)"
  shows "keeps P (on_disk m)"
  by (simp add: keeps_def on_disk_def assms split: prod.split)

definition machine_kernel :: "(machine_state, string list) kernel" where
  "machine_kernel =
     \<lparr>k_open = \<lambda>path flags mode. io_ok [],
      k_openat2 = \<lambda>fd path flags mode how. on_disk (disk_open fd path flags),
      k_fstat = \<lambda>fd. on_disk (disk_stat fd),
      k_mkdirat = \<lambda>fd name mode. on_disk (disk_mkdir fd name),
      k_renameat = \<lambda>fd name to new how. on_disk (disk_rename fd name to new how),
      k_unlinkat = \<lambda>fd name isdir. on_disk (disk_unlink fd name isdir),
      k_fchmod = \<lambda>fd mode. io_ok (),
      k_fsync = \<lambda>fd. io_ok (),
      k_dir = \<lambda>fd. on_disk (disk_dir fd),
      k_read = \<lambda>fd n. on_disk (disk_read fd n),
      k_write_all = \<lambda>fd bytes. on_disk (disk_write fd bytes),
      k_sync_all = \<lambda>fd. io_ok (),
      k_uuid = \<lambda>s. (5, s),
      k_descriptors = 1000,
      k_sha256 = \<lambda>bytes. bytes,
      k_hyphenated = \<lambda>u. decimal (unat u),
      k_parse_uuid = \<lambda>s. map_option word_of_nat (parse_unsigned (2 ^ 128 - 1) s),
      k_encode_match = \<lambda>m. Some (match_path m)\<rparr>"

text \<open>What \<open>ps\<close> prints of a container, and the container of a name.\<close>

definition ps_line :: "uuid \<times> uuid \<times> bool \<Rightarrow> string" where
  "ps_line c = (case c of (t, w, _) \<Rightarrow>
     ''gobrowse-'' @ decimal (unat t) @ ''|'' @ decimal (unat t) @ ''|'' @ decimal (unat w))"

definition ps_output :: "(uuid \<times> uuid \<times> bool) list \<Rightarrow> string" where
  "ps_output cs = concat (map (\<lambda>c. ps_line c @ [NL]) cs)"

definition named :: "string \<Rightarrow> uuid \<times> uuid \<times> bool \<Rightarrow> bool" where
  "named name c \<longleftrightarrow> ''gobrowse-'' @ decimal (unat (fst c)) = name"

definition set_paused :: "string \<Rightarrow> bool \<Rightarrow> (uuid \<times> uuid \<times> bool) list \<Rightarrow> (uuid \<times> uuid \<times> bool) list" where
  "set_paused name b = map (\<lambda>c. if named name c then (fst c, fst (snd c), b) else c)"

definition engine_status :: "Command \<Rightarrow> (machine_state, RuntimeError, bool) io" where
  "engine_status c s =
     (let verb = hd (cmd_args c); name = last (cmd_args c)
      in (Inr True, with_containers
           (if verb = ''pause'' then set_paused name True
            else if verb = ''unpause'' then set_paused name False
            else if verb = ''rm'' then filter (\<lambda>c. \<not> named name c)
            else id) s))"

text \<open>\<open>ps\<close> takes the workspace from the last filter, when there is one.\<close>

definition listed_by :: "string list \<Rightarrow> uuid \<times> uuid \<times> bool \<Rightarrow> bool" where
  "listed_by args c \<longleftrightarrow> length args = 8
     \<or> args ! 7 = ''label=io.gobrowse.workspace-id='' @ decimal (unat (fst (snd c)))"

definition engine_output :: "Command \<Rightarrow> nat \<Rightarrow> (machine_state, RuntimeError, bool \<times> string) io" where
  "engine_output c n s =
     (if hd (cmd_args c) = ''ps''
      then (Inr (True, take n (ps_output (filter (listed_by (cmd_args c)) (containers_of s)))), s)
      else case find (named (last (cmd_args c))) (containers_of s) of
             None \<Rightarrow> (Inr (False, []), s)
           | Some (t, w, paused) \<Rightarrow> (Inr (True, take n ((if paused then ''true'' else ''false'') @ [NL])), s))"

definition machine_config :: PodmanConfig where
  "machine_config =
     \<lparr>pc_executable = ''/usr/bin/podman'', pc_home = ''/home/sandbox'', pc_runtime_dir = None,
      pc_container_uid = 1000, pc_image = ''gobrowse/sandbox:1'', pc_readiness_timeout = 10 ^ 9,
      pc_control_timeout = 10 ^ 9, pc_termination_timeout = 10 ^ 9, pc_input_write_timeout = 10 ^ 9,
      pc_session_limits = \<lparr>max_active = 8, max_active_per_workspace = 4, max_retained_records = 16\<rparr>,
      pc_workspace_provisioning = NamedVolume (2 ^ 30), pc_deployment_id = 3,
      pc_restricted_network = None\<rparr>"

definition machine_podman :: "(machine, unit, string list) podman_runtime" where
  "machine_podman =
     \<lparr>config = machine_config, host_kernel = machine_kernel, volumes = disk_fs,
      en_status = engine_status, en_output = engine_output, en_sleep = \<lambda>d s. s, en_rounds = \<lambda>s d. 3,
      en_parse_array = \<lambda>s. None, en_parse_ip = \<lambda>s. None, en_encode_request = \<lambda>r. None,
      en_digest = \<lambda>s. s, en_pty_open = io_ok (), en_pty_raw = \<lambda>p. io_ok (),
      en_pty_resize = \<lambda>p rows cols. io_ok (), en_spawn = \<lambda>c p. io_ok (), en_pty_write = \<lambda>p bytes. io_ok ()\<rparr>"

subsection \<open>The records of the machine\<close>

text \<open>An operation on the disk of the machine is the operation on the disk.\<close>

lemma on_disk_structure:
  "io_bind (on_disk m) (\<lambda>x. on_disk (f x)) = on_disk (io_bind m f)"
  "io_ok x = on_disk (io_ok x)" "io_fail e = on_disk (io_fail e)" "io_lift r = on_disk (io_lift r)"
  "io_map_err g (on_disk m) = on_disk (io_map_err g m)"
  by (simp_all add: fun_eq_iff on_disk_def io_bind_def io_ok_def io_fail_def io_lift_def io_map_err_def
      split: prod.split sum.split)

lemma on_disk_fold: "io_fold (\<lambda>b x. on_disk (f b x)) b xs = on_disk (io_fold f b xs)"
  by (induction xs arbitrary: b) (simp_all add: on_disk_structure(2) on_disk_structure(1) [symmetric])

lemma machine_kernel_simps [simp]:
  "k_openat2 machine_kernel fd path flags mode how = on_disk (k_openat2 disk_kernel fd path flags mode how)"
  "k_fstat machine_kernel fd = on_disk (k_fstat disk_kernel fd)"
  "k_dir machine_kernel fd = on_disk (k_dir disk_kernel fd)"
  "k_read machine_kernel fd n = on_disk (k_read disk_kernel fd n)"
  "k_unlinkat machine_kernel fd name isdir = on_disk (k_unlinkat disk_kernel fd name isdir)"
  "k_renameat machine_kernel fd name to new how' = on_disk (k_renameat disk_kernel fd name to new how')"
  "k_write_all machine_kernel fd bytes = on_disk (k_write_all disk_kernel fd bytes)"
  "k_fchmod machine_kernel fd mode = on_disk (k_fchmod disk_kernel fd mode)"
  "k_fsync machine_kernel fd = on_disk (k_fsync disk_kernel fd)"
  "k_sync_all machine_kernel fd = on_disk (k_sync_all disk_kernel fd)"
  "k_uuid machine_kernel s = (5, s)"
  "k_sha256 machine_kernel = k_sha256 disk_kernel" "k_hyphenated machine_kernel = k_hyphenated disk_kernel"
  "k_parse_uuid machine_kernel = k_parse_uuid disk_kernel"
  by (simp_all add: machine_kernel_def disk_kernel_def on_disk_structure(2))

lemma if_on_disk:
  "(if b then on_disk m else on_disk n) = on_disk (if b then m else n)"
  "(case z of (x, y) \<Rightarrow> on_disk (f x y)) = on_disk (case z of (x, y) \<Rightarrow> f x y)"
  "(\<lambda>(x, y). on_disk (f x y)) = (\<lambda>z. on_disk (case z of (x, y) \<Rightarrow> f x y))"
  by (simp_all split: prod.split add: cond_case_prod_eta)

lemma machine_list: "list_records machine_kernel F = on_disk (list_records disk_kernel F)"
proof -
  have regular: "read_regular_bounded machine_kernel fd n = on_disk (read_regular_bounded disk_kernel fd n)" for fd n
    unfolding read_regular_bounded_def sys_def sys_io_def
    by (simp add: on_disk_structure if_on_disk del: disk_kernel_simps cong del: if_weak_cong prod.case_cong_weak)
  have valid: "decode_record machine_kernel = decode_record disk_kernel"
    by (intro ext, simp add: decode_record_def valid_container_name_def cong del: option.case_cong_weak list.case_cong_weak if_weak_cong)
  have "read_recovery machine_kernel F name = on_disk (read_recovery disk_kernel F name)" for name
    unfolding read_recovery_def openat_def sys_def
    by (simp add: regular valid on_disk_structure if_on_disk del: disk_kernel_simps cong del: if_weak_cong prod.case_cong_weak)
  then show ?thesis
    unfolding list_records_def sys_def
    by (simp add: on_disk_structure if_on_disk on_disk_fold del: disk_kernel_simps cong del: if_weak_cong prod.case_cong_weak)
qed

lemma machine_clear:
  "clear_record machine_kernel F w operation = on_disk (clear_record disk_kernel F w operation)"
  unfolding clear_record_def sys_def sys_io_def
  by (simp add: machine_list on_disk_structure if_on_disk del: disk_kernel_simps cong del: if_weak_cong prod.case_cong_weak)

subsection \<open>The containers of the machine\<close>

lemma machine_simps [simp]:
  "config machine_podman = machine_config" "host_kernel machine_podman = machine_kernel"
  "volumes machine_podman = disk_fs" "en_status machine_podman = engine_status"
  "en_output machine_podman = engine_output" "en_sleep machine_podman d s = s"
  "hyphenated (codec machine_podman) u = decimal (unat u)"
  by (simp_all add: machine_podman_def codec_def machine_kernel_def)

lemma parse_printed [simp]: "parse_unsigned (2 ^ 128 - 1) (decimal (unat (u :: uuid))) = Some (unat u)"
  using unsigned_less [of u, where 'a = nat] by (intro parse_unsigned_decimal) simp

abbreviation cname :: "uuid \<Rightarrow> string" where
  "cname t \<equiv> container_name (codec machine_podman) t"

lemma machine_uuid [simp]: "parse_str (codec machine_podman) (decimal (unat u)) = Some u"
  using parse_printed [of u] by (simp add: codec_def)

lemma printed_eq [simp]: "decimal (unat (u :: uuid)) = decimal (unat v) \<longleftrightarrow> u = v"
  using parse_printed [of u] parse_printed [of v] by (metis option.inject word_unat_eq_iff)

lemma named_iff [simp]: "named (cname t) c \<longleftrightarrow> fst c = t"
  by (auto simp: named_def container_name_def)

lemma find_named:
  "find (named (cname t)) cs = map_option (\<lambda>v. (t, v)) (map_of cs t)"
  by (induction cs) auto

lemma set_paused_map:
  "map_of (set_paused (cname t) b cs) u
     = (if u = t then map_option (\<lambda>(w, _). (w, b)) (map_of cs t) else map_of cs u)"
  by (induction cs) (auto simp: set_paused_def)

lemma inspect_machine:
  "inspect_paused machine_podman t s =
     (case map_of (containers_of s) t of None \<Rightarrow> (Inl Rt_PodmanFailed, s) | Some (w, paused) \<Rightarrow> (Inr paused, s))"
  by (simp add: inspect_paused_def run_output_bounded_def engine_command_def spec_command_def
      paused_inspect_spec_def podman_def engine_output_def find_named io_bind_def
      io_ok_def io_fail_def NL_def split: option.split)

lemma status_machine:
  "run_checked machine_podman (pause_spec (codec machine_podman) machine_config t) s =
     (Inr (), with_containers (set_paused (cname t) True) s)"
  "run_checked machine_podman (unpause_spec (codec machine_podman) machine_config t) s =
     (Inr (), with_containers (set_paused (cname t) False) s)"
  "terminate_managed machine_podman t s =
     (Inr (), with_containers (filter (\<lambda>c. fst c \<noteq> t)) s)"
  by (simp_all add: run_checked_def engine_command_def spec_command_def pause_spec_def unpause_spec_def
      terminate_managed_def force_removal_spec_def podman_def engine_status_def
      io_bind_def io_ok_def Let_def)

subsection \<open>What the machine lists\<close>

lemma ps_line_chars:
  "ps_line (t, w, b) = cname t @ CHR ''|'' # decimal (unat t) @ CHR ''|'' # decimal (unat w)"
  "c \<in> set (cname t) \<or> c \<in> set (decimal n) \<Longrightarrow> c \<noteq> CHR ''|''"
  "c \<in> set (ps_line x) \<Longrightarrow> c \<noteq> NL \<and> c \<noteq> CHR 0x0D \<and> byte c < 128"
proof -
  have digit: "c \<in> set (decimal n) \<Longrightarrow> 48 \<le> byte c \<and> byte c \<le> 57" for c n
    using decimal_digits by (auto simp: is_ascii_digit_def byte_def)
  show "ps_line (t, w, b) = cname t @ CHR ''|'' # decimal (unat t) @ CHR ''|'' # decimal (unat w)"
    by (simp add: ps_line_def container_name_def)
  show "c \<in> set (cname t) \<or> c \<in> set (decimal n) \<Longrightarrow> c \<noteq> CHR ''|''"
    using digit [of "CHR ''|''"] by (auto simp: container_name_def byte_def)
  show "c \<in> set (ps_line x) \<Longrightarrow> c \<noteq> NL \<and> c \<noteq> CHR 0x0D \<and> byte c < 128"
    by (cases x) (auto simp: ps_line_def NL_def byte_def dest!: digit)
qed

lemma managed_ps_line:
  "managed_line (codec machine_podman) W (ps_line (t, w, b)) =
     (if W \<noteq> None \<and> W \<noteq> Some w then None else Some (t, w))"
proof -
  have "CHR ''|'' \<notin> set (cname t)" "CHR ''|'' \<notin> set (decimal n)" for n
    using ps_line_chars(2) by blast+
  then have "split_on CHR ''|'' (ps_line (t, w, b)) = [cname t, decimal (unat t), decimal (unat w)]"
    by (simp add: ps_line_chars(1) split_on_append split_on_no_sep)
  then show ?thesis
    by (auto simp: managed_line_def split: option.split)
qed

lemma managed_ps_lines:
  "(\<And>t w b. (t, w, b) \<in> set cs \<Longrightarrow> W = None \<or> W = Some w) \<Longrightarrow>
     managed_lines (codec machine_podman) W (map ps_line cs) = Some (map (\<lambda>(t, w, b). (t, w)) cs)"
proof (induction cs)
  case (Cons c cs)
  moreover obtain t w b where c: "c = (t, w, b)" by (cases c)
  moreover have "W = None \<or> W = Some w" using Cons.prems [of t w b] c by simp
  ultimately show ?case by (simp add: managed_ps_line) blast
qed simp

lemma ps_output_text:
  "str_lines (ps_output cs) = map ps_line cs" "is_utf8 (ps_output cs)"
proof -
  have "split_on NL (ps_output cs) = map ps_line cs @ [[]]"
  proof (induction cs)
    case (Cons c cs)
    have "split_on NL (ps_line c) = [ps_line c]" using ps_line_chars(3) by (intro split_on_no_sep) blast
    with Cons show ?case by (simp add: ps_output_def split_on_append)
  qed (simp add: ps_output_def)
  moreover have "strip_cr (ps_line c) = ps_line c" for c
    using ps_line_chars(3) by (intro strip_cr_id) (metis last_in_set)
  ultimately show "str_lines (ps_output cs) = map ps_line cs" by (simp add: str_lines_def)
  have "is_ascii (ps_line c)" for c
    using ps_line_chars(3) [of _ c] by (simp add: is_ascii_def list_all_iff)
  moreover have "is_ascii [NL]" by (simp add: is_ascii_def NL_def byte_def)
  ultimately have "is_ascii (ps_output cs)"
    by (induction cs) (simp_all add: ps_output_def is_ascii_def)
  moreover from this have "utf8_slice [c]" if "c \<in> set (ps_output cs)" for c
    using that by (auto simp: is_ascii_def list_all_iff utf8_slice_def complete_slice_def utf8_width_def)
  ultimately show "is_utf8 (ps_output cs)"
    by (auto simp: is_utf8_def char_slices_ascii list_all_iff)
qed

lemma managed_machine:
  "managed_containers machine_podman W s =
     (let cs = filter (\<lambda>(t, w, b). W = None \<or> W = Some w) (containers_of s)
      in (if length (ps_output cs) > 1024 * 1024 then Inl Rt_PodmanFailed
          else Inr (map (\<lambda>(t, w, b). (t, w)) cs), s))"
proof -
  let ?args = "cmd_args (engine_command machine_podman (managed_containers_spec (codec machine_podman) machine_config W))"
  let ?cs = "filter (\<lambda>(t, w, b). W = None \<or> W = Some w) (containers_of s)"
  have label: "listed_by ?args = (\<lambda>(t, w, b). W = None \<or> W = Some w)"
    by (auto simp: fun_eq_iff listed_by_def engine_command_def spec_command_def managed_containers_spec_def
        podman_def split: option.split)
  have verb: "hd ?args = ''ps''"
    by (simp add: engine_command_def spec_command_def managed_containers_spec_def podman_def)
  show ?thesis
    using managed_ps_lines [of ?cs W]
    by (simp add: managed_containers_def run_output_bounded_def engine_output_def label verb io_bind_def
        io_fail_def io_ok_def io_lift_def ps_output_text Let_def)
qed

definition not_paused :: "uuid \<Rightarrow> machine_state \<Rightarrow> uuid \<Rightarrow> bool" where
  "not_paused w s t \<longleftrightarrow> map_of (containers_of s) t \<noteq> Some (w, True)"

lemma machine_keeps:
  "keeps P (inspect_paused machine_podman t)" "keeps P (managed_containers machine_podman W)"
proof -
  show "keeps P (inspect_paused machine_podman t)"
    by (simp add: keeps_def inspect_machine split: option.split)
  have "keeps P (engine_output c n)" if "hd (cmd_args c) = ''ps''" for c n
    using that by (simp add: keeps_def engine_output_def)
  then show "keeps P (managed_containers machine_podman W)"
    unfolding managed_containers_def run_output_bounded_def
    by (auto simp: engine_command_def spec_command_def managed_containers_spec_def podman_def intro!: keeps_rules)
qed

lemma clear_machine:
  assumes "\<And>j h d. P (j, h\<lparr>world := (world h)\<lparr>machine_disk := d\<rparr>\<rparr>) = P (j, h)"
  shows "keeps P (clear_recovery machine_podman w operation)" "keeps P (recovery_records machine_podman)"
  unfolding clear_recovery_def recovery_records_def store_def
  by (simp_all add: machine_clear machine_list keeps_map_err on_disk_keeps assms)

lemma machine_resume_laws: "resume_laws machine_podman w (not_paused w)"
  unfolding resume_laws_def
proof (intro conjI allI machine_keeps)
  show "gives (\<lambda>_. True) (inspect_paused machine_podman t) (\<lambda>paused s. \<not> paused \<longrightarrow> not_paused w s t)" for t
    by (auto simp: triple_def inspect_machine not_paused_def split: option.split)
  show "gives (\<lambda>_. True) (managed_containers machine_podman (Some w))
      (\<lambda>listed s. \<forall>t. t \<notin> fst ` set listed \<longrightarrow> not_paused w s t)"
    by (force simp: triple_def managed_machine not_paused_def Let_def dest: map_of_SomeD)
  show "keeps (\<lambda>s. not_paused w s t) (run_checked machine_podman (unpause_spec (codec machine_podman) (config machine_podman) u))"
    for t u
    by (auto simp: keeps_def status_machine not_paused_def set_paused_map split: option.split prod.splits)
  show "keeps (\<lambda>s. not_paused w s t) (clear_recovery machine_podman w operation)" for t operation
    by (rule clear_machine) (simp add: not_paused_def containers_of_def)
qed

definition no_containers :: "machine_state \<Rightarrow> bool" where
  "no_containers s \<longleftrightarrow> containers_of s = []"

lemma machine_restart_laws: "restart_laws machine_podman no_containers"
  unfolding restart_laws_def
proof (intro conjI allI machine_keeps)
  have same: "settled machine_podman (j, h\<lparr>world := m\<rparr>) = settled machine_podman (j, h)"
    "settled machine_podman (with_containers f s) = settled machine_podman s" for j h m f s
    by (simp_all add: settled_def)
  show "gives (\<lambda>_. True) (managed_containers machine_podman None) (\<lambda>listed s. listed = [] \<longrightarrow> no_containers s)"
    by (auto simp: triple_def managed_machine no_containers_def Let_def)
  show "keeps no_containers (clear_recovery machine_podman w operation)" for w operation
    by (rule clear_machine) (simp add: no_containers_def containers_of_def)
  show "keeps (settled machine_podman) (clear_recovery machine_podman w operation)"
    "keeps (settled machine_podman) (recovery_records machine_podman)" for w operation
    by (rule clear_machine, rule same)+
  show "keeps (settled machine_podman) (terminate_managed machine_podman t)" for t
    by (simp add: keeps_def status_machine same)
qed

subsection \<open>Runs of the machine\<close>

text \<open>A machine with a journal, a disk and containers; the terminal 7 runs in the workspace 1.\<close>

definition machine_on :: "journal \<Rightarrow> disk \<Rightarrow> (uuid \<times> uuid \<times> bool) list \<Rightarrow> machine_state" where
  "machine_on j d cs =
     (j, \<lparr>registry = new_registry\<lparr>sessions := [(7, (new_session 7 1)\<lparr>lifecycle := LS_Running\<rparr>)],
          active := 1, active_by_workspace := [(1, 1)]\<rparr>, attestation = None, ptys = [],
        world = \<lparr>machine_disk = d, containers = cs\<rparr>\<rparr>)"

lemma machine_on_simps [simp]:
  "containers_of (machine_on j d cs) = cs"
  "with_containers f (machine_on j d cs) = machine_on j d (f cs)"
  "on_disk m (machine_on j d cs) = (case m d of (r, d') \<Rightarrow> (r, machine_on j d' cs))"
  by (simp_all add: machine_on_def containers_of_def with_containers_def on_disk_def)

definition example_journal :: journal where
  "example_journal = snd (set_running (snd (begin_start open_new 7 1 ''start'' 80 24)) 7)"

definition cleared_disk :: disk where
  "cleared_disk = two_disk\<lparr>next_id := 10\<rparr>"

lemma clear_example:
  "clear_recovery machine_podman 1 5 (machine_on j stored_disk cs) = (Inr (), machine_on j cleared_disk cs)"
proof -
  note list = list_example [unfolded example_record_def]
  have gone: "disk_unlink (recovery_fd disk_fs) ''1'' False stored_disk = (Inr (), cleared_disk)"
    by (simp add: disk_unlink_def example_disk_defs cleared_disk_def node_at_def Let_def inside_def)
  have "clear_record disk_kernel disk_fs 1 5 stored_disk = (Inr (), cleared_disk)"
    by (simp add: clear_record_def io_bind_def list sys_def sys_io_def io_map_err_def io_ok_def
        io_lift_def decimal_1 gone example_record_def)
  then show ?thesis
    by (simp add: clear_recovery_def store_def io_map_err_def machine_clear)
qed

lemma length_ps_output:
  "length (ps_output cs) = sum_list (map (\<lambda>c. length (ps_line c) + 1) cs)"
  by (induction cs) (simp_all add: ps_output_def)

lemma decimal_7: "decimal 2 = ''2''" "decimal 7 = ''7''" "decimal 8 = ''8''" "decimal 9 = ''9''"
  by code_simp+

lemmas example_lists = length_ps_output ps_line_def decimal_1 decimal_7

theorem resume_leaves_nothing_paused_witness:
  "\<exists>t. resume_workspace_owned machine_podman
       \<lparr>pause_workspace_id = 1, pause_terminal_ids = [7, 8], pause_recovery_id = Some 5\<rparr>
       (machine_on open_new stored_disk [(7, 1, True), (9, 2, True)]) = (Inr (), t) \<and> not_paused 1 t 7"
proof -
  let ?p = "\<lparr>pause_workspace_id = 1, pause_terminal_ids = [7, 8], pause_recovery_id = Some 5\<rparr>"
  let ?s = "machine_on open_new stored_disk [(7, 1, True), (9, 2, True)]"
  have run: "resume_workspace_owned machine_podman ?p ?s
      = (Inr (), machine_on open_new cleared_disk [(7, 1, False), (9, 2, True)])"
    by (simp add: resume_workspace_owned_def numeral_3_eq_3 io_bind_def managed_machine example_lists
        resume_pass_def resume_one_def io_try_def inspect_machine io_is_ok_def status_machine set_paused_def
        io_ok_def clear_example)
  with resume_leaves_nothing_paused [OF machine_resume_laws run, of 7] show ?thesis by simp
qed

theorem restart_leaves_nothing_running_witness:
  "\<exists>t. reconcile_recoveries machine_podman (machine_on example_journal stored_disk [(7, 1, True), (8, 2, False)])
       = (Inr (), t) \<and> no_containers t \<and> settled machine_podman t"
proof -
  let ?s = "machine_on example_journal stored_disk [(7, 1, True), (8, 2, False)]"
  have recorded: "recovery_records machine_podman (machine_on j stored_disk cs)
      = (Inr [example_record], machine_on j stored_disk cs)" for j cs
    by (simp add: recovery_records_def store_def io_map_err_def machine_list list_example)
  have journal: "Podman_Recovery.on_journal reconcile_restart (machine_on j d cs)
      = (map_err map_journal_error (fst (reconcile_restart j)), machine_on (snd (reconcile_restart j)) d cs)" for j d cs
    by (simp add: Podman_Recovery.on_journal_def machine_on_def split: prod.split)
  have run: "reconcile_recoveries machine_podman ?s
      = (Inr (), machine_on (snd (reconcile_restart example_journal)) cleared_disk [])"
    by (simp add: reconcile_recoveries_def attest_network_def machine_config_def io_then_def io_bind_def io_ok_def
        journal recorded reconcile_restart_def managed_machine Let_def example_lists status_machine io_is_ok_def
        clear_example example_record_def)
  with restart_leaves_nothing_running [OF machine_restart_laws run] show ?thesis by simp
qed

subsection \<open>A pause that cannot be confirmed\<close>

text \<open>The same engine, but the answer of an inspection of the container 8 is lost.\<close>

definition deaf_podman :: "(machine, unit, string list) podman_runtime" where
  "deaf_podman = machine_podman\<lparr>en_output := \<lambda>c n s.
     if last (cmd_args c) = cname 8 then (Inl Rt_PodmanFailed, s) else engine_output c n s\<rparr>"

lemma deaf_simps:
  "managed_containers deaf_podman W = managed_containers machine_podman W"
  "inspect_paused deaf_podman t s = (if t = 8 then (Inl Rt_PodmanFailed, s) else inspect_paused machine_podman t s)"
  "run_checked deaf_podman spec = run_checked machine_podman spec"
  "codec deaf_podman = codec machine_podman" "config deaf_podman = machine_config"
  "clear_recovery deaf_podman w operation = clear_recovery machine_podman w operation"
  "sleep deaf_podman d = io_ok ()"
proof -
  show config: "codec deaf_podman = codec machine_podman" "config deaf_podman = machine_config"
    by (simp_all add: deaf_podman_def codec_def)
  have command: "engine_command deaf_podman = engine_command machine_podman"
    by (simp add: fun_eq_iff engine_command_def config)
  show "run_checked deaf_podman spec = run_checked machine_podman spec"
    by (simp add: run_checked_def command) (simp add: deaf_podman_def)
  show "clear_recovery deaf_podman w operation = clear_recovery machine_podman w operation"
    by (simp add: clear_recovery_def deaf_podman_def)
  show "sleep deaf_podman d = io_ok ()"
    by (simp add: fun_eq_iff sleep_def deaf_podman_def io_ok_def)
  have "t = 8 \<longleftrightarrow> cname t = cname 8" for t
    using printed_eq [of t 8] by (simp add: container_name_def)
  then show "inspect_paused deaf_podman t s = (if t = 8 then (Inl Rt_PodmanFailed, s) else inspect_paused machine_podman t s)"
    by (simp add: inspect_paused_def run_output_bounded_def command config)
       (simp add: deaf_podman_def engine_command_def spec_command_def paused_inspect_spec_def podman_def io_bind_def)
  have "managed_format \<noteq> cname 8"
    by (simp add: managed_format_def container_name_def Let_def)
  moreover have "last (spec_args (managed_containers_spec U c W)) = managed_format" for U c
    by (simp add: managed_containers_spec_def podman_def split: option.split)
  ultimately show "managed_containers deaf_podman W = managed_containers machine_podman W"
    by (simp add: managed_containers_def run_output_bounded_def command config cong del: if_weak_cong)
       (simp add: deaf_podman_def engine_command_def spec_command_def)
qed

theorem failed_pause_strands_container_witness:
  "\<exists>t. pause_each deaf_podman 1 5 [7] [8] (machine_on open_new stored_disk [(7, 1, True), (8, 1, False)])
         = (Inl Rt_WorkspacePauseFailed, t)
       \<and> map_of (containers_of t) 8 = Some (1, True)"
proof -
  let ?stuck = "\<lambda>s. map_of (containers_of s) 8 = Some (1, True)"
  let ?s = "machine_on open_new stored_disk [(7, 1, True), (8, 1, False)]"
  let ?s1 = "machine_on open_new stored_disk [(7, 1, True), (8, 1, True)]"
  have one: "pause_one deaf_podman 8 ?s = (Inr False, ?s1)"
    by (simp add: pause_one_def deaf_simps io_bind_def io_is_ok_def status_machine set_paused_def io_try_def io_ok_def)
  have run: "pause_each deaf_podman 1 5 [7] [8] ?s
      = (Inl Rt_WorkspacePauseFailed, machine_on open_new cleared_disk [(7, 1, False), (8, 1, True)])"
    by (simp add: io_bind_def one) (simp add: resume_workspace_owned_def numeral_3_eq_3 io_bind_def deaf_simps
        managed_machine example_lists resume_pass_def resume_one_def io_try_def inspect_machine io_is_ok_def
        status_machine set_paused_def io_ok_def clear_example io_fail_def)
  have K: "keeps ?stuck (managed_containers deaf_podman (Some 1))" "keeps ?stuck (inspect_paused deaf_podman u)"
    "u \<noteq> 8 \<Longrightarrow> keeps ?stuck (run_checked deaf_podman (unpause_spec (codec deaf_podman) (config deaf_podman) u))"
    "keeps ?stuck (clear_recovery deaf_podman 1 5)" "keeps ?stuck (sleep deaf_podman d :: (machine_state, RuntimeError, unit) io)"
    for u d
  proof -
    show "keeps ?stuck (inspect_paused deaf_podman u)"
      using machine_keeps(1) [of ?stuck u] by (simp add: keeps_def deaf_simps)
    show "keeps ?stuck (run_checked deaf_podman (unpause_spec (codec deaf_podman) (config deaf_podman) u))" if "u \<noteq> 8"
      using that by (simp add: keeps_def deaf_simps status_machine set_paused_map)
    show "keeps ?stuck (clear_recovery deaf_podman 1 5)"
      unfolding deaf_simps by (rule clear_machine) (simp add: containers_of_def)
  qed (simp_all add: deaf_simps machine_keeps)
  from failed_pause_strands_container [OF K one _ _ _ run] run show ?thesis by simp
qed

subsection \<open>A change of a workspace\<close>

lemma machine_require:
  "require_directory machine_kernel F w path = on_disk (require_directory disk_kernel F w path)"
  unfolding require_directory_def workspace_def open_beneath_def ensure_directory_def openat_def sys_def volume_of_def
  by (simp add: on_disk_structure if_on_disk del: disk_kernel_simps cong del: if_weak_cong prod.case_cong_weak)

definition fresh_disk :: disk where
  "fresh_disk = two_disk\<lparr>next_id := 9\<rparr>"

lemma require_example: "require_directory disk_kernel disk_fs 1 ''.'' fresh_disk = (Inr (), fresh_disk)"
proof -
  have "steps_of (volume_of disk_kernel 1 @ CHR ''/'' # VOLUME_DATA_DIRECTORY) = Some (workspace_dir ''1'')"
    by (simp add: volume_of_def workspace_volume_name_def decimal_1 steps_of_def path_components_def
        VOLUME_DATA_DIRECTORY_def starts_with_def workspace_dir_def List.map_filter_def Let_def)
  moreover have "checked_path ''.'' = Inr []"
    by code_simp
  moreover have "steps_of (path_text []) = Some []"
    by code_simp
  ultimately show ?thesis
    by (simp add: require_directory_def workspace_def openat_def disk_open_def io_bind_def io_map_err_def Let_def
        open_beneath_def sys_def ensure_directory_def disk_stat_def io_lift_def)
       (simp add: fresh_disk_def two_disk_def disk_fs_def workspace_dir_def node_at_def io_ok_def
        STAGING_DIRECTORY_def RECOVERY_DIRECTORY_def VOLUME_DATA_DIRECTORY_def
        is_link_def disk_stat_def io_map_err_def
        io_bind_def is_directory_def S_IFMT_def S_IFREG_def S_IFDIR_def)
qed

lemma persist_machine:
  "persist machine_kernel disk_fs example_record (machine_on j fresh_disk cs) = (Inr (), machine_on j stored_disk cs)"
proof -
  have five: "decimal 5 = ''5''" by code_simp
  have "steps_of ''.gobrowse-recovery-5'' = Some [''.gobrowse-recovery-5'']"
    by (rule steps_of_plain) (simp add: plain_name_def is_dot_def)
  moreover have "encode_record machine_kernel example_record = ''5'' @ [NL] @ ''gobrowse-7''"
    "valid_container_name machine_kernel ''gobrowse-7''"
    using example_record_text by (simp_all add: encode_record_def valid_container_name_def cong: option.case_cong)
  ultimately show ?thesis
    unfolding persist_def
    by (simp add: example_record_def Let_def io_bind_def stage_name_def five create_staged_file_def disk_open_def
        plain_example(2) node_at_def CREATE_FLAGS_def MAX_RECOVERY_RECORD_BYTES_def example_disk_defs
        fresh_disk_def sys_def sys_io_def io_map_err_def io_catch_def io_then_def io_ok_def disk_stat_def
        disk_write_def disk_rename_def decimal_1 relocate_def inside_def NL_def)
qed

lemma pause_example:
  "pause_workspace_owned machine_podman 1 (machine_on open_new fresh_disk [(7, 1, False)])
     = (Inr \<lparr>pause_workspace_id = 1, pause_terminal_ids = [7], pause_recovery_id = Some 5\<rparr>,
        machine_on open_new stored_disk [(7, 1, True)])"
proof -
  have "disk_dir [RECOVERY_DIRECTORY] fresh_disk = (Inr [], fresh_disk)"
    by (simp add: disk_dir_def fresh_disk_def two_disk_def inside_def example_disk_defs)
  then have "list_records disk_kernel disk_fs fresh_disk = (Inr [], fresh_disk)"
    by (simp add: list_records_def io_bind_def sys_def io_map_err_def disk_fs_def io_ok_def)
  then have records: "recovery_records machine_podman (machine_on open_new fresh_disk cs)
      = (Inr [], machine_on open_new fresh_disk cs)" for cs
    by (simp add: recovery_records_def store_def io_map_err_def machine_list)
  have registered: "get_host (\<lambda>h. registered_terminals 1 (registry h)) (machine_on j d cs) = (Inr [7], machine_on j d cs)"
    for j d cs
    by (simp add: get_host_def machine_on_def registered_terminals_def new_session_def lifecycle_is_terminal_def)
  have names: "\<lparr>recovery_workspace = 1, recovery_operation = 5, recovery_containers = [cname 7]\<rparr> = example_record"
    by (simp add: example_record_def container_name_def decimal_7)
  have recovered: "ensure_workspace_recovered machine_podman 1 (machine_on open_new fresh_disk [(7, 1, False)])
      = (Inr (), machine_on open_new fresh_disk [(7, 1, False)])"
    by (simp add: ensure_workspace_recovered_def io_bind_def records io_then_def remove_workspace_orphans_def
        registered managed_machine Let_def example_lists io_ok_def)
  have one: "pause_one machine_podman 7 (machine_on j d [(7, 1, False)]) = (Inr True, machine_on j d [(7, 1, True)])" for j d
    by (simp add: pause_one_def io_bind_def io_is_ok_def status_machine set_paused_def io_try_def inspect_machine io_ok_def)
  show ?thesis
    by (simp add: pause_workspace_owned_def io_then_def io_bind_def recovered managed_machine Let_def example_lists
        new_uuid_def names store_def io_map_err_def persist_machine one io_ok_def)
qed

theorem changed_workspace_runs_again_witness:
  "\<exists>t. mutate_workspace (local_filesystem machine_kernel disk_fs) (podman_services machine_podman (\<lambda>_ _. None)) 1
         None None (io_ok ()) ([], machine_on open_new fresh_disk [(7, 1, False)]) = (Inr (), t)
     \<and> (\<exists>p. fst (pause_workspace_owned machine_podman 1 (machine_on open_new fresh_disk [(7, 1, False)])) = Inr p
          \<and> 7 \<in> set (pause_terminal_ids p) \<and> list_all (not_paused 1 (snd t)) (pause_terminal_ids p))"
proof -
  have resume: "resume_workspace_owned machine_podman
       \<lparr>pause_workspace_id = 1, pause_terminal_ids = [7], pause_recovery_id = Some 5\<rparr>
       (machine_on open_new stored_disk [(7, 1, True)]) = (Inr (), machine_on open_new cleared_disk [(7, 1, False)])"
    by (simp add: resume_workspace_owned_def numeral_3_eq_3 io_bind_def managed_machine example_lists
        resume_pass_def resume_one_def io_try_def inspect_machine io_is_ok_def status_machine set_paused_def
        io_ok_def clear_example)
  have run: "mutate_workspace (local_filesystem machine_kernel disk_fs) (podman_services machine_podman (\<lambda>_ _. None)) 1
         None None (io_ok ()) ([], machine_on open_new fresh_disk [(7, 1, False)])
      = (Inr (), [1], machine_on open_new cleared_disk [(7, 1, False)])"
    by (simp add: mutate_workspace_def io_bind_def fs_call_def rt_call_def local_filesystem_def podman_services_def
        machine_require require_example workspace_lock_def pause_example chown_hook_def io_ok_def io_try_def
        is_containment_failure_def resume_guarded_def resume io_lift_def)
  show ?thesis
    using changed_workspace_runs_again [OF machine_resume_laws run] run
    by (auto simp: list_all_iff local_filesystem_def machine_require require_example pause_example)
qed

subsection \<open>Terminals of the machine\<close>

text \<open>Identifiers of 36 digits, and a start that tries to pass an option.\<close>

definition padded_codec :: uuid_codec where
  "padded_codec = \<lparr>hyphenated = \<lambda>u. decimal_padded 36 (unat u),
     parse_str = \<lambda>s. map_option word_of_nat (parse_unsigned (2 ^ 128 - 1) s)\<rparr>"

definition example_start :: ValidatedStart where
  "example_start =
     \<lparr>vs_terminal_id = 7,
      vs_request = \<lparr>req_workspace_id = 1, req_command = [''--privileged'', ''sh''],
        req_working_directory = ''--volume'', req_cols = 80, req_rows = 24, req_network_policy = Net_None,
        req_limits = \<lparr>cpu_millis = 1500, memory_bytes = 2 ^ 20, writable_storage_bytes = 2 ^ 20, pids = 64,
          execution_seconds = 60\<rparr>\<rparr>,
      vs_workspace_storage = \<lparr>volume_name = ''gobrowse-workspace-000000000000000000000000000000000001'',
        storage_device = 1, storage_inode = 2\<rparr>,
      vs_network_name = ''none''\<rparr>"

theorem start_cannot_inject_options_witness:
  "\<exists>spec opts. start_spec padded_codec machine_config None example_start = Inr spec
     \<and> spec_args spec = ''run'' # opts @ [''gobrowse/sandbox:1'', ''--privileged'', ''sh'']
     \<and> filter (\<lambda>a. starts_with a ''-'') opts = isolation_options"
proof -
  have "path_file_name ''/usr/bin/podman'' = Some ''podman''" "valid_image_reference ''gobrowse/sandbox:1''"
    by code_simp+
  then have c: "from_validated_config machine_config = Inr machine_config"
    by (simp add: from_validated_config_def machine_config_def Let_def starts_with_def MAX_READINESS_TIMEOUT_def
        MAX_CONTROL_TIMEOUT_def MAX_TERMINATION_TIMEOUT_def MAX_INPUT_WRITE_TIMEOUT_def
        MAX_ACTIVE_SESSIONS_HARD_def MAX_RETAINED_RECORDS_HARD_def)
  have "decimal_padded 36 1 = ''000000000000000000000000000000000001''" by code_simp
  then have volume: "workspace_volume_name (hyphenated padded_codec) 1
      = ''gobrowse-workspace-000000000000000000000000000000000001''"
    by (simp add: workspace_volume_name_def padded_codec_def)
  have "valid_workspace_volume_name padded_codec ''gobrowse-workspace-000000000000000000000000000000000001''"
    by (simp add: padded_codec_def valid_workspace_volume_name_def starts_with_def parse_unsigned_def
        is_ascii_digit_def byte_def)
  with volume obtain spec where spec: "start_spec padded_codec machine_config None example_start = Inr spec"
    by (simp add: start_spec_def machine_config_def example_start_def Let_def valid_runtime_network_def)
  from start_cannot_inject_options [OF c spec] spec show ?thesis
    by (auto simp: machine_config_def example_start_def)
qed

theorem parse_processes_bounded_witness:
  "\<exists>ps. parse_processes (''PID COMMAND'' @ [NL] @ ''7 sh'' @ [NL]) = Inr ps
     \<and> length ps = 1 \<and> list_all (\<lambda>p. process_pid p \<noteq> 0) ps"
proof -
  have run: "parse_processes (''PID COMMAND'' @ [NL] @ ''7 sh'' @ [NL])
      = Inr [\<lparr>process_pid = 7, process_command = ''sh''\<rparr>]"
  proof -
    note chars = utf8_width_def slice_is_ws_def is_whitespace_def byte_def
    have "is_utf8 (''PID COMMAND'' @ [NL] @ ''7 sh'' @ [NL])"
      by (simp add: is_utf8_def utf8_slice_def complete_slice_def str_defs ascii_class_defs NL_def)
    moreover have "drop 1 (str_lines (''PID COMMAND'' @ [NL] @ ''7 sh'' @ [NL])) = [''7 sh'']"
      by code_simp
    moreover have "str_trim ''7 sh'' = ''7 sh''" "str_trim ''sh'' = ''sh''"
      by (simp_all add: str_trim_def chars)
    moreover have "splitn2_whitespace ''7 sh'' = [''7'', ''sh'']"
      by (simp add: splitn2_whitespace_def chars)
    moreover have "parse_u32 ''7'' = Some 7"
      by (simp add: parse_u32_def parse_unsigned_def u32_max_def is_ascii_digit_def byte_def)
    ultimately show ?thesis
      unfolding parse_processes_def by (simp add: MAX_TERMINAL_PROCESS_COMMAND_BYTES_def MAX_TERMINAL_PROCESS_BYTES_def
          MAX_TERMINAL_PROCESSES_def MAX_PROTOCOL_LINE_BYTES_def)
  qed
  from parse_processes_bounded [OF run] run show ?thesis by simp
qed

definition typing_state :: machine_state where
  "typing_state = (example_journal, (snd (machine_on example_journal two_disk []))\<lparr>ptys := [(7, ())]\<rparr>)"

theorem applied_input_replays_witness:
  "\<exists>s'. podman_input machine_podman 7 4 ''ls'' typing_state
       = (Inr \<lparr>outcome_bytes = 2, outcome_replayed = False\<rparr>, s')
     \<and> podman_input machine_podman 7 4 ''ls'' s' = (Inr \<lparr>outcome_bytes = 2, outcome_replayed = True\<rparr>, s')"
proof -
  let ?row = "\<lparr>in_fingerprint = ''ls'', in_status = ''PENDING'', in_byte_count = None\<rparr>"
  let ?pending = "example_journal\<lparr>inputs := [((7, 4), ?row)]\<rparr>"
  let ?j = "example_journal\<lparr>inputs := [((7, 4), ?row\<lparr>in_status := ''APPLIED'', in_byte_count := Some 2\<rparr>)]\<rparr>"
  have session: "map_of (sessions (registry (snd typing_state))) 7 = Some ((new_session 7 1)\<lparr>lifecycle := LS_Running\<rparr>)"
    by (simp add: typing_state_def machine_on_def)
  have run: "podman_input machine_podman 7 4 ''ls'' typing_state
      = (Inr \<lparr>outcome_bytes = 2, outcome_replayed = False\<rparr>, (?j, snd typing_state))"
  proof -
    let ?s0 = "(new_session 7 1)\<lparr>lifecycle := LS_Running\<rparr>"
    have running: "running_session 7 typing_state = (Inr ?s0, typing_state)"
      using session by (simp add: running_session_def session_of_def get_host_def io_bind_def io_lift_def io_ok_def)
    have empty: "inputs example_journal = []" and known: "map_of (terminals example_journal) 7 \<noteq> None"
      by code_simp+
    have begun: "begin_input example_journal 7 4 ''ls'' = (Inr Input_Execute, ?pending)"
      using known by (simp add: begin_input_def empty)
    have complete: "complete_input ?pending 7 4 2 = (Inr (), ?j)"
      by (simp add: complete_input_def to_i64_def i64_max_def update_key_def)
    have digest: "en_digest machine_podman bytes = bytes" "en_pty_write machine_podman p bytes = io_ok ()" for bytes p
      by (simp_all add: machine_podman_def)
    show ?thesis
      using session
      by (simp only: podman_input_def io_bind_def [of "running_session 7"] running prod.case sum.case)
         (simp add: io_bind_def Podman_Recovery.on_journal_def begun typing_state_def digest
          apply_input_def Let_def lifecycle_of_def get_host_def current_session_def new_session_def pty_of_def
          io_try_def io_is_ok_def complete [unfolded numeral_2_eq_2] io_ok_def)
  qed
  have kept: "keeps (\<lambda>s. map_of (inputs (fst s)) (7, 4) = row) (en_pty_write machine_podman p bytes)" for p bytes row
    by (simp add: machine_podman_def)
  have own: "map_of (sessions (registry (snd typing_state))) 7 = Some s0 \<Longrightarrow> session_terminal_id s0 = 7" for s0
    using session by (auto simp: new_session_def)
  from applied_input_replays [OF kept own run, of "(?j, snd typing_state)"] session run show ?thesis by simp
qed

text \<open>An engine without volumes, which creates any.\<close>

definition blank_podman :: "(machine, unit, string list) podman_runtime" where
  "blank_podman = machine_podman\<lparr>en_output := \<lambda>c n s. (Inr (hd (tl (cmd_args c)) = ''create'', []), s)\<rparr>"

theorem first_provisioning_fails_witness:
  "fst (provision_workspace blank_podman 1 (machine_on open_new two_disk [])) = Inl Rt_WorkspaceVolumeInvalid"
proof -
  let ?s = "machine_on open_new two_disk []"
  have inspect: "run_output_bounded blank_podman (volume_inspect_spec (codec blank_podman) (config blank_podman) 1) (16 * 1024) ?s
      = (Inr (False, []), ?s)"
    and create: "run_output_bounded blank_podman (volume_create_spec (codec blank_podman) (config blank_podman) 1) (16 * 1024) ?s
      = (Inr (True, []), ?s)"
    by (simp_all add: blank_podman_def run_output_bounded_def engine_command_def spec_command_def podman_def
        volume_inspect_spec_def volume_create_spec_def io_bind_def io_ok_def)
  have "volume_fields (from_utf8_lossy []) = None" by code_simp
  from first_provisioning_fails [OF inspect this create] show ?thesis by simp
qed

end
