(* ===== verification/Sandbox_Client.thy ===== *)
theory Sandbox_Client
  imports Podman_Service Rust_Text
begin

section \<open>The client of the sandbox daemon\<close>

text \<open>
  \<open>SandboxClient\<close> of \<open>crates/gobrowse-server/src/sandbox_client.rs\<close>: the server's side of the
  protocol, one connection per request.  The socket is a parameter, the record \<open>wire\<close>: connecting,
  writing, and reading up to and including a newline, at most \<open>n\<close> bytes; each fails when the
  client's timeout passes or the peer is gone.  So are \<open>serde_json\<close> at the envelopes, base64 and
  the \<open>uuid\<close> crate.
\<close>

datatype socket_failure = Sock_Timeout | Sock_Io

record 's wire =
  wire_uuid :: "'s \<Rightarrow> uuid \<times> 's"
  wire_hyphenated :: "uuid \<Rightarrow> string"
  wire_encode :: "RequestEnvelope \<Rightarrow> string option"
  wire_decode :: "string \<Rightarrow> ResponseEnvelope option"
  wire_base64_encode :: "string \<Rightarrow> string"
  wire_base64_decode :: "string \<Rightarrow> string option"
  wire_connect :: "string \<Rightarrow> ('s, socket_failure, unit) io"
  wire_write :: "string \<Rightarrow> ('s, socket_failure, unit) io"
  wire_read_line :: "nat \<Rightarrow> ('s, socket_failure, string) io"

datatype SandboxClientError =
    Sc_Disconnected | Sc_Unauthorized | Sc_NotFound | Sc_PolicyDenied | Sc_LimitExceeded | Sc_Timeout
  | Sc_ProtocolViolation string | Sc_Internal string

record SandboxConfig =
  socket_path :: string
  auth_token :: string
  socket_timeout :: nat

type_synonym ('s, 'a) client = "('s, SandboxClientError, 'a) io"

text \<open>A client is its configuration.\<close>

definition new_client :: "SandboxConfig \<Rightarrow> SandboxClientError + SandboxConfig" where
  "new_client c =
     (if socket_path c = [] then Inl (Sc_ProtocolViolation ''sandbox socket path must not be empty'')
      else if socket_timeout c = 0 then Inl (Sc_ProtocolViolation ''sandbox socket timeout must be positive'')
      else Inr c)"

subsection \<open>One exchange\<close>

definition socket_error :: "socket_failure \<Rightarrow> SandboxClientError" where
  "socket_error e = (case e of Sock_Timeout \<Rightarrow> Sc_Timeout | Sock_Io \<Rightarrow> Sc_Disconnected)"

definition client_error :: "SandboxProtocolError \<Rightarrow> SandboxClientError" where
  "client_error e =
     (case error_code e of
        Err_Unauthorized \<Rightarrow> Sc_Unauthorized
      | Err_NotFound \<Rightarrow> Sc_NotFound
      | Err_PolicyDenied \<Rightarrow> Sc_PolicyDenied
      | Err_LimitExceeded \<Rightarrow> Sc_LimitExceeded
      | Err_DeadlineExceeded \<Rightarrow> Sc_Timeout
      | Err_Internal \<Rightarrow> Sc_Internal (error_message e)
      | _ \<Rightarrow> Sc_ProtocolViolation (error_message e))"

definition read_response :: "'s wire \<Rightarrow> uuid \<Rightarrow> string \<Rightarrow> SandboxClientError + SandboxResult" where
  "read_response W request_id line =
     (if line = [] then Inl Sc_Disconnected
      else if length line > MAX_PROTOCOL_LINE_BYTES \<or> \<not> ends_with line [NL]
      then Inl (Sc_ProtocolViolation ''response line exceeds the protocol bound or is unterminated'')
      else case wire_decode W (butlast line) of
        None \<Rightarrow> Inl (Sc_ProtocolViolation ''invalid response envelope'')
      | Some response \<Rightarrow>
          if resp_version response \<noteq> SANDBOX_PROTOCOL_VERSION
          then Inl (Sc_ProtocolViolation (''daemon replied with unsupported protocol version ''
                 @ decimal (unat (resp_version response))))
          else if resp_request_id response \<noteq> request_id
          then Inl (Sc_ProtocolViolation ''daemon echoed a mismatched request_id'')
          else map_err client_error (resp_result response))"

definition client_send :: "'s wire \<Rightarrow> SandboxConfig \<Rightarrow> SandboxOperation \<Rightarrow> ('s, SandboxResult) client" where
  "client_send W c operation s =
     (case wire_uuid W s of (request_id, s') \<Rightarrow>
        io_bind (io_lift (ok_or (wire_encode W
            \<lparr>env_version = SANDBOX_PROTOCOL_VERSION, env_request_id = request_id, env_token = auth_token c,
             env_operation = operation\<rparr>) (Sc_ProtocolViolation ''request serialization failed''))) (\<lambda>encoded.
          if length encoded \<ge> MAX_PROTOCOL_LINE_BYTES then io_fail Sc_LimitExceeded
          else io_then (io_map_err socket_error (wire_connect W (socket_path c)))
            (io_then (io_map_err socket_error (wire_write W (encoded @ [NL])))
            (io_bind (io_map_err socket_error (wire_read_line W (MAX_PROTOCOL_LINE_BYTES + 1))) (\<lambda>line.
               io_lift (read_response W request_id line))))) s')"

subsection \<open>The typed operations\<close>

text \<open>A result that has another shape than the operation's is a protocol violation.\<close>

definition unexpected :: "string \<Rightarrow> SandboxClientError + 'a" where
  "unexpected what = Inl (Sc_ProtocolViolation (''unexpected response to '' @ what))"

definition client_call ::
  "'s wire \<Rightarrow> SandboxConfig \<Rightarrow> SandboxOperation \<Rightarrow> (SandboxResult \<Rightarrow> SandboxClientError + 'a) \<Rightarrow> ('s, 'a) client" where
  "client_call W c operation accept = io_bind (client_send W c operation) (\<lambda>result. io_lift (accept result))"

definition client_health :: "'s wire \<Rightarrow> SandboxConfig \<Rightarrow> ('s, string) client" where
  "client_health W c = client_call W c Op_Health (\<lambda>result.
     case result of Res_Health status \<Rightarrow> Inr status | _ \<Rightarrow> unexpected ''health'')"

definition client_provision_workspace :: "'s wire \<Rightarrow> SandboxConfig \<Rightarrow> uuid \<Rightarrow> ('s, unit) client" where
  "client_provision_workspace W c w = client_call W c (Op_ProvisionWorkspace w) (\<lambda>result.
     case result of
       Res_Provisioned echoed \<Rightarrow>
         if echoed = w then Inr ()
         else Inl (Sc_ProtocolViolation (''daemon provisioned a mismatched workspace id '' @ wire_hyphenated W echoed))
     | _ \<Rightarrow> unexpected ''provision_workspace'')"

definition client_fs_list :: "'s wire \<Rightarrow> SandboxConfig \<Rightarrow> uuid \<Rightarrow> string \<Rightarrow> ('s, FilesystemEntry list) client" where
  "client_fs_list W c w path = client_call W c (Op_FsList w path) (\<lambda>result.
     case result of Res_FsList es \<Rightarrow> Inr es | _ \<Rightarrow> unexpected ''fs_list'')"

definition client_fs_read :: "'s wire \<Rightarrow> SandboxConfig \<Rightarrow> uuid \<Rightarrow> string \<Rightarrow> ('s, string \<times> string) client" where
  "client_fs_read W c w path = client_call W c (Op_FsRead w path) (\<lambda>result.
     case result of
       Res_FsRead data digest \<Rightarrow>
         and_then (ok_or (wire_base64_decode W data) (Sc_ProtocolViolation ''invalid file payload'')) (\<lambda>bytes.
           Inr (bytes, digest))
     | _ \<Rightarrow> unexpected ''fs_read'')"

definition client_fs_write ::
  "'s wire \<Rightarrow> SandboxConfig \<Rightarrow> uuid \<Rightarrow> string \<Rightarrow> string \<Rightarrow> ('s, nat \<times> string) client" where
  "client_fs_write W c w path data =
     (if length data > MAX_FILE_PAYLOAD_BYTES then io_fail Sc_LimitExceeded
      else client_call W c (Op_FsWrite w path (wire_base64_encode W data)) (\<lambda>result.
        case result of Res_FsWritten bytes digest \<Rightarrow> Inr (bytes, digest) | _ \<Rightarrow> unexpected ''fs_write''))"

definition client_fs_mkdir :: "'s wire \<Rightarrow> SandboxConfig \<Rightarrow> uuid \<Rightarrow> string \<Rightarrow> ('s, unit) client" where
  "client_fs_mkdir W c w path = client_call W c (Op_FsMkdir w path) (\<lambda>result.
     case result of Res_FsCreated \<Rightarrow> Inr () | _ \<Rightarrow> unexpected ''fs_mkdir'')"

definition client_fs_stat :: "'s wire \<Rightarrow> SandboxConfig \<Rightarrow> uuid \<Rightarrow> string \<Rightarrow> ('s, FilesystemMetadata) client" where
  "client_fs_stat W c w path = client_call W c (Op_FsMetadata w path) (\<lambda>result.
     case result of Res_FsMetadata m \<Rightarrow> Inr m | _ \<Rightarrow> unexpected ''fs_metadata'')"

definition client_fs_delete :: "'s wire \<Rightarrow> SandboxConfig \<Rightarrow> uuid \<Rightarrow> string \<Rightarrow> ('s, unit) client" where
  "client_fs_delete W c w path = client_call W c (Op_FsDelete w path) (\<lambda>result.
     case result of Res_FsDeleted \<Rightarrow> Inr () | _ \<Rightarrow> unexpected ''fs_delete'')"

record Started =
  started_terminal_id :: uuid
  started_limits :: ResourceLimits
  started_network_policy :: NetworkPolicy

definition client_terminal_start ::
  "'s wire \<Rightarrow> SandboxConfig \<Rightarrow> uuid \<Rightarrow> TerminalStartRequest \<Rightarrow> ('s, Started) client" where
  "client_terminal_start W c t request = client_call W c (Op_Start t request) (\<lambda>result.
     case result of
       Res_Started echoed limits policy \<Rightarrow>
         if echoed = t
         then Inr \<lparr>started_terminal_id = t, started_limits = limits, started_network_policy = policy\<rparr>
         else unexpected ''terminal start''
     | _ \<Rightarrow> unexpected ''terminal start'')"

record InputAccepted =
  accepted_input_id :: uuid
  accepted_bytes :: nat
  accepted_replayed :: bool

definition client_terminal_input ::
  "'s wire \<Rightarrow> SandboxConfig \<Rightarrow> uuid \<Rightarrow> uuid \<Rightarrow> string \<Rightarrow> ('s, InputAccepted) client" where
  "client_terminal_input W c t input_id data =
     (if length data > MAX_TERMINAL_INPUT_BYTES then io_fail Sc_LimitExceeded
      else client_call W c (Op_Input t input_id (wire_base64_encode W data)) (\<lambda>result.
        case result of
          Res_InputAccepted echoed bytes again \<Rightarrow>
            if echoed = input_id
            then Inr \<lparr>accepted_input_id = input_id, accepted_bytes = bytes, accepted_replayed = again\<rparr>
            else unexpected ''terminal input''
        | _ \<Rightarrow> unexpected ''terminal input''))"

record TerminalOutput =
  output_terminal_id :: uuid
  output_start :: u64
  output_next :: u64
  output_data :: string
  output_state :: TerminalState
  output_finished :: bool

definition client_terminal_read_output ::
  "'s wire \<Rightarrow> SandboxConfig \<Rightarrow> uuid \<Rightarrow> u64 \<Rightarrow> u32 \<Rightarrow> u32 \<Rightarrow> ('s, TerminalOutput) client" where
  "client_terminal_read_output W c t after_cursor max_bytes wait_ms =
     (if max_bytes > word_of_nat MAX_TERMINAL_OUTPUT_READ_BYTES then io_fail Sc_LimitExceeded
      else client_call W c (Op_ReadOutput t after_cursor max_bytes wait_ms) (\<lambda>result.
        case result of
          Res_Output echoed start next data state finished \<Rightarrow>
            if echoed = t
            then and_then (ok_or (wire_base64_decode W data) (Sc_ProtocolViolation ''invalid terminal output''))
                   (\<lambda>bytes. Inr \<lparr>output_terminal_id = t, output_start = start, output_next = next,
                      output_data = bytes, output_state = state, output_finished = finished\<rparr>)
            else unexpected ''terminal read_output''
        | _ \<Rightarrow> unexpected ''terminal read_output''))"

definition client_terminal_resize :: "'s wire \<Rightarrow> SandboxConfig \<Rightarrow> uuid \<Rightarrow> u16 \<Rightarrow> u16 \<Rightarrow> ('s, unit) client" where
  "client_terminal_resize W c t cols rows = client_call W c (Op_Resize t cols rows) (\<lambda>result.
     case result of Res_Resized \<Rightarrow> Inr () | _ \<Rightarrow> unexpected ''terminal resize'')"

definition client_terminal_interrupt :: "'s wire \<Rightarrow> SandboxConfig \<Rightarrow> uuid \<Rightarrow> ('s, unit) client" where
  "client_terminal_interrupt W c t = client_call W c (Op_Interrupt t) (\<lambda>result.
     case result of Res_Interrupted \<Rightarrow> Inr () | _ \<Rightarrow> unexpected ''terminal interrupt'')"

definition client_terminal_terminate :: "'s wire \<Rightarrow> SandboxConfig \<Rightarrow> uuid \<Rightarrow> ('s, unit) client" where
  "client_terminal_terminate W c t = client_call W c (Op_Terminate t) (\<lambda>result.
     case result of Res_Terminated \<Rightarrow> Inr () | _ \<Rightarrow> unexpected ''terminal terminate'')"

definition client_terminal_reconnect :: "'s wire \<Rightarrow> SandboxConfig \<Rightarrow> uuid \<Rightarrow> ('s, TerminalSnapshot) client" where
  "client_terminal_reconnect W c t = client_call W c (Op_Reconnect t) (\<lambda>result.
     case result of
       Res_Reconnected snap \<Rightarrow> if snap_terminal_id snap = t then Inr snap else unexpected ''terminal reconnect''
     | _ \<Rightarrow> unexpected ''terminal reconnect'')"

definition client_terminal_processes :: "'s wire \<Rightarrow> SandboxConfig \<Rightarrow> uuid \<Rightarrow> ('s, SandboxProcess list) client" where
  "client_terminal_processes W c t = client_call W c (Op_Processes t) (\<lambda>result.
     case result of Res_Processes processes \<Rightarrow> Inr processes | _ \<Rightarrow> unexpected ''terminal processes'')"

definition client_terminal_inspect :: "'s wire \<Rightarrow> SandboxConfig \<Rightarrow> uuid \<Rightarrow> ('s, TerminalSnapshot) client" where
  "client_terminal_inspect W c t = client_call W c (Op_Inspect t) (\<lambda>result.
     case result of
       Res_Inspected snap \<Rightarrow> if snap_terminal_id snap = t then Inr snap else unexpected ''terminal inspect''
     | _ \<Rightarrow> unexpected ''terminal inspect'')"

definition client_terminal_kill :: "'s wire \<Rightarrow> SandboxConfig \<Rightarrow> uuid \<Rightarrow> u32 \<Rightarrow> ('s, unit) client" where
  "client_terminal_kill W c t pid = client_call W c (Op_Kill t pid) (\<lambda>result.
     case result of Res_Killed echoed \<Rightarrow> if echoed = pid then Inr () else unexpected ''terminal kill''
     | _ \<Rightarrow> unexpected ''terminal kill'')"

subsection \<open>Results have the shape of their operation\<close>

text \<open>The results that the typed operations accept; the protocol has one shape for each operation.\<close>

definition fits :: "SandboxOperation \<Rightarrow> SandboxResult \<Rightarrow> bool" where
  "fits operation result =
     (case operation of
        Op_Health \<Rightarrow> (case result of Res_Health _ \<Rightarrow> True | _ \<Rightarrow> False)
      | Op_ProvisionWorkspace w \<Rightarrow> result = Res_Provisioned w
      | Op_Start t _ \<Rightarrow> (case result of Res_Started t' _ _ \<Rightarrow> t' = t | _ \<Rightarrow> False)
      | Op_Input _ i _ \<Rightarrow> (case result of Res_InputAccepted i' _ _ \<Rightarrow> i' = i | _ \<Rightarrow> False)
      | Op_ReadOutput t _ _ _ \<Rightarrow> (case result of Res_Output t' _ _ _ _ _ \<Rightarrow> t' = t | _ \<Rightarrow> False)
      | Op_AckOutput _ _ \<Rightarrow> (case result of Res_OutputAcked _ \<Rightarrow> True | _ \<Rightarrow> False)
      | Op_Resize _ _ _ \<Rightarrow> result = Res_Resized
      | Op_Interrupt _ \<Rightarrow> result = Res_Interrupted
      | Op_Processes _ \<Rightarrow> (case result of Res_Processes _ \<Rightarrow> True | _ \<Rightarrow> False)
      | Op_Kill _ pid \<Rightarrow> result = Res_Killed pid
      | Op_Terminate _ \<Rightarrow> result = Res_Terminated
      | Op_Inspect t \<Rightarrow> (case result of Res_Inspected snap \<Rightarrow> snap_terminal_id snap = t | _ \<Rightarrow> False)
      | Op_Reconnect t \<Rightarrow> (case result of Res_Reconnected snap \<Rightarrow> snap_terminal_id snap = t | _ \<Rightarrow> False)
      | Op_FsList _ _ \<Rightarrow> (case result of Res_FsList _ \<Rightarrow> True | _ \<Rightarrow> False)
      | Op_FsRead _ _ \<Rightarrow> (case result of Res_FsRead _ _ \<Rightarrow> True | _ \<Rightarrow> False)
      | Op_FsMetadata _ _ \<Rightarrow> (case result of Res_FsMetadata _ \<Rightarrow> True | _ \<Rightarrow> False)
      | Op_FsSearch _ _ _ \<Rightarrow> (case result of Res_FsSearch _ \<Rightarrow> True | _ \<Rightarrow> False)
      | Op_FsWrite _ _ _ \<Rightarrow> (case result of Res_FsWritten _ _ \<Rightarrow> True | _ \<Rightarrow> False)
      | Op_FsPatch _ _ _ _ \<Rightarrow> (case result of Res_FsPatched _ _ \<Rightarrow> True | _ \<Rightarrow> False)
      | Op_FsMkdir _ _ \<Rightarrow> result = Res_FsCreated
      | Op_FsMove _ _ _ \<Rightarrow> result = Res_FsMoved
      | Op_FsCopy _ _ _ \<Rightarrow> result = Res_FsCopied
      | Op_FsDelete _ _ \<Rightarrow> result = Res_FsDeleted)"

text \<open>\<open>gives_result Q m\<close>: every result of the operation satisfies \<open>Q\<close>.\<close>

abbreviation gives_result :: "('a \<Rightarrow> bool) \<Rightarrow> ('s, 'e, 'a) io \<Rightarrow> bool" where
  "gives_result Q m \<equiv> yields (\<lambda>_. True) Q m"

lemma gives_result_bind: "(\<And>x. gives_result Q (f x)) \<Longrightarrow> gives_result Q (io_bind m f)"
  by (rule yields_bind [where R = "\<lambda>_. True"]) (simp_all add: yields_def)

lemma gives_result_map: "(\<And>x. Q (f x)) \<Longrightarrow> gives_result Q (io_result f m)"
  unfolding io_result_def by (intro gives_result_bind yields_ok)

lemma inspect_gives:
  assumes "\<And>t s snap s'. rt_inspect R t s = (Inr snap, s') \<Longrightarrow> snap_terminal_id snap = t"
    and "\<And>snap. snap_terminal_id snap = t \<Longrightarrow> Q (f snap)"
  shows "gives_result Q (io_result f (rt_call (rt_inspect R t)))"
  unfolding io_result_def
proof (rule yields_bind [where R = "\<lambda>snap. snap_terminal_id snap = t"])
  have "snap_terminal_id snap = t" if "rt_inspect R t e = (r, e')" "r = Inr snap" for e r e' snap
    using assms(1) that by blast
  then show "gives_result (\<lambda>snap. snap_terminal_id snap = t) (rt_call (rt_inspect R t))"
    unfolding yields_def rt_call_def
    by (auto split: prod.split)
qed (auto intro: yields_ok assms(2))

lemma dispatch_fits:
  assumes "\<And>t s snap s'. rt_inspect R t s = (Inr snap, s') \<Longrightarrow> snap_terminal_id snap = t"
  shows "gives_result (fits operation) (dispatch cfg X F R operation)"
proof (cases "terminal_id operation = Some 0")
  case True
  then show ?thesis by (simp add: dispatch_def)
next
  case False
  show ?thesis
  proof (cases operation)
    case (Op_Inspect t)
    with False show ?thesis
      by (simp add: dispatch_def) (rule inspect_gives [of R, OF assms], simp_all add: fits_def)
  next
    case (Op_Reconnect t)
    with False show ?thesis
      by (simp add: dispatch_def) (rule inspect_gives [of R, OF assms], simp_all add: fits_def)
  qed (use False in \<open>auto simp: dispatch_def dispatch_start_def dispatch_read_output_def fits_def Let_def
          intro!: gives_result_bind gives_result_map yields_ok\<close>)
qed

lemma query_record_names: "query_record j t = Inr r \<Longrightarrow> rec_terminal_id r = t"
  by (auto simp: query_record_def split: option.splits)

lemma podman_inspect_names:
  assumes "rt_inspect (podman_services P timer) t s = (Inr snap, s')"
  shows "snap_terminal_id snap = t"
proof -
  have "gives_result (\<lambda>r. rec_terminal_id r = t) (podman_inspect t)"
    by (simp add: yields_def podman_inspect_def journal_record_def Podman_Recovery.on_journal_def
        inspect_def) (blast dest: query_record_names)
  moreover have "rt_inspect (podman_services P timer) t = io_bind (podman_inspect t) (\<lambda>r. io_ok (snapshot_of r))"
    by (simp add: podman_services_def)
  ultimately have "gives_result (\<lambda>snap. snap_terminal_id snap = t) (rt_inspect (podman_services P timer) t)"
    by (simp only:) (erule yields_bind, rule yields_ok, simp add: snapshot_of_def)
  then show ?thesis using assms yieldsD(2) [of "\<lambda>_. True" _ _ s snap] by force
qed

text \<open>
  Property C29: the daemon answers every operation with a result of the shape its client accepts, for
  the same terminal, input, process or workspace.  No answer of the daemon is \<open>unexpected\<close>.
\<close>

theorem answers_fit_operation:
  "case fst (dispatch cfg X F (podman_services P timer) operation s) of
     Inl _ \<Rightarrow> True | Inr result \<Rightarrow> fits operation result"
proof -
  have "gives_result (fits operation) (dispatch cfg X F (podman_services P timer) operation)"
    by (rule dispatch_fits, rule podman_inspect_names)
  then show ?thesis by (auto split: sum.split dest: yieldsD(2))
qed

subsection \<open>The client and the daemon together\<close>

text \<open>
  A socket whose peer is the daemon.  The state is the next request identifier, the daemon, and
  the bytes it has sent; \<open>enc\<close> encodes a request.
\<close>

definition daemon_wire ::
  "(RequestEnvelope \<Rightarrow> string option) \<Rightarrow> (uuid \<Rightarrow> string) \<Rightarrow> DaemonConfig \<Rightarrow> externals \<Rightarrow> 'w filesystem \<Rightarrow> 'w runtime
     \<Rightarrow> string \<Rightarrow> (uuid \<times> 'w daemon_state \<times> string) wire" where
  "daemon_wire enc hyph cfg X F R expected =
     \<lparr>wire_uuid = \<lambda>(u, r). (u, (u + 1, r)),
      wire_hyphenated = hyph,
      wire_encode = enc,
      wire_decode = decode (response_codec X),
      wire_base64_encode = base64_encode X,
      wire_base64_decode = base64_decode X,
      wire_connect = (\<lambda>_. io_ok ()),
      wire_write = (\<lambda>bytes (u, d, out).
        case handle_line cfg X F R expected (butlast bytes) d of
          None \<Rightarrow> (Inr (), (u, d, []))
        | Some (response, d') \<Rightarrow>
            (Inr (), (u, d', case write_response X response of Inl _ \<Rightarrow> [] | Inr out \<Rightarrow> out))),
      wire_read_line = (\<lambda>n (u, d, out). (Inr (fst (read_until out)), (u, d, snd (read_until out))))\<rparr>"

text \<open>
  What is relied on of \<open>serde_json\<close>: a request that is encoded is parsed again, has the shape that
  the daemon checks, and is one line; a response that is encoded is one line and is decoded again.
\<close>

definition wire_laws :: "(RequestEnvelope \<Rightarrow> string option) \<Rightarrow> externals \<Rightarrow> bool" where
  "wire_laws enc X \<longleftrightarrow>
     (\<forall>request line. enc request = Some line \<longrightarrow>
        parse_request X line = Some request \<and> line \<noteq> [] \<and> CHR 0x0D \<notin> set line \<and> CHR 0x0A \<notin> set line
        \<and> (case parse_value X line of None \<Rightarrow> False | Some v \<Rightarrow> valid_wire_shape v))
     \<and> (\<forall>response out. encode (response_codec X) response = Some out \<longrightarrow>
        decode (response_codec X) out = Some response \<and> CHR 0x0A \<notin> set out)"

lemma find_newline: "CHR 0x0A \<notin> set out \<Longrightarrow> find_index (\<lambda>c. c = CHR 0x0A) (out @ CHR 0x0A # rest) = Some (length out)"
  by (induction out) auto

lemma read_until_line:
  assumes "CHR 0x0A \<notin> set out" "length out + 1 \<le> MAX_PROTOCOL_LINE_BYTES"
  shows "read_until (out @ [CHR 0x0A]) = (out @ [CHR 0x0A], [])"
proof -
  have "take (MAX_PROTOCOL_LINE_BYTES + 1) (out @ [CHR 0x0A]) = out @ [CHR 0x0A]" using assms(2) by simp
  then show ?thesis
    using find_newline [OF assms(1), of "[]"] by (simp add: read_until_def Let_def)
qed

text \<open>
  The state in which an operation is dispatched: a terminal mutation has its row in the journal first.
\<close>

definition reserved ::
  "externals \<Rightarrow> uuid \<Rightarrow> string \<Rightarrow> SandboxOperation \<Rightarrow> 'w dispatch_state \<Rightarrow> 'w dispatch_state" where
  "reserved X u fp operation s =
     (case terminal_mutation operation of
        None \<Rightarrow> s
      | Some (t, kind) \<Rightarrow> snd (on_journal (\<lambda>j. begin_mutation (decode (response_codec X)) j u t kind fp) s))"

definition recorded_operation :: "SandboxOperation \<Rightarrow> bool" where
  "recorded_operation operation \<longleftrightarrow> is_non_idempotent operation \<or> terminal_mutation operation \<noteq> None"

lemma completed_mutation:
  assumes "map_of (mutations j) u = Some r" "mut_status r = ''PENDING''" "encode C response = Some out"
  obtains j' where "complete_mutation (encode C) j u response = (Inr (), j')"
  using assms by (auto simp: complete_mutation_def)

lemma first_run_handled:
  assumes "recorded_operation operation \<Longrightarrow> op_fingerprint X operation = Some fp"
    and "recorded_operation operation \<Longrightarrow> fst (begin_request cache (env_request_id request) fp) = Execute"
    and "env_operation request = operation"
    and "terminal_mutation operation \<noteq> None \<Longrightarrow> map_of (mutations j) (env_request_id request) = None"
    and "response_for cfg X F R (env_request_id request) operation
           (reserved X (env_request_id request) fp operation (locks, j, w)) = (response, locks', j', w')"
    and "terminal_mutation operation \<noteq> None \<Longrightarrow>
           \<exists>r. map_of (mutations j') (env_request_id request) = Some r \<and> mut_status r = ''PENDING''"
    and "encode (response_codec X) response = Some out"
  shows "\<exists>cache' j''. handle_request cfg X F R request (cache, locks, j, w) = Some (response, cache', locks', j'', w')
     \<and> (terminal_mutation operation = None \<longrightarrow> j'' = j')
     \<and> (recorded_operation operation \<longrightarrow>
          begin_request cache' (env_request_id request) fp = (Cached response, cache'))"
proof -
  let ?u = "env_request_id request"
  obtain cache1 where first: "recorded_operation operation \<Longrightarrow> begin_request cache ?u fp = (Execute, cache1)"
    using assms(2) by (metis prod.collapse)
  let ?cache' = "snd (complete_request cache1 ?u fp response)"
  have cached: "recorded_operation operation \<Longrightarrow> begin_request ?cache' ?u fp = (Cached response, ?cache')"
    using completed_is_cached [OF first] .
  show ?thesis
  proof (cases "terminal_mutation operation")
    case None
    with assms(1,3,5) first cached show ?thesis
      by (cases "is_non_idempotent operation")
         (auto simp: handle_request_def recorded_operation_def reserved_def replayed_def Let_def)
  next
    case (Some tk)
    obtain t kind where tk: "tk = (t, kind)" by (cases tk)
    have rec: "recorded_operation operation" using Some by (simp add: recorded_operation_def)
    obtain r where r: "map_of (mutations j') ?u = Some r" "mut_status r = ''PENDING''" using assms(6) Some by auto
    obtain j'' where completed: "complete_mutation (encode (response_codec X)) j' ?u response = (Inr (), j'')"
      by (rule completed_mutation [OF r assms(7)])
    obtain j1 where row: "begin_mutation (decode (response_codec X)) j ?u t kind fp = (Inr Mutation_Execute, j1)"
      using assms(4) Some by (auto simp: begin_mutation_def)
    have "execute_mutation cfg X F R request t kind fp (locks, j, w) = (response, locks', j'', w')"
      using row assms(3,5) completed Some
      by (simp add: execute_mutation_def on_journal_def Let_def reserved_def tk complete_recorded_def)
    with assms(1,3) first cached rec Some tk show ?thesis
      by (auto simp: handle_request_def replayed_def Let_def)
  qed
qed

text \<open>
  Property C28: what the client returns is what the dispatcher answered.  For a client with the
  daemon's token, whose request fits into a line and whose answer does, and an operation of any kind
  under an identifier that is used for the first time (an operation that is recorded finds room for
  its record, and a terminal mutation its row in the journal when it ends), the result of the client
  is the result of the dispatcher, an error as the error of its code; locks and services are
  left as the dispatcher leaves them; and a recorded operation is kept in the replay cache with this
  very answer.
\<close>

theorem client_gets_dispatched_result:
  fixes hyph :: "uuid \<Rightarrow> string" and R :: "'w runtime"
  assumes laws: "wire_laws enc X"
    and u: "u \<noteq> 0" and token: "length (auth_token c) \<le> MAX_TOKEN_BYTES"
    and line: "enc \<lparr>env_version = SANDBOX_PROTOCOL_VERSION, env_request_id = u, env_token = auth_token c,
             env_operation = operation\<rparr> = Some line" "length line < MAX_PROTOCOL_LINE_BYTES"
    and first: "recorded_operation operation \<Longrightarrow> op_fingerprint X operation = Some fp"
      "recorded_operation operation \<Longrightarrow> fst (begin_request cache u fp) = Execute"
      "terminal_mutation operation \<noteq> None \<Longrightarrow> map_of (mutations j) u = None"
    and served: "response_for cfg X F R u operation (reserved X u fp operation (locks, j, w))
             = (response, locks', j', w')"
    and row: "terminal_mutation operation \<noteq> None \<Longrightarrow>
             \<exists>r. map_of (mutations j') u = Some r \<and> mut_status r = ''PENDING''"
    and answer: "encode (response_codec X) response = Some out" "length out + 1 \<le> MAX_PROTOCOL_LINE_BYTES"
  shows "\<exists>cache' j''.
     client_send (daemon_wire enc hyph cfg X F R (sha256 X (auth_token c))) c operation (u, (cache, locks, j, w), pending) =
       (map_err client_error (resp_result response), (u + 1, (cache', locks', j'', w'), []))
   \<and> (terminal_mutation operation = None \<longrightarrow> j'' = j')
   \<and> (recorded_operation operation \<longrightarrow> begin_request cache' u fp = (Cached response, cache'))
   \<and> resp_result response = (case expired R operation (reserved X u fp operation (locks, j, w)) of
        Some _ \<Rightarrow> resp_result (error_response u De_OperationTimeout)
      | None \<Rightarrow> (case fst (dispatch cfg X F R operation (reserved X u fp operation (locks, j, w))) of
           Inr result \<Rightarrow> Inr result | Inl e \<Rightarrow> resp_result (error_response u e)))"
proof -
  let ?req = "\<lparr>env_version = SANDBOX_PROTOCOL_VERSION, env_request_id = u, env_token = auth_token c,
             env_operation = operation\<rparr>"
  have parsed: "parse_request X line = Some ?req" "line \<noteq> []" "CHR 0x0D \<notin> set line" "CHR 0x0A \<notin> set line"
    "case parse_value X line of None \<Rightarrow> False | Some v \<Rightarrow> valid_wire_shape v"
    using laws line(1) unfolding wire_laws_def by blast+
  have decoded: "decode (response_codec X) out = Some response" "CHR 0x0A \<notin> set out"
    using laws answer(1) unfolding wire_laws_def by blast+
  have named: "resp_version response = SANDBOX_PROTOCOL_VERSION" "resp_request_id response = u"
    using served by (auto simp: response_for_def error_response_def split: option.splits prod.splits sum.splits)
  have admitted: "admit X (sha256 X (auth_token c)) line = Inr ?req"
    using parsed line(2) u token
    by (auto simp: admit_def list_ex_iff Let_def verify_token_def split: option.splits)
  obtain cache' j'' where run: "handle_request cfg X F R ?req (cache, locks, j, w) = Some (response, cache', locks', j'', w')"
    and kept: "terminal_mutation operation = None \<longrightarrow> j'' = j'"
      "recorded_operation operation \<longrightarrow> begin_request cache' u fp = (Cached response, cache')"
    using first_run_handled [of operation X fp cache ?req j cfg F R locks w response locks' j' w' out]
      first served row answer(1) by auto
  have handled: "handle_line cfg X F R (sha256 X (auth_token c)) line (cache, locks, j, w)
      = Some (response, cache', locks', j'', w')"
    using admitted run by (simp add: handle_line_def)
  have written: "write_response X response = Inr (out @ [CHR 0x0A])"
    using answer by (simp add: write_response_def)
  have "client_send (daemon_wire enc hyph cfg X F R (sha256 X (auth_token c))) c operation (u, (cache, locks, j, w), pending) =
      (map_err client_error (resp_result response), (u + 1, (cache', locks', j'', w'), []))"
    using line answer(2) decoded named
    by (simp add: client_send_def daemon_wire_def handled written read_until_line NL_def io_then_def io_bind_def
        io_map_err_def io_ok_def io_lift_def read_response_def ends_with_def)
  moreover have "resp_result response = (case expired R operation (reserved X u fp operation (locks, j, w)) of
        Some _ \<Rightarrow> resp_result (error_response u De_OperationTimeout)
      | None \<Rightarrow> (case fst (dispatch cfg X F R operation (reserved X u fp operation (locks, j, w))) of
           Inr result \<Rightarrow> Inr result | Inl e \<Rightarrow> resp_result (error_response u e)))"
    using served by (auto simp: response_for_def split: option.splits prod.splits sum.splits)
  ultimately show ?thesis using kept by (intro exI conjI)
qed

text \<open>A client that ends a terminal: an operation that is recorded in the cache and in the journal.\<close>

definition terminate_encode :: "RequestEnvelope \<Rightarrow> string option" where
  "terminate_encode r = (if r = terminate_request then Some ''terminate!'' else None)"

theorem client_gets_dispatched_result_witness:
  "fst (client_send (daemon_wire terminate_encode (\<lambda>_. []) sample_config sample_externals idle_filesystem
      idle_runtime ''secret'') \<lparr>socket_path = ''/run/s'', auth_token = ''secret'', socket_timeout = 5\<rparr>
      (Op_Terminate 1) (9, sample_daemon, [])) = Inr Res_Terminated"
proof -
  let ?c = "\<lparr>socket_path = ''/run/s'', auth_token = ''secret'', socket_timeout = 5\<rparr>"
  let ?cache = "\<lparr>capacity = 1, entries = [], order = [], next_notify = 0\<rparr>"
  let ?row = "snd (begin_mutation (decode sample_codec) open_new 9 1 ''terminate'' ''op'')"
  have laws: "wire_laws terminate_encode sample_externals"
    by (auto simp: wire_laws_def terminate_encode_def sample_externals_def valid_wire_shape_def allowed_fields_def
        sample_codec_def sample_shape_def split: if_splits)
  have token: "length (auth_token ?c) \<le> MAX_TOKEN_BYTES" by (simp add: MAX_TOKEN_BYTES_def)
  have line: "terminate_encode \<lparr>env_version = SANDBOX_PROTOCOL_VERSION, env_request_id = 9,
      env_token = auth_token ?c, env_operation = Op_Terminate 1\<rparr> = Some ''terminate!''"
    by (simp add: terminate_encode_def terminate_request_def SANDBOX_PROTOCOL_VERSION_def)
  have tm: "terminal_mutation (Op_Terminate 1) = Some (1, ''terminate'')"
    "op_fingerprint sample_externals (Op_Terminate 1) = Some ''op''"
    by (simp_all add: terminal_mutation_def op_fingerprint_def sample_externals_def)
  have codec: "response_codec sample_externals = sample_codec" by (simp add: sample_externals_def)
  have res: "reserved sample_externals 9 ''op'' (Op_Terminate 1) ([], open_new, ()) = ([], ?row, ())"
    by (simp add: reserved_def tm codec on_journal_def split: prod.split)
  have served: "response_for sample_config sample_externals idle_filesystem idle_runtime 9 (Op_Terminate 1)
      (reserved sample_externals 9 ''op'' (Op_Terminate 1) ([], open_new, ())) = (sample_response, [], ?row, ())"
    unfolding res by (simp add: response_for_def dispatch_def terminal_id_def
        idle_runtime_def io_defs io_result_def rt_call_def sample_response_def SANDBOX_PROTOCOL_VERSION_def)
  have row: "\<exists>r. map_of (mutations ?row) 9 = Some r \<and> mut_status r = ''PENDING''"
    by (simp add: begin_mutation_def open_new_def)
  obtain cache' j'' where "client_send (daemon_wire terminate_encode (\<lambda>_. []) sample_config sample_externals
      idle_filesystem idle_runtime (sha256 sample_externals (auth_token ?c))) ?c (Op_Terminate 1)
        (9, (?cache, [], open_new, ()), [])
      = (map_err client_error (resp_result sample_response), (9 + 1, (cache', [], j'', ()), []))"
    using client_gets_dispatched_result [where line = "''terminate!''" and out = "''ok''" and hyph = "\<lambda>_. []"
        and pending = "[]" and cache = ?cache and fp = "''op''",
        OF laws _ token line _ _ _ _ served row]
    by (auto simp: tm codec begin_request_def open_new_def sample_codec_def MAX_PROTOCOL_LINE_BYTES_def
        insert_pending_def)
  then show ?thesis
    by (simp add: sample_externals_def sample_daemon_def sample_response_def)
qed

end
