(* ===== verification/Server_Core.thy ===== *)
theory Server_Core
  imports Effects_Loops Rust_Text
begin

section \<open>Errors and the database of the server\<close>

text \<open>
  \<open>AppError\<close> of \<open>crates/gobrowse-server/src/error.rs\<close>, and what the handlers of the server use of
  PostgreSQL.  Tables are lists of rows in the order of insertion; a query is a function on the
  tables, as its text says.  Any query may fail: the list \<open>faults\<close> says which of the next ones do,
  and with what; when the list is used up all succeed.  \<open>memory\<close> is what a handler keeps outside of
  the database.
\<close>

subsection \<open>Errors\<close>

datatype AppError =
    App_Unauthorized | App_Forbidden | App_NotFound | App_Conflict string | App_Validation string
  | App_ServiceUnavailable string | App_PreconditionRequired | App_RateLimited
  | App_Database string | App_Internal string

record ApiError =
  api_code :: string
  api_message :: string
  api_correlation_id :: uuid

definition app_error_text :: "AppError \<Rightarrow> string" where
  "app_error_text e =
     (case e of
        App_Unauthorized \<Rightarrow> ''authentication required''
      | App_Forbidden \<Rightarrow> ''permission denied''
      | App_NotFound \<Rightarrow> ''resource not found''
      | App_Conflict what \<Rightarrow> ''request conflicts with current state: '' @ what
      | App_Validation what \<Rightarrow> ''invalid request: '' @ what
      | App_ServiceUnavailable what \<Rightarrow> ''service unavailable: '' @ what
      | App_PreconditionRequired \<Rightarrow> ''re-authentication required''
      | App_RateLimited \<Rightarrow> ''too many requests''
      | App_Database _ \<Rightarrow> ''database operation failed''
      | App_Internal _ \<Rightarrow> ''internal operation failed'')"

definition error_status :: "AppError \<Rightarrow> nat \<times> string" where
  "error_status e =
     (case e of
        App_Unauthorized \<Rightarrow> (401, ''unauthorized'')
      | App_Forbidden \<Rightarrow> (403, ''forbidden'')
      | App_NotFound \<Rightarrow> (404, ''not_found'')
      | App_Conflict _ \<Rightarrow> (409, ''conflict'')
      | App_Validation _ \<Rightarrow> (422, ''validation'')
      | App_ServiceUnavailable _ \<Rightarrow> (503, ''service_unavailable'')
      | App_PreconditionRequired \<Rightarrow> (428, ''reauthentication_required'')
      | App_RateLimited \<Rightarrow> (429, ''rate_limited'')
      | App_Database _ \<Rightarrow> (500, ''internal'')
      | App_Internal _ \<Rightarrow> (500, ''internal''))"

definition into_response :: "AppError \<Rightarrow> uuid \<Rightarrow> nat \<times> ApiError" where
  "into_response e correlation_id =
     (fst (error_status e),
      \<lparr>api_code = snd (error_status e),
       api_message =
         (case e of
            App_Database _ \<Rightarrow> ''The operation failed. Use the correlation ID in server diagnostics.''
          | App_Internal _ \<Rightarrow> ''The operation failed. Use the correlation ID in server diagnostics.''
          | _ \<Rightarrow> app_error_text e),
       api_correlation_id = correlation_id\<rparr>)"

text \<open>What the database or a library says is never sent to a client.\<close>

lemma internal_detail_masked:
  "into_response (App_Database a) u = into_response (App_Database b) u"
  "into_response (App_Internal a) u = into_response (App_Database b) u"
  by (simp_all add: into_response_def error_status_def)

subsection \<open>The database\<close>

record ('d, 'm) server =
  tables :: 'd
  memory :: 'm
  faults :: "string option list"

type_synonym ('d, 'm, 'a) handler = "(('d, 'm) server, AppError, 'a) io"

text \<open>A statement that the database refuses, for a constraint or a missing column, changes nothing.\<close>

definition statement :: "('d \<Rightarrow> string + 'a \<times> 'd) \<Rightarrow> ('d, 'm, 'a) handler" where
  "statement f s =
     (let s' = s\<lparr>faults := tl (faults s)\<rparr>
      in case (if faults s = [] then None else hd (faults s)) of
           Some e \<Rightarrow> (Inl (App_Database e), s')
         | None \<Rightarrow> (case f (tables s) of
               Inl e \<Rightarrow> (Inl (App_Database e), s')
             | Inr (x, d) \<Rightarrow> (Inr x, s'\<lparr>tables := d\<rparr>)))"

definition sql_select :: "('d \<Rightarrow> 'a) \<Rightarrow> ('d, 'm, 'a) handler" where
  "sql_select f = statement (\<lambda>d. Inr (f d, d))"

definition sql_execute :: "('d \<Rightarrow> 'd) \<Rightarrow> ('d, 'm, unit) handler" where
  "sql_execute f = statement (\<lambda>d. Inr ((), f d))"

text \<open>
  \<open>pool.begin\<close>, the body, \<open>tx.commit\<close>: a transaction that is not committed is rolled back.
\<close>

definition in_transaction :: "('d, 'm, 'a) handler \<Rightarrow> ('d, 'm, 'a) handler" where
  "in_transaction m s =
     (case io_then (sql_select (\<lambda>_. ())) (io_bind m (\<lambda>x. io_then (sql_select (\<lambda>_. ())) (io_ok x))) s of
        (Inl e, s') \<Rightarrow> (Inl e, s'\<lparr>tables := tables s\<rparr>)
      | (Inr x, s') \<Rightarrow> (Inr x, s'))"

definition get_memory :: "('m \<Rightarrow> 'a) \<Rightarrow> ('d, 'm, 'a) handler" where
  "get_memory f s = (Inr (f (memory s)), s)"

definition with_memory :: "('m \<Rightarrow> 'a \<times> 'm) \<Rightarrow> ('d, 'm, 'a) handler" where
  "with_memory f s = (case f (memory s) of (x, m) \<Rightarrow> (Inr x, s\<lparr>memory := m\<rparr>))"

subsection \<open>When nothing fails\<close>

lemma statement_ok [simp]:
  "faults s = [] \<Longrightarrow> statement f s =
     (case f (tables s) of Inl e \<Rightarrow> (Inl (App_Database e), s) | Inr (x, d) \<Rightarrow> (Inr x, s\<lparr>tables := d\<rparr>))"
  by (simp add: statement_def Let_def split: sum.split prod.split)

lemma sql_ok [simp]:
  "faults s = [] \<Longrightarrow> sql_select f s = (Inr (f (tables s)), s)"
  "faults s = [] \<Longrightarrow> sql_execute g s = (Inr (), s\<lparr>tables := g (tables s)\<rparr>)"
  by (simp_all add: sql_select_def sql_execute_def)

lemma faults_kept [simp]:
  "faults s = [] \<Longrightarrow> faults (snd (statement f s)) = []"
  "faults s = [] \<Longrightarrow> faults (snd (sql_select g s)) = []"
  "faults s = [] \<Longrightarrow> faults (snd (sql_execute h s)) = []"
  by (simp_all split: sum.split prod.split)

subsection \<open>What a handler does to the tables\<close>

text \<open>
  \<open>changes P m\<close>: the tables before and after satisfy \<open>P\<close>, whatever fails.
\<close>

definition changes :: "('d \<Rightarrow> 'd \<Rightarrow> bool) \<Rightarrow> ('d, 'm, 'a) handler \<Rightarrow> bool" where
  "changes P m \<longleftrightarrow> (\<forall>s. P (tables s) (tables (snd (m s))))"

named_theorems changes_rules \<open>rules that follow the structure of a handler\<close>

lemma changesD: "changes P m \<Longrightarrow> P (tables s) (tables (snd (m s)))"
  by (simp add: changes_def)

lemma changes_pure [changes_rules]:
  "reflp P \<Longrightarrow> changes P (io_ok x)" "reflp P \<Longrightarrow> changes P (io_fail e)" "reflp P \<Longrightarrow> changes P (io_lift r)"
  "reflp P \<Longrightarrow> changes P (get_memory f)" "reflp P \<Longrightarrow> changes P (with_memory g)"
  "reflp P \<Longrightarrow> changes P (sql_select h)"
  by (simp_all add: changes_def reflp_def io_ok_def io_fail_def io_lift_def get_memory_def with_memory_def
      sql_select_def statement_def Let_def split: prod.split option.split)

lemma changes_execute [changes_rules]:
  "reflp P \<Longrightarrow> (\<And>d. P d (f d)) \<Longrightarrow> changes P (sql_execute f)"
  by (simp add: changes_def reflp_def sql_execute_def statement_def Let_def split: option.split)

lemma changes_statement [changes_rules]:
  "reflp P \<Longrightarrow> (\<And>d x d'. f d = Inr (x, d') \<Longrightarrow> P d d') \<Longrightarrow> changes P (statement f)"
  by (simp add: changes_def reflp_def statement_def Let_def split: option.split sum.split prod.split)

lemma changes_bind [changes_rules]:
  assumes "transp P" "changes P m" "\<And>x. changes P (f x)"
  shows "changes P (io_bind m f)"
  unfolding changes_def
proof
  fix s
  obtain r t where m: "m s = (r, t)" by (cases "m s")
  show "P (tables s) (tables (snd (io_bind m f s)))"
  proof (cases r)
    case (Inl e)
    then show ?thesis using changesD [OF assms(2), of s] m by (simp add: io_bind_def)
  next
    case (Inr x)
    then have "P (tables s) (tables t)" "P (tables t) (tables (snd (f x t)))"
      using changesD [OF assms(2), of s] changesD [OF assms(3), of t x] m by simp_all
    then show ?thesis using assms(1) m Inr by (auto simp: io_bind_def dest: transpD)
  qed
qed

lemma changes_then [changes_rules]:
  "transp P \<Longrightarrow> changes P m \<Longrightarrow> changes P n \<Longrightarrow> changes P (io_then m n)"
  by (simp add: io_then_def changes_bind)

lemma changes_transaction [changes_rules]:
  assumes "reflp P" "transp P" "changes P m"
  shows "changes P (in_transaction m)"
proof -
  let ?body = "io_then (sql_select (\<lambda>_. ())) (io_bind m (\<lambda>x. io_then (sql_select (\<lambda>_. ())) (io_ok x)))"
  have body: "changes P ?body" using assms by (intro changes_rules)
  have "P (tables s) (tables (snd (in_transaction m s)))" for s
    using assms(1) changesD [OF body, of s]
    by (cases "?body s") (auto simp: in_transaction_def dest: reflpD split: sum.split)
  then show ?thesis by (simp add: changes_def)
qed

subsection \<open>What a handler keeps\<close>

text \<open>
  A predicate on the tables and one on the memory, whatever fails; a transaction that is rolled back
  keeps the memory that it has changed.
\<close>

definition holds :: "('d \<Rightarrow> bool) \<Rightarrow> ('m \<Rightarrow> bool) \<Rightarrow> ('d, 'm) server \<Rightarrow> bool" where
  "holds A B s \<longleftrightarrow> A (tables s) \<and> B (memory s)"

named_theorems holds_rules \<open>rules that follow the structure of a handler\<close>

lemmas keeps_effects = keeps_ok keeps_fail keeps_lift keeps_guard keeps_bind keeps_then keeps_for_each

lemma keeps_cases [holds_rules]:
  "(b \<Longrightarrow> keeps P m) \<Longrightarrow> (\<not> b \<Longrightarrow> keeps P n) \<Longrightarrow> keeps P (if b then m else n)"
  "keeps P m \<Longrightarrow> (\<And>x. z = Some x \<Longrightarrow> keeps P (f x)) \<Longrightarrow> keeps P (case z of None \<Rightarrow> m | Some x \<Rightarrow> f x)"
  "(\<And>x y. p = (x, y) \<Longrightarrow> keeps P (g x y)) \<Longrightarrow> keeps P (case p of (x, y) \<Rightarrow> g x y)"
  "(\<And>x. x = y \<Longrightarrow> keeps P (h x)) \<Longrightarrow> keeps P (let x = y in h x)"
  by (simp_all split: option.split prod.split)

declare keeps_effects [holds_rules]

lemma holds_statement:
  "(\<And>d x d'. A d \<Longrightarrow> f d = Inr (x, d') \<Longrightarrow> A d') \<Longrightarrow> keeps (holds A B) (statement f)"
  by (auto simp: keeps_def holds_def statement_def Let_def split: option.split sum.split)

lemma holds_execute: "(\<And>d. A d \<Longrightarrow> A (f d)) \<Longrightarrow> keeps (holds A B) (sql_execute f)"
  unfolding sql_execute_def by (rule holds_statement) auto

lemma holds_pure [holds_rules]:
  "keeps (holds A B) (sql_select f)" "keeps (holds A B) (get_memory g)"
  unfolding sql_select_def by (rule holds_statement, simp) (simp add: keeps_def get_memory_def)

lemma holds_memory: "(\<And>m. B m \<Longrightarrow> B (snd (f m))) \<Longrightarrow> keeps (holds A B) (with_memory f)"
  by (simp add: keeps_def holds_def with_memory_def case_prod_beta)

lemma holds_transaction [holds_rules]:
  assumes "keeps (holds A B) m"
  shows "keeps (holds A B) (in_transaction m)"
proof (rule keepsI)
  let ?body = "io_then (sql_select (\<lambda>_. ())) (io_bind m (\<lambda>x. io_then (sql_select (\<lambda>_. ())) (io_ok x)))"
  fix s :: "('a, 'b) server"
  assume s: "holds A B s"
  have "keeps (holds A B) ?body" using assms by (intro holds_rules)
  then have "holds A B (snd (?body s))" using s by (rule keepsD)
  with s show "holds A B (snd (in_transaction m s))"
    by (cases "?body s") (auto simp: in_transaction_def holds_def split: sum.split)
qed

text \<open>The rules for predicates that relate tables and memory.\<close>

definition on_state :: "('d \<Rightarrow> 'm \<Rightarrow> bool) \<Rightarrow> ('d, 'm) server \<Rightarrow> bool" where
  "on_state Z s \<longleftrightarrow> Z (tables s) (memory s)"

lemma triple_statement:
  assumes "\<And>d m x d'. Z d m \<Longrightarrow> f d = Inr (x, d') \<Longrightarrow> on_state (Q x) \<lparr>tables = d', memory = m, faults = []\<rparr>"
    and "\<And>e d m. Z d m \<Longrightarrow> E e d m"
  shows "triple (on_state Z) (statement f) (\<lambda>x. on_state (Q x)) (\<lambda>e. on_state (E e))"
  using assms
  by (simp add: triple_def on_state_def statement_def Let_def split: option.split sum.split prod.split)

lemma triple_select:
  "(\<And>d m. Z d m \<Longrightarrow> Q (f d) d m) \<Longrightarrow> (\<And>e d m. Z d m \<Longrightarrow> E e d m)
     \<Longrightarrow> triple (on_state Z) (sql_select f) (\<lambda>x. on_state (Q x)) (\<lambda>e. on_state (E e))"
  unfolding sql_select_def by (rule triple_statement) (auto simp: on_state_def)

lemma triple_execute:
  "(\<And>d m. Z d m \<Longrightarrow> Q (f d) m) \<Longrightarrow> (\<And>e d m. Z d m \<Longrightarrow> E e d m)
     \<Longrightarrow> triple (on_state Z) (sql_execute f) (\<lambda>_. on_state Q) (\<lambda>e. on_state (E e))"
  unfolding sql_execute_def by (rule triple_statement) (auto simp: on_state_def)

lemma triple_get_memory:
  "(\<And>d m. Z d m \<Longrightarrow> Q (f m) d m) \<Longrightarrow> triple (on_state Z) (get_memory f) (\<lambda>x. on_state (Q x)) E"
  by (simp add: triple_def on_state_def get_memory_def)

lemma triple_with_memory:
  "(\<And>d m. Z d m \<Longrightarrow> Q (fst (f m)) d (snd (f m))) \<Longrightarrow> triple (on_state Z) (with_memory f) (\<lambda>x. on_state (Q x)) E"
  by (simp add: triple_def on_state_def with_memory_def case_prod_beta)

text \<open>A transaction leaves the tables, or leaves what its body makes of them.\<close>

lemma transaction_tables:
  obtains "tables (snd (in_transaction m s)) = tables s"
  | s' x t where "tables s' = tables s" "memory s' = memory s" "m s' = (Inr x, t)"
      "tables (snd (in_transaction m s)) = tables t" "memory (snd (in_transaction m s)) = memory t"
      "fst (in_transaction m s) = Inr x"
proof -
  define s' where "s' = s\<lparr>faults := tl (faults s)\<rparr>"
  have start: "sql_select (\<lambda>_. ()) s = (Inr (), s') \<or> (\<exists>e. sql_select (\<lambda>_. ()) s = (Inl e, s'))"
    by (auto simp: sql_select_def statement_def s'_def Let_def split: option.split)
  have commit: "memory (snd (sql_select (\<lambda>_. ()) t)) = memory t \<and> tables (snd (sql_select (\<lambda>_. ()) t)) = tables t" for t :: "('a, 'b) server"
    by (simp add: sql_select_def statement_def Let_def split: option.split)
  obtain r t where m: "m s' = (r, t)" by (cases "m s'")
  show thesis
  proof (cases r)
    case (Inl e)
    with start m that(1) show thesis
      by (auto simp: in_transaction_def io_then_def io_bind_def split: prod.splits sum.splits)
  next
    case (Inr x)
    have "tables s' = tables s" "memory s' = memory s" by (simp_all add: s'_def)
    obtain c t' where c: "sql_select (\<lambda>_. ()) t = (c, t')" by (cases "sql_select (\<lambda>_. ()) t")
    show thesis
    proof (cases c)
      case (Inl e)
      with start m Inr c that(1) \<open>r = Inr x\<close> show thesis
        by (auto simp: in_transaction_def io_then_def io_bind_def split: prod.splits sum.splits)
    next
      case (Inr u)
      with start m c that \<open>r = Inr x\<close> \<open>tables s' = tables s\<close> \<open>memory s' = memory s\<close> commit [of t] show thesis
        by (auto simp: in_transaction_def io_then_def io_bind_def io_ok_def split: prod.splits sum.splits)
    qed
  qed
qed

end
