(* ===== verification/Authorize.thy ===== *)
theory Authorize
  imports Server_Core Hash_Table Json
begin

section \<open>Authorization\<close>

text \<open>
  \<open>crates/gobrowse-server/src/authorize.rs\<close>: actors, actions and resources, the default matrix, the
  cache of decisions, and \<open>authorize\<close> with its lookup of policies and its audit.  The cache is the
  memory of the server.  \<open>user_columns\<close> are the columns of the table \<open>users\<close>; a query that names
  another is refused.
\<close>

subsection \<open>Actors, actions, resources\<close>

record PermissionPreview =
  perm_action :: string
  resource_pattern :: string

datatype Actor =
    Human uuid string
  | Agent uuid "string list"
  | Plugin uuid "PermissionPreview list"
  | Mcp uuid "PermissionPreview list"
  | Webhook uuid
  | System_Actor

datatype RiskClass = Risk_Read | Risk_Write | Risk_Destructive | Risk_System

text \<open>The derived order is that of the declaration.\<close>

fun risk_rank :: "RiskClass \<Rightarrow> nat" where
  "risk_rank Risk_Read = 0"
| "risk_rank Risk_Write = 1"
| "risk_rank Risk_Destructive = 2"
| "risk_rank Risk_System = 3"

instantiation RiskClass :: linorder
begin

definition less_eq_RiskClass :: "RiskClass \<Rightarrow> RiskClass \<Rightarrow> bool" where
  "less_eq_RiskClass a b \<longleftrightarrow> risk_rank a \<le> risk_rank b"

definition less_RiskClass :: "RiskClass \<Rightarrow> RiskClass \<Rightarrow> bool" where
  "less_RiskClass a b \<longleftrightarrow> risk_rank a < risk_rank b"

instance
proof
  fix a b :: RiskClass
  show "a \<le> b \<Longrightarrow> b \<le> a \<Longrightarrow> a = b"
    by (cases a; cases b) (simp_all add: less_eq_RiskClass_def)
qed (auto simp: less_eq_RiskClass_def less_RiskClass_def)

end

definition risk_text :: "RiskClass \<Rightarrow> string" where
  "risk_text r =
     (case r of Risk_Read \<Rightarrow> ''read'' | Risk_Write \<Rightarrow> ''write'' | Risk_Destructive \<Rightarrow> ''destructive''
      | Risk_System \<Rightarrow> ''system'')"

definition from_tool_risk :: "string \<Rightarrow> RiskClass" where
  "from_tool_risk risk =
     (if risk = ''read'' then Risk_Read
      else if risk = ''write'' then Risk_Write
      else if risk = ''destructive'' then Risk_Destructive
      else if risk = ''system'' then Risk_System
      else Risk_Write)"

datatype Action =
    Act_Read | Act_Write | Act_Execute RiskClass | Act_Delete | Act_Admin | Act_ContextRetrieve
  | Act_AccessSecret | Act_WebhookDeliver

datatype Resource =
    Book uuid | Conversation uuid | Provider string | Model string | Workspace uuid
  | Plugin_Resource uuid | McpServer uuid | Sandbox_Resource | Secret string | System_Resource

datatype Decision = Allow | Ask | Deny

record AuthorizationContext =
  ctx_profile_id :: uuid
  ctx_user_id :: "uuid option"

subsection \<open>Keys\<close>

type_synonym cache_key = "string \<times> string \<times> string"

definition actor_key :: "Actor \<Rightarrow> string" where
  "actor_key a =
     (case a of
        Human _ role \<Rightarrow> ''HUMAN:'' @ role
      | Agent _ _ \<Rightarrow> ''AGENT''
      | Plugin _ _ \<Rightarrow> ''PLUGIN''
      | Mcp _ _ \<Rightarrow> ''MCP''
      | Webhook _ \<Rightarrow> ''WEBHOOK''
      | System_Actor \<Rightarrow> ''SYSTEM'')"

definition action_key :: "Action \<Rightarrow> string" where
  "action_key a =
     (case a of
        Act_Read \<Rightarrow> ''READ''
      | Act_Write \<Rightarrow> ''WRITE''
      | Act_Execute risk \<Rightarrow> ''EXECUTE:'' @ risk_text risk
      | Act_Delete \<Rightarrow> ''DELETE''
      | Act_Admin \<Rightarrow> ''ADMIN''
      | Act_ContextRetrieve \<Rightarrow> ''CONTEXT_RETRIEVE''
      | Act_AccessSecret \<Rightarrow> ''ACCESS_SECRET''
      | Act_WebhookDeliver \<Rightarrow> ''WEBHOOK_DELIVER'')"

definition resource_key :: "Resource \<Rightarrow> string" where
  "resource_key r =
     (case r of
        Book _ \<Rightarrow> ''BOOK''
      | Conversation _ \<Rightarrow> ''CONVERSATION''
      | Provider _ \<Rightarrow> ''PROVIDER''
      | Model _ \<Rightarrow> ''MODEL''
      | Workspace _ \<Rightarrow> ''WORKSPACE''
      | Plugin_Resource _ \<Rightarrow> ''PLUGIN''
      | McpServer _ \<Rightarrow> ''MCP_SERVER''
      | Sandbox_Resource \<Rightarrow> ''SANDBOX''
      | Secret _ \<Rightarrow> ''SECRET''
      | System_Resource \<Rightarrow> ''SYSTEM'')"

subsection \<open>The default matrix\<close>

definition allow_if :: "bool \<Rightarrow> Decision" where
  "allow_if b = (if b then Allow else Deny)"

definition may :: "string \<Rightarrow> PermissionPreview list \<Rightarrow> bool" where
  "may what permissions \<longleftrightarrow> list_ex (\<lambda>p. perm_action p = what) permissions"

definition component_decision :: "PermissionPreview list \<Rightarrow> Action \<Rightarrow> Decision" where
  "component_decision permissions action =
     (case action of
        Act_Read \<Rightarrow> allow_if (may ''read'' permissions)
      | Act_Write \<Rightarrow> allow_if (may ''write'' permissions)
      | Act_ContextRetrieve \<Rightarrow> allow_if (may ''context_retrieve'' permissions)
      | _ \<Rightarrow> Deny)"

definition member_decision :: "Action \<Rightarrow> Resource \<Rightarrow> Decision" where
  "member_decision action resource =
     (let owned = (case resource of Book _ \<Rightarrow> True | Conversation _ \<Rightarrow> True | _ \<Rightarrow> False)
      in case action of
           Act_Read \<Rightarrow> Allow
         | Act_Write \<Rightarrow> allow_if owned
         | Act_Delete \<Rightarrow> allow_if owned
         | Act_Execute risk \<Rightarrow> if risk \<ge> Risk_Destructive then Deny else Allow
         | _ \<Rightarrow> Deny)"

definition human_decision :: "string \<Rightarrow> Action \<Rightarrow> Resource \<Rightarrow> Decision" where
  "human_decision role action resource =
     (if role = ''OWNER'' then Allow
      else if role = ''ADMIN'' then Allow
      else if role = ''MEMBER'' then member_decision action resource
      else if role = ''VIEWER'' then (case action of Act_Read \<Rightarrow> Allow | _ \<Rightarrow> Deny)
      else Deny)"

definition agent_decision :: "string list \<Rightarrow> Action \<Rightarrow> Decision" where
  "agent_decision agent_permissions action =
     (case action of
        Act_Read \<Rightarrow> Allow
      | Act_Write \<Rightarrow> Allow
      | Act_Execute risk \<Rightarrow> if risk \<ge> Risk_Destructive then Ask else Allow
      | Act_Delete \<Rightarrow> Deny
      | Act_Admin \<Rightarrow> Deny
      | Act_ContextRetrieve \<Rightarrow> Allow
      | Act_AccessSecret \<Rightarrow> allow_if (''access_secret'' \<in> set agent_permissions)
      | Act_WebhookDeliver \<Rightarrow> Deny)"

definition default_matrix_decision :: "Actor \<Rightarrow> Action \<Rightarrow> Resource \<Rightarrow> Decision" where
  "default_matrix_decision actor action resource =
     (case actor of
        Human _ role \<Rightarrow> human_decision role action resource
      | Agent _ agent_permissions \<Rightarrow> agent_decision agent_permissions action
      | Plugin _ permissions \<Rightarrow> component_decision permissions action
      | Mcp _ permissions \<Rightarrow> component_decision permissions action
      | Webhook _ \<Rightarrow> (case action of Act_WebhookDeliver \<Rightarrow> Allow | _ \<Rightarrow> Deny)
      | System_Actor \<Rightarrow> Allow)"

subsection \<open>Tables\<close>

record policy_row =
  pol_profile_id :: uuid
  pol_actor :: string
  pol_action :: string
  pol_resource :: string
  pol_decision :: string
  pol_priority :: int
  pol_enabled :: bool

record audit_row =
  aud_user_id :: "uuid option"
  aud_profile_id :: uuid
  aud_action :: string
  aud_resource_type :: string
  aud_resource_id :: "string option"
  aud_outcome :: string
  aud_detail :: json

text \<open>
  Of the users, the profile and the role; of the workspaces, the profile.  The migrations give the
  table \<open>users\<close> the columns \<open>migrated_columns\<close>.
\<close>

record auth_db =
  user_columns :: "string list"
  user_rows :: "(uuid \<times> string) list"
  workspace_rows :: "uuid list"
  policy_rows :: "policy_row list"
  audit_rows :: "audit_row list"

definition migrated_columns :: "string list" where
  "migrated_columns =
     [''id'', ''email'', ''display_name'', ''password_hash'', ''role'', ''primary_profile_id'', ''auth_epoch'',
      ''disabled_at'', ''created_at'', ''updated_at'', ''consecutive_failures'', ''locked_until'']"

type_synonym 'a auth = "(auth_db, (cache_key \<times> Decision) list, 'a) handler"

subsection \<open>The single owner\<close>

definition users_of_profile :: "uuid \<Rightarrow> auth_db \<Rightarrow> string + string list \<times> auth_db" where
  "users_of_profile profile_id d =
     (if ''profile_id'' \<in> set (user_columns d)
      then Inr (map snd (filter (\<lambda>(p, _). p = profile_id) (user_rows d)), d)
      else Inl ''column profile_id does not exist'')"

definition is_single_user_owner :: "uuid \<Rightarrow> bool auth" where
  "is_single_user_owner profile_id =
     io_bind (statement (users_of_profile profile_id)) (\<lambda>users.
       if length users \<noteq> 1 then io_ok False
       else io_bind (statement (users_of_profile profile_id)) (\<lambda>roles.
         case roles of
           [] \<Rightarrow> io_fail (App_Database ''no rows returned'')
         | role # _ \<Rightarrow>
             if role \<noteq> ''OWNER'' then io_ok False
             else io_bind (sql_select (\<lambda>d. length (filter (\<lambda>p. p = profile_id) (workspace_rows d)))) (\<lambda>workspaces.
               io_ok (workspaces = 0))))"

subsection \<open>Policies\<close>

definition policy_decision :: "uuid \<Rightarrow> cache_key \<Rightarrow> auth_db \<Rightarrow> string option" where
  "policy_decision profile_id key d =
     (case sort_key pol_priority (filter (\<lambda>r. pol_profile_id r = profile_id
         \<and> (pol_actor r, pol_action r, pol_resource r) = key \<and> pol_enabled r) (policy_rows d)) of
        [] \<Rightarrow> None
      | r # _ \<Rightarrow> Some (pol_decision r))"

definition decide :: "string option \<Rightarrow> Actor \<Rightarrow> Action \<Rightarrow> Resource \<Rightarrow> Decision" where
  "decide policy actor action resource =
     (case policy of
        None \<Rightarrow> default_matrix_decision actor action resource
      | Some what \<Rightarrow>
          if what = ''ALLOW'' then Allow
          else if what = ''ASK'' then Ask
          else if what = ''DENY'' then Deny
          else default_matrix_decision actor action resource)"

subsection \<open>Audit\<close>

definition decision_text :: "Decision \<Rightarrow> string" where
  "decision_text d = (case d of Allow \<Rightarrow> ''ALLOW'' | Ask \<Rightarrow> ''ASK'' | Deny \<Rightarrow> ''DENY'')"

definition audit_actor :: "Actor \<Rightarrow> string" where
  "audit_actor a =
     (case a of
        Human _ role \<Rightarrow> ''human:'' @ role
      | Agent _ _ \<Rightarrow> ''agent''
      | Plugin _ _ \<Rightarrow> ''plugin''
      | Mcp _ _ \<Rightarrow> ''mcp''
      | Webhook _ \<Rightarrow> ''webhook''
      | System_Actor \<Rightarrow> ''system'')"

definition audit_resource :: "(uuid \<Rightarrow> string) \<Rightarrow> Resource \<Rightarrow> string \<times> string option" where
  "audit_resource hyphenated r =
     (case r of
        Book u \<Rightarrow> (''book'', Some (hyphenated u))
      | Conversation u \<Rightarrow> (''conversation'', Some (hyphenated u))
      | Provider s \<Rightarrow> (''provider'', Some s)
      | Model s \<Rightarrow> (''model'', Some s)
      | Workspace u \<Rightarrow> (''workspace'', Some (hyphenated u))
      | Plugin_Resource u \<Rightarrow> (''plugin'', Some (hyphenated u))
      | McpServer u \<Rightarrow> (''mcp_server'', Some (hyphenated u))
      | Sandbox_Resource \<Rightarrow> (''sandbox'', None)
      | Secret s \<Rightarrow> (''secret'', Some s)
      | System_Resource \<Rightarrow> (''system'', None))"

definition audit_entry ::
  "(uuid \<Rightarrow> string) \<Rightarrow> AuthorizationContext \<Rightarrow> Actor \<Rightarrow> Action \<Rightarrow> Resource \<Rightarrow> Decision \<Rightarrow> string \<Rightarrow> audit_row" where
  "audit_entry hyphenated context actor action resource decision reason =
     (case audit_resource hyphenated resource of (resource_type, resource_id) \<Rightarrow>
       \<lparr>aud_user_id = ctx_user_id context, aud_profile_id = ctx_profile_id context,
        aud_action = ''authorize.'' @ audit_actor actor, aud_resource_type = resource_type,
        aud_resource_id = resource_id, aud_outcome = decision_text decision,
        aud_detail = JObject [(''action_detail'', JString (action_key action)), (''actor'', JString (audit_actor actor)),
          (''authorization_decision'', JString (decision_text decision)),
          (''authorization_reason'', JString reason), (''resource'', JString resource_type)]\<rparr>)"

definition audit_decision ::
  "(uuid \<Rightarrow> string) \<Rightarrow> AuthorizationContext \<Rightarrow> Actor \<Rightarrow> Action \<Rightarrow> Resource \<Rightarrow> Decision \<Rightarrow> string \<Rightarrow> unit auth" where
  "audit_decision hyphenated context actor action resource decision reason =
     sql_execute (\<lambda>d. d\<lparr>audit_rows := audit_rows d @
       [audit_entry hyphenated context actor action resource decision reason]\<rparr>)"

subsection \<open>The decision\<close>

definition is_owner :: "Actor \<Rightarrow> bool" where
  "is_owner a = (case a of Human _ role \<Rightarrow> role = ''OWNER'' | _ \<Rightarrow> False)"

definition request_key :: "Actor \<Rightarrow> Action \<Rightarrow> Resource \<Rightarrow> cache_key" where
  "request_key actor action resource = (actor_key actor, action_key action, resource_key resource)"

definition authorize ::
  "(uuid \<Rightarrow> string) \<Rightarrow> Actor \<Rightarrow> Action \<Rightarrow> Resource \<Rightarrow> AuthorizationContext \<Rightarrow> Decision auth" where
  "authorize hyphenated actor action resource context =
     io_bind (if is_owner actor then is_single_user_owner (ctx_profile_id context) else io_ok False) (\<lambda>single.
       if single then io_ok Allow
       else let key = request_key actor action resource in
         io_bind (get_memory (\<lambda>cache. map_of cache key)) (\<lambda>cached.
           case cached of
             Some decision \<Rightarrow>
               io_then (audit_decision hyphenated context actor action resource decision ''cache'') (io_ok decision)
           | None \<Rightarrow>
               io_bind (sql_select (policy_decision (ctx_profile_id context) key)) (\<lambda>policy.
                 let decision = decide policy actor action resource in
                 io_then (with_memory (\<lambda>cache. ((), table_insert key decision cache)))
                   (io_then (audit_decision hyphenated context actor action resource decision ''matrix'')
                     (io_ok decision)))))"

definition invalidate_policy_cache :: "unit auth" where
  "invalidate_policy_cache = with_memory (\<lambda>_. ((), []))"

subsection \<open>Roles\<close>

text \<open>What a lower role may do, a higher one may do.\<close>

definition role_rank :: "string \<Rightarrow> nat" where
  "role_rank role =
     (if role = ''OWNER'' then 3 else if role = ''ADMIN'' then 3 else if role = ''MEMBER'' then 2
      else if role = ''VIEWER'' then 1 else 0)"

theorem roles_are_ordered:
  assumes "human_decision low action resource = Allow" "role_rank low \<le> role_rank high"
  shows "human_decision high action resource = Allow"
  using assms
  by (auto simp: human_decision_def role_rank_def member_decision_def split: if_splits Action.splits)

lemma components_never_change_the_system:
  assumes "default_matrix_decision actor action resource \<noteq> Deny"
    and "case actor of Human _ _ \<Rightarrow> False | System_Actor \<Rightarrow> False | _ \<Rightarrow> True"
  shows "action \<noteq> Act_Delete \<and> action \<noteq> Act_Admin"
  using assms
  by (auto simp: default_matrix_decision_def agent_decision_def component_decision_def split: Actor.splits Action.splits)

subsection \<open>The decision and its audit\<close>

text \<open>The result of \<open>authorize\<close> for everyone but an owner, when the database answers.\<close>

lemma authorize_eq:
  assumes "\<not> is_owner actor" "faults s = []"
  shows "authorize hyph actor action resource context s =
    (let key = request_key actor action resource;
         fresh = decide (policy_decision (ctx_profile_id context) key (tables s)) actor action resource
     in case map_of (memory s) key of
          Some d \<Rightarrow> (Inr d, s\<lparr>tables := (tables s)\<lparr>audit_rows := audit_rows (tables s)
                     @ [audit_entry hyph context actor action resource d ''cache'']\<rparr>\<rparr>)
        | None \<Rightarrow> (Inr fresh, s\<lparr>memory := table_insert key fresh (memory s),
                     tables := (tables s)\<lparr>audit_rows := audit_rows (tables s)
                     @ [audit_entry hyph context actor action resource fresh ''matrix'']\<rparr>\<rparr>))"
  using assms
  by (simp add: authorize_def io_bind_def io_then_def io_ok_def get_memory_def with_memory_def
      audit_decision_def Let_def split: option.split)

text \<open>
  Property: a decision that is not cached is that of the enabled policy of lowest priority for the
  profile, and of the matrix where there is none; it is audited once, and cached.
\<close>

theorem fresh_decision:
  assumes "\<not> is_owner actor" "faults s = []" "map_of (memory s) (request_key actor action resource) = None"
  shows "\<exists>d. d = decide (policy_decision (ctx_profile_id context) (request_key actor action resource) (tables s))
              actor action resource
     \<and> authorize hyph actor action resource context s =
         (Inr d, s\<lparr>memory := table_insert (request_key actor action resource) d (memory s),
            tables := (tables s)\<lparr>audit_rows := audit_rows (tables s)
              @ [audit_entry hyph context actor action resource d ''matrix'']\<rparr>\<rparr>)"
  using assms by (simp add: authorize_eq Let_def)

lemma component_without_permissions: "default_matrix_decision (Plugin b []) action resource = Deny"
  by (simp add: default_matrix_decision_def component_decision_def may_def allow_if_def split: Action.split)

lemma decision_is_cached:
  assumes "\<not> is_owner actor" "faults s = []" "authorize hyph actor action resource context s = (Inr d, s')"
  shows "map_of (memory s') (request_key actor action resource) = Some d" "faults s' = []"
  using assms by (auto simp: authorize_eq Let_def split: option.splits)

text \<open>
  Property C26: the cache hands a decision on to actors it was not made for.  Once any plugin, of any
  profile, has been allowed something, every other plugin in every profile is allowed it, also one
  without a single permission, whom the matrix denies it; policies of its profile are not asked.
\<close>

theorem cached_grant_reaches_others:
  assumes "authorize hyph (Plugin a permissions) action resource context s = (Inr Allow, s')" "faults s = []"
    and "resource_key other = resource_key resource"
  shows "fst (authorize hyph (Plugin b []) action other elsewhere s') = Inr Allow
     \<and> default_matrix_decision (Plugin b []) action other = Deny"
proof -
  have "map_of (memory s') (request_key (Plugin a permissions) action resource) = Some Allow" "faults s' = []"
    using decision_is_cached [OF _ assms(2,1)] by (simp_all add: is_owner_def)
  moreover have "request_key (Plugin a permissions) action resource = request_key (Plugin b []) action other"
    using assms(3) by (simp add: request_key_def actor_key_def)
  ultimately show ?thesis
    by (simp add: authorize_eq is_owner_def Let_def component_without_permissions)
qed

text \<open>
  Property: nothing an owner asks for is authorized.  The lookup for the single owner names a column
  that the table \<open>users\<close> does not have, so that the check ends in a database error.
\<close>

theorem owner_is_never_authorized:
  assumes "user_columns (tables s) = migrated_columns"
  shows "\<exists>e. fst (authorize hyph (Human u ''OWNER'') action resource context s) = Inl (App_Database e)"
  using assms
  by (simp add: authorize_def is_owner_def is_single_user_owner_def io_bind_def statement_def Let_def
      users_of_profile_def migrated_columns_def split: option.split)

subsection \<open>Where the cache is transparent\<close>

text \<open>
  Actors whose decision is a function of the key: humans, agents but for secrets, webhooks, the
  system.  \<open>right_for p\<close>: every entry of the cache is the decision for such actors in profile \<open>p\<close>.
\<close>

definition keyed :: "Actor \<Rightarrow> Action \<Rightarrow> bool" where
  "keyed actor action \<longleftrightarrow>
     (case actor of Plugin _ _ \<Rightarrow> False | Mcp _ _ \<Rightarrow> False | Agent _ _ \<Rightarrow> action \<noteq> Act_AccessSecret | _ \<Rightarrow> True)"

definition decision_in :: "uuid \<Rightarrow> auth_db \<Rightarrow> Actor \<Rightarrow> Action \<Rightarrow> Resource \<Rightarrow> Decision" where
  "decision_in p d actor action resource =
     decide (policy_decision p (request_key actor action resource) d) actor action resource"

definition right_for :: "uuid \<Rightarrow> auth_db \<Rightarrow> (cache_key \<times> Decision) list \<Rightarrow> bool" where
  "right_for p d cache \<longleftrightarrow>
     (\<forall>actor action resource decision. keyed actor action
        \<longrightarrow> map_of cache (request_key actor action resource) = Some decision
        \<longrightarrow> decision = decision_in p d actor action resource)"

lemma risk_text_inject: "risk_text a = risk_text b \<longleftrightarrow> a = b"
  by (cases a; cases b) (simp_all add: risk_text_def)

lemma action_key_inject: "action_key a = action_key b \<longleftrightarrow> a = b"
  by (auto simp: action_key_def risk_text_inject split: Action.splits)

lemma same_actor_key:
  assumes "actor_key a = actor_key b" "keyed a action"
  shows "keyed b action" "default_matrix_decision a action resource = default_matrix_decision b action resource"
  using assms
  by (auto simp: actor_key_def keyed_def default_matrix_decision_def agent_decision_def
      split: Actor.splits Action.splits)

lemma same_resource_key:
  assumes "resource_key r = resource_key t"
  shows "default_matrix_decision a action r = default_matrix_decision a action t"
proof -
  have "member_decision action r = member_decision action t"
    using assms by (cases r; cases t; simp add: member_decision_def resource_key_def cong: Action.case_cong)
  then show ?thesis by (cases a) (simp_all add: default_matrix_decision_def human_decision_def)
qed

lemma same_key_same_decision:
  assumes "request_key a action r = request_key b action' t" "keyed a action"
  shows "keyed b action'" "decision_in p d a action r = decision_in p d b action' t"
proof -
  have "action' = action" using assms(1) by (simp add: request_key_def action_key_inject)
  moreover have key: "actor_key a = actor_key b" "resource_key r = resource_key t"
    using assms(1) by (simp_all add: request_key_def)
  ultimately show "keyed b action'" using same_actor_key(1) [OF key(1) assms(2)] by simp
  show "decision_in p d a action r = decision_in p d b action' t"
    using assms(1) same_actor_key(2) [OF key(1) assms(2)] same_resource_key [OF key(2)]
    by (simp add: decision_in_def decide_def \<open>action' = action\<close> split: option.split)
qed

lemma decision_in_audit:
  "decision_in p (d\<lparr>audit_rows := rows\<rparr>) actor action resource = decision_in p d actor action resource"
  by (simp add: decision_in_def policy_decision_def)

lemma authorize_right:
  assumes "right_for p (tables s) (memory s)" "faults s = []" "ctx_profile_id context = p" "\<not> is_owner actor"
    and result: "authorize hyph actor action resource context s = (r, s')"
  shows "right_for p (tables s') (memory s')" "faults s' = []"
    "keyed actor action \<Longrightarrow> r = Inr (decision_in p (tables s') actor action resource)"
proof -
  let ?key = "request_key actor action resource"
  have same: "decision_in p (tables s') = decision_in p (tables s)"
    using result assms(2,4) by (auto simp: fun_eq_iff authorize_eq decision_in_audit Let_def split: option.splits)
  have cached: "decision = decision_in p (tables s) b action' t"
    if "keyed b action'" "map_of (memory s') (request_key b action' t) = Some decision" for b action' t decision
  proof (cases "map_of (memory s) ?key")
    case (Some d)
    then have "memory s' = memory s" using result assms(2,4) by (auto simp: authorize_eq Let_def)
    with that assms(1) show ?thesis by (auto simp: right_for_def)
  next
    case None
    then have m: "memory s' = table_insert ?key (decision_in p (tables s) actor action resource) (memory s)"
      using result assms(2-4) by (auto simp: authorize_eq decision_in_def Let_def)
    show ?thesis
    proof (cases "request_key b action' t = ?key")
      case True
      with that m same_key_same_decision(2) [OF True that(1)] show ?thesis by simp
    next
      case False
      with that m assms(1) show ?thesis by (auto simp: right_for_def)
    qed
  qed
  then show "right_for p (tables s') (memory s')"
    unfolding right_for_def same by blast
  show "faults s' = []"
    using result assms(2,4) by (auto simp: authorize_eq Let_def split: option.splits)
  show "r = Inr (decision_in p (tables s') actor action resource)" if "keyed actor action"
    using that result assms unfolding same
    by (auto simp: authorize_eq right_for_def decision_in_def Let_def split: option.splits)
qed

text \<open>A run of requests, with the decisions on them.\<close>

fun authorize_all ::
  "(uuid \<Rightarrow> string) \<Rightarrow> (Actor \<times> Action \<times> Resource \<times> AuthorizationContext) list
     \<Rightarrow> (auth_db, (cache_key \<times> Decision) list) server \<Rightarrow> (AppError + Decision) list" where
  "authorize_all hyph [] s = []"
| "authorize_all hyph ((actor, action, resource, context) # requests) s =
     (case authorize hyph actor action resource context s of (r, s') \<Rightarrow>
       r # authorize_all hyph requests s')"

lemma decision_in_later:
  assumes "authorize hyph actor action resource context s = (r, s')" "faults s = []" "\<not> is_owner actor"
  shows "decision_in p (tables s') = decision_in p (tables s)"
  using assms by (auto simp: fun_eq_iff authorize_eq decision_in_audit Let_def split: option.splits)

definition right_answer ::
  "uuid \<Rightarrow> auth_db \<Rightarrow> Actor \<times> Action \<times> Resource \<times> AuthorizationContext \<Rightarrow> AppError + Decision \<Rightarrow> bool" where
  "right_answer p d request r = (case request of (actor, action, resource, _) \<Rightarrow>
     keyed actor action \<longrightarrow> r = Inr (decision_in p d actor action resource))"

text \<open>
  Property C13: within one profile the cache is transparent for everyone whose decision does not depend
  on permissions of its own.  In any run that starts with an empty cache, every such request gets
  the decision of the policies and the matrix, whatever was asked before and by whom.
\<close>

theorem cache_transparent_in_profile:
  assumes "memory s = []" "faults s = []"
    and "list_all (\<lambda>(actor, action, resource, context). ctx_profile_id context = p \<and> \<not> is_owner actor) requests"
  shows "list_all2 (right_answer p (tables s)) requests (authorize_all hyph requests s)"
proof -
  have "right_for p (tables s) (memory s)" using assms(1) by (simp add: right_for_def)
  with assms(2,3) show ?thesis
  proof (induction requests arbitrary: s)
    case (Cons request requests)
    obtain actor action resource ctx where request: "request = (actor, action, resource, ctx)"
      by (cases request) auto
    obtain r s' where step: "authorize hyph actor action resource ctx s = (r, s')"
      by (cases "authorize hyph actor action resource ctx s")
    have ok: "ctx_profile_id ctx = p" "\<not> is_owner actor" using Cons.prems(2) request by simp_all
    note right = authorize_right [OF Cons.prems(3,1) ok step]
    have "decision_in p (tables s') = decision_in p (tables s)"
      using decision_in_later [OF step Cons.prems(1) ok(2)] .
    then have "right_answer p (tables s') = right_answer p (tables s)"
      by (simp add: right_answer_def fun_eq_iff)
    moreover have "right_answer p (tables s') request r" using right(3) by (simp add: right_answer_def request)
    ultimately show ?case
      using Cons.IH [OF right(2) _ right(1)] Cons.prems(2) by (simp add: request step)
  qed simp
qed

subsection \<open>Examples\<close>

definition two_profiles :: "(auth_db, (cache_key \<times> Decision) list) server" where
  "two_profiles =
     \<lparr>tables = \<lparr>user_columns = migrated_columns, user_rows = [], workspace_rows = [],
        policy_rows = [\<lparr>pol_profile_id = 2, pol_actor = ''PLUGIN'', pol_action = ''READ'', pol_resource = ''BOOK'',
          pol_decision = ''DENY'', pol_priority = 1, pol_enabled = True\<rparr>], audit_rows = []\<rparr>,
      memory = [], faults = []\<rparr>"

abbreviation in_profile :: "uuid \<Rightarrow> AuthorizationContext" where
  "in_profile p \<equiv> \<lparr>ctx_profile_id = p, ctx_user_id = None\<rparr>"

theorem roles_are_ordered_witness:
  "human_decision ''ADMIN'' (Act_Execute Risk_Write) (Book 1) = Allow"
  by (rule roles_are_ordered [of "''MEMBER''"])
    (simp_all add: human_decision_def member_decision_def role_rank_def less_eq_RiskClass_def)

theorem fresh_decision_witness:
  "fst (authorize (\<lambda>_. ''x'') (Agent 7 []) Act_Read (Book 1) (in_profile 1) two_profiles) = Inr Allow"
  using fresh_decision [of "Agent 7 []" two_profiles Act_Read "Book 1" "in_profile 1"]
  by (auto simp: is_owner_def two_profiles_def policy_decision_def request_key_def actor_key_def action_key_def
      decide_def default_matrix_decision_def agent_decision_def)

theorem cached_grant_reaches_others_witness:
  "fst (authorize (\<lambda>_. ''x'') (Plugin 8 []) Act_Read (Book 5) (in_profile 2)
     (snd (authorize (\<lambda>_. ''x'') (Plugin 7 [\<lparr>perm_action = ''read'', resource_pattern = ''*''\<rparr>]) Act_Read (Book 1)
       (in_profile 1) two_profiles))) = Inr Allow"
proof -
  let ?ask = "authorize (\<lambda>_. ''x'') (Plugin 7 [\<lparr>perm_action = ''read'', resource_pattern = ''*''\<rparr>]) Act_Read (Book 1)
    (in_profile 1) two_profiles"
  have "?ask = (Inr Allow, snd ?ask)"
    by (simp add: authorize_eq is_owner_def two_profiles_def policy_decision_def request_key_def actor_key_def
        action_key_def decide_def default_matrix_decision_def component_decision_def may_def allow_if_def Let_def)
  from cached_grant_reaches_others [OF this] show ?thesis
    by (simp add: two_profiles_def resource_key_def)
qed

theorem owner_is_never_authorized_witness:
  "\<exists>e. fst (authorize (\<lambda>_. ''x'') (Human 1 ''OWNER'') Act_Read (Book 1) (in_profile 1) two_profiles) = Inl (App_Database e)"
  by (rule owner_is_never_authorized) (simp add: two_profiles_def)

theorem cache_transparent_in_profile_witness:
  "authorize_all (\<lambda>_. ''x'') [(Agent 7 [], Act_Read, Book 1, in_profile 1), (Agent 8 [], Act_Read, Book 2, in_profile 1)]
     two_profiles = [Inr Allow, Inr Allow]"
  using cache_transparent_in_profile [of two_profiles 1
      "[(Agent 7 [], Act_Read, Book 1, in_profile 1), (Agent 8 [], Act_Read, Book 2, in_profile 1)]" "\<lambda>_. ''x''"]
  by (simp add: two_profiles_def right_answer_def is_owner_def keyed_def decision_in_def policy_decision_def request_key_def
      actor_key_def action_key_def decide_def default_matrix_decision_def agent_decision_def split: prod.splits)

end
