(* ===== verification/Rate_Limiter.thy ===== *)
theory Rate_Limiter
  imports Hash_Table
begin

section \<open>The rate limiter\<close>

text \<open>
  \<open>crates/gobrowse-server/src/rate_limiter.rs\<close>.  Times are milliseconds in a \<open>u64\<close>, counts are
  \<open>u32\<close>; where the code adds or multiplies, the wrap-around of a release build is written out.
\<close>

record WindowCounter =
  slots :: "(nat \<times> nat) list"
  window_secs :: nat

definition new_counter :: "nat \<Rightarrow> WindowCounter" where
  "new_counter w = \<lparr>slots = [], window_secs = w\<rparr>"

definition window_ms :: "nat \<Rightarrow> nat" where
  "window_ms w = w * 1000 mod 2 ^ 64"

definition slot_of :: "nat \<Rightarrow> nat" where
  "slot_of now = now div 1000 * 1000"

text \<open>\<open>slots.retain\<close>: those that do not lie before the window.\<close>

definition retained :: "nat \<Rightarrow> nat \<Rightarrow> (nat \<times> nat) list \<Rightarrow> (nat \<times> nat) list" where
  "retained now w = filter (\<lambda>(ts, _). ts \<ge> now - window_ms w)"

definition hit :: "nat \<Rightarrow> nat \<Rightarrow> WindowCounter \<Rightarrow> bool \<times> WindowCounter" where
  "hit now limit c =
     (let kept = retained now (window_secs c) (slots c);
          slot = slot_of now;
          counted = (if kept \<noteq> [] \<and> fst (last kept) = slot
                     then butlast kept @ [(slot, (snd (last kept) + 1) mod 2 ^ 32)]
                     else kept @ [(slot, 1)]);
          total = sum_list (map snd counted) mod 2 ^ 32
      in (total > limit, c\<lparr>slots := counted\<rparr>))"

record RateLimiter =
  key_buckets :: "(string \<times> nat \<times> WindowCounter) list"
  global_buckets :: "(string \<times> WindowCounter) list"

definition new_limiter :: RateLimiter where
  "new_limiter = \<lparr>key_buckets = [], global_buckets = []\<rparr>"

definition check_key :: "string \<Rightarrow> nat \<Rightarrow> nat \<Rightarrow> nat \<Rightarrow> RateLimiter \<Rightarrow> bool \<times> RateLimiter" where
  "check_key key w limit now r =
     (let entry = (case map_of (key_buckets r) key of
            None \<Rightarrow> (w, new_counter w)
          | Some (configured, c) \<Rightarrow> if configured \<noteq> w then (w, new_counter w) else (configured, c))
      in case hit now limit (snd entry) of (over, c) \<Rightarrow>
           (over, r\<lparr>key_buckets := table_insert key (fst entry, c) (key_buckets r)\<rparr>))"

definition check_global :: "string \<Rightarrow> nat \<Rightarrow> nat \<Rightarrow> nat \<Rightarrow> RateLimiter \<Rightarrow> bool \<times> RateLimiter" where
  "check_global bucket w limit now r =
     (let entry = (case map_of (global_buckets r) bucket of
            None \<Rightarrow> new_counter w
          | Some c \<Rightarrow> if window_secs c \<noteq> w then new_counter w else c)
      in case hit now limit entry of (over, c) \<Rightarrow>
           (over, r\<lparr>global_buckets := table_insert bucket c (global_buckets r)\<rparr>))"

definition prune_counter :: "nat \<Rightarrow> nat \<Rightarrow> WindowCounter \<Rightarrow> WindowCounter option" where
  "prune_counter now w c =
     (let kept = retained now w (slots c) in if kept = [] then None else Some (c\<lparr>slots := kept\<rparr>))"

definition prune :: "nat \<Rightarrow> RateLimiter \<Rightarrow> RateLimiter" where
  "prune now r =
     \<lparr>key_buckets = List.map_filter (\<lambda>(k, w, c). map_option (\<lambda>c'. (k, w, c')) (prune_counter now w c)) (key_buckets r),
      global_buckets = List.map_filter (\<lambda>(k, c). map_option (\<lambda>c'. (k, c')) (prune_counter now (window_secs c) c))
        (global_buckets r)\<rparr>"

subsection \<open>What a counter counts\<close>

text \<open>The hits of the slots from \<open>x\<close> on, and those of a history of times.\<close>

definition sum_from :: "nat \<Rightarrow> (nat \<times> nat) list \<Rightarrow> nat" where
  "sum_from x es = sum_list (map snd (filter (\<lambda>(ts, _). x \<le> ts) es))"

definition hits_from :: "nat \<Rightarrow> nat list \<Rightarrow> nat" where
  "hits_from x history = length (filter (\<lambda>t. x \<le> slot_of t) history)"

text \<open>\<open>counts start history es\<close>: from \<open>start\<close> on, the slots count the hits of the history.\<close>

definition counts :: "nat \<Rightarrow> nat list \<Rightarrow> (nat \<times> nat) list \<Rightarrow> bool" where
  "counts start history es \<longleftrightarrow> (\<forall>x\<ge>start. sum_from x es = hits_from x history)"

lemma sum_from_retained:
  "x \<ge> now - window_ms w \<Longrightarrow> sum_from x (retained now w es) = sum_from x es"
proof -
  assume "x \<ge> now - window_ms w"
  then have "filter (\<lambda>(ts, _). x \<le> ts) (retained now w es) = filter (\<lambda>(ts, _). x \<le> ts) es"
    unfolding retained_def filter_filter by (intro filter_cong) auto
  then show ?thesis by (simp add: sum_from_def)
qed

lemma counts_retained: "counts start history es \<Longrightarrow> start \<le> now - window_ms w
    \<Longrightarrow> counts (now - window_ms w) history (retained now w es)"
  by (simp add: counts_def sum_from_retained)

lemma counts_later: "counts start history es \<Longrightarrow> start \<le> start' \<Longrightarrow> counts start' history es"
  by (simp add: counts_def)

lemma hits_from_le: "hits_from x history \<le> length history"
  by (simp add: hits_from_def)

lemma hits_from_snoc: "hits_from x (history @ [t]) = hits_from x history + (if x \<le> slot_of t then 1 else 0)"
  by (simp add: hits_from_def)

lemma sum_from_append: "sum_from x (es @ fs) = sum_from x es + sum_from x fs"
  by (simp add: sum_from_def)

lemma sum_from_single: "sum_from x [(ts, n)] = (if x \<le> ts then n else 0)"
  by (simp add: sum_from_def)

lemma window_start: "1 \<le> w \<Longrightarrow> w * 1000 < 2 ^ 64 \<Longrightarrow> now - window_ms w \<le> slot_of now"
  using div_mult_mod_eq [of now 1000] mod_less_divisor [of 1000 now]
  by (simp add: window_ms_def slot_of_def)

text \<open>A hit answers whether the history with this hit has more than \<open>limit\<close> hits in the window.\<close>

lemma hit_counts:
  assumes counts: "counts start history (slots c)" and start: "start \<le> now - window_ms (window_secs c)"
    and w: "1 \<le> window_secs c" "window_secs c * 1000 < 2 ^ 64"
    and few: "length history + 1 < 2 ^ 32"
    and result: "hit now limit c = (over, c')"
  shows "over \<longleftrightarrow> limit < hits_from (now - window_ms (window_secs c)) (history @ [now])"
    and "counts (now - window_ms (window_secs c)) (history @ [now]) (slots c')"
    and "window_secs c' = window_secs c"
proof -
  let ?start = "now - window_ms (window_secs c)"
  let ?kept = "retained now (window_secs c) (slots c)"
  have kept: "counts ?start history ?kept" using counts_retained [OF counts start] .
  have in_window: "?start \<le> slot_of now" using window_start [OF w] .
  have add: "sum_from x (slots c') = sum_from x ?kept + (if x \<le> slot_of now then 1 else 0)" for x
  proof (cases "?kept \<noteq> [] \<and> fst (last ?kept) = slot_of now")
    case True
    then have split: "?kept = butlast ?kept @ [(slot_of now, snd (last ?kept))]"
      by (metis append_butlast_last_id prod.collapse)
    have "snd (last ?kept) \<le> sum_from ?start ?kept"
      by (subst split) (use in_window in \<open>simp add: sum_from_append sum_from_single\<close>)
    then have "snd (last ?kept) < 2 ^ 32 - 1"
      using kept few hits_from_le [of ?start history] by (simp add: counts_def)
    then have "slots c' = butlast ?kept @ [(slot_of now, snd (last ?kept) + 1)]"
      using result True by (auto simp: hit_def Let_def)
    moreover have "sum_from x ?kept = sum_from x (butlast ?kept @ [(slot_of now, snd (last ?kept))])"
      using split by simp
    ultimately show ?thesis by (simp add: sum_from_append sum_from_single)
  next
    case False
    then have "slots c' = ?kept @ [(slot_of now, 1)]" using result by (auto simp: hit_def Let_def)
    then show ?thesis by (simp add: sum_from_append sum_from_single)
  qed
  show after: "counts ?start (history @ [now]) (slots c')"
    using kept by (simp add: counts_def add hits_from_snoc)
  have all: "filter (\<lambda>(ts, _). ?start \<le> ts) (slots c') = slots c'"
  proof -
    have "set (slots c') \<subseteq> set ?kept \<union> {slot_of now} \<times> UNIV"
      using result by (auto simp: hit_def Let_def split: if_splits dest: in_set_butlastD)
    then show ?thesis using in_window by (auto simp: retained_def filter_id_conv)
  qed
  have "over \<longleftrightarrow> limit < sum_list (map snd (slots c')) mod 2 ^ 32"
    using result by (auto simp: hit_def Let_def)
  also have "sum_list (map snd (slots c')) = hits_from ?start (history @ [now])"
    using after [unfolded counts_def sum_from_def, rule_format, OF order_refl] all by simp
  also have "hits_from ?start (history @ [now]) mod 2 ^ 32 = hits_from ?start (history @ [now])"
    using hits_from_le [of ?start "history @ [now]"] few by simp
  finally show "over \<longleftrightarrow> limit < hits_from ?start (history @ [now])" .
  show "window_secs c' = window_secs c" using result by (auto simp: hit_def Let_def)
qed

subsection \<open>The limiter over a run\<close>

datatype limiter_op = Check_Key string nat nat nat | Check_Global string nat nat nat | Prune nat

fun op_time :: "limiter_op \<Rightarrow> nat" where
  "op_time (Check_Key _ _ _ t) = t"
| "op_time (Check_Global _ _ _ t) = t"
| "op_time (Prune t) = t"

fun limiter_step :: "limiter_op \<Rightarrow> RateLimiter \<Rightarrow> RateLimiter" where
  "limiter_step (Check_Key key w limit t) r = snd (check_key key w limit t r)"
| "limiter_step (Check_Global bucket w limit t) r = snd (check_global bucket w limit t r)"
| "limiter_step (Prune t) r = prune t r"

text \<open>The times at which a key was checked.\<close>

definition checks_of :: "string \<Rightarrow> limiter_op list \<Rightarrow> nat list" where
  "checks_of key ops = concat (map (\<lambda>x. case x of Check_Key k _ _ t \<Rightarrow> if k = key then [t] else [] | _ \<Rightarrow> []) ops)"

text \<open>Every check of the key has the same window, and the clock does not go back.\<close>

definition steady :: "string \<Rightarrow> nat \<Rightarrow> limiter_op list \<Rightarrow> bool" where
  "steady key w ops \<longleftrightarrow> sorted (map op_time ops)
     \<and> list_all (\<lambda>x. case x of Check_Key k w' _ _ \<Rightarrow> k = key \<longrightarrow> w' = w | _ \<Rightarrow> True) ops"

definition slots_of_key :: "string \<Rightarrow> RateLimiter \<Rightarrow> (nat \<times> nat) list" where
  "slots_of_key key r = (case map_of (key_buckets r) key of None \<Rightarrow> [] | Some (_, c) \<Rightarrow> slots c)"

definition bucket_ok :: "string \<Rightarrow> nat \<Rightarrow> RateLimiter \<Rightarrow> bool" where
  "bucket_ok key w r \<longleftrightarrow> distinct (map fst (key_buckets r))
     \<and> (case map_of (key_buckets r) key of None \<Rightarrow> True | Some e \<Rightarrow> fst e = w \<and> window_secs (snd e) = w)"

lemma map_of_map_filter:
  assumes "distinct (map fst es)"
  shows "map_of (List.map_filter (\<lambda>(k, v). map_option (\<lambda>v'. (k, v')) (f v)) es) key =
     (case map_of es key of None \<Rightarrow> None | Some v \<Rightarrow> f v)"
  using assms
proof (induction es)
  case (Cons e es)
  obtain k v where e: "e = (k, v)" by (cases e)
  have "map_of es k = None" using Cons.prems e by (auto simp: map_of_eq_None_iff)
  with Cons e show ?case by (auto simp: List.map_filter_simps split: option.split)
qed (simp add: List.map_filter_simps)

lemma keys_map_filter:
  "distinct (map fst es) \<Longrightarrow> distinct (map fst (List.map_filter (\<lambda>(k, v). map_option (\<lambda>v'. (k, v')) (f v)) es))"
proof (induction es)
  case (Cons e es)
  have "fst ` set (List.map_filter (\<lambda>(k, v). map_option (\<lambda>v'. (k, v')) (f v)) es) \<subseteq> fst ` set es"
    by (force simp: List.map_filter_def)
  with Cons show ?case by (cases e) (auto simp: List.map_filter_simps split: option.split)
qed (simp add: List.map_filter_simps)

lemma pruned_key:
  assumes "distinct (map fst (key_buckets r))"
  shows "map_of (key_buckets (prune t r)) key =
     (case map_of (key_buckets r) key of None \<Rightarrow> None
      | Some (w, c) \<Rightarrow> map_option (\<lambda>c'. (w, c')) (prune_counter t w c))"
    and "distinct (map fst (key_buckets (prune t r)))"
proof -
  have shape: "(\<lambda>(k, w, c). map_option (\<lambda>c'. (k, w, c')) (prune_counter t w c)) =
      (\<lambda>(k, v). map_option (\<lambda>v'. (k, v')) (map_option (\<lambda>c'. (fst v, c')) (prune_counter t (fst v) (snd v))))"
    by (auto simp: fun_eq_iff option.map_comp comp_def)
  show "map_of (key_buckets (prune t r)) key =
     (case map_of (key_buckets r) key of None \<Rightarrow> None
      | Some (w, c) \<Rightarrow> map_option (\<lambda>c'. (w, c')) (prune_counter t w c))"
    unfolding prune_def shape by (simp add: map_of_map_filter [OF assms] split: option.split prod.split)
  show "distinct (map fst (key_buckets (prune t r)))"
    unfolding prune_def shape by (simp add: keys_map_filter [OF assms])
qed

lemma check_key_counts:
  assumes ok: "bucket_ok key w r" and counts: "counts (last_time - window_ms w) history (slots_of_key key r)"
    and time: "last_time \<le> t" and w: "1 \<le> w" "w * 1000 < 2 ^ 64" and few: "length history + 1 < 2 ^ 32"
    and result: "check_key key w limit t r = (over, r')"
  shows "over \<longleftrightarrow> limit < hits_from (t - window_ms w) (history @ [t])"
    and "bucket_ok key w r'" and "counts (t - window_ms w) (history @ [t]) (slots_of_key key r')"
proof -
  define c where "c = (case map_of (key_buckets r) key of None \<Rightarrow> new_counter w | Some (_, c) \<Rightarrow> c)"
  have c: "window_secs c = w" "slots c = slots_of_key key r"
    using ok unfolding c_def bucket_ok_def slots_of_key_def
    by (auto simp: new_counter_def simp del: map_of_eq_Some_iff split: option.splits)
  have entry: "(case map_of (key_buckets r) key of None \<Rightarrow> (w, new_counter w)
      | Some (configured, c) \<Rightarrow> if configured \<noteq> w then (w, new_counter w) else (configured, c)) = (w, c)"
    using ok by (auto simp: c_def bucket_ok_def simp del: map_of_eq_Some_iff split: option.splits)
  obtain c' where c': "hit t limit c = (over, c')" "r' = r\<lparr>key_buckets := table_insert key (w, c') (key_buckets r)\<rparr>"
    using result unfolding check_key_def entry by (auto split: prod.splits)
  have start: "last_time - window_ms w \<le> t - window_ms (window_secs c)" using time c(1) by simp
  note counted = hit_counts [OF counts [folded c(2)] start _ _ few c'(1)]
  show "over \<longleftrightarrow> limit < hits_from (t - window_ms w) (history @ [t])" using counted(1) w c(1) by simp
  show "bucket_ok key w r'"
    using ok counted(3) w c(1)
    by (auto simp: bucket_ok_def c'(2) distinct_table_insert simp del: map_of_eq_Some_iff)
  show "counts (t - window_ms w) (history @ [t]) (slots_of_key key r')"
    using counted(2) w c(1) by (simp add: slots_of_key_def c'(2))
qed

lemma other_key:
  assumes "bucket_ok key w r" "k \<noteq> key"
  shows "bucket_ok key w (snd (check_key k w' limit t r))"
    "slots_of_key key (snd (check_key k w' limit t r)) = slots_of_key key r"
proof -
  obtain e where "key_buckets (snd (check_key k w' limit t r)) = table_insert k e (key_buckets r)"
    by (rule that) (simp add: check_key_def Let_def case_prod_beta)
  with assms show "bucket_ok key w (snd (check_key k w' limit t r))"
    "slots_of_key key (snd (check_key k w' limit t r)) = slots_of_key key r"
    by (simp_all add: bucket_ok_def slots_of_key_def distinct_table_insert del: map_of_eq_Some_iff)
qed

lemma limiter_step_counts:
  assumes ok: "bucket_ok key w r" and counts: "counts (last_time - window_ms w) history (slots_of_key key r)"
    and time: "last_time \<le> op_time x" and w: "1 \<le> w" "w * 1000 < 2 ^ 64"
    and same: "case x of Check_Key k w' _ _ \<Rightarrow> k = key \<longrightarrow> w' = w | _ \<Rightarrow> True"
    and few: "length (history @ checks_of key [x]) < 2 ^ 32"
  shows "bucket_ok key w (limiter_step x r)
     \<and> counts (op_time x - window_ms w) (history @ checks_of key [x]) (slots_of_key key (limiter_step x r))"
proof (cases x)
  case (Check_Key k w' limit t)
  show ?thesis
  proof (cases "k = key")
    case True
    with same Check_Key have "w' = w" by simp
    have "last_time \<le> t" "length history + 1 < 2 ^ 32"
      using Check_Key True time few by (simp_all add: checks_of_def)
    from check_key_counts(2,3) [OF ok counts this(1) w this(2) surjective_pairing]
    show ?thesis using True Check_Key \<open>w' = w\<close> by (simp add: checks_of_def)
  next
    case False
    with other_key [OF ok] Check_Key time counts_later [OF counts] show ?thesis
      by (simp add: checks_of_def diff_le_mono)
  qed
next
  case (Check_Global b w' limit t)
  have "key_buckets (limiter_step x r) = key_buckets r"
    by (simp add: Check_Global check_global_def Let_def split: prod.split)
  with ok Check_Global time counts_later [OF counts] show ?thesis
    by (simp add: checks_of_def diff_le_mono bucket_ok_def slots_of_key_def)
next
  case (Prune t)
  have d: "distinct (map fst (key_buckets r))" using ok by (simp add: bucket_ok_def)
  have "bucket_ok key w (prune t r)"
    using ok pruned_key(2) [OF d] unfolding bucket_ok_def pruned_key(1) [OF d]
    by (auto simp: prune_counter_def Let_def simp del: map_of_eq_Some_iff split: option.splits if_splits)
  moreover have "slots_of_key key (prune t r) = retained t w (slots_of_key key r)"
  proof (cases "map_of (key_buckets r) key")
    case None
    then show ?thesis by (simp add: slots_of_key_def pruned_key(1) [OF d] retained_def)
  next
    case (Some e)
    with ok show ?thesis
      by (cases e) (auto simp: slots_of_key_def pruned_key(1) [OF d] prune_counter_def bucket_ok_def Let_def)
  qed
  ultimately show ?thesis
    using Prune time counts_retained [OF counts, of t] by (simp add: checks_of_def diff_le_mono)
qed

lemma checks_of_append: "checks_of key (ops @ ops') = checks_of key ops @ checks_of key ops'"
  by (simp add: checks_of_def)

lemma limiter_run_counts:
  assumes "steady key w ops" "1 \<le> w" "w * 1000 < 2 ^ 64" "length (checks_of key ops) < 2 ^ 32"
  shows "bucket_ok key w (fold limiter_step ops new_limiter)
     \<and> counts ((if ops = [] then 0 else op_time (last ops)) - window_ms w) (checks_of key ops)
         (slots_of_key key (fold limiter_step ops new_limiter))"
  using assms
proof (induction ops rule: rev_induct)
  case Nil
  then show ?case
    by (simp add: bucket_ok_def new_limiter_def slots_of_key_def counts_def sum_from_def hits_from_def checks_of_def)
next
  case (snoc x ops)
  have "steady key w ops" "length (checks_of key ops) < 2 ^ 32"
    using snoc.prems by (simp_all add: steady_def sorted_append checks_of_append)
  note IH = snoc.IH [OF this(1) snoc.prems(2,3) this(2)]
  have "(if ops = [] then 0 else op_time (last ops)) \<le> op_time x"
    using snoc.prems(1) by (cases ops rule: rev_cases) (auto simp: steady_def sorted_append)
  then show ?case
    using limiter_step_counts [OF conjunct1 [OF IH] conjunct2 [OF IH] _ snoc.prems(2,3), of x] snoc.prems(1,4)
    by (simp add: steady_def checks_of_append)
qed

text \<open>
  Property C12: a check answers by the number of checks of its key in the window, and by nothing else:
  over any run with other keys, buckets and prunings in between, the key is refused exactly when
  the seconds from the start of the window on have more than \<open>limit\<close> checks, this one included.
\<close>

theorem limiter_counts_checks:
  assumes "steady key w (ops @ [Check_Key key w limit t])" "1 \<le> w" "w * 1000 < 2 ^ 64"
    and "length ops + 1 < 2 ^ 32"
  shows "fst (check_key key w limit t (fold limiter_step ops new_limiter)) \<longleftrightarrow>
     limit < length (filter (\<lambda>u. t - w * 1000 \<le> u div 1000 * 1000) (checks_of key ops @ [t]))"
proof -
  let ?r = "fold limiter_step ops new_limiter"
  have steady: "steady key w ops" using assms(1) by (simp add: steady_def sorted_append)
  have few: "length (checks_of key ops) \<le> length ops"
    by (induction ops) (auto simp: checks_of_def split: limiter_op.split)
  then have "length (checks_of key ops) < 2 ^ 32" using assms(4) by simp
  note run = limiter_run_counts [OF steady assms(2,3) this]
  have "(if ops = [] then 0 else op_time (last ops)) \<le> t"
    using assms(1) by (cases ops rule: rev_cases) (auto simp: steady_def sorted_append)
  from check_key_counts(1) [OF conjunct1 [OF run] conjunct2 [OF run] this assms(2,3), of limit
      "fst (check_key key w limit t ?r)" "snd (check_key key w limit t ?r)"] few assms(3,4)
  show ?thesis by (simp add: hits_from_def slot_of_def window_ms_def)
qed

text \<open>
  Property: what a key is granted is bounded.  When a check is granted, the checks of its key since
  a second less than the window ago, refused ones among them, are at most \<open>limit\<close>.
\<close>

theorem granted_within_limit:
  assumes "steady key w (ops @ [Check_Key key w limit t])" "1 \<le> w" "w * 1000 < 2 ^ 64" "length ops + 1 < 2 ^ 32"
    and "\<not> fst (check_key key w limit t (fold limiter_step ops new_limiter))"
  shows "length (filter (\<lambda>u. t + 999 \<le> u + w * 1000) (checks_of key ops @ [t])) \<le> limit"
proof -
  let ?slots = "filter (\<lambda>u. t - w * 1000 \<le> u div 1000 * 1000) (checks_of key ops @ [t])"
  have "t - w * 1000 \<le> u div 1000 * 1000" if "t + 999 \<le> u + w * 1000" for u
    using that div_mult_mod_eq [of u 1000] mod_less_divisor [of 1000 u] by linarith
  then have "length (filter (\<lambda>u. t + 999 \<le> u + w * 1000) (checks_of key ops @ [t])) \<le> length ?slots"
    by (simp only: length_filter_conv_card) (intro card_mono, auto)
  also have "\<dots> \<le> limit"
    using limiter_counts_checks [OF assms(1-4)] assms(5) by simp
  finally show ?thesis .
qed

text \<open>A window of a second, and a limit of one.\<close>

theorem limiter_counts_checks_witness:
  "fst (check_key ''ip'' 1 1 900 (fold limiter_step [Check_Key ''ip'' 1 1 100, Prune 200, Check_Key ''x'' 9 1 300] new_limiter))"
  using limiter_counts_checks [of "''ip''" 1 "[Check_Key ''ip'' 1 1 100, Prune 200, Check_Key ''x'' 9 1 300]" 1 900]
  by (simp add: steady_def checks_of_def)

theorem granted_within_limit_witness:
  "length (filter (\<lambda>u. 1500 + 999 \<le> u + 1 * 1000) (checks_of ''ip'' [Check_Key ''ip'' 1 1 100] @ [1500::nat])) \<le> 1"
  using granted_within_limit [of "''ip''" 1 "[Check_Key ''ip'' 1 1 100]" 1 1500]
    limiter_counts_checks [of "''ip''" 1 "[Check_Key ''ip'' 1 1 100]" 1 1500]
  by (simp add: steady_def checks_of_def)

end
