(* ===== verification/Session_Manager.thy ===== *)
theory Session_Manager
  imports Server_Core Rate_Limiter Json
begin

section \<open>Sessions\<close>

text \<open>
  The tables of users, sessions and login attempts, and
  \<open>crates/gobrowse-server/src/session_manager.rs\<close>: the limit on concurrent sessions, events,
  revocation and step-up.  Times are microseconds; \<open>now\<close> is the clock of the server, which does
  not move during a handler.  \<open>draws\<close> counts the random values drawn so far.
\<close>

record user_row =
  usr_id :: uuid
  usr_profile_id :: uuid
  usr_email :: string
  usr_display_name :: string
  usr_role :: string
  usr_password_hash :: string
  usr_auth_epoch :: int
  usr_disabled :: bool
  usr_failures :: int
  usr_locked_until :: "int option"

record session_row =
  ses_token_hash :: string
  ses_user_id :: uuid
  ses_auth_epoch :: int
  ses_created_at :: int
  ses_last_seen_at :: int
  ses_expires_at :: int
  ses_absolute_expires_at :: int
  ses_last_step_up_at :: "int option"

record revocation_row =
  rev_token_hash :: string
  rev_user_id :: uuid
  rev_revoked_by :: "uuid option"
  rev_reason :: string

record session_event_row =
  sev_session_hash :: string
  sev_user_id :: uuid
  sev_event_type :: string
  sev_metadata :: json

record attempt_row =
  att_email :: string
  att_occurred_at :: int
  att_outcome :: string

record method_row =
  met_id :: uuid
  met_user_id :: uuid
  met_type :: string

record audit_event_row =
  ade_user_id :: "uuid option"
  ade_profile_id :: "uuid option"
  ade_action :: string
  ade_resource_type :: string
  ade_resource_id :: "string option"
  ade_outcome :: string

record book_row =
  bok_id :: uuid
  bok_profile_id :: uuid
  bok_author :: string
  bok_created_by :: uuid
  bok_revision :: uuid

record session_db =
  user_table :: "user_row list"
  session_table :: "session_row list"
  revocation_table :: "revocation_row list"
  session_event_table :: "session_event_row list"
  attempt_table :: "attempt_row list"
  method_table :: "method_row list"
  audit_table :: "audit_event_row list"
  profile_table :: "(uuid \<times> string) list"
  book_table :: "book_row list"

record session_memory =
  clock :: int
  draws :: nat
  limiter :: RateLimiter

type_synonym 'a ses = "(session_db, session_memory, 'a) handler"

definition current_time :: "int ses" where
  "current_time = get_memory clock"

subsection \<open>Which sessions are live\<close>

definition is_revoked :: "session_db \<Rightarrow> string \<Rightarrow> bool" where
  "is_revoked d h \<longleftrightarrow> list_ex (\<lambda>r. rev_token_hash r = h) (revocation_table d)"

text \<open>The sessions that count as active, in the order of the table.\<close>

definition active_sessions :: "int \<Rightarrow> uuid \<Rightarrow> session_db \<Rightarrow> session_row list" where
  "active_sessions now user_id d =
     filter (\<lambda>s. ses_user_id s = user_id \<and> ses_expires_at s > now \<and> \<not> is_revoked d (ses_token_hash s))
       (session_table d)"

subsection \<open>Revocation\<close>

definition record_session_event :: "string \<Rightarrow> uuid \<Rightarrow> string \<Rightarrow> json \<Rightarrow> unit ses" where
  "record_session_event session_hash user_id event_type metadata =
     sql_execute (\<lambda>d. d\<lparr>session_event_table := session_event_table d @
       [\<lparr>sev_session_hash = session_hash, sev_user_id = user_id, sev_event_type = event_type,
         sev_metadata = metadata\<rparr>]\<rparr>)"

text \<open>\<open>ON CONFLICT DO NOTHING\<close>: the first revocation stays.\<close>

definition insert_revocation :: "revocation_row \<Rightarrow> session_db \<Rightarrow> session_db" where
  "insert_revocation r d =
     (if is_revoked d (rev_token_hash r) then d else d\<lparr>revocation_table := revocation_table d @ [r]\<rparr>)"

definition revoke_session :: "uuid \<Rightarrow> string \<Rightarrow> string \<Rightarrow> uuid option \<Rightarrow> unit ses" where
  "revoke_session user_id session_hash reason revoked_by =
     io_then (sql_execute (insert_revocation \<lparr>rev_token_hash = session_hash, rev_user_id = user_id,
         rev_revoked_by = revoked_by, rev_reason = reason\<rparr>))
       (record_session_event session_hash user_id ''revoked'' (JObject [(''reason'', JString reason)]))"

definition revoke_all_other_sessions :: "uuid \<Rightarrow> string \<Rightarrow> string \<Rightarrow> nat ses" where
  "revoke_all_other_sessions user_id keep_hash reason =
     io_bind (sql_select (\<lambda>d. map ses_token_hash
         (filter (\<lambda>s. ses_user_id s = user_id \<and> ses_token_hash s \<noteq> keep_hash) (session_table d)))) (\<lambda>hashes.
       io_then (io_for_each (\<lambda>h. revoke_session user_id h reason (Some user_id)) hashes)
         (io_ok (length hashes mod 2 ^ 32)))"

definition invalidate_all_sessions :: "uuid \<Rightarrow> string \<Rightarrow> unit ses" where
  "invalidate_all_sessions user_id reason =
     io_bind current_time (\<lambda>now.
     io_bind (sql_select (\<lambda>d. map ses_token_hash
         (filter (\<lambda>s. ses_user_id s = user_id \<and> ses_expires_at s > now) (session_table d)))) (\<lambda>hashes.
       io_then (io_for_each (\<lambda>h. revoke_session user_id h reason None) hashes)
         (sql_execute (\<lambda>d. d\<lparr>user_table :=
            map (\<lambda>u. if usr_id u = user_id then u\<lparr>usr_auth_epoch := usr_auth_epoch u + 1\<rparr> else u)
              (user_table d)\<rparr>))))"

subsection \<open>The limit on concurrent sessions\<close>

definition concurrent_limit_for_role :: "string \<Rightarrow> nat" where
  "concurrent_limit_for_role role =
     (if role = ''OWNER'' then 10 else if role = ''ADMIN'' then 5 else if role = ''MEMBER'' then 3
      else if role = ''VIEWER'' then 1 else 1)"

definition enforce_concurrent_limit :: "uuid \<Rightarrow> string \<Rightarrow> nat ses" where
  "enforce_concurrent_limit user_id role =
     io_bind current_time (\<lambda>now.
     io_bind (sql_select (\<lambda>d. length (active_sessions now user_id d))) (\<lambda>active.
       let over = int active - int (concurrent_limit_for_role role)
       in if over > 0
          then io_bind (sql_select (\<lambda>d. map ses_token_hash
                 (take (nat over) (sort_key ses_created_at (active_sessions now user_id d))))) (\<lambda>stale.
               io_then (io_for_each (\<lambda>h. revoke_session user_id h ''concurrent_limit'' None) stale)
                 (io_ok (nat over mod 2 ^ 32)))
          else io_ok 0))"

subsection \<open>Activity and step-up\<close>

definition update_session :: "string \<Rightarrow> (session_row \<Rightarrow> session_row) \<Rightarrow> session_db \<Rightarrow> session_db" where
  "update_session h f d =
     d\<lparr>session_table := map (\<lambda>s. if ses_token_hash s = h then f s else s) (session_table d)\<rparr>"

definition touch_session :: "string \<Rightarrow> unit ses" where
  "touch_session session_hash =
     io_bind current_time (\<lambda>now. sql_execute (update_session session_hash (\<lambda>s. s\<lparr>ses_last_seen_at := now\<rparr>)))"

definition step_up_fresh :: "string \<Rightarrow> int \<Rightarrow> bool ses" where
  "step_up_fresh session_hash step_up_max_age_secs =
     io_bind current_time (\<lambda>now.
       sql_select (\<lambda>d. case find (\<lambda>s. ses_token_hash s = session_hash) (session_table d) of
           None \<Rightarrow> False
         | Some s \<Rightarrow> (case ses_last_step_up_at s of None \<Rightarrow> False
             | Some t \<Rightarrow> t > now - step_up_max_age_secs * 1000000)))"

definition mark_step_up :: "string \<Rightarrow> uuid \<Rightarrow> unit ses" where
  "mark_step_up session_hash user_id =
     io_bind current_time (\<lambda>now.
       io_then (sql_execute (update_session session_hash (\<lambda>s. s\<lparr>ses_last_step_up_at := Some now\<rparr>)))
         (record_session_event session_hash user_id ''step_up'' (JObject [])))"

end
