(* ===== verification/Auth.thy ===== *)
theory Auth
  imports Session_Manager
begin

section \<open>Authentication\<close>

text \<open>
  \<open>crates/gobrowse-server/src/auth.rs\<close>.  A handler runs without another in between.  Headers are
  given by their text.  \<open>auth_lib\<close> are the parameters: Argon2 (\<open>verify_password\<close>, \<open>None\<close> for a
  malformed hash), SHA-256, base64, the lower-casing of Rust and of PostgreSQL, the uuid crate, and
  the random values; \<open>random_bytes n\<close> is the \<open>n\<close>-th that is drawn.
\<close>

record auth_lib =
  hash_password :: "string \<Rightarrow> nat \<Rightarrow> string"
  verify_password :: "string \<Rightarrow> string \<Rightarrow> bool option"
  dummy_hash :: string
  sha256_of :: "string \<Rightarrow> string"
  encode_url64 :: "string \<Rightarrow> string"
  decode_url64 :: "string \<Rightarrow> string option"
  rust_lower :: "string \<Rightarrow> string"
  sql_lower :: "string \<Rightarrow> string"
  uuid_text :: "uuid \<Rightarrow> string"
  random_bytes :: "nat \<Rightarrow> string"
  random_uuid :: "nat \<Rightarrow> uuid"

record AuthSettings =
  session_idle_minutes :: int
  session_absolute_hours :: int
  login_throttle_max_attempts :: nat
  login_throttle_window_secs :: int
  secure_cookies :: bool

record AuthenticatedUser =
  me_id :: uuid
  me_profile_id :: uuid
  me_email :: string
  me_display_name :: string
  me_role :: string
  me_session_hash :: "string option"

definition draw :: "nat ses" where
  "draw = with_memory (\<lambda>m. (draws m, m\<lparr>draws := draws m + 1\<rparr>))"

definition user_as :: "user_row \<Rightarrow> string \<Rightarrow> AuthenticatedUser" where
  "user_as u session_hash =
     \<lparr>me_id = usr_id u, me_profile_id = usr_profile_id u, me_email = usr_email u,
      me_display_name = usr_display_name u, me_role = usr_role u, me_session_hash = Some session_hash\<rparr>"

subsection \<open>Cookies\<close>

definition cookie_name :: "bool \<Rightarrow> string" where
  "cookie_name secure = (if secure then ''__Host-gobrowse_session'' else ''gobrowse_session'')"

definition session_token :: "string option \<Rightarrow> bool \<Rightarrow> string option" where
  "session_token cookies secure =
     (case cookies of
        None \<Rightarrow> None
      | Some text \<Rightarrow>
          map_option snd (find (\<lambda>(key, _). key = cookie_name secure)
            (List.map_filter (\<lambda>part. split_once CHR ''='' (str_trim part)) (split_on CHR '';'' text))))"

definition session_cookie :: "string \<Rightarrow> bool \<Rightarrow> string" where
  "session_cookie token secure =
     cookie_name secure @ ''='' @ token @ ''; Path=/; HttpOnly; SameSite=Lax'' @ (if secure then ''; Secure'' else [])"

definition expired_cookie :: "bool \<Rightarrow> string" where
  "expired_cookie secure =
     cookie_name secure @ ''=; Path=/; HttpOnly; SameSite=Lax; Max-Age=0'' @ (if secure then ''; Secure'' else [])"

definition token_hash :: "auth_lib \<Rightarrow> string \<Rightarrow> string" where
  "token_hash L token = sha256_of L token"

subsection \<open>Attempts\<close>

definition check_login_throttle :: "auth_lib \<Rightarrow> AuthSettings \<Rightarrow> string \<Rightarrow> unit ses" where
  "check_login_throttle L cfg email =
     io_bind current_time (\<lambda>now.
     let cutoff = now - login_throttle_window_secs cfg * 1000000
     in io_bind (sql_select (\<lambda>d. length (filter (\<lambda>a. att_email a = rust_lower L email \<and> att_occurred_at a > cutoff)
            (attempt_table d)))) (\<lambda>attempts.
          io_guard (\<not> attempts \<ge> login_throttle_max_attempts cfg) App_Unauthorized))"

definition record_login_attempt :: "auth_lib \<Rightarrow> string \<Rightarrow> string \<Rightarrow> unit ses" where
  "record_login_attempt L email outcome =
     io_bind current_time (\<lambda>now.
       sql_execute (\<lambda>d. d\<lparr>attempt_table := attempt_table d @
         [\<lparr>att_email = rust_lower L email, att_occurred_at = now, att_outcome = outcome\<rparr>]\<rparr>))"

definition record_audit ::
  "uuid option \<Rightarrow> uuid option \<Rightarrow> string \<Rightarrow> string \<Rightarrow> string option \<Rightarrow> string \<Rightarrow> unit ses" where
  "record_audit actor profile action resource_type resource_id outcome =
     sql_execute (\<lambda>d. d\<lparr>audit_table := audit_table d @
       [\<lparr>ade_user_id = actor, ade_profile_id = profile, ade_action = action, ade_resource_type = resource_type,
         ade_resource_id = resource_id, ade_outcome = outcome\<rparr>]\<rparr>)"

subsection \<open>Sessions\<close>

definition insert_session :: "session_row \<Rightarrow> session_db \<Rightarrow> string + unit \<times> session_db" where
  "insert_session r d =
     (if list_ex (\<lambda>s. ses_token_hash s = ses_token_hash r) (session_table d)
      then Inl ''duplicate key value violates unique constraint''
      else Inr ((), d\<lparr>session_table := session_table d @ [r]\<rparr>))"

definition fetch_user :: "uuid \<Rightarrow> session_db \<Rightarrow> string + user_row \<times> session_db" where
  "fetch_user user_id d =
     (case find (\<lambda>u. usr_id u = user_id) (user_table d) of
        None \<Rightarrow> Inl ''no rows returned''
      | Some u \<Rightarrow> Inr (u, d))"

definition new_session :: "AuthSettings \<Rightarrow> int \<Rightarrow> string \<Rightarrow> user_row \<Rightarrow> session_row" where
  "new_session cfg now session_hash u =
     \<lparr>ses_token_hash = session_hash, ses_user_id = usr_id u, ses_auth_epoch = usr_auth_epoch u,
      ses_created_at = now, ses_last_seen_at = now,
      ses_expires_at = now + session_idle_minutes cfg * 60000000,
      ses_absolute_expires_at = now + session_absolute_hours cfg * 3600000000,
      ses_last_step_up_at = None\<rparr>"

definition create_session :: "auth_lib \<Rightarrow> AuthSettings \<Rightarrow> uuid \<Rightarrow> (string \<times> AuthenticatedUser) ses" where
  "create_session L cfg user_id =
     io_bind (statement (fetch_user user_id)) (\<lambda>u.
     io_bind draw (\<lambda>n.
     io_bind current_time (\<lambda>now.
     let token = encode_url64 L (random_bytes L n);
         session_hash = token_hash L token
     in io_then (statement (insert_session (new_session cfg now session_hash u)))
          (io_then (record_session_event session_hash user_id ''created'' (JObject []))
            (io_ok (session_cookie token (secure_cookies cfg), user_as u session_hash))))))"

definition session_user :: "int \<Rightarrow> string \<Rightarrow> session_db \<Rightarrow> user_row option" where
  "session_user now h d =
     (case find (\<lambda>s. ses_token_hash s = h) (session_table d) of
        None \<Rightarrow> None
      | Some s \<Rightarrow>
          if ses_expires_at s > now \<and> ses_absolute_expires_at s > now \<and> \<not> is_revoked d h
          then find (\<lambda>u. usr_id u = ses_user_id s \<and> usr_auth_epoch u = ses_auth_epoch s \<and> \<not> usr_disabled u)
                 (user_table d)
          else None)"

definition require_user :: "auth_lib \<Rightarrow> AuthSettings \<Rightarrow> string option \<Rightarrow> AuthenticatedUser ses" where
  "require_user L cfg cookies =
     io_bind (io_lift (ok_or (session_token cookies (secure_cookies cfg)) App_Unauthorized)) (\<lambda>token.
     let session_hash = token_hash L token
     in io_bind current_time (\<lambda>now.
        io_bind (sql_select (session_user now session_hash)) (\<lambda>found.
          case found of None \<Rightarrow> io_fail App_Unauthorized | Some u \<Rightarrow> io_ok (user_as u session_hash))))"

definition require_step_up :: "AuthenticatedUser \<Rightarrow> int \<Rightarrow> unit ses" where
  "require_step_up me step_up_max_age_secs =
     (case me_session_hash me of
        None \<Rightarrow> io_fail App_PreconditionRequired
      | Some h \<Rightarrow> io_bind (step_up_fresh h step_up_max_age_secs) (\<lambda>fresh. io_guard fresh App_PreconditionRequired))"

subsection \<open>Passwords\<close>

definition verify :: "auth_lib \<Rightarrow> string \<Rightarrow> string option \<Rightarrow> bool ses" where
  "verify L password encoded =
     io_lift (ok_or (verify_password L password (case encoded of None \<Rightarrow> dummy_hash L | Some e \<Rightarrow> e))
       (App_Internal ''password hash invalid''))"

definition validate_identity :: "string \<Rightarrow> string \<Rightarrow> string \<Rightarrow> AppError + unit" where
  "validate_identity email display_name password =
     (let email = str_trim email
      in if length email > 320 \<or> CHR ''@'' \<notin> set email \<or> list_ex is_whitespace (str_chars email)
         then Inl (App_Validation ''enter a valid email address'')
         else if str_trim display_name = [] \<or> length (str_chars display_name) > 200
         then Inl (App_Validation ''display name must contain 1 to 200 characters'')
         else if length (str_chars password) < 12 \<or> length password > 1024
         then Inl (App_Validation ''password must contain at least 12 characters'')
         else Inr ())"

subsection \<open>Setup\<close>

definition owner_exists :: "session_db \<Rightarrow> bool" where
  "owner_exists d \<longleftrightarrow> list_ex (\<lambda>u. usr_role u = ''OWNER'') (user_table d)"

definition insert_user :: "auth_lib \<Rightarrow> user_row \<Rightarrow> session_db \<Rightarrow> string + unit \<times> session_db" where
  "insert_user L r d =
     (if list_ex (\<lambda>u. usr_id u = usr_id r \<or> sql_lower L (usr_email u) = sql_lower L (usr_email r)) (user_table d)
      then Inl ''duplicate key value violates unique constraint''
      else Inr ((), d\<lparr>user_table := user_table d @ [r]\<rparr>))"

definition new_owner :: "auth_lib \<Rightarrow> uuid \<Rightarrow> uuid \<Rightarrow> string \<Rightarrow> string \<Rightarrow> string \<Rightarrow> user_row" where
  "new_owner L user_id profile_id email display_name password_hash =
     \<lparr>usr_id = user_id, usr_profile_id = profile_id, usr_email = sql_lower L (str_trim email),
      usr_display_name = str_trim display_name, usr_role = ''OWNER'', usr_password_hash = password_hash,
      usr_auth_epoch = 1, usr_disabled = False, usr_failures = 0, usr_locked_until = None\<rparr>"

text \<open>
  A new profile has no embedding model, so that nothing is enqueued for its autobiography.
\<close>

definition insert_owner ::
  "auth_lib \<Rightarrow> AuthSettings \<Rightarrow> string \<Rightarrow> string \<Rightarrow> string \<Rightarrow> (string \<times> AuthenticatedUser) ses" where
  "insert_owner L cfg email display_name encoded =
     io_bind draw (\<lambda>p.
     io_bind draw (\<lambda>u.
     io_bind draw (\<lambda>b.
     io_bind draw (\<lambda>revision.
     let profile_id = random_uuid L p; user_id = random_uuid L u
     in io_then (sql_execute (\<lambda>d. d\<lparr>profile_table := profile_table d @
            [(profile_id, str_trim display_name @ [CHR 0x27] @ ''s profile'')]\<rparr>))
       (io_then (statement (insert_user L (new_owner L user_id profile_id email display_name encoded)))
       (io_then (sql_execute (\<lambda>d. d\<lparr>book_table := book_table d @
            [\<lparr>bok_id = random_uuid L b, bok_profile_id = profile_id, bok_author = str_trim display_name,
              bok_created_by = user_id, bok_revision = random_uuid L revision\<rparr>]\<rparr>))
       (io_then (record_audit (Some user_id) (Some profile_id) ''owner.created'' ''user''
            (Some (uuid_text L user_id)) ''success'')
         (create_session L cfg user_id))))))))"

definition create_owner ::
  "auth_lib \<Rightarrow> AuthSettings \<Rightarrow> string \<Rightarrow> string \<Rightarrow> string \<Rightarrow> (string \<times> AuthenticatedUser) ses" where
  "create_owner L cfg email display_name password =
     io_then (check_login_throttle L cfg (str_trim email))
     (io_then (io_lift (validate_identity email display_name password))
     (io_bind draw (\<lambda>salt.
      io_bind (in_transaction
        (io_bind (sql_select owner_exists) (\<lambda>present.
           if present then io_fail (App_Conflict ''owner setup is already complete'')
           else insert_owner L cfg email display_name (hash_password L password salt)))) (\<lambda>created.
      io_then (record_login_attempt L (str_trim email) ''success'') (io_ok created)))))"

subsection \<open>Login and logout\<close>

definition same_email :: "auth_lib \<Rightarrow> string \<Rightarrow> user_row \<Rightarrow> bool" where
  "same_email L email u \<longleftrightarrow> sql_lower L (usr_email u) = sql_lower L email"

definition update_users :: "(user_row \<Rightarrow> bool) \<Rightarrow> (user_row \<Rightarrow> user_row) \<Rightarrow> session_db \<Rightarrow> session_db" where
  "update_users P f d = d\<lparr>user_table := map (\<lambda>u. if P u then f u else u) (user_table d)\<rparr>"

definition count_failure :: "int \<Rightarrow> user_row \<Rightarrow> user_row" where
  "count_failure now u =
     u\<lparr>usr_failures := usr_failures u + 1,
       usr_locked_until := if usr_failures u + 1 \<ge> 10 then Some (now + 1800 * 1000000) else usr_locked_until u\<rparr>"

definition client_ip :: "string option \<Rightarrow> string" where
  "client_ip forwarded_for =
     (case forwarded_for of
        None \<Rightarrow> ''unknown''
      | Some text \<Rightarrow>
          let s = str_trim text
          in if s = [] then ''unknown'' else str_trim (hd (split_on CHR '','' s)))"

definition now_ms :: "int \<Rightarrow> nat" where
  "now_ms now = (let ms = nat (now div 1000) in if ms < 2 ^ 64 then ms else 0)"

definition rate_limited :: "(nat \<Rightarrow> RateLimiter \<Rightarrow> bool \<times> RateLimiter) \<Rightarrow> unit ses" where
  "rate_limited check =
     io_bind (with_memory (\<lambda>m. case check (now_ms (clock m)) (limiter m) of (over, r) \<Rightarrow> (over, m\<lparr>limiter := r\<rparr>)))
       (\<lambda>over. io_guard (\<not> over) App_RateLimited)"

definition refuse_login :: "auth_lib \<Rightarrow> string \<Rightarrow> 'a ses" where
  "refuse_login L email =
     io_then (record_login_attempt L email ''failure'')
     (io_bind current_time (\<lambda>now.
       io_then (sql_execute (update_users (same_email L email) (count_failure now)))
         (io_fail App_Unauthorized)))"

definition open_session :: "auth_lib \<Rightarrow> AuthSettings \<Rightarrow> user_row \<Rightarrow> (string \<times> AuthenticatedUser) ses" where
  "open_session L cfg u =
     in_transaction
       (io_then (sql_execute (update_users (\<lambda>v. usr_id v = usr_id u)
           (\<lambda>v. v\<lparr>usr_failures := 0, usr_locked_until := None\<rparr>)))
       (io_bind (enforce_concurrent_limit (usr_id u) (usr_role u)) (\<lambda>_.
        io_bind (create_session L cfg (usr_id u)) (\<lambda>(cookie, me).
          io_then (record_audit (Some (usr_id u)) (Some (me_profile_id me)) ''auth.login'' ''session'' None ''success'')
            (io_ok (cookie, me))))))"

definition login ::
  "auth_lib \<Rightarrow> AuthSettings \<Rightarrow> string option \<Rightarrow> string \<Rightarrow> string \<Rightarrow> (string \<times> AuthenticatedUser) ses" where
  "login L cfg forwarded_for email password =
     (let email = str_trim email
      in io_then (check_login_throttle L cfg email)
        (io_bind current_time (\<lambda>now.
         io_bind (sql_select (\<lambda>d. list_ex (\<lambda>u. same_email L email u
             \<and> (case usr_locked_until u of None \<Rightarrow> False | Some t \<Rightarrow> t > now)) (user_table d))) (\<lambda>locked.
         io_then (io_guard (\<not> locked) (App_Conflict ''account is temporarily locked''))
         (io_then (rate_limited (check_key (''login:ip:'' @ client_ip forwarded_for) 300 20))
         (io_then (rate_limited (check_global ''login:global'' 60 100))
         (io_bind (sql_select (\<lambda>d. find (\<lambda>u. same_email L email u \<and> \<not> usr_disabled u) (user_table d))) (\<lambda>found.
         io_bind (verify L password (map_option usr_password_hash found)) (\<lambda>ok.
           case found of
             None \<Rightarrow> refuse_login L email
           | Some u \<Rightarrow>
               if \<not> ok then refuse_login L email
               else io_bind (open_session L cfg u) (\<lambda>opened.
                 io_then (record_login_attempt L email ''success'') (io_ok opened)))))))))))"

definition logout :: "auth_lib \<Rightarrow> AuthSettings \<Rightarrow> string option \<Rightarrow> string ses" where
  "logout L cfg cookies =
     io_then (case session_token cookies (secure_cookies cfg) of
         None \<Rightarrow> io_ok ()
       | Some token \<Rightarrow> sql_execute (\<lambda>d. d\<lparr>session_table :=
             filter (\<lambda>s. ses_token_hash s \<noteq> token_hash L token) (session_table d)\<rparr>))
       (io_ok (expired_cookie (secure_cookies cfg)))"

subsection \<open>The other handlers\<close>

definition rotate_sessions :: "auth_lib \<Rightarrow> AuthSettings \<Rightarrow> string option \<Rightarrow> uuid \<Rightarrow> unit ses" where
  "rotate_sessions L cfg cookies user_id =
     io_bind (require_user L cfg cookies) (\<lambda>me.
       if me_id me \<noteq> user_id \<and> \<not> (me_role me = ''OWNER'' \<or> me_role me = ''ADMIN'') then io_fail App_Forbidden
       else in_transaction
         (io_bind (sql_select (\<lambda>d. find (\<lambda>u. usr_id u = user_id \<and> \<not> usr_disabled u) (user_table d))) (\<lambda>target.
            case target of
              None \<Rightarrow> io_fail App_NotFound
            | Some t \<Rightarrow>
                if me_id me \<noteq> user_id \<and> me_profile_id me \<noteq> usr_profile_id t then io_fail App_Forbidden
                else io_then (sql_execute (update_users (\<lambda>u. usr_id u = user_id)
                       (\<lambda>u. u\<lparr>usr_auth_epoch := usr_auth_epoch u + 1\<rparr>)))
                  (record_audit (Some (me_id me)) (Some (usr_profile_id t)) ''auth.sessions_rotated'' ''user''
                     (Some (uuid_text L user_id)) ''success''))))"

definition list_sessions :: "auth_lib \<Rightarrow> AuthSettings \<Rightarrow> string option \<Rightarrow> (string \<times> bool) list ses" where
  "list_sessions L cfg cookies =
     io_bind (require_user L cfg cookies) (\<lambda>me.
     io_bind current_time (\<lambda>now.
     io_bind (sql_select (\<lambda>d. rev (sort_key ses_created_at (active_sessions now (me_id me) d)))) (\<lambda>rows.
       io_ok (map (\<lambda>s. (encode_url64 L (ses_token_hash s), Some (ses_token_hash s) = me_session_hash me)) rows))))"

definition revoke_other_sessions :: "auth_lib \<Rightarrow> AuthSettings \<Rightarrow> string option \<Rightarrow> nat ses" where
  "revoke_other_sessions L cfg cookies =
     io_bind (require_user L cfg cookies) (\<lambda>me.
       case me_session_hash me of
         None \<Rightarrow> io_fail App_Unauthorized
       | Some h \<Rightarrow>
           io_bind (in_transaction
             (io_bind (revoke_all_other_sessions (me_id me) h ''user_revoked_others'') (\<lambda>revoked.
               io_then (record_audit (Some (me_id me)) (Some (me_profile_id me)) ''auth.sessions_revoked_others''
                    ''session'' None ''success'')
                 (io_ok revoked))))
             (\<lambda>revoked. io_ok (if revoked = 0 then 204 else 200)))"

definition revoke_one_session :: "auth_lib \<Rightarrow> AuthSettings \<Rightarrow> string option \<Rightarrow> string \<Rightarrow> unit ses" where
  "revoke_one_session L cfg cookies encoded =
     io_bind (require_user L cfg cookies) (\<lambda>me.
     io_bind (io_lift (ok_or (decode_url64 L encoded) App_NotFound)) (\<lambda>h.
       in_transaction
         (io_bind (sql_select (\<lambda>d. find (\<lambda>s. ses_token_hash s = h) (session_table d))) (\<lambda>owned.
            case owned of
              None \<Rightarrow> io_fail App_NotFound
            | Some s \<Rightarrow>
                if ses_user_id s \<noteq> me_id me then io_fail App_NotFound
                else io_then (revoke_session (me_id me) h ''user_revoked'' (Some (me_id me)))
                  (record_audit (Some (me_id me)) (Some (me_profile_id me)) ''auth.session_revoked'' ''session''
                     None ''success'')))))"

definition step_up :: "auth_lib \<Rightarrow> AuthSettings \<Rightarrow> string option \<Rightarrow> string \<Rightarrow> unit ses" where
  "step_up L cfg cookies password =
     io_bind (require_user L cfg cookies) (\<lambda>me.
       case me_session_hash me of
         None \<Rightarrow> io_fail App_Unauthorized
       | Some h \<Rightarrow>
           io_bind (sql_select (\<lambda>d. map_option usr_password_hash
               (find (\<lambda>u. usr_id u = me_id me) (user_table d)))) (\<lambda>encoded.
           io_bind (verify L password encoded) (\<lambda>ok.
             if \<not> ok then io_fail App_Unauthorized
             else in_transaction
               (io_then (mark_step_up h (me_id me))
                 (record_audit (Some (me_id me)) (Some (me_profile_id me)) ''auth.step_up'' ''session'' None ''success'')))))"

text \<open>The methods of a user; the reads of \<open>delete_auth_method\<close>, and what it does after them.\<close>

definition deletion_allowed :: "uuid \<Rightarrow> uuid \<Rightarrow> session_db \<Rightarrow> AppError + unit" where
  "deletion_allowed user_id method d =
     (if \<not> list_ex (\<lambda>m. met_id m = method \<and> met_user_id m = user_id) (method_table d) then Inl App_NotFound
      else if filter (\<lambda>m. met_user_id m = user_id \<and> met_id m \<noteq> method) (method_table d) = []
      then Inl (App_Conflict ''cannot remove the last authentication method'')
      else Inr ())"

definition delete_method :: "uuid \<Rightarrow> session_db \<Rightarrow> session_db" where
  "delete_method method d = d\<lparr>method_table := filter (\<lambda>m. met_id m \<noteq> method) (method_table d)\<rparr>"

definition delete_auth_method :: "auth_lib \<Rightarrow> AuthSettings \<Rightarrow> string option \<Rightarrow> uuid \<Rightarrow> unit ses" where
  "delete_auth_method L cfg cookies method =
     io_bind (require_user L cfg cookies) (\<lambda>me.
       in_transaction
         (io_bind (sql_select (deletion_allowed (me_id me) method)) (\<lambda>allowed.
          io_then (io_lift allowed)
          (io_then (sql_execute (delete_method method))
            (record_audit (Some (me_id me)) (Some (me_profile_id me)) ''auth.method_deleted'' ''auth_method''
               (Some (uuid_text L method)) ''success'')))))"

end
