(* ===== verification/Auth_Laws.thy ===== *)
theory Auth_Laws
  imports Auth
begin

section \<open>What authentication promises\<close>

text \<open>
  Runs of the handlers of \<open>Auth\<close>, with time passing between them, and what holds over every run:
  revoked sessions stay dead, a rotation ends the sessions before it, a session does not outlive its
  idle time, and a login leaves one session more than the limit.
\<close>

subsection \<open>Runs\<close>

datatype auth_request =
    Req_Login "string option" string string
  | Req_Logout "string option"
  | Req_Create_Owner string string string
  | Req_Rotate "string option" uuid
  | Req_List "string option"
  | Req_Revoke_Others "string option"
  | Req_Revoke_One "string option" string
  | Req_Step_Up "string option" string
  | Req_Delete_Method "string option" uuid
  | Req_Touch string
  | Req_Invalidate uuid string
  | Req_Pass nat

type_synonym auth_server = "(session_db, session_memory) server"

definition pass :: "nat \<Rightarrow> unit ses" where
  "pass elapsed = with_memory (\<lambda>m. ((), m\<lparr>clock := clock m + int elapsed\<rparr>))"

fun handle :: "auth_lib \<Rightarrow> AuthSettings \<Rightarrow> auth_request \<Rightarrow> auth_server \<Rightarrow> auth_server" where
  "handle L cfg (Req_Login xff email password) s = snd (login L cfg xff email password s)"
| "handle L cfg (Req_Logout c) s = snd (logout L cfg c s)"
| "handle L cfg (Req_Create_Owner email name password) s = snd (create_owner L cfg email name password s)"
| "handle L cfg (Req_Rotate c u) s = snd (rotate_sessions L cfg c u s)"
| "handle L cfg (Req_List c) s = snd (list_sessions L cfg c s)"
| "handle L cfg (Req_Revoke_Others c) s = snd (revoke_other_sessions L cfg c s)"
| "handle L cfg (Req_Revoke_One c h) s = snd (revoke_one_session L cfg c h s)"
| "handle L cfg (Req_Step_Up c password) s = snd (step_up L cfg c password s)"
| "handle L cfg (Req_Delete_Method c m) s = snd (delete_auth_method L cfg c m s)"
| "handle L cfg (Req_Touch h) s = snd (touch_session h s)"
| "handle L cfg (Req_Invalidate u reason) s = snd (invalidate_all_sessions u reason s)"
| "handle L cfg (Req_Pass n) s = snd (pass n s)"

definition handle_all :: "auth_lib \<Rightarrow> AuthSettings \<Rightarrow> auth_request list \<Rightarrow> auth_server \<Rightarrow> auth_server" where
  "handle_all L cfg = fold (handle L cfg)"

subsection \<open>Invariants of the tables\<close>

text \<open>
  A predicate that every statement of the handlers keeps: rows of logs and books come in, users and
  sessions are changed in what is not listed, sessions are removed, and sessions are made for the
  random values from \<open>n0\<close> on.
\<close>

definition session_hash_of :: "auth_lib \<Rightarrow> nat \<Rightarrow> string" where
  "session_hash_of L n = token_hash L (encode_url64 L (random_bytes L n))"

definition same_user :: "user_row \<Rightarrow> user_row \<Rightarrow> bool" where
  "same_user u v \<longleftrightarrow> usr_id v = usr_id u \<and> usr_email v = usr_email u \<and> usr_role v = usr_role u
     \<and> usr_disabled v = usr_disabled u \<and> usr_auth_epoch u \<le> usr_auth_epoch v"

definition same_session :: "session_row \<Rightarrow> session_row \<Rightarrow> bool" where
  "same_session s t \<longleftrightarrow> ses_token_hash t = ses_token_hash s \<and> ses_user_id t = ses_user_id s
     \<and> ses_auth_epoch t = ses_auth_epoch s \<and> ses_created_at t = ses_created_at s
     \<and> ses_expires_at t = ses_expires_at s \<and> ses_absolute_expires_at t = ses_absolute_expires_at s"

locale table_invariant =
  fixes L :: auth_lib and cfg :: AuthSettings and n0 :: nat and A :: "session_db \<Rightarrow> bool"
  assumes logs: "A d \<Longrightarrow> A (d\<lparr>session_event_table := events\<rparr>)" "A d \<Longrightarrow> A (d\<lparr>audit_table := audits\<rparr>)"
      "A d \<Longrightarrow> A (d\<lparr>profile_table := profiles\<rparr>)" "A d \<Longrightarrow> A (d\<lparr>book_table := books\<rparr>)"
      "A d \<Longrightarrow> A (d\<lparr>attempt_table := attempts\<rparr>)" "A d \<Longrightarrow> A (d\<lparr>method_table := methods\<rparr>)"
    and revocation: "A d \<Longrightarrow> A (insert_revocation r d)"
    and users: "A d \<Longrightarrow> (\<And>u. same_user u (f u)) \<Longrightarrow> A (update_users P f d)"
    and updated: "A d \<Longrightarrow> (\<And>s. same_session s (g s)) \<Longrightarrow> A (update_session h g d)"
    and removed: "A d \<Longrightarrow> A (d\<lparr>session_table := filter Q (session_table d)\<rparr>)"
    and new_user: "A d \<Longrightarrow> \<not> list_ex (\<lambda>u. usr_id u = usr_id v) (user_table d) \<Longrightarrow> A (d\<lparr>user_table := user_table d @ [v]\<rparr>)"
    and created: "A d \<Longrightarrow> n0 \<le> n \<Longrightarrow> \<not> list_ex (\<lambda>s. ses_token_hash s = session_hash_of L n) (session_table d)
      \<Longrightarrow> A (d\<lparr>session_table := session_table d @ [new_session cfg now (session_hash_of L n) u]\<rparr>)"
begin

abbreviation kept :: "auth_server \<Rightarrow> bool" where
  "kept \<equiv> holds A (\<lambda>m. n0 \<le> draws m)"

lemma keeps_logs [holds_rules]:
  "keeps kept (record_session_event session_hash user_id t v)" "keeps kept (record_audit a p x y z w)"
  "keeps kept (record_login_attempt L' email outcome)"
  "keeps kept (sql_execute (\<lambda>d. d\<lparr>profile_table := pf d\<rparr>))" "keeps kept (sql_execute (\<lambda>d. d\<lparr>book_table := bf d\<rparr>))"
  "keeps kept (sql_execute (delete_method method))"
  unfolding record_session_event_def record_audit_def record_login_attempt_def current_time_def delete_method_def
  by (intro holds_rules holds_execute logs, assumption)+

lemma keeps_rows [holds_rules]:
  "keeps kept (sql_execute (insert_revocation r))"
  "(\<And>v. same_user v (k v)) \<Longrightarrow> keeps kept (sql_execute (update_users P k))"
  "(\<And>s. same_session s (l s)) \<Longrightarrow> keeps kept (sql_execute (update_session h l))"
  "keeps kept (sql_execute (\<lambda>d. d\<lparr>session_table := filter Q (session_table d)\<rparr>))"
  by (intro holds_execute revocation users updated removed; assumption?; simp)+

lemma keeps_inserts [holds_rules]:
  "keeps kept (statement (insert_user L' new))" "keeps kept (statement (fetch_user user_id))"
  "keeps kept current_time" "keeps kept draw"
proof -
  show "keeps kept (statement (insert_user L' new))"
  proof (rule holds_statement)
    fix d x d' assume "A d" "insert_user L' new d = Inr (x, d')"
    moreover from this have "\<not> list_ex (\<lambda>u. usr_id u = usr_id new) (user_table d)"
      by (auto simp: insert_user_def list_ex_iff split: if_splits)
    ultimately show "A d'" using new_user by (auto simp: insert_user_def split: if_splits)
  qed
  show "keeps kept (statement (fetch_user user_id))"
    by (rule holds_statement) (simp add: fetch_user_def split: option.splits)
  show "keeps kept current_time" unfolding current_time_def by (rule holds_rules)
  show "keeps kept draw" unfolding draw_def by (rule holds_memory) simp
qed

lemma keeps_create_session [holds_rules]: "keeps kept (create_session L cfg user_id)"
proof -
  have insert: "keeps kept (statement (insert_session (new_session cfg now (session_hash_of L n) u)))" if "n0 \<le> n" for n now u
  proof (rule holds_statement)
    fix d x d' assume "A d" "insert_session (new_session cfg now (session_hash_of L n) u) d = Inr (x, d')"
    with created [OF _ that] show "A d'"
      by (auto simp: insert_session_def new_session_def split: if_splits)
  qed
  show ?thesis
  proof (rule keepsI)
    fix s assume s: "kept s"
    obtain r t where fetched: "statement (fetch_user user_id) s = (r, t)" by (cases "statement (fetch_user user_id) s")
    have t: "kept t" using keepsD [OF keeps_inserts(2) [of user_id] s] fetched by simp
    show "kept (snd (create_session L cfg user_id s))"
    proof (cases r)
      case (Inl e)
      with t fetched show ?thesis by (simp add: create_session_def io_bind_def)
    next
      case (Inr u)
      let ?n = "draws (memory t)"
      define t' where "t' = snd (draw t)"
      have "kept t'" using keepsD [OF keeps_inserts(4) t] by (simp add: t'_def)
      moreover have "n0 \<le> ?n" using t by (simp add: holds_def)
      note rest = insert [OF this, of "clock (memory t')" u]
      have "keeps kept (io_then (statement (insert_session (new_session cfg (clock (memory t')) (session_hash_of L ?n) u)))
          (io_then (record_session_event (session_hash_of L ?n) user_id ''created'' (JObject []))
            (io_ok (session_cookie (encode_url64 L (random_bytes L ?n)) (secure_cookies cfg),
               user_as u (session_hash_of L ?n)))))"
        by (intro holds_rules rest)
      ultimately show ?thesis
        using fetched Inr
        by (simp add: create_session_def io_bind_def t'_def draw_def with_memory_def current_time_def get_memory_def
            session_hash_of_def Let_def keepsD)
    qed
  qed
qed

lemma keeps_revoke [holds_rules]:
  "keeps kept (revoke_session user_id h reason revoked_by)"
  "keeps kept (revoke_all_other_sessions user_id h reason)"
  "keeps kept (enforce_concurrent_limit user_id role)"
proof -
  have one: "keeps kept (revoke_session u k why who)" for u k why who
    unfolding revoke_session_def by (intro holds_rules)
  then show "keeps kept (revoke_session user_id h reason revoked_by)" .
  show "keeps kept (revoke_all_other_sessions user_id h reason)"
    "keeps kept (enforce_concurrent_limit user_id role)"
    unfolding revoke_all_other_sessions_def enforce_concurrent_limit_def
    by (intro holds_rules one)+
qed

lemma keeps_reads [holds_rules]:
  "keeps kept (check_login_throttle L' cfg' email)" "keeps kept (verify L' password encoded)"
  "keeps kept (rate_limited check)" "keeps kept (require_user L' cfg' cookies)"
proof -
  show "keeps kept (check_login_throttle L' cfg' email)"
    unfolding check_login_throttle_def by (intro holds_rules)
  show "keeps kept (verify L' password encoded)" unfolding verify_def by (intro holds_rules)
  show "keeps kept (rate_limited check)"
    unfolding rate_limited_def by (intro holds_rules holds_memory) (simp add: case_prod_beta)
  show "keeps kept (require_user L' cfg' cookies)"
    unfolding require_user_def by (intro holds_rules)
qed

lemma handle_keeps: "kept s \<Longrightarrow> kept (handle L cfg x s)"
proof (induction x)
  case (Req_Login xff email password)
  have "keeps kept (refuse_login L e)" for e
    unfolding refuse_login_def by (intro holds_rules) (simp add: same_user_def count_failure_def)
  moreover have "keeps kept (open_session L cfg u)" for u
    unfolding open_session_def by (intro holds_rules) (simp add: same_user_def)
  ultimately have "keeps kept (login L cfg xff email password)"
    unfolding login_def by (intro holds_rules)
  with Req_Login show ?case by (simp add: keepsD)
next
  case (Req_Create_Owner email name password)
  have "keeps kept (create_owner L cfg email name password)"
    unfolding create_owner_def insert_owner_def by (intro holds_rules)
  with Req_Create_Owner show ?case by (simp add: keepsD)
next
  case (Req_Logout c)
  have "keeps kept (logout L cfg c)" unfolding logout_def by (intro holds_rules)
  with Req_Logout show ?case by (simp add: keepsD)
next
  case (Req_Rotate c u)
  have "keeps kept (rotate_sessions L cfg c u)"
    unfolding rotate_sessions_def by (intro holds_rules) (simp add: same_user_def)
  with Req_Rotate show ?case by (simp add: keepsD)
next
  case (Req_List c)
  have "keeps kept (list_sessions L cfg c)" unfolding list_sessions_def by (intro holds_rules)
  with Req_List show ?case by (simp add: keepsD)
next
  case (Req_Revoke_Others c)
  have "keeps kept (revoke_other_sessions L cfg c)" unfolding revoke_other_sessions_def by (intro holds_rules)
  with Req_Revoke_Others show ?case by (simp add: keepsD)
next
  case (Req_Revoke_One c h)
  have "keeps kept (revoke_one_session L cfg c h)" unfolding revoke_one_session_def by (intro holds_rules)
  with Req_Revoke_One show ?case by (simp add: keepsD)
next
  case (Req_Step_Up c password)
  have "keeps kept (step_up L cfg c password)"
    unfolding step_up_def mark_step_up_def by (intro holds_rules) (simp add: same_session_def)
  with Req_Step_Up show ?case by (simp add: keepsD)
next
  case (Req_Delete_Method c m)
  have "keeps kept (delete_auth_method L cfg c m)" unfolding delete_auth_method_def by (intro holds_rules)
  with Req_Delete_Method show ?case by (simp add: keepsD)
next
  case (Req_Touch h)
  have "keeps kept (touch_session h)" unfolding touch_session_def by (intro holds_rules) (simp add: same_session_def)
  with Req_Touch show ?case by (simp add: keepsD)
next
  case (Req_Invalidate u reason)
  have "keeps kept (sql_execute (\<lambda>d. d\<lparr>user_table :=
      map (\<lambda>v. if usr_id v = u then v\<lparr>usr_auth_epoch := usr_auth_epoch v + 1\<rparr> else v) (user_table d)\<rparr>))"
    using keeps_rows(2) [of "\<lambda>v. v\<lparr>usr_auth_epoch := usr_auth_epoch v + 1\<rparr>" "\<lambda>v. usr_id v = u"]
    by (simp add: same_user_def update_users_def [abs_def])
  then have "keeps kept (invalidate_all_sessions u reason)"
    unfolding invalidate_all_sessions_def by (intro holds_rules)
  with Req_Invalidate show ?case by (simp add: keepsD)
next
  case (Req_Pass n)
  then show ?case by (simp add: pass_def with_memory_def holds_def)
qed

lemma handle_all_keeps: "kept s \<Longrightarrow> kept (handle_all L cfg xs s)"
  unfolding handle_all_def by (induction xs arbitrary: s) (simp_all add: handle_keeps)

end

subsection \<open>Revocation is final\<close>

lemma insert_revocation_mono: "is_revoked d h \<Longrightarrow> is_revoked (insert_revocation r d) h"
  by (auto simp: is_revoked_def insert_revocation_def list_ex_iff)

lemma is_revoked_cong [simp]:
  "is_revoked (d\<lparr>session_event_table := a\<rparr>) h = is_revoked d h" "is_revoked (d\<lparr>audit_table := b\<rparr>) h = is_revoked d h"
  "is_revoked (d\<lparr>profile_table := c\<rparr>) h = is_revoked d h" "is_revoked (d\<lparr>book_table := e\<rparr>) h = is_revoked d h"
  "is_revoked (d\<lparr>attempt_table := f\<rparr>) h = is_revoked d h" "is_revoked (d\<lparr>method_table := g\<rparr>) h = is_revoked d h"
  "is_revoked (d\<lparr>user_table := i\<rparr>) h = is_revoked d h" "is_revoked (d\<lparr>session_table := j\<rparr>) h = is_revoked d h"
  "is_revoked (update_users P k d) h = is_revoked d h" "is_revoked (update_session h' l d) h = is_revoked d h"
  by (simp_all add: is_revoked_def update_users_def update_session_def)

interpretation revoked: table_invariant L cfg 0 "\<lambda>d. is_revoked d h" for L cfg h
  by unfold_locales (simp_all add: insert_revocation_mono)

lemma revoked_refused:
  assumes "is_revoked (tables s) (token_hash L token)" "session_token cookies (secure_cookies cfg) = Some token"
  shows "\<exists>e. fst (require_user L cfg cookies s) = Inl e"
proof -
  have "session_user now (token_hash L token) (tables s) = None" for now
    using assms(1) by (simp add: session_user_def split: option.split)
  then show ?thesis
    using assms(2)
    by (auto simp: require_user_def io_bind_def io_lift_def io_fail_def current_time_def get_memory_def
        sql_select_def statement_def Let_def split: option.split)
qed

lemma require_user_state:
  "tables (snd (require_user L cfg cookies s)) = tables s" "memory (snd (require_user L cfg cookies s)) = memory s"
  by (simp_all add: require_user_def io_bind_def io_lift_def io_fail_def io_ok_def current_time_def get_memory_def
      sql_select_def statement_def Let_def split: option.split sum.split prod.split)

lemma sql_select_Inr: "sql_select f s = (Inr x, t) \<longleftrightarrow> x = f (tables s) \<and> (faults s = [] \<or> hd (faults s) = None)
    \<and> t = s\<lparr>faults := tl (faults s)\<rparr>"
  by (auto simp: sql_select_def statement_def Let_def split: option.splits)

lemma sql_execute_Inr: "sql_execute f s = (Inr x, t) \<longleftrightarrow> (faults s = [] \<or> hd (faults s) = None)
    \<and> t = s\<lparr>tables := f (tables s), faults := tl (faults s)\<rparr>"
  by (auto simp: sql_execute_def statement_def Let_def split: option.splits)

lemma statement_Inr: "statement f s = (Inr x, t) \<longleftrightarrow> (faults s = [] \<or> hd (faults s) = None)
    \<and> (\<exists>d. f (tables s) = Inr (x, d) \<and> t = s\<lparr>tables := d, faults := tl (faults s)\<rparr>)"
  by (auto simp: statement_def Let_def split: option.splits sum.splits)

lemma transaction_success:
  assumes "in_transaction m s = (Inr x, t)"
  obtains s' t' where "tables s' = tables s" "memory s' = memory s" "m s' = (Inr x, t')"
    "tables t = tables t'" "memory t = memory t'"
proof -
  have "io_then (sql_select (\<lambda>_. ())) (io_bind m (\<lambda>x. io_then (sql_select (\<lambda>_. ())) (io_ok x))) s = (Inr x, t)"
    using assms by (auto simp: in_transaction_def split: prod.splits sum.splits)
  then obtain u v where "sql_select (\<lambda>_. ()) s = (Inr (), u)" "m u = (Inr x, v)" "sql_select (\<lambda>_. ()) v = (Inr (), t)"
    by (auto simp: io_then_def io_bind_Inr io_ok_def)
  then show thesis by (intro that [of u v]) (auto simp: sql_select_Inr)
qed

lemma for_each_revokes:
  assumes "io_for_each (\<lambda>h. revoke_session u h reason who) hs s = (Inr (), s')" "h \<in> set hs"
  shows "is_revoked (tables s') h"
  using assms
proof (induction hs arbitrary: s)
  case (Cons k hs)
  obtain t where t: "revoke_session u k reason who s = (Inr (), t)"
    and rest: "io_for_each (\<lambda>h. revoke_session u h reason who) hs t = (Inr (), s')"
    using Cons.prems(1) by (auto simp: io_then_def io_bind_Inr)
  show ?case
  proof (cases "h \<in> set hs")
    case True
    with Cons.IH [OF rest] show ?thesis .
  next
    case False
    have "is_revoked (tables t) k"
      using t by (auto simp: revoke_session_def io_then_def io_bind_Inr record_session_event_def sql_execute_def
          statement_def is_revoked_def insert_revocation_def Let_def split: option.splits if_splits)
    then have "holds (\<lambda>d. is_revoked d k) (\<lambda>m. 0 \<le> draws m) t" by (simp add: holds_def)
    moreover have "keeps (holds (\<lambda>d. is_revoked d k) (\<lambda>m. 0 \<le> draws m)) (io_for_each (\<lambda>h. revoke_session u h reason who) hs)"
      by (intro holds_rules revoked.keeps_revoke(1))
    ultimately have "is_revoked (tables s') k" using rest keepsD by (fastforce simp: holds_def)
    with Cons.prems(2) False show ?thesis by simp
  qed
qed simp

text \<open>
  Property C8: after a user has revoked the other sessions, none of them authenticates again, whatever
  requests follow and whatever fails in them.
\<close>

theorem revoked_sessions_stay_dead:
  assumes "revoke_other_sessions L cfg cookies s = (Inr code, s')"
    and "fst (require_user L cfg cookies s) = Inr me"
    and "r \<in> set (session_table (tables s))" "ses_user_id r = me_id me" "ses_token_hash r = token_hash L token"
    and "Some (token_hash L token) \<noteq> me_session_hash me" "session_token other (secure_cookies cfg) = Some token"
  shows "\<exists>e. fst (require_user L cfg other (handle_all L cfg xs s')) = Inl e"
proof -
  let ?h = "token_hash L token"
  obtain t where t: "require_user L cfg cookies s = (Inr me, t)"
    using assms(2) by (cases "require_user L cfg cookies s") simp
  obtain own where own: "me_session_hash me = Some own"
    using t by (auto simp: require_user_def io_bind_Inr io_ok_def io_fail_def user_as_def Let_def split: option.splits)
  have "tables t = tables s" using require_user_state(1) [of L cfg cookies s] t by simp
  obtain n where tx: "in_transaction (io_bind (revoke_all_other_sessions (me_id me) own ''user_revoked_others'') (\<lambda>revoked.
        io_then (record_audit (Some (me_id me)) (Some (me_profile_id me)) ''auth.sessions_revoked_others''
             ''session'' None ''success'') (io_ok revoked))) t = (Inr n, s')"
    using assms(1) t own by (auto simp: revoke_other_sessions_def io_bind_Inr io_ok_def)
  from transaction_success [OF tx] obtain t1 t2 where t1: "tables t1 = tables t" "tables s' = tables t2"
    and body: "io_bind (revoke_all_other_sessions (me_id me) own ''user_revoked_others'') (\<lambda>revoked.
        io_then (record_audit (Some (me_id me)) (Some (me_profile_id me)) ''auth.sessions_revoked_others''
             ''session'' None ''success'') (io_ok revoked)) t1 = (Inr n, t2)" by metis
  obtain hs t3 t4 where hs: "hs = map ses_token_hash (filter (\<lambda>s. ses_user_id s = me_id me \<and> ses_token_hash s \<noteq> own)
        (session_table (tables t1)))"
    and revoking: "io_for_each (\<lambda>h. revoke_session (me_id me) h ''user_revoked_others'' (Some (me_id me))) hs t3 = (Inr (), t4)"
    and audit: "record_audit (Some (me_id me)) (Some (me_profile_id me)) ''auth.sessions_revoked_others''
             ''session'' None ''success'' t4 = (Inr (), t2)"
    using body by (auto simp: revoke_all_other_sessions_def io_then_def io_bind_Inr io_ok_def sql_select_Inr)
  have "?h \<in> set hs"
    using assms(3-6) own t1(1) \<open>tables t = tables s\<close> by (force simp: hs)
  then have "is_revoked (tables t4) ?h" by (rule for_each_revokes [OF revoking])
  then have "holds (\<lambda>d. is_revoked d ?h) (\<lambda>m. 0 \<le> draws m) t2"
    using keepsD [OF revoked.keeps_logs(2), of _ t4] audit by (simp add: holds_def) (metis snd_conv)
  then have "holds (\<lambda>d. is_revoked d ?h) (\<lambda>m. 0 \<le> draws m) s'" using t1(2) by (simp add: holds_def)
  from revoked.handle_all_keeps [OF this, of L cfg xs]
  show ?thesis using revoked_refused [OF _ assms(7)] by (simp add: holds_def)
qed

subsection \<open>A rotation ends the sessions before it\<close>

text \<open>
  \<open>outdated L n0 u e h\<close>: no session with the token hash \<open>h\<close> has the current epoch of its user \<open>u\<close>,
  and none will, because no random value from \<open>n0\<close> on gives that hash.
\<close>

definition outdated :: "auth_lib \<Rightarrow> nat \<Rightarrow> uuid \<Rightarrow> int \<Rightarrow> string \<Rightarrow> session_db \<Rightarrow> bool" where
  "outdated L n0 u e h d \<longleftrightarrow>
     (\<forall>n\<ge>n0. session_hash_of L n \<noteq> h)
   \<and> list_ex (\<lambda>v. usr_id v = u) (user_table d)
   \<and> list_all (\<lambda>v. usr_id v = u \<longrightarrow> e < usr_auth_epoch v) (user_table d)
   \<and> list_all (\<lambda>r. ses_token_hash r = h \<longrightarrow> ses_user_id r = u \<and> ses_auth_epoch r \<le> e) (session_table d)"

interpretation outdated: table_invariant L cfg n0 "outdated L n0 u e h" for L cfg n0 u e h
proof unfold_locales
  fix d f P assume d: "outdated L n0 u e h d" and f: "\<And>u. same_user u (f u)"
  define g where "g v = (if P v then f v else v)" for v
  have g: "usr_id (g v) = usr_id v" "usr_auth_epoch v \<le> usr_auth_epoch (g v)" for v
    using f [of v] by (simp_all add: g_def same_user_def)
  have "user_table (update_users P f d) = map g (user_table d)"
    by (simp add: update_users_def g_def)
  moreover have "session_table (update_users P f d) = session_table d" by (simp add: update_users_def)
  ultimately show "outdated L n0 u e h (update_users P f d)"
    using d g(2) unfolding outdated_def by (auto simp: list_ex_iff list_all_iff g(1) intro: less_le_trans)
next
  fix d g k assume d: "outdated L n0 u e h d" and g: "\<And>s. same_session s (g s)"
  have "ses_token_hash (g r) = ses_token_hash r" "ses_user_id (g r) = ses_user_id r" "ses_auth_epoch (g r) = ses_auth_epoch r" for r
    using g [of r] by (simp_all add: same_session_def)
  then show "outdated L n0 u e h (update_session k g d)"
    using d by (auto simp: outdated_def update_session_def list_all_iff)
qed (auto simp: outdated_def insert_revocation_def new_session_def list_ex_iff list_all_iff)

lemma outdated_refused:
  assumes "outdated L n0 u e (token_hash L token) (tables s)" "session_token cookies (secure_cookies cfg) = Some token"
  shows "\<exists>err. fst (require_user L cfg cookies s) = Inl err"
proof -
  have "session_user now (token_hash L token) (tables s) = None" for now
  proof (cases "find (\<lambda>r. ses_token_hash r = token_hash L token) (session_table (tables s))")
    case None
    then show ?thesis by (simp add: session_user_def)
  next
    case (Some r)
    then have "ses_user_id r = u" "ses_auth_epoch r \<le> e"
      using assms(1) by (auto simp: outdated_def list_all_iff find_Some_iff)
    then have "find (\<lambda>v. usr_id v = ses_user_id r \<and> usr_auth_epoch v = ses_auth_epoch r \<and> \<not> usr_disabled v)
        (user_table (tables s)) = None"
      using assms(1) by (fastforce simp: outdated_def list_all_iff find_None_iff)
    with Some show ?thesis by (simp add: session_user_def)
  qed
  then show ?thesis
    using assms(2)
    by (auto simp: require_user_def io_bind_def io_lift_def io_fail_def current_time_def get_memory_def
        sql_select_def statement_def Let_def split: option.split)
qed

text \<open>The keys of the tables, as the schema has them.\<close>

definition keys_distinct :: "session_db \<Rightarrow> bool" where
  "keys_distinct d \<longleftrightarrow> distinct (map usr_id (user_table d)) \<and> distinct (map ses_token_hash (session_table d))"

interpretation keys: table_invariant L cfg 0 keys_distinct for L cfg
proof unfold_locales
  fix d f P assume "keys_distinct d" and f: "\<And>u. same_user u (f u)"
  moreover have "usr_id (f v) = usr_id v" for v using f [of v] by (simp add: same_user_def)
  ultimately show "keys_distinct (update_users P f d)"
    by (simp add: keys_distinct_def update_users_def comp_def cong: if_cong) (simp add: if_distrib cong: if_cong)
next
  fix d g k assume "keys_distinct d" and g: "\<And>s. same_session s (g s)"
  moreover have "ses_token_hash (g r) = ses_token_hash r" for r using g [of r] by (simp add: same_session_def)
  ultimately show "keys_distinct (update_session k g d)"
    by (simp add: keys_distinct_def update_session_def comp_def if_distrib cong: if_cong)
qed (auto simp: keys_distinct_def insert_revocation_def new_session_def list_ex_iff distinct_map_filter)

lemma find_SomeD: "find P xs = Some x \<Longrightarrow> x \<in> set xs \<and> P x"
  by (auto simp: find_Some_iff)

lemma require_user_session:
  assumes "fst (require_user L cfg cookies s) = Inr me" "session_token cookies (secure_cookies cfg) = Some token"
  obtains r u where "find (\<lambda>r. ses_token_hash r = token_hash L token) (session_table (tables s)) = Some r"
    "u \<in> set (user_table (tables s))" "usr_id u = ses_user_id r" "usr_auth_epoch u = ses_auth_epoch r"
    "me_id me = usr_id u" "ses_expires_at r > clock (memory s)" "ses_absolute_expires_at r > clock (memory s)"
    "\<not> is_revoked (tables s) (token_hash L token)" "\<not> usr_disabled u" "me = user_as u (token_hash L token)"
proof -
  obtain u where "session_user (clock (memory s)) (token_hash L token) (tables s) = Some u" "me = user_as u (token_hash L token)"
    using assms
    by (auto simp: require_user_def io_bind_def io_lift_def io_fail_def io_ok_def current_time_def get_memory_def
        sql_select_def statement_def Let_def split: option.splits)
  moreover from this obtain r where "find (\<lambda>r. ses_token_hash r = token_hash L token) (session_table (tables s)) = Some r"
    "ses_expires_at r > clock (memory s)" "ses_absolute_expires_at r > clock (memory s)"
    "\<not> is_revoked (tables s) (token_hash L token)"
    "find (\<lambda>u. usr_id u = ses_user_id r \<and> usr_auth_epoch u = ses_auth_epoch r \<and> \<not> usr_disabled u) (user_table (tables s)) = Some u"
    by (auto simp: session_user_def split: option.splits if_splits)
  moreover from this(5) have "u \<in> set (user_table (tables s)) \<and> usr_id u = ses_user_id r
      \<and> usr_auth_epoch u = ses_auth_epoch r \<and> \<not> usr_disabled u" by (auto dest: find_SomeD)
  ultimately show thesis using that [of r u] by (auto simp: user_as_def)
qed

text \<open>
  Property C9: a rotation ends every session the user has.  A token that was accepted for the user
  before a rotation of the user's sessions, by the user or by an administrator, is refused after it,
  whatever requests follow, as long as the generator does not draw the token again.
\<close>

theorem rotation_ends_sessions:
  assumes "keys_distinct (tables s)"
    and "fst (require_user L cfg other s) = Inr me" "session_token other (secure_cookies cfg) = Some token"
    and "rotate_sessions L cfg cookies (me_id me) s = (Inr (), s')"
    and "\<forall>n\<ge>draws (memory s). session_hash_of L n \<noteq> token_hash L token"
  shows "\<exists>e. fst (require_user L cfg other (handle_all L cfg xs s')) = Inl e"
proof -
  obtain r u where r: "find (\<lambda>r. ses_token_hash r = token_hash L token) (session_table (tables s)) = Some r"
    and u: "u \<in> set (user_table (tables s))" "usr_id u = ses_user_id r" "usr_auth_epoch u = ses_auth_epoch r" "me_id me = usr_id u"
    by (rule require_user_session [OF assms(2,3)])
  let ?h = "token_hash L token"
  let ?bump = "update_users (\<lambda>v. usr_id v = me_id me) (\<lambda>v. v\<lparr>usr_auth_epoch := usr_auth_epoch v + 1\<rparr>)"
  obtain who t where t: "require_user L cfg cookies s = (Inr who, t)"
    using assms(4) by (auto simp: rotate_sessions_def io_bind_Inr)
  have same: "tables t = tables s" "memory t = memory s"
    using require_user_state [of L cfg cookies s] t by simp_all
  define body where "body =
    io_bind (sql_select (\<lambda>d. find (\<lambda>u. usr_id u = me_id me \<and> \<not> usr_disabled u) (user_table d))) (\<lambda>target.
            case target of
              None \<Rightarrow> io_fail App_NotFound
            | Some v \<Rightarrow>
                if me_id who \<noteq> me_id me \<and> me_profile_id who \<noteq> usr_profile_id v then io_fail App_Forbidden
                else io_then (sql_execute ?bump)
                  (record_audit (Some (me_id who)) (Some (usr_profile_id v)) ''auth.sessions_rotated'' ''user''
                     (Some (uuid_text L (me_id me))) ''success''))"
  have "in_transaction body t = (Inr (), s')"
    using assms(4) t by (auto simp: rotate_sessions_def io_bind_def io_fail_def body_def split: if_splits)
  from transaction_success [OF this] obtain t0 t4 where t0: "tables t0 = tables t" "memory t0 = memory t"
    "body t0 = (Inr (), t4)" "tables s' = tables t4" "memory s' = memory t4" by metis
  then obtain rows where s': "tables s' = (?bump (tables s))\<lparr>audit_table := rows\<rparr>" "memory s' = memory s"
    using same
    by (auto simp: body_def io_bind_Inr io_then_def sql_select_Inr sql_execute_Inr record_audit_def io_fail_def
        split: option.splits if_splits)
  have epoch: "usr_auth_epoch v = ses_auth_epoch r" if "v \<in> set (user_table (tables s))" "usr_id v = me_id me" for v
    using assms(1) u that by (auto simp: keys_distinct_def distinct_map inj_on_def)
  have session: "ses_user_id r' = me_id me \<and> ses_auth_epoch r' = ses_auth_epoch r"
    if "r' \<in> set (session_table (tables s))" "ses_token_hash r' = ?h" for r'
  proof -
    have "r' = r"
      using assms(1) that find_SomeD [OF r] by (auto simp: keys_distinct_def distinct_map inj_on_def)
    with u show ?thesis by simp
  qed
  have "outdated L (draws (memory s)) (me_id me) (ses_auth_epoch r) ?h (?bump (tables s))"
    unfolding outdated_def
  proof (intro conjI)
    show "\<forall>n\<ge>draws (memory s). session_hash_of L n \<noteq> ?h" by (rule assms(5))
    show "list_ex (\<lambda>v. usr_id v = me_id me) (user_table (?bump (tables s)))"
      using u by (auto simp: list_ex_iff update_users_def intro!: bexI [of _ "u\<lparr>usr_auth_epoch := usr_auth_epoch u + 1\<rparr>"])
    show "list_all (\<lambda>v. usr_id v = me_id me \<longrightarrow> ses_auth_epoch r < usr_auth_epoch v) (user_table (?bump (tables s)))"
      using epoch by (auto simp: list_all_iff update_users_def)
    show "list_all (\<lambda>r'. ses_token_hash r' = ?h \<longrightarrow> ses_user_id r' = me_id me \<and> ses_auth_epoch r' \<le> ses_auth_epoch r)
        (session_table (?bump (tables s)))"
      using session by (auto simp: list_all_iff update_users_def)
  qed
  then have "holds (outdated L (draws (memory s)) (me_id me) (ses_auth_epoch r) ?h) (\<lambda>m. draws (memory s) \<le> draws m) s'"
    by (simp add: holds_def s' outdated.logs)
  from outdated.handle_all_keeps [OF this, of cfg xs]
  have "outdated L (draws (memory s)) (me_id me) (ses_auth_epoch r) ?h (tables (handle_all L cfg xs s'))"
    by (simp add: holds_def)
  then show ?thesis by (rule outdated_refused [OF _ assms(3)])
qed

subsection \<open>How long a session lasts\<close>

definition fixed_lifetimes :: "AuthSettings \<Rightarrow> session_db \<Rightarrow> bool" where
  "fixed_lifetimes cfg d \<longleftrightarrow>
     list_all (\<lambda>r. ses_expires_at r = ses_created_at r + session_idle_minutes cfg * 60000000
       \<and> ses_absolute_expires_at r = ses_created_at r + session_absolute_hours cfg * 3600000000) (session_table d)"

interpretation lifetimes: table_invariant L cfg 0 "fixed_lifetimes cfg" for L cfg
proof unfold_locales
  fix d g k assume d: "fixed_lifetimes cfg d" and g: "\<And>s. same_session s (g s)"
  have "ses_created_at (g r) = ses_created_at r" "ses_expires_at (g r) = ses_expires_at r"
    "ses_absolute_expires_at (g r) = ses_absolute_expires_at r" for r
    using g [of r] by (simp_all add: same_session_def)
  then show "fixed_lifetimes cfg (update_session k g d)"
    using d by (auto simp: fixed_lifetimes_def update_session_def list_all_iff)
qed (auto simp: fixed_lifetimes_def insert_revocation_def new_session_def update_users_def list_all_iff)

text \<open>
  Property C11: nothing prolongs a session.  Over every run, a token that is accepted is the token of a
  session of the user who is let in, that is not revoked, that belongs to the present epoch of the
  user, and that was created less than \<open>session_idle_minutes\<close> and \<open>session_absolute_hours\<close> ago, whether it
  was used in the meantime or touched.
\<close>

theorem session_lifetime_bounded:
  assumes "session_table (tables s) = []"
    and "fst (require_user L cfg cookies (handle_all L cfg xs s)) = Inr me"
  shows "\<exists>token. session_token cookies (secure_cookies cfg) = Some token
     \<and> \<not> is_revoked (tables (handle_all L cfg xs s)) (token_hash L token)
     \<and> (\<exists>r \<in> set (session_table (tables (handle_all L cfg xs s))).
          \<exists>u \<in> set (user_table (tables (handle_all L cfg xs s))).
            ses_token_hash r = token_hash L token \<and> ses_user_id r = me_id me
          \<and> usr_id u = me_id me \<and> usr_auth_epoch u = ses_auth_epoch r
          \<and> clock (memory (handle_all L cfg xs s)) < ses_created_at r + session_idle_minutes cfg * 60000000
          \<and> clock (memory (handle_all L cfg xs s)) < ses_created_at r + session_absolute_hours cfg * 3600000000)"
proof -
  have "holds (fixed_lifetimes cfg) (\<lambda>m. 0 \<le> draws m) s"
    using assms(1) by (simp add: holds_def fixed_lifetimes_def)
  then have fixed: "fixed_lifetimes cfg (tables (handle_all L cfg xs s))"
    using lifetimes.handle_all_keeps by (simp add: holds_def)
  obtain token where token: "session_token cookies (secure_cookies cfg) = Some token"
    using assms(2)
    by (cases "session_token cookies (secure_cookies cfg)") (auto simp: require_user_def io_bind_def io_lift_def io_fail_def)
  show ?thesis
  proof (rule require_user_session [OF assms(2) token])
    fix r u
    assume r: "find (\<lambda>r. ses_token_hash r = token_hash L token) (session_table (tables (handle_all L cfg xs s))) = Some r"
      and u: "u \<in> set (user_table (tables (handle_all L cfg xs s)))" "usr_id u = ses_user_id r"
        "usr_auth_epoch u = ses_auth_epoch r" "me_id me = usr_id u"
      and live: "ses_expires_at r > clock (memory (handle_all L cfg xs s))"
        "ses_absolute_expires_at r > clock (memory (handle_all L cfg xs s))"
        "\<not> is_revoked (tables (handle_all L cfg xs s)) (token_hash L token)"
    note row = find_SomeD [OF r]
    have "ses_expires_at r = ses_created_at r + session_idle_minutes cfg * 60000000"
      "ses_absolute_expires_at r = ses_created_at r + session_absolute_hours cfg * 3600000000"
      using fixed row by (simp_all add: fixed_lifetimes_def list_all_iff)
    with row u live token show ?thesis by auto
  qed
qed

subsection \<open>How many sessions a user has\<close>

lemma revoke_session_effect:
  assumes "revoke_session u k reason who s = (Inr (), t)"
  shows "session_table (tables t) = session_table (tables s) \<and> user_table (tables t) = user_table (tables s)
     \<and> memory t = memory s \<and> (\<forall>h. is_revoked (tables t) h \<longleftrightarrow> h = k \<or> is_revoked (tables s) h)"
  using assms
  by (auto simp: io_then_def io_bind_Inr revoke_session_def record_session_event_def sql_execute_Inr
      insert_revocation_def is_revoked_def list_ex_iff)

lemma revocations_only:
  assumes "io_for_each (\<lambda>h. revoke_session u h reason who) hs s = (Inr (), s')"
  shows "session_table (tables s') = session_table (tables s) \<and> user_table (tables s') = user_table (tables s)
     \<and> memory s' = memory s \<and> (\<forall>h. is_revoked (tables s') h \<longleftrightarrow> h \<in> set hs \<or> is_revoked (tables s) h)"
  using assms
proof (induction hs arbitrary: s)
  case (Cons k hs)
  obtain t where t: "revoke_session u k reason who s = (Inr (), t)"
    and rest: "io_for_each (\<lambda>h. revoke_session u h reason who) hs t = (Inr (), s')"
    using Cons.prems by (auto simp: io_then_def io_bind_Inr)
  from Cons.IH [OF rest] revoke_session_effect [OF t] show ?case by auto
qed (auto simp: io_ok_def)

lemma active_sessions_revoked:
  assumes "distinct (map ses_token_hash (session_table d))"
    and "session_table d' = session_table d" "\<And>h. is_revoked d' h \<longleftrightarrow> h \<in> set (map ses_token_hash gone) \<or> is_revoked d h"
    and "set gone \<subseteq> set (active_sessions now u d)" "distinct gone"
  shows "length (active_sessions now u d') = length (active_sessions now u d) - length gone"
proof -
  have inj: "inj_on ses_token_hash (set (session_table d))" and dist: "distinct (session_table d)"
    using assms(1) by (simp_all add: distinct_map)
  have "active_sessions now u d' = filter (\<lambda>r. r \<notin> set gone) (active_sessions now u d)"
    unfolding active_sessions_def filter_filter assms(2)
  proof (rule filter_cong, rule refl)
    fix r assume "r \<in> set (session_table d)"
    then have "ses_token_hash r \<in> set (map ses_token_hash gone) \<longleftrightarrow> r \<in> set gone"
      using assms(4) inj by (auto simp: active_sessions_def inj_on_def)
    then show "(ses_user_id r = u \<and> now < ses_expires_at r \<and> \<not> is_revoked d' (ses_token_hash r)) =
       ((ses_user_id r = u \<and> now < ses_expires_at r \<and> \<not> is_revoked d (ses_token_hash r)) \<and> r \<notin> set gone)"
      using assms(3) by auto
  qed
  moreover have d: "distinct (active_sessions now u d)" using dist by (simp add: active_sessions_def)
  moreover have "length (filter (\<lambda>r. r \<notin> set gone) (active_sessions now u d)) =
      card (set (active_sessions now u d) - set gone)"
    using d by (simp add: distinct_length_filter set_diff_eq Int_def conj_commute)
  ultimately show ?thesis
    using assms(4,5) by (simp add: card_Diff_subset distinct_card)
qed

lemma enforce_effect:
  assumes "enforce_concurrent_limit u role s = (Inr n, s')" "keys_distinct (tables s)"
  shows "length (active_sessions (clock (memory s)) u (tables s')) =
      min (length (active_sessions (clock (memory s)) u (tables s))) (concurrent_limit_for_role role)
    \<and> session_table (tables s') = session_table (tables s) \<and> user_table (tables s') = user_table (tables s)
    \<and> memory s' = memory s
    \<and> (\<forall>h. is_revoked (tables s') h \<longrightarrow> is_revoked (tables s) h \<or> h \<in> set (map ses_token_hash (session_table (tables s))))"
proof -
  let ?now = "clock (memory s)"
  let ?active = "active_sessions ?now u (tables s)"
  let ?limit = "concurrent_limit_for_role role"
  show ?thesis
  proof (cases "length ?active \<le> ?limit")
    case True
    with assms(1) show ?thesis
      by (auto simp: enforce_concurrent_limit_def current_time_def get_memory_def io_bind_Inr sql_select_Inr io_ok_def Let_def)
  next
    case False
    define gone where "gone = take (length ?active - ?limit) (sort_key ses_created_at ?active)"
    obtain t where t: "io_for_each (\<lambda>h. revoke_session u h ''concurrent_limit'' None) (map ses_token_hash gone) t = (Inr (), s')"
      "tables t = tables s" "memory t = memory s"
      using assms(1) False
      by (auto simp: enforce_concurrent_limit_def current_time_def get_memory_def io_bind_Inr io_then_def sql_select_Inr
          io_ok_def Let_def gone_def nat_diff_distrib' of_nat_diff [symmetric] simp del: of_nat_diff)
    have gone: "set gone \<subseteq> set ?active" "distinct gone" "length gone = length ?active - ?limit"
    proof -
      show "set gone \<subseteq> set ?active" using set_take_subset [of _ "sort_key ses_created_at ?active"] by (auto simp: gone_def)
      have "distinct (session_table (tables s))" using assms(2) by (simp add: keys_distinct_def distinct_map)
      then show "distinct gone" by (simp add: gone_def active_sessions_def)
      show "length gone = length ?active - ?limit" by (simp add: gone_def)
    qed
    note after = revocations_only [OF t(1), unfolded t(2,3)]
    have "length (active_sessions ?now u (tables s')) = length ?active - length gone"
      using assms(2) after gone by (intro active_sessions_revoked) (auto simp: keys_distinct_def)
    moreover have "h \<in> set (map ses_token_hash gone) \<Longrightarrow> h \<in> set (map ses_token_hash (session_table (tables s)))" for h
      using gone(1) by (auto simp: active_sessions_def)
    ultimately show ?thesis using after gone(3) False by auto
  qed
qed

lemma new_session_hash [simp]: "ses_token_hash (new_session cfg now h u) = h"
  by (simp add: new_session_def)

lemma create_effect:
  assumes "create_session L cfg u s = (Inr (cookie, me), s')"
  obtains v where "v \<in> set (user_table (tables s))" "usr_id v = u" "me_id me = u"
    "session_hash_of L (draws (memory s)) \<notin> ses_token_hash ` set (session_table (tables s))"
    "session_table (tables s') = session_table (tables s)
       @ [new_session cfg (clock (memory s)) (session_hash_of L (draws (memory s))) v]"
    "revocation_table (tables s') = revocation_table (tables s)"
proof -
  obtain v where v: "find (\<lambda>v. usr_id v = u) (user_table (tables s)) = Some v"
    and rest: "me_id me = usr_id v"
    "\<not> list_ex (\<lambda>r. ses_token_hash r = session_hash_of L (draws (memory s))) (session_table (tables s))"
    "session_table (tables s') = session_table (tables s)
       @ [new_session cfg (clock (memory s)) (session_hash_of L (draws (memory s))) v]"
    "revocation_table (tables s') = revocation_table (tables s)"
    using assms
    by (auto simp: create_session_def io_bind_Inr io_then_def statement_Inr fetch_user_def draw_def with_memory_def
        current_time_def get_memory_def insert_session_def record_session_event_def sql_execute_Inr io_ok_def user_as_def
        session_hash_of_def Let_def split: option.splits if_splits)
  moreover have "session_hash_of L (draws (memory s)) \<notin> ses_token_hash ` set (session_table (tables s))"
    using rest(2) by (auto simp: list_ex_iff)
  ultimately show thesis using find_SomeD [OF v] that by auto
qed

lemma open_session_effect:
  assumes "open_session L cfg u s = (Inr (cookie, me), s')" "keys_distinct (tables s)"
    and "0 < session_idle_minutes cfg" "\<not> is_revoked (tables s) (session_hash_of L (draws (memory s)))"
  shows "me_id me = usr_id u
    \<and> length (active_sessions (clock (memory s)) (usr_id u) (tables s')) =
        min (length (active_sessions (clock (memory s)) (usr_id u) (tables s))) (concurrent_limit_for_role (usr_role u)) + 1"
proof -
  let ?now = "clock (memory s)"
  let ?reset = "update_users (\<lambda>v. usr_id v = usr_id u) (\<lambda>v. v\<lparr>usr_failures := 0, usr_locked_until := None\<rparr>)"
  obtain s0 s9 where tx: "tables s0 = tables s" "memory s0 = memory s" "tables s' = tables s9"
    and body: "io_then (sql_execute ?reset)
       (io_bind (enforce_concurrent_limit (usr_id u) (usr_role u)) (\<lambda>_.
        io_bind (create_session L cfg (usr_id u)) (\<lambda>(cookie, me).
          io_then (record_audit (Some (usr_id u)) (Some (me_profile_id me)) ''auth.login'' ''session'' None ''success'')
            (io_ok (cookie, me))))) s0 = (Inr (cookie, me), s9)"
    using assms(1) unfolding open_session_def by (elim transaction_success) blast
  obtain s1 n s2 s3 where s1: "s1 = s0\<lparr>tables := ?reset (tables s0), faults := tl (faults s0)\<rparr>"
    and enforced: "enforce_concurrent_limit (usr_id u) (usr_role u) s1 = (Inr n, s2)"
    and created: "create_session L cfg (usr_id u) s2 = (Inr (cookie, me), s3)"
    and audited: "session_table (tables s9) = session_table (tables s3)"
      "revocation_table (tables s9) = revocation_table (tables s3)"
    using body
    by (auto simp: io_then_def io_bind_Inr sql_execute_Inr record_audit_def io_ok_def split: prod.splits)
  have reset: "session_table (tables s1) = session_table (tables s)" "revocation_table (tables s1) = revocation_table (tables s)"
    "memory s1 = memory s"
    using tx by (simp_all add: s1 update_users_def)
  have "keys_distinct (tables s1)"
    using assms(2) tx unfolding s1 by (simp add: keys.users same_user_def)
  note enforced = enforce_effect [OF enforced this, unfolded reset(1,3)]
  obtain v where v: "usr_id v = usr_id u" "me_id me = usr_id u"
    "session_hash_of L (draws (memory s2)) \<notin> ses_token_hash ` set (session_table (tables s2))"
    "session_table (tables s3) = session_table (tables s2) @ [new_session cfg (clock (memory s2)) (session_hash_of L (draws (memory s2))) v]"
    "revocation_table (tables s3) = revocation_table (tables s2)"
    by (rule create_effect [OF created])
  let ?h = "session_hash_of L (draws (memory s))"
  have same: "is_revoked d h = is_revoked d' h" if "revocation_table d = revocation_table d'" for d d' h
    using that by (simp add: is_revoked_def)
  have fresh: "\<not> is_revoked (tables s2) ?h"
    using enforced assms(4) v(3) same [OF reset(2)] by auto
  have "active_sessions ?now (usr_id u) (tables s') = active_sessions ?now (usr_id u) (tables s2) @ [new_session cfg ?now ?h v]"
    using v enforced fresh assms(3) audited same [OF v(5)] tx(3)
    by (auto simp: active_sessions_def new_session_def is_revoked_def)
  moreover have "active_sessions ?now (usr_id u) (tables s1) = active_sessions ?now (usr_id u) (tables s)"
    using reset same [OF reset(2)] by (simp add: active_sessions_def)
  ultimately show ?thesis using enforced v(2) by simp
qed

lemma unchanged_steps:
  "check_login_throttle L cfg e s = (Inr (), t) \<Longrightarrow> tables t = tables s \<and> memory t = memory s"
  "io_guard b err s = (Inr (), t) \<Longrightarrow> t = s"
  "rate_limited check s = (Inr (), t)
     \<Longrightarrow> tables t = tables s \<and> clock (memory t) = clock (memory s) \<and> draws (memory t) = draws (memory s)"
  "verify L password encoded s = (r, t) \<Longrightarrow> t = s"
  by (auto simp: check_login_throttle_def rate_limited_def current_time_def get_memory_def with_memory_def io_bind_Inr
      sql_select_Inr io_guard_def io_ok_def io_fail_def verify_def io_lift_def Let_def split: if_splits prod.splits)

lemma login_opens:
  assumes "login L cfg xff email password s = (Inr r, s')"
  obtains u t t' where "u \<in> set (user_table (tables s))" "open_session L cfg u t = (Inr r, t')" "tables t = tables s"
    "clock (memory t) = clock (memory s)" "draws (memory t) = draws (memory s)"
    "session_table (tables s') = session_table (tables t')" "revocation_table (tables s') = revocation_table (tables t')"
    "clock (memory s') = clock (memory t')"
proof -
  let ?email = "str_trim email"
  obtain s1 locked s2 s3 s4 s5 found s6 ok s7 where
    chain: "check_login_throttle L cfg ?email s = (Inr (), s1)" "sql_select (\<lambda>d. list_ex (\<lambda>u. same_email L ?email u
         \<and> (case usr_locked_until u of None \<Rightarrow> False | Some t \<Rightarrow> t > clock (memory s1))) (user_table d)) s1 = (Inr locked, s2)"
      "io_guard (\<not> locked) (App_Conflict ''account is temporarily locked'') s2 = (Inr (), s3)"
      "rate_limited (check_key (''login:ip:'' @ client_ip xff) 300 20) s3 = (Inr (), s4)"
      "rate_limited (check_global ''login:global'' 60 100) s4 = (Inr (), s5)"
      "sql_select (\<lambda>d. find (\<lambda>u. same_email L ?email u \<and> \<not> usr_disabled u) (user_table d)) s5 = (Inr found, s6)"
      "verify L password (map_option usr_password_hash found) s6 = (Inr ok, s7)"
    and rest: "(case found of None \<Rightarrow> refuse_login L ?email
           | Some u \<Rightarrow>
               if \<not> ok then refuse_login L ?email
               else io_bind (open_session L cfg u) (\<lambda>opened.
                 io_then (record_login_attempt L ?email ''success'') (io_ok opened))) s7 = (Inr r, s')"
    using assms unfolding login_def Let_def io_then_def io_bind_Inr current_time_def get_memory_def by auto
  have t: "tables s7 = tables s" "clock (memory s7) = clock (memory s)" "draws (memory s7) = draws (memory s)"
    using unchanged_steps(1) [OF chain(1)] chain(2)[unfolded sql_select_Inr] unchanged_steps(2) [OF chain(3)]
      unchanged_steps(3) [OF chain(4)] unchanged_steps(3) [OF chain(5)] chain(6)[unfolded sql_select_Inr]
      unchanged_steps(4) [OF chain(7)] by simp_all
  have refused: "refuse_login L ?email s7 \<noteq> (Inr r, s')"
    by (auto simp: refuse_login_def io_then_def io_bind_Inr io_fail_def)
  then obtain u where found: "found = Some u" and opened: "io_bind (open_session L cfg u) (\<lambda>opened.
       io_then (record_login_attempt L ?email ''success'') (io_ok opened)) s7 = (Inr r, s')"
    using rest by (auto split: option.splits if_splits)
  then obtain t' where "open_session L cfg u s7 = (Inr r, t')" "session_table (tables s') = session_table (tables t')"
    "revocation_table (tables s') = revocation_table (tables t')" "clock (memory s') = clock (memory t')"
    by (auto simp: io_bind_Inr io_then_def record_login_attempt_def current_time_def get_memory_def sql_execute_Inr io_ok_def)
  moreover have "u \<in> set (user_table (tables s))"
    using t(1) chain(6)[unfolded sql_select_Inr] unchanged_steps(4) [OF chain(7)] found
    by (auto dest!: find_SomeD [OF sym])
  ultimately show thesis using t that by blast
qed

text \<open>
  Property C27: the limit on concurrent sessions is missed by one.  A login of a user revokes the
  oldest sessions down to the limit and then opens one more: after it the user has one session more
  than the limit, if there were that many before it.
\<close>

theorem login_exceeds_limit_by_one:
  assumes "login L cfg xff email password s = (Inr (cookie, me), s')" "keys_distinct (tables s)"
    and "0 < session_idle_minutes cfg" "\<not> is_revoked (tables s) (session_hash_of L (draws (memory s)))"
  shows "\<exists>u \<in> set (user_table (tables s)). usr_id u = me_id me
    \<and> length (active_sessions (clock (memory s)) (usr_id u) (tables s')) =
        min (length (active_sessions (clock (memory s)) (usr_id u) (tables s))) (concurrent_limit_for_role (usr_role u)) + 1"
proof -
  obtain u t t' where u: "u \<in> set (user_table (tables s))" and opened: "open_session L cfg u t = (Inr (cookie, me), t')"
    and t: "tables t = tables s" "clock (memory t) = clock (memory s)" "draws (memory t) = draws (memory s)"
    and t': "session_table (tables s') = session_table (tables t')" "revocation_table (tables s') = revocation_table (tables t')"
    by (rule login_opens [OF assms(1)])
  have "active_sessions now k (tables s') = active_sessions now k (tables t')" for now k
    using t' by (simp add: active_sessions_def is_revoked_def)
  then show ?thesis
    using open_session_effect [OF opened] assms(2-4) t u by auto
qed

end
