(* ===== verification/Auth_Throttle.thy ===== *)
theory Auth_Throttle
  imports Auth_Laws
begin

section \<open>The throttle of login attempts\<close>



text \<open>The rows are one of \<open>R\<close>, and the time is \<open>now\<close>.\<close>

abbreviation quiet :: "attempt_row list set \<Rightarrow> int \<Rightarrow> auth_server \<Rightarrow> bool" where
  "quiet R now \<equiv> holds (\<lambda>d. attempt_table d \<in> R) (\<lambda>m. clock m = now)"

lemma quiet_logs [holds_rules]:
  "keeps (quiet R now) (record_session_event h u t v)"
  "keeps (quiet R now) (record_audit a p x y z w)"
  "keeps (quiet R now) (sql_execute (delete_method method))"
  "keeps (quiet R now) (sql_execute (insert_revocation r))"
  "keeps (quiet R now) (sql_execute (update_users P k))"
  "keeps (quiet R now) (sql_execute (update_session h' l))"
  "keeps (quiet R now) (sql_execute (\<lambda>d. d\<lparr>session_table := st d\<rparr>))"
  "keeps (quiet R now) (sql_execute (\<lambda>d. d\<lparr>user_table := ut d\<rparr>))"
  "keeps (quiet R now) (sql_execute (\<lambda>d. d\<lparr>profile_table := pt d\<rparr>))"
  "keeps (quiet R now) (sql_execute (\<lambda>d. d\<lparr>book_table := bt d\<rparr>))"
  unfolding record_session_event_def record_audit_def
  by (rule holds_execute, simp add: delete_method_def insert_revocation_def update_users_def update_session_def)+

lemma quiet_steps [holds_rules]:
  "keeps (quiet R now) (statement (insert_user L new))"
  "keeps (quiet R now) (statement (insert_session row))"
  "keeps (quiet R now) (statement (fetch_user user_id))"
  "keeps (quiet R now) current_time" "keeps (quiet R now) draw"
  "keeps (quiet R now) (rate_limited check)" "keeps (quiet R now) (verify L password encoded)"
proof -
  show "keeps (quiet R now) (statement (insert_user L new))" "keeps (quiet R now) (statement (insert_session row))"
    "keeps (quiet R now) (statement (fetch_user user_id))"
    by (rule holds_statement, auto simp: insert_user_def insert_session_def fetch_user_def split: if_splits option.splits)+
  show "keeps (quiet R now) current_time" unfolding current_time_def by (intro holds_rules)
  show "keeps (quiet R now) draw" unfolding draw_def by (rule holds_memory) simp
  show "keeps (quiet R now) (rate_limited check)"
    unfolding rate_limited_def by (intro holds_rules holds_memory) (simp add: case_prod_beta)
  show "keeps (quiet R now) (verify L password encoded)" unfolding verify_def by (intro holds_rules)
qed

lemma quiet_parts [holds_rules]:
  "keeps (quiet R now) (check_login_throttle L cfg e)"
  "keeps (quiet R now) (require_user L cfg cookies)"
  "keeps (quiet R now) (create_session L cfg u)"
  "keeps (quiet R now) (revoke_session u h reason who)"
  "keeps (quiet R now) (enforce_concurrent_limit u role)"
  unfolding check_login_throttle_def require_user_def create_session_def revoke_session_def enforce_concurrent_limit_def
  by (intro holds_rules)+


subsection \<open>One attempt for each handler\<close>

text \<open>\<open>moves P Q m\<close>: from a state with \<open>P\<close> the handler ends in one with \<open>Q\<close>, whatever fails.\<close>

definition moves :: "('s \<Rightarrow> bool) \<Rightarrow> ('s \<Rightarrow> bool) \<Rightarrow> ('s, 'e, 'a) io \<Rightarrow> bool" where
  "moves P Q m \<longleftrightarrow> (\<forall>s. P s \<longrightarrow> Q (snd (m s)))"



lemma moves_keeps: "(\<And>s. P s \<Longrightarrow> Q s) \<Longrightarrow> keeps P m \<Longrightarrow> moves P Q m"
  by (simp add: moves_def keeps_def)





lemma quiet_insert_owner [holds_rules]: "keeps (quiet R now) (insert_owner L cfg email name encoded)"
  unfolding insert_owner_def by (intro holds_rules)







subsection \<open>The passwords that are tried\<close>









text \<open>\<open>database_fails m\<close>: only the database makes \<open>m\<close> fail.\<close>

definition database_fails :: "('d, 'm, 'a) handler \<Rightarrow> bool" where
  "database_fails m \<longleftrightarrow> (\<forall>s. case fst (m s) of Inl e \<Rightarrow> (\<exists>what. e = App_Database what) | Inr _ \<Rightarrow> True)"

named_theorems database_rules \<open>handlers that only the database makes fail\<close>

lemma database_failsI: "(\<And>s e t. m s = (Inl e, t) \<Longrightarrow> \<exists>what. e = App_Database what) \<Longrightarrow> database_fails m"
  unfolding database_fails_def by (auto split: sum.split) (metis prod.collapse)

lemma database_failsD: "database_fails m \<Longrightarrow> m s = (Inl e, t) \<Longrightarrow> \<exists>what. e = App_Database what"
  unfolding database_fails_def by (drule spec [of _ s]) simp

lemma database_bind [database_rules]:
  assumes "database_fails m" "\<And>x. database_fails (f x)"
  shows "database_fails (io_bind m f)"
proof (rule database_failsI)
  fix s e t assume run: "io_bind m f s = (Inl e, t)"
  obtain r u where m: "m s = (r, u)" by (cases "m s")
  show "\<exists>what. e = App_Database what"
  proof (cases r)
    case (Inl e')
    with run m show ?thesis using database_failsD [OF assms(1)] by (simp add: io_bind_def)
  next
    case (Inr x)
    with run m show ?thesis using database_failsD [OF assms(2)] by (simp add: io_bind_def)
  qed
qed

lemma database_if [database_rules]:
  "database_fails m \<Longrightarrow> database_fails n \<Longrightarrow> database_fails (if b then m else n)"
  by simp

lemma database_then [database_rules]: "database_fails m \<Longrightarrow> database_fails n \<Longrightarrow> database_fails (io_then m n)"
  unfolding io_then_def by (intro database_rules)

lemma database_base [database_rules]:
  "database_fails (statement f)" "database_fails (sql_select g)" "database_fails (sql_execute h)"
  "database_fails (io_ok x)" "database_fails (get_memory k)" "database_fails (with_memory l)"
  by (auto simp: database_fails_def sql_select_def sql_execute_def statement_def Let_def io_ok_def get_memory_def
      with_memory_def split: option.splits sum.splits prod.splits)

lemma database_transaction [database_rules]: "database_fails m \<Longrightarrow> database_fails (in_transaction m)"
proof -
  assume "database_fails m"
  then have "database_fails (io_then (sql_select (\<lambda>_. ())) (io_bind m (\<lambda>x. io_then (sql_select (\<lambda>_. ())) (io_ok x))))"
    by (intro database_rules)
  from database_failsD [OF this] show ?thesis
    by (intro database_failsI) (auto simp: in_transaction_def split: prod.splits sum.splits)
qed

lemma database_for_each [database_rules]:
  "(\<And>x. database_fails (f x)) \<Longrightarrow> database_fails (io_for_each f xs)"
  by (induction xs) (auto intro: database_rules)










end
