(* ===== verification/Auth_Example.thy ===== *)
theory Auth_Example
  imports Auth_Throttle
begin

section \<open>A small installation\<close>

text \<open>Hashes and encodings are the identity; the user has the role \<open>VIEWER\<close> and two sessions.\<close>

definition plain_lib :: auth_lib where
  "plain_lib =
     \<lparr>hash_password = \<lambda>p n. p, verify_password = \<lambda>p e. Some (p = e), dummy_hash = ''none'', sha256_of = \<lambda>s. s,
      encode_url64 = \<lambda>s. s, decode_url64 = \<lambda>s. Some s, rust_lower = \<lambda>s. s, sql_lower = \<lambda>s. s, uuid_text = \<lambda>u. ''u'',
      random_bytes = \<lambda>n. replicate n CHR ''z'', random_uuid = word_of_nat\<rparr>"

definition plain_settings :: AuthSettings where
  "plain_settings =
     \<lparr>session_idle_minutes = 120, session_absolute_hours = 336, login_throttle_max_attempts = 5,
      login_throttle_window_secs = 300, secure_cookies = False\<rparr>"

definition viewer :: user_row where
  "viewer =
     \<lparr>usr_id = 1, usr_profile_id = 2, usr_email = ''v@x'', usr_display_name = ''V'', usr_role = ''VIEWER'',
      usr_password_hash = ''pw'', usr_auth_epoch = 1, usr_disabled = False, usr_failures = 0, usr_locked_until = None\<rparr>"

definition session_named :: "string \<Rightarrow> session_row" where
  "session_named h = new_session plain_settings 0 h viewer"

definition installation :: auth_server where
  "installation =
     \<lparr>tables = \<lparr>user_table = [viewer], session_table = [session_named ''a'', session_named ''b''], revocation_table = [],
        session_event_table = [], attempt_table = [], method_table = [], audit_table = [], profile_table = [],
        book_table = []\<rparr>,
      memory = \<lparr>clock = 1, draws = 1, limiter = new_limiter\<rparr>, faults = []\<rparr>"

lemma library_simps [simp]:
  "verify_password plain_lib p e = Some (p = e)" "sha256_of plain_lib s = s" "encode_url64 plain_lib s = s"
  "rust_lower plain_lib s = s" "sql_lower plain_lib s = s" "random_bytes plain_lib n = replicate n CHR ''z''"
  "token_hash plain_lib s = s" "secure_cookies plain_settings = False" "session_hash_of plain_lib n = replicate n CHR ''z''"
  by (simp_all add: plain_lib_def plain_settings_def token_hash_def session_hash_of_def)

lemma installation_parts [simp]:
  "faults installation = []" "clock (memory installation) = 1" "draws (memory installation) = 1"
  "user_table (tables installation) = [viewer]" "attempt_table (tables installation) = []"
  "session_table (tables installation) = [session_named ''a'', session_named ''b'']"
  "revocation_table (tables installation) = []"
  by (simp_all add: installation_def)

lemma named_parts [simp]:
  "ses_token_hash (session_named h) = h" "ses_user_id (session_named h) = 1" "ses_auth_epoch (session_named h) = 1"
  "ses_expires_at (session_named h) = 7200000000" "ses_absolute_expires_at (session_named h) = 1209600000000"
  "ses_created_at (session_named h) = 0"
  by (simp_all add: session_named_def new_session_def viewer_def plain_settings_def)

lemma cookies:
  "session_token (Some ''gobrowse_session=a'') False = Some ''a''"
  "session_token (Some ''gobrowse_session=b'') False = Some ''b''"
proof -
  have "str_trim ''gobrowse_session=a'' = ''gobrowse_session=a''"
    "str_trim ''gobrowse_session=b'' = ''gobrowse_session=b''"
    by (simp_all add: str_trim_def utf8_width_def slice_is_ws_def is_whitespace_def byte_def)
  moreover have "split_on CHR '';'' ''gobrowse_session=a'' = [''gobrowse_session=a'']"
    "split_on CHR '';'' ''gobrowse_session=b'' = [''gobrowse_session=b'']"
    "split_once CHR ''='' ''gobrowse_session=a'' = Some (''gobrowse_session'', ''a'')"
    "split_once CHR ''='' ''gobrowse_session=b'' = Some (''gobrowse_session'', ''b'')"
    by code_simp+
  ultimately show "session_token (Some ''gobrowse_session=a'') False = Some ''a''"
    "session_token (Some ''gobrowse_session=b'') False = Some ''b''"
    by (simp_all add: session_token_def cookie_name_def map_filter_simps)
qed

lemma installed_users:
  "require_user plain_lib plain_settings (Some ''gobrowse_session=a'') installation = (Inr (user_as viewer ''a''), installation)"
  "require_user plain_lib plain_settings (Some ''gobrowse_session=b'') installation = (Inr (user_as viewer ''b''), installation)"
  by (simp_all add: require_user_def cookies session_user_def is_revoked_def io_bind_def io_lift_def io_ok_def
      current_time_def get_memory_def) (simp_all add: viewer_def)

subsection \<open>The properties, on it\<close>

theorem revoked_sessions_stay_dead_witness:
  "\<exists>s'. revoke_other_sessions plain_lib plain_settings (Some ''gobrowse_session=a'') installation = (Inr 200, s')
     \<and> (\<exists>e. fst (require_user plain_lib plain_settings (Some ''gobrowse_session=b'')
           (handle_all plain_lib plain_settings [Req_Pass 7, Req_List (Some ''gobrowse_session=a'')] s')) = Inl e)"
proof -
  let ?r = "revoke_other_sessions plain_lib plain_settings (Some ''gobrowse_session=a'') installation"
  have "fst ?r = Inr 200"
    by (simp add: revoke_other_sessions_def installed_users io_bind_def user_as_def revoke_all_other_sessions_def
        in_transaction_def io_then_def io_ok_def revoke_session_def
        record_session_event_def record_audit_def viewer_def)
  then obtain s' where r: "?r = (Inr 200, s')" by (cases ?r) simp
  have "\<exists>e. fst (require_user plain_lib plain_settings (Some ''gobrowse_session=b'')
           (handle_all plain_lib plain_settings [Req_Pass 7, Req_List (Some ''gobrowse_session=a'')] s')) = Inl e"
    by (rule revoked_sessions_stay_dead [OF r, of "user_as viewer ''a''" "session_named ''b''" "''b''"])
      (simp_all add: installed_users cookies, simp_all add: user_as_def viewer_def)
  with r show ?thesis by blast
qed

theorem rotation_ends_sessions_witness:
  "\<exists>s'. rotate_sessions plain_lib plain_settings (Some ''gobrowse_session=a'') 1 installation = (Inr (), s')
     \<and> (\<exists>e. fst (require_user plain_lib plain_settings (Some ''gobrowse_session=b'')
           (handle_all plain_lib plain_settings [Req_Pass 7] s')) = Inl e)"
proof -
  let ?r = "rotate_sessions plain_lib plain_settings (Some ''gobrowse_session=a'') 1 installation"
  have "fst ?r = Inr ()"
    by (simp add: rotate_sessions_def installed_users io_bind_def user_as_def
        in_transaction_def io_then_def io_ok_def record_audit_def viewer_def)
  then obtain s' where r: "?r = (Inr (), s')" by (cases ?r) simp
  have "\<exists>e. fst (require_user plain_lib plain_settings (Some ''gobrowse_session=b'')
           (handle_all plain_lib plain_settings [Req_Pass 7] s')) = Inl e"
  proof (rule rotation_ends_sessions)
    show "keys_distinct (tables installation)"
      by (simp add: keys_distinct_def)
    show "fst (require_user plain_lib plain_settings (Some ''gobrowse_session=b'') installation) = Inr (user_as viewer ''b'')"
      by (simp add: installed_users)
    show "rotate_sessions plain_lib plain_settings (Some ''gobrowse_session=a'') (me_id (user_as viewer ''b'')) installation = (Inr (), s')"
      using r by (simp add: user_as_def viewer_def)
    show "session_token (Some ''gobrowse_session=b'') (secure_cookies plain_settings) = Some ''b''" by (simp add: cookies)
    show "\<forall>n\<ge>draws (memory installation). session_hash_of plain_lib n \<noteq> token_hash plain_lib ''b''"
    proof (intro allI impI)
      fix n
      show "session_hash_of plain_lib n \<noteq> token_hash plain_lib ''b''" by (cases n) auto
    qed
  qed
  with r show ?thesis by blast
qed

subsection \<open>A login\<close>

text \<open>The user signs in where there are no sessions, and where there are two.\<close>

definition signed_out :: auth_server where
  "signed_out = installation\<lparr>tables := tables installation\<lparr>session_table := []\<rparr>\<rparr>"

lemma viewer_parts [simp]:
  "usr_id viewer = 1" "usr_email viewer = ''v@x''" "usr_role viewer = ''VIEWER''" "usr_password_hash viewer = ''pw''"
  "usr_auth_epoch viewer = 1" "\<not> usr_disabled viewer" "usr_locked_until viewer = None"
  by (simp_all add: viewer_def)

lemma email_trimmed: "str_trim ''v@x'' = ''v@x''"
  by (simp add: str_trim_def utf8_width_def slice_is_ws_def is_whitespace_def byte_def)

lemma limiter_empty: "limiter (memory installation) = new_limiter"
  by (simp add: installation_def)

lemma not_limited:
  obtains r r' where "check_key k 300 20 0 new_limiter = (False, r)" "check_global b 60 100 0 r = (False, r')"
proof -
  have "check_key k 300 20 0 new_limiter =
      (False, new_limiter\<lparr>key_buckets := [(k, 300, \<lparr>slots = [(0, 1)], window_secs = 300\<rparr>)]\<rparr>)"
    by (simp add: check_key_def hit_def new_limiter_def new_counter_def retained_def slot_of_def Let_def table_insert_def)
  moreover have "check_global b 60 100 0 (new_limiter\<lparr>key_buckets := ks\<rparr>) =
      (False, \<lparr>key_buckets = ks, global_buckets = [(b, \<lparr>slots = [(0, 1)], window_secs = 60\<rparr>)]\<rparr>)" for ks
    by (simp add: table_insert_def check_global_def hit_def new_limiter_def new_counter_def retained_def slot_of_def Let_def)
  ultimately show thesis by (rule that)
qed

lemma effects:
  "io_bind (\<lambda>s. (Inr x, f s)) g s = g x (f s)" "m s = (Inr x, t) \<Longrightarrow> io_bind m g s = g x t"
  "m s = (Inr x, t) \<Longrightarrow> io_then m n s = n t" "io_ok y s = (Inr y, s)"
  by (simp_all add: io_bind_def io_then_def io_ok_def)

lemma rate_limited_ok:
  "check 0 (limiter (memory s)) = (False, r) \<Longrightarrow> clock (memory s) = 1
     \<Longrightarrow> rate_limited check s = (Inr (), s\<lparr>memory := (memory s)\<lparr>limiter := r\<rparr>\<rparr>)"
  by (simp add: rate_limited_def with_memory_def now_ms_def io_bind_def io_guard_def io_ok_def)

lemma first_login:
  assumes "tables s = tables installation\<lparr>session_table := ss\<rparr>" "memory s = memory installation" "faults s = []"
  obtains t where "login plain_lib plain_settings None ''v@x'' ''pw'' s =
      io_bind (open_session plain_lib plain_settings viewer) (\<lambda>opened.
        io_then (record_login_attempt plain_lib ''v@x'' ''success'') (io_ok opened)) t"
    "tables t = tables s" "clock (memory t) = 1" "draws (memory t) = 1" "faults t = []"
proof -
  obtain r r' where r: "check_key (''login:ip:'' @ client_ip None) 300 20 0 new_limiter = (False, r)"
    and r': "check_global ''login:global'' 60 100 0 r = (False, r')"
    by (rule not_limited)
  define s1 where "s1 = s\<lparr>memory := (memory s)\<lparr>limiter := r\<rparr>\<rparr>"
  define s2 where "s2 = s1\<lparr>memory := (memory s1)\<lparr>limiter := r'\<rparr>\<rparr>"
  note defs = assms io_bind_def io_then_def io_guard_def io_ok_def io_lift_def current_time_def get_memory_def
  have one: "rate_limited (check_key (''login:ip:'' @ client_ip None) 300 20) s = (Inr (), s1)"
    unfolding s1_def by (rule rate_limited_ok) (simp_all only: assms limiter_empty r installation_parts)
  have two: "rate_limited (check_global ''login:global'' 60 100) s1 = (Inr (), s2)"
    unfolding s2_def by (rule rate_limited_ok) (simp_all add: s1_def assms r')
  have "check_login_throttle plain_lib plain_settings ''v@x'' s = (Inr (), s)"
    by (simp add: check_login_throttle_def defs) (simp add: plain_settings_def)
  moreover have "current_time s = (Inr 1, s)" by (simp add: defs)
  moreover have "sql_select (\<lambda>d. list_ex (\<lambda>u. same_email plain_lib ''v@x'' u
      \<and> (case usr_locked_until u of None \<Rightarrow> False | Some t \<Rightarrow> t > 1)) (user_table d)) s = (Inr False, s)"
    by (simp add: assms)
  moreover have "io_guard True e s = (Inr (), s)" for e :: AppError by (simp add: defs)
  moreover have "sql_select (\<lambda>d. find (\<lambda>u. same_email plain_lib ''v@x'' u \<and> \<not> usr_disabled u) (user_table d)) s2
      = (Inr (Some viewer), s2)"
    by (simp add: s1_def s2_def assms same_email_def)
  moreover have "verify plain_lib ''pw'' (map_option usr_password_hash (Some viewer)) s2 = (Inr True, s2)"
    by (simp add: verify_def defs)
  ultimately have "login plain_lib plain_settings None ''v@x'' ''pw'' s =
      io_bind (open_session plain_lib plain_settings viewer) (\<lambda>opened.
        io_then (record_login_attempt plain_lib ''v@x'' ''success'') (io_ok opened)) s2"
    unfolding login_def email_trimmed Let_def by (simp only: effects one two not_False_eq_True option.case option.map viewer_parts if_False not_True_eq_False)
  then show thesis using that [of s2] by (simp add: s1_def s2_def assms)
qed

lemma opened:
  assumes "tables s = tables installation\<lparr>session_table := ss\<rparr>" "clock (memory s) = 1" "draws (memory s) = 1"
    "faults s = []" "ss = [] \<or> ss = [session_named ''a'', session_named ''b'']"
  obtains x t where "open_session plain_lib plain_settings viewer s = (Inr x, t)" "faults t = []" "clock (memory t) = 1"
    "session_table (tables t) = ss @ [new_session plain_settings 1 ''z'' viewer]" "user_table (tables t) = [viewer]"
    "ss = [] \<longrightarrow> revocation_table (tables t) = []"
proof -
  have "\<exists>x t. open_session plain_lib plain_settings viewer s = (Inr x, t) \<and> faults t = [] \<and> clock (memory t) = 1
      \<and> session_table (tables t) = ss @ [new_session plain_settings 1 ''z'' viewer] \<and> user_table (tables t) = [viewer]
      \<and> (ss = [] \<longrightarrow> revocation_table (tables t) = [])"
    using assms(5,1-4)
    by (elim disjE) (simp_all add: open_session_def in_transaction_def io_then_def io_bind_def io_ok_def
      enforce_concurrent_limit_def current_time_def get_memory_def active_sessions_def is_revoked_def
      concurrent_limit_for_role_def create_session_def fetch_user_def update_users_def draw_def with_memory_def
      insert_session_def new_session_def revoke_session_def insert_revocation_def record_session_event_def
      record_audit_def Let_def viewer_def)
  then show ?thesis using that by blast
qed

lemma login_works:
  assumes "tables s = tables installation\<lparr>session_table := ss\<rparr>" "memory s = memory installation" "faults s = []"
    and "ss = [] \<or> ss = [session_named ''a'', session_named ''b'']"
  obtains x t where "login plain_lib plain_settings None ''v@x'' ''pw'' s = (Inr x, t)" "faults t = []"
    "clock (memory t) = 1" "session_table (tables t) = ss @ [new_session plain_settings 1 ''z'' viewer]"
    "user_table (tables t) = [viewer]" "ss = [] \<longrightarrow> revocation_table (tables t) = []"
proof -
  obtain t where login: "login plain_lib plain_settings None ''v@x'' ''pw'' s =
      io_bind (open_session plain_lib plain_settings viewer) (\<lambda>opened.
        io_then (record_login_attempt plain_lib ''v@x'' ''success'') (io_ok opened)) t"
    and "tables t = tables installation\<lparr>session_table := ss\<rparr>" "clock (memory t) = 1" "draws (memory t) = 1" "faults t = []"
    using first_login [OF assms(1-3)] assms(1) by metis
  then obtain x u where "open_session plain_lib plain_settings viewer t = (Inr x, u)" "faults u = []" "clock (memory u) = 1"
    "session_table (tables u) = ss @ [new_session plain_settings 1 ''z'' viewer]" "user_table (tables u) = [viewer]"
    "ss = [] \<longrightarrow> revocation_table (tables u) = []"
    using opened [OF _ _ _ _ assms(4)] by metis
  then show thesis
    by (intro that [of x "u\<lparr>tables := tables u\<lparr>attempt_table := attempt_table (tables u) @
      [\<lparr>att_email = ''v@x'', att_occurred_at = 1, att_outcome = ''success''\<rparr>]\<rparr>\<rparr>"])
      (simp_all add: login io_bind_def io_then_def io_ok_def record_login_attempt_def current_time_def get_memory_def)
qed

lemma new_cookie: "session_token (Some ''gobrowse_session=z'') False = Some ''z''"
proof -
  have "str_trim ''gobrowse_session=z'' = ''gobrowse_session=z''"
    by (simp add: str_trim_def utf8_width_def slice_is_ws_def is_whitespace_def byte_def)
  moreover have "split_on CHR '';'' ''gobrowse_session=z'' = [''gobrowse_session=z'']"
    "split_once CHR ''='' ''gobrowse_session=z'' = Some (''gobrowse_session'', ''z'')"
    by code_simp+
  ultimately show ?thesis by (simp add: session_token_def cookie_name_def map_filter_simps)
qed

theorem session_lifetime_bounded_witness:
  "\<exists>me. fst (require_user plain_lib plain_settings (Some ''gobrowse_session=z'')
        (handle_all plain_lib plain_settings [Req_Login None ''v@x'' ''pw'', Req_Pass 5] signed_out)) = Inr me
     \<and> (\<exists>r \<in> set (session_table (tables (handle_all plain_lib plain_settings [Req_Login None ''v@x'' ''pw'', Req_Pass 5] signed_out))).
          ses_token_hash r = ''z''
        \<and> clock (memory (handle_all plain_lib plain_settings [Req_Login None ''v@x'' ''pw'', Req_Pass 5] signed_out))
            < ses_created_at r + 7200000000)"
proof -
  obtain x t where t: "login plain_lib plain_settings None ''v@x'' ''pw'' signed_out = (Inr x, t)" "faults t = []"
    "clock (memory t) = 1" "session_table (tables t) = [] @ [new_session plain_settings 1 ''z'' viewer]"
    "user_table (tables t) = [viewer]" "revocation_table (tables t) = []"
    using login_works [of signed_out "[]"] by (auto simp: signed_out_def)
  let ?s = "handle_all plain_lib plain_settings [Req_Login None ''v@x'' ''pw'', Req_Pass 5] signed_out"
  have s: "?s = t\<lparr>memory := (memory t)\<lparr>clock := 6\<rparr>\<rparr>"
    using t by (simp add: handle_all_def pass_def with_memory_def)
  have "fst (require_user plain_lib plain_settings (Some ''gobrowse_session=z'') ?s) = Inr (user_as viewer ''z'')"
    unfolding s
    by (simp add: require_user_def new_cookie t session_user_def is_revoked_def io_bind_def io_lift_def io_ok_def
      current_time_def get_memory_def new_session_def) (simp add: plain_settings_def)
  note accepted = this
  have "session_table (tables signed_out) = []" by (simp add: signed_out_def)
  from session_lifetime_bounded [OF this accepted] obtain r where "r \<in> set (session_table (tables ?s))"
    "ses_token_hash r = ''z''" "clock (memory ?s) < ses_created_at r + session_idle_minutes plain_settings * 60000000"
    unfolding library_simps(8) new_cookie by auto
  moreover have "session_idle_minutes plain_settings = 120" by (simp add: plain_settings_def)
  ultimately have "\<exists>r \<in> set (session_table (tables ?s)). ses_token_hash r = ''z'' \<and> clock (memory ?s) < ses_created_at r + 7200000000"
    by auto
  with accepted show ?thesis by blast
qed


theorem login_exceeds_limit_by_one_witness:
  "\<exists>x s'. login plain_lib plain_settings None ''v@x'' ''pw'' installation = (Inr x, s')
     \<and> length (active_sessions 1 1 (tables s')) = 1 + concurrent_limit_for_role ''VIEWER''"
proof -
  obtain cookie me t where t: "login plain_lib plain_settings None ''v@x'' ''pw'' installation = (Inr (cookie, me), t)"
    by (rule login_works [of installation "[session_named ''a'', session_named ''b'']"]) (auto simp: installation_def)
  from login_exceeds_limit_by_one [OF t] t show ?thesis
    by (simp add: keys_distinct_def active_sessions_def is_revoked_def concurrent_limit_for_role_def plain_settings_def)
qed

end
