(* ===== verification/Spec2Isabelle.thy ===== *)
theory Spec2Isabelle
  imports Agent_Run Activity Policy Redaction Context Scheduler Worktrees Skills Library_Books
    Model_Routing Plugin Sandbox Journal_Ledger Journal_Output Replay_Cache Mcp_Validation
    Mcp_Core Mcp_Auth Mcp_Lifecycle Mcp_Model Mcp_Wire Mcp_Server Mcp_Stdio
    Runtime_Session Filesystem Daemon Daemon_Laws Daemon_Tasks Fs_Reads Fs_Atomic Fs_Disk
    Fs_Disk_Laws Recovery_Store Recovery_Disk Podman_Laws Podman_Service
    Podman_Promises Podman_Example Sandbox_Client Authorize Auth_Example
begin

text \<open>
  A verification development for GobrowseOS: a server for agents that run tools in containers, with
  the daemon that runs the containers, and the library crate that both share.

  \<^bold>\<open>The program and its parts.\<close> \<open>crates/gobrowse-core\<close> holds what the others agree on: the states
  of runs and tasks, policies, plugin manifests, the vocabulary of the sandbox protocol and a
  complete implementation of the Model Context Protocol.  \<open>crates/gobrowse-sandboxd\<close> is the daemon:
  it reads authenticated lines from a socket, answers repeated requests from a replay cache, keeps
  the terminals in a journal, changes the files of workspaces below a trusted root and drives the
  container engine.  \<open>crates/gobrowse-server\<close> is the HTTP server over PostgreSQL; here its client of
  the daemon, its authorization and its sessions are modelled.  A request for a terminal passes
  through \<open>Sandbox_Client\<close>, the line protocol of \<open>Daemon\<close>, \<open>Replay_Cache\<close> and \<open>Journal\<close>, and then
  through \<open>Podman_Terminals\<close> or \<open>Fs_Operations\<close>.

  \<^bold>\<open>The prelude.\<close> \<open>Rust_Std\<close>, \<open>Rust_Str\<close> and \<open>Rust_Text\<close> model what the code uses of the standard
  library: integers of a fixed width with saturating and checked operations, strings as their UTF-8
  bytes, numbers and lines as text.  \<open>Effects\<close> and \<open>Effects_Loops\<close> hold operations that change a
  state and may fail, \<open>io\<close>, with the rules \<open>keeps\<close>, \<open>yields\<close> and \<open>triple\<close> that follow their
  structure.  \<open>Hash_Table\<close> is \<open>HashMap\<close>, \<open>Json\<close> the values of \<open>serde_json\<close>.  \<open>State_Machine\<close> holds
  the locales that several components meet: machines with terminal states, invariants of events and
  steps, ledgers that grant a key once, and conserved stocks.  Each is interpreted in the theory of
  the component that keeps its laws: runs and tasks (\<open>Agent_Run\<close>, \<open>Activity\<close>), the MCP session and
  dispatcher (\<open>Mcp_Lifecycle\<close>, \<open>Mcp_Server\<close>), the journal (\<open>Journal_Ledger\<close>), the replay cache
  (\<open>Replay_Cache\<close>), concurrent requests (\<open>Daemon_Tasks\<close>) and the registry (\<open>Runtime_Session\<close>).  Two
  more stand with their components: \<open>paged_items\<close> in \<open>Mcp_Model\<close> and \<open>table_invariant\<close> in
  \<open>Auth_Laws\<close>.

  \<^bold>\<open>The core crate\<close> (\<open>crates/gobrowse-core/src\<close>).  \<open>Agent_Run\<close> is \<open>agent.rs\<close>: a tool completes only
  after it was authorised, over whole runs, and a run ends for good.  \<open>Activity\<close> is \<open>activity.rs\<close>,
  \<open>Policy\<close> \<open>policy.rs\<close>, \<open>Redaction\<close> \<open>redaction.rs\<close>, \<open>Context\<close> \<open>context.rs\<close>, \<open>Scheduler\<close>
  \<open>scheduler.rs\<close>, \<open>Worktrees\<close> \<open>worktrees.rs\<close>, \<open>Skills\<close> \<open>skills.rs\<close>, \<open>Library_Books\<close> \<open>library.rs\<close>
  (chunking ends, and its chunks give the body back), \<open>Model_Routing\<close> \<open>model.rs\<close>, \<open>fake_model.rs\<close>
  and \<open>tools.rs\<close>, \<open>Plugin\<close> \<open>plugin.rs\<close>, \<open>Sandbox\<close> \<open>sandbox.rs\<close>.  The protocol is \<open>Mcp_Validation\<close>,
  \<open>Mcp_Core\<close>, \<open>Mcp_Auth\<close> (\<open>mcp.rs\<close>), \<open>Mcp_Capabilities\<close>, \<open>Mcp_Request_Id\<close>, \<open>Mcp_Lifecycle\<close>,
  \<open>Mcp_Model\<close>, \<open>Mcp_Wire\<close>, \<open>Mcp_Server\<close> and \<open>Mcp_Stdio\<close>, each the file of \<open>mcp/\<close> with that name:
  messages decode to what was encoded and are bounded, a pending request is settled exactly once, a
  method that was not negotiated never reaches its handler, and the dispatcher moves a negotiation,
  and answers the client, exactly as its specification (\<open>negotiates\<close>, over the offers of the
  handler) says.

  \<^bold>\<open>The daemon\<close> (\<open>crates/gobrowse-sandboxd/src\<close>).  \<open>Journal\<close> is \<open>journal.rs\<close>, its tables as lists
  of rows.  \<open>Journal_Output\<close> proves that they refine one append-only log for each terminal,
  \<open>Journal_Ledger\<close> that starts, inputs and mutations are executed at most once, also over restarts.
  \<open>Replay_Cache\<close> is \<open>replay.rs\<close>.  \<open>Runtime_Session\<close> is the bookkeeping of \<open>runtime.rs\<close>.  \<open>Daemon\<close> is
  \<open>daemon.rs\<close> with the runtime and the file system as arguments, as the code has them as trait
  objects; \<open>Daemon_Laws\<close> proves authentication, the stability of immediate retries, and the exact
  sequence of calls around a mutation, by running the code on services that write down how they are
  called (\<open>watched_runtime\<close>, \<open>watched_directory\<close>, \<open>watched_change\<close>); and \<open>Daemon_Tasks\<close> the same
  protocol for concurrent tasks that share cache and journal, one step of a task being the code up
  to its next operation on shared state.  \<open>Filesystem\<close>, \<open>Fs_Kernel\<close>, \<open>Fs_Trees\<close>, \<open>Fs_Operations\<close>,
  \<open>Fs_Mutations\<close> and \<open>Recovery_Store\<close> are \<open>filesystem.rs\<close>; \<open>Fs_Laws\<close> proves that an operation
  reaches only its workspace, from a kernel that confines \<open>openat2\<close> with its \<open>RESOLVE\<close> flags, and
  other calls for plain names only (\<open>kernel_confined\<close>); \<open>Fs_Reads\<close> that queries are bounded;
  \<open>Fs_Recording\<close> runs the code on a kernel that writes down what the target shows after every call,
  with which \<open>Fs_Atomic\<close> proves that a write is atomic at every moment.  \<open>Fs_Disk\<close>, \<open>Fs_Disk_Laws\<close>
  and \<open>Recovery_Disk\<close> build a small disk that has the laws asked of the kernel.  \<open>Podman_Spec\<close>,
  \<open>Podman_Engine\<close>, \<open>Podman_Recovery\<close>, \<open>Podman_Sessions\<close> and \<open>Podman_Terminals\<close> are the rest of
  \<open>runtime.rs\<close>; \<open>Podman_Laws\<close> and \<open>Podman_Promises\<close> prove that no option is injected into a command
  line, that a restart leaves nothing running, a resume nothing paused, and that a termination
  settles.  \<open>Podman_Service\<close> hands runtime and file system to \<open>Daemon\<close>, as \<open>main.rs\<close> does;
  \<open>Podman_Example\<close> is a small machine.

  \<^bold>\<open>The server\<close> (\<open>crates/gobrowse-server/src\<close>).  \<open>Sandbox_Client\<close> is \<open>sandbox_client.rs\<close>, composed
  with the daemon: what it returns is what the dispatcher answered.  \<open>Server_Core\<close> is \<open>error.rs\<close>
  and a model of the statements and transactions of PostgreSQL, any of which may fail.  \<open>Authorize\<close>
  is \<open>authorize.rs\<close>, \<open>Rate_Limiter\<close> \<open>rate_limiter.rs\<close>, \<open>Session_Manager\<close> \<open>session_manager.rs\<close>,
  \<open>Auth\<close> the handlers of \<open>auth.rs\<close>.  \<open>Auth_Laws\<close> and \<open>Auth_Throttle\<close> prove over all runs of the
  handlers that revoked and rotated sessions stay dead, how long the session of an accepted token
  lives, and how many passwords are tried against a name.  The handlers run one after the other
  there: each handler runs its statements to the end before the next one begins.  \<open>Auth_Example\<close> is
  a small installation.

  \<^bold>\<open>Errors, bounds and fuel.\<close> Errors are values: \<open>Inl\<close> of the code's error type, at every early
  return.  Loops are structural recursions or functions with a measure.  Recursions over a directory
  tree count down from \<open>MAX_WORKSPACE_PATH_COMPONENTS\<close>, the depth at which the code itself stops;
  the removal of a tree has no bound in the code and recurses on the number of descriptors that may
  still be opened (\<open>k_descriptors\<close>), because each level keeps one open and the open fails when
  there is none left.  A loop that ends by a timer has as many rounds as fit before it fires
  (\<open>en_rounds\<close>), any number.  A resume is tried three times, as in the code.

  \<^bold>\<open>Parameters.\<close> Code that is not in the repository is an argument of the definitions: \<open>serde_json\<close>
  at the types of the protocols, \<open>base64\<close>, SHA-256, Argon2, the \<open>uuid\<close> and \<open>url\<close> crates, \<open>podman\<close>
  and pseudo-terminals, the system calls, floating-point arithmetic, the Unicode tables.  What is
  relied on is a named hypothesis (\<open>kernel_confined\<close>, \<open>record_laws\<close>, \<open>restart_laws\<close>), with a
  concrete implementation that has it.  A descriptor is read once, right after it was opened, and
  as of one moment.  PostgreSQL is modelled by the tables that the statements read and write.

  \<^bold>\<open>What modelling showed\<close> is listed with the theorems that show it: among others, the first
  provisioning of every workspace fails, a failed pause can leave a container paused, the replay
  cache can lose a granted execution, a mutation whose deadline falls right after its pause leaves
  the containers paused, the cache of authorizations ignores profile and permissions, no owner is
  ever authorized, a login leaves one session more than the limit, and logins that overlap can
  exceed the throttle.

  \<^bold>\<open>Not modelled.\<close> \<open>crates/gobrowse-web\<close> and \<open>crates/gobrowse-recovery\<close>, which are user
  interfaces.  Of the daemon: \<open>socket.rs\<close> and \<open>main.rs\<close>, which bind a socket and start the parts.
  Of the server: the remaining handlers (\<open>run_api.rs\<close>, \<open>run_tools.rs\<close>, \<open>plugin_api.rs\<close>,
  \<open>library_api.rs\<close>, \<open>ui_api.rs\<close>, \<open>chat.rs\<close>, \<open>task_api.rs\<close> and the other \<open>_api\<close> files), which are
  mostly SQL; the webhooks and outbound requests, the vault, WebAuthn, OIDC and the embedding
  worker, which are mostly calls of other crates; configuration, routing and start-up.  Within the
  modelled files: logging, time stamps that nothing reads back, disk failures of SQLite, and the
  semaphore around the hashing of passwords.
\<close>

end
